(* ===== verification/Prelude.thy ===== *)
theory Prelude
  imports Complex_Main "HOL-Library.List_Lexorder" "HOL-Library.Product_Lexorder"
    "HOL-Library.Char_ord"
begin

text \<open>
  What the components share: Rust results as sums with the \<open>?\<close> operator, the two's complement
  arithmetic of \<open>i128\<close> (checked and wrapping), ordered maps and sets in the order a
  \<open>BTreeMap\<close> or \<open>BTreeSet\<close> iterates, and the ASCII part of Rust's string functions. The lemma
  collections \<open>res_inv\<close> (inversion of results), \<open>dec_val\<close> (values of decimals) and
  \<open>dec_wf\<close> (well-formedness of decimals) are filled by the theories below.
\<close>

named_theorems res_inv \<open>how a result can have come out as Inr\<close>
named_theorems dec_val \<open>the rational value of a decimal operation\<close>
named_theorems dec_wf \<open>well-formedness of the result of a decimal operation\<close>

section \<open>Results\<close>

text \<open>
  \<open>Result<T, E>\<close> is \<open>'e + 'a\<close>, \<open>Inl\<close> the error. \<open>try_bind\<close> is the early return of
  \<open>let x = m?; k\<close>. \<open>map_err\<close> is \<open>Result::map_err\<close>, \<open>ok_or\<close> is \<open>Option::ok_or\<close>.
\<close>

definition try_bind :: "'e + 'a \<Rightarrow> ('a \<Rightarrow> 'e + 'b) \<Rightarrow> 'e + 'b" where
  "try_bind m k = (case m of Inl e \<Rightarrow> Inl e | Inr x \<Rightarrow> k x)"

definition map_err :: "('e \<Rightarrow> 'f) \<Rightarrow> 'e + 'a \<Rightarrow> 'f + 'a" where
  "map_err f m = (case m of Inl e \<Rightarrow> Inl (f e) | Inr x \<Rightarrow> Inr x)"

definition ok_or :: "'e \<Rightarrow> 'a option \<Rightarrow> 'e + 'a" where
  "ok_or e m = (case m of None \<Rightarrow> Inl e | Some x \<Rightarrow> Inr x)"

fun try_fold :: "('s \<Rightarrow> 'a \<Rightarrow> 'e + 's) \<Rightarrow> 's \<Rightarrow> 'a list \<Rightarrow> 'e + 's" where
  "try_fold f s [] = Inr s"
| "try_fold f s (x # xs) = try_bind (f s x) (\<lambda>s'. try_fold f s' xs)"

lemma try_bind_simps [simp]:
  "try_bind (Inl e) k = Inl e"
  "try_bind (Inr x) k = k x"
  by (simp_all add: try_bind_def)

lemma map_err_simps [simp]:
  "map_err f (Inl e) = Inl (f e)"
  "map_err f (Inr x) = Inr x"
  by (simp_all add: map_err_def)

lemma ok_or_simps [simp]:
  "ok_or e None = Inl e"
  "ok_or e (Some x) = Inr x"
  by (simp_all add: ok_or_def)

lemma try_bind_Inr [res_inv]: "try_bind m k = Inr y \<longleftrightarrow> (\<exists>x. m = Inr x \<and> k x = Inr y)"
  by (cases m) auto

lemma map_err_Inr [res_inv]: "map_err f m = Inr y \<longleftrightarrow> m = Inr y"
  by (cases m) auto

lemma ok_or_Inr [res_inv]: "ok_or e m = Inr y \<longleftrightarrow> m = Some y"
  by (cases m) auto

lemma try_bind_cong [fundef_cong]:
  "m = m' \<Longrightarrow> (\<And>x. m' = Inr x \<Longrightarrow> k x = k' x) \<Longrightarrow> try_bind m k = try_bind m' k'"
  by (cases m') auto

lemma try_bind_split:
  "P (try_bind m k) \<longleftrightarrow> (\<forall>e. m = Inl e \<longrightarrow> P (Inl e)) \<and> (\<forall>x. m = Inr x \<longrightarrow> P (k x))"
  by (cases m) auto

text \<open>An invariant of the accumulator that every successful step keeps holds at the end.\<close>

lemma try_fold_invariant:
  assumes "try_fold f s xs = Inr s'" and "I s"
    and "\<And>t x t'. x \<in> set xs \<Longrightarrow> I t \<Longrightarrow> f t x = Inr t' \<Longrightarrow> I t'"
  shows "I s'"
  using assms
proof (induction xs arbitrary: s)
  case Nil
  then show ?case by simp
next
  case (Cons x xs)
  then obtain t where t: "f s x = Inr t" "try_fold f t xs = Inr s'" by (auto simp: res_inv)
  with Cons.prems have "I t" by auto
  with t Cons.prems show ?case by (intro Cons.IH [of t]) auto
qed

text \<open>A fold that pushes one result per element is a map over results.\<close>

lemma try_fold_collect [res_inv]:
  "try_fold (\<lambda>acc x. try_bind (f x) (\<lambda>y. Inr (acc @ [y]))) acc xs = Inr ys \<longleftrightarrow>
     (\<exists>zs. ys = acc @ zs \<and> list_all2 (\<lambda>x z. f x = Inr z) xs zs)"
proof (induction xs arbitrary: acc)
  case (Cons x xs)
  then show ?case by (auto simp: try_bind_Inr list_all2_Cons1)
qed auto

section \<open>Machine integers\<close>

text \<open>
  An \<open>i128\<close> is an \<open>int\<close> within \<open>in_i128\<close>. The operators \<open>*\<close> and \<open>+\<close> of the
  source wrap (the release profiles build without overflow checks); \<open>checked_mul\<close> and
  \<open>checked_add\<close> return \<open>None\<close> instead.
\<close>

definition i128_max :: int where "i128_max = 2 ^ 127 - 1"

definition i128_min :: int where "i128_min = - (2 ^ 127)"

definition in_i128 :: "int \<Rightarrow> bool" where
  "in_i128 z \<longleftrightarrow> i128_min \<le> z \<and> z \<le> i128_max"

definition wrap_i128 :: "int \<Rightarrow> int" where
  "wrap_i128 z = (z + 2 ^ 127) mod 2 ^ 128 - 2 ^ 127"

definition checked_i128 :: "int \<Rightarrow> int option" where
  "checked_i128 z = (if in_i128 z then Some z else None)"

lemma in_i128_wrap [simp]: "in_i128 (wrap_i128 z)"
  using pos_mod_bound [of "2 ^ 128" "z + 2 ^ 127"] pos_mod_sign [of "2 ^ 128" "z + 2 ^ 127"]
  by (simp add: in_i128_def i128_min_def i128_max_def wrap_i128_def)

lemma wrap_i128_id: "in_i128 z \<Longrightarrow> wrap_i128 z = z"
  by (simp add: in_i128_def i128_min_def i128_max_def wrap_i128_def)

lemma checked_i128_Some [res_inv, simp]: "checked_i128 z = Some w \<longleftrightarrow> in_i128 z \<and> w = z"
  by (auto simp: checked_i128_def)

lemma in_i128_abs_le: "in_i128 b \<Longrightarrow> \<bar>a\<bar> \<le> \<bar>b\<bar> \<Longrightarrow> b \<noteq> i128_min \<Longrightarrow> in_i128 a"
  by (auto simp: in_i128_def i128_min_def i128_max_def)

lemma in_i128_bound: "\<bar>z\<bar> \<le> 10 ^ 38 \<Longrightarrow> in_i128 z"
  by (auto simp: in_i128_def i128_min_def i128_max_def)

lemma in_i128_literals [simp]: "in_i128 0" "in_i128 1"
  by (simp_all add: in_i128_def i128_min_def i128_max_def)

section \<open>Ordered maps and sets\<close>

text \<open>
  A \<open>BTreeMap<K, V>\<close> is the association list of its entries in key order, without duplicate
  keys: \<open>map_of\<close> is \<open>get\<close>, \<open>btm_insert\<close> is \<open>insert\<close>, the list itself is what iteration
  yields. A \<open>BTreeSet<T>\<close> is the strictly sorted list of its elements.
\<close>

type_synonym ('k, 'v) btree_map = "('k \<times> 'v) list"
type_synonym 'a btree_set = "'a list"

fun btm_insert :: "'k::linorder \<Rightarrow> 'v \<Rightarrow> ('k, 'v) btree_map \<Rightarrow> ('k, 'v) btree_map" where
  "btm_insert k v [] = [(k, v)]"
| "btm_insert k v ((a, b) # m) =
     (if k < a then (k, v) # (a, b) # m
      else if k = a then (k, v) # m
      else (a, b) # btm_insert k v m)"

fun bts_insert :: "'a::linorder \<Rightarrow> 'a btree_set \<Rightarrow> 'a btree_set" where
  "bts_insert x [] = [x]"
| "bts_insert x (y # ys) =
     (if x < y then x # y # ys else if x = y then y # ys else y # bts_insert x ys)"

definition btm_ok :: "('k::linorder, 'v) btree_map \<Rightarrow> bool" where
  "btm_ok m \<longleftrightarrow> sorted_wrt (<) (map fst m)"

definition bts_of_list :: "'a::linorder list \<Rightarrow> 'a btree_set" where
  "bts_of_list xs = foldr bts_insert xs []"

lemma set_bts_insert [simp]: "set (bts_insert x ys) = insert x (set ys)"
  by (induction ys) auto

lemma set_bts_of_list [simp]: "set (bts_of_list xs) = set xs"
  by (induction xs) (auto simp: bts_of_list_def)

lemma sorted_bts_insert: "sorted_wrt (<) ys \<Longrightarrow> sorted_wrt (<) (bts_insert x ys)"
  by (induction ys) auto

lemma keys_btm_insert [simp]: "fst ` set (btm_insert k v m) = insert k (fst ` set m)"
  by (induction k v m rule: btm_insert.induct) auto

lemma btm_insert_values: "snd ` set (btm_insert k v m) \<subseteq> insert v (snd ` set m)"
  by (induction k v m rule: btm_insert.induct) auto

lemma btm_ok_Nil [simp]: "btm_ok []"
  by (simp add: btm_ok_def)

lemma btm_ok_insert [simp, intro]: "btm_ok m \<Longrightarrow> btm_ok (btm_insert k v m)"
  unfolding btm_ok_def
proof (induction k v m rule: btm_insert.induct)
  case (2 k v a b m)
  have "\<forall>x \<in> fst ` set (btm_insert k v m). a < x" if "\<not> k < a" "k \<noteq> a"
    using 2(2) that by auto
  with 2 show ?case by auto
qed auto

lemma map_of_btm_insert: "map_of (btm_insert k v m) = (map_of m)(k \<mapsto> v)"
  by (induction k v m rule: btm_insert.induct) (auto simp: fun_eq_iff)

lemma lookup_btm_insert: "btm_ok m \<Longrightarrow> map_of (btm_insert k v m) = (map_of m)(k \<mapsto> v)"
  by (rule map_of_btm_insert)

text \<open>
  The contract the clients of an ordered map rely on, and its interpretation on the two
  functions above.
\<close>

locale ordered_map =
  fixes lookup :: "'m \<Rightarrow> 'k::linorder \<Rightarrow> 'v option"
    and insert :: "'k \<Rightarrow> 'v \<Rightarrow> 'm \<Rightarrow> 'm"
    and keys :: "'m \<Rightarrow> 'k list"
    and invar :: "'m \<Rightarrow> bool"
  assumes lookup_insert: "invar m \<Longrightarrow> lookup (insert k v m) = (lookup m)(k \<mapsto> v)"
    and invar_insert: "invar m \<Longrightarrow> invar (insert k v m)"
    and keys_sorted: "invar m \<Longrightarrow> sorted_wrt (<) (keys m)"
    and keys_lookup: "invar m \<Longrightarrow> set (keys m) = dom (lookup m)"
begin

lemma insert_get: "invar m \<Longrightarrow> lookup (insert k v m) k = Some v"
  by (simp add: lookup_insert)

lemma insert_other: "invar m \<Longrightarrow> k \<noteq> k' \<Longrightarrow> lookup (insert k v m) k' = lookup m k'"
  by (simp add: lookup_insert)

lemma keys_insert: "invar m \<Longrightarrow> set (keys (insert k v m)) = {k} \<union> set (keys m)"
  by (simp add: keys_lookup lookup_insert invar_insert)

lemma keys_distinct: "invar m \<Longrightarrow> distinct (keys m)"
  using keys_sorted [of m] by (simp add: strict_sorted_iff)

end

interpretation btm: ordered_map map_of btm_insert "map fst" btm_ok
proof unfold_locales
  fix m :: "('k::linorder \<times> 'v) list"
  assume "btm_ok m"
  then show "sorted_wrt (<) (map fst m)" by (simp add: btm_ok_def)
  show "set (map fst m) = dom (map_of m)" by (simp add: dom_map_of_conv_image_fst)
qed (auto simp: lookup_btm_insert)

end
