(* ===== verification/Ascii.thy ===== *)
theory Ascii
  imports Prelude
begin

text \<open>
  The string functions of the Rust standard library that the components use, on ASCII text: a
  \<open>string\<close> is the list of its bytes. Identifiers in this code base (symbols, venues, asset
  classes, currency codes, account and sleeve ids) are ASCII; for other Unicode letters
  \<open>to_uppercase\<close> and \<open>to_lowercase\<close> of the source do more than these functions.
\<close>

definition code :: "char \<Rightarrow> nat" where
  "code c = of_char c"

definition upper_char :: "char \<Rightarrow> char" where
  "upper_char c = (if 97 \<le> code c \<and> code c \<le> 122 then char_of (code c - 32) else c)"

definition lower_char :: "char \<Rightarrow> char" where
  "lower_char c = (if 65 \<le> code c \<and> code c \<le> 90 then char_of (code c + 32) else c)"

definition is_space :: "char \<Rightarrow> bool" where
  "is_space c \<longleftrightarrow> (9 \<le> code c \<and> code c \<le> 13) \<or> code c = 32"

definition is_digit :: "char \<Rightarrow> bool" where
  "is_digit c \<longleftrightarrow> 48 \<le> code c \<and> code c \<le> 57"

definition is_upper :: "char \<Rightarrow> bool" where
  "is_upper c \<longleftrightarrow> 65 \<le> code c \<and> code c \<le> 90"

definition is_alnum :: "char \<Rightarrow> bool" where
  "is_alnum c \<longleftrightarrow> is_digit c \<or> is_upper c \<or> (97 \<le> code c \<and> code c \<le> 122)"

definition to_upper :: "string \<Rightarrow> string" where
  "to_upper s = map upper_char s"

definition to_lower :: "string \<Rightarrow> string" where
  "to_lower s = map lower_char s"

definition trim :: "string \<Rightarrow> string" where
  "trim s = rev (dropWhile is_space (rev (dropWhile is_space s)))"

definition eq_ignore_case :: "string \<Rightarrow> string \<Rightarrow> bool" where
  "eq_ignore_case s t \<longleftrightarrow> map lower_char s = map lower_char t"

text \<open>\<open>str::split_once(c)\<close>: around the first occurrence of \<open>c\<close>.\<close>

fun split_once :: "char \<Rightarrow> string \<Rightarrow> (string \<times> string) option" where
  "split_once c [] = None"
| "split_once c (x # xs) =
     (if x = c then Some ([], xs)
      else map_option (\<lambda>(a, b). (x # a, b)) (split_once c xs))"

definition starts_with :: "string \<Rightarrow> string \<Rightarrow> bool" where
  "starts_with p s \<longleftrightarrow> take (length p) s = p"

fun join :: "string \<Rightarrow> string list \<Rightarrow> string" where
  "join sep [] = []"
| "join sep [x] = x"
| "join sep (x # y # ys) = x @ sep @ join sep (y # ys)"

section \<open>Laws\<close>

lemma code_less_256 [simp]: "code c < 256"
  by (simp add: code_def)

lemma code_char_of [simp]: "n < 256 \<Longrightarrow> code (char_of n) = n"
  by (simp add: code_def)

lemma code_inject: "code c = code d \<longleftrightarrow> c = d"
  by (simp add: code_def)

lemma code_upper: "code (upper_char c) = (if 97 \<le> code c \<and> code c \<le> 122 then code c - 32 else code c)"
  using code_less_256 [of c] by (auto simp: upper_char_def)

lemma code_lower: "code (lower_char c) = (if 65 \<le> code c \<and> code c \<le> 90 then code c + 32 else code c)"
  using code_less_256 [of c] by (auto simp: lower_char_def)

lemma upper_upper_char [simp]: "upper_char (upper_char c) = upper_char c"
  using code_upper [of "upper_char c"] code_upper [of c]
  by (auto simp: code_inject [symmetric] split: if_splits)

lemma lower_lower_char [simp]: "lower_char (lower_char c) = lower_char c"
  using code_lower [of "lower_char c"] code_lower [of c]
  by (auto simp: code_inject [symmetric] split: if_splits)

lemma lower_eq_iff_upper_eq: "lower_char c = lower_char d \<longleftrightarrow> upper_char c = upper_char d"
  unfolding code_inject [symmetric] code_lower code_upper by auto

lemma is_space_upper [simp]: "is_space (upper_char c) = is_space c"
  unfolding is_space_def code_upper by auto

lemma is_space_lower [simp]: "is_space (lower_char c) = is_space c"
  unfolding is_space_def code_lower by auto

lemma to_upper_idem [simp]: "to_upper (to_upper s) = to_upper s"
  by (simp add: to_upper_def)

lemma to_lower_idem [simp]: "to_lower (to_lower s) = to_lower s"
  by (simp add: to_lower_def)

lemma eq_ignore_case_upper: "eq_ignore_case s t \<longleftrightarrow> to_upper s = to_upper t"
  unfolding eq_ignore_case_def to_upper_def
  by (induction s t rule: list_induct2') (auto simp: lower_eq_iff_upper_eq)

lemma eq_ignore_case_refl [simp]: "eq_ignore_case s s"
  by (simp add: eq_ignore_case_def)

lemma eq_ignore_case_sym: "eq_ignore_case s t = eq_ignore_case t s"
  by (auto simp: eq_ignore_case_def)

lemma eq_ignore_case_trans: "eq_ignore_case s t \<Longrightarrow> eq_ignore_case t u \<Longrightarrow> eq_ignore_case s u"
  by (simp add: eq_ignore_case_def)

lemma dropWhile_map_pred:
  "(\<And>x. P (f x) = P x) \<Longrightarrow> dropWhile P (map f xs) = map f (dropWhile P xs)"
  by (induction xs) auto

lemma trim_to_upper: "trim (to_upper s) = to_upper (trim s)"
  by (simp add: trim_def to_upper_def dropWhile_map_pred rev_map)

lemma trim_to_lower: "trim (to_lower s) = to_lower (trim s)"
  by (simp add: trim_def to_lower_def dropWhile_map_pred rev_map)

lemma hd_dropWhile_last:
  assumes "xs \<noteq> []" and "\<not> P (last xs)"
  shows "dropWhile P xs \<noteq> [] \<and> last (dropWhile P xs) = last xs"
  using assms by (induction xs) (auto simp: dropWhile_eq_Nil_conv)

lemma trim_idem [simp]: "trim (trim s) = trim s"
proof -
  let ?t = "dropWhile is_space s"
  let ?u = "dropWhile is_space (rev ?t)"
  have u: "dropWhile is_space ?u = ?u" by (simp add: dropWhile_idem)
  show ?thesis
  proof (cases "?u = []")
    case True
    then have e: "trim s = []" unfolding trim_def by simp
    show ?thesis unfolding e by (simp add: trim_def)
  next
    case False
    then have ne: "?t \<noteq> []" by (metis dropWhile.simps(1) rev.simps(1))
    then have nsp: "\<not> is_space (last (rev ?t))"
      by (simp add: last_rev hd_dropWhile)
    have "last ?u = last (rev ?t)" using hd_dropWhile_last [of "rev ?t" is_space] ne nsp by simp
    with nsp False have "\<not> is_space (hd (rev ?u))" by (simp add: hd_rev)
    with False have "dropWhile is_space (rev ?u) = rev ?u"
      by (cases "rev ?u") auto
    with u show ?thesis by (simp add: trim_def)
  qed
qed

lemma split_once_Some: "split_once c s = Some (a, b) \<Longrightarrow> s = a @ c # b \<and> c \<notin> set a"
  by (induction s arbitrary: a) (auto split: if_splits)

lemma split_once_append: "c \<notin> set a \<Longrightarrow> split_once c (a @ c # b) = Some (a, b)"
  by (induction a) auto

lemma split_once_None: "split_once c s = None \<longleftrightarrow> c \<notin> set s"
  by (induction s) auto

end
