(* ===== verification/Decimal.thy ===== *)
theory Decimal
  imports Ascii
begin

text \<open>
  \<open>broker-adapters/src/decimal.rs\<close>: the exact decimal \<open>Dec\<close>, \<open>units / 10^scale\<close> with
  \<open>units: i128\<close> and \<open>scale <= 18\<close>. \<open>dval\<close> is the rational number a decimal denotes and
  \<open>floor_dp\<close>, \<open>ceil_dp\<close> are what rounding to a number of fractional digits means; the lemmas
  show that comparison, addition, multiplication, rounding, normalisation and the text form of
  the code are these. Multiplications the source leaves unchecked wrap here as they do there.
\<close>

section \<open>The type and its operations\<close>

definition MAX_SCALE :: nat where "MAX_SCALE = 18"

datatype dec_error =
    Invalid string
  | TooPrecise string
  | DecOverflow
  | ScaleTooLarge nat
  | BadStep

datatype rounding = Floor | Ceil | HalfUp

datatype ordering = Less | Equal | Greater

record dec =
  dunits :: int
  dscale :: nat

abbreviation Dec :: "int \<Rightarrow> nat \<Rightarrow> dec" where
  "Dec u s \<equiv> \<lparr>dunits = u, dscale = s\<rparr>"

definition pow10 :: "nat \<Rightarrow> int" where
  "pow10 n = wrap_i128 (10 ^ n)"

definition dec_ZERO :: dec where
  "dec_ZERO = Dec 0 0"

definition dec_new :: "int \<Rightarrow> nat \<Rightarrow> dec_error + dec" where
  "dec_new u s = (if s > MAX_SCALE then Inl (ScaleTooLarge s) else Inr (Dec u s))"

definition dec_unit :: "nat \<Rightarrow> dec_error + dec" where
  "dec_unit dp = dec_new 1 dp"

definition from_i64 :: "int \<Rightarrow> dec" where
  "from_i64 v = Dec v 0"

definition is_zero :: "dec \<Rightarrow> bool" where
  "is_zero d \<longleftrightarrow> dunits d = 0"

definition is_negative :: "dec \<Rightarrow> bool" where
  "is_negative d \<longleftrightarrow> dunits d < 0"

definition is_positive :: "dec \<Rightarrow> bool" where
  "is_positive d \<longleftrightarrow> dunits d > 0"

text \<open>The loop of \<open>normalized\<close>: strip one trailing fractional zero while there is one.\<close>

fun norm_loop :: "int \<Rightarrow> nat \<Rightarrow> dec" where
  "norm_loop u 0 = Dec u 0"
| "norm_loop u (Suc s) = (if u mod 10 = 0 then norm_loop (u div 10) s else Dec u (Suc s))"

definition normalized :: "dec \<Rightarrow> dec" where
  "normalized d =
     (let n = norm_loop (dunits d) (dscale d) in if dunits n = 0 then n\<lparr>dscale := 0\<rparr> else n)"

definition decimals :: "dec \<Rightarrow> nat" where
  "decimals d = dscale (normalized d)"

definition int_frac :: "dec \<Rightarrow> int \<times> int" where
  "int_frac d = (dunits d div pow10 (dscale d), dunits d mod pow10 (dscale d))"

text \<open>
  \<open>of_bool\<close> is \<open>i128::from(bool)\<close>. \<open>div\<close> and \<open>mod\<close> by a positive divisor are
  \<open>div_euclid\<close> and \<open>rem_euclid\<close>.
\<close>

definition round_units :: "rounding \<Rightarrow> int \<Rightarrow> int \<Rightarrow> int \<Rightarrow> int" where
  "round_units mode q r b =
     (case mode of
        Floor \<Rightarrow> q
      | Ceil \<Rightarrow> wrap_i128 (q + of_bool (r \<noteq> 0))
      | HalfUp \<Rightarrow> wrap_i128 (q + of_bool (wrap_i128 (r * 2) \<ge> b)))"

definition round_dp :: "dec \<Rightarrow> nat \<Rightarrow> rounding \<Rightarrow> dec_error + dec" where
  "round_dp d dp mode =
     (if dp > MAX_SCALE then Inl (ScaleTooLarge dp)
      else if dscale d \<le> dp
      then Inr (Dec (wrap_i128 (dunits d * pow10 (dp - dscale d))) dp)
      else let b = pow10 (dscale d - dp)
           in Inr (Dec (round_units mode (dunits d div b) (dunits d mod b) b) dp))"

definition round_to_multiple :: "dec \<Rightarrow> dec \<Rightarrow> rounding \<Rightarrow> dec_error + dec" where
  "round_to_multiple d step mode =
     (if \<not> is_positive step then Inl BadStep
      else let s = max (dscale d) (dscale step)
           in try_bind (ok_or DecOverflow (checked_i128 (dunits d * pow10 (s - dscale d)))) (\<lambda>a.
              try_bind (ok_or DecOverflow (checked_i128 (dunits step * pow10 (s - dscale step)))) (\<lambda>b.
              try_bind (ok_or DecOverflow
                (checked_i128 (round_units mode (a div b) (a mod b) b * b))) (\<lambda>u.
              Inr (Dec u s)))))"

definition into_scale_floor :: "dec \<Rightarrow> nat \<Rightarrow> dec option" where
  "into_scale_floor d real_scale =
     (let drop = real_scale - MAX_SCALE
      in if drop > 38 then None else Some (Dec (dunits d div pow10 drop) MAX_SCALE))"

definition checked_mul :: "dec \<Rightarrow> dec \<Rightarrow> dec option" where
  "checked_mul a b =
     (case checked_i128 (dunits a * dunits b) of
        None \<Rightarrow> None
      | Some u \<Rightarrow>
          let s = dscale a + dscale b
          in if s \<le> MAX_SCALE then Some (Dec u s)
             else into_scale_floor (Dec u MAX_SCALE) s)"

definition checked_add :: "dec \<Rightarrow> dec \<Rightarrow> dec option" where
  "checked_add a b =
     (let s = max (dscale a) (dscale b)
      in case checked_i128 (dunits a * pow10 (s - dscale a)) of
           None \<Rightarrow> None
         | Some x \<Rightarrow>
             (case checked_i128 (dunits b * pow10 (s - dscale b)) of
                None \<Rightarrow> None
              | Some y \<Rightarrow> map_option (\<lambda>u. Dec u s) (checked_i128 (x + y))))"

definition cmp_int :: "int \<Rightarrow> int \<Rightarrow> ordering" where
  "cmp_int a b = (if a < b then Less else if a = b then Equal else Greater)"

definition dec_cmp :: "dec \<Rightarrow> dec \<Rightarrow> ordering" where
  "dec_cmp a b =
     (let (ai, af) = int_frac a; (bi, bf) = int_frac b
      in case cmp_int ai bi of
           Equal \<Rightarrow>
             let s = max (dscale a) (dscale b)
             in cmp_int (wrap_i128 (af * pow10 (s - dscale a))) (wrap_i128 (bf * pow10 (s - dscale b)))
         | c \<Rightarrow> c)"

definition dec_lt :: "dec \<Rightarrow> dec \<Rightarrow> bool" where "dec_lt a b \<longleftrightarrow> dec_cmp a b = Less"
definition dec_le :: "dec \<Rightarrow> dec \<Rightarrow> bool" where "dec_le a b \<longleftrightarrow> dec_cmp a b \<noteq> Greater"
definition dec_eq :: "dec \<Rightarrow> dec \<Rightarrow> bool" where "dec_eq a b \<longleftrightarrow> dec_cmp a b = Equal"

text \<open>\<open>std::cmp::min\<close>: the first argument unless it is greater.\<close>

definition dec_min :: "dec \<Rightarrow> dec \<Rightarrow> dec" where
  "dec_min a b = (if dec_cmp a b = Greater then b else a)"

section \<open>What a decimal denotes\<close>

definition dec_ok :: "dec \<Rightarrow> bool" where
  "dec_ok d \<longleftrightarrow> dscale d \<le> 18 \<and> in_i128 (dunits d)"

definition dval :: "dec \<Rightarrow> rat" where
  "dval d = of_int (dunits d) / 10 ^ dscale d"

definition floor_dp :: "nat \<Rightarrow> rat \<Rightarrow> rat" where
  "floor_dp n x = of_int \<lfloor>x * 10 ^ n\<rfloor> / 10 ^ n"

definition ceil_dp :: "nat \<Rightarrow> rat \<Rightarrow> rat" where
  "ceil_dp n x = of_int \<lceil>x * 10 ^ n\<rceil> / 10 ^ n"

lemma Dec_collapse [simp]: "Dec (dunits d) (dscale d) = d"
  by (cases d) simp

lemma floor_dp_le: "floor_dp n x \<le> x"
  by (simp add: floor_dp_def divide_le_eq)

lemma floor_dp_gt: "x - 1 / 10 ^ n < floor_dp n x"
proof -
  have "x * 10 ^ n - 1 < of_int \<lfloor>x * 10 ^ n\<rfloor>" by linarith
  then show ?thesis by (simp add: floor_dp_def less_divide_eq left_diff_distrib)
qed

lemma floor_dp_mono: "x \<le> y \<Longrightarrow> floor_dp n x \<le> floor_dp n y"
  by (simp add: floor_dp_def divide_right_mono floor_mono)

lemma floor_dp_nonneg: "0 \<le> x \<Longrightarrow> 0 \<le> floor_dp n x"
  by (simp add: floor_dp_def)

lemma ceil_dp_ge: "x \<le> ceil_dp n x"
  by (simp add: ceil_dp_def le_divide_eq)

lemma ceil_dp_lt: "ceil_dp n x < x + 1 / 10 ^ n"
proof -
  have "of_int \<lceil>x * 10 ^ n\<rceil> < x * 10 ^ n + 1" by linarith
  then show ?thesis by (simp add: ceil_dp_def divide_less_eq distrib_right)
qed

lemma ceil_dp_mono: "x \<le> y \<Longrightarrow> ceil_dp n x \<le> ceil_dp n y"
  by (simp add: ceil_dp_def divide_right_mono ceiling_mono)

lemma pow10_id [simp]: "n \<le> 38 \<Longrightarrow> pow10 n = 10 ^ n"
  using power_increasing [of n 38 "10::int"]
  unfolding pow10_def by (intro wrap_i128_id in_i128_bound) simp

lemma dval_scaled: "dscale d \<le> S \<Longrightarrow> dval d = of_int (dunits d * 10 ^ (S - dscale d)) / 10 ^ S"
proof -
  assume "dscale d \<le> S"
  then have "(10::rat) ^ S = 10 ^ dscale d * 10 ^ (S - dscale d)" by (simp flip: power_add)
  then show ?thesis by (simp add: dval_def)
qed

lemma dval_less_iff:
  "dscale a \<le> S \<Longrightarrow> dscale b \<le> S \<Longrightarrow>
   dval a < dval b \<longleftrightarrow> dunits a * 10 ^ (S - dscale a) < dunits b * 10 ^ (S - dscale b)"
  by (simp only: dval_scaled [of a S] dval_scaled [of b S] divide_less_cancel of_int_less_iff) simp

lemma dval_eq_iff:
  "dscale a \<le> S \<Longrightarrow> dscale b \<le> S \<Longrightarrow>
   dval a = dval b \<longleftrightarrow> dunits a * 10 ^ (S - dscale a) = dunits b * 10 ^ (S - dscale b)"
  by (simp only: dval_scaled [of a S] dval_scaled [of b S] divide_cancel_right of_int_eq_iff) simp

lemma dval_sign [dec_val]:
  "is_zero d \<longleftrightarrow> dval d = 0"
  "is_negative d \<longleftrightarrow> dval d < 0"
  "is_positive d \<longleftrightarrow> 0 < dval d"
  by (auto simp: dval_def is_zero_def is_negative_def is_positive_def divide_less_0_iff
      zero_less_divide_iff)

lemma dval_nonneg_iff: "0 \<le> dval d \<longleftrightarrow> 0 \<le> dunits d"
  by (metis dval_sign(2) is_negative_def not_less)

lemma dval_ZERO [simp, dec_val]: "dval dec_ZERO = 0"
  by (simp add: dval_def dec_ZERO_def)

lemma dval_from_i64 [simp, dec_val]: "dval (from_i64 v) = of_int v"
  by (simp add: dval_def from_i64_def)

lemma dec_ok_ZERO [simp, dec_wf]: "dec_ok dec_ZERO"
  by (simp add: dec_ok_def dec_ZERO_def)

lemma dec_ok_zero_units [simp, dec_wf]: "dec_ok (Dec 0 0)"
  by (simp add: dec_ok_def)

lemma dunits_ZERO [simp]: "dunits dec_ZERO = 0"
  by (simp add: dec_ZERO_def)

lemma dec_ok_from_i64 [dec_wf]: "- (2 ^ 63) \<le> v \<Longrightarrow> v < 2 ^ 63 \<Longrightarrow> dec_ok (from_i64 v)"
  by (simp add: dec_ok_def from_i64_def in_i128_def i128_max_def i128_min_def)

lemma dec_ok_one [simp, dec_wf]: "dec_ok (from_i64 1)"
  by (rule dec_ok_from_i64) simp_all

section \<open>Comparison\<close>

lemma frac_part_bounds:
  fixes u :: int
  assumes "s \<le> S"
  shows "0 \<le> u mod 10 ^ s * 10 ^ (S - s)" "u mod 10 ^ s * 10 ^ (S - s) < 10 ^ S"
proof -
  have "u mod 10 ^ s * 10 ^ (S - s) < 10 ^ s * (10::int) ^ (S - s)"
    by (intro mult_strict_right_mono) simp_all
  also have "\<dots> = 10 ^ S" using assms by (simp add: power_add [symmetric])
  finally show "u mod 10 ^ s * 10 ^ (S - s) < 10 ^ S" .
qed simp

lemma lex_compare:
  fixes B :: int
  assumes "0 \<le> f" "f < B" "0 \<le> g" "g < B"
  shows "cmp_int (i * B + f) (j * B + g) = (case cmp_int i j of Equal \<Rightarrow> cmp_int f g | c \<Rightarrow> c)"
proof -
  consider "i < j" | "i = j" | "j < i" by linarith
  then show ?thesis
  proof cases
    case 1
    then have "(i + 1) * B \<le> j * B" using assms by (intro mult_right_mono) simp_all
    with assms have "i * B + f < j * B + g" by (simp add: algebra_simps)
    with 1 show ?thesis by (simp add: cmp_int_def)
  next
    case 2
    then show ?thesis by (simp add: cmp_int_def)
  next
    case 3
    then have "(j + 1) * B \<le> i * B" using assms by (intro mult_right_mono) simp_all
    with assms have "j * B + g < i * B + f" by (simp add: algebra_simps)
    with 3 show ?thesis by (simp add: cmp_int_def)
  qed
qed

lemma dec_cmp_units:
  assumes a: "dec_ok a" and b: "dec_ok b" and S: "S = max (dscale a) (dscale b)"
  shows "dec_cmp a b = cmp_int (dunits a * 10 ^ (S - dscale a)) (dunits b * 10 ^ (S - dscale b))"
proof -
  have S18: "S \<le> 18" using a b S by (simp add: dec_ok_def)
  have split: "dunits d * 10 ^ (S - dscale d) =
      dunits d div 10 ^ dscale d * 10 ^ S + dunits d mod 10 ^ dscale d * 10 ^ (S - dscale d)"
    if "dscale d \<le> S" for d
  proof -
    have "dunits d = dunits d div 10 ^ dscale d * 10 ^ dscale d + dunits d mod 10 ^ dscale d"
      by (simp only: div_mult_mod_eq)
    moreover have "(10::int) ^ S = 10 ^ dscale d * 10 ^ (S - dscale d)"
      using that by (simp add: power_add [symmetric])
    ultimately show ?thesis by (metis distrib_right mult.assoc)
  qed
  have frac: "0 \<le> dunits d mod 10 ^ dscale d * 10 ^ (S - dscale d)"
      "dunits d mod 10 ^ dscale d * 10 ^ (S - dscale d) < 10 ^ S" if "dscale d \<le> S" for d
    using frac_part_bounds [OF that] by auto
  have wrap: "wrap_i128 (dunits d mod 10 ^ dscale d * 10 ^ (S - dscale d)) =
      dunits d mod 10 ^ dscale d * 10 ^ (S - dscale d)" if "dscale d \<le> S" for d
  proof (rule wrap_i128_id, rule in_i128_bound)
    have "(10::int) ^ S \<le> 10 ^ 38" using S18 by (intro power_increasing) simp_all
    then show "\<bar>dunits d mod 10 ^ dscale d * 10 ^ (S - dscale d)\<bar> \<le> 10 ^ 38"
      using frac [OF that] by linarith
  qed
  have le: "dscale a \<le> S" "dscale b \<le> S" "dscale a \<le> 38" "dscale b \<le> 38"
    using S a b by (auto simp: dec_ok_def)
  have p: "pow10 (S - dscale a) = 10 ^ (S - dscale a)" "pow10 (S - dscale b) = 10 ^ (S - dscale b)"
    using S18 by simp_all
  show ?thesis
    unfolding split [OF le(1)] split [OF le(2)]
    using lex_compare [OF frac [OF le(1)] frac [OF le(2)]]
    by (simp add: dec_cmp_def int_frac_def Let_def S [symmetric] p le wrap [OF le(1)] wrap [OF le(2)]
        split: ordering.split)
qed

lemma dec_cmp_cases:
  assumes "dec_ok a" and "dec_ok b"
  shows "dec_cmp a b =
    (if dval a < dval b then Less else if dval a = dval b then Equal else Greater)"
  using dec_cmp_units [OF assms refl]
    dval_less_iff [of a "max (dscale a) (dscale b)" b] dval_eq_iff [of a "max (dscale a) (dscale b)" b]
  by (simp add: cmp_int_def)

lemma dec_order [dec_val]:
  assumes "dec_ok a" and "dec_ok b"
  shows "dec_lt a b \<longleftrightarrow> dval a < dval b"
    and "dec_le a b \<longleftrightarrow> dval a \<le> dval b"
    and "dec_eq a b \<longleftrightarrow> dval a = dval b"
  using assms by (auto simp: dec_lt_def dec_le_def dec_eq_def dec_cmp_cases)

lemma dec_min_dval [dec_val]:
  "dec_ok a \<Longrightarrow> dec_ok b \<Longrightarrow> dval (dec_min a b) = min (dval a) (dval b)"
  by (simp add: dec_min_def dec_cmp_cases min_def)

lemma dec_ok_min [dec_wf]: "dec_ok a \<Longrightarrow> dec_ok b \<Longrightarrow> dec_ok (dec_min a b)"
  by (simp add: dec_min_def)

section \<open>Arithmetic\<close>

lemma floor_div_pow: "\<lfloor>of_int u / (10::rat) ^ k\<rfloor> = u div 10 ^ k"
  using floor_divide_of_int_eq [of u "10 ^ k", where 'a = rat] by simp

lemma floor_dp_Dec: "n \<le> s \<Longrightarrow> floor_dp n (dval (Dec u s)) = dval (Dec (u div 10 ^ (s - n)) n)"
proof -
  assume "n \<le> s"
  then have "(10::rat) ^ s = 10 ^ n * 10 ^ (s - n)" by (simp flip: power_add)
  then have "dval (Dec u s) * 10 ^ n = of_int u / 10 ^ (s - n)" by (simp add: dval_def)
  then show ?thesis by (simp add: floor_dp_def floor_div_pow dval_def)
qed

lemma ceil_dp_minus: "ceil_dp n x = - floor_dp n (- x)"
  by (simp add: ceil_dp_def floor_dp_def ceiling_def)

lemma floor_dp_exact: "s \<le> n \<Longrightarrow> floor_dp n (dval (Dec u s)) = dval (Dec u s)"
proof -
  assume "s \<le> n"
  then have "dval (Dec u s) = of_int (u * 10 ^ (n - s)) / 10 ^ n" using dval_scaled [of "Dec u s" n] by simp
  then show ?thesis by (simp add: floor_dp_def flip: of_int_power of_int_mult)
qed

lemma checked_add_dval:
  assumes "checked_add a b = Some c" and "dec_ok a" and "dec_ok b"
  shows "dval c = dval a + dval b \<and> dec_ok c \<and> dscale c = max (dscale a) (dscale b)"
proof -
  let ?s = "max (dscale a) (dscale b)"
  have s: "?s \<le> 18" using assms by (simp add: dec_ok_def)
  have p: "pow10 (?s - dscale a) = 10 ^ (?s - dscale a)" "pow10 (?s - dscale b) = 10 ^ (?s - dscale b)"
    by (rule pow10_id, use s in linarith)+
  have c: "c = Dec (dunits a * 10 ^ (?s - dscale a) + dunits b * 10 ^ (?s - dscale b)) ?s"
    and i: "in_i128 (dunits c)"
    using assms(1) by (auto simp: checked_add_def Let_def p split: option.splits)
  have "dval c = of_int (dunits a * 10 ^ (?s - dscale a)) / 10 ^ ?s
      + of_int (dunits b * 10 ^ (?s - dscale b)) / 10 ^ ?s"
    unfolding c by (simp add: dval_def add_divide_distrib)
  then have "dval c = dval a + dval b"
    using dval_scaled [of a ?s] dval_scaled [of b ?s] by simp
  with s i show ?thesis by (simp add: c dec_ok_def)
qed

lemma div_in_i128: "in_i128 u \<Longrightarrow> 0 < b \<Longrightarrow> in_i128 (u div b)"
proof -
  assume u: "in_i128 u" and b: "0 < b"
  have "u div b \<le> i128_max div b" "i128_min div b \<le> u div b"
    using u b by (auto simp: in_i128_def intro: zdiv_mono1)
  moreover have "i128_max div b \<le> i128_max" "i128_min \<le> i128_min div b"
    using zdiv_mono2 [of i128_max 1 b] zdiv_mono2_neg [of i128_min 1 b] b
    by (simp_all add: i128_max_def i128_min_def)
  ultimately show ?thesis by (simp add: in_i128_def)
qed

lemma checked_mul_dval:
  assumes "checked_mul a b = Some c" and "dec_ok a" and "dec_ok b"
  shows "dval c = floor_dp 18 (dval a * dval b) \<and> dec_ok c"
proof -
  let ?s = "dscale a + dscale b" and ?u = "dunits a * dunits b"
  have s: "?s \<le> 36" using assms by (simp add: dec_ok_def)
  have prod: "dval a * dval b = dval (Dec ?u ?s)" by (simp add: dval_def power_add)
  have i: "in_i128 ?u" and c: "c = (if ?s \<le> 18 then Dec ?u ?s else Dec (?u div 10 ^ (?s - 18)) 18)"
    using assms(1) s
    by (auto simp: checked_mul_def into_scale_floor_def MAX_SCALE_def Let_def split: option.splits if_splits)
  show ?thesis
  proof (cases "?s \<le> 18")
    case True
    then show ?thesis using i by (simp add: c prod floor_dp_exact dec_ok_def)
  next
    case False
    then show ?thesis using i by (simp add: c prod floor_dp_Dec dec_ok_def div_in_i128)
  qed
qed

section \<open>Rounding\<close>

text \<open>
  What the three modes mean: towards minus infinity, towards plus infinity, and to the nearest
  with ties up. \<open>round_int\<close> rounds a rational to an integer.
\<close>

definition round_int :: "rounding \<Rightarrow> rat \<Rightarrow> int" where
  "round_int mode x = (case mode of Floor \<Rightarrow> \<lfloor>x\<rfloor> | Ceil \<Rightarrow> \<lceil>x\<rceil> | HalfUp \<Rightarrow> \<lfloor>x + 1 / 2\<rfloor>)"

lemma ceiling_div:
  fixes u b :: int
  assumes "0 < b"
  shows "\<lceil>of_int u / (of_int b :: rat)\<rceil> = u div b + of_bool (u mod b \<noteq> 0)"
proof -
  have "\<lceil>of_int u / (of_int b :: rat)\<rceil> = - ((- u) div b)" by (rule ceiling_divide_eq_div)
  then show ?thesis using assms by (simp add: zdiv_zminus1_eq_if)
qed

lemma of_bool_half:
  fixes t :: rat
  shows "0 \<le> t \<Longrightarrow> of_int (z + of_bool (1 / 2 \<le> t)) \<le> of_int z + t + 1 / 2"
    and "t < 1 \<Longrightarrow> of_int z + t + 1 / 2 < of_int (z + of_bool (1 / 2 \<le> t)) + 1"
  by (cases "1 / 2 \<le> t"; simp)+

lemma half_up_div:
  fixes u b :: int
  assumes "0 < b"
  shows "\<lfloor>of_int u / (of_int b :: rat) + 1 / 2\<rfloor> = u div b + of_bool (u mod b * 2 \<ge> b)"
proof (rule floor_unique)
  have b: "0 < (of_int b :: rat)" using assms by simp
  have u: "of_int u = of_int (u div b) * of_int b + (of_int (u mod b) :: rat)"
    by (metis div_mult_mod_eq of_int_add of_int_mult)
  have r: "0 \<le> u mod b" "u mod b < b" using assms by simp_all
  have q: "of_int u / of_int b = (of_int (u div b) :: rat) + of_int (u mod b) / of_int b"
    using b by (subst u) (simp add: field_simps)
  have lt1: "of_int (u mod b) / (of_int b :: rat) < 1" using r b by (simp add: divide_less_eq)
  have ge0: "0 \<le> of_int (u mod b) / (of_int b :: rat)" using r b by simp
  have half: "1 / 2 \<le> of_int (u mod b) / (of_int b :: rat) \<longleftrightarrow> b \<le> u mod b * 2"
  proof -
    have "1 / 2 \<le> of_int (u mod b) / (of_int b :: rat) \<longleftrightarrow> of_int b \<le> (of_int (u mod b * 2) :: rat)"
      using b by (simp add: field_simps)
    then show ?thesis by (simp only: of_int_le_iff)
  qed
  show "of_int (u div b + of_bool (u mod b * 2 \<ge> b)) \<le> of_int u / (of_int b :: rat) + 1 / 2"
    unfolding q half [symmetric] using ge0 by (rule of_bool_half)
  show "of_int u / (of_int b :: rat) + 1 / 2 < of_int (u div b + of_bool (u mod b * 2 \<ge> b)) + 1"
    unfolding q half [symmetric] using lt1 by (rule of_bool_half)
qed

lemma div_lt_max: "in_i128 u \<Longrightarrow> 1 < b \<Longrightarrow> u div b < i128_max"
proof -
  assume u: "in_i128 u" and b: "1 < b"
  have "u div b \<le> i128_max div b" using u b by (intro zdiv_mono1) (simp_all add: in_i128_def)
  also have "\<dots> \<le> i128_max div 2" using b by (intro zdiv_mono2) (simp_all add: i128_max_def)
  also have "\<dots> < i128_max" by (simp add: i128_max_def)
  finally show ?thesis .
qed

lemma round_units_int:
  assumes u: "in_i128 u" and b: "0 < b" and h: "mode = HalfUp \<Longrightarrow> in_i128 (2 * b)"
  shows "round_units mode (u div b) (u mod b) b = round_int mode (of_int u / of_int b)"
proof -
  have r: "0 \<le> u mod b" "u mod b < b" using b by simp_all
  have up: "wrap_i128 (u div b + of_bool p) = u div b + of_bool p" if "p \<Longrightarrow> 1 < b" for p
  proof (cases p)
    case True
    with that have "u div b < i128_max" using u div_lt_max by blast
    moreover have "in_i128 (u div b)" using u b by (rule div_in_i128)
    ultimately show ?thesis using True by (intro wrap_i128_id) (simp add: in_i128_def)
  next
    case False
    then show ?thesis using div_in_i128 [OF u b] by (simp add: wrap_i128_id)
  qed
  have one: "u mod b = 0" if "\<not> 1 < b"
  proof -
    from that b have "b = 1" by linarith
    then show ?thesis by simp
  qed
  have w: "wrap_i128 (u mod b * 2) = u mod b * 2" if "mode = HalfUp"
    using h [OF that] r by (intro wrap_i128_id) (simp add: in_i128_def i128_min_def)
  show ?thesis
  proof (cases mode)
    case Floor
    then show ?thesis by (simp add: round_units_def round_int_def floor_divide_of_int_eq)
  next
    case Ceil
    have g: "1 < b" if "u mod b \<noteq> 0" using one that by blast
    show ?thesis using up [of "u mod b \<noteq> 0"] g
      by (simp add: Ceil round_units_def round_int_def ceiling_div [OF b])
  next
    case HalfUp
    have g: "1 < b" if "b \<le> u mod b * 2"
    proof (rule ccontr)
      assume "\<not> 1 < b"
      with one [OF this] that b show False by simp
    qed
    show ?thesis using up [of "u mod b * 2 \<ge> b"] g w [OF HalfUp]
      by (simp add: HalfUp round_units_def round_int_def half_up_div [OF b])
  qed
qed

lemma round_int_of_int [simp]: "round_int mode (of_int z) = z"
proof -
  have "\<lfloor>of_int z + (1 / 2 :: rat)\<rfloor> = z" by (rule floor_unique) simp_all
  then show ?thesis by (cases mode) (simp_all add: round_int_def)
qed

lemma round_int_bounds:
  "of_int (round_int mode x) - 1 < x" "x < of_int (round_int mode x) + 1"
  by (cases mode; simp add: round_int_def; linarith)+

lemma round_int_in_i128:
  assumes "in_i128 u" and "1 < b"
  shows "in_i128 (round_int mode (of_int u / of_int b))"
proof -
  have "round_int mode (of_int u / of_int b) \<in> {u div b, u div b + 1}"
    using assms ceiling_div [of b u] half_up_div [of b u]
    by (cases mode) (auto simp: round_int_def floor_divide_of_int_eq)
  moreover have "in_i128 (u div b)" using assms by (intro div_in_i128) simp_all
  ultimately show ?thesis using div_lt_max [OF assms] by (auto simp: in_i128_def)
qed

text \<open>
  \<open>round_dp\<close> rounds to a multiple of \<open>10^-dp\<close> in the direction asked for, whenever the
  rescaled units of a value with fewer digits still fit.
\<close>

lemma round_dp_val:
  assumes d: "dec_ok d" and dp: "dp \<le> 18"
    and fit: "dscale d \<le> dp \<Longrightarrow> in_i128 (dunits d * 10 ^ (dp - dscale d))"
  shows "\<exists>r. round_dp d dp mode = Inr r \<and> dec_ok r \<and> dscale r = dp
    \<and> dunits r = round_int mode (dval d * 10 ^ dp)
    \<and> dval r = of_int (round_int mode (dval d * 10 ^ dp)) / 10 ^ dp"
proof (cases "dscale d \<le> dp")
  case True
  then have v: "dval d * 10 ^ dp = of_int (dunits d * 10 ^ (dp - dscale d))"
    using dval_scaled [of d dp] by simp
  have r: "round_dp d dp mode = Inr (Dec (dunits d * 10 ^ (dp - dscale d)) dp)"
    using True fit [OF True] dp by (simp add: round_dp_def MAX_SCALE_def wrap_i128_id)
  show ?thesis unfolding r v round_int_of_int using fit [OF True] dp by (simp add: dec_ok_def dval_def)
next
  case False
  let ?b = "(10::int) ^ (dscale d - dp)"
  from d False have s: "dscale d \<le> 18" "in_i128 (dunits d)" "\<not> dscale d \<le> dp"
    by (auto simp: dec_ok_def)
  have b1: "1 < ?b" using False by simp
  have "?b \<le> 10 ^ 18" using s by (intro power_increasing) simp_all
  then have b2: "in_i128 (2 * ?b)" using b1 by (intro in_i128_bound) simp
  have "(10::rat) ^ dscale d = 10 ^ dp * 10 ^ (dscale d - dp)" using s by (simp flip: power_add)
  then have v: "dval d * 10 ^ dp = of_int (dunits d) / of_int ?b" by (simp add: dval_def)
  have r: "round_dp d dp mode = Inr (Dec (round_int mode (of_int (dunits d) / of_int ?b)) dp)"
    using s dp round_units_int [OF s(2) _ b2, of mode] by (simp add: round_dp_def MAX_SCALE_def Let_def)
  show ?thesis unfolding r v using round_int_in_i128 [OF s(2) b1, of mode] dp
    by (simp add: dec_ok_def dval_def)
qed

lemma round_dp_floor:
  assumes "dec_ok d" and "round_dp d dp Floor = Inr r"
    and "dscale d \<le> dp \<Longrightarrow> in_i128 (dunits d * 10 ^ (dp - dscale d))"
  shows "dval r = floor_dp dp (dval d) \<and> dec_ok r"
proof -
  have "dp \<le> 18" using assms(2) by (auto simp: round_dp_def MAX_SCALE_def split: if_splits)
  from round_dp_val [OF assms(1) this assms(3), of Floor] assms(2)
  show ?thesis by (auto simp: floor_dp_def round_int_def)
qed

lemma round_dp_ceil:
  assumes "dec_ok d" and "round_dp d dp Ceil = Inr r"
    and "dscale d \<le> dp \<Longrightarrow> in_i128 (dunits d * 10 ^ (dp - dscale d))"
  shows "dval r = ceil_dp dp (dval d) \<and> dec_ok r"
proof -
  have "dp \<le> 18" using assms(2) by (auto simp: round_dp_def MAX_SCALE_def split: if_splits)
  from round_dp_val [OF assms(1) this assms(3), of Ceil] assms(2)
  show ?thesis by (auto simp: ceil_dp_def round_int_def)
qed

text \<open>
  Whatever the sizes, the result is a well-formed decimal of the scale asked for, and rounding a
  non-negative value down never returns more than the value: a product that does not fit wraps to
  less than it.
\<close>

lemma round_dp_ok [dec_wf]: "round_dp d dp mode = Inr r \<Longrightarrow> dec_ok d \<Longrightarrow> dec_ok r \<and> dscale r = dp"
proof -
  assume r: "round_dp d dp mode = Inr r" and d: "dec_ok d"
  have "in_i128 (dunits d div pow10 (dscale d - dp))" if "\<not> dscale d \<le> dp"
    using that d by (intro div_in_i128) (auto simp: dec_ok_def)
  with r d show ?thesis
    by (cases mode) (auto simp: round_dp_def round_units_def dec_ok_def MAX_SCALE_def Let_def split: if_splits)
qed

lemma wrap_le: "0 \<le> z \<Longrightarrow> wrap_i128 z \<le> z"
proof (cases "in_i128 z")
  case False
  assume "0 \<le> z"
  with False have "i128_max < z" by (auto simp: in_i128_def i128_min_def)
  moreover have "wrap_i128 z \<le> i128_max" using in_i128_wrap [of z] by (simp add: in_i128_def)
  ultimately show ?thesis by simp
qed (simp add: wrap_i128_id)

lemma round_dp_floor_le:
  assumes r: "round_dp d dp Floor = Inr r" and d: "dec_ok d" and pos: "0 \<le> dunits d"
  shows "dval r \<le> dval d"
proof (cases "dscale d \<le> dp")
  case True
  have p: "pow10 (dp - dscale d) = 10 ^ (dp - dscale d)"
    using r by (intro pow10_id) (auto simp: round_dp_def MAX_SCALE_def split: if_splits)
  have "wrap_i128 (dunits d * 10 ^ (dp - dscale d)) \<le> dunits d * 10 ^ (dp - dscale d)"
    using pos by (intro wrap_le) simp
  moreover have "r = Dec (wrap_i128 (dunits d * 10 ^ (dp - dscale d))) dp"
    using r True by (auto simp: round_dp_def MAX_SCALE_def p split: if_splits)
  moreover have "dval d = of_int (dunits d * 10 ^ (dp - dscale d)) / 10 ^ dp" using True by (rule dval_scaled)
  ultimately show ?thesis by (simp add: dval_def [of "Dec _ _"] divide_right_mono del: of_int_mult)
next
  case False
  then have "dval r = floor_dp dp (dval d)" using round_dp_floor [OF d r] by simp
  then show ?thesis by (simp add: floor_dp_le)
qed

text \<open>Values up to \<open>10^20\<close> can be brought to any scale without overflow.\<close>

definition dec_small :: "dec \<Rightarrow> bool" where
  "dec_small d \<longleftrightarrow> dec_ok d \<and> \<bar>dval d\<bar> \<le> 10 ^ 20"

lemma dec_small_fit:
  assumes "dec_small d" and "dscale d \<le> dp" and "dp \<le> 18"
  shows "in_i128 (dunits d * 10 ^ (dp - dscale d))"
proof (rule in_i128_bound)
  let ?u = "dunits d * 10 ^ (dp - dscale d)"
  have e: "of_int ?u = dval d * 10 ^ dp" using dval_scaled [OF assms(2)] by simp
  have "of_int \<bar>?u\<bar> = \<bar>dval d * 10 ^ dp\<bar>" by (simp only: of_int_abs e)
  also have "\<dots> = \<bar>dval d\<bar> * 10 ^ dp" by (simp add: abs_mult)
  also have "\<dots> \<le> 10 ^ 20 * 10 ^ 18"
    using assms by (intro mult_mono power_increasing) (simp_all add: dec_small_def)
  also have "\<dots> = of_int (10 ^ 38)" by simp
  finally show "\<bar>?u\<bar> \<le> 10 ^ 38" by (simp only: of_int_le_iff)
qed

lemma round_dp_small:
  assumes "dec_small d" and "round_dp d dp mode = Inr r"
  shows "dval r = of_int (round_int mode (dval d * 10 ^ dp)) / 10 ^ dp"
proof -
  have dp: "dp \<le> 18" using assms(2) by (auto simp: round_dp_def MAX_SCALE_def split: if_splits)
  from round_dp_val [OF _ this dec_small_fit [OF assms(1) _ this], of mode] assms show ?thesis
    by (auto simp: dec_small_def)
qed

lemma round_dp_small_dir:
  assumes "dec_small d"
  shows "round_dp d dp Floor = Inr r \<Longrightarrow> dval r = floor_dp dp (dval d)"
    and "round_dp d dp Ceil = Inr r \<Longrightarrow> dval r = ceil_dp dp (dval d)"
  using round_dp_small [OF assms] by (simp_all add: floor_dp_def ceil_dp_def round_int_def)

text \<open>\<open>round_to_multiple\<close> returns the multiple of the step next to the value.\<close>

lemma round_to_multiple_val:
  assumes "round_to_multiple d st mode = Inr r" and d: "dec_ok d" and st: "dec_ok st"
    and half: "mode = HalfUp \<Longrightarrow> \<bar>dunits st\<bar> < 10 ^ 18"
  shows "dval r = of_int (round_int mode (dval d / dval st)) * dval st \<and> dec_ok r
    \<and> is_positive st \<and> dscale r = max (dscale d) (dscale st)"
proof -
  let ?s = "max (dscale d) (dscale st)"
  let ?a = "dunits d * 10 ^ (?s - dscale d)" and ?b = "dunits st * 10 ^ (?s - dscale st)"
  have s: "?s \<le> 18" using d st by (simp add: dec_ok_def)
  have p: "pow10 (?s - dscale d) = 10 ^ (?s - dscale d)" "pow10 (?s - dscale st) = 10 ^ (?s - dscale st)"
    by (rule pow10_id, use s in linarith)+
  from assms(1) have pos: "0 < dunits st" and a: "in_i128 ?a" and b: "in_i128 ?b"
    and i: "in_i128 (round_units mode (?a div ?b) (?a mod ?b) ?b * ?b)"
    and r: "r = Dec (round_units mode (?a div ?b) (?a mod ?b) ?b * ?b) ?s"
    by (auto simp: round_to_multiple_def Let_def p is_positive_def res_inv split: if_splits)
  have b0: "0 < ?b" using pos by simp
  have "in_i128 (2 * ?b)" if "mode = HalfUp"
  proof (rule in_i128_bound)
    have "(10::int) ^ (?s - dscale st) \<le> 10 ^ 18" using s by (intro power_increasing) linarith+
    then have "?b \<le> 10 ^ 18 * 10 ^ 18" using half [OF that] pos by (intro mult_mono) simp_all
    then show "\<bar>2 * ?b\<bar> \<le> 10 ^ 38" using b0 by simp
  qed
  then have n: "round_units mode (?a div ?b) (?a mod ?b) ?b = round_int mode (of_int ?a / of_int ?b)"
    by (rule round_units_int [OF a b0])
  have vd: "dval d = of_int ?a / 10 ^ ?s" by (rule dval_scaled) simp
  have vst: "dval st = of_int ?b / 10 ^ ?s" by (rule dval_scaled) simp
  have q: "dval d / dval st = of_int ?a / of_int ?b"
    unfolding vd vst by (simp only: divide_divide_eq_left divide_divide_eq_right) simp
  have "dval r = of_int (round_int mode (dval d / dval st) * ?b) / 10 ^ ?s"
    unfolding dval_def [of r] q unfolding r n by (simp only: dec.select_convs)
  also have "\<dots> = of_int (round_int mode (dval d / dval st)) * dval st"
    unfolding vst by (simp only: of_int_mult times_divide_eq_right)
  finally show ?thesis using i s pos by (simp only: r dec_ok_def is_positive_def dec.select_convs)
qed

lemma floor_mult_bounds:
  fixes x b :: rat
  shows "0 < b \<Longrightarrow> of_int \<lfloor>x / b\<rfloor> * b \<le> x" "0 < b \<Longrightarrow> x < of_int \<lfloor>x / b\<rfloor> * b + b"
    and ceil_mult_bounds: "0 < b \<Longrightarrow> x \<le> of_int \<lceil>x / b\<rceil> * b" "0 < b \<Longrightarrow> of_int \<lceil>x / b\<rceil> * b < x + b"
proof -
  assume b: "0 < b"
  have "x < (of_int \<lfloor>x / b\<rfloor> + 1) * b" "(of_int \<lceil>x / b\<rceil> - 1) * b < x"
    using b by (simp_all flip: pos_divide_less_eq pos_less_divide_eq) linarith+
  then show "x < of_int \<lfloor>x / b\<rfloor> * b + b" "of_int \<lceil>x / b\<rceil> * b < x + b" by (simp_all add: algebra_simps)
  show "of_int \<lfloor>x / b\<rfloor> * b \<le> x" "x \<le> of_int \<lceil>x / b\<rceil> * b"
    using b by (simp_all flip: pos_le_divide_eq pos_divide_le_eq)
qed

lemma round_to_multiple_dir:
  assumes "dec_ok d" and "dec_ok st"
  shows "round_to_multiple d st Floor = Inr r \<Longrightarrow> dval r \<le> dval d \<and> dval d < dval r + dval st"
    and "round_to_multiple d st Ceil = Inr r \<Longrightarrow> dval d \<le> dval r \<and> dval r < dval d + dval st"
  using round_to_multiple_val [OF _ assms, of Floor r] round_to_multiple_val [OF _ assms, of Ceil r]
  by (simp_all add: round_int_def dval_sign floor_mult_bounds ceil_mult_bounds)

lemma round_to_multiple_ok [dec_wf]:
  "round_to_multiple d st mode = Inr r \<Longrightarrow> dec_ok d \<Longrightarrow> dec_ok st \<Longrightarrow> dec_ok r"
  by (auto simp: round_to_multiple_def Let_def dec_ok_def res_inv split: if_splits)

section \<open>Normal form\<close>

lemma dval_norm_loop [simp]: "dval (norm_loop u s) = dval (Dec u s)"
proof (induction u s rule: norm_loop.induct)
  case (2 u s)
  have "of_int u = of_int (u div 10) * (10::rat)" if "u mod 10 = 0"
  proof -
    from that have "u = u div 10 * 10" using div_mult_mod_eq [of u 10] by simp
    then show ?thesis by (metis of_int_mult of_int_numeral)
  qed
  with 2 show ?case by (simp add: dval_def)
qed simp

lemma norm_loop_scale: "dscale (norm_loop u s) \<le> s"
  by (induction u s rule: norm_loop.induct) auto

lemma norm_loop_in_i128: "in_i128 u \<Longrightarrow> in_i128 (dunits (norm_loop u s))"
  by (induction u s rule: norm_loop.induct) (auto simp: div_in_i128)

lemma norm_loop_stripped:
  "dscale (norm_loop u s) > 0 \<Longrightarrow> dunits (norm_loop u s) mod 10 \<noteq> 0"
  by (induction u s rule: norm_loop.induct) auto

lemma dval_normalized [simp, dec_val]: "dval (normalized d) = dval d"
proof -
  let ?n = "norm_loop (dunits d) (dscale d)"
  have "dval ?n = dval d" by simp
  then show ?thesis by (cases "dunits ?n = 0") (auto simp: normalized_def Let_def dval_def)
qed

lemma dec_ok_normalized [dec_wf]: "dec_ok d \<Longrightarrow> dec_ok (normalized d)"
  using norm_loop_scale [of "dunits d" "dscale d"] norm_loop_in_i128 [of "dunits d" "dscale d"]
  by (auto simp: normalized_def Let_def dec_ok_def)

lemma normalized_stripped: "dscale (normalized d) > 0 \<Longrightarrow> dunits (normalized d) mod 10 \<noteq> 0"
  using norm_loop_stripped [of "dunits d" "dscale d"] by (auto simp: normalized_def Let_def split: if_splits)

text \<open>Two stripped decimals of the same value are the same record.\<close>

lemma stripped_unique:
  assumes v: "dval a = dval b"
    and a: "dscale a > 0 \<Longrightarrow> dunits a mod 10 \<noteq> 0" and b: "dscale b > 0 \<Longrightarrow> dunits b mod 10 \<noteq> 0"
  shows "(a :: dec) = b"
proof -
  have le: "\<not> dscale x < dscale y" if v: "dval x = dval y" and y: "dscale y > 0 \<Longrightarrow> dunits y mod 10 \<noteq> 0"
    for x y :: dec
  proof
    assume lt: "dscale x < dscale y"
    have "dunits x * 10 ^ (dscale y - dscale x) = dunits y"
      using dval_eq_iff [of x "dscale y" y] lt v by simp
    moreover have "(10::int) ^ (dscale y - dscale x) mod 10 = 0" using lt by (simp add: dvd_imp_mod_0)
    ultimately have "dunits y mod 10 = 0" by (metis mod_mult_right_eq mult_zero_right mod_0)
    with y lt show False by simp
  qed
  have "dscale a = dscale b" using le [of a b] le [of b a] v a b by force
  with v show ?thesis by (simp add: dval_def)
qed

section \<open>Properties\<close>

text \<open>
  The order of decimals is the order of the rational numbers they denote, whatever their
  scales; the rescaling inside \<open>cmp\<close> never wraps.
\<close>

theorem dec_cmp_dval:
  assumes "dec_ok a" and "dec_ok b"
  shows "(dec_cmp a b = Less \<longleftrightarrow> dval a < dval b) \<and> (dec_cmp a b = Equal \<longleftrightarrow> dval a = dval b)
    \<and> (dec_cmp a b = Greater \<longleftrightarrow> dval b < dval a)"
  using assms by (auto simp: dec_cmp_cases)

theorem dec_cmp_dval_witness:
  "dec_ok (Dec i128_max 18) \<and> dec_ok (Dec (- 5) 1) \<and>
   (dec_cmp (Dec i128_max 18) (Dec (- 5) 1) = Greater \<longleftrightarrow> dval (Dec (- 5) 1) < dval (Dec i128_max 18))"
proof -
  have "dec_ok (Dec i128_max 18)" "dec_ok (Dec (- 5) 1)"
    by (simp_all add: dec_ok_def in_i128_def i128_max_def i128_min_def)
  then show ?thesis using dec_cmp_dval by blast
qed

text \<open>
  A multiple-rounding that succeeds returns the multiple of the step that the mode names: the
  largest not above the value, the smallest not below it, or the nearest with ties up.
\<close>

theorem round_to_multiple_spec:
  assumes "round_to_multiple d st mode = Inr r" and "dec_ok d" and "dec_ok st"
    and "\<bar>dunits st\<bar> < 10 ^ 18"
  shows "0 < dval st \<and> dec_ok r \<and> dval r = of_int (round_int mode (dval d / dval st)) * dval st
    \<and> (mode = Floor \<longrightarrow> dval r \<le> dval d \<and> dval d < dval r + dval st)
    \<and> (mode = Ceil \<longrightarrow> dval d \<le> dval r \<and> dval r < dval d + dval st)"
proof -
  from round_to_multiple_val [OF assms(1-3)] assms(4)
  have r: "dval r = of_int (round_int mode (dval d / dval st)) * dval st" "dec_ok r" "is_positive st" by auto
  then have st: "0 < dval st" by (simp add: dval_sign)
  show ?thesis using r st assms(1) round_to_multiple_dir [OF assms(2,3)] by auto
qed

theorem round_to_multiple_spec_witness:
  "round_to_multiple (Dec (- 125) 2) (Dec 5 1) Floor = Inr (Dec (- 150) 2) \<and>
   dval (Dec (- 150) 2) \<le> dval (Dec (- 125) 2)"
proof -
  have r: "round_to_multiple (Dec (- 125) 2) (Dec 5 1) Floor = Inr (Dec (- 150) 2)" by code_simp
  have ok: "dec_ok (Dec (- 125) 2)" "dec_ok (Dec 5 1)"
    by (simp_all add: dec_ok_def in_i128_def i128_max_def i128_min_def)
  show ?thesis using round_to_multiple_spec [OF r ok] r by simp
qed

end
