(* ===== verification/Dec_Text.thy ===== *)
theory Dec_Text
  imports Decimal
begin

text \<open>
  The text form of \<open>Dec\<close> in \<open>broker-adapters/src/decimal.rs\<close>: \<open>parse\<close>, the \<open>Display\<close>
  instance and \<open>to_fixed\<close>. Serialisation goes through \<open>Display\<close> and \<open>parse\<close>, so the round
  trip at the end is what makes a stored decimal come back unchanged.
\<close>

section \<open>Printing\<close>

definition digit_char :: "nat \<Rightarrow> char" where
  "digit_char n = char_of (48 + n)"

fun show_nat :: "nat \<Rightarrow> string" where
  "show_nat n = (if n < 10 then [digit_char n] else show_nat (n div 10) @ [digit_char (n mod 10)])"

declare show_nat.simps [simp del]

definition zero_pad :: "nat \<Rightarrow> string \<Rightarrow> string" where
  "zero_pad w s = replicate (w - length s) (CHR ''0'') @ s"

definition dec_to_string :: "dec \<Rightarrow> string" where
  "dec_to_string d =
     (let a = nat \<bar>dunits d\<bar>; p = nat \<bar>pow10 (dscale d)\<bar>;
          i = a div p; fr = a mod p; sign = (if dunits d < 0 then ''-'' else [])
      in if dscale d = 0 then sign @ show_nat i
         else sign @ show_nat i @ ''.'' @ zero_pad (dscale d) (show_nat fr))"

definition to_fixed :: "dec \<Rightarrow> nat \<Rightarrow> dec_error + string" where
  "to_fixed d dp =
     try_bind (round_dp d dp Floor) (\<lambda>r.
     if \<not> dec_eq r d then Inl (TooPrecise (dec_to_string d)) else Inr (dec_to_string r))"

section \<open>Parsing\<close>

definition digit_val :: "char \<Rightarrow> int" where
  "digit_val c = int (code c) - 48"

text \<open>The digit loop: \<open>units.checked_mul(10).and_then(|u| u.checked_add(d))\<close>.\<close>

fun parse_digits :: "int \<Rightarrow> string \<Rightarrow> dec_error + int" where
  "parse_digits u [] = Inr u"
| "parse_digits u (c # cs) =
     (if \<not> in_i128 (u * 10) then Inl DecOverflow
      else if \<not> in_i128 (u * 10 + digit_val c) then Inl DecOverflow
      else parse_digits (u * 10 + digit_val c) cs)"

text \<open>\<open>str::parse::<i32>\<close>: an optional sign, at least one digit, within range.\<close>

definition parse_i32 :: "string \<Rightarrow> int option" where
  "parse_i32 s =
     (let neg = starts_with ''-'' s;
          ds = (if neg \<or> starts_with ''+'' s then tl s else s);
          v = foldl (\<lambda>u c. u * 10 + digit_val c) 0 ds;
          z = (if neg then - v else v)
      in if ds = [] \<or> \<not> list_all is_digit ds \<or> z < - (2 ^ 31) \<or> z \<ge> 2 ^ 31 then None else Some z)"

definition is_exp_mark :: "char \<Rightarrow> bool" where
  "is_exp_mark c \<longleftrightarrow> c = CHR ''e'' \<or> c = CHR ''E''"

text \<open>The stages of \<open>parse\<close>: the exponent, the scale, the digits, the sign and point, the whole.\<close>

definition split_exponent :: "string \<Rightarrow> string \<Rightarrow> dec_error + (string \<times> int)" where
  "split_exponent s t =
     (case dropWhile (\<lambda>c. \<not> is_exp_mark c) t of
        [] \<Rightarrow> Inr (t, 0)
      | m # rest \<Rightarrow>
          try_bind (ok_or (Invalid s) (parse_i32 rest)) (\<lambda>e.
          Inr (takeWhile (\<lambda>c. \<not> is_exp_mark c) t, e)))"

definition apply_scale :: "string \<Rightarrow> bool \<Rightarrow> int \<Rightarrow> int \<Rightarrow> dec_error + dec" where
  "apply_scale s neg units0 net_scale =
     try_bind
       (if net_scale < 0
        then if - net_scale \<ge> 2 ^ 32 then Inl DecOverflow
             else if nat (- net_scale) > 38 then Inl DecOverflow
             else try_bind (ok_or DecOverflow (checked_i128 (units0 * pow10 (nat (- net_scale))))) (\<lambda>u.
                  Inr (u, 0))
        else if net_scale \<ge> 2 ^ 32 then Inl DecOverflow
             else Inr (units0, nat net_scale)) (\<lambda>(units, scale).
     let d = Dec (if neg then - units else units) scale
     in if scale > MAX_SCALE
        then if dscale (normalized d) > MAX_SCALE then Inl (TooPrecise s) else Inr (normalized d)
        else Inr d)"

definition parse_parts :: "string \<Rightarrow> bool \<Rightarrow> string \<Rightarrow> string \<Rightarrow> int \<Rightarrow> dec_error + dec" where
  "parse_parts s neg int_part frac_part e =
     (if int_part = [] \<and> frac_part = [] then Inl (Invalid s)
      else if \<not> list_all is_digit int_part \<or> \<not> list_all is_digit frac_part then Inl (Invalid s)
      else try_bind (parse_digits 0 (int_part @ frac_part)) (\<lambda>units.
           apply_scale s neg units (int (length frac_part) mod 2 ^ 32 - e)))"

definition parse_mantissa :: "string \<Rightarrow> string \<Rightarrow> int \<Rightarrow> dec_error + dec" where
  "parse_mantissa s mant0 e =
     (let neg = starts_with ''-'' mant0;
          mant = (if neg \<or> starts_with ''+'' mant0 then tl mant0 else mant0)
      in case split_once (CHR ''.'') mant of
           Some (int_part, frac_part) \<Rightarrow> parse_parts s neg int_part frac_part e
         | None \<Rightarrow> parse_parts s neg mant [] e)"

definition parse_dec :: "string \<Rightarrow> dec_error + dec" where
  "parse_dec s =
     (let t = trim s
      in if t = [] then Inl (Invalid s)
         else try_bind (split_exponent s t) (\<lambda>(mant, e). parse_mantissa s mant e))"

section \<open>Digits\<close>

definition digits_val :: "int \<Rightarrow> string \<Rightarrow> int" where
  "digits_val u ds = foldl (\<lambda>u c. u * 10 + digit_val c) u ds"

lemma code_digit_char [simp]: "n < 10 \<Longrightarrow> code (digit_char n) = 48 + n"
  by (simp add: digit_char_def)

lemma is_digit_char [simp]: "n < 10 \<Longrightarrow> is_digit (digit_char n)"
  by (simp add: is_digit_def)

lemma digit_val_char [simp]: "n < 10 \<Longrightarrow> digit_val (digit_char n) = int n"
  by (simp add: digit_val_def)

lemma digit_val_nonneg: "is_digit c \<Longrightarrow> 0 \<le> digit_val c"
  by (simp add: digit_val_def is_digit_def)

lemma digit_zero [simp]: "is_digit (CHR ''0'')" "digit_val (CHR ''0'') = 0"
  by (simp_all add: is_digit_def digit_val_def code_def)

lemma is_digit_not: "is_digit c \<Longrightarrow> \<not> is_space c \<and> \<not> is_exp_mark c \<and> c \<noteq> CHR ''-'' \<and> c \<noteq> CHR ''+'' \<and> c \<noteq> CHR ''.''"
  by (auto simp: is_digit_def is_space_def is_exp_mark_def code_def)

lemma digits_val_simps [simp]:
  "digits_val u [] = u"
  "digits_val u (c # cs) = digits_val (u * 10 + digit_val c) cs"
  "digits_val u (xs @ ys) = digits_val (digits_val u xs) ys"
  by (simp_all add: digits_val_def)

lemma digits_val_shift: "digits_val u ds = u * 10 ^ length ds + digits_val 0 ds"
proof (induction ds arbitrary: u)
  case (Cons c ds)
  show ?case using Cons.IH [of "u * 10 + digit_val c"] Cons.IH [of "digit_val c"]
    by (simp add: algebra_simps)
qed simp

lemma digits_val_mono: "list_all is_digit ds \<Longrightarrow> 0 \<le> u \<Longrightarrow> u \<le> digits_val u ds"
proof (induction ds arbitrary: u)
  case (Cons c ds)
  then have "u \<le> u * 10 + digit_val c" using digit_val_nonneg [of c] by simp
  also have "\<dots> \<le> digits_val (u * 10 + digit_val c) ds"
    using Cons digit_val_nonneg [of c] by (intro Cons.IH) simp_all
  finally show ?case by simp
qed simp

lemma parse_digits_val:
  assumes "list_all is_digit ds" and "0 \<le> u" and "u \<le> i128_max"
  shows "parse_digits u ds = (if digits_val u ds \<le> i128_max then Inr (digits_val u ds) else Inl DecOverflow)"
  using assms
proof (induction ds arbitrary: u)
  case (Cons c ds)
  let ?v = "u * 10 + digit_val c"
  have d: "0 \<le> digit_val c" using Cons.prems by (simp add: digit_val_nonneg)
  have le: "?v \<le> digits_val ?v ds" using Cons.prems d by (intro digits_val_mono) simp_all
  show ?case
  proof (cases "?v \<le> i128_max")
    case True
    then have "in_i128 (u * 10)" "in_i128 ?v" using d Cons.prems by (auto simp: in_i128_def i128_min_def)
    then show ?thesis using Cons d True by simp
  next
    case False
    then show ?thesis using le by (simp add: in_i128_def)
  qed
qed simp

lemma show_nat_digits: "list_all is_digit (show_nat n)"
  by (induction n rule: show_nat.induct) (subst show_nat.simps, simp)

lemma show_nat_not_Nil [simp]: "show_nat n \<noteq> []"
  by (subst show_nat.simps) simp

lemma digits_val_show [simp]: "digits_val 0 (show_nat n) = int n"
proof (induction n rule: show_nat.induct)
  case (1 n)
  then show ?case by (subst show_nat.simps) (simp add: zdiv_int zmod_int)
qed

lemma length_show_nat: "n < 10 ^ k \<Longrightarrow> 0 < k \<Longrightarrow> length (show_nat n) \<le> k"
proof (induction n arbitrary: k rule: show_nat.induct)
  case (1 n)
  show ?case
  proof (cases "n < 10")
    case True
    then show ?thesis using 1 by (subst show_nat.simps) simp
  next
    case False
    then obtain j where k: "k = Suc j" "0 < j" using 1(2,3) by (cases k; cases "k - 1") auto
    then have "n div 10 < 10 ^ j" using 1(2) by (simp add: less_mult_imp_div_less mult.commute)
    then have "length (show_nat (n div 10)) \<le> j" using 1(1) False k by blast
    then show ?thesis using False k by (subst show_nat.simps) simp
  qed
qed

lemma digits_val_replicate [simp]: "digits_val 0 (replicate n (CHR ''0'')) = 0"
  by (induction n) simp_all

lemma digits_val_pad [simp]: "digits_val 0 (zero_pad w s) = digits_val 0 s"
  by (simp add: zero_pad_def)

lemma zero_pad_digits: "list_all is_digit s \<Longrightarrow> list_all is_digit (zero_pad w s)"
  by (auto simp: zero_pad_def list_all_iff)

lemma length_zero_pad: "length s \<le> w \<Longrightarrow> length (zero_pad w s) = w"
  by (simp add: zero_pad_def)

section \<open>A parsed decimal is well formed\<close>

lemma apply_scale_ok:
  assumes r: "apply_scale s neg u k = Inr d" and u: "0 \<le> u" "u \<le> i128_max"
  shows "dec_ok d"
proof -
  have sg: "in_i128 (- v)" "in_i128 v" if "0 \<le> v" "v \<le> i128_max" for v
    using that by (simp_all add: in_i128_def i128_min_def i128_max_def)
  have n: "dec_ok (normalized n)" if "in_i128 (dunits n)" "\<not> 18 < dscale (normalized n)" for n
    using that norm_loop_in_i128 [of "dunits n" "dscale n"] by (auto simp: normalized_def Let_def dec_ok_def)
  show ?thesis
  proof (cases "k < 0")
    case True
    then have "d = Dec (if neg then - (u * 10 ^ nat (- k)) else u * 10 ^ nat (- k)) 0"
      "u * 10 ^ nat (- k) \<le> i128_max"
      using r by (auto simp: apply_scale_def res_inv in_i128_def Let_def split: if_splits)
    then show ?thesis using sg [of "u * 10 ^ nat (- k)"] u by (auto simp: dec_ok_def)
  next
    case False
    then show ?thesis using r sg [OF u] n [of "Dec (- u) (nat k)"] n [of "Dec u (nat k)"]
      by (auto simp: apply_scale_def Let_def MAX_SCALE_def dec_ok_def split: if_splits)
  qed
qed

lemma parse_parts_ok: "parse_parts s neg ip fp e = Inr d \<Longrightarrow> dec_ok d"
proof -
  assume r: "parse_parts s neg ip fp e = Inr d"
  then obtain u where u: "list_all is_digit (ip @ fp)" "parse_digits 0 (ip @ fp) = Inr u"
    "apply_scale s neg u (int (length fp) mod 2 ^ 32 - e) = Inr d"
    by (auto simp: parse_parts_def res_inv split: if_splits)
  then have "0 \<le> u" "u \<le> i128_max"
    using parse_digits_val [of "ip @ fp" 0] digits_val_mono [of "ip @ fp" 0]
    by (auto simp: i128_max_def split: if_splits)
  with u(3) show ?thesis by (rule apply_scale_ok)
qed

lemma parse_dec_ok [dec_wf]: "parse_dec s = Inr d \<Longrightarrow> dec_ok d"
  by (auto simp: parse_dec_def parse_mantissa_def Let_def res_inv intro: parse_parts_ok
      split: if_splits option.splits)

section \<open>The round trip\<close>

lemma trim_id: "\<forall>c \<in> set s. \<not> is_space c \<Longrightarrow> trim s = s"
proof -
  assume ns: "\<forall>c \<in> set s. \<not> is_space c"
  then have "dropWhile is_space s = s" by (simp add: dropWhile_eq_self_iff)
  moreover have "dropWhile is_space (rev s) = rev s" using ns hd_in_set [of "rev s"]
    by (auto simp: dropWhile_eq_self_iff)
  ultimately show ?thesis by (simp add: trim_def)
qed

lemma parse_plain:
  assumes i: "list_all is_digit ip" "ip \<noteq> []" and f: "list_all is_digit fp" "length fp \<le> 18"
    and t: "t = sg @ (if fp = [] then ip else ip @ CHR ''.'' # fp)" and s: "sg \<in> {[], ''-''}"
  shows "parse_dec t =
    (let v = digits_val 0 (ip @ fp)
     in if v \<le> i128_max then Inr (Dec (if sg = [] then v else - v) (length fp)) else Inl DecOverflow)"
proof -
  let ?m = "if fp = [] then ip else ip @ CHR ''.'' # fp"
  have cs: "\<forall>c \<in> set ip. is_digit c" "\<forall>c \<in> set fp. is_digit c" using i f by (auto simp: list_all_iff)
  have plain: "\<not> is_space c \<and> \<not> is_exp_mark c" if "c \<in> set t" for c
  proof -
    have "c \<in> {CHR ''-'', CHR ''.''} \<union> set ip \<union> set fp" using that s t by (auto split: if_splits)
    moreover have "\<not> is_space (CHR ''-'') \<and> \<not> is_exp_mark (CHR ''-'')"
      "\<not> is_space (CHR ''.'') \<and> \<not> is_exp_mark (CHR ''.'')"
      by (simp_all add: is_space_def is_exp_mark_def code_def)
    ultimately show ?thesis using cs is_digit_not by blast
  qed
  have tr: "trim t = t" using plain by (simp add: trim_id)
  have ex: "dropWhile (\<lambda>c. \<not> is_exp_mark c) t = []" using plain by simp
  have hd: "ip = c # r \<Longrightarrow> c \<noteq> CHR ''-'' \<and> c \<noteq> CHR ''+''" for c r
    using cs(1) is_digit_not [of c] by auto
  have neg: "starts_with ''-'' t = (sg \<noteq> [])" and plus: "\<not> starts_with ''+'' t"
    using s hd i(2) by (cases ip; auto simp: t starts_with_def)+
  have mant: "(if starts_with ''-'' t \<or> starts_with ''+'' t then tl t else t) = ?m"
    using s neg plus by (auto simp: t)
  have nd: "CHR ''.'' \<notin> set ip" using cs(1) is_digit_not by blast
  have so: "split_once (CHR ''.'') ?m = (if fp = [] then None else Some (ip, fp))"
    using nd split_once_None [of "CHR ''.''" ip] by (auto simp: split_once_append)
  have ne: "t \<noteq> []" using i(2) t by auto
  have pd: "parse_digits 0 (ip @ fp) =
      (if digits_val 0 (ip @ fp) \<le> i128_max then Inr (digits_val 0 (ip @ fp)) else Inl DecOverflow)"
    using i f by (intro parse_digits_val) (simp_all add: i128_max_def)
  have sc: "int (length fp) mod 2 ^ 32 = int (length fp)" using f by simp
  have m: "parse_mantissa t t 0 = parse_parts t (sg \<noteq> []) ip fp 0"
    unfolding parse_mantissa_def Let_def mant unfolding so neg by simp
  have p: "parse_dec t = parse_parts t (sg \<noteq> []) ip fp 0"
    using ne by (simp add: parse_dec_def split_exponent_def tr ex m)
  show ?thesis unfolding p parse_parts_def sc pd
    using i f by (simp add: apply_scale_def Let_def MAX_SCALE_def)
qed

text \<open>
  C39: what \<open>Display\<close> prints, \<open>parse\<close> reads back, digits and scale included; the one exception is
  the smallest \<open>i128\<close>, whose magnitude the digit loop cannot hold.
\<close>

theorem parse_to_string:
  assumes "dec_ok d"
  shows "parse_dec (dec_to_string d) = (if dunits d = i128_min then Inl DecOverflow else Inr d)"
proof -
  let ?p = "10 ^ dscale d :: nat" and ?a = "nat \<bar>dunits d\<bar>"
  let ?fp = "if dscale d = 0 then [] else zero_pad (dscale d) (show_nat (?a mod ?p))"
  let ?sg = "if dunits d < 0 then ''-'' else []"
  have s: "dscale d \<le> 18" and u: "in_i128 (dunits d)" using assms by (auto simp: dec_ok_def)
  have p: "nat \<bar>pow10 (dscale d)\<bar> = ?p" using s by (simp add: nat_power_eq)
  have len: "length ?fp = dscale d" by (simp add: length_zero_pad length_show_nat)
  have fp0: "?fp = [] \<longleftrightarrow> dscale d = 0" using len by (metis length_0_conv)
  have str: "dec_to_string d = ?sg @ (if ?fp = [] then show_nat (?a div ?p) else show_nat (?a div ?p) @ CHR ''.'' # ?fp)"
    unfolding fp0 by (simp add: dec_to_string_def Let_def p)
  have fval: "digits_val 0 ?fp = int (?a mod ?p)" by simp
  have "digits_val 0 (show_nat (?a div ?p) @ ?fp) = int (?a div ?p) * 10 ^ dscale d + int (?a mod ?p)"
    unfolding digits_val_simps digits_val_show
    by (subst digits_val_shift) (simp only: len fval)
  also have "\<dots> = int (?a div ?p * ?p + ?a mod ?p)" by (simp only: of_nat_add of_nat_mult of_nat_power of_nat_numeral)
  also have "\<dots> = \<bar>dunits d\<bar>" by (simp add: div_mult_mod_eq)
  finally have v: "digits_val 0 (show_nat (?a div ?p) @ ?fp) = \<bar>dunits d\<bar>" .
  have dg: "list_all is_digit ?fp" by (simp add: zero_pad_digits show_nat_digits)
  have "\<bar>dunits d\<bar> \<le> i128_max \<longleftrightarrow> dunits d \<noteq> i128_min"
    using u by (auto simp: in_i128_def i128_max_def i128_min_def)
  moreover have "dunits d < 0" if "dunits d = i128_min" using that by (simp add: i128_min_def)
  moreover have "Dec (if ?sg = [] then \<bar>dunits d\<bar> else - \<bar>dunits d\<bar>) (dscale d) = d" by (cases d) simp
  ultimately show ?thesis
    using parse_plain [OF show_nat_digits show_nat_not_Nil dg _ str] s
    unfolding v len Let_def by simp
qed

theorem parse_to_string_witness:
  "dec_ok (Dec (- 125) 2) \<and> parse_dec (dec_to_string (Dec (- 125) 2)) = Inr (Dec (- 125) 2)"
proof -
  have "dec_ok (Dec (- 125) 2)" by (simp add: dec_ok_def in_i128_def i128_max_def i128_min_def)
  with parse_to_string [of "Dec (- 125) 2"] show ?thesis by (simp add: i128_min_def)
qed

end
