(* ===== verification/Dec_Math.thy ===== *)
theory Dec_Math
  imports Dec_Text
begin

text \<open>
  \<open>rebalancer-core/src/dec_math.rs\<close>: subtraction, negation, sums and exact floor division on top
  of \<open>Dec\<close>, and \<open>ratio_to_dec\<close>, the one place where an \<open>f64\<close> of the mandate becomes a
  decimal. An \<open>f64\<close> enters the model by what the code observes of it: its value
  (a rational, a NaN or an infinity) and the texts its \<open>Display\<close> and \<open>Debug\<close> instances print.
\<close>

datatype math_error =
    MathOverflow
  | BadDivisor
  | BadRatio string string

datatype ratio_round = RoundDown | RoundUp

text \<open>The value of an \<open>f64\<close>: a finite one is a rational number; the argument of \<open>FInf\<close> says negative.\<close>

datatype f64_num = FNum rat | FNaN | FInf bool

record f64_obs =
  f_num :: f64_num
  f_display :: string
  f_debug :: string

definition f_finite :: "f64_obs \<Rightarrow> bool" where
  "f_finite v = (case f_num v of FNum _ \<Rightarrow> True | _ \<Rightarrow> False)"

text \<open>The comparisons of IEEE 754: every one with a NaN is false.\<close>

fun fnum_lt :: "f64_num \<Rightarrow> f64_num \<Rightarrow> bool" where
  "fnum_lt FNaN _ = False"
| "fnum_lt _ FNaN = False"
| "fnum_lt (FNum x) (FNum y) = (x < y)"
| "fnum_lt (FNum _) (FInf neg) = (\<not> neg)"
| "fnum_lt (FInf neg) (FNum _) = neg"
| "fnum_lt (FInf n1) (FInf n2) = (n1 \<and> \<not> n2)"

definition fnum_le :: "f64_num \<Rightarrow> f64_num \<Rightarrow> bool" where
  "fnum_le x y \<longleftrightarrow> fnum_lt x y \<or> x = y \<and> x \<noteq> FNaN"

definition f_negative :: "f64_obs \<Rightarrow> bool" where
  "f_negative v = fnum_lt (f_num v) (FNum 0)"

definition dneg :: "dec \<Rightarrow> math_error + dec" where
  "dneg a =
     try_bind (ok_or MathOverflow (checked_i128 (- dunits a))) (\<lambda>u.
     map_err (\<lambda>_. MathOverflow) (dec_new u (dscale a)))"

definition dadd :: "dec \<Rightarrow> dec \<Rightarrow> math_error + dec" where
  "dadd a b = ok_or MathOverflow (checked_add a b)"

definition dsub :: "dec \<Rightarrow> dec \<Rightarrow> math_error + dec" where
  "dsub a b = try_bind (dneg b) (\<lambda>n. dadd a n)"

definition dmul :: "dec \<Rightarrow> dec \<Rightarrow> math_error + dec" where
  "dmul a b = ok_or MathOverflow (checked_mul a b)"

definition dabs :: "dec \<Rightarrow> math_error + dec" where
  "dabs a = (if is_negative a then dneg a else Inr a)"

definition dsum :: "dec list \<Rightarrow> math_error + dec" where
  "dsum xs = try_fold dadd dec_ZERO xs"

definition checked_pow10 :: "nat \<Rightarrow> math_error + int" where
  "checked_pow10 n = ok_or MathOverflow (checked_i128 (10 ^ n))"

definition div_floor :: "dec \<Rightarrow> dec \<Rightarrow> nat \<Rightarrow> math_error + dec" where
  "div_floor n d dp =
     (if \<not> is_positive d then Inl BadDivisor
      else let e = int dp + int (dscale d) - int (dscale n)
      in try_bind
        (if e \<ge> 0
         then if e \<ge> 2 ^ 32 then Inl MathOverflow
              else try_bind (checked_pow10 (nat e)) (\<lambda>m.
                   try_bind (ok_or MathOverflow (checked_i128 (dunits n * m))) (\<lambda>num.
                   Inr (num, dunits d)))
         else if - e \<ge> 2 ^ 32 then Inl MathOverflow
              else try_bind (checked_pow10 (nat (- e))) (\<lambda>m.
                   try_bind (ok_or MathOverflow (checked_i128 (dunits d * m))) (\<lambda>den.
                   Inr (dunits n, den)))) (\<lambda>(num, den).
      map_err (\<lambda>_. MathOverflow) (dec_new (num div den) dp)))"

definition ratio_to_dec :: "f64_obs \<Rightarrow> ratio_round \<Rightarrow> math_error + dec" where
  "ratio_to_dec v rnd =
     (let bad = (\<lambda>why. BadRatio (f_debug v) why); text = f_display v
      in if \<not> f_finite v then Inl (bad ''not finite'')
      else if f_negative v then Inl (bad ''negative'')
      else let (int_part, frac_part) = (case split_once (CHR ''.'') text of Some p \<Rightarrow> p | None \<Rightarrow> (text, []))
      in if length frac_part \<le> 18 then map_err (\<lambda>_. bad ''not a decimal'') (parse_dec text)
      else try_bind (map_err (\<lambda>_. bad ''not a decimal'')
             (parse_dec (int_part @ ''.'' @ take 18 frac_part))) (\<lambda>base.
           if rnd = RoundUp \<and> list_ex (\<lambda>b. b \<noteq> CHR ''0'') (drop 18 frac_part)
           then try_bind (map_err (\<lambda>_. bad ''scale'') (dec_new 1 18)) (\<lambda>unit. dadd base unit)
           else Inr base))"

section \<open>Values of the results\<close>

lemma dneg_val [dec_val]: "dneg a = Inr c \<Longrightarrow> dval c = - dval a"
  by (auto simp: dneg_def dec_new_def res_inv dval_def split: if_splits)

lemma dneg_ok [dec_wf]: "dneg a = Inr c \<Longrightarrow> dec_ok c"
  by (auto simp: dneg_def dec_new_def res_inv dec_ok_def MAX_SCALE_def split: if_splits)

lemma dadd_val [dec_val]: "dadd a b = Inr c \<Longrightarrow> dec_ok a \<Longrightarrow> dec_ok b \<Longrightarrow> dval c = dval a + dval b"
  by (auto simp: dadd_def res_inv dest: checked_add_dval)

lemma dadd_ok [dec_wf]: "dadd a b = Inr c \<Longrightarrow> dec_ok a \<Longrightarrow> dec_ok b \<Longrightarrow> dec_ok c"
  by (auto simp: dadd_def res_inv dest: checked_add_dval)

lemma dsub_val [dec_val]: "dsub a b = Inr c \<Longrightarrow> dec_ok a \<Longrightarrow> dval c = dval a - dval b"
  using dneg_val dneg_ok dadd_val by (fastforce simp: dsub_def res_inv)

lemma dsub_ok [dec_wf]: "dsub a b = Inr c \<Longrightarrow> dec_ok a \<Longrightarrow> dec_ok c"
  by (auto simp: dsub_def res_inv intro: dadd_ok dneg_ok)

lemma dmul_val [dec_val]:
  "dmul a b = Inr c \<Longrightarrow> dec_ok a \<Longrightarrow> dec_ok b \<Longrightarrow> dval c = floor_dp 18 (dval a * dval b)"
  by (auto simp: dmul_def res_inv dest: checked_mul_dval)

lemma dmul_ok [dec_wf]: "dmul a b = Inr c \<Longrightarrow> dec_ok a \<Longrightarrow> dec_ok b \<Longrightarrow> dec_ok c"
  by (auto simp: dmul_def res_inv dest: checked_mul_dval)

lemma dabs_val [dec_val]: "dabs a = Inr c \<Longrightarrow> dval c = \<bar>dval a\<bar>"
  by (auto simp: dabs_def dval_sign dest: dneg_val split: if_splits)

lemma dabs_ok [dec_wf]: "dabs a = Inr c \<Longrightarrow> dec_ok a \<Longrightarrow> dec_ok c"
  by (auto simp: dabs_def dest: dneg_ok split: if_splits)

lemma try_fold_dadd:
  "try_fold dadd s xs = Inr c \<Longrightarrow> dec_ok s \<Longrightarrow> list_all dec_ok xs \<Longrightarrow>
   dval c = dval s + (\<Sum>x\<leftarrow>xs. dval x) \<and> dec_ok c"
proof (induction xs arbitrary: s)
  case (Cons x xs)
  then obtain t where t: "dadd s x = Inr t" "try_fold dadd t xs = Inr c" by (auto simp: res_inv)
  with Cons have "dec_ok t" "dval t = dval s + dval x" by (auto intro: dadd_ok dadd_val)
  with Cons.IH [OF t(2)] Cons.prems show ?case by simp
qed simp

lemma dsum_val [dec_val]: "dsum xs = Inr c \<Longrightarrow> list_all dec_ok xs \<Longrightarrow> dval c = (\<Sum>x\<leftarrow>xs. dval x)"
  using try_fold_dadd [of dec_ZERO xs c] by (simp add: dsum_def)

lemma dsum_ok [dec_wf]: "dsum xs = Inr c \<Longrightarrow> list_all dec_ok xs \<Longrightarrow> dec_ok c"
  using try_fold_dadd [of dec_ZERO xs c] by (simp add: dsum_def)

text \<open>The only error of an exact operation is overflow of the result or of a rescaled operand.\<close>

lemma dneg_total: "dec_ok a \<Longrightarrow> dunits a \<noteq> i128_min \<Longrightarrow> dneg a = Inr (Dec (- dunits a) (dscale a))"
  by (auto simp: dneg_def dec_new_def dec_ok_def MAX_SCALE_def checked_i128_def in_i128_def
      i128_min_def i128_max_def)

lemma floor_ratio: "0 < b \<Longrightarrow> \<lfloor>of_int a / (of_int b :: rat)\<rfloor> = a div b"
  by (simp add: floor_divide_of_int_eq)

lemma div_floor_spec:
  assumes "div_floor n d dp = Inr q" and n: "dec_ok n" and d: "dec_ok d"
  shows "dval q = floor_dp dp (dval n / dval d) \<and> dec_ok q \<and> 0 < dval d \<and> dscale q = dp"
proof -
  let ?e = "int dp + int (dscale d) - int (dscale n)"
  from assms(1) have pos: "0 < dunits d" by (auto simp: div_floor_def is_positive_def split: if_splits)
  then have vpos: "0 < dval d" by (simp add: dval_def)
  obtain num den where nd: "q = Dec (num div den) dp" "dp \<le> 18" "in_i128 num" "0 < den"
    and ratio: "dval n / dval d * 10 ^ dp = of_int num / of_int den"
  proof (cases "?e \<ge> 0")
    case True
    then have pw: "(10::rat) ^ dp * 10 ^ dscale d = 10 ^ nat ?e * 10 ^ dscale n"
      by (simp flip: power_add)
    have "dval n / dval d * 10 ^ dp = of_int (dunits n) * (10 ^ dp * 10 ^ dscale d) / (10 ^ dscale n * of_int (dunits d))"
      by (simp add: dval_def)
    also have "\<dots> = of_int (dunits n * 10 ^ nat ?e) / of_int (dunits d)" unfolding pw by simp
    finally show thesis using assms(1) pos True d
      by (intro that [of "dunits n * 10 ^ nat ?e" "dunits d"])
        (auto simp: div_floor_def dec_new_def checked_pow10_def res_inv Let_def MAX_SCALE_def split: if_splits)
  next
    case False
    then have pw: "(10::rat) ^ dscale n = 10 ^ nat (- ?e) * (10 ^ dp * 10 ^ dscale d)"
      by (simp flip: power_add)
    have "dval n / dval d * 10 ^ dp = of_int (dunits n) * (10 ^ dp * 10 ^ dscale d) / (10 ^ dscale n * of_int (dunits d))"
      by (simp add: dval_def)
    also have "\<dots> = of_int (dunits n) / of_int (dunits d * 10 ^ nat (- ?e))" unfolding pw by simp
    finally show thesis using assms(1) pos False n
      by (intro that [of "dunits n" "dunits d * 10 ^ nat (- ?e)"])
        (auto simp: div_floor_def dec_new_def checked_pow10_def res_inv Let_def MAX_SCALE_def dec_ok_def
          split: if_splits)
  qed
  have "dval q = floor_dp dp (dval n / dval d)"
    unfolding floor_dp_def ratio floor_ratio [OF nd(4)] by (simp add: nd(1) dval_def)
  with nd vpos show ?thesis by (simp add: dec_ok_def div_in_i128)
qed

lemma div_floor_val [dec_val]:
  "div_floor n d dp = Inr q \<Longrightarrow> dec_ok n \<Longrightarrow> dec_ok d \<Longrightarrow> dval q = floor_dp dp (dval n / dval d)"
  using div_floor_spec by blast

lemma div_floor_ok [dec_wf]: "div_floor n d dp = Inr q \<Longrightarrow> dec_ok n \<Longrightarrow> dec_ok d \<Longrightarrow> dec_ok q"
  using div_floor_spec by blast

lemmas dec_val_dests = dneg_val dsub_val dadd_val dmul_val dabs_val dsum_val div_floor_val
lemmas dec_ok_dests = dneg_ok dsub_ok dadd_ok dmul_ok dabs_ok dsum_ok div_floor_ok

section \<open>Ratios of the mandate\<close>

definition plain_val :: "string \<Rightarrow> string \<Rightarrow> rat" where
  "plain_val ip fp = of_int (digits_val 0 (ip @ fp)) / 10 ^ length fp"

lemma digits_val_bound: "list_all is_digit ds \<Longrightarrow> digits_val 0 ds < 10 ^ length ds"
proof (induction ds rule: rev_induct)
  case (snoc d ds)
  then have "digit_val d \<le> 9" by (simp add: digit_val_def is_digit_def)
  moreover have "digits_val 0 ds + 1 \<le> 10 ^ length ds" using snoc by simp
  ultimately show ?case by simp
qed simp

lemma digits_val_zero_iff:
  "list_all is_digit ds \<Longrightarrow> digits_val 0 ds = 0 \<longleftrightarrow> \<not> list_ex (\<lambda>b. b \<noteq> CHR ''0'') ds"
proof (induction ds rule: rev_induct)
  case (snoc d ds)
  have "0 \<le> digits_val 0 ds" using snoc digits_val_mono [of ds 0] by simp
  moreover have "0 \<le> digit_val d" using snoc by (simp add: digit_val_nonneg)
  moreover have "digit_val d = 0 \<longleftrightarrow> d = CHR ''0''"
    using code_inject [of d "CHR ''0''"] by (auto simp: digit_val_def code_def)
  ultimately show ?case using snoc by auto
qed simp

lemma plain_val_cut:
  assumes "list_all is_digit ip" and "list_all is_digit fp" and l: "18 < length fp"
  defines "k \<equiv> digits_val 0 (ip @ take 18 fp)" and "r \<equiv> digits_val 0 (drop 18 fp)"
  shows "plain_val ip fp * 10 ^ 18 = of_int k + of_int r / 10 ^ (length fp - 18)"
    and "0 \<le> r" and "r < 10 ^ (length fp - 18)"
proof -
  have dr: "list_all is_digit (drop 18 fp)" using assms(2) by (auto simp: list_all_iff dest: in_set_dropD)
  show "0 \<le> r" using digits_val_mono [OF dr, of 0] by (simp add: r_def)
  show "r < 10 ^ (length fp - 18)" using digits_val_bound [OF dr] by (simp add: r_def)
  have "digits_val 0 (ip @ fp) = digits_val k (drop 18 fp)"
    unfolding k_def by (metis append_take_drop_id digits_val_simps(3))
  also have "\<dots> = k * 10 ^ (length fp - 18) + r"
    using digits_val_shift [of k "drop 18 fp"] by (simp add: r_def)
  finally have e: "of_int (digits_val 0 (ip @ fp)) = (of_int k * 10 ^ (length fp - 18) + of_int r :: rat)"
    by simp
  have p: "(10::rat) ^ length fp = 10 ^ (length fp - 18) * 10 ^ 18"
    using l power_add [of "10::rat" "length fp - 18" 18] by (simp only: le_add_diff_inverse2 less_imp_le)
  show "plain_val ip fp * 10 ^ 18 = of_int k + of_int r / 10 ^ (length fp - 18)"
    unfolding plain_val_def e p by (simp add: add_divide_distrib)
qed

lemma ratio_cut_floor:
  assumes "list_all is_digit ip" and "list_all is_digit fp" and "18 < length fp"
  shows "\<lfloor>plain_val ip fp * 10 ^ 18\<rfloor> = digits_val 0 (ip @ take 18 fp)"
    and "\<lceil>plain_val ip fp * 10 ^ 18\<rceil> =
      digits_val 0 (ip @ take 18 fp) + of_bool (list_ex (\<lambda>b. b \<noteq> CHR ''0'') (drop 18 fp))"
proof -
  note cut = plain_val_cut [OF assms]
  let ?k = "digits_val 0 (ip @ take 18 fp)" and ?x = "of_int (digits_val 0 (drop 18 fp)) / (10::rat) ^ (length fp - 18)"
  have x0: "0 \<le> ?x" using cut(2) by simp
  have "(of_int (digits_val 0 (drop 18 fp)) :: rat) < of_int (10 ^ (length fp - 18))"
    using cut(3) by (simp only: of_int_less_iff)
  then have x1: "?x < 1" by (simp add: divide_less_eq)
  show "\<lfloor>plain_val ip fp * 10 ^ 18\<rfloor> = ?k" unfolding cut(1) using x0 x1 by (intro floor_unique) simp_all
  have dr: "list_all is_digit (drop 18 fp)" using assms(2) by (auto simp: list_all_iff dest: in_set_dropD)
  have ex: "list_ex (\<lambda>b. b \<noteq> CHR ''0'') (drop 18 fp) \<longleftrightarrow> 0 < ?x"
    using digits_val_zero_iff [OF dr] cut(2) by (auto simp: zero_less_divide_iff)
  show "\<lceil>plain_val ip fp * 10 ^ 18\<rceil> = ?k + of_bool (list_ex (\<lambda>b. b \<noteq> CHR ''0'') (drop 18 fp))"
    unfolding cut(1) ex using x0 x1 by (intro ceiling_unique) (cases "0 < ?x"; simp)+
qed

lemma parse_plain_total:
  assumes "list_all is_digit ip" and "ip \<noteq> []" and "list_all is_digit fp" and "fp \<noteq> []" and "length fp \<le> 18"
    and "plain_val ip fp < 10 ^ 18"
  shows "parse_dec (ip @ CHR ''.'' # fp) = Inr (Dec (digits_val 0 (ip @ fp)) (length fp))"
    and "0 \<le> digits_val 0 (ip @ fp)" and "digits_val 0 (ip @ fp) < 10 ^ 36"
proof -
  have t: "ip @ CHR ''.'' # fp = [] @ (if fp = [] then ip else ip @ CHR ''.'' # fp)" using assms by simp
  show "0 \<le> digits_val 0 (ip @ fp)" using assms digits_val_mono [of "ip @ fp" 0] by simp
  have "of_int (digits_val 0 (ip @ fp)) < (of_int (10 ^ 18 * 10 ^ length fp) :: rat)"
    using assms(6) by (simp add: plain_val_def divide_less_eq)
  then have "digits_val 0 (ip @ fp) < 10 ^ 18 * 10 ^ length fp" by (simp only: of_int_less_iff)
  also have "\<dots> \<le> (10 ^ 18 * 10 ^ 18 :: int)" using assms(5) by (intro mult_left_mono power_increasing) simp_all
  finally show b: "digits_val 0 (ip @ fp) < 10 ^ 36" by simp
  show "parse_dec (ip @ CHR ''.'' # fp) = Inr (Dec (digits_val 0 (ip @ fp)) (length fp))"
    using parse_plain [OF assms(1,2,3,5) t] b by (simp add: Let_def i128_max_def)
qed

lemma ceil_dp_exact: "s \<le> n \<Longrightarrow> ceil_dp n (dval (Dec u s)) = dval (Dec u s)"
  using floor_dp_exact [of s n "- u"] by (simp add: ceil_dp_minus dval_def)

lemma split_text: "list_all is_digit ip \<Longrightarrow> split_once (CHR ''.'') (ip @ CHR ''.'' # fp) = Some (ip, fp)"
  using is_digit_not by (intro split_once_append) (auto simp: list_all_iff)

text \<open>
  A cap of the mandate converts to the largest 18-digit decimal not above what its shortest
  text denotes, a floor to the smallest not below it, and the conversion of a value below 10^18
  never fails; so an inexact conversion can only make a limit stricter.
\<close>

theorem ratio_to_dec_direction:
  assumes "f_finite v" and "\<not> f_negative v" and disp: "f_display v = ip @ CHR ''.'' # fp"
    and ip: "list_all is_digit ip" "ip \<noteq> []" and fp: "list_all is_digit fp" "fp \<noteq> []"
    and small: "plain_val ip fp < 10 ^ 18"
  shows "\<exists>d. ratio_to_dec v rnd = Inr d \<and> dec_ok d \<and>
    dval d = (case rnd of RoundDown \<Rightarrow> floor_dp 18 (plain_val ip fp) | RoundUp \<Rightarrow> ceil_dp 18 (plain_val ip fp))"
proof (cases "length fp \<le> 18")
  case True
  note p = parse_plain_total [OF ip fp True small]
  have "ratio_to_dec v rnd = Inr (Dec (digits_val 0 (ip @ fp)) (length fp))"
    using assms p(1) True by (simp add: ratio_to_dec_def split_text Let_def)
  moreover have "dval (Dec (digits_val 0 (ip @ fp)) (length fp)) = plain_val ip fp"
    by (simp add: plain_val_def dval_def)
  ultimately show ?thesis using True p(2,3) floor_dp_exact [OF True, of "digits_val 0 (ip @ fp)"]
      ceil_dp_exact [OF True, of "digits_val 0 (ip @ fp)"]
    by (cases rnd) (auto simp: dec_ok_def intro!: in_i128_bound)
next
  case False
  let ?kept = "take 18 fp" and ?k = "digits_val 0 (ip @ take 18 fp)"
  let ?up = "list_ex (\<lambda>b. b \<noteq> CHR ''0'') (drop 18 fp)"
  from False have l: "18 < length fp" by simp
  note cut = ratio_cut_floor [OF ip(1) fp(1) l]
  have kd: "list_all is_digit ?kept" using fp by (auto simp: list_all_iff dest: in_set_takeD)
  have "of_int ?k \<le> plain_val ip fp * 10 ^ 18" using cut(1) by linarith
  also have "\<dots> < 10 ^ 18 * 10 ^ 18" using small by (intro mult_strict_right_mono) simp_all
  finally have "of_int ?k / 10 ^ 18 < (10 ^ 18 :: rat)" by (simp only: divide_less_eq) simp
  then have ks: "plain_val ip ?kept < 10 ^ 18" using l by (simp only: plain_val_def length_take min.absorb2 less_imp_le)
  note p = parse_plain_total [OF ip kd _ _ ks]
  have kv: "parse_dec (ip @ CHR ''.'' # ?kept) = Inr (Dec ?k 18)" "0 \<le> ?k" "?k < 10 ^ 36"
    using p fp(2) l by (auto simp: min_def)
  have add: "dadd (Dec ?k 18) (Dec 1 18) = Inr (Dec (?k + 1) 18)"
    using kv(2,3) by (simp add: dadd_def checked_add_def checked_i128_def in_i128_bound)
  have r: "ratio_to_dec v rnd = Inr (Dec (if rnd = RoundUp \<and> ?up then ?k + 1 else ?k) 18)"
    using assms(1,2) False kv(1) add
    by (simp add: ratio_to_dec_def disp split_text [OF ip(1)] Let_def dec_new_def MAX_SCALE_def)
  show ?thesis unfolding r using kv(2,3) cut
    by (cases rnd; cases ?up) (auto simp: dec_ok_def floor_dp_def ceil_dp_def dval_def intro!: in_i128_bound)
qed

theorem ratio_to_dec_direction_witness:
  "plain_val ''0'' ''000012345678901234567'' < 10 ^ 18 \<and>
   (\<exists>d. ratio_to_dec \<lparr>f_num = FNum (12345678901234567 / 10 ^ 21),
          f_display = ''0.000012345678901234567'', f_debug = ''1.2345678901234567e-5''\<rparr> RoundUp = Inr d
     \<and> dec_ok d \<and> dval d = ceil_dp 18 (plain_val ''0'' ''000012345678901234567''))"
proof -
  have small: "plain_val ''0'' ''000012345678901234567'' < 10 ^ 18"
    by (simp add: plain_val_def digits_val_def digit_val_def code_def)
  with ratio_to_dec_direction [of "\<lparr>f_num = FNum (12345678901234567 / 10 ^ 21),
      f_display = ''0.000012345678901234567'', f_debug = ''1.2345678901234567e-5''\<rparr>"
      "''0''" "''000012345678901234567''" RoundUp]
  show ?thesis by (simp add: is_digit_def code_def f_finite_def f_negative_def)
qed

end
