(* ===== verification/Policy.thy ===== *)
theory Policy
  imports Dec_Math
begin

text \<open>
  \<open>rebalancer-core/src/policy.rs\<close>: the exact limits compiled from a mandate, the envelope that says
  when they apply, the capital base and reserve every percentage rule uses, and the tightening by a
  deployment. The parts of the mandate body that \<open>convert\<close> reads are the records of
  \<open>mandate-core/src/mandate.rs\<close>; the rest of the body, its validator and \<open>compile\<close> are in the
  theory \<open>Mandate\<close>. A \<open>DateTime<Utc>\<close> is its number of nanoseconds; the prose that
  \<open>Standing::NotActive\<close> and \<open>PolicyBody::Invalid\<close> carry is left out.
\<close>

section \<open>Mandate numbers and limits\<close>

record money =
  m_amount :: string
  m_ccy :: string

record capital =
  c_allocated :: money
  c_min_cash_reserve :: f64_obs

record universe =
  u_venues :: "string list"
  u_asset_classes :: "string list"
  u_instrument_allow :: "string list"
  u_instrument_deny :: "string list"
  u_shorting :: bool
  u_derivatives :: bool
  u_leverage_max_gross :: f64_obs

record exposure =
  e_max_position :: f64_obs
  e_max_asset_class :: "(string, f64_obs) btree_map"
  e_max_gross :: f64_obs
  e_max_net :: f64_obs
  e_max_order_notional :: money
  e_max_orders_per_day :: nat
  e_max_turnover_per_day :: f64_obs

datatype mandate_status = MsDraft | MsActive | MsSuperseded | MsRevoked | MsExpired

record mandate_envelope =
  env_version :: nat
  env_status :: mandate_status
  env_effective_from :: int
  env_review_by :: int

record limits =
  l_ccy :: string
  l_allocated :: dec
  l_min_cash_reserve :: dec
  l_instrument_allow :: "string btree_set"
  l_instrument_deny :: "string btree_set"
  l_venues :: "string btree_set"
  l_asset_classes :: "string btree_set"
  l_shorting :: bool
  l_derivatives :: bool
  l_leverage_max_gross :: dec
  l_max_position :: dec
  l_max_asset_class :: "(string, dec) btree_map"
  l_max_gross :: dec
  l_max_net :: dec
  l_max_order_notional :: dec
  l_max_orders_per_day :: nat
  l_max_turnover_per_day :: dec

datatype policy_body = ValidBody limits | InvalidBody

definition DEFAULT_MAX_PRICE_AGE_SECS :: int where "DEFAULT_MAX_PRICE_AGE_SECS = 300"
definition MAX_FUTURE_SKEW_SECS :: int where "MAX_FUTURE_SKEW_SECS = 5"

record policy =
  p_body_hash :: string
  p_body :: policy_body
  p_envelope :: "mandate_envelope option"
  p_max_price_age_secs :: int

datatype standing = StActive | StExpired | StNotActive | StInvalid

definition money_dec :: "money \<Rightarrow> math_error + dec" where
  "money_dec m = map_err (\<lambda>_. BadRatio (m_amount m) ''not a decimal amount'') (parse_dec (trim (m_amount m)))"

definition normalise :: "string list \<Rightarrow> bool \<Rightarrow> string btree_set" where
  "normalise items upper = bts_of_list (map (\<lambda>s. if upper then to_upper (trim s) else to_lower (trim s)) items)"

definition ratio_down :: "f64_obs \<Rightarrow> math_error + dec" where
  "ratio_down v = ratio_to_dec v RoundDown"

definition convert_classes :: "(string, f64_obs) btree_map \<Rightarrow> math_error + (string, dec) btree_map" where
  "convert_classes cs =
     try_fold (\<lambda>m (cls, cap). try_bind (ratio_down cap) (\<lambda>d. Inr (btm_insert (to_lower (trim cls)) d m))) [] cs"

definition convert :: "capital \<Rightarrow> universe \<Rightarrow> exposure \<Rightarrow> math_error + limits" where
  "convert c u e =
     try_bind (ratio_down (u_leverage_max_gross u)) (\<lambda>leverage.
     try_bind (ratio_down (e_max_gross e)) (\<lambda>mg.
     let max_gross = dec_min mg leverage
     in try_bind (convert_classes (e_max_asset_class e)) (\<lambda>classes.
     try_bind (money_dec (c_allocated c)) (\<lambda>allocated.
     try_bind (ratio_to_dec (c_min_cash_reserve c) RoundUp) (\<lambda>reserve.
     try_bind (ratio_down (e_max_position e)) (\<lambda>max_position.
     try_bind (ratio_down (e_max_net e)) (\<lambda>max_net.
     try_bind (money_dec (e_max_order_notional e)) (\<lambda>max_order_notional.
     try_bind (ratio_down (e_max_turnover_per_day e)) (\<lambda>max_turnover.
     Inr \<lparr>l_ccy = m_ccy (c_allocated c), l_allocated = allocated, l_min_cash_reserve = reserve,
          l_instrument_allow = normalise (u_instrument_allow u) True,
          l_instrument_deny = normalise (u_instrument_deny u) True,
          l_venues = normalise (u_venues u) False, l_asset_classes = normalise (u_asset_classes u) False,
          l_shorting = u_shorting u, l_derivatives = u_derivatives u, l_leverage_max_gross = leverage,
          l_max_position = max_position, l_max_asset_class = classes, l_max_gross = max_gross,
          l_max_net = max_net, l_max_order_notional = max_order_notional,
          l_max_orders_per_day = e_max_orders_per_day e, l_max_turnover_per_day = max_turnover\<rparr>)))))))))"

section \<open>The policy\<close>

definition with_envelope :: "mandate_envelope \<Rightarrow> policy \<Rightarrow> policy" where
  "with_envelope env p = p\<lparr>p_envelope := Some env\<rparr>"

definition with_max_price_age_secs :: "int \<Rightarrow> policy \<Rightarrow> policy" where
  "with_max_price_age_secs s p = p\<lparr>p_max_price_age_secs := s\<rparr>"

definition policy_limits :: "policy \<Rightarrow> limits option" where
  "policy_limits p = (case p_body p of ValidBody l \<Rightarrow> Some l | InvalidBody \<Rightarrow> None)"

definition policy_standing :: "policy \<Rightarrow> int \<Rightarrow> standing" where
  "policy_standing p now =
     (if policy_limits p = None then StInvalid
      else case p_envelope p of
          None \<Rightarrow> StNotActive
        | Some env \<Rightarrow>
            if env_status env \<noteq> MsActive then StNotActive
            else if now < env_effective_from env then StNotActive
            else if now \<ge> env_review_by env then StExpired
            else StActive)"

definition capital_base :: "policy \<Rightarrow> dec \<Rightarrow> string \<Rightarrow> dec" where
  "capital_base p equity ccy =
     (case policy_limits p of
        Some l \<Rightarrow> if eq_ignore_case (l_ccy l) (trim ccy) then dec_min equity (l_allocated l) else equity
      | None \<Rightarrow> equity)"

definition reserve_amount :: "policy \<Rightarrow> dec \<Rightarrow> math_error + dec" where
  "reserve_amount p base =
     (case policy_limits p of
        None \<Rightarrow> Inr base
      | Some l \<Rightarrow> try_bind (dmul (l_min_cash_reserve l) base) (\<lambda>m.
                  map_err (\<lambda>_. MathOverflow) (round_dp m 8 Ceil)))"

record deployment_limits =
  dl_capital_allocation :: "dec option"
  dl_max_position :: "dec option"
  dl_max_gross :: "dec option"
  dl_max_net :: "dec option"
  dl_max_order_notional :: "dec option"
  dl_max_orders_per_day :: "nat option"
  dl_max_turnover_per_day :: "dec option"
  dl_min_cash_reserve :: "dec option"
  dl_max_asset_class :: "(string, dec) btree_map"

definition tighten :: "dec \<Rightarrow> dec option \<Rightarrow> dec" where
  "tighten current cap = (case cap of Some c \<Rightarrow> if dec_lt c current then c else current | None \<Rightarrow> current)"

definition tighten_class :: "(string, dec) btree_map \<Rightarrow> string \<times> dec \<Rightarrow> (string, dec) btree_map" where
  "tighten_class m = (\<lambda>(cls, cap).
     let k = to_lower (trim cls)
     in case map_of m k of
          Some cur \<Rightarrow> btm_insert k (tighten cur (Some cap)) m
        | None \<Rightarrow> btm_insert k cap m)"

definition deploy_limits :: "deployment_limits \<Rightarrow> limits \<Rightarrow> limits" where
  "deploy_limits d l =
     l\<lparr>l_allocated := tighten (l_allocated l) (dl_capital_allocation d),
       l_max_position := tighten (l_max_position l) (dl_max_position d),
       l_max_gross := tighten (l_max_gross l) (dl_max_gross d),
       l_max_net := tighten (l_max_net l) (dl_max_net d),
       l_max_order_notional := tighten (l_max_order_notional l) (dl_max_order_notional d),
       l_max_turnover_per_day := tighten (l_max_turnover_per_day l) (dl_max_turnover_per_day d),
       l_max_orders_per_day :=
         (case dl_max_orders_per_day d of Some n \<Rightarrow> min (l_max_orders_per_day l) n | None \<Rightarrow> l_max_orders_per_day l),
       l_min_cash_reserve :=
         (case dl_min_cash_reserve d of
            Some r \<Rightarrow> if dec_lt (l_min_cash_reserve l) r then r else l_min_cash_reserve l
          | None \<Rightarrow> l_min_cash_reserve l),
       l_max_asset_class := foldl tighten_class (l_max_asset_class l) (dl_max_asset_class d)\<rparr>"

definition with_deployment :: "deployment_limits \<Rightarrow> policy \<Rightarrow> policy" where
  "with_deployment d p =
     (case p_body p of InvalidBody \<Rightarrow> p | ValidBody l \<Rightarrow> p\<lparr>p_body := ValidBody (deploy_limits d l)\<rparr>)"

definition digest_dec :: "dec option \<Rightarrow> string" where
  "digest_dec m = (case m of None \<Rightarrow> ''-'' | Some d \<Rightarrow> dec_to_string (normalized d))"

definition deployment_digest :: "deployment_limits \<Rightarrow> string" where
  "deployment_digest d =
     ''cap='' @ digest_dec (dl_capital_allocation d) @ ''|pos='' @ digest_dec (dl_max_position d)
     @ ''|gross='' @ digest_dec (dl_max_gross d) @ ''|net='' @ digest_dec (dl_max_net d)
     @ ''|notional='' @ digest_dec (dl_max_order_notional d)
     @ ''|orders='' @ (case dl_max_orders_per_day d of None \<Rightarrow> ''-'' | Some n \<Rightarrow> show_nat n)
     @ ''|turnover='' @ digest_dec (dl_max_turnover_per_day d)
     @ ''|reserve='' @ digest_dec (dl_min_cash_reserve d)
     @ ''|classes='' @ join '','' (map (\<lambda>(k, v). to_lower k @ ''='' @ dec_to_string (normalized v)) (dl_max_asset_class d))"

section \<open>Well-formedness\<close>

definition caps_ok :: "(string, dec) btree_map \<Rightarrow> bool" where
  "caps_ok m \<longleftrightarrow> btm_ok m \<and> list_all dec_ok (map snd m)"

definition limits_ok :: "limits \<Rightarrow> bool" where
  "limits_ok l \<longleftrightarrow> list_all dec_ok [l_allocated l, l_min_cash_reserve l, l_leverage_max_gross l, l_max_position l,
     l_max_gross l, l_max_net l, l_max_order_notional l, l_max_turnover_per_day l]
     \<and> caps_ok (l_max_asset_class l)"

definition deployment_ok :: "deployment_limits \<Rightarrow> bool" where
  "deployment_ok d \<longleftrightarrow> (\<forall>m \<in> {dl_capital_allocation d, dl_max_position d, dl_max_gross d, dl_max_net d,
     dl_max_order_notional d, dl_max_turnover_per_day d, dl_min_cash_reserve d}. \<forall>x. m = Some x \<longrightarrow> dec_ok x)
     \<and> list_all (\<lambda>(c, x). dec_ok x) (dl_max_asset_class d)"

definition policy_ok :: "policy \<Rightarrow> bool" where
  "policy_ok p \<longleftrightarrow> (\<forall>l. policy_limits p = Some l \<longrightarrow> limits_ok l)"

lemma limits_okD:
  assumes "limits_ok l"
  shows "dec_ok (l_allocated l)" "dec_ok (l_min_cash_reserve l)" "dec_ok (l_leverage_max_gross l)"
    "dec_ok (l_max_position l)" "dec_ok (l_max_gross l)" "dec_ok (l_max_net l)"
    "dec_ok (l_max_order_notional l)" "dec_ok (l_max_turnover_per_day l)"
  using assms by (auto simp: limits_ok_def)

lemma caps_ok_get: "caps_ok m \<Longrightarrow> map_of m c = Some d \<Longrightarrow> dec_ok d"
  by (auto simp: caps_ok_def list_all_iff dest!: map_of_SomeD)

lemma caps_ok_insert: "caps_ok m \<Longrightarrow> dec_ok d \<Longrightarrow> caps_ok (btm_insert c d m)"
  using btm_insert_values [of c d m] unfolding caps_ok_def list_all_iff set_map by blast

lemma limits_ok_class: "limits_ok l \<Longrightarrow> map_of (l_max_asset_class l) c = Some d \<Longrightarrow> dec_ok d"
  by (auto simp: limits_ok_def intro: caps_ok_get)

lemma tighten_ok: "dec_ok a \<Longrightarrow> (\<And>x. m = Some x \<Longrightarrow> dec_ok x) \<Longrightarrow> dec_ok (tighten a m)"
  by (auto simp: tighten_def split: option.splits)

lemma tighten_val:
  "dec_ok a \<Longrightarrow> (\<And>x. m = Some x \<Longrightarrow> dec_ok x) \<Longrightarrow>
   dval (tighten a m) = (case m of Some x \<Rightarrow> min (dval x) (dval a) | None \<Rightarrow> dval a)"
  by (auto simp: tighten_def dec_order min_def split: option.splits)

lemma tighten_le: "dec_ok a \<Longrightarrow> (\<And>x. m = Some x \<Longrightarrow> dec_ok x) \<Longrightarrow> dval (tighten a m) \<le> dval a"
  by (simp add: tighten_val split: option.splits)

text \<open>Tightening the class caps keeps every cap there is at or below what it was, and drops none.\<close>

definition caps_le :: "(string, dec) btree_map \<Rightarrow> (string, dec) btree_map \<Rightarrow> bool" where
  "caps_le m' m \<longleftrightarrow> (\<forall>c d. map_of m c = Some d \<longrightarrow> (\<exists>d'. map_of m' c = Some d' \<and> dval d' \<le> dval d))"

lemma caps_le_insert: "caps_ok m \<Longrightarrow> (\<And>e. map_of m c = Some e \<Longrightarrow> dval d \<le> dval e) \<Longrightarrow> caps_le (btm_insert c d m) m"
  by (auto simp: caps_le_def caps_ok_def btm.lookup_insert)

lemma tighten_class_le:
  assumes m: "caps_ok m" and cap: "dec_ok cap"
  shows "caps_ok (tighten_class m (cls, cap)) \<and> caps_le (tighten_class m (cls, cap)) m"
proof (cases "map_of m (to_lower (trim cls))")
  case None
  then show ?thesis using caps_ok_insert [OF m cap] caps_le_insert [OF m, of "to_lower (trim cls)" cap]
    by (simp add: tighten_class_def)
next
  case (Some cur)
  have cur: "dec_ok cur" using m Some by (rule caps_ok_get)
  have t: "dec_ok (tighten cur (Some cap))" "dval (tighten cur (Some cap)) \<le> dval cur"
    using tighten_ok [OF cur] tighten_le [OF cur] cap by auto
  show ?thesis using Some caps_ok_insert [OF m t(1)]
      caps_le_insert [OF m, of "to_lower (trim cls)" "tighten cur (Some cap)"] t(2)
    by (simp add: tighten_class_def)
qed

lemma caps_le_trans: "caps_le a b \<Longrightarrow> caps_le b c \<Longrightarrow> caps_le a c"
  unfolding caps_le_def by (meson order_trans)

lemma tighten_classes_le:
  "caps_ok m \<Longrightarrow> list_all (\<lambda>(c, x). dec_ok x) cs \<Longrightarrow>
   caps_ok (foldl tighten_class m cs) \<and> caps_le (foldl tighten_class m cs) m"
proof (induction cs arbitrary: m)
  case Nil
  then show ?case by (auto simp: caps_le_def)
next
  case (Cons c cs)
  obtain k v where c: "c = (k, v)" by (cases c)
  from Cons.prems c have s: "caps_ok (tighten_class m c)" "caps_le (tighten_class m c) m"
    using tighten_class_le [of m v k] by auto
  with Cons show ?case using caps_le_trans by fastforce
qed

lemma deployment_okD:
  assumes "deployment_ok d"
  shows "dl_capital_allocation d = Some x \<Longrightarrow> dec_ok x" "dl_max_position d = Some x \<Longrightarrow> dec_ok x"
    "dl_max_gross d = Some x \<Longrightarrow> dec_ok x" "dl_max_net d = Some x \<Longrightarrow> dec_ok x"
    "dl_max_order_notional d = Some x \<Longrightarrow> dec_ok x" "dl_max_turnover_per_day d = Some x \<Longrightarrow> dec_ok x"
    "dl_min_cash_reserve d = Some x \<Longrightarrow> dec_ok x" "list_all (\<lambda>(c, x). dec_ok x) (dl_max_asset_class d)"
  using assms unfolding deployment_ok_def by blast+

definition reserve_tighten :: "dec \<Rightarrow> dec option \<Rightarrow> dec" where
  "reserve_tighten a m = (case m of Some r \<Rightarrow> if dec_lt a r then r else a | None \<Rightarrow> a)"

lemma reserve_tighten_ge:
  "dec_ok a \<Longrightarrow> (\<And>x. m = Some x \<Longrightarrow> dec_ok x) \<Longrightarrow> dec_ok (reserve_tighten a m) \<and> dval a \<le> dval (reserve_tighten a m)"
  by (auto simp: reserve_tighten_def dec_order split: option.splits)

lemma deploy_limits_simps [simp]:
  "l_allocated (deploy_limits d l) = tighten (l_allocated l) (dl_capital_allocation d)"
  "l_max_position (deploy_limits d l) = tighten (l_max_position l) (dl_max_position d)"
  "l_max_gross (deploy_limits d l) = tighten (l_max_gross l) (dl_max_gross d)"
  "l_max_net (deploy_limits d l) = tighten (l_max_net l) (dl_max_net d)"
  "l_max_order_notional (deploy_limits d l) = tighten (l_max_order_notional l) (dl_max_order_notional d)"
  "l_max_turnover_per_day (deploy_limits d l) = tighten (l_max_turnover_per_day l) (dl_max_turnover_per_day d)"
  "l_min_cash_reserve (deploy_limits d l) = reserve_tighten (l_min_cash_reserve l) (dl_min_cash_reserve d)"
  "l_max_asset_class (deploy_limits d l) = foldl tighten_class (l_max_asset_class l) (dl_max_asset_class d)"
  "l_max_orders_per_day (deploy_limits d l) =
     (case dl_max_orders_per_day d of Some n \<Rightarrow> min (l_max_orders_per_day l) n | None \<Rightarrow> l_max_orders_per_day l)"
  "l_leverage_max_gross (deploy_limits d l) = l_leverage_max_gross l" "l_ccy (deploy_limits d l) = l_ccy l"
  "l_shorting (deploy_limits d l) = l_shorting l" "l_derivatives (deploy_limits d l) = l_derivatives l"
  "l_instrument_allow (deploy_limits d l) = l_instrument_allow l"
  "l_instrument_deny (deploy_limits d l) = l_instrument_deny l"
  "l_venues (deploy_limits d l) = l_venues l" "l_asset_classes (deploy_limits d l) = l_asset_classes l"
  by (simp_all add: deploy_limits_def reserve_tighten_def)

lemma deploy_limits_ok:
  assumes l: "limits_ok l" and d: "deployment_ok d"
  shows "limits_ok (deploy_limits d l)"
proof -
  note dd = deployment_okD [OF d]
  have "caps_ok (foldl tighten_class (l_max_asset_class l) (dl_max_asset_class d))"
    using tighten_classes_le [OF _ dd(8)] l by (simp add: limits_ok_def)
  then show ?thesis using limits_okD [OF l] reserve_tighten_ge [of "l_min_cash_reserve l" "dl_min_cash_reserve d"] dd(7)
    unfolding limits_ok_def [of "deploy_limits d l"]
    by (auto intro!: tighten_ok dest: dd(1-7))
qed

section \<open>Properties\<close>

text \<open>
  A deployment can only tighten a policy: every cap of the result is at most the mandate's
  cap and at most the deployment's, the reserve ratio and the order count are at least as strict, a
  class cap of the mandate is kept or lowered, and everything that identifies the mandate (hash,
  envelope, universe, permissions) is unchanged.
\<close>

theorem with_deployment_tightens:
  assumes "policy_limits p = Some l" and "limits_ok l" and "deployment_ok d"
  shows "\<exists>l'. policy_limits (with_deployment d p) = Some l' \<and> limits_ok l'
    \<and> dval (l_allocated l') \<le> dval (l_allocated l) \<and> dval (l_max_position l') \<le> dval (l_max_position l)
    \<and> dval (l_max_gross l') \<le> dval (l_max_gross l) \<and> dval (l_max_net l') \<le> dval (l_max_net l)
    \<and> dval (l_max_order_notional l') \<le> dval (l_max_order_notional l)
    \<and> dval (l_max_turnover_per_day l') \<le> dval (l_max_turnover_per_day l)
    \<and> dval (l_min_cash_reserve l) \<le> dval (l_min_cash_reserve l')
    \<and> l_max_orders_per_day l' \<le> l_max_orders_per_day l
    \<and> caps_le (l_max_asset_class l') (l_max_asset_class l)
    \<and> (\<forall>x. dl_max_position d = Some x \<longrightarrow> dval (l_max_position l') \<le> dval x)
    \<and> (\<forall>x. dl_max_gross d = Some x \<longrightarrow> dval (l_max_gross l') \<le> dval x)
    \<and> (\<forall>x. dl_capital_allocation d = Some x \<longrightarrow> dval (l_allocated l') \<le> dval x)
    \<and> l_leverage_max_gross l' = l_leverage_max_gross l \<and> l_shorting l' = l_shorting l
    \<and> l_instrument_allow l' = l_instrument_allow l \<and> l_instrument_deny l' = l_instrument_deny l
    \<and> p_body_hash (with_deployment d p) = p_body_hash p \<and> p_envelope (with_deployment d p) = p_envelope p"
proof -
  from assms(1) have b: "p_body p = ValidBody l" by (auto simp: policy_limits_def split: policy_body.splits)
  note dd = deployment_okD [OF assms(3)]
  have "caps_ok (l_max_asset_class l)" using assms(2) by (simp add: limits_ok_def)
  from tighten_classes_le [OF this dd(8)]
  have "caps_le (l_max_asset_class (deploy_limits d l)) (l_max_asset_class l)" by simp
  moreover have "dval (l_min_cash_reserve l) \<le> dval (l_min_cash_reserve (deploy_limits d l))"
    using reserve_tighten_ge [of "l_min_cash_reserve l" "dl_min_cash_reserve d"] dd(7) limits_okD [OF assms(2)] by simp
  moreover have "l_max_orders_per_day (deploy_limits d l) \<le> l_max_orders_per_day l" by (simp split: option.split)
  moreover have "tighten a (Some x) = tighten a m" if "m = Some x" for a x m using that by simp
  moreover have "dval (tighten a (Some x)) \<le> dval x" if "dec_ok a" "dec_ok x" for a x
    using that tighten_val [of a "Some x"] by simp
  ultimately show ?thesis using limits_okD [OF assms(2)] deploy_limits_ok [OF assms(2,3)] dd
    by (intro exI [of _ "deploy_limits d l"])
      (auto simp: policy_limits_def with_deployment_def b intro!: tighten_le)
qed

text \<open>The compiled limits of the baseline mandate fixture, for the concrete examples.\<close>

definition baseline_limits :: limits where
  "baseline_limits =
     \<lparr>l_ccy = ''USD'', l_allocated = Dec 500000 2, l_min_cash_reserve = Dec 5 2,
      l_instrument_allow = [''BTC/USD'', ''EFA'', ''ETH/USD'', ''SPY''], l_instrument_deny = [],
      l_venues = [''alpaca'', ''kraken''], l_asset_classes = [''crypto_spot'', ''us_etf''],
      l_shorting = False, l_derivatives = False, l_leverage_max_gross = Dec 1 0, l_max_position = Dec 25 2,
      l_max_asset_class = [(''crypto_spot'', Dec 6 1)], l_max_gross = Dec 1 0, l_max_net = Dec 1 0,
      l_max_order_notional = Dec 150000 2, l_max_orders_per_day = 20, l_max_turnover_per_day = Dec 5 1\<rparr>"

definition baseline_policy :: policy where
  "baseline_policy =
     \<lparr>p_body_hash = ''h'', p_body = ValidBody baseline_limits,
      p_envelope = Some \<lparr>env_version = 3, env_status = MsActive, env_effective_from = 0, env_review_by = 10 ^ 18\<rparr>,
      p_max_price_age_secs = DEFAULT_MAX_PRICE_AGE_SECS\<rparr>"

definition example_deployment :: deployment_limits where
  "example_deployment =
     \<lparr>dl_capital_allocation = Some (Dec 1000 0), dl_max_position = Some (Dec 5 1), dl_max_gross = None,
      dl_max_net = None, dl_max_order_notional = None, dl_max_orders_per_day = Some 5,
      dl_max_turnover_per_day = None, dl_min_cash_reserve = None, dl_max_asset_class = [(''Crypto_Spot'', Dec 3 1)]\<rparr>"

text \<open>They are what \<open>convert\<close> makes of the fixture.\<close>

definition plain_f64 :: "rat \<Rightarrow> string \<Rightarrow> f64_obs" where
  "plain_f64 r t = \<lparr>f_num = FNum r, f_display = t, f_debug = t\<rparr>"

lemma convert_baseline:
  "convert \<lparr>c_allocated = \<lparr>m_amount = ''5000.00'', m_ccy = ''USD''\<rparr>, c_min_cash_reserve = plain_f64 (1 / 20) ''0.05''\<rparr>
     \<lparr>u_venues = [''alpaca'', ''kraken''], u_asset_classes = [''us_etf'', ''crypto_spot''],
      u_instrument_allow = [''SPY'', ''EFA'', ''BTC/USD'', ''ETH/USD''], u_instrument_deny = [],
      u_shorting = False, u_derivatives = False, u_leverage_max_gross = plain_f64 1 ''1''\<rparr>
     \<lparr>e_max_position = plain_f64 (1 / 4) ''0.25'', e_max_asset_class = [(''crypto_spot'', plain_f64 (3 / 5) ''0.6'')],
      e_max_gross = plain_f64 1 ''1'', e_max_net = plain_f64 1 ''1'',
      e_max_order_notional = \<lparr>m_amount = ''1500.00'', m_ccy = ''USD''\<rparr>, e_max_orders_per_day = 20,
      e_max_turnover_per_day = plain_f64 (1 / 2) ''0.5''\<rparr> = Inr baseline_limits"
  by code_simp

lemma dec_ok_small_units: "dscale d \<le> 18 \<Longrightarrow> \<bar>dunits d\<bar> \<le> 10 ^ 38 \<Longrightarrow> dec_ok d"
  by (simp add: dec_ok_def in_i128_bound)

lemma baseline_ok: "limits_ok baseline_limits" "policy_ok baseline_policy" "deployment_ok example_deployment"
  by (auto simp: limits_ok_def baseline_limits_def caps_ok_def btm_ok_def policy_ok_def policy_limits_def
      baseline_policy_def deployment_ok_def example_deployment_def dec_ok_small_units)

theorem with_deployment_tightens_witness:
  "\<exists>l'. policy_limits (with_deployment example_deployment baseline_policy) = Some l'
     \<and> l_allocated l' = Dec 1000 0 \<and> l_max_position l' = Dec 25 2
     \<and> l_max_asset_class l' = [(''crypto_spot'', Dec 3 1)]
     \<and> dval (l_max_gross l') \<le> dval (l_max_gross baseline_limits)"
proof -
  have l: "policy_limits baseline_policy = Some baseline_limits"
    by (simp add: policy_limits_def baseline_policy_def)
  have e: "policy_limits (with_deployment example_deployment baseline_policy) =
      Some (deploy_limits example_deployment baseline_limits)"
    by (simp add: policy_limits_def with_deployment_def baseline_policy_def)
  have "l_allocated (deploy_limits example_deployment baseline_limits) = Dec 1000 0"
    "l_max_position (deploy_limits example_deployment baseline_limits) = Dec 25 2"
    "l_max_asset_class (deploy_limits example_deployment baseline_limits) = [(''crypto_spot'', Dec 3 1)]"
    by code_simp+
  with with_deployment_tightens [OF l baseline_ok(1,3)] e show ?thesis by auto
qed

text \<open>
  The reserve is rounded up to 8 decimals after the product was rounded down to 18, so it can fall
  short of the exact fraction by less than \<open>10^-18\<close>.
\<close>

lemma reserve_amount_val:
  assumes "reserve_amount p b = Inr r" and "policy_limits p = Some l" and "dec_ok (l_min_cash_reserve l)" and "dec_ok b"
    and "\<bar>dval (l_min_cash_reserve l) * dval b\<bar> \<le> 10 ^ 19"
  shows "dval r = ceil_dp 8 (floor_dp 18 (dval (l_min_cash_reserve l) * dval b)) \<and> dec_ok r"
proof -
  from assms(1,2) obtain m where m: "dmul (l_min_cash_reserve l) b = Inr m" "round_dp m 8 Ceil = Inr r"
    by (auto simp: reserve_amount_def res_inv)
  have v: "dval m = floor_dp 18 (dval (l_min_cash_reserve l) * dval b)" "dec_ok m"
    using m(1) assms(3,4) by (auto intro: dmul_val dmul_ok)
  have "\<bar>dval m\<bar> \<le> 10 ^ 20"
    unfolding v(1) using assms(5) floor_dp_le [of 18 "dval (l_min_cash_reserve l) * dval b"]
      floor_dp_gt [of "dval (l_min_cash_reserve l) * dval b" 18] by (simp only: abs_le_iff) (auto; linarith)
  then have "dec_small m" using v(2) by (simp add: dec_small_def)
  with round_dp_small_dir(2) [OF this m(2)] round_dp_ok [OF m(2) v(2)] v show ?thesis by simp
qed

text \<open>
  The reserve of an amount is the ratio of the capital base, never more than one 8th-decimal
  unit above it and never more than \<open>10^-18\<close> below it.
\<close>

theorem reserve_amount_bounds:
  assumes "reserve_amount p b = Inr r" and "policy_limits p = Some l" and "limits_ok l" and "dec_ok b"
    and "\<bar>dval (l_min_cash_reserve l) * dval b\<bar> \<le> 10 ^ 19"
  shows "dval (l_min_cash_reserve l) * dval b - 1 / 10 ^ 18 < dval r
    \<and> dval r < dval (l_min_cash_reserve l) * dval b + 1 / 10 ^ 8"
proof -
  note v = reserve_amount_val [OF assms(1,2) limits_okD(2) [OF assms(3)] assms(4,5)]
  let ?x = "dval (l_min_cash_reserve l) * dval b"
  show ?thesis using v floor_dp_le [of 18 ?x] floor_dp_gt [of ?x 18] ceil_dp_ge [of "floor_dp 18 ?x" 8]
      ceil_dp_lt [of 8 "floor_dp 18 ?x"] by linarith
qed

theorem reserve_amount_bounds_witness:
  "reserve_amount baseline_policy (Dec 3333333333335 9) = Inr (Dec 16666666667 8)
   \<and> 5 / 100 * dval (Dec 3333333333335 9) - 1 / 10 ^ 18 < dval (Dec 16666666667 8)"
proof -
  have l: "policy_limits baseline_policy = Some baseline_limits"
    by (simp add: policy_limits_def baseline_policy_def)
  have r: "reserve_amount baseline_policy (Dec 3333333333335 9) = Inr (Dec 16666666667 8)" by code_simp
  have ok: "dec_ok (Dec 3333333333335 9)" by (simp add: dec_ok_small_units)
  have v: "dval (l_min_cash_reserve baseline_limits) = 5 / 100" by (simp add: baseline_limits_def dval_def)
  have "\<bar>dval (l_min_cash_reserve baseline_limits) * dval (Dec 3333333333335 9)\<bar> \<le> 10 ^ 19"
    by (simp add: baseline_limits_def dval_def)
  from reserve_amount_bounds [OF r l baseline_ok(1) ok this] r show ?thesis unfolding v by simp
qed

text \<open>
  Two consequences the comments of the source do not have: a reserve can be understated (here the
  exact fraction is positive and the amount is zero), and a deployment that lowers the allocation
  lowers the absolute reserve, because the reserve is a fraction of the capital base.
\<close>

lemma reserve_can_be_understated:
  "reserve_amount (baseline_policy\<lparr>p_body := ValidBody (baseline_limits\<lparr>l_min_cash_reserve := Dec 1 18\<rparr>)\<rparr>) (Dec 1 1)
     = Inr (Dec 0 8)"
  by code_simp

lemma deployment_can_lower_reserve:
  "reserve_amount baseline_policy (capital_base baseline_policy (Dec 20000 0) ''USD'') = Inr (Dec 25000000000 8) \<and>
   reserve_amount (with_deployment example_deployment baseline_policy)
     (capital_base (with_deployment example_deployment baseline_policy) (Dec 20000 0) ''USD'') = Inr (Dec 5000000000 8)"
  by code_simp

end
