(* ===== verification/Broker_Types.thy ===== *)
theory Broker_Types
  imports Dec_Text
begin

text \<open>
  \<open>broker-adapters/src/types.rs\<close> and \<open>error.rs\<close>: the broker-neutral order, outcome and balance
  types and the adapters' error type. The payloads of an error that are only prose for a human are
  left out; the ones the callers branch on (symbols, limits, statuses) are kept: a \<open>Malformed\<close>
  whose text contains ``overfill anomaly'', which the kill path branches on, is \<open>OverfillAnomaly\<close>. The JSON values
  the adapters read are the datatype \<open>json\<close>, as \<open>serde_json::Value\<close> has it, with an object as
  its entries in key order and a number by what it is and how it prints.
\<close>

section \<open>Orders\<close>

datatype side = Buy | Sell

definition side_as_str :: "side \<Rightarrow> string" where
  "side_as_str s = (case s of Buy \<Rightarrow> ''buy'' | Sell \<Rightarrow> ''sell'')"

datatype order_kind = Market | Limit dec

datatype time_in_force = Gtc | Ioc

record order_request =
  req_tag :: string
  req_symbol :: string
  req_side :: side
  req_kind :: order_kind
  req_quantity :: dec
  req_tif :: "time_in_force option"
  req_post_only :: bool
  req_reduce_only :: bool
  req_validate_only :: bool
  req_reference_price :: "dec option"

definition order_base :: "string \<Rightarrow> string \<Rightarrow> side \<Rightarrow> order_kind \<Rightarrow> dec \<Rightarrow> order_request" where
  "order_base tag symbol side kind quantity =
     \<lparr>req_tag = tag, req_symbol = symbol, req_side = side, req_kind = kind, req_quantity = quantity,
      req_tif = None, req_post_only = False, req_reduce_only = False, req_validate_only = False,
      req_reference_price = None\<rparr>"

definition order_market :: "string \<Rightarrow> string \<Rightarrow> side \<Rightarrow> dec \<Rightarrow> order_request" where
  "order_market tag symbol side quantity = order_base tag symbol side Market quantity"

definition order_limit :: "string \<Rightarrow> string \<Rightarrow> side \<Rightarrow> dec \<Rightarrow> dec \<Rightarrow> order_request" where
  "order_limit tag symbol side quantity price = order_base tag symbol side (Limit price) quantity"

record sent_order =
  sent_broker_pair :: string
  sent_side :: side
  sent_quantity :: dec
  sent_price :: "dec option"
  sent_userref :: int
  sent_validate_only :: bool

datatype order_status =
    Pending
  | Open
  | PartiallyFilled
  | Filled
  | PartiallyFilledThenCanceled
  | PartiallyFilledThenExpired
  | Canceled
  | Expired
  | OrderRefused

definition is_terminal :: "order_status \<Rightarrow> bool" where
  "is_terminal s \<longleftrightarrow> s \<notin> {Pending, Open, PartiallyFilled}"

definition has_fills :: "order_status \<Rightarrow> bool" where
  "has_fills s \<longleftrightarrow>
     s \<in> {PartiallyFilled, Filled, PartiallyFilledThenCanceled, PartiallyFilledThenExpired}"

section \<open>Errors\<close>

datatype error_class =
    InvalidNonce | Auth | RateLimitedClass | ServiceUnavailable | InsufficientFunds | InvalidArguments
  | OrderRejected | UnknownOrder | OtherClass

record exchange_error =
  ee_code :: string
  ee_class :: error_class

definition outcome_unknown :: "exchange_error \<Rightarrow> bool" where
  "outcome_unknown e \<longleftrightarrow> ee_class e = ServiceUnavailable"

datatype broker_error =
    UnknownSymbol
  | InvalidRequest
  | Unsupported
  | QuantityRoundsToZero string dec dec
  | BelowMinQuantity string dec dec
  | BelowMinCost string dec dec
  | InvalidPrice
  | PairNotTradable string string
  | Credentials
  | NonceFailure
  | TransportFailure
  | HttpFailure nat
  | Malformed
  | ExchangeFailure "exchange_error list"
  | NotFound
  | UnknownTag string
  | UserrefFailure
  | ConfigFailure
  | RateLimited "nat option"
  | MarketClosed string string
  | AccountBlocked
  | Preflight
  | CancelTargetNotFound string
  | LookupInconclusive
  | OverfillAnomaly

datatype place_outcome =
    Accepted string "string option" sent_order "string list"
  | ValidatedOnly "string option" sent_order "string list"
  | Rejected "exchange_error list" sent_order
  | UnknownOutcome string sent_order

text \<open>
  What the broker says of one order. The float fields (financing, times) are left out: nothing here
  computes with them.
\<close>

record order_report =
  or_broker_order_id :: string
  or_userref :: "int option"
  or_tag :: "string option"
  or_symbol :: string
  or_side :: "side option"
  or_kind :: "order_kind option"
  or_status :: order_status
  or_raw_status :: string
  or_reason :: "string option"
  or_quantity :: dec
  or_executed_quantity :: dec
  or_avg_price :: "dec option"
  or_cost :: "dec option"
  or_fee :: "dec option"

record cancel_outcome =
  co_canceled_count :: nat
  co_pending :: bool

record quote =
  qt_symbol :: string
  qt_bid :: dec
  qt_ask :: dec
  qt_last :: dec

section \<open>Balances\<close>

datatype balance_kind = Spot | Earn

record balance_entry =
  be_raw_asset :: string
  be_asset :: string
  be_amount :: dec
  be_kind :: balance_kind

type_synonym balances = "balance_entry list"

definition spot :: "balances \<Rightarrow> string \<Rightarrow> dec" where
  "spot b asset =
     foldl (\<lambda>acc e. case checked_add acc (be_amount e) of Some s \<Rightarrow> s | None \<Rightarrow> acc) dec_ZERO
       (filter (\<lambda>e. be_kind e = Spot \<and> eq_ignore_case (be_asset e) asset) b)"

section \<open>JSON values\<close>

datatype json_number = NInt int | NFloat string

datatype json =
    JNull
  | JBool bool
  | JNum json_number
  | JStr string
  | JArr "json list"
  | JObj "(string \<times> json) list"

definition show_int :: "int \<Rightarrow> string" where
  "show_int z = (if z < 0 then ''-'' @ show_nat (nat (- z)) else show_nat (nat z))"

definition number_to_string :: "json_number \<Rightarrow> string" where
  "number_to_string n = (case n of NInt z \<Rightarrow> show_int z | NFloat t \<Rightarrow> t)"

definition jget :: "json \<Rightarrow> string \<Rightarrow> json option" where
  "jget v field = (case v of JObj m \<Rightarrow> map_of m field | _ \<Rightarrow> None)"

definition as_str :: "json \<Rightarrow> string option" where
  "as_str v = (case v of JStr s \<Rightarrow> Some s | _ \<Rightarrow> None)"

definition as_bool :: "json \<Rightarrow> bool option" where
  "as_bool v = (case v of JBool b \<Rightarrow> Some b | _ \<Rightarrow> None)"

definition as_u64 :: "json \<Rightarrow> nat option" where
  "as_u64 v = (case v of JNum (NInt z) \<Rightarrow> (if 0 \<le> z \<and> z < 2 ^ 64 then Some (nat z) else None) | _ \<Rightarrow> None)"

definition as_array :: "json \<Rightarrow> json list option" where
  "as_array v = (case v of JArr xs \<Rightarrow> Some xs | _ \<Rightarrow> None)"

text \<open>\<open>Option::filter\<close>, and the first element a predicate holds of (\<open>Iterator::find\<close>).\<close>

definition opt_filter :: "('a \<Rightarrow> bool) \<Rightarrow> 'a option \<Rightarrow> 'a option" where
  "opt_filter p m = (case m of Some x \<Rightarrow> if p x then Some x else None | None \<Rightarrow> None)"

definition opt_or :: "'a option \<Rightarrow> 'a option \<Rightarrow> 'a option" where
  "opt_or a b = (case a of None \<Rightarrow> b | Some x \<Rightarrow> Some x)"

text \<open>\<open>Deserialize for Dec\<close>: a string or a number, parsed from its text.\<close>

definition dec_of_json :: "json \<Rightarrow> dec_error + dec" where
  "dec_of_json v =
     (case v of
        JStr s \<Rightarrow> parse_dec s
      | JNum n \<Rightarrow> parse_dec (number_to_string n)
      | _ \<Rightarrow> Inl (Invalid []))"

section \<open>Lemmas\<close>

lemma opt_filter_Some [res_inv]: "opt_filter p m = Some x \<longleftrightarrow> m = Some x \<and> p x"
  by (auto simp: opt_filter_def split: option.splits)

lemma dec_of_json_ok [dec_wf]: "dec_of_json v = Inr d \<Longrightarrow> dec_ok d"
  by (auto simp: dec_of_json_def intro: parse_dec_ok split: json.splits)

end
