(* ===== verification/Kraken_Order.thy ===== *)
theory Kraken_Order
  imports Broker_Types
begin

text \<open>
  \<open>broker-adapters/src/kraken/pairs.rs\<close> and \<open>kraken/order.rs\<close>: the pair table with its alias
  lookup, overrides and merge, and \<open>prepare_order\<close>, which validates a request, rounds its volume
  and price and checks the minimums. The JSON reader and the derived deserialisers are parameters;
  what the code makes of the values they return is modelled.
\<close>

section \<open>Pairs\<close>

datatype pair_source = PairBuiltin | AssetPairs | PairOverridden

record pair_info =
  pi_canonical :: string
  pi_altname :: string
  pi_rest_name :: string
  pi_ws_name :: string
  pi_base_asset :: string
  pi_quote_asset :: string
  pi_pair_decimals :: nat
  pi_lot_decimals :: nat
  pi_order_min :: dec
  pi_cost_min :: "dec option"
  pi_tick_size :: "dec option"
  pi_status :: "string option"
  pi_source :: pair_source

definition pair_matches :: "pair_info \<Rightarrow> string \<Rightarrow> bool" where
  "pair_matches p name \<longleftrightarrow>
     (let n = trim name
      in eq_ignore_case (pi_canonical p) n \<or> eq_ignore_case (pi_altname p) n
         \<or> eq_ignore_case (pi_rest_name p) n \<or> eq_ignore_case (pi_ws_name p) n)"

definition LEGACY_PREFIXED :: "string list" where
  "LEGACY_PREFIXED =
     [''XXBT'', ''XETH'', ''XETC'', ''XLTC'', ''XMLN'', ''XREP'', ''XXDG'', ''XXLM'', ''XXMR'',
      ''XXRP'', ''XZEC'', ''ZUSD'', ''ZEUR'', ''ZGBP'', ''ZCAD'', ''ZJPY'', ''ZAUD'']"

definition normalize_asset :: "string \<Rightarrow> string \<times> balance_kind" where
  "normalize_asset raw =
     (let upper = to_upper (trim raw);
          (base, kind) = (case split_once (CHR ''.'') upper of Some (b, _) \<Rightarrow> (b, Earn) | None \<Rightarrow> (upper, Spot));
          stripped = (if base \<in> set LEGACY_PREFIXED then tl base else base);
          canonical = (if stripped = ''XBT'' then ''BTC'' else if stripped = ''XDG'' then ''DOGE'' else stripped)
      in (canonical, kind))"

type_synonym pair_table = "pair_info list"

record raw_asset_pair =
  rap_altname :: string
  rap_wsname :: "string option"
  rap_base :: string
  rap_quote :: string
  rap_pair_decimals :: nat
  rap_lot_decimals :: nat
  rap_ordermin :: dec
  rap_costmin :: "dec option"
  rap_tick_size :: "dec option"
  rap_status :: "string option"

record pair_override =
  pov_pair_decimals :: "nat option"
  pov_lot_decimals :: "nat option"
  pov_ordermin :: "dec option"
  pov_costmin :: "dec option"
  pov_tick_size :: "dec option"
  pov_status :: "string option"

definition builtin_pair :: "string \<Rightarrow> string \<Rightarrow> string \<Rightarrow> string \<Rightarrow> string \<Rightarrow> nat \<Rightarrow> dec \<Rightarrow> dec \<Rightarrow> pair_info" where
  "builtin_pair canonical altname rest ws base pd omin tick =
     \<lparr>pi_canonical = canonical, pi_altname = altname, pi_rest_name = rest, pi_ws_name = ws,
      pi_base_asset = base, pi_quote_asset = ''ZUSD'', pi_pair_decimals = pd, pi_lot_decimals = 8,
      pi_order_min = omin, pi_cost_min = Some (Dec 5 1), pi_tick_size = Some tick, pi_status = None,
      pi_source = PairBuiltin\<rparr>"

definition builtin_pairs :: pair_table where
  "builtin_pairs =
     [builtin_pair ''BTC/USD'' ''XBTUSD'' ''XXBTZUSD'' ''XBT/USD'' ''XXBT'' 1 (Dec 1 4) (Dec 1 1),
      builtin_pair ''ETH/USD'' ''ETHUSD'' ''XETHZUSD'' ''ETH/USD'' ''XETH'' 2 (Dec 2 3) (Dec 1 2)]"

definition pair_of_raw :: "string \<Rightarrow> raw_asset_pair \<Rightarrow> pair_info" where
  "pair_of_raw key raw =
     \<lparr>pi_canonical = fst (normalize_asset (rap_base raw)) @ ''/'' @ fst (normalize_asset (rap_quote raw)),
      pi_altname = rap_altname raw, pi_rest_name = key,
      pi_ws_name = (case rap_wsname raw of Some w \<Rightarrow> w | None \<Rightarrow> rap_altname raw),
      pi_base_asset = rap_base raw, pi_quote_asset = rap_quote raw,
      pi_pair_decimals = rap_pair_decimals raw, pi_lot_decimals = rap_lot_decimals raw,
      pi_order_min = rap_ordermin raw, pi_cost_min = rap_costmin raw, pi_tick_size = rap_tick_size raw,
      pi_status = rap_status raw, pi_source = AssetPairs\<rparr>"

definition ends_with :: "string \<Rightarrow> string \<Rightarrow> bool" where
  "ends_with suf s \<longleftrightarrow> starts_with (rev suf) (rev s)"

fun read_asset_pairs :: "(json \<Rightarrow> raw_asset_pair option) \<Rightarrow> (string \<times> json) list \<Rightarrow> broker_error + pair_table" where
  "read_asset_pairs de [] = Inr []"
| "read_asset_pairs de ((key, v) # rest) =
     (if ends_with ''.d'' key then read_asset_pairs de rest
      else try_bind (ok_or Malformed (de v)) (\<lambda>raw.
           try_bind (read_asset_pairs de rest) (\<lambda>ps. Inr (pair_of_raw key raw # ps))))"

definition from_asset_pairs_json ::
    "(string \<Rightarrow> json option) \<Rightarrow> (json \<Rightarrow> raw_asset_pair option) \<Rightarrow> string \<Rightarrow> broker_error + pair_table" where
  "from_asset_pairs_json from_str de body =
     try_bind (ok_or Malformed (from_str body)) (\<lambda>v.
     case (case jget v ''result'' of Some r \<Rightarrow> r | None \<Rightarrow> v) of
       JObj m \<Rightarrow> read_asset_pairs de m
     | _ \<Rightarrow> Inl Malformed)"

definition override_pair :: "pair_override \<Rightarrow> pair_info \<Rightarrow> pair_info" where
  "override_pair ov p =
     p\<lparr>pi_pair_decimals := (case pov_pair_decimals ov of Some v \<Rightarrow> v | None \<Rightarrow> pi_pair_decimals p),
       pi_lot_decimals := (case pov_lot_decimals ov of Some v \<Rightarrow> v | None \<Rightarrow> pi_lot_decimals p),
       pi_order_min := (case pov_ordermin ov of Some v \<Rightarrow> v | None \<Rightarrow> pi_order_min p),
       pi_cost_min := (case pov_costmin ov of Some v \<Rightarrow> Some v | None \<Rightarrow> pi_cost_min p),
       pi_tick_size := (case pov_tick_size ov of Some v \<Rightarrow> Some v | None \<Rightarrow> pi_tick_size p),
       pi_status := (case pov_status ov of Some v \<Rightarrow> Some v | None \<Rightarrow> pi_status p),
       pi_source := PairOverridden\<rparr>"

text \<open>\<open>iter_mut().find(p)\<close> and an update of what it finds: the first match only.\<close>

fun update_first :: "('a \<Rightarrow> bool) \<Rightarrow> ('a \<Rightarrow> 'a) \<Rightarrow> 'a list \<Rightarrow> 'a list option" where
  "update_first p f [] = None"
| "update_first p f (x # xs) =
     (if p x then Some (f x # xs) else map_option (\<lambda>ys. x # ys) (update_first p f xs))"

definition apply_overrides :: "(string \<times> pair_override) list \<Rightarrow> pair_table \<Rightarrow> broker_error + pair_table" where
  "apply_overrides ovs t =
     try_fold (\<lambda>t (name, ov).
       ok_or ConfigFailure (update_first (\<lambda>p. pair_matches p name) (override_pair ov) t)) t ovs"

definition pair_upsert :: "pair_info \<Rightarrow> pair_table \<Rightarrow> pair_table" where
  "pair_upsert info t =
     (case update_first (\<lambda>p. eq_ignore_case (pi_altname p) (pi_altname info)) (\<lambda>_. info) t of
        Some t' \<Rightarrow> t'
      | None \<Rightarrow> t @ [info])"

definition pair_merge :: "pair_table \<Rightarrow> pair_table \<Rightarrow> pair_table" where
  "pair_merge other t = foldl (\<lambda>t p. pair_upsert p t) t other"

definition pair_lookup :: "pair_table \<Rightarrow> string \<Rightarrow> pair_info option" where
  "pair_lookup t name = find (\<lambda>p. pair_matches p name) t"

section \<open>Order preparation\<close>

record kraken_options =
  ko_allow_reduce_only :: bool
  ko_force_validate :: bool

definition kraken_default_options :: kraken_options where
  "kraken_default_options = \<lparr>ko_allow_reduce_only = False, ko_force_validate = False\<rparr>"

record kraken_prepared =
  kp_symbol :: string
  kp_broker_pair :: string
  kp_side :: side
  kp_requested_quantity :: dec
  kp_volume :: dec
  kp_volume_dp :: nat
  kp_price :: "dec option"
  kp_price_dp :: nat
  kp_userref :: int
  kp_tif :: "time_in_force option"
  kp_post_only :: bool
  kp_reduce_only :: bool
  kp_validate :: bool
  kp_cost_check_skipped :: bool

definition is_limit :: "order_kind \<Rightarrow> bool" where
  "is_limit k = (case k of Market \<Rightarrow> False | Limit _ \<Rightarrow> True)"

definition price_mode :: "side \<Rightarrow> rounding" where
  "price_mode s = (case s of Buy \<Rightarrow> Floor | Sell \<Rightarrow> Ceil)"

text \<open>The blocks of \<open>prepare_order\<close>: request checks, volume, price, minimum cost.\<close>

definition kraken_check_request :: "order_request \<Rightarrow> pair_info \<Rightarrow> kraken_options \<Rightarrow> broker_error + unit" where
  "kraken_check_request req pair opts =
     (if (case pi_status pair of Some s \<Rightarrow> s \<noteq> ''online'' | None \<Rightarrow> False)
      then Inl (PairNotTradable (pi_canonical pair) (the (pi_status pair)))
      else if \<not> is_positive (req_quantity req) then Inl InvalidRequest
      else if req_post_only req \<and> \<not> is_limit (req_kind req) then Inl InvalidRequest
      else if req_tif req \<noteq> None \<and> \<not> is_limit (req_kind req) then Inl InvalidRequest
      else if req_reduce_only req \<and> \<not> ko_allow_reduce_only opts then Inl Unsupported
      else Inr ())"

definition kraken_volume :: "dec \<Rightarrow> pair_info \<Rightarrow> broker_error + dec" where
  "kraken_volume quantity pair =
     try_bind (map_err (\<lambda>_. InvalidRequest) (round_dp quantity (pi_lot_decimals pair) Floor)) (\<lambda>volume.
     if is_zero volume then Inl (QuantityRoundsToZero (pi_canonical pair) quantity volume)
     else if dec_lt volume (pi_order_min pair)
     then Inl (BelowMinQuantity (pi_canonical pair) (pi_order_min pair) volume)
     else Inr volume)"

definition kraken_limit_price :: "side \<Rightarrow> dec \<Rightarrow> pair_info \<Rightarrow> broker_error + dec" where
  "kraken_limit_price side price pair =
     (if \<not> is_positive price then Inl InvalidPrice
      else let mode = price_mode side
      in try_bind (map_err (\<lambda>_. InvalidPrice) (round_dp price (pi_pair_decimals pair) mode)) (\<lambda>p0.
      try_bind (case pi_tick_size pair of
          Some tick \<Rightarrow> map_err (\<lambda>_. InvalidPrice) (round_to_multiple p0 tick mode)
        | None \<Rightarrow> Inr p0) (\<lambda>p.
      if decimals p > pi_pair_decimals pair then Inl ConfigFailure
      else if \<not> is_positive p then Inl InvalidPrice
      else Inr p)))"

definition kraken_price :: "order_request \<Rightarrow> pair_info \<Rightarrow> broker_error + dec option" where
  "kraken_price req pair =
     (case req_kind req of
        Market \<Rightarrow> Inr None
      | Limit price \<Rightarrow> try_bind (kraken_limit_price (req_side req) price pair) (\<lambda>p. Inr (Some p)))"

text \<open>\<open>Inr True\<close>: the check was skipped for want of a price.\<close>

definition min_cost_check ::
    "string \<Rightarrow> dec option \<Rightarrow> dec \<Rightarrow> dec option \<Rightarrow> dec option \<Rightarrow> broker_error + bool" where
  "min_cost_check symbol min_cost volume price reference =
     (case min_cost of
        None \<Rightarrow> Inr False
      | Some mc \<Rightarrow>
          (case opt_or price reference of
             None \<Rightarrow> Inr True
           | Some px \<Rightarrow>
               try_bind (ok_or InvalidRequest (checked_mul volume px)) (\<lambda>cost.
               if dec_lt cost mc then Inl (BelowMinCost symbol mc cost) else Inr False)))"

definition kraken_prepare_order ::
    "order_request \<Rightarrow> pair_info \<Rightarrow> int \<Rightarrow> kraken_options \<Rightarrow> broker_error + kraken_prepared" where
  "kraken_prepare_order req pair userref opts =
     try_bind (kraken_check_request req pair opts) (\<lambda>_.
     try_bind (kraken_volume (req_quantity req) pair) (\<lambda>volume.
     try_bind (kraken_price req pair) (\<lambda>price.
     try_bind (min_cost_check (pi_canonical pair) (pi_cost_min pair) volume price (req_reference_price req)) (\<lambda>skipped.
     Inr \<lparr>kp_symbol = pi_canonical pair, kp_broker_pair = pi_altname pair, kp_side = req_side req,
          kp_requested_quantity = req_quantity req, kp_volume = volume,
          kp_volume_dp = pi_lot_decimals pair, kp_price = price, kp_price_dp = pi_pair_decimals pair,
          kp_userref = userref, kp_tif = req_tif req, kp_post_only = req_post_only req,
          kp_reduce_only = req_reduce_only req,
          kp_validate = (req_validate_only req \<or> ko_force_validate opts),
          kp_cost_check_skipped = skipped\<rparr>))))"

definition kraken_to_params :: "kraken_prepared \<Rightarrow> broker_error + (string \<times> string) list" where
  "kraken_to_params p =
     try_bind (map_err (\<lambda>_. InvalidRequest) (to_fixed (kp_volume p) (kp_volume_dp p))) (\<lambda>vol.
     try_bind (case kp_price p of
         Some px \<Rightarrow> try_bind (map_err (\<lambda>_. InvalidRequest) (to_fixed px (kp_price_dp p))) (\<lambda>t. Inr [(''price'', t)])
       | None \<Rightarrow> Inr []) (\<lambda>price.
     Inr ([(''pair'', kp_broker_pair p), (''type'', side_as_str (kp_side p)),
           (''ordertype'', if kp_price p \<noteq> None then ''limit'' else ''market''), (''volume'', vol)]
          @ price
          @ (case kp_tif p of
               Some Gtc \<Rightarrow> [(''timeinforce'', ''GTC'')]
             | Some Ioc \<Rightarrow> [(''timeinforce'', ''IOC'')]
             | None \<Rightarrow> [])
          @ (if kp_post_only p then [(''oflags'', ''post'')] else [])
          @ [(''userref'', show_int (kp_userref p))]
          @ (if kp_reduce_only p then [(''reduce_only'', ''true'')] else [])
          @ (if kp_validate p then [(''validate'', ''true'')] else []))))"

definition kraken_sent :: "kraken_prepared \<Rightarrow> sent_order" where
  "kraken_sent p =
     \<lparr>sent_broker_pair = kp_broker_pair p, sent_side = kp_side p, sent_quantity = kp_volume p,
      sent_price = kp_price p, sent_userref = kp_userref p, sent_validate_only = kp_validate p\<rparr>"

section \<open>The pair table\<close>

lemma update_first_Some:
  "update_first p f xs = Some ys \<Longrightarrow> \<exists>as x bs. xs = as @ x # bs \<and> p x \<and> (\<forall>a \<in> set as. \<not> p a) \<and> ys = as @ f x # bs"
proof (induction xs arbitrary: ys)
  case (Cons x xs)
  show ?case
  proof (cases "p x")
    case True
    with Cons.prems show ?thesis by (intro exI [of _ "[]"]) simp
  next
    case False
    with Cons.prems obtain zs where zs: "update_first p f xs = Some zs" "ys = x # zs" by auto
    from Cons.IH [OF zs(1)] obtain as y bs where
      "xs = as @ y # bs" "p y" "\<forall>a \<in> set as. \<not> p a" "zs = as @ f y # bs" by blast
    with False zs show ?thesis by (intro exI [of _ "x # as"] exI [of _ y] exI [of _ bs]) auto
  qed
qed simp

lemma update_first_None: "update_first p f xs = None \<longleftrightarrow> (\<forall>x \<in> set xs. \<not> p x)"
  by (induction xs) auto

lemma find_append: "find p (xs @ ys) = (case find p xs of Some x \<Rightarrow> Some x | None \<Rightarrow> find p ys)"
  by (induction xs) auto

lemma find_first: "\<forall>a \<in> set as. \<not> p a \<Longrightarrow> find p (as @ x # bs) = (if p x then Some x else find p bs)"
  by (induction as) auto

text \<open>A row inserted by \<open>upsert\<close> is found under its altname when no other row claims the name.\<close>

lemma pair_upsert_lookup:
  assumes "\<forall>q \<in> set t. pair_matches q name \<longrightarrow> eq_ignore_case (pi_altname q) (pi_altname info)"
    and "pair_matches info name"
  shows "pair_lookup (pair_upsert info t) name = Some info"
proof (cases "update_first (\<lambda>p. eq_ignore_case (pi_altname p) (pi_altname info)) (\<lambda>_. info) t")
  case None
  then have "\<forall>q \<in> set t. \<not> pair_matches q name" using assms(1) by (auto simp: update_first_None)
  then show ?thesis using assms(2) None by (simp add: pair_lookup_def pair_upsert_def find_first)
next
  case (Some t')
  from update_first_Some [OF Some] obtain as x bs where
    t: "t = as @ x # bs" "\<forall>a \<in> set as. \<not> eq_ignore_case (pi_altname a) (pi_altname info)" "t' = as @ info # bs" by blast
  then have "\<forall>a \<in> set as. \<not> pair_matches a name" using assms(1) by auto
  then show ?thesis using assms(2) Some t(3) by (simp add: pair_lookup_def pair_upsert_def find_first)
qed

section \<open>What a prepared order satisfies\<close>

definition pair_ok :: "pair_info \<Rightarrow> bool" where
  "pair_ok p \<longleftrightarrow> dec_ok (pi_order_min p) \<and> 0 \<le> dunits (pi_order_min p)
     \<and> (\<forall>c. pi_cost_min p = Some c \<longrightarrow> dec_ok c) \<and> (\<forall>t. pi_tick_size p = Some t \<longrightarrow> dec_ok t)"

lemma kraken_volume_val:
  assumes v: "kraken_volume q pair = Inr v" and q: "dec_ok q" "is_positive q" and p: "pair_ok pair"
  shows "0 < dval v \<and> dval v \<le> dval q \<and> dval (pi_order_min pair) \<le> dval v
    \<and> dec_ok v \<and> dscale v = pi_lot_decimals pair"
proof -
  from v have r: "round_dp q (pi_lot_decimals pair) Floor = Inr v" "\<not> is_zero v"
    "\<not> dec_lt v (pi_order_min pair)"
    by (auto simp: kraken_volume_def res_inv split: if_splits)
  from round_dp_ok [OF r(1) q(1)] have ok: "dec_ok v" "dscale v = pi_lot_decimals pair" by auto
  have "dval v \<le> dval q" using round_dp_floor_le [OF r(1) q(1)] q(2) by (simp add: is_positive_def)
  moreover have m: "dval (pi_order_min pair) \<le> dval v" using r(3) ok p by (simp add: dec_order pair_ok_def not_less)
  moreover have "0 \<le> dval (pi_order_min pair)" using p by (simp add: pair_ok_def dval_nonneg_iff)
  moreover have "dval v \<noteq> 0" using r(2) by (simp add: dval_sign)
  ultimately show ?thesis using ok by force
qed

lemma kraken_limit_price_dir:
  assumes r: "kraken_limit_price sd px pair = Inr p" and px: "dec_small px" and pair: "pair_ok pair"
  shows "0 < dval p \<and> dec_ok p \<and> (sd = Buy \<longrightarrow> dval p \<le> dval px) \<and> (sd = Sell \<longrightarrow> dval px \<le> dval p)"
proof -
  from r obtain p0 where p0: "round_dp px (pi_pair_decimals pair) (price_mode sd) = Inr p0"
    and t: "(case pi_tick_size pair of Some tick \<Rightarrow> map_err (\<lambda>_. InvalidPrice) (round_to_multiple p0 tick (price_mode sd))
        | None \<Rightarrow> Inr p0) = Inr p" and pos: "is_positive p"
    by (auto simp: kraken_limit_price_def Let_def res_inv split: if_splits)
  have ok0: "dec_ok p0" using round_dp_ok [OF p0] px by (simp add: dec_small_def)
  have d0: "sd = Buy \<longrightarrow> dval p0 \<le> dval px" "sd = Sell \<longrightarrow> dval px \<le> dval p0"
    using p0 round_dp_small_dir [OF px] by (auto simp: price_mode_def floor_dp_le ceil_dp_ge)
  have "dec_ok p \<and> (sd = Buy \<longrightarrow> dval p \<le> dval p0) \<and> (sd = Sell \<longrightarrow> dval p0 \<le> dval p)"
  proof (cases "pi_tick_size pair")
    case None
    with t ok0 show ?thesis by auto
  next
    case (Some tick)
    with pair have tk: "dec_ok tick" by (simp add: pair_ok_def)
    from t Some have m: "round_to_multiple p0 tick (price_mode sd) = Inr p" by (auto simp: res_inv)
    with round_to_multiple_ok [OF m ok0 tk] round_to_multiple_dir [OF ok0 tk] show ?thesis
      by (auto simp: price_mode_def)
  qed
  with d0 pos show ?thesis by (auto simp: dval_sign)
qed

lemma min_cost_check_val:
  assumes "min_cost_check sy (Some mc) v price ref = Inr sk" and "opt_or price ref = Some px"
    and "dec_ok mc" and "dec_ok v" and "dec_ok px"
  shows "dval mc \<le> floor_dp 18 (dval v * dval px) \<and> \<not> sk"
  using assms by (auto simp: min_cost_check_def res_inv dec_order not_less dest: checked_mul_dval split: if_splits)

lemma kraken_prepared_volume:
  assumes "kraken_prepare_order req pair u opts = Inr p" and "dec_ok (req_quantity req)" and "pair_ok pair"
  shows "0 < dval (kp_volume p) \<and> dval (kp_volume p) \<le> dval (req_quantity req) \<and> dec_ok (kp_volume p)"
proof -
  from assms(1) have "kraken_volume (req_quantity req) pair = Inr (kp_volume p)" "is_positive (req_quantity req)"
    by (auto simp: kraken_prepare_order_def kraken_check_request_def res_inv split: if_splits)
  with kraken_volume_val [OF this(1) assms(2) _ assms(3)] show ?thesis by simp
qed

text \<open>
  C33: an order Kraken's \<open>prepare_order\<close> accepts is never larger than the request, is positive, at
  the lot precision and not below the pair minimum; a limit price is never worse than requested
  (buys not above it, sells not below it). The pair's minimum cost is reached whenever a price is
  known, the limit price or else the reference price; a market order without a reference price has no
  price, and its cost is not checked.
\<close>

theorem kraken_prepare_order_safe:
  assumes "kraken_prepare_order req pair u opts = Inr p" and "dec_ok (req_quantity req)" and "pair_ok pair"
    and "\<forall>px. req_kind req = Limit px \<longrightarrow> dec_small px" and "\<forall>r. req_reference_price req = Some r \<longrightarrow> dec_ok r"
  shows "0 < dval (kp_volume p) \<and> dval (kp_volume p) \<le> dval (req_quantity req)
    \<and> dval (pi_order_min pair) \<le> dval (kp_volume p) \<and> dscale (kp_volume p) = pi_lot_decimals pair
    \<and> (\<forall>px. req_kind req = Limit px \<longrightarrow> (\<exists>q. kp_price p = Some q \<and> 0 < dval q
         \<and> (req_side req = Buy \<longrightarrow> dval q \<le> dval px) \<and> (req_side req = Sell \<longrightarrow> dval px \<le> dval q)))
    \<and> (\<forall>mc px. pi_cost_min pair = Some mc \<and> opt_or (kp_price p) (req_reference_price req) = Some px
         \<longrightarrow> dval mc \<le> floor_dp 18 (dval (kp_volume p) * dval px))"
proof -
  from assms(1) have pos: "is_positive (req_quantity req)"
    and v: "kraken_volume (req_quantity req) pair = Inr (kp_volume p)"
    and pr: "kraken_price req pair = Inr (kp_price p)"
    and mc: "min_cost_check (pi_canonical pair) (pi_cost_min pair) (kp_volume p) (kp_price p)
        (req_reference_price req) = Inr (kp_cost_check_skipped p)"
    by (auto simp: kraken_prepare_order_def kraken_check_request_def res_inv split: if_splits)
  note vol = kraken_volume_val [OF v assms(2) pos assms(3)]
  have lim: "\<exists>q. kp_price p = Some q \<and> 0 < dval q \<and> dec_ok q
      \<and> (req_side req = Buy \<longrightarrow> dval q \<le> dval px) \<and> (req_side req = Sell \<longrightarrow> dval px \<le> dval q)"
    if k: "req_kind req = Limit px" for px
  proof -
    from pr k obtain q where q: "kp_price p = Some q" "kraken_limit_price (req_side req) px pair = Inr q"
      by (cases "kp_price p") (auto simp: kraken_price_def res_inv)
    with kraken_limit_price_dir [OF q(2) _ assms(3)] assms(4) k show ?thesis by auto
  qed
  have pok: "dec_ok q" if "opt_or (kp_price p) (req_reference_price req) = Some q" for q
    using that lim pr assms(5)
    by (cases "req_kind req") (auto simp: kraken_price_def opt_or_def split: option.splits)
  have "dval m \<le> floor_dp 18 (dval (kp_volume p) * dval q)"
    if "pi_cost_min pair = Some m" "opt_or (kp_price p) (req_reference_price req) = Some q" for m q
    using min_cost_check_val [OF mc [unfolded that(1)] that(2)] assms(3) that vol pok by (auto simp: pair_ok_def)
  with vol lim show ?thesis by blast
qed

theorem kraken_prepare_order_safe_witness:
  "\<exists>p. kraken_prepare_order (order_limit ''t'' ''BTC/USD'' Buy (Dec 123456789012 10) (Dec 6123456 2))
      (hd builtin_pairs) 7 kraken_default_options = Inr p
    \<and> kp_volume p = Dec 1234567890 8 \<and> dval (kp_volume p) \<le> dval (Dec 123456789012 10)"
proof -
  let ?req = "order_limit ''t'' ''BTC/USD'' Buy (Dec 123456789012 10) (Dec 6123456 2)"
  let ?p = "\<lparr>kp_symbol = ''BTC/USD'', kp_broker_pair = ''XBTUSD'', kp_side = Buy,
    kp_requested_quantity = Dec 123456789012 10, kp_volume = Dec 1234567890 8, kp_volume_dp = 8,
    kp_price = Some (Dec 612345 1), kp_price_dp = 1, kp_userref = 7, kp_tif = None, kp_post_only = False,
    kp_reduce_only = False, kp_validate = False, kp_cost_check_skipped = False\<rparr>"
  have e: "kraken_prepare_order ?req (hd builtin_pairs) 7 kraken_default_options = Inr ?p" by code_simp
  have ok: "dec_ok (req_quantity ?req)" "pair_ok (hd builtin_pairs)"
    "\<forall>px. req_kind ?req = Limit px \<longrightarrow> dec_small px" "\<forall>r. req_reference_price ?req = Some r \<longrightarrow> dec_ok r"
    by (auto simp: order_limit_def order_base_def builtin_pairs_def builtin_pair_def pair_ok_def dec_ok_def
        dec_small_def dval_def in_i128_def i128_max_def i128_min_def)
  from kraken_prepare_order_safe [OF e ok] e show ?thesis by (simp add: order_limit_def order_base_def)
qed

end
