(* ===== verification/Alpaca_Order.thy ===== *)
theory Alpaca_Order
  imports Kraken_Order
begin

text \<open>
  \<open>broker-adapters/src/alpaca/assets.rs\<close> and \<open>alpaca/order.rs\<close>: the asset table read from JSON,
  the quantity rounding policy (9 decimals and the trade increment for fractionable assets, whole
  shares otherwise) and \<open>prepare_order\<close> with its symbol, tag, time-in-force, price and notional
  rules. The minimum-cost block has the same shape as Kraken's and is shared.
\<close>

section \<open>Assets\<close>

definition FRACTIONAL_DP :: nat where "FRACTIONAL_DP = 9"

datatype asset_source = AssetBuiltin | AssetApi

record asset_info =
  ai_symbol :: string
  ai_tradable :: bool
  ai_fractionable :: bool
  ai_min_order_size :: dec
  ai_min_trade_increment :: "dec option"
  ai_price_increment :: "dec option"
  ai_status :: "string option"
  ai_source :: asset_source

definition asset_opt_dec :: "json \<Rightarrow> string \<Rightarrow> broker_error + dec option" where
  "asset_opt_dec obj field =
     (case jget obj field of
        None \<Rightarrow> Inr None
      | Some JNull \<Rightarrow> Inr None
      | Some (JStr s) \<Rightarrow>
          if trim s = [] then Inr None
          else try_bind (map_err (\<lambda>_. Malformed) (parse_dec s)) (\<lambda>d. Inr (Some d))
      | Some (JNum n) \<Rightarrow> try_bind (map_err (\<lambda>_. Malformed) (parse_dec (number_to_string n))) (\<lambda>d. Inr (Some d))
      | Some _ \<Rightarrow> Inl Malformed)"

definition asset_from_json :: "json \<Rightarrow> broker_error + asset_info" where
  "asset_from_json v =
     try_bind (ok_or Malformed (opt_filter (\<lambda>s. s \<noteq> []) (Option.bind (jget v ''symbol'') as_str))) (\<lambda>sym0.
     let symbol = to_upper sym0
     in try_bind (ok_or Malformed (Option.bind (jget v ''tradable'') as_bool)) (\<lambda>tradable.
     let fractionable = (case Option.bind (jget v ''fractionable'') as_bool of Some b \<Rightarrow> b | None \<Rightarrow> False)
     in try_bind (asset_opt_dec v ''min_order_size'') (\<lambda>mos.
     let min_order_size = (case mos of Some d \<Rightarrow> d | None \<Rightarrow> dec_ZERO)
     in if is_negative min_order_size then Inl Malformed
     else try_bind (asset_opt_dec v ''min_trade_increment'') (\<lambda>mti.
     try_bind (asset_opt_dec v ''price_increment'') (\<lambda>pinc.
     Inr \<lparr>ai_symbol = symbol, ai_tradable = tradable, ai_fractionable = fractionable,
          ai_min_order_size = min_order_size, ai_min_trade_increment = opt_filter is_positive mti,
          ai_price_increment = opt_filter is_positive pinc,
          ai_status = Option.bind (jget v ''status'') as_str, ai_source = AssetApi\<rparr>)))))"

definition not_tradable_reason :: "asset_info \<Rightarrow> string option" where
  "not_tradable_reason a =
     (if \<not> ai_tradable a then Some ''tradable=false''
      else case ai_status a of
          Some s \<Rightarrow> if \<not> eq_ignore_case s ''active'' then Some (''status '' @ s) else None
        | None \<Rightarrow> None)"

definition asset_floor :: "asset_info \<Rightarrow> dec \<Rightarrow> dec_error + dec" where
  "asset_floor a qty =
     (if ai_fractionable a
      then try_bind (round_dp qty FRACTIONAL_DP Floor) (\<lambda>q.
           case ai_min_trade_increment a of
             Some st \<Rightarrow> round_to_multiple q st Floor
           | None \<Rightarrow> Inr q)
      else round_dp qty 0 Floor)"

definition asset_round_quantity :: "asset_info \<Rightarrow> dec \<Rightarrow> broker_error + dec" where
  "asset_round_quantity a qty =
     try_bind (map_err (\<lambda>_. InvalidRequest) (asset_floor a qty)) (\<lambda>r.
     let rounded = normalized r
     in if is_zero rounded then Inl (QuantityRoundsToZero (ai_symbol a) qty rounded)
        else if dec_lt rounded (ai_min_order_size a)
        then Inl (BelowMinQuantity (ai_symbol a) (ai_min_order_size a) rounded)
        else Inr rounded)"

type_synonym asset_table = "(string, asset_info) btree_map"

definition asset_upsert :: "asset_info \<Rightarrow> asset_table \<Rightarrow> asset_table" where
  "asset_upsert info t = btm_insert (to_upper (ai_symbol info)) info t"

definition builtin_asset :: "string \<Rightarrow> asset_info" where
  "builtin_asset s =
     \<lparr>ai_symbol = s, ai_tradable = True, ai_fractionable = True, ai_min_order_size = dec_ZERO,
      ai_min_trade_increment = None, ai_price_increment = None, ai_status = None,
      ai_source = AssetBuiltin\<rparr>"

definition builtin_assets :: asset_table where
  "builtin_assets =
     foldl (\<lambda>t s. asset_upsert (builtin_asset s) t) [] [''SPY'', ''EFA'', ''IEF'', ''DBC'', ''VNQ'']"

definition asset_parse_json :: "(string \<Rightarrow> json option) \<Rightarrow> string \<Rightarrow> broker_error + asset_info" where
  "asset_parse_json from_str body = try_bind (ok_or Malformed (from_str body)) asset_from_json"

definition from_assets_json :: "(string \<Rightarrow> json option) \<Rightarrow> string \<Rightarrow> broker_error + asset_table" where
  "from_assets_json from_str body =
     try_bind (ok_or Malformed (from_str body)) (\<lambda>v.
     case v of
       JArr items \<Rightarrow> try_fold (\<lambda>t it. try_bind (asset_from_json it) (\<lambda>a. Inr (asset_upsert a t))) [] items
     | JObj _ \<Rightarrow> try_bind (asset_from_json v) (\<lambda>a. Inr (asset_upsert a []))
     | _ \<Rightarrow> Inl Malformed)"

definition asset_lookup :: "asset_table \<Rightarrow> string \<Rightarrow> asset_info option" where
  "asset_lookup t symbol = map_of t (to_upper (trim symbol))"

section \<open>Order preparation\<close>

definition MAX_CLIENT_ORDER_ID_LEN :: nat where "MAX_CLIENT_ORDER_ID_LEN = 128"

record alpaca_options =
  ao_allow_extended_hours :: bool
  ao_min_notional :: dec
  ao_own_tag_prefix :: "string option"
  ao_refuse_builtin_assets :: bool
  ao_allow_crypto :: bool

record alpaca_prepared =
  ap_symbol :: string
  ap_side :: side
  ap_requested_quantity :: dec
  ap_quantity :: dec
  ap_fractional :: bool
  ap_limit_price :: "dec option"
  ap_tif :: string
  ap_extended_hours :: bool
  ap_client_order_id :: string
  ap_asset_source :: asset_source
  ap_cost_check_skipped :: bool

definition alnum_part :: "string \<Rightarrow> bool" where
  "alnum_part t \<longleftrightarrow> t \<noteq> [] \<and> list_all is_alnum t"

definition normalize_symbol :: "string \<Rightarrow> broker_error + string" where
  "normalize_symbol symbol =
     (let s = trim symbol
      in case split_once (CHR ''/'') s of
           Some (base, quot) \<Rightarrow> if alnum_part base \<and> alnum_part quot then Inl Unsupported else Inl InvalidRequest
         | None \<Rightarrow>
             let up = to_upper s
             in if up \<noteq> [] \<and> length up \<le> 15 \<and> is_alnum (hd up)
                   \<and> list_all (\<lambda>b. is_alnum b \<or> b = CHR ''.'' \<or> b = CHR ''-'') up
                then Inr up else Inl InvalidRequest)"

definition is_crypto_pair :: "string \<Rightarrow> bool" where
  "is_crypto_pair symbol \<longleftrightarrow> CHR ''/'' \<in> set (trim symbol)"

definition normalize_crypto_pair :: "string \<Rightarrow> broker_error + string" where
  "normalize_crypto_pair symbol =
     (case split_once (CHR ''/'') (to_upper (trim symbol)) of
        Some (base, quot) \<Rightarrow>
          if alnum_part base \<and> alnum_part quot \<and> CHR ''/'' \<notin> set quot
          then Inr (base @ ''/'' @ quot) else Inl InvalidRequest
      | None \<Rightarrow> Inl InvalidRequest)"

definition printable :: "char \<Rightarrow> bool" where
  "printable c \<longleftrightarrow> 32 \<le> code c \<and> code c \<le> 126"

definition validate_tag :: "string \<Rightarrow> string option \<Rightarrow> broker_error + unit" where
  "validate_tag tag prefix =
     (if tag = [] then Inl InvalidRequest
      else if length tag > MAX_CLIENT_ORDER_ID_LEN then Inl InvalidRequest
      else if \<not> list_all printable tag then Inl InvalidRequest
      else case prefix of
          Some p \<Rightarrow> if \<not> starts_with p tag then Inl InvalidRequest else Inr ()
        | None \<Rightarrow> Inr ())"

text \<open>The blocks of \<open>prepare_order\<close>.\<close>

definition alpaca_symbol :: "order_request \<Rightarrow> alpaca_options \<Rightarrow> broker_error + string" where
  "alpaca_symbol req opts =
     (if is_crypto_pair (req_symbol req)
      then if \<not> ao_allow_crypto opts then Inl Unsupported else normalize_crypto_pair (req_symbol req)
      else normalize_symbol (req_symbol req))"

definition alpaca_check_request ::
    "order_request \<Rightarrow> string \<Rightarrow> asset_info \<Rightarrow> alpaca_options \<Rightarrow> broker_error + unit" where
  "alpaca_check_request req symbol asset opts =
     (if symbol \<noteq> ai_symbol asset then Inl InvalidRequest
      else case not_tradable_reason asset of
          Some why \<Rightarrow> Inl (PairNotTradable symbol why)
        | None \<Rightarrow>
            if ao_refuse_builtin_assets opts \<and> ai_source asset = AssetBuiltin then Inl ConfigFailure
            else if req_validate_only req then Inl Unsupported
            else if req_reduce_only req then Inl Unsupported
            else if req_post_only req then Inl Unsupported
            else if \<not> is_positive (req_quantity req) then Inl InvalidRequest
            else validate_tag (req_tag req) (ao_own_tag_prefix opts))"

definition alpaca_tif :: "order_kind \<Rightarrow> time_in_force option \<Rightarrow> bool \<Rightarrow> broker_error + string" where
  "alpaca_tif kind tif crypto =
     (case (kind, tif) of
        (Market, Some _) \<Rightarrow> Inl InvalidRequest
      | (Market, None) \<Rightarrow> Inr (if crypto then ''gtc'' else ''day'')
      | (Limit _, None) \<Rightarrow> Inr (if crypto then ''gtc'' else ''day'')
      | (Limit _, Some Gtc) \<Rightarrow> Inr ''gtc''
      | (Limit _, Some Ioc) \<Rightarrow> Inr ''ioc'')"

definition alpaca_limit_price :: "side \<Rightarrow> dec \<Rightarrow> asset_info \<Rightarrow> broker_error + dec" where
  "alpaca_limit_price side price asset =
     (if \<not> is_positive price then Inl InvalidPrice
      else try_bind (case ai_price_increment asset of
          Some i \<Rightarrow> Inr i
        | None \<Rightarrow> map_err (\<lambda>_. InvalidRequest)
                   (if dec_le (from_i64 1) price then dec_new 1 2 else dec_new 1 4)) (\<lambda>increment.
      try_bind (map_err (\<lambda>_. InvalidPrice) (round_to_multiple price increment (price_mode side))) (\<lambda>r.
      let p = normalized r
      in if \<not> is_positive p then Inl InvalidPrice else Inr p)))"

definition alpaca_price :: "order_request \<Rightarrow> asset_info \<Rightarrow> broker_error + dec option" where
  "alpaca_price req asset =
     (case req_kind req of
        Market \<Rightarrow> Inr None
      | Limit price \<Rightarrow> try_bind (alpaca_limit_price (req_side req) price asset) (\<lambda>p. Inr (Some p)))"

definition alpaca_prepare_order ::
    "order_request \<Rightarrow> asset_info \<Rightarrow> alpaca_options \<Rightarrow> broker_error + alpaca_prepared" where
  "alpaca_prepare_order req asset opts =
     (let crypto = is_crypto_pair (req_symbol req)
      in try_bind (alpaca_symbol req opts) (\<lambda>symbol.
      try_bind (alpaca_check_request req symbol asset opts) (\<lambda>_.
      try_bind (asset_round_quantity asset (req_quantity req)) (\<lambda>quantity.
      try_bind (map_err (\<lambda>_. InvalidRequest) (round_dp quantity 0 Floor)) (\<lambda>whole.
      let fractional = (\<not> dec_eq quantity whole)
      in try_bind (alpaca_tif (req_kind req) (req_tif req) crypto) (\<lambda>tif.
      if fractional \<and> \<not> crypto \<and> tif \<noteq> ''day'' then Inl InvalidRequest
      else try_bind (alpaca_price req asset) (\<lambda>limit_price.
      try_bind (min_cost_check symbol
          (if is_positive (ao_min_notional opts) then Some (ao_min_notional opts) else None)
          quantity limit_price (req_reference_price req)) (\<lambda>skipped.
      Inr \<lparr>ap_symbol = symbol, ap_side = req_side req, ap_requested_quantity = req_quantity req,
           ap_quantity = quantity, ap_fractional = fractional, ap_limit_price = limit_price,
           ap_tif = tif,
           ap_extended_hours = (ao_allow_extended_hours opts \<and> is_limit (req_kind req) \<and> tif = ''day''),
           ap_client_order_id = req_tag req, ap_asset_source = ai_source asset,
           ap_cost_check_skipped = skipped\<rparr>))))))))"

definition alpaca_is_market :: "alpaca_prepared \<Rightarrow> bool" where
  "alpaca_is_market p \<longleftrightarrow> ap_limit_price p = None"

definition json_object :: "(string \<times> json) list \<Rightarrow> json" where
  "json_object kvs = JObj (foldl (\<lambda>m (k, v). btm_insert k v m) [] kvs)"

definition alpaca_to_json :: "alpaca_prepared \<Rightarrow> json" where
  "alpaca_to_json p =
     json_object
       ([(''symbol'', JStr (ap_symbol p)),
         (''qty'', JStr (dec_to_string (normalized (ap_quantity p)))),
         (''side'', JStr (side_as_str (ap_side p))),
         (''type'', JStr (if alpaca_is_market p then ''market'' else ''limit'')),
         (''time_in_force'', JStr (ap_tif p)),
         (''client_order_id'', JStr (ap_client_order_id p))]
        @ (case ap_limit_price p of
             Some px \<Rightarrow> [(''limit_price'', JStr (dec_to_string (normalized px)))]
           | None \<Rightarrow> [])
        @ (if ap_extended_hours p then [(''extended_hours'', JBool True)] else []))"

definition alpaca_sent :: "alpaca_prepared \<Rightarrow> sent_order" where
  "alpaca_sent p =
     \<lparr>sent_broker_pair = ap_symbol p, sent_side = ap_side p, sent_quantity = ap_quantity p,
      sent_price = ap_limit_price p, sent_userref = 0, sent_validate_only = False\<rparr>"

section \<open>What a prepared order satisfies\<close>

definition asset_ok :: "asset_info \<Rightarrow> bool" where
  "asset_ok a \<longleftrightarrow> dec_ok (ai_min_order_size a) \<and> 0 \<le> dunits (ai_min_order_size a)
     \<and> (\<forall>d. ai_min_trade_increment a = Some d \<longrightarrow> dec_ok d)
     \<and> (\<forall>d. ai_price_increment a = Some d \<longrightarrow> dec_ok d)"

lemma asset_opt_dec_ok: "asset_opt_dec v f = Inr (Some d) \<Longrightarrow> dec_ok d"
  by (auto simp: asset_opt_dec_def res_inv intro: parse_dec_ok split: option.splits json.splits if_splits)

text \<open>Every row read from JSON is well formed.\<close>

lemma asset_from_json_ok: "asset_from_json v = Inr a \<Longrightarrow> asset_ok a"
  by (auto simp: asset_from_json_def asset_ok_def Let_def res_inv is_negative_def
      dest: asset_opt_dec_ok split: if_splits option.splits)

lemma asset_floor_le:
  assumes r: "asset_floor a q = Inr r" and q: "dec_ok q" "0 \<le> dunits q" and a: "asset_ok a"
  shows "dval r \<le> dval q \<and> dec_ok r"
proof (cases "ai_fractionable a")
  case False
  then show ?thesis using r round_dp_floor_le [OF _ q] round_dp_ok [OF _ q(1)] by (auto simp: asset_floor_def)
next
  case True
  with r obtain q1 where q1: "round_dp q FRACTIONAL_DP Floor = Inr q1"
    and t: "(case ai_min_trade_increment a of Some st \<Rightarrow> round_to_multiple q1 st Floor | None \<Rightarrow> Inr q1) = Inr r"
    by (auto simp: asset_floor_def res_inv)
  have l1: "dval q1 \<le> dval q" "dec_ok q1" using round_dp_floor_le [OF q1 q] round_dp_ok [OF q1 q(1)] by auto
  show ?thesis
  proof (cases "ai_min_trade_increment a")
    case None
    with t l1 show ?thesis by simp
  next
    case (Some st)
    with a t have st: "dec_ok st" "round_to_multiple q1 st Floor = Inr r" by (auto simp: asset_ok_def)
    with l1 round_to_multiple_dir(1) [OF l1(2) st(1) st(2)] round_to_multiple_ok [OF st(2) l1(2) st(1)]
    show ?thesis by auto
  qed
qed

lemma asset_round_quantity_val:
  assumes r: "asset_round_quantity a q = Inr r" and q: "dec_ok q" "is_positive q" and a: "asset_ok a"
  shows "0 < dval r \<and> dval r \<le> dval q \<and> dval (ai_min_order_size a) \<le> dval r \<and> dec_ok r"
proof -
  from r obtain f where f: "asset_floor a q = Inr f" and n: "r = normalized f" "\<not> is_zero r"
    "\<not> dec_lt r (ai_min_order_size a)"
    by (auto simp: asset_round_quantity_def Let_def res_inv split: if_splits)
  from asset_floor_le [OF f q(1) _ a] q(2) have l: "dval f \<le> dval q" "dec_ok f" by (auto simp: is_positive_def)
  then have ok: "dec_ok r" by (simp add: n(1) dec_ok_normalized)
  have "0 \<le> dval (ai_min_order_size a)" using a by (simp add: asset_ok_def dval_nonneg_iff)
  moreover have "dval (ai_min_order_size a) \<le> dval r" using n(3) ok a by (simp add: dec_order asset_ok_def not_less)
  moreover have "dval r \<noteq> 0" using n(2) by (simp add: dval_sign)
  ultimately show ?thesis using ok l by (simp add: n(1))
qed

lemma alpaca_limit_price_dir:
  assumes "alpaca_limit_price sd px a = Inr p" and px: "dec_ok px" and a: "asset_ok a"
  shows "0 < dval p \<and> dec_ok p \<and> (sd = Buy \<longrightarrow> dval p \<le> dval px) \<and> (sd = Sell \<longrightarrow> dval px \<le> dval p)"
proof -
  from assms(1) obtain i r where i: "ai_price_increment a = Some i \<or> i = Dec 1 2 \<or> i = Dec 1 4"
    and r: "round_to_multiple px i (price_mode sd) = Inr r" and p: "p = normalized r" "is_positive p"
    by (auto simp: alpaca_limit_price_def res_inv Let_def dec_new_def MAX_SCALE_def split: if_splits option.splits)
  from i a have ok: "dec_ok i" by (auto simp: asset_ok_def dec_ok_def)
  have "0 < dval p" using p(2) by (simp add: dval_sign)
  then show ?thesis
    using r round_to_multiple_dir [OF px ok, of r] round_to_multiple_ok [OF r px ok]
    by (auto simp: price_mode_def p(1) dec_ok_normalized)
qed

lemma alpaca_prepare_inv:
  assumes "alpaca_prepare_order req a opts = Inr p"
  shows "is_positive (req_quantity req)" "validate_tag (req_tag req) (ao_own_tag_prefix opts) = Inr ()"
    and "asset_round_quantity a (req_quantity req) = Inr (ap_quantity p)"
    and "alpaca_price req a = Inr (ap_limit_price p)"
    and "min_cost_check (ap_symbol p) (if is_positive (ao_min_notional opts) then Some (ao_min_notional opts) else None)
        (ap_quantity p) (ap_limit_price p) (req_reference_price req) = Inr (ap_cost_check_skipped p)"
    and "ap_client_order_id p = req_tag req" and "ap_symbol p = ai_symbol a" and "not_tradable_reason a = None"
    and "ap_fractional p \<and> \<not> is_crypto_pair (req_symbol req) \<longrightarrow> ap_tif p = ''day''"
    and "ap_fractional p \<longleftrightarrow> (\<exists>w. round_dp (ap_quantity p) 0 Floor = Inr w \<and> \<not> dec_eq (ap_quantity p) w)"
  using assms
  by (auto simp: alpaca_prepare_order_def alpaca_check_request_def Let_def res_inv split: if_splits option.splits)

lemma alpaca_prepared_quantity:
  assumes "alpaca_prepare_order req a opts = Inr p" and "dec_ok (req_quantity req)" and "asset_ok a"
  shows "0 < dval (ap_quantity p) \<and> dval (ap_quantity p) \<le> dval (req_quantity req) \<and> dec_ok (ap_quantity p)"
  using asset_round_quantity_val [OF alpaca_prepare_inv(3) assms(2) alpaca_prepare_inv(1) assms(3)] assms(1) by auto

text \<open>
  C34: an order Alpaca's \<open>prepare_order\<close> accepts is positive, never larger than the request and not
  below the asset's minimum; its client order id is the caller's tag, unchanged, printable and at
  most 128 characters; a fractional equity order is a day order; a limit price is never worse than
  requested; and when a price is known the notional reaches the configured minimum.
\<close>

theorem alpaca_prepare_order_safe:
  assumes "alpaca_prepare_order req a opts = Inr p" and "dec_ok (req_quantity req)" and "asset_ok a"
    and "\<forall>px. req_kind req = Limit px \<longrightarrow> dec_ok px" and "\<forall>r. req_reference_price req = Some r \<longrightarrow> dec_ok r"
    and "dec_ok (ao_min_notional opts)"
  shows "0 < dval (ap_quantity p) \<and> dval (ap_quantity p) \<le> dval (req_quantity req)
    \<and> dval (ai_min_order_size a) \<le> dval (ap_quantity p)
    \<and> ap_client_order_id p = req_tag req \<and> length (req_tag req) \<le> 128 \<and> list_all printable (req_tag req)
    \<and> (ap_fractional p \<and> \<not> is_crypto_pair (req_symbol req) \<longrightarrow> ap_tif p = ''day'')
    \<and> (\<forall>px. req_kind req = Limit px \<longrightarrow> (\<exists>q. ap_limit_price p = Some q \<and> 0 < dval q
         \<and> (req_side req = Buy \<longrightarrow> dval q \<le> dval px) \<and> (req_side req = Sell \<longrightarrow> dval px \<le> dval q)))
    \<and> (\<forall>px. 0 < dval (ao_min_notional opts) \<and> opt_or (ap_limit_price p) (req_reference_price req) = Some px
         \<longrightarrow> dval (ao_min_notional opts) \<le> floor_dp 18 (dval (ap_quantity p) * dval px))"
proof -
  note inv = alpaca_prepare_inv [OF assms(1)]
  note q = asset_round_quantity_val [OF inv(3) assms(2) inv(1) assms(3)]
  have lim: "\<exists>q. ap_limit_price p = Some q \<and> 0 < dval q \<and> dec_ok q
      \<and> (req_side req = Buy \<longrightarrow> dval q \<le> dval px) \<and> (req_side req = Sell \<longrightarrow> dval px \<le> dval q)"
    if k: "req_kind req = Limit px" for px
  proof -
    from inv(4) k obtain q where q: "ap_limit_price p = Some q" "alpaca_limit_price (req_side req) px a = Inr q"
      by (cases "ap_limit_price p") (auto simp: alpaca_price_def res_inv)
    with alpaca_limit_price_dir [OF q(2) _ assms(3)] assms(4) k show ?thesis by auto
  qed
  have pok: "dec_ok r" if "opt_or (ap_limit_price p) (req_reference_price req) = Some r" for r
    using that lim inv(4) assms(5)
    by (cases "req_kind req") (auto simp: alpaca_price_def opt_or_def split: option.splits)
  have cost: "dval (ao_min_notional opts) \<le> floor_dp 18 (dval (ap_quantity p) * dval px)"
    if "0 < dval (ao_min_notional opts)" "opt_or (ap_limit_price p) (req_reference_price req) = Some px" for px
    using min_cost_check_val [OF _ that(2) assms(6)] inv(5) that pok q by (simp add: dval_sign)
  have tag: "length (req_tag req) \<le> 128 \<and> list_all printable (req_tag req)"
    using inv(2) by (auto simp: validate_tag_def MAX_CLIENT_ORDER_ID_LEN_def split: if_splits)
  from q lim cost tag inv(6,9) show ?thesis by blast
qed

theorem alpaca_prepare_order_safe_witness:
  "\<exists>p. alpaca_prepare_order (order_limit ''rb1:x'' ''spy'' Sell (Dec 15 1) (Dec 5001234 4)) (builtin_asset ''SPY'')
      \<lparr>ao_allow_extended_hours = False, ao_min_notional = Dec 1 0, ao_own_tag_prefix = Some ''rb1:'',
       ao_refuse_builtin_assets = False, ao_allow_crypto = False\<rparr> = Inr p
    \<and> ap_limit_price p = Some (Dec 50013 2) \<and> dval (ap_quantity p) \<le> dval (Dec 15 1)"
proof -
  let ?req = "order_limit ''rb1:x'' ''spy'' Sell (Dec 15 1) (Dec 5001234 4)"
  let ?o = "\<lparr>ao_allow_extended_hours = False, ao_min_notional = Dec 1 0, ao_own_tag_prefix = Some ''rb1:'',
       ao_refuse_builtin_assets = False, ao_allow_crypto = False\<rparr>"
  let ?p = "\<lparr>ap_symbol = ''SPY'', ap_side = Sell, ap_requested_quantity = Dec 15 1, ap_quantity = Dec 15 1,
    ap_fractional = True, ap_limit_price = Some (Dec 50013 2), ap_tif = ''day'', ap_extended_hours = False,
    ap_client_order_id = ''rb1:x'', ap_asset_source = AssetBuiltin, ap_cost_check_skipped = False\<rparr>"
  have e: "alpaca_prepare_order ?req (builtin_asset ''SPY'') ?o = Inr ?p" by code_simp
  have ok: "dec_ok (req_quantity ?req)" "asset_ok (builtin_asset ''SPY'')"
    "\<forall>px. req_kind ?req = Limit px \<longrightarrow> dec_ok px" "\<forall>r. req_reference_price ?req = Some r \<longrightarrow> dec_ok r"
    "dec_ok (ao_min_notional ?o)"
    by (auto simp: order_limit_def order_base_def builtin_asset_def asset_ok_def dec_ok_def dec_ZERO_def
        in_i128_def i128_max_def i128_min_def)
  from alpaca_prepare_order_safe [OF e ok] e show ?thesis by (simp add: order_limit_def order_base_def)
qed

end
