(* ===== verification/Oanda_Order.thy ===== *)
theory Oanda_Order
  imports Alpaca_Order
begin

text \<open>
  \<open>broker-adapters/src/oanda/instrument.rs\<close>, \<open>oanda/order.rs\<close> and the scalar readers of
  \<open>oanda/parse.rs\<close>: instrument names and their one normal form, the instrument table read from
  JSON, order preparation with signed units, and the position cap.
\<close>

section \<open>Readers\<close>

definition dec_from_value :: "json \<Rightarrow> broker_error + dec" where
  "dec_from_value v =
     (case v of
        JStr s \<Rightarrow> map_err (\<lambda>_. Malformed) (parse_dec s)
      | JNum n \<Rightarrow> map_err (\<lambda>_. Malformed) (parse_dec (number_to_string n))
      | _ \<Rightarrow> Inl Malformed)"

definition opt_dec :: "json \<Rightarrow> string \<Rightarrow> broker_error + dec option" where
  "opt_dec obj field =
     (case jget obj field of
        None \<Rightarrow> Inr None
      | Some v \<Rightarrow> if v = JNull then Inr None else try_bind (dec_from_value v) (\<lambda>d. Inr (Some d)))"

definition req_dec :: "json \<Rightarrow> string \<Rightarrow> broker_error + dec" where
  "req_dec obj field = try_bind (opt_dec obj field) (\<lambda>m. ok_or Malformed m)"

definition req_bool :: "json \<Rightarrow> string \<Rightarrow> broker_error + bool" where
  "req_bool obj field = ok_or Malformed (Option.bind (jget obj field) as_bool)"

definition req_str :: "json \<Rightarrow> string \<Rightarrow> broker_error + string" where
  "req_str obj field = ok_or Malformed (opt_filter (\<lambda>s. s \<noteq> []) (Option.bind (jget obj field) as_str))"

definition opt_str :: "json \<Rightarrow> string \<Rightarrow> string option" where
  "opt_str obj field = opt_filter (\<lambda>s. s \<noteq> []) (Option.bind (jget obj field) as_str)"

definition opt_u32 :: "json \<Rightarrow> string \<Rightarrow> nat option" where
  "opt_u32 obj field = opt_filter (\<lambda>n. n < 2 ^ 32) (Option.bind (jget obj field) as_u64)"

section \<open>Instrument names\<close>

definition is_sep :: "char \<Rightarrow> bool" where
  "is_sep c \<longleftrightarrow> c = CHR ''_'' \<or> c = CHR ''/'' \<or> c = CHR ''-''"

definition base_ok :: "string \<Rightarrow> bool" where
  "base_ok b \<longleftrightarrow> 2 \<le> length b \<and> length b \<le> 8 \<and> is_upper (hd b) \<and> list_all (\<lambda>c. is_upper c \<or> is_digit c) b"

definition quote_ok :: "string \<Rightarrow> bool" where
  "quote_ok q \<longleftrightarrow> length q = 3 \<and> list_all is_upper q"

definition normalize_instrument :: "string \<Rightarrow> broker_error + string" where
  "normalize_instrument input =
     (let s = to_upper (trim input)
      in if s = [] \<or> \<not> list_all (\<lambda>c. code c < 128) s then Inl UnknownSymbol
      else try_bind
        (case filter is_sep s of
           [] \<Rightarrow> if length s = 6 \<and> list_all is_upper s then Inr (take 3 s, drop 3 s) else Inl UnknownSymbol
         | [_] \<Rightarrow> Inr (takeWhile (\<lambda>c. \<not> is_sep c) s, tl (dropWhile (\<lambda>c. \<not> is_sep c) s))
         | _ \<Rightarrow> Inl UnknownSymbol) (\<lambda>(base, quot).
      if \<not> (base_ok base \<and> quote_ok quot) then Inl UnknownSymbol
      else Inr (base @ ''_'' @ quot)))"

fun replace_first :: "char \<Rightarrow> char \<Rightarrow> string \<Rightarrow> string" where
  "replace_first a b [] = []"
| "replace_first a b (c # cs) = (if c = a then b # cs else c # replace_first a b cs)"

definition canonical_symbol :: "string \<Rightarrow> broker_error + string" where
  "canonical_symbol input =
     try_bind (normalize_instrument input) (\<lambda>n. Inr (replace_first (CHR ''_'') (CHR ''/'') n))"

definition quote_currency :: "string \<Rightarrow> string option" where
  "quote_currency instrument = map_option snd (split_once (CHR ''_'') instrument)"

section \<open>The instrument table\<close>

record instrument_info =
  ii_name :: string
  ii_kind :: string
  ii_display_precision :: nat
  ii_trade_units_precision :: nat
  ii_minimum_trade_size :: dec
  ii_maximum_order_units :: dec
  ii_margin_rate :: dec
  ii_maximum_position_size :: "dec option"

definition instrument_precision :: "json \<Rightarrow> string \<Rightarrow> broker_error + nat" where
  "instrument_precision v field =
     try_bind (ok_or Malformed (Option.bind (jget v field) as_u64)) (\<lambda>n.
     if n < 2 ^ 32 \<and> n \<le> 12 then Inr n else Inl Malformed)"

definition parse_position_cap :: "json \<Rightarrow> broker_error + dec option" where
  "parse_position_cap v =
     try_bind (opt_dec v ''maximumPositionSize'') (\<lambda>m.
     case m of
       None \<Rightarrow> Inr None
     | Some d \<Rightarrow> if is_zero d then Inr None else if is_positive d then Inr (Some d) else Inl Malformed)"

definition instrument_parse_value :: "json \<Rightarrow> broker_error + instrument_info" where
  "instrument_parse_value v =
     try_bind (req_str v ''name'') (\<lambda>raw.
     try_bind (normalize_instrument raw) (\<lambda>name.
     try_bind (instrument_precision v ''displayPrecision'') (\<lambda>dp.
     try_bind (instrument_precision v ''tradeUnitsPrecision'') (\<lambda>up.
     try_bind (req_dec v ''minimumTradeSize'') (\<lambda>mts.
     try_bind (req_dec v ''maximumOrderUnits'') (\<lambda>mou.
     try_bind (req_dec v ''marginRate'') (\<lambda>mr.
     try_bind (parse_position_cap v) (\<lambda>cap.
     let info = \<lparr>ii_name = name, ii_kind = (case opt_str v ''type'' of Some k \<Rightarrow> k | None \<Rightarrow> []),
         ii_display_precision = dp, ii_trade_units_precision = up, ii_minimum_trade_size = mts,
         ii_maximum_order_units = mou, ii_margin_rate = mr, ii_maximum_position_size = cap\<rparr>
     in if \<not> is_positive mts then Inl Malformed
        else if \<not> is_positive mou then Inl Malformed
        else Inr info))))))))"

type_synonym instrument_table = "(string, instrument_info) btree_map"

definition instrument_upsert :: "instrument_info \<Rightarrow> instrument_table \<Rightarrow> instrument_table" where
  "instrument_upsert info t = btm_insert (ii_name info) info t"

definition instruments_from_rows :: "instrument_info list \<Rightarrow> instrument_table" where
  "instruments_from_rows rows = foldl (\<lambda>t r. instrument_upsert r t) [] rows"

definition from_instruments_json :: "(string \<Rightarrow> json option) \<Rightarrow> string \<Rightarrow> broker_error + instrument_table" where
  "from_instruments_json from_str body =
     try_bind (ok_or Malformed (from_str body)) (\<lambda>v.
     try_bind (ok_or Malformed (Option.bind (jget v ''instruments'') as_array)) (\<lambda>arr.
     try_fold (\<lambda>t row. try_bind (instrument_parse_value row) (\<lambda>i. Inr (instrument_upsert i t))) [] arr))"

definition instrument_lookup :: "instrument_table \<Rightarrow> string \<Rightarrow> instrument_info option" where
  "instrument_lookup t name =
     (case normalize_instrument name of Inl _ \<Rightarrow> None | Inr n \<Rightarrow> map_of t n)"

section \<open>Order preparation\<close>

record oanda_options =
  oo_own_tag_prefix :: "string option"
  oo_client_tag :: string

definition oanda_default_options :: oanda_options where
  "oanda_default_options = \<lparr>oo_own_tag_prefix = None, oo_client_tag = ''mendl-rb''\<rparr>"

record oanda_prepared =
  op_instrument :: string
  op_side :: side
  op_requested_quantity :: dec
  op_quantity :: dec
  op_units :: dec
  op_limit_price :: "dec option"
  op_tif :: string
  op_position_fill :: string
  op_client_id :: string
  op_client_tag :: string

text \<open>\<open>validate_client_id\<close>: the same four checks as Alpaca's \<open>validate_tag\<close>, same length limit.\<close>

definition MAX_CLIENT_ID_LEN :: nat where "MAX_CLIENT_ID_LEN = 128"

definition validate_client_id :: "string \<Rightarrow> string option \<Rightarrow> broker_error + unit" where
  "validate_client_id tag prefix =
     (if tag = [] then Inl InvalidRequest
      else if length tag > MAX_CLIENT_ID_LEN then Inl InvalidRequest
      else if \<not> list_all printable tag then Inl InvalidRequest
      else case prefix of
          Some p \<Rightarrow> if \<not> starts_with p tag then Inl InvalidRequest else Inr ()
        | None \<Rightarrow> Inr ())"

definition oanda_check_request ::
    "order_request \<Rightarrow> string \<Rightarrow> instrument_info \<Rightarrow> oanda_options \<Rightarrow> broker_error + unit" where
  "oanda_check_request req instrument info opts =
     (if instrument \<noteq> ii_name info then Inl InvalidRequest
      else if req_validate_only req then Inl Unsupported
      else if req_post_only req then Inl Unsupported
      else if \<not> is_positive (req_quantity req) then Inl InvalidRequest
      else validate_client_id (req_tag req) (oo_own_tag_prefix opts))"

definition oanda_quantity :: "string \<Rightarrow> dec \<Rightarrow> instrument_info \<Rightarrow> broker_error + dec" where
  "oanda_quantity symbol wanted info =
     try_bind (map_err (\<lambda>_. InvalidRequest) (round_dp wanted (ii_trade_units_precision info) Floor)) (\<lambda>q.
     if is_zero q then Inl (QuantityRoundsToZero symbol wanted q)
     else if dec_lt q (ii_minimum_trade_size info)
     then Inl (BelowMinQuantity symbol (ii_minimum_trade_size info) q)
     else if dec_lt (ii_maximum_order_units info) q then Inl InvalidRequest
     else Inr q)"

definition oanda_units :: "side \<Rightarrow> dec \<Rightarrow> broker_error + dec" where
  "oanda_units side q =
     (case side of
        Buy \<Rightarrow> Inr q
      | Sell \<Rightarrow> map_err (\<lambda>_. InvalidRequest) (dec_new (wrap_i128 (- dunits q)) (dscale q)))"

definition oanda_tif :: "order_kind \<Rightarrow> time_in_force option \<Rightarrow> broker_error + string" where
  "oanda_tif kind tif =
     (case (kind, tif) of
        (Market, None) \<Rightarrow> Inr ''FOK''
      | (Market, Some Ioc) \<Rightarrow> Inr ''IOC''
      | (Market, Some Gtc) \<Rightarrow> Inl InvalidRequest
      | (Limit _, None) \<Rightarrow> Inr ''GTC''
      | (Limit _, Some Gtc) \<Rightarrow> Inr ''GTC''
      | (Limit _, Some Ioc) \<Rightarrow> Inr ''IOC'')"

definition oanda_price :: "order_request \<Rightarrow> instrument_info \<Rightarrow> broker_error + dec option" where
  "oanda_price req info =
     (case req_kind req of
        Market \<Rightarrow> Inr None
      | Limit price \<Rightarrow>
          if \<not> is_positive price then Inl InvalidPrice
          else try_bind (map_err (\<lambda>_. InvalidPrice)
                 (round_dp price (ii_display_precision info) (price_mode (req_side req)))) (\<lambda>p.
               if \<not> is_positive p then Inl InvalidPrice else Inr (Some p)))"

definition oanda_prepare_order ::
    "order_request \<Rightarrow> instrument_info \<Rightarrow> oanda_options \<Rightarrow> broker_error + oanda_prepared" where
  "oanda_prepare_order req info opts =
     try_bind (normalize_instrument (req_symbol req)) (\<lambda>instrument.
     try_bind (oanda_check_request req instrument info opts) (\<lambda>_.
     try_bind (canonical_symbol instrument) (\<lambda>symbol.
     try_bind (oanda_quantity symbol (req_quantity req) info) (\<lambda>quantity.
     try_bind (oanda_units (req_side req) quantity) (\<lambda>units.
     try_bind (oanda_tif (req_kind req) (req_tif req)) (\<lambda>tif.
     try_bind (oanda_price req info) (\<lambda>limit_price.
     Inr \<lparr>op_instrument = instrument, op_side = req_side req, op_requested_quantity = req_quantity req,
          op_quantity = quantity, op_units = units, op_limit_price = limit_price, op_tif = tif,
          op_position_fill = (if req_reduce_only req then ''REDUCE_ONLY'' else ''DEFAULT''),
          op_client_id = req_tag req, op_client_tag = oo_client_tag opts\<rparr>)))))))"

definition oanda_abs :: "dec \<Rightarrow> dec" where
  "oanda_abs d =
     (if is_negative d
      then (case dec_new (wrap_i128 (- dunits d)) (dscale d) of Inr a \<Rightarrow> a | Inl _ \<Rightarrow> d)
      else d)"

definition check_position_cap :: "instrument_info \<Rightarrow> dec \<Rightarrow> dec \<Rightarrow> broker_error + unit" where
  "check_position_cap info net_units order_units =
     (case ii_maximum_position_size info of
        None \<Rightarrow> Inr ()
      | Some cap \<Rightarrow>
          try_bind (ok_or InvalidRequest (checked_add net_units order_units)) (\<lambda>after.
          let abs_after = oanda_abs after; abs_now = oanda_abs net_units;
              shrinks_same_side = (dec_le abs_after abs_now
                \<and> (is_zero after \<or> is_zero net_units \<or> is_negative after = is_negative net_units))
          in if dec_lt cap abs_after \<and> \<not> shrinks_same_side then Inl InvalidRequest else Inr ()))"

definition oanda_is_market :: "oanda_prepared \<Rightarrow> bool" where
  "oanda_is_market p \<longleftrightarrow> op_limit_price p = None"

definition oanda_to_json :: "oanda_prepared \<Rightarrow> json" where
  "oanda_to_json p =
     json_object [(''order'', json_object
       ([(''type'', JStr (if oanda_is_market p then ''MARKET'' else ''LIMIT'')),
         (''instrument'', JStr (op_instrument p)),
         (''units'', JStr (dec_to_string (normalized (op_units p)))),
         (''timeInForce'', JStr (op_tif p)),
         (''positionFill'', JStr (op_position_fill p)),
         (''clientExtensions'', json_object [(''id'', JStr (op_client_id p)), (''tag'', JStr (op_client_tag p))])]
        @ (case op_limit_price p of Some px \<Rightarrow> [(''price'', JStr (dec_to_string px))] | None \<Rightarrow> [])))]"

definition oanda_sent :: "oanda_prepared \<Rightarrow> sent_order" where
  "oanda_sent p =
     \<lparr>sent_broker_pair = op_instrument p, sent_side = op_side p, sent_quantity = op_quantity p,
      sent_price = op_limit_price p, sent_userref = 0, sent_validate_only = False\<rparr>"

section \<open>Names have one normal form\<close>

lemma upper_char_id: "is_upper c \<or> is_digit c \<or> is_sep c \<Longrightarrow> upper_char c = c"
  by (auto simp: is_upper_def is_digit_def is_sep_def upper_char_def code_def)

lemma name_char:
  assumes "is_upper c \<or> is_digit c"
  shows "\<not> is_space c" "\<not> is_sep c" "code c < 128"
  using assms by (auto simp: is_upper_def is_digit_def is_sep_def is_space_def code_def)

lemma sep_char: "is_sep c \<Longrightarrow> \<not> is_space c \<and> code c < 128"
  by (auto simp: is_sep_def is_space_def code_def)

lemma normalize_pair:
  assumes b: "base_ok b" and q: "quote_ok q" and c: "is_sep c"
  shows "normalize_instrument (b @ c # q) = Inr (b @ ''_'' @ q)"
proof -
  let ?s = "b @ c # q"
  have ch: "is_upper x \<or> is_digit x" if "x \<in> set b \<or> x \<in> set q" for x
    using that b q by (auto simp: base_ok_def quote_ok_def list_all_iff)
  have all: "\<not> is_space x \<and> code x < 128 \<and> upper_char x = x" if "x \<in> set ?s" for x
    using that ch name_char [of x] upper_char_id [of x] sep_char [of x] c by auto
  have tr: "trim ?s = ?s" using all by (intro trim_id) blast
  have up: "to_upper ?s = ?s" using all unfolding to_upper_def by (intro map_idI) blast
  have nb: "\<not> is_sep x" if "x \<in> set b \<or> x \<in> set q" for x using ch [OF that] name_char(2) by blast
  have f: "filter is_sep ?s = [c]" using nb c by (simp add: filter_empty_conv)
  have tw: "takeWhile (\<lambda>x. \<not> is_sep x) ?s = b" "dropWhile (\<lambda>x. \<not> is_sep x) ?s = c # q"
    using nb c by (simp_all add: takeWhile_append2 dropWhile_append2)
  have "list_all (\<lambda>x. code x < 128) ?s" using all by (auto simp: list_all_iff)
  then show ?thesis using b q
    unfolding normalize_instrument_def Let_def tr up f tw by simp
qed

lemma normalize_inv: "normalize_instrument s = Inr n \<Longrightarrow> \<exists>b q. n = b @ ''_'' @ q \<and> base_ok b \<and> quote_ok q"
  by (auto simp: normalize_instrument_def Let_def res_inv split: if_splits)

lemma replace_first_append: "a \<notin> set xs \<Longrightarrow> replace_first a b (xs @ a # ys) = xs @ b # ys"
  by (induction xs) auto

lemma base_no_underscore: "base_ok b \<Longrightarrow> CHR ''_'' \<notin> set b"
  using name_char(2) [of "CHR ''_''"] by (auto simp: base_ok_def list_all_iff is_sep_def)

text \<open>
  OANDA names have one normal form: normalising a normal form changes nothing, and the
  platform spelling \<open>BASE/QUOTE\<close> of any accepted name normalises to the same instrument, so a table
  lookup by either spelling finds the same row.
\<close>

theorem oanda_normal_form:
  assumes "normalize_instrument s = Inr n"
  shows "normalize_instrument n = Inr n \<and>
    (\<exists>c. canonical_symbol s = Inr c \<and> normalize_instrument c = Inr n
       \<and> instrument_lookup t c = instrument_lookup t s)"
proof -
  from normalize_inv [OF assms] obtain b q where n: "n = b @ ''_'' @ q" "base_ok b" "quote_ok q" by blast
  have nn: "normalize_instrument n = Inr n" using normalize_pair [OF n(2,3)] n(1) by (simp add: is_sep_def)
  have c: "canonical_symbol s = Inr (b @ ''/'' @ q)"
    using assms n(1) base_no_underscore [OF n(2)] by (simp add: canonical_symbol_def replace_first_append)
  have "normalize_instrument (b @ ''/'' @ q) = Inr n"
    using normalize_pair [OF n(2,3), of "CHR ''/''"] n(1) by (simp add: is_sep_def)
  with nn c assms show ?thesis by (auto simp: instrument_lookup_def)
qed

theorem oanda_normal_form_witness:
  "normalize_instrument '' eurusd '' = Inr ''EUR_USD'' \<and> canonical_symbol '' eurusd '' = Inr ''EUR/USD''
   \<and> normalize_instrument ''EUR/USD'' = Inr ''EUR_USD''"
proof -
  have n: "normalize_instrument '' eurusd '' = Inr ''EUR_USD''" by code_simp
  have c: "canonical_symbol '' eurusd '' = Inr ''EUR/USD''" by code_simp
  from oanda_normal_form [OF n, of "[]"] n c show ?thesis by auto
qed

section \<open>What a prepared order satisfies\<close>

definition instrument_ok :: "instrument_info \<Rightarrow> bool" where
  "instrument_ok i \<longleftrightarrow> dec_ok (ii_minimum_trade_size i) \<and> is_positive (ii_minimum_trade_size i)
     \<and> dec_ok (ii_maximum_order_units i) \<and> (\<forall>c. ii_maximum_position_size i = Some c \<longrightarrow> dec_ok c \<and> is_positive c)"

lemma dec_from_value_ok: "dec_from_value v = Inr d \<Longrightarrow> dec_ok d"
  by (auto simp: dec_from_value_def res_inv intro: parse_dec_ok split: json.splits)

lemma opt_dec_ok: "opt_dec v f = Inr (Some d) \<Longrightarrow> dec_ok d"
  by (auto simp: opt_dec_def res_inv intro: dec_from_value_ok split: option.splits if_splits)

lemma req_dec_ok: "req_dec v f = Inr d \<Longrightarrow> dec_ok d"
  by (auto simp: req_dec_def res_inv intro: opt_dec_ok)

text \<open>Every row read from the broker's list is well formed.\<close>

lemma parse_position_cap_ok: "parse_position_cap v = Inr (Some c) \<Longrightarrow> dec_ok c \<and> is_positive c"
  by (auto simp: parse_position_cap_def res_inv dest: opt_dec_ok split: option.splits if_splits)

lemma instrument_parse_value_ok:
  assumes "instrument_parse_value v = Inr i"
  shows "instrument_ok i"
proof -
  from assms have "req_dec v ''minimumTradeSize'' = Inr (ii_minimum_trade_size i)"
    "req_dec v ''maximumOrderUnits'' = Inr (ii_maximum_order_units i)"
    "parse_position_cap v = Inr (ii_maximum_position_size i)" "is_positive (ii_minimum_trade_size i)"
    by (auto simp: instrument_parse_value_def try_bind_Inr Let_def split: if_splits)
  then show ?thesis by (auto simp: instrument_ok_def dest: req_dec_ok parse_position_cap_ok)
qed

lemma oanda_quantity_val:
  assumes v: "oanda_quantity sy q i = Inr r" and q: "dec_ok q" "is_positive q" and i: "instrument_ok i"
  shows "0 < dval r \<and> dval r \<le> dval q \<and> dval (ii_minimum_trade_size i) \<le> dval r
    \<and> dval r \<le> dval (ii_maximum_order_units i) \<and> dec_ok r \<and> dscale r = ii_trade_units_precision i"
proof -
  from v have r: "round_dp q (ii_trade_units_precision i) Floor = Inr r"
    "\<not> dec_lt r (ii_minimum_trade_size i)" "\<not> dec_lt (ii_maximum_order_units i) r"
    by (auto simp: oanda_quantity_def res_inv split: if_splits)
  from round_dp_ok [OF r(1) q(1)] have ok: "dec_ok r" "dscale r = ii_trade_units_precision i" by auto
  moreover have "dval r \<le> dval q" using round_dp_floor_le [OF r(1) q(1)] q(2) by (simp add: is_positive_def)
  moreover have "dval (ii_minimum_trade_size i) \<le> dval r" "dval r \<le> dval (ii_maximum_order_units i)"
    using r(2,3) ok i by (auto simp: dec_order instrument_ok_def not_less)
  moreover have "0 < dval (ii_minimum_trade_size i)" using i by (simp add: instrument_ok_def dval_sign)
  ultimately show ?thesis by force
qed

lemma oanda_prepare_inv:
  assumes "oanda_prepare_order req i opts = Inr p"
  shows "is_positive (req_quantity req)"
    and "\<exists>sy. oanda_quantity sy (req_quantity req) i = Inr (op_quantity p)"
    and "oanda_units (req_side req) (op_quantity p) = Inr (op_units p)"
    and "oanda_price req i = Inr (op_limit_price p)"
    and "op_instrument p = ii_name i" and "op_client_id p = req_tag req"
    and "op_position_fill p = (if req_reduce_only req then ''REDUCE_ONLY'' else ''DEFAULT'')"
  using assms by (auto simp: oanda_prepare_order_def oanda_check_request_def res_inv split: if_splits)

lemma oanda_prepared_quantity:
  assumes "oanda_prepare_order req i opts = Inr p" and "dec_ok (req_quantity req)" and "instrument_ok i"
  shows "0 < dval (op_quantity p) \<and> dval (op_quantity p) \<le> dval (req_quantity req) \<and> dec_ok (op_quantity p)"
  using oanda_quantity_val [OF _ assms(2) oanda_prepare_inv(1) assms(3)] oanda_prepare_inv(2) assms(1) by blast

text \<open>
  C35: an order OANDA's \<open>prepare_order\<close> accepts has a positive magnitude that is never larger than the
  request and lies between the instrument's minimum and maximum; its signed units are that
  magnitude with the sign of the side; a market order stays a market order and a limit order a
  limit order with a price never worse than requested; the reduce-only flag is never dropped.
\<close>

theorem oanda_prepare_order_safe:
  assumes "oanda_prepare_order req i opts = Inr p" and "dec_ok (req_quantity req)" and "instrument_ok i"
    and "\<forall>px. req_kind req = Limit px \<longrightarrow> dec_small px"
  shows "0 < dval (op_quantity p) \<and> dval (op_quantity p) \<le> dval (req_quantity req)
    \<and> dval (ii_minimum_trade_size i) \<le> dval (op_quantity p)
    \<and> dval (op_quantity p) \<le> dval (ii_maximum_order_units i)
    \<and> dval (op_units p) = (case req_side req of Buy \<Rightarrow> dval (op_quantity p) | Sell \<Rightarrow> - dval (op_quantity p))
    \<and> (req_kind req = Market \<longleftrightarrow> oanda_is_market p)
    \<and> (\<forall>px. req_kind req = Limit px \<longrightarrow> (\<exists>q. op_limit_price p = Some q \<and> 0 < dval q
         \<and> (req_side req = Buy \<longrightarrow> dval q \<le> dval px) \<and> (req_side req = Sell \<longrightarrow> dval px \<le> dval q)))
    \<and> (req_reduce_only req \<longleftrightarrow> op_position_fill p = ''REDUCE_ONLY'')"
proof -
  note inv = oanda_prepare_inv [OF assms(1)]
  from inv(2) obtain sy where "oanda_quantity sy (req_quantity req) i = Inr (op_quantity p)" by blast
  note q = oanda_quantity_val [OF this assms(2) inv(1) assms(3)]
  have "dunits (op_quantity p) \<noteq> i128_min" using q dval_nonneg_iff [of "op_quantity p"] by (auto simp: i128_min_def)
  then have "wrap_i128 (- dunits (op_quantity p)) = - dunits (op_quantity p)"
    using q by (intro wrap_i128_id) (auto simp: dec_ok_def in_i128_def i128_min_def i128_max_def)
  then have u: "dval (op_units p) = (case req_side req of Buy \<Rightarrow> dval (op_quantity p) | Sell \<Rightarrow> - dval (op_quantity p))"
    using inv(3) by (cases "req_side req") (auto simp: oanda_units_def dec_new_def dval_def res_inv
        dest!: sym [of _ "op_units p"] split: if_splits)
  have lim: "\<exists>q. op_limit_price p = Some q \<and> 0 < dval q
      \<and> (req_side req = Buy \<longrightarrow> dval q \<le> dval px) \<and> (req_side req = Sell \<longrightarrow> dval px \<le> dval q)"
    if k: "req_kind req = Limit px" for px
    using inv(4) k assms(4) round_dp_small_dir [of px "ii_display_precision i"]
    by (cases "op_limit_price p")
      (auto simp: oanda_price_def res_inv price_mode_def dval_sign floor_dp_le ceil_dp_ge split: if_splits)
  have m: "req_kind req = Market \<longleftrightarrow> oanda_is_market p"
    using inv(4) lim by (cases "req_kind req") (auto simp: oanda_is_market_def oanda_price_def)
  from q u lim m inv(7) show ?thesis by auto
qed

theorem oanda_prepare_order_safe_witness:
  "\<exists>i p. instrument_ok i
    \<and> oanda_prepare_order (order_market ''rb1:x'' ''EUR/USD'' Sell (Dec 12347 1)) i oanda_default_options = Inr p
    \<and> op_units p = Dec (- 1234) 0 \<and> dval (op_quantity p) \<le> dval (Dec 12347 1)"
proof -
  let ?i = "\<lparr>ii_name = ''EUR_USD'', ii_kind = ''CURRENCY'', ii_display_precision = 5,
    ii_trade_units_precision = 0, ii_minimum_trade_size = Dec 1 0, ii_maximum_order_units = Dec 100000000 0,
    ii_margin_rate = Dec 2 2, ii_maximum_position_size = None\<rparr>"
  let ?req = "order_market ''rb1:x'' ''EUR/USD'' Sell (Dec 12347 1)"
  let ?p = "\<lparr>op_instrument = ''EUR_USD'', op_side = Sell, op_requested_quantity = Dec 12347 1,
    op_quantity = Dec 1234 0, op_units = Dec (- 1234) 0, op_limit_price = None, op_tif = ''FOK'',
    op_position_fill = ''DEFAULT'', op_client_id = ''rb1:x'', op_client_tag = ''mendl-rb''\<rparr>"
  have e: "oanda_prepare_order ?req ?i oanda_default_options = Inr ?p" by code_simp
  have ok: "dec_ok (req_quantity ?req)" "instrument_ok ?i" "\<forall>px. req_kind ?req = Limit px \<longrightarrow> dec_small px"
    by (auto simp: order_market_def order_base_def instrument_ok_def dec_ok_def is_positive_def in_i128_def
        i128_max_def i128_min_def)
  from oanda_prepare_order_safe [OF e ok] e ok(2) show ?thesis
    by (intro exI [of _ ?i] exI [of _ ?p]) (simp add: order_market_def order_base_def)
qed

end
