(* ===== verification/Venue.thy ===== *)
theory Venue
  imports Oanda_Order Dec_Math
begin

text \<open>
  \<open>rebalancer-core/src/venue.rs\<close>: the planner's view of a venue. \<open>VenueRules\<close>, a trait in the
  source, is a record of its two methods; the three implementations call the adapters'
  \<open>prepare_order\<close> with a market probe. The locale \<open>venue_rounding\<close> is the contract the planner
  relies on (a size is rounded down or refused, never raised); it is interpreted on all three. The
  \<open>Debug\<close> text of a table row, which the fingerprints embed, is a parameter.
\<close>

section \<open>Size rules\<close>

datatype size_refusal =
    UnknownInstrument string
  | NotTradable string
  | RoundsToZero
  | SizeBelowMinQuantity dec
  | SizeBelowMinCost dec
  | OtherRefusal

record venue_rules =
  vr_round_quantity :: "string \<Rightarrow> side \<Rightarrow> dec \<Rightarrow> dec \<Rightarrow> size_refusal + dec"
  vr_fingerprint :: "string \<Rightarrow> string"

definition venue_map_error :: "string \<Rightarrow> broker_error \<Rightarrow> size_refusal" where
  "venue_map_error symbol e =
     (case e of
        QuantityRoundsToZero _ _ _ \<Rightarrow> RoundsToZero
      | BelowMinQuantity _ m _ \<Rightarrow> SizeBelowMinQuantity m
      | BelowMinCost _ m _ \<Rightarrow> SizeBelowMinCost m
      | PairNotTradable _ status \<Rightarrow> NotTradable status
      | UnknownSymbol \<Rightarrow> UnknownInstrument symbol
      | _ \<Rightarrow> OtherRefusal)"

definition kraken_round_quantity :: "pair_table \<Rightarrow> string \<Rightarrow> side \<Rightarrow> dec \<Rightarrow> dec \<Rightarrow> size_refusal + dec" where
  "kraken_round_quantity t symbol side quantity price =
     try_bind (ok_or (UnknownInstrument symbol) (pair_lookup t symbol)) (\<lambda>pair.
     let req = (order_market ''rb1:size-probe'' symbol side quantity)\<lparr>req_reference_price := Some price\<rparr>
     in map_err (venue_map_error symbol)
          (try_bind (kraken_prepare_order req pair 1 kraken_default_options) (\<lambda>p. Inr (kp_volume p))))"

definition kraken_rules :: "(pair_info option \<Rightarrow> string) \<Rightarrow> pair_table \<Rightarrow> venue_rules" where
  "kraken_rules debug t =
     \<lparr>vr_round_quantity = kraken_round_quantity t,
      vr_fingerprint = (\<lambda>symbol. ''kraken:'' @ symbol @ '':'' @ debug (pair_lookup t symbol))\<rparr>"

definition alpaca_round_quantity ::
    "asset_table \<times> alpaca_options \<Rightarrow> string \<Rightarrow> side \<Rightarrow> dec \<Rightarrow> dec \<Rightarrow> size_refusal + dec" where
  "alpaca_round_quantity = (\<lambda>(t, opts) symbol side quantity price.
     try_bind (ok_or (UnknownInstrument symbol) (asset_lookup t symbol)) (\<lambda>asset.
     let prefix = (case ao_own_tag_prefix opts of Some p \<Rightarrow> p | None \<Rightarrow> []);
         req = (order_market (prefix @ ''size-probe'') symbol side quantity)\<lparr>req_reference_price := Some price\<rparr>
     in map_err (venue_map_error symbol)
          (try_bind (alpaca_prepare_order req asset opts) (\<lambda>p. Inr (ap_quantity p)))))"

definition alpaca_rules :: "(asset_info option \<Rightarrow> string) \<Rightarrow> asset_table \<Rightarrow> alpaca_options \<Rightarrow> venue_rules" where
  "alpaca_rules debug t opts =
     \<lparr>vr_round_quantity = alpaca_round_quantity (t, opts),
      vr_fingerprint = (\<lambda>symbol. ''alpaca:'' @ symbol @ '':'' @ debug (asset_lookup t symbol)
        @ '':min_notional='' @ dec_to_string (ao_min_notional opts))\<rparr>"

definition oanda_round_quantity ::
    "instrument_table \<times> oanda_options \<Rightarrow> string \<Rightarrow> side \<Rightarrow> dec \<Rightarrow> dec \<Rightarrow> size_refusal + dec" where
  "oanda_round_quantity = (\<lambda>(t, opts) symbol side quantity price.
     try_bind (ok_or (UnknownInstrument symbol) (instrument_lookup t symbol)) (\<lambda>info.
     let prefix = (case oo_own_tag_prefix opts of Some p \<Rightarrow> p | None \<Rightarrow> []);
         req = order_market (prefix @ ''size-probe'') symbol side quantity
     in map_err (venue_map_error symbol)
          (try_bind (oanda_prepare_order req info opts) (\<lambda>p. Inr (op_quantity p)))))"

definition oanda_rules :: "(instrument_info option \<Rightarrow> string) \<Rightarrow> instrument_table \<Rightarrow> oanda_options \<Rightarrow> venue_rules" where
  "oanda_rules debug t opts =
     \<lparr>vr_round_quantity = oanda_round_quantity (t, opts),
      vr_fingerprint = (\<lambda>symbol.
        ''oanda:'' @ (case canonical_symbol symbol of Inr c \<Rightarrow> c | Inl _ \<Rightarrow> symbol) @ '':''
        @ debug (instrument_lookup t symbol))\<rparr>"

section \<open>Per-instrument facts\<close>

datatype short_policy = Forbidden string | Allowed | NeedsLocate

record instrument_venue_rule =
  ivr_short :: short_policy
  ivr_max_leverage :: "dec option"
  ivr_max_position_units :: "dec option"

definition with_short :: "short_policy \<Rightarrow> instrument_venue_rule" where
  "with_short s = \<lparr>ivr_short = s, ivr_max_leverage = None, ivr_max_position_units = None\<rparr>"

definition shortable :: instrument_venue_rule where
  "shortable = with_short Allowed"

definition never_shortable :: "string \<Rightarrow> instrument_venue_rule" where
  "never_shortable reason = with_short (Forbidden reason)"

definition short_needs_locate :: instrument_venue_rule where
  "short_needs_locate = with_short NeedsLocate"

definition with_max_leverage :: "dec \<Rightarrow> instrument_venue_rule \<Rightarrow> instrument_venue_rule" where
  "with_max_leverage m r = r\<lparr>ivr_max_leverage := Some m\<rparr>"

definition with_max_position_units :: "dec \<Rightarrow> instrument_venue_rule \<Rightarrow> instrument_venue_rule" where
  "with_max_position_units m r = r\<lparr>ivr_max_position_units := Some m\<rparr>"

definition opt_dec_text :: "dec option \<Rightarrow> string" where
  "opt_dec_text m = (case m of None \<Rightarrow> ''-'' | Some d \<Rightarrow> dec_to_string (normalized d))"

definition rule_fingerprint :: "instrument_venue_rule \<Rightarrow> string" where
  "rule_fingerprint r =
     ''short='' @ (case ivr_short r of
        Forbidden reason \<Rightarrow> ''forbidden('' @ reason @ '')''
      | Allowed \<Rightarrow> ''allowed''
      | NeedsLocate \<Rightarrow> ''needs_locate'')
     @ ''|max_leverage='' @ opt_dec_text (ivr_max_leverage r)
     @ ''|max_position_units='' @ opt_dec_text (ivr_max_position_units r)"

record instrument_rules =
  ir_rules :: "(string \<times> string, instrument_venue_rule) btree_map"
  ir_locates :: "(string \<times> string) btree_set"

definition rule_key :: "string \<Rightarrow> string \<Rightarrow> string \<times> string" where
  "rule_key venue symbol = (to_lower (trim venue), to_upper (trim symbol))"

definition instrument_rules_new :: instrument_rules where
  "instrument_rules_new = \<lparr>ir_rules = [], ir_locates = []\<rparr>"

definition with_rule :: "string \<Rightarrow> string \<Rightarrow> instrument_venue_rule \<Rightarrow> instrument_rules \<Rightarrow> instrument_rules" where
  "with_rule venue symbol rule r = r\<lparr>ir_rules := btm_insert (rule_key venue symbol) rule (ir_rules r)\<rparr>"

definition with_locate :: "string \<Rightarrow> string \<Rightarrow> instrument_rules \<Rightarrow> instrument_rules" where
  "with_locate venue symbol r = r\<lparr>ir_locates := bts_insert (rule_key venue symbol) (ir_locates r)\<rparr>"

definition rule_for :: "instrument_rules \<Rightarrow> string \<Rightarrow> string \<Rightarrow> instrument_venue_rule option" where
  "rule_for r venue symbol = map_of (ir_rules r) (rule_key venue symbol)"

definition has_locate :: "instrument_rules \<Rightarrow> string \<Rightarrow> string \<Rightarrow> bool" where
  "has_locate r venue symbol \<longleftrightarrow> rule_key venue symbol \<in> set (ir_locates r)"

definition show_bool :: "bool \<Rightarrow> string" where
  "show_bool b = (if b then ''true'' else ''false'')"

definition instrument_fingerprint :: "instrument_rules \<Rightarrow> string \<Rightarrow> string \<Rightarrow> string" where
  "instrument_fingerprint r venue symbol =
     (case rule_for r venue symbol of None \<Rightarrow> ''absent'' | Some x \<Rightarrow> rule_fingerprint x)
     @ ''|locate='' @ show_bool (has_locate r venue symbol)"

record venue_rule_book =
  vb_by_venue :: "(string, venue_rules) btree_map"
  vb_instruments :: instrument_rules

definition book_new :: venue_rule_book where
  "book_new = \<lparr>vb_by_venue = [], vb_instruments = instrument_rules_new\<rparr>"

definition book_with :: "string \<Rightarrow> venue_rules \<Rightarrow> venue_rule_book \<Rightarrow> venue_rule_book" where
  "book_with venue rules b = b\<lparr>vb_by_venue := btm_insert (to_lower (trim venue)) rules (vb_by_venue b)\<rparr>"

definition book_get :: "venue_rule_book \<Rightarrow> string \<Rightarrow> venue_rules option" where
  "book_get b venue = map_of (vb_by_venue b) (to_lower (trim venue))"

definition book_with_instrument_rules :: "instrument_rules \<Rightarrow> venue_rule_book \<Rightarrow> venue_rule_book" where
  "book_with_instrument_rules i b = b\<lparr>vb_instruments := i\<rparr>"

section \<open>The contract of a venue\<close>

definition venue_contract :: "venue_rules \<Rightarrow> bool" where
  "venue_contract v \<longleftrightarrow>
     (\<forall>s sd q p r. dec_ok q \<longrightarrow> vr_round_quantity v s sd q p = Inr r \<longrightarrow>
        0 < dval r \<and> dval r \<le> dval q \<and> dec_ok r)"

definition book_ok :: "venue_rule_book \<Rightarrow> bool" where
  "book_ok b \<longleftrightarrow> (\<forall>v \<in> snd ` set (vb_by_venue b). venue_contract v)"

locale venue_rounding =
  fixes round_quantity :: "'t \<Rightarrow> string \<Rightarrow> side \<Rightarrow> dec \<Rightarrow> dec \<Rightarrow> size_refusal + dec"
    and table_ok :: "'t \<Rightarrow> bool"
  assumes rounds_down: "table_ok t \<Longrightarrow> dec_ok q \<Longrightarrow> round_quantity t s sd q p = Inr r \<Longrightarrow>
      0 < dval r \<and> dval r \<le> dval q \<and> dec_ok r"
begin

lemma refuses_nonpositive: "table_ok t \<Longrightarrow> dec_ok q \<Longrightarrow> dval q \<le> 0 \<Longrightarrow> \<exists>e. round_quantity t s sd q p = Inl e"
  using rounds_down [of t q s sd p] by (cases "round_quantity t s sd q p") force+

lemma contract_holds: "table_ok t \<Longrightarrow> venue_contract \<lparr>vr_round_quantity = round_quantity t, vr_fingerprint = fp\<rparr>"
  unfolding venue_contract_def using rounds_down by fastforce

end

lemma book_get_contract: "book_ok b \<Longrightarrow> book_get b v = Some r \<Longrightarrow> venue_contract r"
  by (auto simp: book_ok_def book_get_def dest!: map_of_SomeD intro: rev_image_eqI)

lemma book_with_ok: "book_ok b \<Longrightarrow> venue_contract v \<Longrightarrow> book_ok (book_with n v b)"
  using btm_insert_values [of "to_lower (trim n)" v "vb_by_venue b"]
  unfolding book_ok_def book_with_def by fastforce

text \<open>The three implementations keep it, for tables whose rows are well formed.\<close>

definition kraken_table_ok :: "pair_table \<Rightarrow> bool" where
  "kraken_table_ok t \<longleftrightarrow> list_all pair_ok t"

definition alpaca_table_ok :: "asset_table \<times> alpaca_options \<Rightarrow> bool" where
  "alpaca_table_ok t \<longleftrightarrow> list_all (\<lambda>(k, a). asset_ok a) (fst t)"

definition oanda_table_ok :: "instrument_table \<times> oanda_options \<Rightarrow> bool" where
  "oanda_table_ok t \<longleftrightarrow> list_all (\<lambda>(k, i). instrument_ok i) (fst t)"

lemma find_Some_mem: "find p xs = Some x \<Longrightarrow> x \<in> set xs \<and> p x"
  by (induction xs) (auto split: if_splits)

interpretation kraken_venue: venue_rounding kraken_round_quantity kraken_table_ok
proof
  fix t q s sd p r
  assume t: "kraken_table_ok t" and q: "dec_ok q" and r: "kraken_round_quantity t s sd q p = Inr r"
  from r obtain pair k where k: "pair_lookup t s = Some pair"
    "kraken_prepare_order ((order_market ''rb1:size-probe'' s sd q)\<lparr>req_reference_price := Some p\<rparr>) pair 1
       kraken_default_options = Inr k" "r = kp_volume k"
    by (auto simp: kraken_round_quantity_def Let_def res_inv)
  from k(1) t have "pair_ok pair" by (auto simp: pair_lookup_def kraken_table_ok_def list_all_iff dest!: find_Some_mem)
  with kraken_prepared_volume [OF k(2)] q k(3) show "0 < dval r \<and> dval r \<le> dval q \<and> dec_ok r"
    by (simp add: order_market_def order_base_def)
qed

interpretation alpaca_venue: venue_rounding alpaca_round_quantity alpaca_table_ok
proof
  fix t q s sd p r
  assume t: "alpaca_table_ok t" and q: "dec_ok q" and r: "alpaca_round_quantity t s sd q p = Inr r"
  from r obtain a k tag where k: "asset_lookup (fst t) s = Some a"
    "alpaca_prepare_order ((order_market tag s sd q)\<lparr>req_reference_price := Some p\<rparr>) a (snd t) = Inr k"
    "r = ap_quantity k"
    by (auto simp: alpaca_round_quantity_def Let_def res_inv split: prod.splits)
  from k(1) t have "asset_ok a" by (auto simp: asset_lookup_def alpaca_table_ok_def list_all_iff dest!: map_of_SomeD)
  with alpaca_prepared_quantity [OF k(2)] q k(3) show "0 < dval r \<and> dval r \<le> dval q \<and> dec_ok r"
    by (simp add: order_market_def order_base_def)
qed

interpretation oanda_venue: venue_rounding oanda_round_quantity oanda_table_ok
proof
  fix t q s sd p r
  assume t: "oanda_table_ok t" and q: "dec_ok q" and r: "oanda_round_quantity t s sd q p = Inr r"
  from r obtain i k tag where k: "instrument_lookup (fst t) s = Some i"
    "oanda_prepare_order (order_market tag s sd q) i (snd t) = Inr k" "r = op_quantity k"
    by (auto simp: oanda_round_quantity_def Let_def res_inv split: prod.splits)
  from k(1) t have "instrument_ok i"
    by (auto simp: instrument_lookup_def oanda_table_ok_def list_all_iff dest!: map_of_SomeD split: sum.splits)
  with oanda_prepared_quantity [OF k(2)] q k(3) show "0 < dval r \<and> dval r \<le> dval q \<and> dec_ok r"
    by (simp add: order_market_def order_base_def)
qed

lemma builtin_kraken_table_ok: "kraken_table_ok builtin_pairs"
  by (simp add: kraken_table_ok_def builtin_pairs_def builtin_pair_def pair_ok_def dec_ok_def in_i128_def
      i128_max_def i128_min_def)

lemma builtin_kraken_book_ok: "book_ok (book_with v (kraken_rules f builtin_pairs) book_new)"
  unfolding kraken_rules_def
  by (intro book_with_ok kraken_venue.contract_holds builtin_kraken_table_ok) (simp add: book_ok_def book_new_def)

text \<open>
  C32: each of the three venue implementations the planner may be given rounds a wished quantity
  down to a positive size or refuses it, for any well-formed rule table; nothing is ever raised to
  a minimum.
\<close>

theorem venue_rules_contract:
  "(kraken_table_ok kt \<longrightarrow> venue_contract (kraken_rules kdbg kt)) \<and>
   (alpaca_table_ok (alt, aopts) \<longrightarrow> venue_contract (alpaca_rules adbg alt aopts)) \<and>
   (oanda_table_ok (ot, oopts) \<longrightarrow> venue_contract (oanda_rules odbg ot oopts))"
  unfolding kraken_rules_def alpaca_rules_def oanda_rules_def
  by (blast intro: kraken_venue.contract_holds alpaca_venue.contract_holds oanda_venue.contract_holds)

theorem venue_rules_contract_witness:
  "kraken_table_ok builtin_pairs \<and> venue_contract (kraken_rules (\<lambda>_. []) builtin_pairs)
   \<and> kraken_round_quantity builtin_pairs ''BTC/USD'' Buy (Dec 15 5) (Dec 60000 0) = Inr (Dec 15000 8)
   \<and> kraken_round_quantity builtin_pairs ''BTC/USD'' Buy (Dec 9 5) (Dec 60000 0) = Inl (SizeBelowMinQuantity (Dec 1 4))"
proof -
  note builtin_kraken_table_ok
  moreover have "kraken_round_quantity builtin_pairs ''BTC/USD'' Buy (Dec 15 5) (Dec 60000 0) = Inr (Dec 15000 8)"
    "kraken_round_quantity builtin_pairs ''BTC/USD'' Buy (Dec 9 5) (Dec 60000 0) = Inl (SizeBelowMinQuantity (Dec 1 4))"
    by code_simp+
  ultimately show ?thesis using venue_rules_contract [of builtin_pairs "\<lambda>_. []"] by blast
qed

end
