(* ===== verification/Guard.thy ===== *)
theory Guard
  imports Policy Venue
begin

text \<open>
  \<open>rebalancer-core/src/guard.rs\<close>: the pre-trade guard, a pure function from policy, account, order
  and day counters to a verdict with every applicable denial code in a fixed order. A check is a
  pair of the denials recorded so far and a result, as the source keeps a list of reasons beside a
  \<open>Result\<close>; the messages of the denials are left out, their codes are kept. A \<open>DateTime<Utc>\<close> is
  its number of nanoseconds.
\<close>

section \<open>Data\<close>

datatype denial_code =
    MandateInvalid | MandateNotActive | MandateExpired | AccountHalted | OrderInvalid | EquityInvalid
  | CurrencyMismatch | PriceMissing | PriceStale | InstrumentDenied | InstrumentNotAllowed
  | VenueNotAllowed | AssetClassNotAllowed | ShortingForbidden | DerivativesForbidden
  | LeverageForbidden | MaxOrderNotional | MaxPosition | MaxAssetClass | MaxGross | MaxNet
  | MaxOrdersPerDay | MaxTurnoverPerDay | CashReserve | ArithmeticOverflow

definition all_codes :: "denial_code list" where
  "all_codes =
     [MandateInvalid, MandateNotActive, MandateExpired, AccountHalted, OrderInvalid, EquityInvalid,
      CurrencyMismatch, PriceMissing, PriceStale, InstrumentDenied, InstrumentNotAllowed,
      VenueNotAllowed, AssetClassNotAllowed, ShortingForbidden, DerivativesForbidden,
      LeverageForbidden, MaxOrderNotional, MaxPosition, MaxAssetClass, MaxGross, MaxNet,
      MaxOrdersPerDay, MaxTurnoverPerDay, CashReserve, ArithmeticOverflow]"

definition code_as_str :: "denial_code \<Rightarrow> string" where
  "code_as_str c =
     (case c of
        MandateInvalid \<Rightarrow> ''MANDATE_INVALID'' | MandateNotActive \<Rightarrow> ''MANDATE_NOT_ACTIVE''
      | MandateExpired \<Rightarrow> ''MANDATE_EXPIRED'' | AccountHalted \<Rightarrow> ''ACCOUNT_HALTED''
      | OrderInvalid \<Rightarrow> ''ORDER_INVALID'' | EquityInvalid \<Rightarrow> ''EQUITY_INVALID''
      | CurrencyMismatch \<Rightarrow> ''CURRENCY_MISMATCH'' | PriceMissing \<Rightarrow> ''PRICE_MISSING''
      | PriceStale \<Rightarrow> ''PRICE_STALE'' | InstrumentDenied \<Rightarrow> ''INSTRUMENT_DENIED''
      | InstrumentNotAllowed \<Rightarrow> ''INSTRUMENT_NOT_ALLOWED'' | VenueNotAllowed \<Rightarrow> ''VENUE_NOT_ALLOWED''
      | AssetClassNotAllowed \<Rightarrow> ''ASSET_CLASS_NOT_ALLOWED'' | ShortingForbidden \<Rightarrow> ''SHORTING_FORBIDDEN''
      | DerivativesForbidden \<Rightarrow> ''DERIVATIVES_FORBIDDEN'' | LeverageForbidden \<Rightarrow> ''LEVERAGE_FORBIDDEN''
      | MaxOrderNotional \<Rightarrow> ''MAX_ORDER_NOTIONAL'' | MaxPosition \<Rightarrow> ''MAX_POSITION''
      | MaxAssetClass \<Rightarrow> ''MAX_ASSET_CLASS'' | MaxGross \<Rightarrow> ''MAX_GROSS'' | MaxNet \<Rightarrow> ''MAX_NET''
      | MaxOrdersPerDay \<Rightarrow> ''MAX_ORDERS_PER_DAY'' | MaxTurnoverPerDay \<Rightarrow> ''MAX_TURNOVER_PER_DAY''
      | CashReserve \<Rightarrow> ''CASH_RESERVE'' | ArithmeticOverflow \<Rightarrow> ''ARITHMETIC_OVERFLOW'')"

record verdict =
  v_allow :: bool
  v_reasons :: "denial_code list"

definition verdict_has :: "verdict \<Rightarrow> denial_code \<Rightarrow> bool" where
  "verdict_has v c \<longleftrightarrow> list_ex (\<lambda>r. r = c) (v_reasons v)"

record position =
  pos_symbol :: string
  pos_venue :: string
  pos_asset_class :: string
  pos_quantity :: dec
  pos_market_value :: dec

record account_view =
  av_account_id :: string
  av_ccy :: string
  av_equity :: dec
  av_cash :: dec
  av_positions :: "position list"
  av_halted :: bool
  av_now :: int

definition account_position :: "account_view \<Rightarrow> string \<Rightarrow> position option" where
  "account_position a symbol = find (\<lambda>p. eq_ignore_case (pos_symbol p) symbol) (av_positions a)"

record price_point =
  pp_price :: dec
  pp_as_of :: int

record proposed_order =
  po_venue :: string
  po_asset_class :: string
  po_symbol :: string
  po_side :: side
  po_quantity :: dec
  po_price :: "price_point option"
  po_est_fee :: dec
  po_uses_margin :: bool
  po_is_derivative :: bool
  po_loss_rung_cover :: bool

record day_counters =
  dc_orders_today :: nat
  dc_turnover_today :: dec

definition day_zero :: day_counters where
  "day_zero = \<lparr>dc_orders_today = 0, dc_turnover_today = dec_ZERO\<rparr>"

record margin_context =
  mc_buying_power_left :: "dec option"

section \<open>Checks\<close>

type_synonym 'a checked = "denial_code list \<times> (math_error + 'a)"

definition chk_bind :: "'a checked \<Rightarrow> ('a \<Rightarrow> 'b checked) \<Rightarrow> 'b checked" where
  "chk_bind m k =
     (case m of (ds, Inl e) \<Rightarrow> (ds, Inl e) | (ds, Inr x) \<Rightarrow> (case k x of (ds', r) \<Rightarrow> (ds @ ds', r)))"

definition chk_lift :: "math_error + 'a \<Rightarrow> 'a checked" where
  "chk_lift m = ([], m)"

definition deny_if :: "bool \<Rightarrow> denial_code \<Rightarrow> unit checked" where
  "deny_if b c = (if b then [c] else [], Inr ())"

section \<open>Exposure after the order\<close>

record after =
  af_position_value :: dec
  af_gross :: dec
  af_net :: dec
  af_class_gross :: dec
  af_cash :: dec

definition order_class :: "proposed_order \<Rightarrow> string" where
  "order_class o1 = to_lower (trim (po_asset_class o1))"

definition position_qty :: "account_view \<Rightarrow> proposed_order \<Rightarrow> dec" where
  "position_qty a o1 = (case account_position a (po_symbol o1) of Some p \<Rightarrow> pos_quantity p | None \<Rightarrow> dec_ZERO)"

definition signed_by_side :: "side \<Rightarrow> dec \<Rightarrow> math_error + dec" where
  "signed_by_side s d = (case s of Buy \<Rightarrow> Inr d | Sell \<Rightarrow> dneg d)"

definition after_step ::
    "string \<Rightarrow> string \<Rightarrow> dec \<times> dec \<times> dec \<times> dec \<Rightarrow> position \<Rightarrow> math_error + (dec \<times> dec \<times> dec \<times> dec)" where
  "after_step symbol cls = (\<lambda>(pv, og, on, oc) p.
     if eq_ignore_case (pos_symbol p) symbol
     then try_bind (dadd pv (pos_market_value p)) (\<lambda>pv'. Inr (pv', og, on, oc))
     else try_bind (dabs (pos_market_value p)) (\<lambda>a.
          try_bind (dadd og a) (\<lambda>og'.
          try_bind (dadd on (pos_market_value p)) (\<lambda>on'.
          if eq_ignore_case (trim (pos_asset_class p)) cls
          then try_bind (dadd oc a) (\<lambda>oc'. Inr (pv, og', on', oc'))
          else Inr (pv, og', on', oc)))))"

definition after_state :: "account_view \<Rightarrow> proposed_order \<Rightarrow> dec \<Rightarrow> string \<Rightarrow> math_error + after" where
  "after_state a o1 notional cls =
     try_bind (signed_by_side (po_side o1) notional) (\<lambda>sgnd.
     try_bind (try_fold (after_step (trim (po_symbol o1)) cls) (sgnd, dec_ZERO, dec_ZERO, dec_ZERO) (av_positions a))
       (\<lambda>(pv, og, on, oc).
     try_bind (dabs pv) (\<lambda>pv_abs.
     try_bind (dadd og pv_abs) (\<lambda>gross.
     try_bind (dadd on pv) (\<lambda>net.
     try_bind (dadd oc pv_abs) (\<lambda>class_gross.
     try_bind (dsub (av_cash a) sgnd) (\<lambda>c1.
     try_bind (dsub c1 (po_est_fee o1)) (\<lambda>cash.
     Inr \<lparr>af_position_value = pv_abs, af_gross = gross, af_net = net, af_class_gross = class_gross,
          af_cash = cash\<rparr>))))))))"

definition is_reducing :: "dec \<Rightarrow> proposed_order \<Rightarrow> math_error + bool" where
  "is_reducing pos_qty o1 =
     (case po_side o1 of
        Sell \<Rightarrow> Inr (is_positive pos_qty \<and> dec_le (po_quantity o1) pos_qty)
      | Buy \<Rightarrow> if is_negative pos_qty
               then try_bind (dneg pos_qty) (\<lambda>n. Inr (dec_le (po_quantity o1) n))
               else Inr False)"

definition margin_use :: "account_view \<Rightarrow> proposed_order \<Rightarrow> dec \<Rightarrow> math_error + bool" where
  "margin_use a o1 price =
     (let pos_qty = position_qty a o1
      in try_bind (signed_by_side (po_side o1) (po_quantity o1)) (\<lambda>signed_qty.
      try_bind (is_reducing pos_qty o1) (\<lambda>reducing.
      if reducing then Inr False
      else try_bind (dmul (po_quantity o1) price) (\<lambda>notional.
      try_bind (after_state a o1 notional (order_class o1)) (\<lambda>aft.
      try_bind (dadd pos_qty signed_qty) (\<lambda>q.
      Inr (is_negative q \<or> dec_lt (av_equity a) (af_gross aft) \<or> is_negative (af_cash aft))))))))"

definition venue_short_block :: "instrument_rules \<Rightarrow> instrument_venue_rule option \<Rightarrow> proposed_order \<Rightarrow> bool" where
  "venue_short_block instruments rule o1 =
     (case rule of
        None \<Rightarrow> True
      | Some r \<Rightarrow>
          (case ivr_short r of
             Allowed \<Rightarrow> False
           | Forbidden _ \<Rightarrow> True
           | NeedsLocate \<Rightarrow> \<not> has_locate instruments (po_venue o1) (po_symbol o1)))"

definition effective_gross_cap :: "limits \<Rightarrow> instrument_venue_rule option \<Rightarrow> dec" where
  "effective_gross_cap l rule =
     (let cap = dec_min (l_leverage_max_gross l) (l_max_gross l)
      in case Option.bind rule ivr_max_leverage of Some v \<Rightarrow> dec_min cap v | None \<Rightarrow> cap)"

definition increasing_notional :: "account_view \<Rightarrow> proposed_order \<Rightarrow> dec \<Rightarrow> math_error + dec" where
  "increasing_notional a o1 price =
     (let pos_qty = position_qty a o1
      in try_bind
        (case po_side o1 of
           Sell \<Rightarrow> Inr (if is_positive pos_qty then dec_min (po_quantity o1) pos_qty else dec_ZERO)
         | Buy \<Rightarrow> if is_negative pos_qty
                  then try_bind (dneg pos_qty) (\<lambda>n. Inr (dec_min (po_quantity o1) n))
                  else Inr dec_ZERO) (\<lambda>closing.
      try_bind (dsub (po_quantity o1) closing) (\<lambda>r. dmul r price)))"

section \<open>The guard\<close>

text \<open>\<open>num_milliseconds\<close> of a span truncates towards zero; \<open>saturating_mul\<close> clamps to \<open>i64\<close>.\<close>

definition span_ms :: "int \<Rightarrow> int" where
  "span_ms ns = (if 0 \<le> ns then ns div 1000000 else - ((- ns) div 1000000))"

definition sat_i64 :: "int \<Rightarrow> int" where
  "sat_i64 z = (if z > 2 ^ 63 - 1 then 2 ^ 63 - 1 else if z < - (2 ^ 63) then - (2 ^ 63) else z)"

definition check_price :: "policy \<Rightarrow> account_view \<Rightarrow> proposed_order \<Rightarrow> dec option checked" where
  "check_price p a o1 =
     (case po_price o1 of
        None \<Rightarrow> ([PriceMissing], Inr None)
      | Some pt \<Rightarrow>
          if \<not> is_positive (pp_price pt) then ([PriceMissing], Inr None)
          else let age_ms = span_ms (av_now a - pp_as_of pt)
               in if age_ms < - sat_i64 (MAX_FUTURE_SKEW_SECS * 1000) then ([PriceStale], Inr None)
                  else if age_ms > sat_i64 (p_max_price_age_secs p * 1000) then ([PriceStale], Inr None)
                  else ([], Inr (Some (pp_price pt))))"

definition check_universe :: "limits \<Rightarrow> proposed_order \<Rightarrow> unit checked" where
  "check_universe l o1 =
     (let s = to_upper (trim (po_symbol o1)); venue = to_lower (trim (po_venue o1))
      in ((if s \<in> set (l_instrument_deny l) then [InstrumentDenied]
           else if s \<notin> set (l_instrument_allow l) then [InstrumentNotAllowed] else [])
          @ (if venue \<notin> set (l_venues l) then [VenueNotAllowed] else [])
          @ (if order_class o1 \<notin> set (l_asset_classes l) then [AssetClassNotAllowed] else []),
          Inr ()))"

definition check_short ::
    "limits \<Rightarrow> instrument_rules option \<Rightarrow> instrument_venue_rule option \<Rightarrow> dec \<Rightarrow> proposed_order \<Rightarrow> unit checked" where
  "check_short l instruments rule pos_qty o1 =
     (let held_long = (if is_positive pos_qty then pos_qty else dec_ZERO);
          opens_short = (po_side o1 = Sell \<and> dec_lt held_long (po_quantity o1));
          mandate_blocks = (opens_short \<and> \<not> l_shorting l);
          venue_blocks = (case instruments of Some i \<Rightarrow> opens_short \<and> venue_short_block i rule o1 | None \<Rightarrow> False)
      in deny_if (mandate_blocks \<or> venue_blocks) ShortingForbidden)"

definition check_leverage ::
    "limits \<Rightarrow> bool \<Rightarrow> instrument_venue_rule option \<Rightarrow> account_view \<Rightarrow> proposed_order \<Rightarrow> dec \<Rightarrow> bool \<Rightarrow> dec option
      \<Rightarrow> unit checked" where
  "check_leverage l sgnd rule a o1 base reducing price =
     (if sgnd
      then case price of
          None \<Rightarrow> ([], Inr ())
        | Some px \<Rightarrow>
            if reducing then ([], Inr ())
            else chk_bind (chk_lift (dmul (po_quantity o1) px)) (\<lambda>notional.
                 chk_bind (chk_lift (after_state a o1 notional (order_class o1))) (\<lambda>aft.
                 chk_bind (chk_lift (dmul (effective_gross_cap l rule) base)) (\<lambda>cap.
                 deny_if (dec_lt cap (af_gross aft)) LeverageForbidden)))
      else deny_if (po_uses_margin o1 \<and> dec_le (l_leverage_max_gross l) (from_i64 1)) LeverageForbidden)"

definition check_position_units ::
    "instrument_venue_rule option \<Rightarrow> dec \<Rightarrow> proposed_order \<Rightarrow> unit checked" where
  "check_position_units rule pos_qty o1 =
     (case Option.bind rule ivr_max_position_units of
        None \<Rightarrow> ([], Inr ())
      | Some max_units \<Rightarrow>
          chk_bind (chk_lift (signed_by_side (po_side o1) (po_quantity o1))) (\<lambda>sq.
          chk_bind (chk_lift (dadd pos_qty sq)) (\<lambda>q.
          chk_bind (chk_lift (dabs q)) (\<lambda>units_after.
          deny_if (dec_lt max_units units_after) MaxPosition))))"

definition check_exposure ::
    "limits \<Rightarrow> instrument_venue_rule option \<Rightarrow> dec \<Rightarrow> proposed_order \<Rightarrow> dec \<Rightarrow> dec \<Rightarrow> after \<Rightarrow> unit checked" where
  "check_exposure l rule pos_qty o1 base notional aft =
     chk_bind (deny_if (dec_lt (l_max_order_notional l) notional) MaxOrderNotional) (\<lambda>_.
     chk_bind (chk_lift (dmul (l_max_position l) base)) (\<lambda>pcap.
     chk_bind (deny_if (dec_lt pcap (af_position_value aft)) MaxPosition) (\<lambda>_.
     chk_bind (check_position_units rule pos_qty o1) (\<lambda>_.
     chk_bind (case map_of (l_max_asset_class l) (order_class o1) of
         None \<Rightarrow> ([], Inr ())
       | Some class_cap \<Rightarrow>
           chk_bind (chk_lift (dmul class_cap base)) (\<lambda>ccap.
           deny_if (dec_lt ccap (af_class_gross aft)) MaxAssetClass)) (\<lambda>_.
     chk_bind (chk_lift (dmul (l_max_gross l) base)) (\<lambda>gcap.
     chk_bind (deny_if (dec_lt gcap (af_gross aft)) MaxGross) (\<lambda>_.
     chk_bind (chk_lift (dmul (l_max_net l) base)) (\<lambda>ncap.
     chk_bind (chk_lift (dabs (af_net aft))) (\<lambda>anet.
     deny_if (dec_lt ncap anet) MaxNet)))))))))"

definition check_churn :: "limits \<Rightarrow> day_counters \<Rightarrow> dec \<Rightarrow> dec \<Rightarrow> unit checked" where
  "check_churn l day base notional =
     chk_bind (deny_if (dc_orders_today day + 1 > l_max_orders_per_day l) MaxOrdersPerDay) (\<lambda>_.
     chk_bind (chk_lift (dadd (dc_turnover_today day) notional)) (\<lambda>turnover_after.
     chk_bind (chk_lift (dmul (l_max_turnover_per_day l) base)) (\<lambda>cap.
     deny_if (dec_lt cap turnover_after) MaxTurnoverPerDay)))"

definition check_funding ::
    "policy \<Rightarrow> margin_context option \<Rightarrow> account_view \<Rightarrow> proposed_order \<Rightarrow> dec \<Rightarrow> dec \<Rightarrow> bool \<Rightarrow> after \<Rightarrow> unit checked" where
  "check_funding p margin a o1 base price derived_margin aft =
     chk_bind (chk_lift (reserve_amount p base)) (\<lambda>reserve.
     case map_option mc_buying_power_left margin of
       Some (Some bp) \<Rightarrow>
         chk_bind (chk_lift (increasing_notional a o1 price)) (\<lambda>increase.
         chk_bind (chk_lift (dsub bp increase)) (\<lambda>r1.
         chk_bind (chk_lift (dsub r1 (po_est_fee o1))) (\<lambda>left.
         deny_if (dec_lt left reserve) CashReserve)))
     | Some None \<Rightarrow>
         if po_uses_margin o1 \<or> derived_margin then ([CashReserve], Inr ())
         else deny_if (dec_lt (af_cash aft) reserve) CashReserve
     | None \<Rightarrow> deny_if (dec_lt (af_cash aft) reserve) CashReserve)"

text \<open>Section 8 of \<open>check_inner\<close>: the limits that need a price.\<close>

definition check_limits ::
    "policy \<Rightarrow> limits \<Rightarrow> margin_context option \<Rightarrow> instrument_venue_rule option \<Rightarrow> account_view \<Rightarrow> proposed_order
      \<Rightarrow> day_counters \<Rightarrow> bool \<Rightarrow> bool \<Rightarrow> dec \<Rightarrow> bool \<Rightarrow> dec \<Rightarrow> unit checked" where
  "check_limits p l margin rule a o1 day expired reducing base derived_margin price =
     chk_bind (chk_lift (dmul (po_quantity o1) price)) (\<lambda>notional.
     chk_bind (chk_lift (after_state a o1 notional (order_class o1))) (\<lambda>aft.
     chk_bind (if reducing then ([], Inr ())
               else check_exposure l rule (position_qty a o1) o1 base notional aft) (\<lambda>_.
     let required_cover = (po_loss_rung_cover o1 \<and> po_side o1 = Buy \<and> reducing)
     in chk_bind (if \<not> ((av_halted a \<or> expired) \<and> reducing) \<and> \<not> required_cover
                  then check_churn l day base notional else ([], Inr ())) (\<lambda>_.
     if reducing then ([], Inr ())
     else check_funding p margin a o1 base price derived_margin aft))))"

definition check_order ::
    "policy \<Rightarrow> limits \<Rightarrow> bool \<Rightarrow> account_view \<Rightarrow> proposed_order \<Rightarrow> day_counters
      \<Rightarrow> (margin_context \<times> instrument_rules) option \<Rightarrow> unit checked" where
  "check_order p l expired a o1 day sgnd =
     (let margin = map_option fst sgnd; instruments = map_option snd sgnd; pos_qty = position_qty a o1
      in chk_bind (chk_lift (is_reducing pos_qty o1)) (\<lambda>reducing.
      chk_bind (deny_if (av_halted a \<and> \<not> reducing) AccountHalted) (\<lambda>_.
      chk_bind (deny_if (expired \<and> \<not> reducing) MandateExpired) (\<lambda>_.
      chk_bind (check_price p a o1) (\<lambda>price.
      chk_bind (check_universe l o1) (\<lambda>_.
      let base = capital_base p (av_equity a) (av_ccy a);
          rule = Option.bind instruments (\<lambda>i. rule_for i (po_venue o1) (po_symbol o1))
      in chk_bind (check_short l instruments rule pos_qty o1) (\<lambda>_.
      chk_bind (deny_if (po_is_derivative o1 \<and> \<not> l_derivatives l) DerivativesForbidden) (\<lambda>_.
      chk_bind (case (margin, price) of
          (Some _, Some px) \<Rightarrow> chk_lift (margin_use a o1 px)
        | _ \<Rightarrow> ([], Inr False)) (\<lambda>derived_margin.
      chk_bind (check_leverage l (sgnd \<noteq> None) rule a o1 base reducing price) (\<lambda>_.
      case price of
        None \<Rightarrow> ([], Inr ())
      | Some px \<Rightarrow> check_limits p l margin rule a o1 day expired reducing base derived_margin px))))))))))"

definition check_inner ::
    "policy \<Rightarrow> account_view \<Rightarrow> proposed_order \<Rightarrow> day_counters \<Rightarrow> (margin_context \<times> instrument_rules) option
      \<Rightarrow> unit checked" where
  "check_inner p a o1 day sgnd =
     (let st = policy_standing p (av_now a)
      in case st of
           StInvalid \<Rightarrow> ([MandateInvalid], Inr ())
         | StNotActive \<Rightarrow> ([MandateNotActive], Inr ())
         | _ \<Rightarrow>
             (case policy_limits p of
                None \<Rightarrow> ([MandateInvalid], Inr ())
              | Some l \<Rightarrow>
                  if \<not> is_positive (po_quantity o1) \<or> is_negative (po_est_fee o1) \<or> trim (po_symbol o1) = []
                  then ([OrderInvalid], Inr ())
                  else if \<not> is_positive (av_equity a) then ([EquityInvalid], Inr ())
                  else if \<not> eq_ignore_case (trim (av_ccy a)) (l_ccy l) then ([CurrencyMismatch], Inr ())
                  else check_order p l (st = StExpired) a o1 day sgnd))"

definition guard_run ::
    "policy \<Rightarrow> account_view \<Rightarrow> proposed_order \<Rightarrow> day_counters \<Rightarrow> (margin_context \<times> instrument_rules) option
      \<Rightarrow> verdict" where
  "guard_run p a o1 day sgnd =
     (let r = check_inner p a o1 day sgnd;
          reasons = (case snd r of Inl _ \<Rightarrow> fst r @ [ArithmeticOverflow] | Inr _ \<Rightarrow> fst r)
      in \<lparr>v_allow = (reasons = []), v_reasons = reasons\<rparr>)"

definition guard_check :: "policy \<Rightarrow> account_view \<Rightarrow> proposed_order \<Rightarrow> day_counters \<Rightarrow> verdict" where
  "guard_check p a o1 day = guard_run p a o1 day None"

definition guard_check_signed ::
    "policy \<Rightarrow> account_view \<Rightarrow> proposed_order \<Rightarrow> day_counters \<Rightarrow> margin_context \<Rightarrow> instrument_rules \<Rightarrow> verdict" where
  "guard_check_signed p a o1 day margin instruments = guard_run p a o1 day (Some (margin, instruments))"

definition guard_check_margin ::
    "policy \<Rightarrow> account_view \<Rightarrow> proposed_order \<Rightarrow> day_counters \<Rightarrow> margin_context \<Rightarrow> verdict" where
  "guard_check_margin p a o1 day margin = guard_check_signed p a o1 day margin instrument_rules_new"

end
