(* ===== verification/Risk_State.thy ===== *)
theory Risk_State
  imports Dec_Math "HOL-Library.Word"
begin

text \<open>
  \<open>rebalancer-risk/src/state.rs\<close> and \<open>approval.rs\<close>: the per-account risk state machine. An
  \<open>AccountState\<close> is an immutable value; every operation returns a new one, together with the
  transition it made. A \<open>DateTime<Utc>\<close> is its number of nanoseconds since the epoch, a
  \<open>NaiveDate\<close> its number of days since the epoch, the \<open>u64\<close> version a 64-bit word and the
  \<open>u32\<close> count of failed flattens a natural number with the saturation written out.
\<close>

section \<open>Data\<close>

datatype account_status = AsActive | AsShrunk | AsFlattening | AsHalted

definition status_as_str :: "account_status \<Rightarrow> string" where
  "status_as_str s =
     (case s of AsActive \<Rightarrow> ''active'' | AsShrunk \<Rightarrow> ''shrunk''
      | AsFlattening \<Rightarrow> ''flattening'' | AsHalted \<Rightarrow> ''halted'')"

definition may_add_risk :: "account_status \<Rightarrow> bool" where
  "may_add_risk s \<longleftrightarrow> s = AsActive \<or> s = AsShrunk"

definition is_halt :: "account_status \<Rightarrow> bool" where
  "is_halt s \<longleftrightarrow> s = AsFlattening \<or> s = AsHalted"

datatype halt_reason =
    HrDailyLoss
  | HrDrawdownLadder
  | HrReconciliation
  | HrManual
  | HrEquityInvalid

definition halt_reason_code :: "halt_reason \<Rightarrow> string" where
  "halt_reason_code r =
     (case r of HrDailyLoss \<Rightarrow> ''HALT_DAILY_LOSS'' | HrDrawdownLadder \<Rightarrow> ''HALT_DRAWDOWN_LADDER''
      | HrReconciliation \<Rightarrow> ''HALT_RECONCILIATION'' | HrManual \<Rightarrow> ''HALT_MANUAL''
      | HrEquityInvalid \<Rightarrow> ''HALT_EQUITY_INVALID'')"

datatype day_start_rule = FirstObservation | UtcMidnight int

definition DEFAULT_DAY_START_MAX_LAG_SECS :: int where "DEFAULT_DAY_START_MAX_LAG_SECS = 1800"

record halt_record =
  hr_reason :: halt_reason
  hr_at :: int
  hr_detail :: string
  hr_equity_at_halt :: "dec option"
  hr_hwm_at_halt :: "dec option"
  hr_failed_flatten_attempts :: nat

record resume_record =
  rr_approver :: string
  rr_at :: int
  rr_note :: string
  rr_equity_at_resume :: dec
  rr_hwm_before :: "dec option"
  rr_halt_reason :: halt_reason
  rr_halted_at :: int

record transition =
  tr_from :: account_status
  tr_to :: account_status
  tr_code :: string

datatype resume_error =
    NotHalted string
  | FlattenIncomplete
  | ResumeEquityInvalid dec

definition resume_error_code :: "resume_error \<Rightarrow> string" where
  "resume_error_code e =
     (case e of NotHalted _ \<Rightarrow> ''RESUME_NOT_HALTED'' | FlattenIncomplete \<Rightarrow> ''RESUME_FLATTEN_INCOMPLETE''
      | ResumeEquityInvalid _ \<Rightarrow> ''RESUME_EQUITY_INVALID'')"

record account_state_record =
  ar_account_id :: string
  ar_version :: "64 word"
  ar_status :: account_status
  ar_risk_scale :: dec
  ar_shrink_rung :: "nat option"
  ar_hwm :: "dec option"
  ar_day_start_equity :: "dec option"
  ar_trading_day :: "int option"
  ar_last_equity :: "dec option"
  ar_last_equity_at :: "int option"
  ar_halt :: "halt_record option"
  ar_resumes :: "resume_record list"

record account_state =
  ac_account_id :: string
  ac_version :: "64 word"
  ac_status :: account_status
  ac_risk_scale :: dec
  ac_shrink_rung :: "nat option"
  ac_hwm :: "dec option"
  ac_day_start_equity :: "dec option"
  ac_trading_day :: "int option"
  ac_last_equity :: "dec option"
  ac_last_equity_at :: "int option"
  ac_halt :: "halt_record option"
  ac_resumes :: "resume_record list"

text \<open>The broker-reported equity reading (\<open>overlay.rs\<close>), which the state machine observes.\<close>

record equity_snapshot =
  es_equity :: dec
  es_ccy :: string
  es_at :: int
  es_venue :: string

definition broker_reported :: "string \<Rightarrow> string \<Rightarrow> dec \<Rightarrow> int \<Rightarrow> equity_snapshot" where
  "broker_reported venue ccy equity now =
     \<lparr>es_equity = equity, es_ccy = to_upper (trim ccy), es_at = now, es_venue = to_lower (trim venue)\<rparr>"

section \<open>Human approval\<close>

datatype principal_kind = PkHuman | PkAgent | PkApiKey | PkService

record principal =
  pr_subject :: string
  pr_kind :: principal_kind

datatype approval_denied = NotHuman | NoteRequired | SubjectRequired

definition approval_denied_code :: "approval_denied \<Rightarrow> string" where
  "approval_denied_code d =
     (case d of NotHuman \<Rightarrow> ''APPROVAL_NOT_HUMAN'' | NoteRequired \<Rightarrow> ''APPROVAL_NOTE_REQUIRED''
      | SubjectRequired \<Rightarrow> ''APPROVAL_SUBJECT_REQUIRED'')"

record human_approval =
  ha_approver :: string
  ha_at :: int
  ha_note :: string

definition human_approval_new :: "string \<Rightarrow> int \<Rightarrow> string \<Rightarrow> human_approval" where
  "human_approval_new approver now note = \<lparr>ha_approver = approver, ha_at = now, ha_note = note\<rparr>"

definition issue_human_approval :: "principal \<Rightarrow> string \<Rightarrow> int \<Rightarrow> approval_denied + human_approval" where
  "issue_human_approval p note now =
     (if pr_kind p \<noteq> PkHuman then Inl NotHuman
      else if trim (pr_subject p) = [] then Inl SubjectRequired
      else if trim note = [] then Inl NoteRequired
      else Inr (human_approval_new (trim (pr_subject p)) now (trim note)))"

section \<open>Operations\<close>

definition risk_one :: dec where "risk_one = from_i64 1"

definition ns_per_sec :: int where "ns_per_sec = 1000000000"
definition ns_per_day :: int where "ns_per_day = 86400 * ns_per_sec"

text \<open>\<open>DateTime::date_naive\<close>.\<close>

definition date_naive :: "int \<Rightarrow> int" where "date_naive at_ns = at_ns div ns_per_day"

text \<open>
  \<open>chrono::Duration::seconds\<close> panics above \<open>i64::MAX / 1000\<close>; the windows in use are below a day.
\<close>

definition within_anchor_window :: "int \<Rightarrow> int \<Rightarrow> bool" where
  "within_anchor_window at_ns max_lag_secs =
     (let midnight = date_naive at_ns * ns_per_day; lag = at_ns - midnight
      in max_lag_secs \<ge> 0 \<and> lag \<le> max_lag_secs * ns_per_sec)"

definition account_new :: "string \<Rightarrow> account_state" where
  "account_new account_id =
     \<lparr>ac_account_id = account_id, ac_version = 0, ac_status = AsActive, ac_risk_scale = risk_one,
      ac_shrink_rung = None, ac_hwm = None, ac_day_start_equity = None, ac_trading_day = None,
      ac_last_equity = None, ac_last_equity_at = None, ac_halt = None, ac_resumes = []\<rparr>"

text \<open>The public accessor \<open>risk_scale()\<close>: zero while a halt is in force.\<close>

definition risk_scale :: "account_state \<Rightarrow> dec" where
  "risk_scale s = (if may_add_risk (ac_status s) then ac_risk_scale s else dec_ZERO)"

definition to_record :: "account_state \<Rightarrow> account_state_record" where
  "to_record s =
     \<lparr>ar_account_id = ac_account_id s, ar_version = ac_version s, ar_status = ac_status s,
      ar_risk_scale = ac_risk_scale s, ar_shrink_rung = ac_shrink_rung s, ar_hwm = ac_hwm s,
      ar_day_start_equity = ac_day_start_equity s, ar_trading_day = ac_trading_day s,
      ar_last_equity = ac_last_equity s, ar_last_equity_at = ac_last_equity_at s,
      ar_halt = ac_halt s, ar_resumes = ac_resumes s\<rparr>"

definition from_record :: "account_state_record \<Rightarrow> string + account_state" where
  "from_record r =
     (if is_halt (ar_status r) \<noteq> (ar_halt r \<noteq> None)
      then Inl (''status '' @ status_as_str (ar_status r) @ '' and halt record presence disagree'')
      else if dec_le (ar_risk_scale r) dec_ZERO \<or> dec_lt risk_one (ar_risk_scale r)
      then Inl (''risk_scale '' @ dec_to_string (ar_risk_scale r) @ '' is outside (0, 1]'')
      else if (ar_status r = AsShrunk) \<noteq> (ar_shrink_rung r \<noteq> None)
      then Inl ''shrink_rung must be present exactly when the status is shrunk''
      else Inr
        \<lparr>ac_account_id = ar_account_id r, ac_version = ar_version r, ac_status = ar_status r,
         ac_risk_scale = ar_risk_scale r, ac_shrink_rung = ar_shrink_rung r, ac_hwm = ar_hwm r,
         ac_day_start_equity = ar_day_start_equity r, ac_trading_day = ar_trading_day r,
         ac_last_equity = ar_last_equity r, ac_last_equity_at = ar_last_equity_at r,
         ac_halt = ar_halt r, ac_resumes = ar_resumes r\<rparr>)"

definition with_version :: "account_state \<Rightarrow> 64 word \<Rightarrow> account_state" where
  "with_version s v = s\<lparr>ac_version := v\<rparr>"

definition transition_allowed :: "account_state \<Rightarrow> account_state \<Rightarrow> bool" where
  "transition_allowed old new =
     (let n = length (ac_resumes old)
      in if ac_account_id old \<noteq> ac_account_id new then False
         else if is_halt (ac_status old) \<and> may_add_risk (ac_status new)
         then length (ac_resumes new) = n + 1 \<and> ac_resumes old = take n (ac_resumes new)
         else if ac_status old = AsHalted \<and> ac_status new = AsFlattening then False
         else length (ac_resumes new) \<ge> n \<and> ac_resumes old = take n (ac_resumes new))"

text \<open>The high-water mark after a reading: kept when it is at least the equity.\<close>

definition ratchet :: "dec option \<Rightarrow> dec \<Rightarrow> dec" where
  "ratchet h equity = (case h of Some m \<Rightarrow> if dec_le equity m then m else equity | None \<Rightarrow> equity)"

definition is_new_day :: "int option \<Rightarrow> int \<Rightarrow> bool" where
  "is_new_day d day = (case d of None \<Rightarrow> True | Some r \<Rightarrow> r < day)"

definition observe_equity :: "account_state \<Rightarrow> equity_snapshot \<Rightarrow> account_state" where
  "observe_equity s snap =
     (let s1 = s\<lparr>ac_last_equity := Some (es_equity snap), ac_last_equity_at := Some (es_at snap)\<rparr>
      in if may_add_risk (ac_status s1)
         then s1\<lparr>ac_hwm := Some (ratchet (ac_hwm s1) (es_equity snap))\<rparr> else s1)"

definition observe :: "account_state \<Rightarrow> equity_snapshot \<Rightarrow> int \<Rightarrow> account_state" where
  "observe s snap day =
     (let s1 = observe_equity s snap
      in if is_new_day (ac_trading_day s1) day
         then s1\<lparr>ac_trading_day := Some day, ac_day_start_equity := Some (es_equity snap)\<rparr> else s1)"

definition observe_anchored :: "account_state \<Rightarrow> equity_snapshot \<Rightarrow> int \<Rightarrow> account_state" where
  "observe_anchored s snap max_lag_secs =
     (let s1 = observe_equity s snap; day = date_naive (es_at snap)
      in if is_new_day (ac_trading_day s1) day
         then s1\<lparr>ac_trading_day := Some day,
                 ac_day_start_equity :=
                   (if within_anchor_window (es_at snap) max_lag_secs then Some (es_equity snap) else None)\<rparr>
         else s1)"

definition observe_with :: "account_state \<Rightarrow> equity_snapshot \<Rightarrow> int \<Rightarrow> day_start_rule \<Rightarrow> account_state" where
  "observe_with s snap day rule =
     (case rule of FirstObservation \<Rightarrow> observe s snap day
      | UtcMidnight max_lag_secs \<Rightarrow> observe_anchored s snap max_lag_secs)"

definition day_start_missing :: "account_state \<Rightarrow> int \<Rightarrow> bool" where
  "day_start_missing s day \<longleftrightarrow> ac_trading_day s = Some day \<and> ac_day_start_equity s = None"

definition new_halt_record :: "account_state \<Rightarrow> halt_reason \<Rightarrow> string \<Rightarrow> int \<Rightarrow> halt_record" where
  "new_halt_record s reason detail now =
     \<lparr>hr_reason = reason, hr_at = now, hr_detail = detail, hr_equity_at_halt = ac_last_equity s,
      hr_hwm_at_halt = ac_hwm s, hr_failed_flatten_attempts = 0\<rparr>"

definition halt :: "account_state \<Rightarrow> halt_reason \<Rightarrow> string \<Rightarrow> int \<Rightarrow> account_state \<times> transition option" where
  "halt s reason detail now =
     (if is_halt (ac_status s) then (s, None)
      else (s\<lparr>ac_status := AsHalted, ac_halt := Some (new_halt_record s reason detail now)\<rparr>,
            Some \<lparr>tr_from = ac_status s, tr_to = AsHalted, tr_code = halt_reason_code reason\<rparr>))"

definition begin_flatten :: "account_state \<Rightarrow> halt_reason \<Rightarrow> string \<Rightarrow> int \<Rightarrow> account_state \<times> transition option" where
  "begin_flatten s reason detail now =
     (if is_halt (ac_status s) then (s, None)
      else (s\<lparr>ac_status := AsFlattening, ac_halt := Some (new_halt_record s reason detail now)\<rparr>,
            Some \<lparr>tr_from = ac_status s, tr_to = AsFlattening, tr_code = halt_reason_code reason\<rparr>))"

definition u32_saturating_inc :: "nat \<Rightarrow> nat" where
  "u32_saturating_inc n = min (n + 1) (2 ^ 32 - 1)"

definition complete_flatten :: "account_state \<Rightarrow> bool \<Rightarrow> account_state \<times> transition option" where
  "complete_flatten s verified_flat =
     (if ac_status s \<noteq> AsFlattening then (s, None)
      else if verified_flat
      then (s\<lparr>ac_status := AsHalted\<rparr>,
            Some \<lparr>tr_from = AsFlattening, tr_to = AsHalted,
                  tr_code = (case ac_halt s of None \<Rightarrow> ''HALT_UNKNOWN'' | Some h \<Rightarrow> halt_reason_code (hr_reason h))\<rparr>)
      else (s\<lparr>ac_halt := map_option
               (\<lambda>h. h\<lparr>hr_failed_flatten_attempts := u32_saturating_inc (hr_failed_flatten_attempts h)\<rparr>)
               (ac_halt s)\<rparr>, None))"

definition with_shrink :: "account_state \<Rightarrow> dec \<Rightarrow> nat \<Rightarrow> account_state \<times> transition option" where
  "with_shrink s scale rung =
     (if \<not> may_add_risk (ac_status s) then (s, None)
      else (s\<lparr>ac_status := AsShrunk, ac_risk_scale := scale, ac_shrink_rung := Some rung\<rparr>,
            if ac_status s \<noteq> AsShrunk
            then Some \<lparr>tr_from = ac_status s, tr_to = AsShrunk, tr_code = ''RISK_DRAWDOWN_SHRINK''\<rparr>
            else None))"

definition with_full_size :: "account_state \<Rightarrow> account_state \<times> transition option" where
  "with_full_size s =
     (if \<not> may_add_risk (ac_status s) then (s, None)
      else (s\<lparr>ac_status := AsActive, ac_risk_scale := risk_one, ac_shrink_rung := None\<rparr>,
            if ac_status s \<noteq> AsActive
            then Some \<lparr>tr_from = ac_status s, tr_to = AsActive, tr_code = ''RISK_RECOVERED''\<rparr>
            else None))"

definition resume_entry :: "human_approval \<Rightarrow> equity_snapshot \<Rightarrow> halt_record \<Rightarrow> resume_record" where
  "resume_entry approval eq h =
     \<lparr>rr_approver = ha_approver approval, rr_at = ha_at approval, rr_note = ha_note approval,
      rr_equity_at_resume = es_equity eq, rr_hwm_before = hr_hwm_at_halt h,
      rr_halt_reason = hr_reason h, rr_halted_at = hr_at h\<rparr>"

definition resume :: "account_state \<Rightarrow> human_approval \<Rightarrow> equity_snapshot \<Rightarrow> int \<Rightarrow>
    resume_error + account_state \<times> transition" where
  "resume s approval eq day =
     (case ac_status s of
        AsFlattening \<Rightarrow> Inl FlattenIncomplete
      | AsActive \<Rightarrow> Inl (NotHalted (status_as_str AsActive))
      | AsShrunk \<Rightarrow> Inl (NotHalted (status_as_str AsShrunk))
      | AsHalted \<Rightarrow>
          if \<not> is_positive (es_equity eq) then Inl (ResumeEquityInvalid (es_equity eq))
          else try_bind (ok_or (NotHalted ''halted without a halt record'') (ac_halt s)) (\<lambda>h.
            Inr (s\<lparr>ac_status := AsActive, ac_risk_scale := risk_one, ac_shrink_rung := None,
                   ac_hwm := Some (es_equity eq), ac_day_start_equity := Some (es_equity eq),
                   ac_trading_day := Some day, ac_last_equity := Some (es_equity eq),
                   ac_last_equity_at := Some (es_at eq), ac_halt := None,
                   ac_resumes := ac_resumes s @ [resume_entry approval eq h]\<rparr>,
                 \<lparr>tr_from = AsHalted, tr_to = AsActive, tr_code = ''RESUMED''\<rparr>)))"

definition all_state_codes :: "string btree_set" where
  "all_state_codes =
     bts_of_list (map halt_reason_code [HrDailyLoss, HrDrawdownLadder, HrReconciliation, HrManual, HrEquityInvalid]
       @ [''RESUMED'', ''RESUME_NOT_HALTED'', ''RESUME_FLATTEN_INCOMPLETE'', ''RESUME_EQUITY_INVALID''])"

end
