(* ===== verification/Run_View.thy ===== *)
theory Run_View
  imports Guard Risk_State
begin

text \<open>
  \<open>rebalancer-run/src/view.rs\<close>: the venue-neutral reading of a broker account and the three
  builders that turn parsed adapter responses into it. The responses the builders take
  (\<open>TradeBalance\<close>, \<open>AccountInfo\<close>, \<open>PositionInfo\<close>, \<open>AccountSummary\<close>, \<open>OandaPosition\<close>, \<open>Pricing\<close>)
  are records with the fields the builders read.
\<close>

section \<open>The snapshot\<close>

record holding =
  hd_symbol :: string
  hd_asset_class :: string
  hd_quantity :: dec
  hd_mark :: "dec option"
  hd_market_value :: dec

record unvalued_holding =
  uv_asset :: string
  uv_quantity :: dec
  uv_reason :: string

record broker_snapshot =
  bs_venue :: string
  bs_ccy :: string
  bs_equity :: dec
  bs_cash :: dec
  bs_holdings :: "holding list"
  bs_unvalued :: "unvalued_holding list"
  bs_open_orders :: "order_report list"
  bs_excluded_balances :: "unvalued_holding list"
  bs_taken_at :: int
  bs_derived_equity :: dec

definition snap_holding :: "broker_snapshot \<Rightarrow> string \<Rightarrow> holding option" where
  "snap_holding s symbol = find (\<lambda>h. eq_ignore_case (hd_symbol h) symbol) (bs_holdings s)"

definition quantity_of :: "broker_snapshot \<Rightarrow> string \<Rightarrow> dec" where
  "quantity_of s symbol = (case snap_holding s symbol of None \<Rightarrow> dec_ZERO | Some h \<Rightarrow> hd_quantity h)"

definition snap_equity :: "broker_snapshot \<Rightarrow> equity_snapshot" where
  "snap_equity s = broker_reported (bs_venue s) (bs_ccy s) (bs_equity s) (bs_taken_at s)"

definition snap_account_view :: "broker_snapshot \<Rightarrow> string \<Rightarrow> bool \<Rightarrow> int \<Rightarrow> account_view" where
  "snap_account_view s account_id halted now =
     \<lparr>av_account_id = account_id, av_ccy = bs_ccy s, av_equity = bs_equity s, av_cash = bs_cash s,
      av_positions = map (\<lambda>h. \<lparr>pos_symbol = hd_symbol h, pos_venue = bs_venue s,
        pos_asset_class = hd_asset_class h, pos_quantity = hd_quantity h,
        pos_market_value = hd_market_value h\<rparr>) (bs_holdings s),
      av_halted = halted, av_now = now\<rparr>"

datatype view_error = ViewEquityMissing | ViewAccountBlocked string | ViewOverflow string

definition view_error_code :: "view_error \<Rightarrow> string" where
  "view_error_code e =
     (case e of ViewEquityMissing \<Rightarrow> ''VIEW_EQUITY_MISSING'' | ViewAccountBlocked _ \<Rightarrow> ''VIEW_ACCOUNT_BLOCKED''
      | ViewOverflow _ \<Rightarrow> ''VIEW_ARITHMETIC_OVERFLOW'')"

text \<open>A stable sort by a string key (\<open>sort_by\<close> with \<open>cmp\<close> on the key).\<close>

definition sort_by_key :: "('a \<Rightarrow> string) \<Rightarrow> 'a list \<Rightarrow> 'a list" where
  "sort_by_key f xs = sort_key f xs"

section \<open>Kraken\<close>

record trade_balance =
  tb_equivalent_balance :: "dec option"
  tb_equity :: "dec option"

record kraken_view_input =
  kv_balances :: balances
  kv_trade_balance :: trade_balance
  kv_open_orders :: "order_report list"
  kv_marks :: "(string, dec) btree_map"
  kv_quote_asset :: string
  kv_asset_class :: string

text \<open>One balance entry: earn balances are excluded, spot balances of one asset are summed.\<close>

definition kraken_entry :: "string \<Rightarrow> (string, dec) btree_map \<times> unvalued_holding list \<Rightarrow> balance_entry \<Rightarrow>
    view_error + (string, dec) btree_map \<times> unvalued_holding list" where
  "kraken_entry quo = (\<lambda>(spots, excluded) e.
     if is_zero (be_amount e) then Inr (spots, excluded)
     else case be_kind e of
       Earn \<Rightarrow> Inr (spots, excluded @ [\<lparr>uv_asset = be_asset e, uv_quantity = be_amount e,
                 uv_reason = ''earn/staked balance '' @ be_raw_asset e @ '' is not tradable''\<rparr>])
     | Spot \<Rightarrow>
         if eq_ignore_case (be_asset e) quo then Inr (spots, excluded)
         else let key = to_upper (be_asset e);
                  entry = (case map_of spots key of Some d \<Rightarrow> d | None \<Rightarrow> dec_ZERO)
              in try_bind (map_err (\<lambda>_. ViewOverflow ''summing spot balances'') (dadd entry (be_amount e))) (\<lambda>s.
                 Inr (btm_insert key s spots, excluded)))"

definition kraken_value :: "kraken_view_input \<Rightarrow> string \<Rightarrow> dec \<times> holding list \<times> unvalued_holding list \<Rightarrow> string \<times> dec \<Rightarrow>
    view_error + dec \<times> holding list \<times> unvalued_holding list" where
  "kraken_value i quo = (\<lambda>(derived, holdings, unvalued) (asset, qty).
     let symbol = asset @ ''/'' @ quo
     in case map_of (kv_marks i) symbol of
          Some mark \<Rightarrow>
            try_bind (map_err (\<lambda>_. ViewOverflow ''valuing a holding'') (dmul qty mark)) (\<lambda>value.
            try_bind (map_err (\<lambda>_. ViewOverflow ''summing holdings'') (dadd derived value)) (\<lambda>d.
            Inr (d, holdings @ [\<lparr>hd_symbol = symbol, hd_asset_class = kv_asset_class i, hd_quantity = qty,
                                 hd_mark = Some mark, hd_market_value = value\<rparr>], unvalued)))
        | None \<Rightarrow> Inr (derived, holdings,
            unvalued @ [\<lparr>uv_asset = asset, uv_quantity = qty, uv_reason = ''no price for '' @ symbol\<rparr>]))"

definition kraken_snapshot :: "kraken_view_input \<Rightarrow> int \<Rightarrow> view_error + broker_snapshot" where
  "kraken_snapshot i now =
     (let quo = to_upper (trim (kv_quote_asset i))
      in try_bind (ok_or ViewEquityMissing
           (opt_or (tb_equity (kv_trade_balance i)) (tb_equivalent_balance (kv_trade_balance i)))) (\<lambda>equity.
         let cash = spot (kv_balances i) quo
         in try_bind (try_fold (kraken_entry quo) ([], []) (kv_balances i)) (\<lambda>(spots, excluded).
            try_bind (try_fold (kraken_value i quo) (cash, [], []) spots) (\<lambda>(derived, holdings, unvalued).
            Inr \<lparr>bs_venue = ''kraken'', bs_ccy = quo, bs_equity = equity, bs_cash = cash,
                 bs_holdings = holdings, bs_unvalued = unvalued, bs_open_orders = kv_open_orders i,
                 bs_excluded_balances = excluded, bs_taken_at = now, bs_derived_equity = derived\<rparr>))))"

section \<open>Alpaca\<close>

record account_info =
  ai_status :: string
  ai_currency :: "string option"
  ai_cash :: dec
  ai_equity :: dec
  ai_trading_blocked :: bool
  ai_account_blocked :: bool

definition blocked_reason :: "account_info \<Rightarrow> string option" where
  "blocked_reason a =
     (let why = (if ai_account_blocked a then [''account_blocked=true''] else [])
        @ (if ai_trading_blocked a then [''trading_blocked=true''] else [])
        @ (if \<not> eq_ignore_case (ai_status a) ''ACTIVE'' then [''status='' @ ai_status a] else [])
      in if why = [] then None else Some (join '', '' why))"

datatype position_side = PosLong | PosShort

record position_info =
  pi_symbol :: string
  pi_asset_class :: "string option"
  pi_qty :: dec
  pi_side :: position_side
  pi_market_value :: dec
  pi_current_price :: "dec option"

text \<open>\<open>-units\<close> wraps at the least \<open>i128\<close>, and \<open>Dec::new\<close> refuses a scale above 18.\<close>

definition signed_qty :: "position_info \<Rightarrow> dec" where
  "signed_qty p =
     (case pi_side p of
        PosLong \<Rightarrow> pi_qty p
      | PosShort \<Rightarrow> (case dec_new (wrap_i128 (- dunits (pi_qty p))) (dscale (pi_qty p)) of Inr d \<Rightarrow> d | Inl _ \<Rightarrow> pi_qty p))"

definition alpaca_snapshot :: "account_info \<Rightarrow> position_info list \<Rightarrow> order_report list \<Rightarrow> (string \<Rightarrow> string) \<Rightarrow> int \<Rightarrow>
    view_error + broker_snapshot" where
  "alpaca_snapshot account positions open_orders asset_class_of now =
     (case blocked_reason account of
        Some why \<Rightarrow> Inl (ViewAccountBlocked why)
      | None \<Rightarrow>
          let ccy = to_upper (case ai_currency account of Some c \<Rightarrow> c | None \<Rightarrow> ''USD'')
          in try_bind (try_fold (\<lambda>(derived, holdings) p.
               try_bind (map_err (\<lambda>_. ViewOverflow ''summing positions'') (dadd derived (pi_market_value p))) (\<lambda>d.
               Inr (d, holdings @ [\<lparr>hd_symbol = to_upper (pi_symbol p), hd_asset_class = asset_class_of (pi_symbol p),
                  hd_quantity = signed_qty p, hd_mark = pi_current_price p, hd_market_value = pi_market_value p\<rparr>])))
               (ai_cash account, []) positions) (\<lambda>(derived, holdings).
             Inr \<lparr>bs_venue = ''alpaca'', bs_ccy = ccy, bs_equity = ai_equity account, bs_cash = ai_cash account,
                  bs_holdings = sort_by_key hd_symbol holdings, bs_unvalued = [], bs_open_orders = open_orders,
                  bs_excluded_balances = [], bs_taken_at = now, bs_derived_equity = derived\<rparr>))"

section \<open>OANDA\<close>

record account_summary =
  as_currency :: string
  as_balance :: dec
  as_nav :: dec
  as_unrealized_pl :: dec
  as_margin_used :: dec
  as_margin_available :: dec
  as_position_value :: "dec option"
  as_margin_closeout_percent :: "dec option"
  as_margin_rate :: "dec option"
  as_open_position_count :: "nat option"
  as_pending_order_count :: "nat option"
  as_hedging_enabled :: bool

record oanda_position =
  opn_instrument :: string
  opn_long_units :: dec
  opn_short_units :: dec
  opn_unrealized_pl :: dec

definition net_units :: "oanda_position \<Rightarrow> dec" where
  "net_units p = (case checked_add (opn_long_units p) (opn_short_units p) of Some d \<Rightarrow> d | None \<Rightarrow> opn_long_units p)"

definition is_flat :: "oanda_position \<Rightarrow> bool" where
  "is_flat p \<longleftrightarrow> is_zero (opn_long_units p) \<and> is_zero (opn_short_units p)"

definition is_hedged :: "oanda_position \<Rightarrow> bool" where
  "is_hedged p \<longleftrightarrow> is_positive (opn_long_units p) \<and> is_negative (opn_short_units p)"

record price_quote =
  pq_instrument :: string
  pq_bid :: "dec option"
  pq_ask :: "dec option"
  pq_closeout_bid :: "dec option"
  pq_closeout_ask :: "dec option"

definition half_sum :: "dec \<Rightarrow> dec \<Rightarrow> dec option" where
  "half_sum b a =
     (if dec_lt a b then None
      else Option.bind (checked_add b a) (\<lambda>s.
           case dec_new 5 1 of Inl _ \<Rightarrow> None | Inr h \<Rightarrow> checked_mul s h))"

definition quote_mid :: "price_quote \<Rightarrow> dec option" where
  "quote_mid q = Option.bind (pq_bid q) (\<lambda>b. Option.bind (pq_ask q) (\<lambda>a. half_sum b a))"

definition valuation_mid :: "price_quote \<Rightarrow> dec option" where
  "valuation_mid q =
     (if pq_bid q \<noteq> None \<and> pq_ask q \<noteq> None then quote_mid q
      else Option.bind (pq_closeout_bid q) (\<lambda>b. Option.bind (pq_closeout_ask q) (\<lambda>a. half_sum b a)))"

record home_conversion =
  hc_currency :: string
  hc_position_value :: dec

record pricing =
  pc_prices :: "price_quote list"
  pc_home_conversions :: "home_conversion list"

definition pricing_price :: "pricing \<Rightarrow> string \<Rightarrow> price_quote option" where
  "pricing_price p instrument = find (\<lambda>q. pq_instrument q = instrument) (pc_prices p)"

definition pricing_conversion :: "pricing \<Rightarrow> string \<Rightarrow> home_conversion option" where
  "pricing_conversion p currency = find (\<lambda>c. eq_ignore_case (hc_currency c) currency) (pc_home_conversions p)"

record margin_info =
  mi_currency :: string
  mi_nav :: dec
  mi_balance :: dec
  mi_unrealized_pl :: dec
  mi_margin_used :: dec
  mi_margin_available :: dec
  mi_position_value :: "dec option"
  mi_margin_closeout_percent :: "dec option"
  mi_margin_rate :: "dec option"
  mi_open_position_count :: "nat option"
  mi_pending_order_count :: "nat option"

record oanda_view_input =
  ov_account :: account_summary
  ov_positions :: "oanda_position list"
  ov_open_orders :: "order_report list"
  ov_pricing :: pricing
  ov_asset_class :: string

definition oanda_factor :: "oanda_view_input \<Rightarrow> string \<Rightarrow> string \<Rightarrow> dec option" where
  "oanda_factor i ccy instrument =
     (case quote_currency instrument of
        None \<Rightarrow> None
      | Some q \<Rightarrow>
          if eq_ignore_case q ccy then Some (from_i64 1)
          else map_option hc_position_value (pricing_conversion (ov_pricing i) q))"

text \<open>
  One position. The text that prefixes an unusable instrument name is the \<open>Display\<close> of the
  adapter's error, whose prose the model leaves out.
\<close>

definition oanda_value :: "oanda_view_input \<Rightarrow> string \<Rightarrow> dec \<times> holding list \<times> unvalued_holding list \<Rightarrow> oanda_position \<Rightarrow>
    view_error + dec \<times> holding list \<times> unvalued_holding list" where
  "oanda_value i ccy = (\<lambda>(derived, holdings, unvalued) p.
     if is_hedged p
     then Inl (ViewAccountBlocked (opn_instrument p @ '': long and short units are both open (hedged position)''))
     else let net = net_units p
     in if is_zero net then Inr (derived, holdings, unvalued)
     else try_bind (map_err (\<lambda>_. ViewOverflow ''summing position P&L'') (dadd derived (opn_unrealized_pl p))) (\<lambda>d.
          try_bind (map_err (\<lambda>_. ViewAccountBlocked (opn_instrument p)) (canonical_symbol (opn_instrument p))) (\<lambda>symbol.
          let mark = Option.bind (pricing_price (ov_pricing i) (opn_instrument p)) valuation_mid;
              factor = oanda_factor i ccy (opn_instrument p)
          in case mark of
               None \<Rightarrow> Inr (d, holdings, unvalued @ [\<lparr>uv_asset = symbol, uv_quantity = net,
                 uv_reason = ''no usable price for '' @ symbol @ '' (missing, one-sided, crossed)''\<rparr>])
             | Some m \<Rightarrow>
                 (case factor of
                    None \<Rightarrow> Inr (d, holdings, unvalued @ [\<lparr>uv_asset = symbol, uv_quantity = net,
                      uv_reason = ''no conversion from the quote currency of '' @ symbol @ '' to '' @ ccy\<rparr>])
                  | Some f \<Rightarrow>
                      try_bind (map_err (\<lambda>_. ViewOverflow ''valuing a position'')
                        (try_bind (dmul net m) (\<lambda>v. dmul v f))) (\<lambda>notional.
                      Inr (d, holdings @ [\<lparr>hd_symbol = symbol, hd_asset_class = ov_asset_class i, hd_quantity = net,
                             hd_mark = Some m, hd_market_value = notional\<rparr>], unvalued))))))"

definition oanda_snapshot :: "oanda_view_input \<Rightarrow> int \<Rightarrow> view_error + broker_snapshot \<times> margin_info" where
  "oanda_snapshot i now =
     (let a = ov_account i; ccy = to_upper (trim (as_currency a))
      in if as_hedging_enabled a
         then Inl (ViewAccountBlocked ''hedgingEnabled=true: only netting accounts are supported'')
         else try_bind (try_fold (oanda_value i ccy) (as_balance a, [], []) (ov_positions i)) (\<lambda>(derived, holdings, unvalued).
           Inr (\<lparr>bs_venue = ''oanda'', bs_ccy = ccy, bs_equity = as_nav a, bs_cash = as_balance a,
                 bs_holdings = sort_by_key hd_symbol holdings, bs_unvalued = sort_by_key uv_asset unvalued,
                 bs_open_orders = ov_open_orders i, bs_excluded_balances = [], bs_taken_at = now,
                 bs_derived_equity = derived\<rparr>,
                \<lparr>mi_currency = ccy, mi_nav = as_nav a, mi_balance = as_balance a,
                 mi_unrealized_pl = as_unrealized_pl a, mi_margin_used = as_margin_used a,
                 mi_margin_available = as_margin_available a, mi_position_value = as_position_value a,
                 mi_margin_closeout_percent = as_margin_closeout_percent a, mi_margin_rate = as_margin_rate a,
                 mi_open_position_count = as_open_position_count a,
                 mi_pending_order_count = as_pending_order_count a\<rparr>)))"

end
