(* ===== verification/Recon.thy ===== *)
theory Recon
  imports Run_View
begin

text \<open>
  \<open>rebalancer-run/src/recon.rs\<close>: reconciliation of the broker's account with what is expected.
  A finding is its code, its severity and its symbol; its message, prose for a person, is left out.
\<close>

section \<open>Data\<close>

datatype recon_code =
    ForeignOrder | PositionDrift | BalanceDrift | OrderMissing | DuplicateFill | StaleView
  | EquityMismatch | ReconUnvaluedHolding | NegativeCash | NoBaseline | OwnOpenOrder

definition recon_code_as_str :: "recon_code \<Rightarrow> string" where
  "recon_code_as_str c =
     (case c of
        ForeignOrder \<Rightarrow> ''RECON_FOREIGN_ORDER'' | PositionDrift \<Rightarrow> ''RECON_POSITION_DRIFT''
      | BalanceDrift \<Rightarrow> ''RECON_BALANCE_DRIFT'' | OrderMissing \<Rightarrow> ''RECON_ORDER_MISSING''
      | DuplicateFill \<Rightarrow> ''RECON_DUPLICATE_FILL'' | StaleView \<Rightarrow> ''RECON_STALE_VIEW''
      | EquityMismatch \<Rightarrow> ''RECON_EQUITY_MISMATCH'' | ReconUnvaluedHolding \<Rightarrow> ''RECON_UNVALUED_HOLDING''
      | NegativeCash \<Rightarrow> ''RECON_NEGATIVE_CASH'' | NoBaseline \<Rightarrow> ''RECON_NO_BASELINE''
      | OwnOpenOrder \<Rightarrow> ''RECON_OWN_OPEN_ORDER'')"

datatype severity = SevInfo | SevHalt

record recon_finding =
  rf_code :: recon_code
  rf_severity :: severity
  rf_symbol :: "string option"

datatype recon_verdict = ReconOk | ReconHaltAndAlert

record recon_report =
  rr_recon_at :: int
  rr_findings :: "recon_finding list"
  rr_verdict :: recon_verdict

definition recon_has :: "recon_report \<Rightarrow> recon_code \<Rightarrow> bool" where
  "recon_has r c \<longleftrightarrow> list_ex (\<lambda>f. rf_code f = c) (rr_findings r)"

definition recon_codes :: "recon_report \<Rightarrow> string list" where
  "recon_codes r = map (\<lambda>f. recon_code_as_str (rf_code f)) (rr_findings r)"

definition halt_findings :: "recon_report \<Rightarrow> recon_finding list" where
  "halt_findings r = filter (\<lambda>f. rf_severity f = SevHalt) (rr_findings r)"

record recon_tolerances =
  rt_value_abs :: dec
  rt_equity_pct :: dec
  rt_derived_equity_pct :: dec
  rt_max_view_age_secs :: int
  rt_max_future_skew_secs :: int

definition recon_default_tolerances :: recon_tolerances where
  "recon_default_tolerances =
     \<lparr>rt_value_abs = from_i64 1,
      rt_equity_pct = (case dec_new 1 3 of Inr d \<Rightarrow> d | Inl _ \<Rightarrow> dec_ZERO),
      rt_derived_equity_pct = (case dec_new 1 2 of Inr d \<Rightarrow> d | Inl _ \<Rightarrow> dec_ZERO),
      rt_max_view_age_secs = 120, rt_max_future_skew_secs = 5\<rparr>"

definition threshold :: "recon_tolerances \<Rightarrow> dec \<Rightarrow> dec \<Rightarrow> dec" where
  "threshold t equity pct =
     (case dmul pct equity of
        Inr p \<Rightarrow> if dec_lt (rt_value_abs t) p then p else rt_value_abs t
      | Inl _ \<Rightarrow> rt_value_abs t)"

record recon_baseline =
  rb_cash :: dec
  rb_holdings :: "(string, dec) btree_map"
  rb_marks :: "(string, dec) btree_map"

record expected_order =
  eo_tag :: string
  eo_symbol :: string
  eo_side :: side
  eo_planned_quantity :: dec
  eo_broker_order_id :: "string option"
  eo_reports :: "order_report list"
  eo_anomalies :: "string list"
  eo_expect_exists :: bool

text \<open>The first report of each broker order id.\<close>

fun first_by_id :: "string btree_set \<Rightarrow> order_report list \<Rightarrow> order_report list" where
  "first_by_id seen [] = []"
| "first_by_id seen (r # rs) =
     (if or_broker_order_id r \<in> set seen then first_by_id seen rs
      else r # first_by_id (bts_insert (or_broker_order_id r) seen) rs)"

definition unique_reports :: "expected_order \<Rightarrow> order_report list" where
  "unique_reports ex = first_by_id [] (eo_reports ex)"

definition baseline_from_snapshot :: "broker_snapshot \<Rightarrow> recon_baseline" where
  "baseline_from_snapshot s =
     \<lparr>rb_cash = bs_cash s,
      rb_holdings = foldl (\<lambda>m h. btm_insert (to_upper (hd_symbol h)) (hd_quantity h) m) [] (bs_holdings s),
      rb_marks = foldl (\<lambda>m h. case hd_mark h of Some k \<Rightarrow> btm_insert (to_upper (hd_symbol h)) k m | None \<Rightarrow> m)
        [] (bs_holdings s)\<rparr>"

section \<open>The baseline after our own orders\<close>

definition res_opt :: "'e + 'a \<Rightarrow> 'a option" where
  "res_opt r = (case r of Inl _ \<Rightarrow> None | Inr x \<Rightarrow> Some x)"

definition report_cost :: "order_report \<Rightarrow> dec option" where
  "report_cost r =
     (case or_cost r of
        Some c \<Rightarrow> Some c
      | None \<Rightarrow> (case or_avg_price r of Some p \<Rightarrow> res_opt (dmul (or_executed_quantity r) p) | None \<Rightarrow> None))"

text \<open>One fill: a buy adds the quantity and spends cost and fee; a sell removes it and receives cost less fee.\<close>

definition apply_fill :: "side \<Rightarrow> string \<Rightarrow> order_report \<Rightarrow> recon_baseline \<Rightarrow> recon_baseline option" where
  "apply_fill sd symbol r b =
     Option.bind (report_cost r) (\<lambda>cost.
     let fee = (case or_fee r of Some f \<Rightarrow> f | None \<Rightarrow> dec_ZERO);
         sy = to_upper symbol;
         q = (case map_of (rb_holdings b) sy of Some x \<Rightarrow> x | None \<Rightarrow> dec_ZERO)
     in case sd of
          Buy \<Rightarrow>
            Option.bind (res_opt (dadd q (or_executed_quantity r))) (\<lambda>q'.
            Option.bind (res_opt (dadd cost fee)) (\<lambda>spent.
            Option.bind (res_opt (dsub (rb_cash b) spent)) (\<lambda>cash.
            Some (b\<lparr>rb_holdings := btm_insert sy q' (rb_holdings b), rb_cash := cash\<rparr>))))
        | Sell \<Rightarrow>
            Option.bind (res_opt (dsub q (or_executed_quantity r))) (\<lambda>q'.
            Option.bind (res_opt (dsub cost fee)) (\<lambda>received.
            Option.bind (res_opt (dadd (rb_cash b) received)) (\<lambda>cash.
            Some (b\<lparr>rb_holdings := btm_insert sy q' (rb_holdings b), rb_cash := cash\<rparr>)))))"

fun after_reports :: "side \<Rightarrow> string \<Rightarrow> order_report list \<Rightarrow> string btree_set \<times> recon_baseline \<Rightarrow>
    (string btree_set \<times> recon_baseline) option" where
  "after_reports sd symbol [] st = Some st"
| "after_reports sd symbol (r # rs) (seen, b) =
     (if or_broker_order_id r \<in> set seen then after_reports sd symbol rs (seen, b)
      else let seen' = bts_insert (or_broker_order_id r) seen
           in if \<not> is_positive (or_executed_quantity r) then after_reports sd symbol rs (seen', b)
              else Option.bind (apply_fill sd symbol r b) (\<lambda>b'. after_reports sd symbol rs (seen', b')))"

fun after_orders_from :: "expected_order list \<Rightarrow> string btree_set \<times> recon_baseline \<Rightarrow> (string btree_set \<times> recon_baseline) option" where
  "after_orders_from [] st = Some st"
| "after_orders_from (ex # os) st =
     Option.bind (after_reports (eo_side ex) (eo_symbol ex) (unique_reports ex) st) (after_orders_from os)"

definition after_orders :: "recon_baseline \<Rightarrow> expected_order list \<Rightarrow> recon_baseline option" where
  "after_orders b orders = map_option snd (after_orders_from orders ([], b))"

section \<open>The checks\<close>

definition OWN_TAG_PREFIX :: string where "OWN_TAG_PREFIX = ''rb1:''"

text \<open>\<open>is_own_order\<close> of \<open>broker.rs\<close>.\<close>

definition is_own_order :: "order_report \<Rightarrow> string btree_set \<Rightarrow> bool" where
  "is_own_order r known \<longleftrightarrow>
     (case or_tag r of Some t \<Rightarrow> starts_with OWN_TAG_PREFIX t | None \<Rightarrow> False) \<or> or_broker_order_id r \<in> set known"

record recon_input =
  ri_view :: broker_snapshot
  ri_now :: int
  ri_known_order_ids :: "string btree_set"
  ri_baseline :: "recon_baseline option"
  ri_orders :: "expected_order list"
  ri_tolerances :: recon_tolerances

definition finding :: "recon_code \<Rightarrow> severity \<Rightarrow> string option \<Rightarrow> recon_finding" where
  "finding c s sy = \<lparr>rf_code = c, rf_severity = s, rf_symbol = sy\<rparr>"

definition abs_gap :: "dec \<Rightarrow> dec \<Rightarrow> math_error + dec" where
  "abs_gap a b = try_bind (dsub a b) dabs"

definition check_stale :: "recon_input \<Rightarrow> recon_finding list" where
  "check_stale i =
     (let age = ri_now i - bs_taken_at (ri_view i); tol = ri_tolerances i
      in if age > rt_max_view_age_secs tol * ns_per_sec then [finding StaleView SevHalt None]
         else if age < - rt_max_future_skew_secs tol * ns_per_sec then [finding StaleView SevHalt None]
         else [])"

definition check_open_order :: "string btree_set \<Rightarrow> order_report \<Rightarrow> recon_finding" where
  "check_open_order known r =
     (if is_own_order r known then finding OwnOpenOrder SevInfo (Some (or_symbol r))
      else finding ForeignOrder SevHalt (Some (or_symbol r)))"

definition check_equity :: "broker_snapshot \<Rightarrow> recon_tolerances \<Rightarrow> recon_finding list" where
  "check_equity v tol =
     (case abs_gap (bs_equity v) (bs_derived_equity v) of
        Inr gap \<Rightarrow>
          if dec_lt (threshold tol (bs_equity v) (rt_derived_equity_pct tol)) gap
          then [finding EquityMismatch SevHalt None] else []
      | Inl _ \<Rightarrow> [finding EquityMismatch SevHalt None])"

definition check_symbol_drift :: "broker_snapshot \<Rightarrow> recon_baseline \<Rightarrow> dec \<Rightarrow> string \<Rightarrow> recon_finding list" where
  "check_symbol_drift v b limit sy =
     (let actual = quantity_of v sy;
          expected = (case map_of (rb_holdings b) sy of Some x \<Rightarrow> x | None \<Rightarrow> dec_ZERO)
      in case abs_gap actual expected of
           Inl _ \<Rightarrow> [finding PositionDrift SevHalt (Some sy)]
         | Inr delta \<Rightarrow>
             if is_zero delta then []
             else case opt_or (Option.bind (snap_holding v sy) hd_mark) (map_of (rb_marks b) sy) of
                    Some m \<Rightarrow>
                      (case dmul delta m of
                         Inr value \<Rightarrow> if dec_lt limit value then [finding PositionDrift SevHalt (Some sy)] else []
                       | Inl _ \<Rightarrow> [finding PositionDrift SevHalt (Some sy)])
                  | None \<Rightarrow> [finding PositionDrift SevHalt (Some sy)])"

definition drift_symbols :: "broker_snapshot \<Rightarrow> recon_baseline \<Rightarrow> string btree_set" where
  "drift_symbols v b = bts_of_list (map fst (rb_holdings b) @ map (\<lambda>h. to_upper (hd_symbol h)) (bs_holdings v))"

definition check_drift :: "broker_snapshot \<Rightarrow> recon_baseline \<Rightarrow> recon_tolerances \<Rightarrow> recon_finding list" where
  "check_drift v b tol =
     (let limit = threshold tol (bs_equity v) (rt_equity_pct tol)
      in (case abs_gap (bs_cash v) (rb_cash b) of
            Inr d \<Rightarrow> if dec_lt limit d then [finding BalanceDrift SevHalt None] else []
          | Inl _ \<Rightarrow> [finding BalanceDrift SevHalt None])
         @ concat (map (check_symbol_drift v b limit) (drift_symbols v b)))"

text \<open>The sum of executed quantities: an addition that overflows leaves the total.\<close>

definition add_or_keep :: "dec \<Rightarrow> dec \<Rightarrow> dec" where
  "add_or_keep acc d = (case dadd acc d of Inr s \<Rightarrow> s | Inl _ \<Rightarrow> acc)"

definition executed_sum :: "order_report list \<Rightarrow> dec" where
  "executed_sum rs = foldl (\<lambda>acc r. add_or_keep acc (or_executed_quantity r)) dec_ZERO rs"

definition recon_check_order :: "expected_order \<Rightarrow> recon_finding list" where
  "recon_check_order ex =
     (if \<not> eo_expect_exists ex then []
      else let sy = Some (eo_symbol ex); reports = unique_reports ex
      in map (\<lambda>_. finding DuplicateFill SevHalt sy) (eo_anomalies ex)
         @ (if reports = []
            then case eo_broker_order_id ex of
                   Some _ \<Rightarrow> [finding OrderMissing SevHalt sy]
                 | None \<Rightarrow> if eo_anomalies ex = [] then [finding OrderMissing SevInfo sy] else []
            else let filled = length (filter (\<lambda>r. is_positive (or_executed_quantity r)) reports)
            in map (\<lambda>_. finding DuplicateFill SevHalt sy)
                 (filter (\<lambda>r. dec_lt (or_quantity r) (or_executed_quantity r)) reports)
               @ (if filled > 1 then [finding DuplicateFill SevHalt sy]
                  else if dec_lt (eo_planned_quantity ex) (executed_sum reports)
                  then [finding DuplicateFill SevHalt sy] else [])))"

definition recon_check :: "recon_input \<Rightarrow> recon_finding list" where
  "recon_check i =
     (let v = ri_view i; tol = ri_tolerances i
      in check_stale i
         @ map (check_open_order (ri_known_order_ids i)) (bs_open_orders v)
         @ map (\<lambda>u. finding ReconUnvaluedHolding SevHalt (Some (uv_asset u))) (bs_unvalued v)
         @ (if is_negative (bs_cash v) then [finding NegativeCash SevHalt None] else [])
         @ check_equity v tol
         @ (case ri_baseline i of
              None \<Rightarrow> [finding NoBaseline SevInfo None]
            | Some b \<Rightarrow> check_drift v b tol)
         @ concat (map recon_check_order (ri_orders i)))"

definition reconcile :: "recon_input \<Rightarrow> recon_report" where
  "reconcile i =
     (let findings = recon_check i
      in \<lparr>rr_recon_at = ri_now i, rr_findings = findings,
          rr_verdict = (if list_ex (\<lambda>f. rf_severity f = SevHalt) findings then ReconHaltAndAlert else ReconOk)\<rparr>)"

section \<open>What an OK verdict means\<close>

definition quiet :: "recon_finding list \<Rightarrow> bool" where
  "quiet fs \<longleftrightarrow> (\<forall>f\<in>set fs. rf_severity f \<noteq> SevHalt)"

lemma quiet_simps [simp]:
  "quiet []" "quiet (f # fs) \<longleftrightarrow> rf_severity f \<noteq> SevHalt \<and> quiet fs" "quiet (fs @ gs) \<longleftrightarrow> quiet fs \<and> quiet gs"
  "quiet (concat fss) \<longleftrightarrow> (\<forall>fs\<in>set fss. quiet fs)" "quiet (map g xs) \<longleftrightarrow> (\<forall>x\<in>set xs. rf_severity (g x) \<noteq> SevHalt)"
  by (auto simp: quiet_def)

lemma finding_severity [simp]: "rf_severity (finding c s x) = s"
  by (simp add: finding_def)

lemma reconcile_ok: "rr_verdict (reconcile i) = ReconOk \<longleftrightarrow> quiet (recon_check i)"
  by (auto simp: reconcile_def quiet_def list_ex_iff Let_def)

lemma abs_gap_val: "abs_gap a b = Inr g \<Longrightarrow> dec_ok a \<Longrightarrow> dval g = \<bar>dval a - dval b\<bar> \<and> dec_ok g"
  using dsub_ok [of a b] by (auto simp: abs_gap_def try_bind_Inr dabs_val dsub_val intro: dabs_ok)

text \<open>The tolerance over the values: the larger of the floor and the share of equity.\<close>

definition allowed_gap :: "recon_tolerances \<Rightarrow> rat \<Rightarrow> rat \<Rightarrow> rat" where
  "allowed_gap t equity pct = max (dval (rt_value_abs t)) (floor_dp 18 (pct * equity))"

definition tolerances_ok :: "recon_tolerances \<Rightarrow> bool" where
  "tolerances_ok t \<longleftrightarrow> dec_ok (rt_value_abs t) \<and> dec_ok (rt_equity_pct t) \<and> dec_ok (rt_derived_equity_pct t)"

lemma threshold_val:
  "tolerances_ok t \<Longrightarrow> dec_ok e \<Longrightarrow> dec_ok p \<Longrightarrow> dec_ok (threshold t e p) \<and> dval (threshold t e p) \<le> allowed_gap t (dval e) (dval p)"
  by (auto simp: threshold_def allowed_gap_def tolerances_ok_def dec_order dmul_val dest: dmul_ok split: sum.splits)

definition snapshot_ok :: "broker_snapshot \<Rightarrow> bool" where
  "snapshot_ok v \<longleftrightarrow> dec_ok (bs_equity v) \<and> dec_ok (bs_derived_equity v) \<and> dec_ok (bs_cash v) \<and>
     (\<forall>h\<in>set (bs_holdings v). dec_ok (hd_quantity h) \<and> pred_option dec_ok (hd_mark h))"

definition baseline_ok :: "recon_baseline \<Rightarrow> bool" where
  "baseline_ok b \<longleftrightarrow> dec_ok (rb_cash b) \<and> (\<forall>x\<in>snd ` set (rb_marks b). dec_ok x)"

lemma quantity_of_ok: "snapshot_ok v \<Longrightarrow> dec_ok (quantity_of v s)"
  by (auto simp: quantity_of_def snap_holding_def snapshot_ok_def dest!: find_Some_mem split: option.splits)

lemma check_stale_quiet:
  "quiet (check_stale i) \<longleftrightarrow>
     - rt_max_future_skew_secs (ri_tolerances i) * ns_per_sec \<le> ri_now i - bs_taken_at (ri_view i) \<and>
     ri_now i - bs_taken_at (ri_view i) \<le> rt_max_view_age_secs (ri_tolerances i) * ns_per_sec"
  by (auto simp: check_stale_def Let_def)

lemma check_equity_quiet:
  "quiet (check_equity v t) \<Longrightarrow> snapshot_ok v \<Longrightarrow> tolerances_ok t \<Longrightarrow>
   \<bar>dval (bs_equity v) - dval (bs_derived_equity v)\<bar> \<le> allowed_gap t (dval (bs_equity v)) (dval (rt_derived_equity_pct t))"
  using threshold_val [of t "bs_equity v" "rt_derived_equity_pct t"]
  by (auto simp: check_equity_def snapshot_ok_def tolerances_ok_def dec_order dest!: abs_gap_val split: sum.splits if_splits)

definition expected_qty :: "recon_baseline \<Rightarrow> string \<Rightarrow> dec" where
  "expected_qty b s = (case map_of (rb_holdings b) s of Some x \<Rightarrow> x | None \<Rightarrow> dec_ZERO)"

definition known_mark :: "broker_snapshot \<Rightarrow> recon_baseline \<Rightarrow> string \<Rightarrow> dec option" where
  "known_mark v b s = opt_or (Option.bind (snap_holding v s) hd_mark) (map_of (rb_marks b) s)"

lemma known_mark_ok: "snapshot_ok v \<Longrightarrow> baseline_ok b \<Longrightarrow> known_mark v b s = Some m \<Longrightarrow> dec_ok m"
  by (force simp: known_mark_def opt_or_def snap_holding_def snapshot_ok_def baseline_ok_def
      dest!: find_Some_mem map_of_SomeD split: option.splits bind_splits)

lemma check_symbol_drift_quiet:
  assumes "quiet (check_symbol_drift v b limit s)" and v: "snapshot_ok v" and b: "baseline_ok b" and l: "dec_ok limit"
  shows "dval (quantity_of v s) = dval (expected_qty b s) \<or>
    (\<exists>m. known_mark v b s = Some m \<and>
      floor_dp 18 (\<bar>dval (quantity_of v s) - dval (expected_qty b s)\<bar> * dval m) \<le> dval limit)"
proof -
  obtain d where d: "abs_gap (quantity_of v s) (expected_qty b s) = Inr d"
    using assms(1) by (auto simp: check_symbol_drift_def expected_qty_def Let_def split: sum.splits)
  note dv = abs_gap_val [OF d quantity_of_ok [OF v]]
  show ?thesis
  proof (cases "is_zero d")
    case True
    then show ?thesis using dv by (simp add: is_zero_def dval_def)
  next
    case False
    with assms(1) d obtain m val where m: "known_mark v b s = Some m" "dmul d m = Inr val" "\<not> dec_lt limit val"
      by (auto simp: check_symbol_drift_def expected_qty_def known_mark_def Let_def split: option.splits sum.splits if_splits)
    have "dec_ok val" "dval val = floor_dp 18 (dval d * dval m)"
      using dmul_ok [OF m(2)] dmul_val [OF m(2)] dv known_mark_ok [OF v b m(1)] by simp_all
    with m l dv show ?thesis by (simp add: dec_order)
  qed
qed

lemma check_drift_quiet:
  assumes "quiet (check_drift v b t)" and v: "snapshot_ok v" and b: "baseline_ok b" and t: "tolerances_ok t"
  defines "L \<equiv> allowed_gap t (dval (bs_equity v)) (dval (rt_equity_pct t))"
  shows "\<bar>dval (bs_cash v) - dval (rb_cash b)\<bar> \<le> L"
    and "s \<in> set (drift_symbols v b) \<Longrightarrow> dval (quantity_of v s) = dval (expected_qty b s) \<or>
      (\<exists>m. known_mark v b s = Some m \<and> floor_dp 18 (\<bar>dval (quantity_of v s) - dval (expected_qty b s)\<bar> * dval m) \<le> L)"
proof -
  let ?l = "threshold t (bs_equity v) (rt_equity_pct t)"
  have l: "dec_ok ?l" "dval ?l \<le> L"
    using threshold_val [OF t, of "bs_equity v" "rt_equity_pct t"] v t by (auto simp: snapshot_ok_def tolerances_ok_def L_def)
  show "\<bar>dval (bs_cash v) - dval (rb_cash b)\<bar> \<le> L"
    using assms(1) l v by (auto simp: check_drift_def snapshot_ok_def dec_order Let_def dest!: abs_gap_val split: sum.splits if_splits)
  show "dval (quantity_of v s) = dval (expected_qty b s) \<or>
      (\<exists>m. known_mark v b s = Some m \<and> floor_dp 18 (\<bar>dval (quantity_of v s) - dval (expected_qty b s)\<bar> * dval m) \<le> L)"
    if "s \<in> set (drift_symbols v b)"
  proof -
    have "quiet (check_symbol_drift v b ?l s)" using assms(1) that by (simp add: check_drift_def Let_def)
    from check_symbol_drift_quiet [OF this v b l(1)] l(2) show ?thesis by force
  qed
qed

lemma recon_check_order_quiet:
  assumes "quiet (recon_check_order ex)" and "eo_expect_exists ex"
  shows "eo_anomalies ex = []"
    and "eo_broker_order_id ex \<noteq> None \<Longrightarrow> unique_reports ex \<noteq> []"
    and "r \<in> set (unique_reports ex) \<Longrightarrow> \<not> dec_lt (or_quantity r) (or_executed_quantity r)"
    and "length (filter (\<lambda>r. is_positive (or_executed_quantity r)) (unique_reports ex)) \<le> 1"
    and "unique_reports ex \<noteq> [] \<Longrightarrow> \<not> dec_lt (eo_planned_quantity ex) (executed_sum (unique_reports ex))"
  using assms by (auto simp: recon_check_order_def Let_def filter_empty_conv split: if_splits option.splits)

text \<open>What the snapshot and the baseline say of a symbol, read off their lists; what neither lists is not held.\<close>

definition position_of :: "broker_snapshot \<Rightarrow> string \<Rightarrow> rat" where
  "position_of v s =
     (case filter (\<lambda>h. to_upper (hd_symbol h) = to_upper s) (bs_holdings v) of [] \<Rightarrow> 0 | h # _ \<Rightarrow> dval (hd_quantity h))"

definition baseline_position :: "recon_baseline \<Rightarrow> string \<Rightarrow> rat" where
  "baseline_position b s = (case map_of (rb_holdings b) s of None \<Rightarrow> 0 | Some d \<Rightarrow> dval d)"

lemma find_filter: "find P xs = (case filter P xs of [] \<Rightarrow> None | x # _ \<Rightarrow> Some x)"
  by (induction xs) auto

lemma position_of_eq: "dval (quantity_of v s) = position_of v s"
  by (simp add: quantity_of_def snap_holding_def position_of_def find_filter eq_ignore_case_upper split: list.split)

lemma baseline_position_eq: "dval (expected_qty b s) = baseline_position b s"
  by (simp add: expected_qty_def baseline_position_def split: option.split)

lemma unlisted_position:
  assumes "s \<notin> set (drift_symbols v b)" and "to_upper s = s"
  shows "position_of v s = baseline_position b s"
proof -
  have "filter (\<lambda>h. to_upper (hd_symbol h) = to_upper s) (bs_holdings v) = []"
    using assms by (auto simp: drift_symbols_def filter_empty_conv)
  moreover have "map_of (rb_holdings b) s = None" using assms(1) by (simp add: drift_symbols_def map_of_eq_None_iff)
  ultimately show ?thesis by (simp add: position_of_def baseline_position_def)
qed

text \<open>
  C25: when reconciliation says OK, the account is explained. The reading is fresh, every open order is
  ours, nothing held is without a price, cash is not negative and the broker's equity agrees with cash
  plus holdings within the tolerance. When there is a baseline, cash agrees with it within the tolerance,
  and so does the position in every symbol, whether the account, the baseline, both or neither list it
  (a difference is judged at the known mark). Of every order that was really sent there is no
  anomaly, no report shows more executed than ordered, at most one order under its tag filled, and
  an accepted one is still known to the broker.
\<close>

theorem reconcile_ok_explained:
  assumes ok: "rr_verdict (reconcile i) = ReconOk"
    and v: "snapshot_ok (ri_view i)" and t: "tolerances_ok (ri_tolerances i)"
    and b: "\<forall>x. ri_baseline i = Some x \<longrightarrow> baseline_ok x"
  defines "v \<equiv> ri_view i" and "tol \<equiv> ri_tolerances i"
  shows "- rt_max_future_skew_secs tol * ns_per_sec \<le> ri_now i - bs_taken_at v
    \<and> ri_now i - bs_taken_at v \<le> rt_max_view_age_secs tol * ns_per_sec
    \<and> (\<forall>r\<in>set (bs_open_orders v). is_own_order r (ri_known_order_ids i))
    \<and> bs_unvalued v = [] \<and> 0 \<le> dval (bs_cash v)
    \<and> \<bar>dval (bs_equity v) - dval (bs_derived_equity v)\<bar>
        \<le> allowed_gap tol (dval (bs_equity v)) (dval (rt_derived_equity_pct tol))
    \<and> (\<forall>bl. ri_baseline i = Some bl \<longrightarrow>
        \<bar>dval (bs_cash v) - dval (rb_cash bl)\<bar> \<le> allowed_gap tol (dval (bs_equity v)) (dval (rt_equity_pct tol))
        \<and> (\<forall>s. to_upper s = s \<or> s \<in> fst ` set (rb_holdings bl) \<longrightarrow> position_of v s = baseline_position bl s \<or>
             (\<exists>m. known_mark v bl s = Some m \<and>
               floor_dp 18 (\<bar>position_of v s - baseline_position bl s\<bar> * dval m)
                 \<le> allowed_gap tol (dval (bs_equity v)) (dval (rt_equity_pct tol)))))
    \<and> (\<forall>ex\<in>set (ri_orders i). eo_expect_exists ex \<longrightarrow> eo_anomalies ex = []
        \<and> (\<forall>r\<in>set (unique_reports ex). \<not> dec_lt (or_quantity r) (or_executed_quantity r))
        \<and> length (filter (\<lambda>r. is_positive (or_executed_quantity r)) (unique_reports ex)) \<le> 1
        \<and> (eo_broker_order_id ex \<noteq> None \<longrightarrow> unique_reports ex \<noteq> []))"
proof -
  have q: "quiet (check_stale i)" "\<forall>r\<in>set (bs_open_orders v). rf_severity (check_open_order (ri_known_order_ids i) r) \<noteq> SevHalt"
    "bs_unvalued v = []" "\<not> is_negative (bs_cash v)" "quiet (check_equity v tol)"
    "\<And>bl. ri_baseline i = Some bl \<Longrightarrow> quiet (check_drift v bl tol)"
    "\<forall>ex\<in>set (ri_orders i). quiet (recon_check_order ex)"
    using ok unfolding reconcile_ok by (auto simp: recon_check_def Let_def v_def tol_def split: if_splits option.splits)
  have own: "\<forall>r\<in>set (bs_open_orders v). is_own_order r (ri_known_order_ids i)"
    using q(2) by (auto simp: check_open_order_def split: if_splits)
  have cash: "0 \<le> dval (bs_cash v)" using q(4) by (simp add: dval_sign not_less)
  note v' = v [folded v_def] and t' = t [folded tol_def]
  have drift: "\<And>bl. ri_baseline i = Some bl \<Longrightarrow> baseline_ok bl" using b by blast
  have position: "position_of v s = baseline_position bl s \<or> (\<exists>m. known_mark v bl s = Some m \<and>
      floor_dp 18 (\<bar>position_of v s - baseline_position bl s\<bar> * dval m) \<le> allowed_gap tol (dval (bs_equity v)) (dval (rt_equity_pct tol)))"
    if bl: "ri_baseline i = Some bl" and s: "to_upper s = s \<or> s \<in> fst ` set (rb_holdings bl)" for bl s
  proof (cases "s \<in> set (drift_symbols v bl)")
    case True
    from check_drift_quiet(2) [OF q(6) [OF bl] v' drift [OF bl] t' True] show ?thesis
      unfolding position_of_eq baseline_position_eq .
  next
    case False
    with s have "to_upper s = s" by (auto simp: drift_symbols_def)
    with unlisted_position [OF False] show ?thesis by simp
  qed
  show ?thesis
    using q(1) [unfolded check_stale_quiet] own q(3) cash check_equity_quiet [OF q(5) v' t']
      check_drift_quiet(1) [OF q(6) v' drift t'] position recon_check_order_quiet(1-4) [OF bspec [OF q(7)]]
    unfolding v_def tol_def by blast
qed

definition example_snapshot :: broker_snapshot where
  "example_snapshot =
     \<lparr>bs_venue = ''k'', bs_ccy = ''USD'', bs_equity = Dec 100 0, bs_cash = Dec 50 0,
      bs_holdings = [\<lparr>hd_symbol = ''B'', hd_asset_class = ''c'', hd_quantity = Dec 2 0, hd_mark = Some (Dec 25 0),
        hd_market_value = Dec 50 0\<rparr>],
      bs_unvalued = [], bs_open_orders = [], bs_excluded_balances = [], bs_taken_at = 0, bs_derived_equity = Dec 100 0\<rparr>"

definition example_report :: order_report where
  "example_report =
     \<lparr>or_broker_order_id = ''1'', or_userref = None, or_tag = Some ''rb1:x'', or_symbol = ''B'', or_side = Some Buy,
      or_kind = Some Market, or_status = Filled, or_raw_status = ''f'', or_reason = None, or_quantity = Dec 2 0,
      or_executed_quantity = Dec 2 0, or_avg_price = Some (Dec 25 0), or_cost = Some (Dec 50 0), or_fee = None\<rparr>"

definition example_recon :: recon_input where
  "example_recon =
     \<lparr>ri_view = example_snapshot, ri_now = 0, ri_known_order_ids = [],
      ri_baseline = after_orders \<lparr>rb_cash = Dec 100 0, rb_holdings = [], rb_marks = []\<rparr>
        [\<lparr>eo_tag = ''rb1:x'', eo_symbol = ''B'', eo_side = Buy, eo_planned_quantity = Dec 2 0,
          eo_broker_order_id = Some ''1'', eo_reports = [example_report], eo_anomalies = [], eo_expect_exists = True\<rparr>],
      ri_orders = [\<lparr>eo_tag = ''rb1:x'', eo_symbol = ''B'', eo_side = Buy, eo_planned_quantity = Dec 2 0,
          eo_broker_order_id = Some ''1'', eo_reports = [example_report], eo_anomalies = [], eo_expect_exists = True\<rparr>],
      ri_tolerances = recon_default_tolerances\<rparr>"

definition example_after :: recon_baseline where
  "example_after = \<lparr>rb_cash = Dec 50 0, rb_holdings = [(''B'', Dec 2 0)], rb_marks = []\<rparr>"

lemma example_recon_baseline: "ri_baseline example_recon = Some example_after"
  by code_simp

theorem reconcile_ok_explained_witness:
  "rr_verdict (reconcile example_recon) = ReconOk \<and>
   \<bar>dval (bs_equity example_snapshot) - dval (bs_derived_equity example_snapshot)\<bar>
     \<le> allowed_gap recon_default_tolerances 100 (1 / 100) \<and>
   (position_of example_snapshot ''B'' = baseline_position example_after ''B'' \<or>
     (\<exists>m. known_mark example_snapshot example_after ''B'' = Some m \<and>
       floor_dp 18 (\<bar>position_of example_snapshot ''B'' - baseline_position example_after ''B''\<bar> * dval m)
         \<le> allowed_gap recon_default_tolerances 100 (1 / 1000)))"
proof -
  have ok: "rr_verdict (reconcile example_recon) = ReconOk" by code_simp
  have v: "snapshot_ok (ri_view example_recon)"
    by (simp add: snapshot_ok_def example_recon_def example_snapshot_def dec_ok_def in_i128_bound)
  have t: "tolerances_ok (ri_tolerances example_recon)"
    by (simp add: tolerances_ok_def example_recon_def) code_simp
  have b: "\<forall>x. ri_baseline example_recon = Some x \<longrightarrow> baseline_ok x"
    by (simp add: example_recon_baseline example_after_def baseline_ok_def dec_ok_def in_i128_bound)
  have e: "dval (rt_derived_equity_pct recon_default_tolerances) = 1 / 100" "dval (rt_equity_pct recon_default_tolerances) = 1 / 1000"
      "dval (bs_equity example_snapshot) = 100"
    by (simp_all add: recon_default_tolerances_def dec_new_def MAX_SCALE_def dval_def example_snapshot_def)
  have r: "ri_view example_recon = example_snapshot" "ri_tolerances example_recon = recon_default_tolerances"
    by (simp_all add: example_recon_def)
  have "''B'' \<in> fst ` set (rb_holdings example_after)" by (simp add: example_after_def)
  with reconcile_ok_explained [OF ok v t b] ok example_recon_baseline show ?thesis unfolding r e by blast
qed

end
