(* ===== verification/State_Logic.thy ===== *)
theory State_Logic
  imports Main "HOL-Library.State_Monad"
begin

text \<open>
  Stateful code is written in the state monad of the library. This theory has the two combinators
  the source's methods need beside it, and a small logic of before-and-after assertions: \<open>leads\<close>
  relates the states before and after a computation, \<open>keeps\<close> is its special case for an invariant.
\<close>

section \<open>Combinators\<close>

definition change :: "('s \<Rightarrow> 's) \<Rightarrow> ('s, unit) state" where
  "change f = State (\<lambda>s. ((), f s))"

fun for_each :: "('a \<Rightarrow> ('s, unit) state) \<Rightarrow> 'a list \<Rightarrow> ('s, unit) state" where
  "for_each f [] = State_Monad.return ()"
| "for_each f (x # xs) = State_Monad.bind (f x) (\<lambda>_. for_each f xs)"

section \<open>Assertions\<close>

definition leads :: "('s \<Rightarrow> bool) \<Rightarrow> ('s, 'a) state \<Rightarrow> ('s \<Rightarrow> bool) \<Rightarrow> bool" where
  "leads P m Q \<longleftrightarrow> (\<forall>s. P s \<longrightarrow> Q (snd (run_state m s)))"

abbreviation keeps :: "('s \<Rightarrow> bool) \<Rightarrow> ('s, 'a) state \<Rightarrow> bool" where
  "keeps I m \<equiv> leads I m I"

named_theorems keeps_intros \<open>composition rules of keeps\<close>

lemma leads_return: "(\<And>s. P s \<Longrightarrow> Q s) \<Longrightarrow> leads P (State_Monad.return x) Q"
  by (simp add: leads_def)

lemma leads_bind: "leads P m R \<Longrightarrow> (\<And>x. leads R (f x) Q) \<Longrightarrow> leads P (State_Monad.bind m f) Q"
  by (fastforce simp: leads_def split: prod.splits)

lemma leads_get: "(\<And>s. P s \<Longrightarrow> leads (\<lambda>t. P t \<and> t = s) (f s) Q) \<Longrightarrow> leads P (State_Monad.bind State_Monad.get f) Q"
  by (simp add: leads_def)

lemma leads_change: "(\<And>s. P s \<Longrightarrow> Q (f s)) \<Longrightarrow> leads P (change f) Q"
  by (simp add: leads_def change_def)

lemma leads_mono: "leads P m Q \<Longrightarrow> (\<And>s. P' s \<Longrightarrow> P s) \<Longrightarrow> (\<And>s. Q s \<Longrightarrow> Q' s) \<Longrightarrow> leads P' m Q'"
  by (simp add: leads_def)

lemma leads_run: "leads P m Q \<Longrightarrow> P s \<Longrightarrow> run_state m s = (x, s') \<Longrightarrow> Q s'"
  by (auto simp: leads_def dest: spec [of _ s])

lemma keeps_return [keeps_intros, simp]: "keeps I (State_Monad.return x)"
  by (rule leads_return)

lemmas keeps_bind [keeps_intros] = leads_bind [where P = I and R = I and Q = I for I]

lemma keeps_get [keeps_intros, simp]: "keeps I State_Monad.get"
  by (simp add: leads_def)

lemma leads_if [keeps_intros]: "(c \<Longrightarrow> leads P m Q) \<Longrightarrow> (\<not> c \<Longrightarrow> leads P n Q) \<Longrightarrow> leads P (if c then m else n) Q"
  by simp

lemma keeps_for_each [keeps_intros]: "(\<And>x. x \<in> set xs \<Longrightarrow> keeps I (f x)) \<Longrightarrow> keeps I (for_each f xs)"
  by (induction xs) (auto intro: keeps_bind)

end
