(* ===== verification/Flatten.thy ===== *)
theory Flatten
  imports Recon State_Logic
begin

text \<open>
  \<open>rebalancer-run/src/flatten.rs\<close>: the kill path. The broker and the clock are traits in the
  source; here they are a record of their methods over a state \<open>'w\<close> of the world outside, which
  every call may change. The mutable \<open>Flattener\<close> is the state of a state monad. SHA-256, the
  \<open>Display\<close> texts of the adapters' errors and the \<open>Debug\<close> text of a status are parameters.
\<close>

section \<open>The broker and the clock\<close>

datatype snapshot_error = SnapBroker broker_error | SnapView view_error

definition snapshot_error_code :: "snapshot_error \<Rightarrow> string" where
  "snapshot_error_code e = (case e of SnapBroker _ \<Rightarrow> ''BROKER_READ_FAILED'' | SnapView v \<Rightarrow> view_error_code v)"

record 'w broker =
  bk_venue :: string
  bk_snapshot :: "int \<Rightarrow> 'w \<Rightarrow> (snapshot_error + broker_snapshot) \<times> 'w"
  bk_place :: "order_request \<Rightarrow> 'w \<Rightarrow> (broker_error + place_outcome) \<times> 'w"
  bk_get_order :: "string \<Rightarrow> 'w \<Rightarrow> (broker_error + order_report) \<times> 'w"
  bk_open_orders :: "'w \<Rightarrow> (broker_error + order_report list) \<times> 'w"
  bk_find_by_tag :: "string \<Rightarrow> 'w \<Rightarrow> (broker_error + order_report list) \<times> 'w"
  bk_cancel_and_settle :: "string \<Rightarrow> 'w \<Rightarrow> (broker_error + cancel_outcome \<times> order_report) \<times> 'w"
  bk_now :: "'w \<Rightarrow> int \<times> 'w"
  bk_sleep_secs :: "nat \<Rightarrow> 'w \<Rightarrow> unit \<times> 'w"

record flat_text =
  ft_sha_hex :: "string \<Rightarrow> string"
  ft_error :: "broker_error \<Rightarrow> string"
  ft_snapshot_error :: "snapshot_error \<Rightarrow> string"
  ft_refusal :: "size_refusal \<Rightarrow> string"
  ft_status :: "order_status \<Rightarrow> string"

section \<open>Tags\<close>

definition FLATTEN_TAG_PREFIX :: string where "FLATTEN_TAG_PREFIX = ''rb1:fl:''"

definition leg_tag :: "flat_text \<Rightarrow> string \<Rightarrow> string \<Rightarrow> string \<Rightarrow> string \<Rightarrow> nat \<Rightarrow> string" where
  "leg_tag tx account attempt_key symbol leg k =
     (let identity = ''flatten:'' @ account @ '':'' @ attempt_key @ '':'' @ symbol @ '':'' @ leg @ '':'' @ show_nat k;
          hash = ft_sha_hex tx identity;
          attempt = take 20 (filter is_alnum attempt_key);
          readable = to_upper (take 10 (filter is_alnum symbol))
      in FLATTEN_TAG_PREFIX @ attempt @ '':'' @ readable @ '':'' @ show_nat k @ '':'' @ take 16 hash)"

definition flatten_tag :: "flat_text \<Rightarrow> string \<Rightarrow> string \<Rightarrow> string \<Rightarrow> nat \<Rightarrow> string" where
  "flatten_tag tx account attempt_key symbol k = leg_tag tx account attempt_key symbol ''sell'' k"

definition flatten_cover_tag :: "flat_text \<Rightarrow> string \<Rightarrow> string \<Rightarrow> string \<Rightarrow> nat \<Rightarrow> string" where
  "flatten_cover_tag tx account attempt_key symbol k = leg_tag tx account attempt_key symbol ''cover'' k"

section \<open>Report data\<close>

datatype flatten_code =
    FcReadFailed | FcCancelFailed | FcCancelTargetNotFound | FcCancelUnsettled | FcShortHeld | FcCannotSize
  | FcLookupFailed | FcOrderNotSent | FcOrderRejected | FcOrderUnsettled | FcDuplicateFillAnomaly
  | FcOpenOrdersRemain | FcNotFlat

definition flatten_code_as_str :: "flatten_code \<Rightarrow> string" where
  "flatten_code_as_str c =
     (case c of
        FcReadFailed \<Rightarrow> ''FLATTEN_READ_FAILED'' | FcCancelFailed \<Rightarrow> ''FLATTEN_CANCEL_FAILED''
      | FcCancelTargetNotFound \<Rightarrow> ''FLATTEN_CANCEL_TARGET_NOT_FOUND''
      | FcCancelUnsettled \<Rightarrow> ''FLATTEN_CANCEL_UNSETTLED'' | FcShortHeld \<Rightarrow> ''FLATTEN_SHORT_HELD''
      | FcCannotSize \<Rightarrow> ''FLATTEN_CANNOT_SIZE'' | FcLookupFailed \<Rightarrow> ''FLATTEN_LOOKUP_FAILED''
      | FcOrderNotSent \<Rightarrow> ''FLATTEN_ORDER_NOT_SENT'' | FcOrderRejected \<Rightarrow> ''FLATTEN_ORDER_REJECTED''
      | FcOrderUnsettled \<Rightarrow> ''FLATTEN_ORDER_UNSETTLED''
      | FcDuplicateFillAnomaly \<Rightarrow> ''FLATTEN_DUPLICATE_FILL_ANOMALY''
      | FcOpenOrdersRemain \<Rightarrow> ''FLATTEN_OPEN_ORDERS_REMAIN'' | FcNotFlat \<Rightarrow> ''FLATTEN_NOT_FLAT'')"

definition is_blocking :: "flatten_code \<Rightarrow> bool" where
  "is_blocking c \<longleftrightarrow>
     c \<in> {FcCancelUnsettled, FcOrderUnsettled, FcDuplicateFillAnomaly, FcOpenOrdersRemain, FcNotFlat}"

record flatten_failure =
  ff_code :: flatten_code
  ff_message :: string

record cancel_record =
  cr_broker_order_id :: string
  cr_tag :: "string option"
  cr_canceled_count :: nat
  cr_final_status :: order_status
  cr_executed_quantity :: dec

datatype flatten_outcome =
    FoFilled | FoPartiallyFilled | FoNothingExecuted | FoRejected | FoNotSent | FoUnknownNotFound | FoUnsettled

record flatten_order =
  fo_tag :: string
  fo_symbol :: string
  fo_side :: side
  fo_quantity :: dec
  fo_broker_order_id :: "string option"
  fo_outcome :: flatten_outcome
  fo_status :: "order_status option"
  fo_executed_quantity :: dec
  fo_avg_price :: "dec option"
  fo_cost :: "dec option"
  fo_fee :: "dec option"
  fo_adopted_by_tag :: bool

record dust_record =
  du_symbol :: string
  du_quantity :: dec
  du_reason :: string

datatype flatten_verdict = FvFlat | FvFlatWithDust | FvHaltAndAlert

definition flatten_verdict_as_str :: "flatten_verdict \<Rightarrow> string" where
  "flatten_verdict_as_str v =
     (case v of FvFlat \<Rightarrow> ''FLAT'' | FvFlatWithDust \<Rightarrow> ''FLAT_WITH_DUST'' | FvHaltAndAlert \<Rightarrow> ''HALT_AND_ALERT'')"

record flatten_report =
  fr_attempt_key :: string
  fr_started_at :: int
  fr_finished_at :: int
  fr_rounds :: nat
  fr_cancels :: "cancel_record list"
  fr_orders :: "flatten_order list"
  fr_dust :: "dust_record list"
  fr_unmanaged :: "dust_record list"
  fr_foreign_open_orders :: "string list"
  fr_failures :: "flatten_failure list"
  fr_residual :: "dust_record list"
  fr_verified_flat :: bool
  fr_verdict :: flatten_verdict

record flatten_spec =
  fs_account_id :: string
  fs_attempt_key :: string
  fs_universe :: "string btree_set"
  fs_venue_rules :: venue_rule_book
  fs_known_order_ids :: "string btree_set"
  fs_max_rounds :: nat
  fs_max_polls :: nat
  fs_poll_secs :: nat
  fs_max_tag_index :: nat

definition flatten_spec_new :: "string \<Rightarrow> string \<Rightarrow> string btree_set \<Rightarrow> venue_rule_book \<Rightarrow> string btree_set \<Rightarrow> flatten_spec" where
  "flatten_spec_new account_id attempt_key uni rules known =
     \<lparr>fs_account_id = account_id, fs_attempt_key = attempt_key, fs_universe = uni, fs_venue_rules = rules,
      fs_known_order_ids = known, fs_max_rounds = 4, fs_max_polls = 3, fs_poll_secs = 1, fs_max_tag_index = 25\<rparr>"

section \<open>The flattener\<close>

record 'w flattener =
  fl_world :: 'w
  fl_cancels :: "cancel_record list"
  fl_orders :: "flatten_order list"
  fl_failures :: "flatten_failure list"
  fl_foreign :: "string btree_set"
  fl_first_short :: "(string, dec) btree_map"

definition flattener_new :: "'w \<Rightarrow> 'w flattener" where
  "flattener_new w =
     \<lparr>fl_world = w, fl_cancels = [], fl_orders = [], fl_failures = [], fl_foreign = [], fl_first_short = []\<rparr>"

type_synonym ('w, 'a) flat = "('w flattener, 'a) state"

text \<open>A call to the broker or the clock.\<close>

definition io :: "('w \<Rightarrow> 'a \<times> 'w) \<Rightarrow> ('w, 'a) flat" where
  "io f = State (\<lambda>s. let (x, w) = f (fl_world s) in (x, s\<lparr>fl_world := w\<rparr>))"

definition fail :: "flatten_code \<Rightarrow> string \<Rightarrow> ('w, unit) flat" where
  "fail c message = change (\<lambda>s. s\<lparr>fl_failures := fl_failures s @ [\<lparr>ff_code = c, ff_message = message\<rparr>]\<rparr>)"

definition is_anomaly :: "broker_error \<Rightarrow> bool" where
  "is_anomaly e \<longleftrightarrow> e = OverfillAnomaly"

text \<open>The poll loop of \<open>settle\<close>: \<open>n\<close> polls are left; \<open>None\<close> when the order is still live after them.\<close>

fun poll_order :: "'w broker \<Rightarrow> flatten_spec \<Rightarrow> string \<Rightarrow> nat \<Rightarrow> ('w, (broker_error + order_report) option) flat" where
  "poll_order b spec oid 0 = State_Monad.return None"
| "poll_order b spec oid (Suc n) =
     do { r \<leftarrow> io (bk_get_order b oid);
          case r of
            Inl e \<Rightarrow> State_Monad.return (Some (Inl e))
          | Inr rep \<Rightarrow>
              if is_terminal (or_status rep) then State_Monad.return (Some (Inr rep))
              else do { _ \<leftarrow> (if n > 0 then io (bk_sleep_secs b (fs_poll_secs spec)) else State_Monad.return ());
                        poll_order b spec oid n } }"

definition settle :: "flat_text \<Rightarrow> 'w broker \<Rightarrow> flatten_spec \<Rightarrow> string \<Rightarrow> ('w, broker_error + order_report) flat" where
  "settle tx b spec oid =
     do { p \<leftarrow> poll_order b spec oid (fs_max_polls spec);
          case p of
            Some r \<Rightarrow> State_Monad.return r
          | None \<Rightarrow>
              do { c \<leftarrow> io (bk_cancel_and_settle b oid);
                   case c of
                     Inl e \<Rightarrow> State_Monad.return (Inl e)
                   | Inr (_, rep) \<Rightarrow>
                       do { _ \<leftarrow> (if is_terminal (or_status rep) then State_Monad.return ()
                                  else fail FcOrderUnsettled (''order '' @ oid @ '' is still '' @ ft_status tx (or_status rep)
                                         @ '' after polling and a cancel''));
                            State_Monad.return (Inr rep) } } }"

definition update_last_cancel :: "order_report \<Rightarrow> 'w flattener \<Rightarrow> 'w flattener" where
  "update_last_cancel rep s =
     (if fl_cancels s = [] then s
      else s\<lparr>fl_cancels := butlast (fl_cancels s)
             @ [(last (fl_cancels s))\<lparr>cr_final_status := or_status rep, cr_executed_quantity := or_executed_quantity rep\<rparr>]\<rparr>)"

definition cancel_one :: "flat_text \<Rightarrow> 'w broker \<Rightarrow> flatten_spec \<Rightarrow> order_report \<Rightarrow> ('w, unit) flat" where
  "cancel_one tx b spec r =
     (if \<not> is_own_order r (fs_known_order_ids spec)
      then change (\<lambda>s. s\<lparr>fl_foreign := bts_insert (or_broker_order_id r) (fl_foreign s)\<rparr>)
      else
        let oid = or_broker_order_id r
        in do { c \<leftarrow> io (bk_cancel_and_settle b oid);
             case c of
               Inr (outcome, rep) \<Rightarrow>
                 do { _ \<leftarrow> change (\<lambda>s. s\<lparr>fl_cancels := fl_cancels s @
                        [\<lparr>cr_broker_order_id = oid, cr_tag = or_tag r, cr_canceled_count = co_canceled_count outcome,
                          cr_final_status = or_status rep, cr_executed_quantity = or_executed_quantity rep\<rparr>]\<rparr>);
                      if is_terminal (or_status rep) then State_Monad.return ()
                      else do { q \<leftarrow> settle tx b spec oid;
                                case q of
                                  Inr rep' \<Rightarrow>
                                    if is_terminal (or_status rep') then change (update_last_cancel rep')
                                    else fail FcCancelUnsettled (''order '' @ oid @ '' is still ''
                                           @ ft_status tx (or_status rep') @ '' after the cancel'')
                                | Inl e \<Rightarrow> fail FcCancelUnsettled (''order '' @ oid
                                      @ '': could not confirm the cancel: '' @ ft_error tx e) } }
             | Inl e \<Rightarrow>
                 (case e of
                    CancelTargetNotFound t \<Rightarrow> fail FcCancelTargetNotFound (''cancel target '' @ t
                      @ '' was refused as unknown and not found: the next read decides'')
                  | _ \<Rightarrow> if is_anomaly e then fail FcDuplicateFillAnomaly (''order '' @ oid @ '': '' @ ft_error tx e)
                         else fail FcCancelFailed (''cancelling '' @ oid @ '': '' @ ft_error tx e)) })"

definition cancel_own :: "flat_text \<Rightarrow> 'w broker \<Rightarrow> flatten_spec \<Rightarrow> ('w, bool) flat" where
  "cancel_own tx b spec =
     do { r \<leftarrow> io (bk_open_orders b);
          case r of
            Inl e \<Rightarrow> do { _ \<leftarrow> fail FcReadFailed (''could not list open orders: '' @ ft_error tx e);
                          State_Monad.return False }
          | Inr opens \<Rightarrow> do { _ \<leftarrow> for_each (cancel_one tx b spec) opens; State_Monad.return True } }"

definition tag_for :: "flat_text \<Rightarrow> flatten_spec \<Rightarrow> string \<Rightarrow> side \<Rightarrow> nat \<Rightarrow> string" where
  "tag_for tx spec symbol sd k =
     (case sd of
        Buy \<Rightarrow> flatten_cover_tag tx (fs_account_id spec) (fs_attempt_key spec) symbol k
      | Sell \<Rightarrow> flatten_tag tx (fs_account_id spec) (fs_attempt_key spec) symbol k)"

text \<open>The loop of \<open>free_tag\<close>: index \<open>k\<close> is next and \<open>n\<close> indices are left.\<close>

fun free_tag_from :: "flat_text \<Rightarrow> 'w broker \<Rightarrow> flatten_spec \<Rightarrow> string \<Rightarrow> side \<Rightarrow> nat \<Rightarrow> nat \<Rightarrow> ('w, string option) flat" where
  "free_tag_from tx b spec symbol sd k 0 =
     do { _ \<leftarrow> fail FcLookupFailed (''every flatten tag index up to '' @ show_nat (fs_max_tag_index spec)
            @ '' is used for '' @ symbol);
          State_Monad.return None }"
| "free_tag_from tx b spec symbol sd k (Suc n) =
     (let tag = tag_for tx spec symbol sd k
      in do { r \<leftarrow> io (bk_find_by_tag b tag);
              case r of
                Inr found \<Rightarrow> if found = [] then State_Monad.return (Some tag)
                             else free_tag_from tx b spec symbol sd (Suc k) n
              | Inl e \<Rightarrow> do { _ \<leftarrow> fail FcLookupFailed (''cannot verify that tag '' @ tag @ '' is unused (''
                                   @ ft_error tx e @ ''); not sending'');
                              State_Monad.return None } })"

definition free_tag :: "flat_text \<Rightarrow> 'w broker \<Rightarrow> flatten_spec \<Rightarrow> string \<Rightarrow> side \<Rightarrow> ('w, string option) flat" where
  "free_tag tx b spec symbol sd = free_tag_from tx b spec symbol sd 1 (fs_max_tag_index spec)"

definition push_order :: "flatten_order \<Rightarrow> ('w, unit) flat" where
  "push_order x = change (\<lambda>s. s\<lparr>fl_orders := fl_orders s @ [x]\<rparr>)"

definition report_outcome :: "order_report \<Rightarrow> flatten_outcome" where
  "report_outcome r =
     (if or_status r = Filled then FoFilled
      else if is_positive (or_executed_quantity r) then FoPartiallyFilled
      else if is_terminal (or_status r) then FoNothingExecuted
      else FoUnsettled)"

definition record_report :: "string \<Rightarrow> string \<Rightarrow> side \<Rightarrow> dec \<Rightarrow> order_report \<Rightarrow> bool \<Rightarrow> ('w, unit) flat" where
  "record_report tag symbol sd qty r adopted =
     push_order \<lparr>fo_tag = tag, fo_symbol = symbol, fo_side = sd, fo_quantity = qty,
       fo_broker_order_id = Some (or_broker_order_id r), fo_outcome = report_outcome r,
       fo_status = Some (or_status r), fo_executed_quantity = or_executed_quantity r,
       fo_avg_price = or_avg_price r, fo_cost = or_cost r, fo_fee = or_fee r, fo_adopted_by_tag = adopted\<rparr>"

definition record_unsent :: "string \<Rightarrow> string \<Rightarrow> side \<Rightarrow> dec \<Rightarrow> flatten_outcome \<Rightarrow> ('w, unit) flat" where
  "record_unsent tag symbol sd qty outcome =
     push_order \<lparr>fo_tag = tag, fo_symbol = symbol, fo_side = sd, fo_quantity = qty, fo_broker_order_id = None,
       fo_outcome = outcome, fo_status = None, fo_executed_quantity = dec_ZERO, fo_avg_price = None,
       fo_cost = None, fo_fee = None, fo_adopted_by_tag = False\<rparr>"

definition settle_and_record :: "flat_text \<Rightarrow> 'w broker \<Rightarrow> flatten_spec \<Rightarrow> string \<Rightarrow> string \<Rightarrow> side \<Rightarrow> dec \<Rightarrow> string \<Rightarrow> bool \<Rightarrow>
    ('w, unit) flat" where
  "settle_and_record tx b spec tag symbol sd qty oid adopted =
     do { r \<leftarrow> settle tx b spec oid;
          case r of
            Inr rep \<Rightarrow> record_report tag symbol sd qty rep adopted
          | Inl e \<Rightarrow>
              do { _ \<leftarrow> (if is_anomaly e then fail FcDuplicateFillAnomaly (''order '' @ oid @ '': '' @ ft_error tx e)
                         else fail FcOrderUnsettled (''order '' @ oid @ '': could not read its final state: '' @ ft_error tx e));
                   record_unsent tag symbol sd qty FoUnsettled } }"

section \<open>Placing one leg\<close>

definition verb :: "side \<Rightarrow> string" where
  "verb sd = (if sd = Buy then ''cover'' else ''sell'')"

text \<open>The attempt loop of \<open>place_leg\<close>: attempt number \<open>k\<close>, with \<open>n\<close> attempts left after it.\<close>

fun place_attempts :: "flat_text \<Rightarrow> 'w broker \<Rightarrow> flatten_spec \<Rightarrow> order_request \<Rightarrow> nat \<Rightarrow> nat \<Rightarrow> ('w, unit) flat" where
  "place_attempts tx b spec req k 0 = State_Monad.return ()"
| "place_attempts tx b spec req k (Suc n) =
     (let tag = req_tag req; symbol = req_symbol req; sd = req_side req; qty = req_quantity req
      in do { r \<leftarrow> io (bk_place b req);
              case r of
                Inr (Accepted oid _ _ _) \<Rightarrow> settle_and_record tx b spec tag symbol sd qty oid False
              | Inr (ValidatedOnly _ _ _) \<Rightarrow>
                  do { _ \<leftarrow> fail FcOrderNotSent (symbol @ '': the broker only validated the order'');
                       record_unsent tag symbol sd qty FoNotSent }
              | Inr (Rejected errors _) \<Rightarrow>
                  do { _ \<leftarrow> fail FcOrderRejected (symbol @ '': the broker rejected the '' @ verb sd @ '': ''
                         @ join '', '' (map ee_code errors));
                       record_unsent tag symbol sd qty FoRejected }
              | Inr (UnknownOutcome reason _) \<Rightarrow>
                  do { q \<leftarrow> io (bk_find_by_tag b tag);
                       case q of
                         Inr (f # _) \<Rightarrow> settle_and_record tx b spec tag symbol sd qty (or_broker_order_id f) True
                       | Inr [] \<Rightarrow>
                           if k = 1 then place_attempts tx b spec req (Suc k) n
                           else do { _ \<leftarrow> fail FcOrderNotSent (symbol @ '': outcome unknown ('' @ reason
                                       @ '') and no order exists after '' @ show_nat k @ '' attempts'');
                                     record_unsent tag symbol sd qty FoUnknownNotFound }
                       | Inl e \<Rightarrow>
                           do { _ \<leftarrow> fail FcLookupFailed (symbol @ '': outcome unknown ('' @ reason
                                  @ '') and the lookup failed ('' @ ft_error tx e @ ''); not retrying'');
                                record_unsent tag symbol sd qty FoUnknownNotFound } }
              | Inl e \<Rightarrow>
                  do { _ \<leftarrow> fail FcOrderNotSent (symbol @ '': the '' @ verb sd @ '' was not sent: '' @ ft_error tx e);
                       record_unsent tag symbol sd qty FoNotSent } })"

definition place_leg :: "flat_text \<Rightarrow> 'w broker \<Rightarrow> flatten_spec \<Rightarrow> side \<Rightarrow> string \<times> dec \<times> dec \<Rightarrow> ('w, unit) flat" where
  "place_leg tx b spec sd = (\<lambda>(symbol, qty, price).
     do { t \<leftarrow> free_tag tx b spec symbol sd;
          case t of
            None \<Rightarrow> State_Monad.return ()
          | Some tag \<Rightarrow>
              place_attempts tx b spec ((order_market tag symbol sd qty)\<lparr>req_reference_price := Some price\<rparr>) 1 2 })"

definition cover_counted :: "flatten_order \<Rightarrow> dec" where
  "cover_counted x = (if fo_outcome x = FoUnsettled then fo_quantity x else fo_executed_quantity x)"

definition cover_quantity_used :: "flatten_order list \<Rightarrow> string \<Rightarrow> dec" where
  "cover_quantity_used orders symbol =
     foldl (\<lambda>total x. add_or_keep total (cover_counted x)) dec_ZERO
       (filter (\<lambda>x. fo_side x = Buy \<and> eq_ignore_case (fo_symbol x) symbol) orders)"

text \<open>The quantity a cover may buy: the wish within the allowance, or the re-rounded allowance.\<close>

definition cover_size :: "'w broker \<Rightarrow> flatten_spec \<Rightarrow> string \<Rightarrow> dec \<Rightarrow> dec \<Rightarrow> dec \<Rightarrow> dec option" where
  "cover_size b spec symbol qty price allowance =
     (if dec_lt allowance qty
      then case book_get (fs_venue_rules spec) (bk_venue b) of
             None \<Rightarrow> None
           | Some rules \<Rightarrow>
               (case vr_round_quantity rules symbol Buy allowance price of
                  Inr q \<Rightarrow> if dec_le q allowance then Some q else None
                | Inl _ \<Rightarrow> None)
      else Some qty)"

definition cover :: "flat_text \<Rightarrow> 'w broker \<Rightarrow> flatten_spec \<Rightarrow> string \<times> dec \<times> dec \<Rightarrow> ('w, unit) flat" where
  "cover tx b spec = (\<lambda>(symbol, qty, price).
     let key = to_upper symbol
     in do { s \<leftarrow> State_Monad.get;
             let first = (case map_of (fl_first_short s) key of Some f \<Rightarrow> f | None \<Rightarrow> qty);
                 used = cover_quantity_used (fl_orders s) symbol;
                 allowance = (case dsub first used of Inr a \<Rightarrow> a | Inl _ \<Rightarrow> dec_ZERO)
             in do { _ \<leftarrow> change (\<lambda>s. if map_of (fl_first_short s) key = None
                            then s\<lparr>fl_first_short := btm_insert key qty (fl_first_short s)\<rparr> else s);
                     if \<not> is_positive allowance
                     then fail FcShortHeld (key @ '': a short is still reported after '' @ dec_to_string used
                            @ '' was bought to cover '' @ dec_to_string first @ ''; not buying more'')
                     else case cover_size b spec symbol qty price allowance of
                            None \<Rightarrow> fail FcShortHeld (key @ '': the remaining cover allowance ''
                              @ dec_to_string allowance @ '' cannot be sized; not buying more'')
                          | Some q \<Rightarrow> place_leg tx b spec Buy (symbol, q, price) } })"

section \<open>Planning from a fresh read\<close>

record sell_plan =
  sp_covers :: "(string \<times> dec \<times> dec) list"
  sp_sells :: "(string \<times> dec \<times> dec) list"
  sp_dust :: "dust_record list"
  sp_unmanaged :: "dust_record list"
  sp_blockers :: "flatten_failure list"

definition price_of :: "holding \<Rightarrow> dec option" where
  "price_of h =
     (case opt_filter is_positive (hd_mark h) of
        Some m \<Rightarrow> Some m
      | None \<Rightarrow>
          Option.bind (if is_negative (hd_quantity h)
                       then Option.bind (res_opt (dneg (hd_market_value h))) (\<lambda>v.
                            Option.bind (res_opt (dneg (hd_quantity h))) (\<lambda>q. Some (v, q)))
                       else Some (hd_market_value h, hd_quantity h)) (\<lambda>(v, q).
          if is_positive q \<and> is_positive v then opt_filter is_positive (res_opt (div_floor v q 8)) else None))"

definition neg_or_keep :: "dec \<Rightarrow> dec" where
  "neg_or_keep d = (case dneg d of Inr m \<Rightarrow> m | Inl _ \<Rightarrow> d)"

definition blocker :: "string \<Rightarrow> sell_plan \<Rightarrow> sell_plan" where
  "blocker message p = p\<lparr>sp_blockers := sp_blockers p @ [\<lparr>ff_code = FcCannotSize, ff_message = message\<rparr>]\<rparr>"

text \<open>The order that closes a position: its side and the magnitude held.\<close>

definition closing :: "dec \<Rightarrow> (side \<times> dec) option" where
  "closing q = (if is_negative q then map_option (\<lambda>m. (Buy, m)) (res_opt (dneg q)) else Some (Sell, q))"

definition plan_rounded :: "holding \<Rightarrow> side \<Rightarrow> dec \<Rightarrow> dec \<Rightarrow> dec \<Rightarrow> sell_plan \<Rightarrow> sell_plan" where
  "plan_rounded h sd held price q p =
     (let sy = to_upper (hd_symbol h)
      in if dec_lt held q
         then blocker (sy @ '': venue rounding produced '' @ dec_to_string q @ '', more than the ''
                @ dec_to_string held @ '' held'') p
         else
           let p' = (if dec_lt q held
                     then let rest = (case dsub held q of Inr r \<Rightarrow> r | Inl _ \<Rightarrow> held);
                              rest' = (if sd = Buy then neg_or_keep rest else rest)
                          in p\<lparr>sp_dust := sp_dust p @ [\<lparr>du_symbol = sy, du_quantity = rest',
                                du_reason = ''below the venue's lot precision after rounding down''\<rparr>]\<rparr>
                     else p)
           in if sd = Buy then p'\<lparr>sp_covers := sp_covers p' @ [(hd_symbol h, q, price)]\<rparr>
              else p'\<lparr>sp_sells := sp_sells p' @ [(hd_symbol h, q, price)]\<rparr>)"

definition is_dust_refusal :: "size_refusal \<Rightarrow> bool" where
  "is_dust_refusal e =
     (case e of RoundsToZero \<Rightarrow> True | SizeBelowMinQuantity _ \<Rightarrow> True | SizeBelowMinCost _ \<Rightarrow> True | _ \<Rightarrow> False)"

definition plan_holding :: "flat_text \<Rightarrow> flatten_spec \<Rightarrow> string \<Rightarrow> sell_plan \<Rightarrow> holding \<Rightarrow> sell_plan" where
  "plan_holding tx spec venue p h =
     (let sy = to_upper (hd_symbol h)
      in if is_zero (hd_quantity h) then p
         else if sy \<notin> set (fs_universe spec)
         then p\<lparr>sp_unmanaged := sp_unmanaged p @ [\<lparr>du_symbol = sy, du_quantity = hd_quantity h,
                du_reason = ''not in the mandate's universe: left alone''\<rparr>]\<rparr>
         else case closing (hd_quantity h) of
           None \<Rightarrow> blocker (sy @ '': the short of '' @ dec_to_string (hd_quantity h) @ '' cannot be sized'') p
         | Some (sd, held) \<Rightarrow>
             (case (book_get (fs_venue_rules spec) venue, price_of h) of
                (Some rules, Some price) \<Rightarrow>
                  (case vr_round_quantity rules (hd_symbol h) sd held price of
                     Inr q \<Rightarrow> plan_rounded h sd held price q p
                   | Inl e \<Rightarrow>
                       if is_dust_refusal e
                       then p\<lparr>sp_dust := sp_dust p @ [\<lparr>du_symbol = sy, du_quantity = hd_quantity h,
                              du_reason = ''below the venue's minimum order: reported, not sent''\<rparr>]\<rparr>
                       else blocker (sy @ '': '' @ ft_refusal tx e) p)
              | _ \<Rightarrow> blocker (sy @ '': no venue rules or no price to size a '' @ verb sd @ '' of '' @ dec_to_string held) p))"

definition plan_sells :: "flat_text \<Rightarrow> flatten_spec \<Rightarrow> string \<Rightarrow> broker_snapshot \<Rightarrow> sell_plan" where
  "plan_sells tx spec venue snap =
     foldl (plan_holding tx spec venue)
       \<lparr>sp_covers = [], sp_sells = [], sp_dust = [], sp_unmanaged = [], sp_blockers = []\<rparr>
       (sort_by_key hd_symbol (bs_holdings snap))"

section \<open>Flatten\<close>

text \<open>The public clean-up: cancel our open orders only.\<close>

definition cancel_own_open_orders :: "flat_text \<Rightarrow> 'w broker \<Rightarrow> string btree_set \<Rightarrow> nat \<Rightarrow> nat \<Rightarrow> 'w \<Rightarrow>
    (cancel_record list \<times> flatten_failure list \<times> string list) \<times> 'w" where
  "cancel_own_open_orders tx b known max_polls poll_secs w =
     (let spec = (flatten_spec_new ''cleanup'' ''cleanup'' [] book_new known)
            \<lparr>fs_max_polls := max_polls, fs_poll_secs := poll_secs\<rparr>;
          s = snd (run_state (cancel_own tx b spec) (flattener_new w))
      in ((fl_cancels s, fl_failures s, fl_foreign s), fl_world s))"

text \<open>Covers first: a short's loss has no ceiling, a long's does.\<close>

definition trade_plan :: "flat_text \<Rightarrow> 'w broker \<Rightarrow> flatten_spec \<Rightarrow> sell_plan \<Rightarrow> ('w, unit) flat" where
  "trade_plan tx b spec p =
     do { _ \<leftarrow> for_each (cover tx b spec) (sp_covers p);
          for_each (place_leg tx b spec Sell) (sp_sells p) }"

text \<open>
  The rounds: \<open>n\<close> are left and \<open>k\<close> are done; the result is the number of rounds begun and the dust
  and unmanaged holdings of the last plan.
\<close>

fun flatten_rounds :: "flat_text \<Rightarrow> 'w broker \<Rightarrow> flatten_spec \<Rightarrow> nat \<Rightarrow> nat \<Rightarrow> dust_record list \<times> dust_record list \<Rightarrow>
    ('w, nat \<times> dust_record list \<times> dust_record list) flat" where
  "flatten_rounds tx b spec k 0 du = State_Monad.return (k, du)"
| "flatten_rounds tx b spec k (Suc n) du =
     do { go \<leftarrow> cancel_own tx b spec;
          if \<not> go then State_Monad.return (Suc k, du)
          else do { t \<leftarrow> io (bk_now b);
                    r \<leftarrow> io (bk_snapshot b t);
                    case r of
                      Inl e \<Rightarrow> do { _ \<leftarrow> fail FcReadFailed (''could not read the account: '' @ ft_snapshot_error tx e);
                                    State_Monad.return (Suc k, du) }
                    | Inr snap \<Rightarrow>
                        let p = plan_sells tx spec (bk_venue b) snap; du' = (sp_dust p, sp_unmanaged p)
                        in if sp_covers p = [] \<and> sp_sells p = [] then State_Monad.return (Suc k, du')
                           else do { _ \<leftarrow> trade_plan tx b spec p;
                                     flatten_rounds tx b spec (Suc k) n du' } } }"

definition residual_of :: "sell_plan \<Rightarrow> dust_record list" where
  "residual_of p =
     map (\<lambda>(symbol, qty, _). \<lparr>du_symbol = to_upper symbol, du_quantity = neg_or_keep qty,
       du_reason = ''short still open after flatten''\<rparr>) (sp_covers p)
     @ map (\<lambda>(symbol, qty, _). \<lparr>du_symbol = to_upper symbol, du_quantity = qty,
       du_reason = ''still held after flatten''\<rparr>) (sp_sells p)"

fun push_new :: "flatten_failure list \<Rightarrow> flatten_failure list \<Rightarrow> flatten_failure list" where
  "push_new fs [] = fs"
| "push_new fs (x # xs) = push_new (if x \<in> set fs then fs else fs @ [x]) xs"

text \<open>The final verification; the result is the residual, the verified flag, the dust and the unmanaged holdings.\<close>

definition verify_flat :: "flat_text \<Rightarrow> 'w broker \<Rightarrow> flatten_spec \<Rightarrow> dust_record list \<times> dust_record list \<Rightarrow>
    ('w, dust_record list \<times> bool \<times> dust_record list \<times> dust_record list) flat" where
  "verify_flat tx b spec du =
     do { t \<leftarrow> io (bk_now b);
          r \<leftarrow> io (bk_snapshot b t);
          case r of
            Inl e \<Rightarrow> do { _ \<leftarrow> fail FcReadFailed (''could not verify flat: '' @ ft_snapshot_error tx e);
                          State_Monad.return ([], False, du) }
          | Inr snap \<Rightarrow>
              let p = plan_sells tx spec (bk_venue b) snap; residual = residual_of p;
                  own = (\<lambda>r. is_own_order r (fs_known_order_ids spec))
              in do { _ \<leftarrow> change (\<lambda>s. s\<lparr>fl_failures := push_new (fl_failures s) (sp_blockers p)\<rparr>);
                      _ \<leftarrow> change (\<lambda>s. s\<lparr>fl_foreign := foldl (\<lambda>m r. bts_insert (or_broker_order_id r) m) (fl_foreign s)
                             (filter (\<lambda>r. \<not> own r) (bs_open_orders snap))\<rparr>);
                      _ \<leftarrow> (if residual \<noteq> []
                            then fail FcNotFlat (''still holding: '' @ join '', ''
                                   (map (\<lambda>r. dec_to_string (du_quantity r) @ '' '' @ du_symbol r) residual))
                            else State_Monad.return ());
                      _ \<leftarrow> (if list_ex own (bs_open_orders snap)
                            then fail FcOpenOrdersRemain ''one of our orders is still open after the flatten''
                            else State_Monad.return ());
                      s \<leftarrow> State_Monad.get;
                      State_Monad.return (residual,
                        residual = [] \<and> \<not> list_ex (\<lambda>x. ff_code x = FcShortHeld \<or> ff_code x = FcCannotSize) (fl_failures s),
                        sp_dust p, sp_unmanaged p) } }"

definition flatten :: "flat_text \<Rightarrow> 'w broker \<Rightarrow> flatten_spec \<Rightarrow> 'w \<Rightarrow> flatten_report \<times> 'w" where
  "flatten tx b spec w0 =
     (let (started, w) = bk_now b w0;
          ((rounds, du), s1) = run_state (flatten_rounds tx b spec 0 (fs_max_rounds spec) ([], [])) (flattener_new w);
          ((residual, verified, dust, unmanaged), s) = run_state (verify_flat tx b spec du) s1;
          blocking = list_ex (\<lambda>x. is_blocking (ff_code x)) (fl_failures s);
          verdict = (if \<not> verified \<or> blocking then FvHaltAndAlert else if dust = [] then FvFlat else FvFlatWithDust);
          (finished, w') = bk_now b (fl_world s)
      in (\<lparr>fr_attempt_key = fs_attempt_key spec, fr_started_at = started, fr_finished_at = finished,
           fr_rounds = rounds, fr_cancels = fl_cancels s, fr_orders = fl_orders s, fr_dust = dust,
           fr_unmanaged = unmanaged, fr_foreign_open_orders = fl_foreign s, fr_failures = fl_failures s,
           fr_residual = residual, fr_verified_flat = verified, fr_verdict = verdict\<rparr>, w'))"

end
