(* ===== verification/Planner.thy ===== *)
theory Planner
  imports Guard
begin

text \<open>
  \<open>rebalancer-core/src/planner.rs\<close>: sleeve targets in, a list of guarded, tagged orders out,
  reductions first. \<open>plan_instrument\<close> is the body of the loop over the managed instruments,
  \<open>try_order\<close> the closure of that name with its captured variables as the record \<open>plan_state\<close>,
  \<open>make_plan\<close> the function \<open>OrderPlanner::plan\<close>. SHA-256, the formatting of instants and the
  \<open>Debug\<close> text of the envelope are the fields of the parameter record \<open>plan_env\<close>.
\<close>

section \<open>Data\<close>

record plan_env =
  pe_sha256_hex :: "string \<Rightarrow> string"
  pe_sched :: "int \<Rightarrow> string"
  pe_rfc3339 :: "int \<Rightarrow> string"
  pe_debug_envelope :: "mandate_envelope option \<Rightarrow> string"

definition MAX_ABS_WEIGHT_CAP :: int where "MAX_ABS_WEIGHT_CAP = 3"

datatype weight_bounds = LongOnlyUnit | SignedBounds dec

record target_weight =
  tw_symbol :: string
  tw_weight :: dec

record sleeve_target =
  st_sleeve :: string
  st_share :: dec
  st_venue :: string
  st_asset_class :: string
  st_weights :: "target_weight list"

definition convert_weights :: "(string \<Rightarrow> string) \<Rightarrow> (string \<times> f64_obs) list \<Rightarrow> math_error + target_weight list" where
  "convert_weights name ws =
     try_fold (\<lambda>acc (s, w). try_bind (ratio_to_dec w RoundDown) (\<lambda>d.
       Inr (acc @ [\<lparr>tw_symbol = name s, tw_weight = d\<rparr>]))) [] ws"

definition from_etf :: "string \<Rightarrow> dec \<Rightarrow> string \<Rightarrow> string \<Rightarrow> (string \<times> f64_obs) list \<Rightarrow> math_error + sleeve_target" where
  "from_etf sleeve share venue cls instruments =
     try_bind (convert_weights (\<lambda>s. s) instruments) (\<lambda>ws.
     Inr \<lparr>st_sleeve = sleeve, st_share = share, st_venue = venue, st_asset_class = cls, st_weights = ws\<rparr>)"

definition from_crypto ::
    "string \<Rightarrow> dec \<Rightarrow> string \<Rightarrow> string \<Rightarrow> string \<Rightarrow> (string \<times> f64_obs) list \<Rightarrow> math_error + sleeve_target" where
  "from_crypto sleeve share venue cls quot instruments =
     try_bind (convert_weights (\<lambda>s. s @ ''/'' @ quot) instruments) (\<lambda>ws.
     Inr \<lparr>st_sleeve = sleeve, st_share = share, st_venue = venue, st_asset_class = cls, st_weights = ws\<rparr>)"

record plan_config =
  pc_scheduled_for :: int
  pc_risk_scale :: dec
  pc_min_trade_abs :: dec
  pc_min_trade_pct :: dec
  pc_fee_rate :: dec
  pc_credit_sell_proceeds :: bool
  pc_day :: day_counters
  pc_signed_sleeves :: "(string, dec) btree_map"
  pc_buying_power :: "dec option"

definition plan_config_new :: "int \<Rightarrow> dec \<Rightarrow> dec \<Rightarrow> dec \<Rightarrow> dec \<Rightarrow> plan_config" where
  "plan_config_new sched risk min_abs min_pct fee =
     \<lparr>pc_scheduled_for = sched, pc_risk_scale = risk, pc_min_trade_abs = min_abs, pc_min_trade_pct = min_pct,
      pc_fee_rate = fee, pc_credit_sell_proceeds = True, pc_day = day_zero, pc_signed_sleeves = [],
      pc_buying_power = None\<rparr>"

definition with_signed_sleeve :: "string \<Rightarrow> dec \<Rightarrow> plan_config \<Rightarrow> plan_config" where
  "with_signed_sleeve sleeve m cfg = cfg\<lparr>pc_signed_sleeves := btm_insert (trim sleeve) m (pc_signed_sleeves cfg)\<rparr>"

definition bounds_for :: "plan_config \<Rightarrow> string \<Rightarrow> weight_bounds" where
  "bounds_for cfg sleeve =
     (case map_of (pc_signed_sleeves cfg) (trim sleeve) of Some m \<Rightarrow> SignedBounds m | None \<Rightarrow> LongOnlyUnit)"

record planned_order =
  pl_tag :: string
  pl_sleeve :: string
  pl_venue :: string
  pl_asset_class :: string
  pl_symbol :: string
  pl_side :: side
  pl_quantity :: dec
  pl_price :: dec
  pl_notional :: dec
  pl_est_fee :: dec

record denied_order =
  dn_order :: planned_order
  dn_reasons :: "denial_code list"

datatype skip_reason =
    NoPrice
  | NoVenueRules
  | ShortPositionHeld
  | BelowMinTradeAbs dec dec
  | BelowMinTradePct dec dec
  | VenueRefused size_refusal
  | CutBelowVenueMinimum
  | NoCashAvailable
  | FlipCloseLegNotPlaced

record skipped_trade =
  sk_symbol :: string
  sk_sleeve :: string
  sk_reason :: skip_reason

record instrument_line =
  il_symbol :: string
  il_sleeve :: string
  il_held :: dec
  il_current_notional :: dec
  il_target_notional :: dec

record margin_report =
  mr_signed :: bool
  mr_needs_margin :: bool
  mr_buying_power :: "dec option"
  mr_buying_power_left :: "dec option"
  mr_target_gross :: dec
  mr_projected_gross :: dec
  mr_margin_order_tags :: "string list"

definition margin_long_only :: margin_report where
  "margin_long_only =
     \<lparr>mr_signed = False, mr_needs_margin = False, mr_buying_power = None, mr_buying_power_left = None,
      mr_target_gross = dec_ZERO, mr_projected_gross = dec_ZERO, mr_margin_order_tags = []\<rparr>"

record order_plan =
  op_inputs_digest :: string
  op_account_id :: string
  op_scheduled_for :: int
  op_equity :: dec
  op_capital_base :: dec
  op_risk_scale :: dec
  op_orders :: "planned_order list"
  op_denied :: "denied_order list"
  op_skipped :: "skipped_trade list"
  op_lines :: "instrument_line list"
  op_margin :: margin_report

datatype plan_error =
    BadRiskScale dec
  | BadParam string
  | BadShare string
  | SharesExceedOne dec
  | DuplicateSleeve string
  | BadWeight string string
  | WeightsExceedOne string
  | DuplicateWeight string string
  | InstrumentConflict string
  | EquityNotPositive dec
  | VenueRoundedUp string dec dec
  | DuplicateTag string
  | UnknownSignedSleeve string
  | BadMaxAbsWeight string dec
  | BadSignedWeight string string dec
  | BuyingPowerRequired dec
  | GrossAboveCap dec dec
  | PlanMath math_error

abbreviation plan_math :: "math_error + 'a \<Rightarrow> plan_error + 'a" where
  "plan_math m \<equiv> map_err PlanMath m"

section \<open>Tags\<close>

definition tag_with :: "plan_env \<Rightarrow> string \<Rightarrow> int \<Rightarrow> string \<Rightarrow> string \<Rightarrow> side \<Rightarrow> string \<Rightarrow> string" where
  "tag_with pe account sched sleeve symbol side suffix =
     (let s = pe_sched pe sched;
          identity = ''rebalance:'' @ account @ '':'' @ s @ '':'' @ sleeve @ '':'' @ symbol @ '':''
            @ side_as_str side @ suffix;
          hash = pe_sha256_hex pe identity;
          readable = to_upper (take 10 (filter is_alnum symbol))
      in ''rb1:'' @ s @ '':'' @ readable @ '':'' @ side_as_str side @ '':'' @ take 20 hash)"

definition client_tag :: "plan_env \<Rightarrow> string \<Rightarrow> int \<Rightarrow> string \<Rightarrow> string \<Rightarrow> side \<Rightarrow> string" where
  "client_tag pe account sched sleeve symbol side = tag_with pe account sched sleeve symbol side []"

definition client_tag_close_leg :: "plan_env \<Rightarrow> string \<Rightarrow> int \<Rightarrow> string \<Rightarrow> string \<Rightarrow> side \<Rightarrow> string" where
  "client_tag_close_leg pe account sched sleeve symbol side = tag_with pe account sched sleeve symbol side '':close''"

section \<open>Validation and aggregation\<close>

record managed =
  mg_symbol :: string
  mg_venue :: string
  mg_asset_class :: string
  mg_sleeves :: "string btree_set"
  mg_weight :: dec
  mg_signed :: bool

definition sleeve_label :: "managed \<Rightarrow> string" where
  "sleeve_label m = join ''+'' (mg_sleeves m)"

datatype leg = WholeLeg | CloseLeg | OpenLeg

record candidate =
  cd_m :: managed
  cd_side :: side
  cd_qty :: dec
  cd_price :: price_point
  cd_reducing :: bool
  cd_leg :: leg

definition one :: dec where "one = from_i64 1"

definition key :: "string \<Rightarrow> string" where
  "key s = to_upper (trim s)"

definition fee_for :: "dec \<Rightarrow> dec \<Rightarrow> math_error + dec" where
  "fee_for notional rate =
     try_bind (dmul notional rate) (\<lambda>f. map_err (\<lambda>_. MathOverflow) (round_dp f 8 Ceil))"

definition dtxt :: "dec \<Rightarrow> string" where
  "dtxt d = dec_to_string (normalized d)"

definition validate_params :: "account_view \<Rightarrow> plan_config \<Rightarrow> plan_error + unit" where
  "validate_params a cfg =
     (if dec_le (pc_risk_scale cfg) dec_ZERO \<or> dec_lt one (pc_risk_scale cfg) then Inl (BadRiskScale (pc_risk_scale cfg))
      else if is_negative (pc_min_trade_abs cfg) then Inl (BadParam ''min_trade_abs must not be negative'')
      else if is_negative (pc_min_trade_pct cfg) \<or> dec_le one (pc_min_trade_pct cfg)
      then Inl (BadParam ''min_trade_pct must be in [0, 1)'')
      else if is_negative (pc_fee_rate cfg) \<or> dec_le one (pc_fee_rate cfg)
      then Inl (BadParam ''fee_rate must be in [0, 1)'')
      else if \<not> is_positive (av_equity a) then Inl (EquityNotPositive (av_equity a))
      else if (case pc_buying_power cfg of Some bp \<Rightarrow> is_negative bp | None \<Rightarrow> False)
      then Inl (BadParam ''buying_power must not be negative'')
      else Inr ())"

definition validate_signed_sleeve :: "sleeve_target list \<Rightarrow> string \<times> dec \<Rightarrow> plan_error + unit" where
  "validate_signed_sleeve targets = (\<lambda>(id, m).
     if \<not> list_ex (\<lambda>t. trim (st_sleeve t) = id) targets then Inl (UnknownSignedSleeve id)
     else if dec_le m dec_ZERO \<or> dec_lt (from_i64 MAX_ABS_WEIGHT_CAP) m then Inl (BadMaxAbsWeight id m)
     else Inr ())"

definition validate_weight ::
    "string \<Rightarrow> weight_bounds \<Rightarrow> string btree_set \<times> dec \<Rightarrow> target_weight \<Rightarrow> plan_error + (string btree_set \<times> dec)" where
  "validate_weight sleeve bounds = (\<lambda>(symbols, total) w.
     try_bind
       (case bounds of
          LongOnlyUnit \<Rightarrow>
            if is_negative (tw_weight w) \<or> dec_lt one (tw_weight w) then Inl (BadWeight sleeve (tw_symbol w)) else Inr ()
        | SignedBounds m \<Rightarrow>
            try_bind (plan_math (dabs (tw_weight w))) (\<lambda>aw.
            if dec_lt m aw then Inl (BadSignedWeight sleeve (tw_symbol w) m) else Inr ())) (\<lambda>_.
     if key (tw_symbol w) \<in> set symbols then Inl (DuplicateWeight sleeve (tw_symbol w))
     else try_bind (plan_math (dadd total (tw_weight w))) (\<lambda>total'.
     Inr (bts_insert (key (tw_symbol w)) symbols, total'))))"

definition validate_target ::
    "plan_config \<Rightarrow> string btree_set \<times> dec \<Rightarrow> sleeve_target \<Rightarrow> plan_error + (string btree_set \<times> dec)" where
  "validate_target cfg = (\<lambda>(seen, total_share) t.
     if trim (st_sleeve t) \<in> set seen then Inl (DuplicateSleeve (st_sleeve t))
     else if dec_le (st_share t) dec_ZERO \<or> dec_lt one (st_share t) then Inl (BadShare (st_sleeve t))
     else try_bind (plan_math (dadd total_share (st_share t))) (\<lambda>total_share'.
     let bounds = bounds_for cfg (st_sleeve t)
     in try_bind (try_fold (validate_weight (st_sleeve t) bounds) ([], dec_ZERO) (st_weights t)) (\<lambda>(symbols, total_weight).
     if bounds = LongOnlyUnit \<and> dec_lt one total_weight then Inl (WeightsExceedOne (st_sleeve t))
     else Inr (bts_insert (trim (st_sleeve t)) seen, total_share'))))"

definition validate :: "sleeve_target list \<Rightarrow> account_view \<Rightarrow> plan_config \<Rightarrow> plan_error + unit" where
  "validate targets a cfg =
     try_bind (validate_params a cfg) (\<lambda>_.
     try_bind (try_fold (\<lambda>_. validate_signed_sleeve targets) () (pc_signed_sleeves cfg)) (\<lambda>_.
     try_bind (try_fold (validate_target cfg) ([], dec_ZERO) targets) (\<lambda>(seen, total_share).
     if dec_lt one total_share then Inl (SharesExceedOne total_share) else Inr ())))"

definition aggregate_weight ::
    "plan_config \<Rightarrow> sleeve_target \<Rightarrow> (string, managed) btree_map \<Rightarrow> target_weight \<Rightarrow> plan_error + (string, managed) btree_map" where
  "aggregate_weight cfg t mp w =
     (let k = key (tw_symbol w); signed = (bounds_for cfg (st_sleeve t) \<noteq> LongOnlyUnit);
          venue = to_lower (trim (st_venue t)); cls = to_lower (trim (st_asset_class t))
      in try_bind (plan_math (dmul (st_share t) (tw_weight w))) (\<lambda>contribution.
      case map_of mp k of
        Some m \<Rightarrow>
          if mg_venue m \<noteq> venue \<or> mg_asset_class m \<noteq> cls then Inl (InstrumentConflict k)
          else try_bind (plan_math (dadd (mg_weight m) contribution)) (\<lambda>wt.
               Inr (btm_insert k (m\<lparr>mg_weight := wt, mg_signed := mg_signed m \<or> signed,
                 mg_sleeves := bts_insert (trim (st_sleeve t)) (mg_sleeves m)\<rparr>) mp))
      | None \<Rightarrow>
          Inr (btm_insert k \<lparr>mg_symbol = k, mg_venue = venue, mg_asset_class = cls,
            mg_sleeves = [trim (st_sleeve t)], mg_weight = contribution, mg_signed = signed\<rparr> mp)))"

definition aggregate :: "sleeve_target list \<Rightarrow> plan_config \<Rightarrow> plan_error + (string, managed) btree_map" where
  "aggregate targets cfg =
     try_fold (\<lambda>mp t. try_fold (aggregate_weight cfg t) mp (st_weights t)) [] targets"

definition round_toward_zero :: "dec \<Rightarrow> math_error + dec" where
  "round_toward_zero v =
     (let down = (\<lambda>x. map_err (\<lambda>_. MathOverflow) (round_dp x 8 Floor))
      in if is_negative v then try_bind (dabs v) (\<lambda>b. try_bind (down b) dneg) else down v)"

section \<open>The simulated account\<close>

definition revalue :: "(string, price_point) btree_map \<Rightarrow> position \<Rightarrow> math_error + position" where
  "revalue prices p =
     (case map_of prices (key (pos_symbol p)) of
        Some px \<Rightarrow> try_bind (dmul (pos_quantity p) (pp_price px)) (\<lambda>v. Inr (p\<lparr>pos_market_value := v\<rparr>))
      | None \<Rightarrow> Inr p)"

definition revalue_all :: "(string, price_point) btree_map \<Rightarrow> position list \<Rightarrow> math_error + position list" where
  "revalue_all prices ps = try_fold (\<lambda>acc p. try_bind (revalue prices p) (\<lambda>p'. Inr (acc @ [p']))) [] ps"

fun apply_position :: "string \<Rightarrow> position \<Rightarrow> dec \<Rightarrow> dec \<Rightarrow> position list \<Rightarrow> math_error + position list" where
  "apply_position symbol fresh q v [] = Inr [fresh]"
| "apply_position symbol fresh q v (p # ps) =
     (if eq_ignore_case (pos_symbol p) symbol
      then try_bind (dadd (pos_quantity p) q) (\<lambda>q'.
           try_bind (dadd (pos_market_value p) v) (\<lambda>v'.
           Inr (p\<lparr>pos_quantity := q', pos_market_value := v'\<rparr> # ps)))
      else try_bind (apply_position symbol fresh q v ps) (\<lambda>ps'. Inr (p # ps')))"

definition apply_order ::
    "account_view \<Rightarrow> day_counters \<Rightarrow> managed \<Rightarrow> side \<Rightarrow> dec \<Rightarrow> dec \<Rightarrow> dec \<Rightarrow> math_error + (account_view \<times> day_counters)" where
  "apply_order sim day m side qty price fee =
     try_bind (dmul qty price) (\<lambda>notional.
     try_bind (signed_by_side side qty) (\<lambda>signed_qty.
     try_bind (signed_by_side side notional) (\<lambda>signed_value.
     try_bind (apply_position (mg_symbol m)
        \<lparr>pos_symbol = mg_symbol m, pos_venue = mg_venue m, pos_asset_class = mg_asset_class m,
         pos_quantity = signed_qty, pos_market_value = signed_value\<rparr>
        signed_qty signed_value (av_positions sim)) (\<lambda>ps.
     try_bind (dsub (av_cash sim) signed_value) (\<lambda>c1.
     try_bind (dsub c1 fee) (\<lambda>cash.
     try_bind (dadd (dc_turnover_today day) notional) (\<lambda>turnover.
     Inr (sim\<lparr>av_positions := ps, av_cash := cash\<rparr>,
          \<lparr>dc_orders_today = (if int (dc_orders_today day) \<ge> 2 ^ 32 - 1 then dc_orders_today day else dc_orders_today day + 1),
           dc_turnover_today = turnover\<rparr>))))))))"

section \<open>Candidates\<close>

type_synonym leg_spec = "leg \<times> side \<times> dec \<times> bool"

definition trade_legs :: "dec \<Rightarrow> dec \<Rightarrow> dec \<Rightarrow> dec \<Rightarrow> dec \<Rightarrow> dec \<Rightarrow> math_error + leg_spec list" where
  "trade_legs held current target delta abs_delta price =
     try_bind (dabs held) (\<lambda>held_abs.
     if (is_positive current \<and> is_negative target) \<or> (is_negative current \<and> is_positive target)
     then let close_side = (if is_positive held then Sell else Buy);
              open_side = (if is_positive target then Buy else Sell)
          in try_bind (dabs target) (\<lambda>at1.
             try_bind (div_floor at1 price 18) (\<lambda>open_qty.
             Inr [(CloseLeg, close_side, held_abs, True), (OpenLeg, open_side, open_qty, False)]))
     else let side = (if is_positive delta then Buy else Sell);
              reduction = ((side = Sell \<and> is_positive held) \<or> (side = Buy \<and> is_negative held))
          in try_bind
               (if \<not> reduction then div_floor abs_delta price 18
                else if is_zero target then Inr held_abs
                else try_bind (div_floor abs_delta price 18) (\<lambda>q. Inr (dec_min q held_abs))) (\<lambda>wished.
             Inr [(WholeLeg, side, wished, reduction)]))"

fun run_legs ::
    "venue_rules \<Rightarrow> managed \<Rightarrow> price_point \<Rightarrow> leg_spec list \<Rightarrow> dec \<Rightarrow> candidate list \<Rightarrow> skip_reason list
      \<Rightarrow> plan_error + (candidate list \<times> skip_reason list)" where
  "run_legs rules m price [] residual pending skips = Inr (pending, skips)"
| "run_legs rules m price ((leg, side, wished0, reducing) # rest) residual pending skips =
     try_bind (if leg = OpenLeg then plan_math (dadd wished0 residual) else Inr wished0) (\<lambda>wished.
     case vr_round_quantity rules (mg_symbol m) side wished (pp_price price) of
       Inl refusal \<Rightarrow>
         if leg = CloseLeg then Inr ([], skips @ [VenueRefused refusal])
         else run_legs rules m price rest residual pending (skips @ [VenueRefused refusal])
     | Inr qty \<Rightarrow>
         if dec_lt wished qty then Inl (VenueRoundedUp (mg_symbol m) wished qty)
         else try_bind (if leg = CloseLeg then plan_math (dsub wished qty) else Inr residual) (\<lambda>residual'.
              run_legs rules m price rest residual'
                (pending @ [\<lparr>cd_m = m, cd_side = side, cd_qty = qty, cd_price = price, cd_reducing = reducing,
                  cd_leg = leg\<rparr>]) skips))"

record instrument_outcome =
  io_lines :: "instrument_line list"
  io_skips :: "skip_reason list"
  io_cands :: "candidate list"

definition no_trade :: "instrument_line list \<Rightarrow> skip_reason list \<Rightarrow> instrument_outcome" where
  "no_trade ls sk = \<lparr>io_lines = ls, io_skips = sk, io_cands = []\<rparr>"

definition held_qty :: "account_view \<Rightarrow> managed \<Rightarrow> dec" where
  "held_qty a m = (case account_position a (mg_symbol m) of Some p \<Rightarrow> pos_quantity p | None \<Rightarrow> dec_ZERO)"

definition target_notional :: "dec \<Rightarrow> managed \<Rightarrow> dec \<Rightarrow> math_error + dec" where
  "target_notional base m risk_scale =
     try_bind (dmul base (mg_weight m)) (\<lambda>x. try_bind (dmul x risk_scale) round_toward_zero)"

definition plan_instrument ::
    "account_view \<Rightarrow> (string, price_point) btree_map \<Rightarrow> venue_rule_book \<Rightarrow> plan_config \<Rightarrow> dec \<Rightarrow> managed
      \<Rightarrow> plan_error + instrument_outcome" where
  "plan_instrument a prices book cfg base m =
     (case opt_filter (\<lambda>p. is_positive (pp_price p)) (map_of prices (mg_symbol m)) of
        None \<Rightarrow> Inr (no_trade [] [NoPrice])
      | Some price \<Rightarrow>
     (case book_get book (mg_venue m) of
        None \<Rightarrow> Inr (no_trade [] [NoVenueRules])
      | Some rules \<Rightarrow>
          let held = held_qty a m
          in if is_negative held \<and> \<not> mg_signed m then Inr (no_trade [] [ShortPositionHeld])
          else try_bind (plan_math (dmul held (pp_price price))) (\<lambda>current.
          try_bind (plan_math (target_notional base m (pc_risk_scale cfg))) (\<lambda>target.
          let ln = \<lparr>il_symbol = mg_symbol m, il_sleeve = sleeve_label m, il_held = held,
                il_current_notional = current, il_target_notional = target\<rparr>
          in try_bind (plan_math (dsub target current)) (\<lambda>delta.
          if is_zero delta then Inr (no_trade [ln] [])
          else try_bind (plan_math (dabs delta)) (\<lambda>abs_delta.
          if dec_lt abs_delta (pc_min_trade_abs cfg)
          then Inr (no_trade [ln] [BelowMinTradeAbs abs_delta (pc_min_trade_abs cfg)])
          else try_bind (plan_math (dabs (if is_zero target then current else target))) (\<lambda>reference.
          try_bind (plan_math (dmul (pc_min_trade_pct cfg) reference)) (\<lambda>pct_min.
          if dec_lt abs_delta pct_min then Inr (no_trade [ln] [BelowMinTradePct abs_delta pct_min])
          else try_bind (plan_math (trade_legs held current target delta abs_delta (pp_price price))) (\<lambda>legs.
          try_bind (run_legs rules m price legs dec_ZERO [] []) (\<lambda>(cands, skips).
          Inr \<lparr>io_lines = [ln], io_skips = skips, io_cands = cands\<rparr>))))))))))"

definition skip_of :: "managed \<Rightarrow> skip_reason \<Rightarrow> skipped_trade" where
  "skip_of m r = \<lparr>sk_symbol = mg_symbol m, sk_sleeve = sleeve_label m, sk_reason = r\<rparr>"

record candidate_set =
  cs_lines :: "instrument_line list"
  cs_skipped :: "skipped_trade list"
  cs_reducers :: "candidate list"
  cs_increasers :: "candidate list"

definition collect_candidates ::
    "account_view \<Rightarrow> (string, price_point) btree_map \<Rightarrow> venue_rule_book \<Rightarrow> plan_config \<Rightarrow> dec \<Rightarrow> managed list
      \<Rightarrow> plan_error + candidate_set" where
  "collect_candidates a prices book cfg base ms =
     try_fold (\<lambda>cs m. try_bind (plan_instrument a prices book cfg base m) (\<lambda>out.
        Inr \<lparr>cs_lines = cs_lines cs @ io_lines out,
             cs_skipped = cs_skipped cs @ map (skip_of m) (io_skips out),
             cs_reducers = cs_reducers cs @ filter cd_reducing (io_cands out),
             cs_increasers = cs_increasers cs @ filter (\<lambda>c. \<not> cd_reducing c) (io_cands out)\<rparr>))
       \<lparr>cs_lines = [], cs_skipped = [], cs_reducers = [], cs_increasers = []\<rparr> ms"

definition margin_check ::
    "policy \<Rightarrow> plan_config \<Rightarrow> dec \<Rightarrow> dec \<Rightarrow> position list \<Rightarrow> instrument_line list \<Rightarrow> plan_error + margin_report" where
  "margin_check p cfg equity base sim_positions lines =
     (if pc_signed_sleeves cfg = [] then Inr margin_long_only
      else try_bind (plan_math (try_fold (\<lambda>g l. try_bind (dabs (il_target_notional l)) (dadd g)) dec_ZERO lines)) (\<lambda>target_gross.
      let named = map (\<lambda>l. key (il_symbol l)) lines
      in try_bind (plan_math (try_fold (\<lambda>g q. if key (pos_symbol q) \<in> set named then Inr g
             else try_bind (dabs (pos_market_value q)) (dadd g)) target_gross sim_positions)) (\<lambda>projected.
      try_bind (case policy_limits p of
          None \<Rightarrow> Inr ()
        | Some l \<Rightarrow> try_bind (plan_math (dmul (l_max_gross l) base)) (\<lambda>cap.
            if dec_lt cap target_gross then Inl (GrossAboveCap target_gross cap) else Inr ())) (\<lambda>_.
      let needs_margin = (list_ex (\<lambda>l. is_negative (il_target_notional l)) lines \<or> dec_lt equity projected)
      in if needs_margin \<and> pc_buying_power cfg = None then Inl (BuyingPowerRequired projected)
         else Inr \<lparr>mr_signed = True, mr_needs_margin = needs_margin, mr_buying_power = pc_buying_power cfg,
                mr_buying_power_left = pc_buying_power cfg, mr_target_gross = target_gross,
                mr_projected_gross = projected, mr_margin_order_tags = []\<rparr>))))"

section \<open>Placing the orders in the simulation\<close>

record plan_state =
  ps_sim :: account_view
  ps_day :: day_counters
  ps_orders :: "planned_order list"
  ps_denied :: "denied_order list"
  ps_bp_left :: "dec option"
  ps_margin_tags :: "string list"

definition propose :: "candidate \<Rightarrow> dec \<Rightarrow> dec \<Rightarrow> proposed_order" where
  "propose c qty fee =
     \<lparr>po_venue = mg_venue (cd_m c), po_asset_class = mg_asset_class (cd_m c), po_symbol = mg_symbol (cd_m c),
      po_side = cd_side c, po_quantity = qty, po_price = Some (cd_price c), po_est_fee = fee,
      po_uses_margin = False, po_is_derivative = False, po_loss_rung_cover = False\<rparr>"

definition planned ::
    "plan_env \<Rightarrow> string \<Rightarrow> int \<Rightarrow> candidate \<Rightarrow> dec \<Rightarrow> dec \<Rightarrow> dec \<Rightarrow> planned_order" where
  "planned pe account_id sched c qty notional fee =
     (let sleeve = sleeve_label (cd_m c)
      in \<lparr>pl_tag = (if cd_leg c = CloseLeg
             then client_tag_close_leg pe account_id sched sleeve (mg_symbol (cd_m c)) (cd_side c)
             else client_tag pe account_id sched sleeve (mg_symbol (cd_m c)) (cd_side c)),
          pl_sleeve = sleeve, pl_venue = mg_venue (cd_m c), pl_asset_class = mg_asset_class (cd_m c),
          pl_symbol = mg_symbol (cd_m c), pl_side = cd_side c, pl_quantity = qty,
          pl_price = pp_price (cd_price c), pl_notional = notional, pl_est_fee = fee\<rparr>)"

definition try_order ::
    "plan_env \<Rightarrow> policy \<Rightarrow> venue_rule_book \<Rightarrow> plan_config \<Rightarrow> string \<Rightarrow> candidate \<Rightarrow> dec \<Rightarrow> plan_state
      \<Rightarrow> plan_error + (bool \<times> plan_state)" where
  "try_order pe p book cfg account_id c qty s =
     (let price = pp_price (cd_price c); signed_plan = (pc_signed_sleeves cfg \<noteq> [])
      in try_bind (plan_math (dmul qty price)) (\<lambda>notional.
      try_bind (plan_math (fee_for notional (pc_fee_rate cfg))) (\<lambda>fee.
      let proposed = propose c qty fee
      in try_bind (if signed_plan then plan_math (margin_use (ps_sim s) proposed price) else Inr False) (\<lambda>um.
      let proposed = proposed\<lparr>po_uses_margin := um\<rparr>;
          verdict = (if signed_plan
            then guard_check_signed p (ps_sim s) proposed (ps_day s) \<lparr>mc_buying_power_left = ps_bp_left s\<rparr> (vb_instruments book)
            else guard_check p (ps_sim s) proposed (ps_day s));
          o1 = planned pe account_id (pc_scheduled_for cfg) c qty notional fee
      in if v_allow verdict
         then try_bind (plan_math (apply_order (ps_sim s) (ps_day s) (cd_m c) (cd_side c) qty price fee)) (\<lambda>(sim, day).
              try_bind (case ps_bp_left s of
                  Some bp \<Rightarrow> if \<not> cd_reducing c
                    then try_bind (plan_math (dsub bp notional)) (\<lambda>b1. try_bind (plan_math (dsub b1 fee)) (\<lambda>b2. Inr (Some b2)))
                    else Inr (Some bp)
                | None \<Rightarrow> Inr None) (\<lambda>bp'.
              Inr (True, s\<lparr>ps_sim := sim, ps_day := day, ps_bp_left := bp',
                ps_margin_tags := ps_margin_tags s @ (if um then [pl_tag o1] else []),
                ps_orders := ps_orders s @ [o1]\<rparr>)))
         else Inr (False, s\<lparr>ps_denied := ps_denied s @ [\<lparr>dn_order = o1, dn_reasons = v_reasons verdict\<rparr>]\<rparr>)))))"

definition place_reducers ::
    "plan_env \<Rightarrow> policy \<Rightarrow> venue_rule_book \<Rightarrow> plan_config \<Rightarrow> string \<Rightarrow> candidate list \<Rightarrow> plan_state
      \<Rightarrow> plan_error + (plan_state \<times> string btree_set)" where
  "place_reducers pe p book cfg account_id cs s0 =
     try_fold (\<lambda>(s, closed) c.
        try_bind (try_order pe p book cfg account_id c (cd_qty c) s) (\<lambda>(placed, s').
        Inr (s', if placed \<and> cd_leg c = CloseLeg then bts_insert (mg_symbol (cd_m c)) closed else closed)))
       (s0, []) cs"

definition buy_cost :: "plan_config \<Rightarrow> candidate \<Rightarrow> dec \<Rightarrow> math_error + dec" where
  "buy_cost cfg c q =
     try_bind (dmul q (pp_price (cd_price c))) (\<lambda>n.
     try_bind (fee_for n (pc_fee_rate cfg)) (\<lambda>f. dadd n f))"

definition costs :: "plan_config \<Rightarrow> (candidate \<times> dec) list \<Rightarrow> math_error + dec list" where
  "costs cfg cqs = try_fold (\<lambda>acc (c, q). try_bind (buy_cost cfg c q) (\<lambda>x. Inr (acc @ [x]))) [] cqs"

definition scale_qty :: "venue_rule_book \<Rightarrow> dec \<Rightarrow> candidate \<times> dec \<Rightarrow> plan_error + dec" where
  "scale_qty book factor = (\<lambda>(c, q).
     try_bind (plan_math (dmul q factor)) (\<lambda>x.
     try_bind (plan_math (map_err (\<lambda>_. MathOverflow) (round_dp x 18 Floor))) (\<lambda>scaled.
     if is_zero scaled then Inr dec_ZERO
     else case map_option (\<lambda>r. vr_round_quantity r (mg_symbol (cd_m c)) (cd_side c) scaled (pp_price (cd_price c)))
                 (book_get book (mg_venue (cd_m c))) of
            Some (Inr rounded) \<Rightarrow>
              if dec_le rounded scaled then Inr rounded
              else Inl (VenueRoundedUp (mg_symbol (cd_m c)) scaled rounded)
          | _ \<Rightarrow> Inr dec_ZERO)))"

definition scale_buys :: "venue_rule_book \<Rightarrow> plan_config \<Rightarrow> dec \<Rightarrow> candidate list \<Rightarrow> plan_error + dec list" where
  "scale_buys book cfg available buys =
     (let cqs = map (\<lambda>c. (c, cd_qty c)) buys
      in if buys = [] then Inr []
      else try_bind (plan_math (costs cfg cqs)) (\<lambda>cs.
      try_bind (plan_math (dsum cs)) (\<lambda>total.
      if dec_lt available total
      then try_bind (plan_math (map_err (\<lambda>_. MathOverflow) (dec_new 1 8))) (\<lambda>u.
           try_bind (plan_math (dmul u (from_i64 (int (length buys))))) (\<lambda>slack.
           try_bind (plan_math (dsub available slack)) (\<lambda>usable.
           try_bind (if is_positive usable then plan_math (div_floor usable total 18) else Inr dec_ZERO) (\<lambda>factor.
           try_fold (\<lambda>acc cq. try_bind (scale_qty book factor cq) (\<lambda>q. Inr (acc @ [q]))) [] cqs))))
      else Inr (map cd_qty buys))))"

definition place_buys ::
    "plan_env \<Rightarrow> policy \<Rightarrow> venue_rule_book \<Rightarrow> plan_config \<Rightarrow> string \<Rightarrow> dec \<Rightarrow> (candidate \<times> dec) list
      \<Rightarrow> plan_state \<times> skipped_trade list \<Rightarrow> plan_error + (plan_state \<times> skipped_trade list)" where
  "place_buys pe p book cfg account_id available cqs st0 =
     try_fold (\<lambda>(s, skipped) (c, q).
        if is_zero q
        then Inr (s, skipped @ [skip_of (cd_m c) (if is_positive available then CutBelowVenueMinimum else NoCashAvailable)])
        else try_bind (try_order pe p book cfg account_id c q s) (\<lambda>(_, s'). Inr (s', skipped))) st0 cqs"

fun check_tags :: "string list \<Rightarrow> string btree_set \<Rightarrow> plan_error + unit" where
  "check_tags [] seen = Inr ()"
| "check_tags (t # ts) seen = (if t \<in> set seen then Inl (DuplicateTag t) else check_tags ts (bts_insert t seen))"

section \<open>The plan\<close>

definition digest_lines ::
    "plan_env \<Rightarrow> sleeve_target list \<Rightarrow> account_view \<Rightarrow> (string, price_point) btree_map \<Rightarrow> venue_rule_book \<Rightarrow> policy
      \<Rightarrow> plan_config \<Rightarrow> (string, managed) btree_map \<Rightarrow> string list" where
  "digest_lines pe targets a prices book p cfg mgd =
     [''rb-plan-digest-v1'',
      ''account|'' @ av_account_id a @ ''|'' @ av_ccy a @ ''|'' @ dtxt (av_equity a) @ ''|'' @ dtxt (av_cash a)
        @ ''|'' @ show_bool (av_halted a) @ ''|'' @ pe_rfc3339 pe (av_now a)]
     @ sort (map (\<lambda>q. ''pos|'' @ key (pos_symbol q) @ ''|'' @ to_lower (pos_venue q) @ ''|''
         @ to_lower (pos_asset_class q) @ ''|'' @ dtxt (pos_quantity q) @ ''|'' @ dtxt (pos_market_value q)) (av_positions a))
     @ map (\<lambda>(s, q). ''price|'' @ s @ ''|'' @ dtxt (pp_price q) @ ''|'' @ pe_rfc3339 pe (pp_as_of q)) prices
     @ sort (map (\<lambda>t. ''target|'' @ trim (st_sleeve t) @ ''|'' @ dtxt (st_share t) @ ''|'' @ to_lower (trim (st_venue t))
         @ ''|'' @ to_lower (trim (st_asset_class t)) @ ''|''
         @ join '','' (sort (map (\<lambda>w. key (tw_symbol w) @ ''='' @ dtxt (tw_weight w)) (st_weights t)))) targets)
     @ [''policy|'' @ p_body_hash p @ ''|'' @ pe_debug_envelope pe (p_envelope p) @ ''|'' @ show_int (p_max_price_age_secs p),
        ''cfg|'' @ pe_rfc3339 pe (pc_scheduled_for cfg) @ ''|'' @ dtxt (pc_risk_scale cfg) @ ''|''
        @ dtxt (pc_min_trade_abs cfg) @ ''|'' @ dtxt (pc_min_trade_pct cfg) @ ''|'' @ dtxt (pc_fee_rate cfg) @ ''|''
        @ show_bool (pc_credit_sell_proceeds cfg) @ ''|'' @ show_nat (dc_orders_today (pc_day cfg)) @ ''|''
        @ dtxt (dc_turnover_today (pc_day cfg))]
     @ (if pc_signed_sleeves cfg = [] then []
        else map (\<lambda>(id, m). ''signed|'' @ id @ ''|'' @ dtxt m) (pc_signed_sleeves cfg)
          @ [''buying_power|'' @ (case pc_buying_power cfg of None \<Rightarrow> ''-'' | Some d \<Rightarrow> dtxt d)]
          @ map (\<lambda>(_, m). ''instrument_rule|'' @ mg_venue m @ ''|'' @ mg_symbol m @ ''|''
              @ instrument_fingerprint (vb_instruments book) (mg_venue m) (mg_symbol m)) mgd)
     @ concat (map (\<lambda>(_, m). case book_get book (mg_venue m) of
          Some r \<Rightarrow> [''rules|'' @ vr_fingerprint r (mg_symbol m)] | None \<Rightarrow> []) mgd)"

definition digest_inputs ::
    "plan_env \<Rightarrow> sleeve_target list \<Rightarrow> account_view \<Rightarrow> (string, price_point) btree_map \<Rightarrow> venue_rule_book \<Rightarrow> policy
      \<Rightarrow> plan_config \<Rightarrow> (string, managed) btree_map \<Rightarrow> string" where
  "digest_inputs pe targets a prices book p cfg mgd =
     pe_sha256_hex pe (join [CHR 0x0A] (digest_lines pe targets a prices book p cfg mgd))"

definition by_venue_symbol :: "candidate \<Rightarrow> string \<times> string" where
  "by_venue_symbol c = (mg_venue (cd_m c), mg_symbol (cd_m c))"

definition plan_budget :: "plan_config \<Rightarrow> account_view \<Rightarrow> account_view \<Rightarrow> dec" where
  "plan_budget cfg a sim =
     (case (pc_signed_sleeves cfg \<noteq> [], pc_buying_power cfg) of
        (True, Some bp) \<Rightarrow> bp
      | _ \<Rightarrow> if pc_credit_sell_proceeds cfg then av_cash sim else dec_min (av_cash sim) (av_cash a))"

definition make_plan ::
    "plan_env \<Rightarrow> sleeve_target list \<Rightarrow> account_view \<Rightarrow> (string, price_point) btree_map \<Rightarrow> venue_rule_book \<Rightarrow> policy
      \<Rightarrow> plan_config \<Rightarrow> plan_error + order_plan" where
  "make_plan pe targets a prices0 book p cfg =
     try_bind (validate targets a cfg) (\<lambda>_.
     try_bind (aggregate targets cfg) (\<lambda>mgd.
     let prices = foldl (\<lambda>m (k, v). btm_insert (key k) v m) [] prices0;
         base = capital_base p (av_equity a) (av_ccy a); acct = av_account_id a
     in try_bind (plan_math (revalue_all prices (av_positions a))) (\<lambda>sim_positions.
     let sim0 = a\<lparr>av_positions := sim_positions\<rparr>
     in try_bind (collect_candidates a prices book cfg base (map snd mgd)) (\<lambda>cs.
     try_bind (margin_check p cfg (av_equity a) base sim_positions (cs_lines cs)) (\<lambda>margin.
     let reducers = sort_key by_venue_symbol (cs_reducers cs);
         increasers = sort_key by_venue_symbol (cs_increasers cs);
         s0 = \<lparr>ps_sim = sim0, ps_day = pc_day cfg, ps_orders = [], ps_denied = [],
               ps_bp_left = mr_buying_power_left margin, ps_margin_tags = []\<rparr>
     in try_bind (place_reducers pe p book cfg acct reducers s0) (\<lambda>(s1, closed).
     let open_ok = (\<lambda>c. \<not> (cd_leg c = OpenLeg \<and> mg_symbol (cd_m c) \<notin> set closed));
         buys = filter open_ok increasers;
         skipped1 = cs_skipped cs @ map (\<lambda>c. skip_of (cd_m c) FlipCloseLegNotPlaced) (filter (\<lambda>c. \<not> open_ok c) increasers)
     in try_bind (plan_math (reserve_amount p base)) (\<lambda>reserve.
     try_bind (plan_math (dsub (plan_budget cfg a (ps_sim s1)) reserve)) (\<lambda>available.
     try_bind (scale_buys book cfg available buys) (\<lambda>qtys.
     try_bind (place_buys pe p book cfg acct available (zip buys qtys) (s1, skipped1)) (\<lambda>(s2, skipped).
     try_bind (check_tags (map pl_tag (ps_orders s2) @ map (\<lambda>d. pl_tag (dn_order d)) (ps_denied s2)) []) (\<lambda>_.
     Inr \<lparr>op_inputs_digest = digest_inputs pe targets a prices book p cfg mgd, op_account_id = acct,
          op_scheduled_for = pc_scheduled_for cfg, op_equity = av_equity a, op_capital_base = base,
          op_risk_scale = pc_risk_scale cfg, op_orders = ps_orders s2, op_denied = ps_denied s2,
          op_skipped = skipped, op_lines = cs_lines cs,
          op_margin = margin\<lparr>mr_buying_power_left := ps_bp_left s2, mr_margin_order_tags := ps_margin_tags s2\<rparr>\<rparr>)))))))))))"

end
