(* ===== verification/Risk_Overlay.thy ===== *)
theory Risk_Overlay
  imports Risk_State
begin

text \<open>
  \<open>rebalancer-risk/src/overlay.rs\<close>: the drawdown ladder and the daily-loss limit on
  broker-reported equity. \<open>evaluate_risk\<close> is the pure decision, \<open>apply_decision\<close> turns it into
  the next state, \<open>step_with\<close> is the step of the run pipeline.
\<close>

section \<open>Policy\<close>

datatype rung_action = RaShrink dec | RaHaltFlatten

record rung =
  rung_at :: dec
  rung_action :: rung_action

record risk_policy =
  rp_daily_loss_limit :: dec
  rp_rungs :: "rung list"
  rp_recovery_fraction :: dec

type_synonym risk_policy_error = string

text \<open>
  The loop of \<open>RiskPolicy::new\<close>: \<open>check_rungs\<close> runs over the remaining rungs; the last one is
  the one with nothing after it.
\<close>

fun check_rungs :: "dec \<Rightarrow> dec \<Rightarrow> rung list \<Rightarrow> risk_policy_error + unit" where
  "check_rungs prev_at prev_scale [] = Inr ()"
| "check_rungs prev_at prev_scale (r # rs) =
     (if dec_le (rung_at r) prev_at \<or> dec_lt risk_one (rung_at r)
      then Inl ''ladder rungs must be strictly ascending fractions in (0, 1]''
      else case rung_action r of
        RaShrink scale \<Rightarrow>
          if rs = [] then Inl ''the last rung must be halt_flatten''
          else if dec_le scale dec_ZERO \<or> dec_le risk_one scale then Inl ''a shrink scale must be in (0, 1)''
          else if dec_lt prev_scale scale then Inl ''a later shrink rung cannot scale back up''
          else check_rungs (rung_at r) scale rs
      | RaHaltFlatten \<Rightarrow>
          if rs \<noteq> [] then Inl ''only the last rung may be halt_flatten''
          else check_rungs (rung_at r) prev_scale rs)"

definition risk_policy_new :: "dec \<Rightarrow> rung list \<Rightarrow> dec \<Rightarrow> risk_policy_error + risk_policy" where
  "risk_policy_new daily_loss_limit rungs recovery_fraction =
     (if dec_le daily_loss_limit dec_ZERO \<or> dec_lt risk_one daily_loss_limit
      then Inl ''daily_loss_limit must be in (0, 1]''
      else if dec_le recovery_fraction dec_ZERO \<or> dec_lt risk_one recovery_fraction
      then Inl ''recovery_fraction must be in (0, 1]''
      else if rungs = [] then Inl ''the ladder needs at least one rung''
      else try_bind (check_rungs dec_ZERO risk_one rungs) (\<lambda>_.
        Inr \<lparr>rp_daily_loss_limit = daily_loss_limit, rp_rungs = rungs,
             rp_recovery_fraction = recovery_fraction\<rparr>))"

definition with_recovery_fraction :: "risk_policy \<Rightarrow> dec \<Rightarrow> risk_policy_error + risk_policy" where
  "with_recovery_fraction p f =
     (if dec_le f dec_ZERO \<or> dec_lt risk_one f then Inl ''recovery_fraction must be in (0, 1]''
      else Inr (p\<lparr>rp_recovery_fraction := f\<rparr>))"

section \<open>Decision\<close>

datatype risk_code =
    NoAction
  | DrawdownShrink
  | ShrinkHeld
  | PartialRecovery
  | Recovered
  | DrawdownHalt
  | DailyLossHalt
  | AlreadyHalted
  | RcEquityInvalid
  | ArithmeticOverflow

definition risk_code_as_str :: "risk_code \<Rightarrow> string" where
  "risk_code_as_str c =
     (case c of NoAction \<Rightarrow> ''RISK_NO_ACTION'' | DrawdownShrink \<Rightarrow> ''RISK_DRAWDOWN_SHRINK''
      | ShrinkHeld \<Rightarrow> ''RISK_SHRINK_HELD'' | PartialRecovery \<Rightarrow> ''RISK_PARTIAL_RECOVERY''
      | Recovered \<Rightarrow> ''RISK_RECOVERED'' | DrawdownHalt \<Rightarrow> ''RISK_DRAWDOWN_HALT''
      | DailyLossHalt \<Rightarrow> ''RISK_DAILY_LOSS_HALT'' | AlreadyHalted \<Rightarrow> ''RISK_ALREADY_HALTED''
      | RcEquityInvalid \<Rightarrow> ''RISK_EQUITY_INVALID'' | ArithmeticOverflow \<Rightarrow> ''RISK_ARITHMETIC_OVERFLOW'')"

type_synonym risk_reason = "risk_code \<times> string"

datatype risk_action = ActNone | ActShrink dec | ActHaltFlatten

record risk_decision =
  rd_risk_scale :: dec
  rd_action :: risk_action
  rd_reasons :: "risk_reason list"
  rd_next_rung :: "nat option"
  rd_halt_reason :: "halt_reason option"
  rd_drawdown :: "dec option"
  rd_daily_loss :: "dec option"

definition has_code :: "risk_decision \<Rightarrow> risk_code \<Rightarrow> bool" where
  "has_code d c \<longleftrightarrow> list_ex (\<lambda>r. fst r = c) (rd_reasons d)"

definition decision_codes :: "risk_decision \<Rightarrow> string list" where
  "decision_codes d = map (\<lambda>r. risk_code_as_str (fst r)) (rd_reasons d)"

definition decision_halted :: "halt_reason \<Rightarrow> risk_reason list \<Rightarrow> dec option \<Rightarrow> dec option \<Rightarrow> risk_decision" where
  "decision_halted h reasons drawdown daily_loss =
     \<lparr>rd_risk_scale = dec_ZERO, rd_action = ActHaltFlatten, rd_reasons = reasons, rd_next_rung = None,
      rd_halt_reason = Some h, rd_drawdown = drawdown, rd_daily_loss = daily_loss\<rparr>"

text \<open>\<open>Display\<close> of \<open>MathError\<close> (\<open>dec_math.rs\<close>).\<close>

definition math_error_text :: "math_error \<Rightarrow> string" where
  "math_error_text e =
     (case e of MathOverflow \<Rightarrow> ''decimal arithmetic overflow''
      | BadDivisor \<Rightarrow> ''division by a non-positive number''
      | BadRatio v why \<Rightarrow> ''ratio '' @ v @ '' cannot be converted: '' @ why)"

definition breached :: "dec \<Rightarrow> dec \<Rightarrow> dec \<Rightarrow> math_error + bool" where
  "breached ref eq fraction =
     try_bind (dsub ref eq) (\<lambda>loss.
     try_bind (dmul fraction ref) (\<lambda>threshold.
     Inr (dec_le threshold loss)))"

definition recovered :: "dec \<Rightarrow> dec \<Rightarrow> dec \<Rightarrow> dec \<Rightarrow> math_error + bool" where
  "recovered ref eq trig recovery =
     try_bind (dsub ref eq) (\<lambda>loss.
     try_bind (dmul trig recovery) (\<lambda>m.
     try_bind (dmul m ref) (\<lambda>threshold.
     Inr (dec_le loss threshold))))"

definition res_ok :: "'e + 'a \<Rightarrow> 'a option" where
  "res_ok r = (case r of Inl _ \<Rightarrow> None | Inr x \<Rightarrow> Some x)"

definition fraction_of :: "dec \<Rightarrow> dec \<Rightarrow> dec option" where
  "fraction_of ref eq =
     (case res_ok (dsub ref eq) of None \<Rightarrow> None
      | Some loss \<Rightarrow>
          if is_negative loss
          then case res_ok (dsub eq ref) of None \<Rightarrow> None
               | Some gain \<Rightarrow>
                   (case res_ok (div_floor gain ref 6) of None \<Rightarrow> None
                    | Some f \<Rightarrow>
                        (case checked_add dec_ZERO f of None \<Rightarrow> None
                         | Some g \<Rightarrow> res_ok (dsub dec_ZERO g)))
          else res_ok (div_floor loss ref 6))"

text \<open>The daily-loss part: the recorded fraction, and the reason when the limit is hit.\<close>

definition daily_loss_part :: "account_state \<Rightarrow> dec \<Rightarrow> risk_policy \<Rightarrow> math_error + dec option \<times> risk_reason option" where
  "daily_loss_part s eq p =
     (case ac_day_start_equity s of
        None \<Rightarrow> Inr (None, None)
      | Some day_start \<Rightarrow>
          if is_positive day_start
          then try_bind (breached day_start eq (rp_daily_loss_limit p)) (\<lambda>b.
               if b
               then try_bind (dsub day_start eq) (\<lambda>lost.
                    Inr (fraction_of day_start eq,
                         Some (DailyLossHalt,
                               ''equity '' @ dec_to_string eq @ '' is '' @ dec_to_string lost
                               @ '' below the day-start '' @ dec_to_string day_start
                               @ '': the daily loss limit is '' @ dec_to_string (rp_daily_loss_limit p))))
               else Inr (fraction_of day_start eq, None))
          else Inr (None, None))"

text \<open>The highest rung hit: the loop keeps the last index whose rung is breached.\<close>

fun highest_rung :: "dec \<Rightarrow> dec \<Rightarrow> nat \<Rightarrow> rung list \<Rightarrow> nat option \<Rightarrow> math_error + nat option" where
  "highest_rung h eq i [] raw = Inr raw"
| "highest_rung h eq i (r # rs) raw =
     try_bind (breached h eq (rung_at r)) (\<lambda>b.
     highest_rung h eq (Suc i) rs (if b then Some i else raw))"

definition held_start :: "account_state \<Rightarrow> risk_policy \<Rightarrow> nat option" where
  "held_start s p =
     (let last_shrink = (if length (rp_rungs p) \<ge> 2 then Some (length (rp_rungs p) - 2) else None)
      in if ac_status s = AsShrunk
         then case (ac_shrink_rung s, last_shrink) of
                (Some c, Some l) \<Rightarrow> Some (min c l)
              | (Some _, None) \<Rightarrow> None
              | (None, Some l) \<Rightarrow> Some l
              | (None, None) \<Rightarrow> None
         else None)"

text \<open>The hysteresis loop: release one rung at a time while the drawdown has recovered from it.\<close>

fun release :: "dec \<Rightarrow> dec \<Rightarrow> risk_policy \<Rightarrow> nat \<Rightarrow> math_error + nat option" where
  "release h eq p c =
     try_bind (recovered h eq (rung_at (rp_rungs p ! c)) (rp_recovery_fraction p)) (\<lambda>b.
     if b then case c of 0 \<Rightarrow> Inr None | Suc c' \<Rightarrow> release h eq p c'
     else Inr (Some c))"

definition release_from :: "dec \<Rightarrow> dec \<Rightarrow> risk_policy \<Rightarrow> nat option \<Rightarrow> math_error + nat option" where
  "release_from h eq p held = (case held of None \<Rightarrow> Inr None | Some c \<Rightarrow> release h eq p c)"

definition max_rung :: "nat option \<Rightarrow> nat option \<Rightarrow> nat option" where
  "max_rung a b = (case (a, b) of (Some x, Some y) \<Rightarrow> Some (max x y) | (None, y) \<Rightarrow> y | (x, None) \<Rightarrow> x)"

text \<open>The last part of \<open>evaluate_inner\<close>: the decision for the rung in force.\<close>

definition posture :: "account_state \<Rightarrow> risk_policy \<Rightarrow> dec \<Rightarrow> nat option \<Rightarrow> nat option \<Rightarrow> dec option \<Rightarrow> dec option \<Rightarrow> risk_decision" where
  "posture s p h raw target drawdown daily_loss =
     (case target of
        None \<Rightarrow>
          \<lparr>rd_risk_scale = risk_one, rd_action = ActNone,
           rd_reasons = [if ac_status s = AsShrunk
             then (Recovered, ''drawdown recovered to within '' @ dec_to_string (rp_recovery_fraction p)
                     @ '' of the shrink trigger: full size again'')
             else (NoAction, ''no risk limit is hit'')],
           rd_next_rung = None, rd_halt_reason = None, rd_drawdown = drawdown, rd_daily_loss = daily_loss\<rparr>
      | Some i \<Rightarrow>
          (case rung_action (rp_rungs p ! i) of
             RaHaltFlatten \<Rightarrow>
               decision_halted HrDrawdownLadder
                 [(DrawdownHalt, ''internal: halt rung reached the shrink branch'')] drawdown daily_loss
           | RaShrink scale \<Rightarrow>
               let newly = (raw = Some i \<and> ac_shrink_rung s \<noteq> Some i);
                   stepped_down = (ac_status s = AsShrunk \<and>
                     (case ac_shrink_rung s of None \<Rightarrow> False | Some c \<Rightarrow> i < c));
                   code = (if newly then DrawdownShrink else if stepped_down then PartialRecovery else ShrinkHeld)
               in \<lparr>rd_risk_scale = scale, rd_action = ActShrink scale,
                   rd_reasons = [(code, ''drawdown ''
                     @ (case drawdown of None \<Rightarrow> ''?'' | Some d \<Rightarrow> dec_to_string d)
                     @ '' from the high-water mark '' @ dec_to_string h @ '': shrink rung ''
                     @ dec_to_string (rung_at (rp_rungs p ! i)) @ '' in force, targets scaled by '' @ dec_to_string scale)],
                   rd_next_rung = Some i, rd_halt_reason = None,
                   rd_drawdown = drawdown, rd_daily_loss = daily_loss\<rparr>))"

definition ladder_part :: "dec \<Rightarrow> dec \<Rightarrow> risk_policy \<Rightarrow> nat option \<Rightarrow> math_error + risk_reason option" where
  "ladder_part h eq p raw =
     (case raw of None \<Rightarrow> Inr None
      | Some i \<Rightarrow>
          if rung_action (rp_rungs p ! i) = RaHaltFlatten
          then try_bind (dsub h eq) (\<lambda>lost.
               Inr (Some (DrawdownHalt,
                 ''equity '' @ dec_to_string eq @ '' is '' @ dec_to_string lost @ '' below the high-water mark ''
                 @ dec_to_string h @ '': the halt rung is '' @ dec_to_string (rung_at (rp_rungs p ! i)))))
          else Inr None)"

definition opt_list :: "'a option \<Rightarrow> 'a list" where
  "opt_list m = (case m of None \<Rightarrow> [] | Some x \<Rightarrow> [x])"

definition evaluate_inner :: "account_state \<Rightarrow> equity_snapshot \<Rightarrow> risk_policy \<Rightarrow> math_error + risk_decision" where
  "evaluate_inner s snap p =
     (let eq = es_equity snap
      in if is_halt (ac_status s)
         then Inr \<lparr>rd_risk_scale = dec_ZERO, rd_action = ActNone,
                   rd_reasons = [(AlreadyHalted, ''the account is '' @ status_as_str (ac_status s)
                     @ '': no equity path can change that, only a human resume can'')],
                   rd_next_rung = None, rd_halt_reason = None, rd_drawdown = None, rd_daily_loss = None\<rparr>
         else if \<not> is_positive eq
         then Inr (decision_halted HrEquityInvalid
                [(RcEquityInvalid, ''broker-reported equity '' @ dec_to_string eq @ '' is not positive'')] None None)
         else
           let h = ratchet (ac_hwm s) eq; drawdown = fraction_of h eq
           in try_bind (daily_loss_part s eq p) (\<lambda>(daily_loss, daily).
              try_bind (highest_rung h eq 0 (rp_rungs p) None) (\<lambda>raw.
              try_bind (ladder_part h eq p raw) (\<lambda>ladder.
              if daily \<noteq> None \<or> ladder \<noteq> None
              then Inr (decision_halted (if daily \<noteq> None then HrDailyLoss else HrDrawdownLadder)
                          (opt_list daily @ opt_list ladder) drawdown daily_loss)
              else try_bind (release_from h eq p (held_start s p)) (\<lambda>held.
                   Inr (posture s p h raw (max_rung raw held) drawdown daily_loss))))))"

definition evaluate_risk :: "account_state \<Rightarrow> equity_snapshot \<Rightarrow> risk_policy \<Rightarrow> risk_decision" where
  "evaluate_risk s snap p =
     (case evaluate_inner s snap p of
        Inr d \<Rightarrow> d
      | Inl e \<Rightarrow> decision_halted HrEquityInvalid
          [(ArithmeticOverflow, ''risk arithmetic failed ('' @ math_error_text e @ ''); failing closed'')] None None)"

section \<open>Applying a decision\<close>

definition apply_decision :: "account_state \<Rightarrow> risk_decision \<Rightarrow> int \<Rightarrow> account_state \<times> transition option" where
  "apply_decision s d now =
     (if is_halt (ac_status s) then (s, None)
      else case rd_action d of
        ActNone \<Rightarrow> with_full_size s
      | ActShrink scale \<Rightarrow>
          (case rd_next_rung d of
             Some r \<Rightarrow> with_shrink s scale r
           | None \<Rightarrow> begin_flatten s HrEquityInvalid
               ''internal: a shrink decision without a rung; failing closed'' now)
      | ActHaltFlatten \<Rightarrow>
          begin_flatten s (case rd_halt_reason d of Some h \<Rightarrow> h | None \<Rightarrow> HrEquityInvalid)
            (join '' | '' (map (\<lambda>r. risk_code_as_str (fst r) @ '': '' @ snd r) (rd_reasons d))) now)"

definition step_with :: "account_state \<Rightarrow> equity_snapshot \<Rightarrow> int \<Rightarrow> risk_policy \<Rightarrow> day_start_rule \<Rightarrow>
    account_state \<times> risk_decision \<times> transition option" where
  "step_with s snap day p rule =
     (let observed = observe_with s snap day rule;
          decision = evaluate_risk observed snap p;
          (next_s, tr) = apply_decision observed decision (es_at snap)
      in (next_s, decision, tr))"

definition step :: "account_state \<Rightarrow> equity_snapshot \<Rightarrow> int \<Rightarrow> risk_policy \<Rightarrow>
    account_state \<times> risk_decision \<times> transition option" where
  "step s snap day p = step_with s snap day p FirstObservation"

end
