(* ===== verification/Risk_Props.thy ===== *)
theory Risk_Props
  imports Risk_Overlay
begin

text \<open>
  What the risk overlay decides, over the rational values of the decimals: a rung is in force when
  its trigger is hit now, or when the account is shrunk at or above it and has not recovered from
  it; the highest such rung sets the scale, and the halt rung or the daily-loss limit halts.
\<close>

section \<open>Optional maxima of finite sets\<close>

definition opt_Max :: "nat set \<Rightarrow> nat option" where
  "opt_Max S = (if S = {} then None else Some (Max S))"

lemma opt_Max_empty [simp]: "opt_Max {} = None"
  by (simp add: opt_Max_def)

lemma opt_Max_None [simp]: "opt_Max S = None \<longleftrightarrow> S = {}"
  by (simp add: opt_Max_def)

lemma opt_Max_Some: "finite S \<Longrightarrow> opt_Max S = Some i \<longleftrightarrow> i \<in> S \<and> (\<forall>j\<in>S. j \<le> i)"
  by (cases "S = {}") (auto simp: opt_Max_def intro: Max_eqI Max_in)

lemma max_rung_opt_Max:
  "finite A \<Longrightarrow> finite B \<Longrightarrow> max_rung (opt_Max A) (opt_Max B) = opt_Max (A \<union> B)"
  by (auto simp: opt_Max_def max_rung_def Max_Un)

section \<open>The policy's invariants\<close>

definition rung_ok :: "rung \<Rightarrow> bool" where
  "rung_ok r \<longleftrightarrow> dec_ok (rung_at r) \<and> (case rung_action r of RaShrink sc \<Rightarrow> dec_ok sc | RaHaltFlatten \<Rightarrow> True)"

definition risk_policy_ok :: "risk_policy \<Rightarrow> bool" where
  "risk_policy_ok p \<longleftrightarrow> dec_ok (rp_daily_loss_limit p) \<and> dec_ok (rp_recovery_fraction p) \<and>
     list_all rung_ok (rp_rungs p) \<and>
     risk_policy_new (rp_daily_loss_limit p) (rp_rungs p) (rp_recovery_fraction p) = Inr p"

text \<open>The scale a rung stands for: zero for the halt rung.\<close>

definition rung_scale :: "rung \<Rightarrow> rat" where
  "rung_scale r = (case rung_action r of RaShrink sc \<Rightarrow> dval sc | RaHaltFlatten \<Rightarrow> 0)"

lemma dval_risk_one [simp]: "dval risk_one = 1"
  by (simp add: risk_one_def)

lemma dec_ok_one' [simp]: "dec_ok risk_one"
  by (simp add: risk_one_def)

text \<open>The shape the constructor enforces, over the values.\<close>

fun ladder_ok :: "rat \<Rightarrow> rat \<Rightarrow> rung list \<Rightarrow> bool" where
  "ladder_ok pa ps [] = True"
| "ladder_ok pa ps (r # rs) \<longleftrightarrow>
     pa < dval (rung_at r) \<and> dval (rung_at r) \<le> 1 \<and>
     (case rung_action r of
        RaShrink sc \<Rightarrow> rs \<noteq> [] \<and> 0 < dval sc \<and> dval sc < 1 \<and> dval sc \<le> ps \<and> ladder_ok (dval (rung_at r)) (dval sc) rs
      | RaHaltFlatten \<Rightarrow> rs = [])"

lemma check_rungs_iff:
  "dec_ok pa \<Longrightarrow> dec_ok ps \<Longrightarrow> list_all rung_ok rs \<Longrightarrow>
   check_rungs pa ps rs = Inr () \<longleftrightarrow> ladder_ok (dval pa) (dval ps) rs"
proof (induction pa ps rs rule: check_rungs.induct)
  case (2 pa ps r rs)
  then have "dec_ok (rung_at r)" "list_all rung_ok rs" by (simp_all add: rung_ok_def [of r])
  with 2 show ?case
    by (cases "rung_action r") (auto simp: dec_order rung_ok_def [of r] not_less not_le)
qed simp

lemma ladder_ok_at: "ladder_ok pa ps rs \<Longrightarrow> i < length rs \<Longrightarrow> pa < dval (rung_at (rs ! i)) \<and> dval (rung_at (rs ! i)) \<le> 1"
proof (induction rs arbitrary: pa ps i)
  case (Cons r rs)
  then show ?case by (cases i; cases "rung_action r") (fastforce)+
qed simp

lemma ladder_ok_action:
  "ladder_ok pa ps rs \<Longrightarrow> i < length rs \<Longrightarrow>
   (if Suc i = length rs then rung_action (rs ! i) = RaHaltFlatten
    else \<exists>sc. rung_action (rs ! i) = RaShrink sc \<and> 0 < dval sc \<and> dval sc < 1 \<and> dval sc \<le> ps)"
proof (induction rs arbitrary: pa ps i)
  case (Cons r rs)
  then show ?case by (cases i; cases "rung_action r") (fastforce split: if_splits)+
qed simp

lemma ladder_ok_scale_antimono:
  "ladder_ok pa ps rs \<Longrightarrow> i \<le> j \<Longrightarrow> j < length rs \<Longrightarrow> rung_scale (rs ! j) \<le> rung_scale (rs ! i)"
proof (induction rs arbitrary: pa ps i j)
  case (Cons r rs)
  show ?case
  proof (cases "rung_action r")
    case (RaShrink sc)
    with Cons.prems have l: "ladder_ok (dval (rung_at r)) (dval sc) rs" "0 < dval sc" by simp_all
    have "rung_scale (rs ! k) \<le> dval sc" if "k < length rs" for k
      using ladder_ok_action [OF l(1) that] l(2) by (auto simp: rung_scale_def split: if_splits)
    then show ?thesis using Cons.IH [OF l(1)] Cons.prems RaShrink
      by (cases i; cases j) (auto simp: rung_scale_def)
  qed (use Cons.prems in auto)
qed simp

lemma ladder_ok_at_mono:
  "ladder_ok pa ps rs \<Longrightarrow> i < j \<Longrightarrow> j < length rs \<Longrightarrow> dval (rung_at (rs ! i)) < dval (rung_at (rs ! j))"
proof (induction rs arbitrary: pa ps i j)
  case (Cons r rs)
  then show ?case
    by (cases "rung_action r"; cases i; cases j) (auto dest: ladder_ok_at)
qed simp

lemma risk_policy_okD:
  assumes "risk_policy_ok p"
  shows "ladder_ok 0 1 (rp_rungs p)" and "rp_rungs p \<noteq> []"
    and "0 < dval (rp_daily_loss_limit p)" "dval (rp_daily_loss_limit p) \<le> 1"
    and "0 < dval (rp_recovery_fraction p)" "dval (rp_recovery_fraction p) \<le> 1"
    and "dec_ok (rp_daily_loss_limit p)" "dec_ok (rp_recovery_fraction p)" "list_all rung_ok (rp_rungs p)"
  using assms check_rungs_iff [of dec_ZERO risk_one "rp_rungs p"]
  by (auto simp: risk_policy_ok_def risk_policy_new_def dec_order res_inv split: if_splits)

lemma rung_at_ok: "risk_policy_ok p \<Longrightarrow> i < length (rp_rungs p) \<Longrightarrow> dec_ok (rung_at (rp_rungs p ! i))"
  by (auto simp: risk_policy_ok_def list_all_length rung_ok_def)

section \<open>Triggers over the values\<close>

definition hit :: "rat \<Rightarrow> rat \<Rightarrow> rat \<Rightarrow> bool" where
  "hit ref e f \<longleftrightarrow> floor_dp 18 (f * ref) \<le> ref - e"

definition back_within :: "rat \<Rightarrow> rat \<Rightarrow> rat \<Rightarrow> rat \<Rightarrow> bool" where
  "back_within ref e trig f \<longleftrightarrow> ref - e \<le> floor_dp 18 (floor_dp 18 (trig * f) * ref)"

lemma breached_hit:
  "breached ref e f = Inr b \<Longrightarrow> dec_ok ref \<Longrightarrow> dec_ok f \<Longrightarrow> b \<longleftrightarrow> hit (dval ref) (dval e) (dval f)"
  using dsub_ok dmul_ok by (auto simp: breached_def try_bind_Inr hit_def dec_order dsub_val dmul_val)

lemma recovered_back_within:
  "recovered ref e t f = Inr b \<Longrightarrow> dec_ok ref \<Longrightarrow> dec_ok t \<Longrightarrow> dec_ok f \<Longrightarrow>
   b \<longleftrightarrow> back_within (dval ref) (dval e) (dval t) (dval f)"
  using dsub_ok dmul_ok by (auto simp: recovered_def try_bind_Inr back_within_def dec_order dsub_val dmul_val)

text \<open>The high-water mark of a reading, and the ladder's two monotonicity facts.\<close>

definition mark :: "rat option \<Rightarrow> rat \<Rightarrow> rat" where
  "mark h e = (case h of None \<Rightarrow> e | Some m \<Rightarrow> max m e)"

lemma ratchet_mark:
  "dec_ok e \<Longrightarrow> pred_option dec_ok h \<Longrightarrow>
   dval (ratchet h e) = mark (map_option dval h) (dval e) \<and> dec_ok (ratchet h e)"
  by (auto simp: ratchet_def mark_def dec_order max_def split: option.splits)

lemma mark_cases: "mark h e = e \<or> (\<exists>m. h = Some m \<and> mark h e = m \<and> e < m)"
  by (cases h) (auto simp: mark_def max_def)

lemma mark_ge: "e \<le> mark h e"
  by (cases h) (auto simp: mark_def)

lemma hit_mono_mark:
  assumes "e1 \<le> e2" and "0 \<le> f" and h: "hit (mark h e2) e2 f"
  shows "hit (mark h e1) e1 f"
proof (cases "mark h e1 = mark h e2")
  case True
  with assms show ?thesis by (simp add: hit_def)
next
  case False
  then have m2: "mark h e2 = e2" and le: "mark h e1 \<le> e2"
    using assms(1) by (cases h; auto simp: mark_def max_def split: if_splits)+
  from h m2 have "floor_dp 18 (f * e2) \<le> 0" by (simp add: hit_def)
  moreover have "floor_dp 18 (f * mark h e1) \<le> floor_dp 18 (f * e2)"
    using le assms(2) by (intro floor_dp_mono mult_left_mono)
  ultimately show ?thesis using mark_ge [of e1 h] by (simp add: hit_def)
qed

lemma back_within_mono_mark:
  assumes "e1 \<le> e2" and "0 < e2" "0 \<le> t" "0 \<le> f" and b: "back_within (mark h e1) e1 t f"
  shows "back_within (mark h e2) e2 t f"
proof (cases "mark h e2 = e2")
  case True
  have "0 \<le> floor_dp 18 (floor_dp 18 (t * f) * e2)"
    using assms by (intro floor_dp_nonneg mult_nonneg_nonneg) auto
  with True show ?thesis by (simp add: back_within_def)
next
  case False
  then have "mark h e1 = mark h e2" using assms(1) by (cases h) (auto simp: mark_def max_def split: if_splits)
  with b assms(1) show ?thesis by (simp add: back_within_def)
qed

section \<open>The decision over the values\<close>

definition account_decs_ok :: "account_state \<Rightarrow> bool" where
  "account_decs_ok s \<longleftrightarrow> pred_option dec_ok (ac_hwm s) \<and> pred_option dec_ok (ac_day_start_equity s) \<and> dec_ok (ac_risk_scale s)"

definition daily_hit :: "account_state \<Rightarrow> risk_policy \<Rightarrow> rat \<Rightarrow> bool" where
  "daily_hit s p e =
     (case ac_day_start_equity s of None \<Rightarrow> False
      | Some d \<Rightarrow> 0 < dval d \<and> hit (dval d) e (dval (rp_daily_loss_limit p)))"

definition rungs_hit :: "risk_policy \<Rightarrow> rat \<Rightarrow> rat \<Rightarrow> nat set" where
  "rungs_hit p h e = {i. i < length (rp_rungs p) \<and> hit h e (dval (rung_at (rp_rungs p ! i)))}"

definition rungs_held :: "account_state \<Rightarrow> risk_policy \<Rightarrow> rat \<Rightarrow> rat \<Rightarrow> nat set" where
  "rungs_held s p h e =
     {j. \<exists>c. held_start s p = Some c \<and> j \<le> c \<and>
       \<not> back_within h e (dval (rung_at (rp_rungs p ! j))) (dval (rp_recovery_fraction p))}"

definition must_halt :: "account_state \<Rightarrow> risk_policy \<Rightarrow> rat \<Rightarrow> bool" where
  "must_halt s p e \<longleftrightarrow> e \<le> 0 \<or> daily_hit s p e \<or>
     length (rp_rungs p) - 1 \<in> rungs_hit p (mark (map_option dval (ac_hwm s)) e) e"

definition rung_in_force :: "account_state \<Rightarrow> risk_policy \<Rightarrow> rat \<Rightarrow> nat option" where
  "rung_in_force s p e =
     (let h = mark (map_option dval (ac_hwm s)) e in opt_Max (rungs_hit p h e \<union> rungs_held s p h e))"

definition risk_verdict :: "account_state \<Rightarrow> risk_policy \<Rightarrow> rat \<Rightarrow> rat \<times> nat option" where
  "risk_verdict s p e =
     (if must_halt s p e then (0, None)
      else case rung_in_force s p e of None \<Rightarrow> (1, None) | Some i \<Rightarrow> (rung_scale (rp_rungs p ! i), Some i))"

lemma finite_rungs [simp]: "finite (rungs_hit p h e)" "finite (rungs_held s p h e)"
proof -
  show "finite (rungs_hit p h e)" by (simp add: rungs_hit_def)
  have "rungs_held s p h e \<subseteq> {.. (case held_start s p of None \<Rightarrow> 0 | Some c \<Rightarrow> c)}"
    by (auto simp: rungs_held_def)
  then show "finite (rungs_held s p h e)" using finite_subset by blast
qed

lemma held_start_less: "held_start s p = Some c \<Longrightarrow> Suc c < length (rp_rungs p)"
  by (auto simp: held_start_def Let_def split: if_splits option.splits)

lemma opt_Max_insert: "finite A \<Longrightarrow> \<forall>a\<in>A. a < i \<Longrightarrow> opt_Max (insert i A) = Some i"
  by (subst opt_Max_Some) (auto intro: less_imp_le)

lemma highest_rung_opt_Max:
  "highest_rung h e i rs (opt_Max A) = Inr r \<Longrightarrow> dec_ok h \<Longrightarrow> list_all rung_ok rs \<Longrightarrow>
   finite A \<Longrightarrow> \<forall>a\<in>A. a < i \<Longrightarrow>
   r = opt_Max (A \<union> {i + k |k. k < length rs \<and> hit (dval h) (dval e) (dval (rung_at (rs ! k)))})"
proof (induction rs arbitrary: i A)
  case (Cons x xs)
  let ?hit = "\<lambda>x. hit (dval h) (dval e) (dval (rung_at x))"
  from Cons.prems obtain b where b: "breached h e (rung_at x) = Inr b"
    and r: "highest_rung h e (Suc i) xs (if b then Some i else opt_Max A) = Inr r"
    by (auto simp: try_bind_Inr)
  have bx: "b \<longleftrightarrow> ?hit x" using b Cons.prems by (intro breached_hit) (auto simp: rung_ok_def)
  let ?A = "if ?hit x then insert i A else A"
  have "(if b then Some i else opt_Max A) = opt_Max ?A" using Cons.prems by (simp add: bx opt_Max_insert)
  with r have "r = opt_Max (?A \<union> {Suc i + k |k. k < length xs \<and> ?hit (xs ! k)})"
    using Cons.prems by (intro Cons.IH) (auto intro: less_SucI)
  also have "?A \<union> {Suc i + k |k. k < length xs \<and> ?hit (xs ! k)} =
      A \<union> {i + k |k. k < length (x # xs) \<and> ?hit ((x # xs) ! k)}"
    by (auto simp: less_Suc_eq_0_disj split: if_splits)
  finally show ?case .
qed simp

lemma highest_rung_hit:
  "highest_rung h e 0 (rp_rungs p) None = Inr r \<Longrightarrow> dec_ok h \<Longrightarrow> risk_policy_ok p \<Longrightarrow>
   r = opt_Max (rungs_hit p (dval h) (dval e))"
  using highest_rung_opt_Max [of h e 0 "rp_rungs p" "{}" r] by (simp add: risk_policy_okD rungs_hit_def)

lemma le_Suc_insert: "{j. j \<le> Suc c \<and> P j} = (if P (Suc c) then insert (Suc c) {j. j \<le> c \<and> P j} else {j. j \<le> c \<and> P j})"
  by (auto simp: le_Suc_eq)

lemma eq_zero_Collect: "{j. j = (0::nat) \<and> P j} = (if P 0 then {0} else {})"
  by auto

declare release.simps [simp del]

lemma release_simps:
  "release h e p 0 = try_bind (recovered h e (rung_at (rp_rungs p ! 0)) (rp_recovery_fraction p)) (\<lambda>b.
     if b then Inr None else Inr (Some 0))"
  "release h e p (Suc c) = try_bind (recovered h e (rung_at (rp_rungs p ! Suc c)) (rp_recovery_fraction p)) (\<lambda>b.
     if b then release h e p c else Inr (Some (Suc c)))"
  by (simp_all add: release.simps [of h e p 0] release.simps [of h e p "Suc c"] cong: if_cong)

lemma release_opt_Max:
  "release h e p c = Inr r \<Longrightarrow> dec_ok h \<Longrightarrow> risk_policy_ok p \<Longrightarrow> c < length (rp_rungs p) \<Longrightarrow>
   r = opt_Max {j. j \<le> c \<and> \<not> back_within (dval h) (dval e) (dval (rung_at (rp_rungs p ! j))) (dval (rp_recovery_fraction p))}"
proof (induction c)
  case 0
  then show ?case
    by (auto simp: release_simps try_bind_Inr opt_Max_def eq_zero_Collect dest!: recovered_back_within intro: rung_at_ok risk_policy_okD split: if_splits)
next
  case (Suc c)
  let ?P = "\<lambda>j. \<not> back_within (dval h) (dval e) (dval (rung_at (rp_rungs p ! j))) (dval (rp_recovery_fraction p))"
  from Suc.prems obtain b where b: "recovered h e (rung_at (rp_rungs p ! Suc c)) (rp_recovery_fraction p) = Inr b"
    and r: "(if b then release h e p c else Inr (Some (Suc c))) = Inr r"
    by (auto simp: release_simps try_bind_Inr)
  have "\<not> b \<longleftrightarrow> ?P (Suc c)" using b Suc.prems by (auto dest!: recovered_back_within intro: rung_at_ok risk_policy_okD)
  then show ?case using r Suc by (auto simp: le_Suc_insert opt_Max_insert split: if_splits)
qed

lemma release_from_held:
  assumes "release_from h e p (held_start s p) = Inr r" "dec_ok h" "risk_policy_ok p"
  shows "r = opt_Max (rungs_held s p (dval h) (dval e))"
proof (cases "held_start s p")
  case (Some c)
  then have "rungs_held s p (dval h) (dval e) =
      {j. j \<le> c \<and> \<not> back_within (dval h) (dval e) (dval (rung_at (rp_rungs p ! j))) (dval (rp_recovery_fraction p))}"
    by (simp add: rungs_held_def)
  then show ?thesis using assms release_opt_Max [of h e p c r] held_start_less [OF Some] Some
    by (simp add: release_from_def)
qed (use assms in \<open>simp add: release_from_def rungs_held_def\<close>)

lemma daily_loss_part_hit:
  assumes "daily_loss_part s e p = Inr (l, r)" "account_decs_ok s" "risk_policy_ok p"
  shows "r \<noteq> None \<longleftrightarrow> daily_hit s p (dval e)"
  using assms risk_policy_okD(7) [OF assms(3)]
  by (auto simp: daily_loss_part_def daily_hit_def account_decs_ok_def try_bind_Inr dval_sign
      dest!: breached_hit split: option.splits if_splits)

lemma rungs_hit_top:
  assumes "risk_policy_ok p"
  shows "(\<exists>i. opt_Max (rungs_hit p h e) = Some i \<and> rung_action (rp_rungs p ! i) = RaHaltFlatten)
    \<longleftrightarrow> length (rp_rungs p) - 1 \<in> rungs_hit p h e"
proof -
  note l = ladder_ok_action [OF risk_policy_okD(1) [OF assms]]
  have "i \<in> rungs_hit p h e \<Longrightarrow> rung_action (rp_rungs p ! i) = RaHaltFlatten \<longleftrightarrow> Suc i = length (rp_rungs p)" for i
    using l [of i] by (auto simp: rungs_hit_def split: if_splits)
  moreover have "i \<in> rungs_hit p h e \<Longrightarrow> i \<le> length (rp_rungs p) - 1" for i by (auto simp: rungs_hit_def)
  moreover have "Suc (length (rp_rungs p) - 1) = length (rp_rungs p)" using risk_policy_okD(2) [OF assms] by simp
  ultimately show ?thesis unfolding opt_Max_Some [OF finite_rungs(1)]
    by (metis diff_Suc_1)
qed

lemma ladder_part_hit:
  assumes "ladder_part h e p (opt_Max (rungs_hit p x y)) = Inr r" "risk_policy_ok p"
  shows "r \<noteq> None \<longleftrightarrow> length (rp_rungs p) - 1 \<in> rungs_hit p x y"
  unfolding rungs_hit_top [OF assms(2), symmetric]
  using assms(1) by (auto simp: ladder_part_def try_bind_Inr split: option.splits if_splits)

lemma rung_in_force_shrink:
  assumes "risk_policy_ok p" "\<not> must_halt s p e" "rung_in_force s p e = Some i"
  shows "\<exists>sc. rung_action (rp_rungs p ! i) = RaShrink sc \<and> 0 < dval sc \<and> dval sc < 1" and "Suc i < length (rp_rungs p)"
proof -
  from assms(3) have "i \<in> rungs_hit p (mark (map_option dval (ac_hwm s)) e) e \<union> rungs_held s p (mark (map_option dval (ac_hwm s)) e) e"
    by (simp add: rung_in_force_def Let_def opt_Max_Some)
  moreover have "i \<noteq> length (rp_rungs p) - 1" if "i \<in> rungs_hit p (mark (map_option dval (ac_hwm s)) e) e"
    using assms(2) that by (auto simp: must_halt_def)
  ultimately show less: "Suc i < length (rp_rungs p)"
    by (auto simp: rungs_hit_def rungs_held_def dest: held_start_less)
  from ladder_ok_action [OF risk_policy_okD(1) [OF assms(1)], of i] less
  show "\<exists>sc. rung_action (rp_rungs p ! i) = RaShrink sc \<and> 0 < dval sc \<and> dval sc < 1"
    by (auto split: if_splits)
qed

lemma evaluate_inner_verdict:
  assumes ev: "evaluate_inner s snap p = Inr d" and live: "may_add_risk (ac_status s)"
    and s: "account_decs_ok s" and e: "dec_ok (es_equity snap)" and p: "risk_policy_ok p"
  shows "(dval (rd_risk_scale d), rd_next_rung d) = risk_verdict s p (dval (es_equity snap))
    \<and> (rd_action d = ActHaltFlatten \<longleftrightarrow> must_halt s p (dval (es_equity snap)))
    \<and> (rd_action d = ActNone \<longleftrightarrow> \<not> must_halt s p (dval (es_equity snap)) \<and> rd_next_rung d = None)
    \<and> (rd_halt_reason d \<noteq> None \<longleftrightarrow> rd_action d = ActHaltFlatten)"
proof -
  let ?e = "es_equity snap" and ?h = "ratchet (ac_hwm s) (es_equity snap)"
  have h: "dval ?h = mark (map_option dval (ac_hwm s)) (dval ?e)" "dec_ok ?h"
    using ratchet_mark [OF e, of "ac_hwm s"] s by (auto simp: account_decs_ok_def)
  have nh: "\<not> is_halt (ac_status s)" using live by (auto simp: is_halt_def may_add_risk_def)
  show ?thesis
  proof (cases "is_positive ?e")
    case False
    then have "must_halt s p (dval ?e)" by (simp add: must_halt_def dval_sign not_less)
    with False ev nh show ?thesis by (auto simp: evaluate_inner_def risk_verdict_def decision_halted_def)
  next
    case True
    from ev nh True obtain l daily raw ladder where dl: "daily_loss_part s ?e p = Inr (l, daily)"
      and raw: "highest_rung ?h ?e 0 (rp_rungs p) None = Inr raw"
      and la: "ladder_part ?h ?e p raw = Inr ladder"
      and rest: "(if daily \<noteq> None \<or> ladder \<noteq> None
         then Inr (decision_halted (if daily \<noteq> None then HrDailyLoss else HrDrawdownLadder)
                          (opt_list daily @ opt_list ladder) (fraction_of ?h ?e) l)
         else try_bind (release_from ?h ?e p (held_start s p)) (\<lambda>held.
                   Inr (posture s p ?h raw (max_rung raw held) (fraction_of ?h ?e) l))) = Inr d"
      by (auto simp: evaluate_inner_def Let_def try_bind_Inr)
    note raw' = highest_rung_hit [OF raw h(2) p, unfolded h(1)]
    have mh: "daily \<noteq> None \<or> ladder \<noteq> None \<longleftrightarrow> must_halt s p (dval ?e)"
      using True daily_loss_part_hit [OF dl s p] ladder_part_hit [OF la [unfolded raw'] p]
      by (auto simp: must_halt_def dval_sign)
    show ?thesis
    proof (cases "must_halt s p (dval ?e)")
      case True
      with rest mh have "d = decision_halted (if daily \<noteq> None then HrDailyLoss else HrDrawdownLadder)
                          (opt_list daily @ opt_list ladder) (fraction_of ?h ?e) l" by simp
      with True show ?thesis by (simp add: risk_verdict_def decision_halted_def)
    next
      case False
      with rest mh obtain held where held: "release_from ?h ?e p (held_start s p) = Inr held"
        and d: "d = posture s p ?h raw (max_rung raw held) (fraction_of ?h ?e) l"
        by (auto simp: try_bind_Inr split: if_splits)
      have t: "max_rung raw held = rung_in_force s p (dval ?e)"
        using release_from_held [OF held h(2) p] raw' by (simp add: h(1) rung_in_force_def Let_def max_rung_opt_Max)
      show ?thesis
      proof (cases "rung_in_force s p (dval ?e)")
        case None
        with d t False show ?thesis by (simp add: posture_def risk_verdict_def)
      next
        case (Some i)
        with rung_in_force_shrink [OF p False] d t False show ?thesis
          by (auto simp: posture_def risk_verdict_def rung_scale_def Let_def)
      qed
    qed
  qed
qed

text \<open>
  C28: \<open>evaluate_risk\<close> refines the rational specification: unless an intermediate decimal overflows,
  an account that may add risk is told to halt exactly when its equity is not positive, the daily
  loss has reached the limit, or the drawdown has reached the halt rung (all inclusive, thresholds
  floored at 18 decimals), and otherwise the highest rung that is hit now or still held sets the
  next rung and the scale.
\<close>

theorem evaluate_risk_refines:
  assumes ev: "evaluate_inner s snap p = Inr d" and live: "may_add_risk (ac_status s)"
    and s: "account_decs_ok s" and e: "dec_ok (es_equity snap)" and p: "risk_policy_ok p"
  shows "(dval (rd_risk_scale d), rd_next_rung d) = risk_verdict s p (dval (es_equity snap))
    \<and> (rd_action d = ActHaltFlatten \<longleftrightarrow> must_halt s p (dval (es_equity snap)))
    \<and> (rd_action d = ActNone \<longleftrightarrow> \<not> must_halt s p (dval (es_equity snap)) \<and> rd_next_rung d = None)
    \<and> (rd_halt_reason d \<noteq> None \<longleftrightarrow> rd_action d = ActHaltFlatten)"
  using assms by (rule evaluate_inner_verdict)

section \<open>Monotonicity\<close>

lemma evaluate_inner_scale:
  "evaluate_inner s snap p = Inr d \<Longrightarrow> may_add_risk (ac_status s) \<Longrightarrow> account_decs_ok s \<Longrightarrow>
   dec_ok (es_equity snap) \<Longrightarrow> risk_policy_ok p \<Longrightarrow>
   dval (rd_risk_scale d) = fst (risk_verdict s p (dval (es_equity snap)))"
  by (drule (4) evaluate_inner_verdict) (auto simp: prod_eq_iff)

lemma must_halt_antimono:
  assumes "e1 \<le> e2" "risk_policy_ok p" "must_halt s p e2"
  shows "must_halt s p e1"
proof -
  have "daily_hit s p e1" if "daily_hit s p e2"
    using that assms(1) by (auto simp: daily_hit_def hit_def split: option.splits)
  moreover have "0 \<le> dval (rung_at (rp_rungs p ! i))" if "i < length (rp_rungs p)" for i
    using ladder_ok_at [OF risk_policy_okD(1) [OF assms(2)] that] by simp
  ultimately show ?thesis using assms hit_mono_mark [OF assms(1)]
    by (auto simp: must_halt_def rungs_hit_def)
qed

lemma rungs_antimono:
  assumes "e1 \<le> e2" "0 < e2" "risk_policy_ok p"
  shows "rungs_hit p (mark h e2) e2 \<subseteq> rungs_hit p (mark h e1) e1"
    and "rungs_held s p (mark h e2) e2 \<subseteq> rungs_held s p (mark h e1) e1"
proof -
  have r: "0 \<le> dval (rung_at (rp_rungs p ! i))" if "i < length (rp_rungs p)" for i
    using ladder_ok_at [OF risk_policy_okD(1) [OF assms(3)] that] by simp
  show "rungs_hit p (mark h e2) e2 \<subseteq> rungs_hit p (mark h e1) e1"
    using hit_mono_mark [OF assms(1)] r by (auto simp: rungs_hit_def)
  show "rungs_held s p (mark h e2) e2 \<subseteq> rungs_held s p (mark h e1) e1"
    using back_within_mono_mark [OF assms(1,2)] r risk_policy_okD(5) [OF assms(3)]
    by (fastforce simp: rungs_held_def dest: held_start_less)
qed

lemma verdict_bounds: "risk_policy_ok p \<Longrightarrow> 0 \<le> fst (risk_verdict s p e) \<and> fst (risk_verdict s p e) \<le> 1"
  using rung_in_force_shrink [of p s e]
  by (cases "rung_in_force s p e") (fastforce simp: risk_verdict_def rung_scale_def)+

lemma opt_Max_mono:
  "finite B \<Longrightarrow> A \<subseteq> B \<Longrightarrow> opt_Max A = Some i \<Longrightarrow> \<exists>j. opt_Max B = Some j \<and> i \<le> j"
  by (auto simp: opt_Max_def split: if_splits intro: Max_mono)

lemma verdict_mono:
  assumes "e1 \<le> e2" and p: "risk_policy_ok p"
  shows "fst (risk_verdict s p e1) \<le> fst (risk_verdict s p e2)"
proof (cases "must_halt s p e1")
  case True
  then show ?thesis using verdict_bounds [OF p, of s e2] by (simp add: risk_verdict_def)
next
  case False
  with must_halt_antimono [OF assms] have h2: "\<not> must_halt s p e2" by blast
  show ?thesis
  proof (cases "rung_in_force s p e2")
    case None
    then have "fst (risk_verdict s p e2) = 1" using h2 by (simp add: risk_verdict_def)
    then show ?thesis using verdict_bounds [OF p, of s e1] by simp
  next
    case (Some i)
    have "0 < e2" using h2 by (simp add: must_halt_def)
    note anti = rungs_antimono [OF assms(1) this p, where h = "map_option dval (ac_hwm s)"]
    obtain j where j: "rung_in_force s p e1 = Some j" "i \<le> j"
      using opt_Max_mono [OF _ Un_mono [OF anti(1) anti(2) [of s]], of i] Some
      by (auto simp: rung_in_force_def Let_def)
    have "j < length (rp_rungs p)" using rung_in_force_shrink(2) [OF p False j(1)] by simp
    from ladder_ok_scale_antimono [OF risk_policy_okD(1) [OF p] j(2) this]
    show ?thesis using False h2 Some j by (simp add: risk_verdict_def)
  qed
qed

text \<open>
  The scale is monotone in the equity: for one prior state and one policy, a lower
  broker-reported equity never yields a larger risk scale, as long as the arithmetic at the higher
  equity does not overflow (an overflow at the lower one halts and keeps the order).
\<close>

theorem evaluate_risk_monotone:
  assumes le: "dval (es_equity snap1) \<le> dval (es_equity snap2)"
    and ok2: "evaluate_inner s snap2 p = Inr d2"
    and s: "account_decs_ok s" and p: "risk_policy_ok p"
    and e: "dec_ok (es_equity snap1)" "dec_ok (es_equity snap2)"
  shows "dval (rd_risk_scale (evaluate_risk s snap1 p)) \<le> dval (rd_risk_scale (evaluate_risk s snap2 p))"
proof (cases "may_add_risk (ac_status s)")
  case False
  then have "is_halt (ac_status s)" by (cases "ac_status s") (auto simp: may_add_risk_def is_halt_def)
  then show ?thesis by (simp add: evaluate_risk_def evaluate_inner_def)
next
  case True
  have d2: "dval (rd_risk_scale (evaluate_risk s snap2 p)) = fst (risk_verdict s p (dval (es_equity snap2)))"
    using evaluate_inner_scale [OF ok2 True s e(2) p] ok2 by (simp add: evaluate_risk_def)
  show ?thesis
  proof (cases "evaluate_inner s snap1 p")
    case (Inl err)
    then show ?thesis unfolding d2 using verdict_bounds [OF p]
      by (simp add: evaluate_risk_def decision_halted_def)
  next
    case (Inr d1)
    then show ?thesis unfolding d2 using verdict_mono [OF le p, of s] evaluate_inner_scale [OF Inr True s e(1) p]
      by (simp add: evaluate_risk_def)
  qed
qed

section \<open>An example\<close>

text \<open>
  A 15% daily-loss limit, a rung that halves the targets at 10% and the halt rung at 20%; an account
  whose mark is 100 and that is already shrunk; readings of 94 (not recovered) and 80 (at the halt rung).
\<close>

definition example_risk_policy :: risk_policy where
  "example_risk_policy =
     \<lparr>rp_daily_loss_limit = Dec 15 2,
      rp_rungs = [\<lparr>rung_at = Dec 10 2, rung_action = RaShrink (Dec 50 2)\<rparr>, \<lparr>rung_at = Dec 20 2, rung_action = RaHaltFlatten\<rparr>],
      rp_recovery_fraction = Dec 50 2\<rparr>"

definition example_risk_account :: account_state where
  "example_risk_account =
     (account_new ''a'')\<lparr>ac_status := AsShrunk, ac_risk_scale := Dec 50 2, ac_shrink_rung := Some 0,
       ac_hwm := Some (Dec 100 0), ac_day_start_equity := Some (Dec 94 0), ac_trading_day := Some 0\<rparr>"

definition example_reading :: "int \<Rightarrow> equity_snapshot" where
  "example_reading e = broker_reported ''k'' ''usd'' (Dec e 0) 0"

lemma example_risk_policy_ok: "risk_policy_ok example_risk_policy"
  by code_simp

lemma example_account_ok: "account_decs_ok example_risk_account"
  by (simp add: account_decs_ok_def example_risk_account_def account_new_def dec_ok_def in_i128_bound)

lemma example_reading_ok: "dec_ok (es_equity (example_reading 94))" "dec_ok (es_equity (example_reading 80))"
  by code_simp+

lemma example_tests:
  "breached (Dec 94 0) (Dec 94 0) (Dec 15 2) = Inr False"
  "breached (Dec 100 0) (Dec 94 0) (Dec 10 2) = Inr False"
  "breached (Dec 100 0) (Dec 94 0) (Dec 20 2) = Inr False"
  "recovered (Dec 100 0) (Dec 94 0) (Dec 10 2) (Dec 50 2) = Inr False"
  "ratchet (Some (Dec 100 0)) (Dec 94 0) = Dec 100 0"
  "is_positive (Dec 94 0)"
  by code_simp+

lemma example_evaluate:
  "evaluate_inner example_risk_account (example_reading 94) example_risk_policy =
   Inr (posture example_risk_account example_risk_policy (Dec 100 0) None (Some 0)
     (fraction_of (Dec 100 0) (Dec 94 0)) (fraction_of (Dec 94 0) (Dec 94 0)))"
  by (simp add: evaluate_inner_def example_risk_account_def account_new_def is_halt_def example_reading_def
      broker_reported_def example_risk_policy_def example_tests daily_loss_part_def ladder_part_def
      held_start_def release_from_def release_simps max_rung_def Let_def)

lemma example_next_rung:
  "rd_next_rung (posture example_risk_account example_risk_policy h r (Some 0) x y) = Some 0"
  by (simp add: posture_def example_risk_policy_def Let_def)

theorem evaluate_risk_refines_witness:
  "rd_next_rung (evaluate_risk example_risk_account (example_reading 94) example_risk_policy)
     = snd (risk_verdict example_risk_account example_risk_policy 94)
   \<and> rd_next_rung (evaluate_risk example_risk_account (example_reading 94) example_risk_policy) = Some 0"
proof -
  have live: "may_add_risk (ac_status example_risk_account)" by (simp add: example_risk_account_def may_add_risk_def)
  have e: "dval (es_equity (example_reading 94)) = 94"
    by (simp add: example_reading_def broker_reported_def dval_def)
  have r: "rd_next_rung (evaluate_risk example_risk_account (example_reading 94) example_risk_policy) = Some 0"
    by (simp add: evaluate_risk_def example_evaluate example_next_rung)
  from evaluate_risk_refines [OF example_evaluate live example_account_ok example_reading_ok(1) example_risk_policy_ok]
  have "snd (risk_verdict example_risk_account example_risk_policy 94) = Some 0"
    unfolding e by (auto simp: prod_eq_iff example_next_rung)
  with r show ?thesis by simp
qed

theorem evaluate_risk_monotone_witness:
  "dval (rd_risk_scale (evaluate_risk example_risk_account (example_reading 80) example_risk_policy))
     \<le> dval (rd_risk_scale (evaluate_risk example_risk_account (example_reading 94) example_risk_policy))"
proof -
  have le: "dval (es_equity (example_reading 80)) \<le> dval (es_equity (example_reading 94))"
    by (simp add: example_reading_def broker_reported_def dval_def)
  show ?thesis
    by (rule evaluate_risk_monotone [OF le example_evaluate example_account_ok example_risk_policy_ok example_reading_ok(2,1)])
qed

end
