(* ===== verification/Risk_Machine.thy ===== *)
theory Risk_Machine
  imports Risk_Props
begin

text \<open>
  The risk state machine as a labelled step relation: one label per public operation of
  \<open>AccountState\<close> and of the overlay. Invariants of every reachable state, the stickiness of halts,
  the high-water mark, and the persistence round trip are proved by induction over its traces.
\<close>

section \<open>Steps and traces\<close>

datatype risk_event =
    EvStep equity_snapshot int risk_policy day_start_rule
  | EvObserve equity_snapshot int day_start_rule
  | EvHalt halt_reason string int
  | EvBeginFlatten halt_reason string int
  | EvCompleteFlatten bool
  | EvResume human_approval equity_snapshot int

inductive risk_step :: "account_state \<Rightarrow> risk_event \<Rightarrow> account_state \<Rightarrow> bool" where
  rs_step: "dec_ok (es_equity snap) \<Longrightarrow> risk_policy_ok p \<Longrightarrow>
    risk_step s (EvStep snap day p rule) (fst (step_with s snap day p rule))"
| rs_observe: "dec_ok (es_equity snap) \<Longrightarrow> risk_step s (EvObserve snap day rule) (observe_with s snap day rule)"
| rs_halt: "risk_step s (EvHalt reason detail now) (fst (halt s reason detail now))"
| rs_begin_flatten: "risk_step s (EvBeginFlatten reason detail now) (fst (begin_flatten s reason detail now))"
| rs_complete_flatten: "risk_step s (EvCompleteFlatten verified) (fst (complete_flatten s verified))"
| rs_resume: "dec_ok (es_equity snap) \<Longrightarrow> resume s approval snap day = Inr (s', tr) \<Longrightarrow>
    risk_step s (EvResume approval snap day) s'"

inductive risk_trace :: "account_state \<Rightarrow> risk_event list \<Rightarrow> account_state \<Rightarrow> bool" where
  rt_nil: "risk_trace s [] s"
| rt_cons: "risk_step s ev t \<Longrightarrow> risk_trace t evs u \<Longrightarrow> risk_trace s (ev # evs) u"

inductive_cases risk_stepE [elim!]:
  "risk_step s (EvStep snap day p rule) t"
  "risk_step s (EvObserve snap day rule) t"
  "risk_step s (EvHalt reason detail now) t"
  "risk_step s (EvBeginFlatten reason detail now) t"
  "risk_step s (EvCompleteFlatten verified) t"
  "risk_step s (EvResume approval snap day) t"

inductive_simps risk_step_simps:
  "risk_step s (EvStep snap day p rule) t"
  "risk_step s (EvObserve snap day rule) t"
  "risk_step s (EvHalt reason detail now) t"
  "risk_step s (EvBeginFlatten reason detail now) t"
  "risk_step s (EvCompleteFlatten verified) t"
  "risk_step s (EvResume approval snap day) t"

inductive_simps risk_trace_Nil [simp]: "risk_trace s [] t"
inductive_simps risk_trace_Cons [simp]: "risk_trace s (ev # evs) t"

text \<open>A property every step keeps holds at the end of a trace.\<close>

lemma risk_trace_invariant:
  "risk_trace s evs t \<Longrightarrow> I s \<Longrightarrow> (\<And>a ev b. ev \<in> set evs \<Longrightarrow> I a \<Longrightarrow> risk_step a ev b \<Longrightarrow> I b) \<Longrightarrow> I t"
  by (induction rule: risk_trace.induct) auto

definition is_resume :: "risk_event \<Rightarrow> bool" where
  "is_resume ev = (case ev of EvResume _ _ _ \<Rightarrow> True | _ \<Rightarrow> False)"

section \<open>What the operations keep\<close>

named_theorems risk_defs \<open>the operations of the state machine\<close>

lemmas [risk_defs] = observe_equity_def observe_def observe_anchored_def observe_with_def halt_def
  begin_flatten_def complete_flatten_def with_shrink_def with_full_size_def apply_decision_def
  new_halt_record_def Let_def

lemma status_dichotomy: "may_add_risk st \<longleftrightarrow> \<not> is_halt st"
  by (cases st) (simp_all add: may_add_risk_def is_halt_def)

lemma observe_with_keeps [simp]:
  "ac_account_id (observe_with s snap day rule) = ac_account_id s"
  "ac_version (observe_with s snap day rule) = ac_version s"
  "ac_status (observe_with s snap day rule) = ac_status s"
  "ac_risk_scale (observe_with s snap day rule) = ac_risk_scale s"
  "ac_shrink_rung (observe_with s snap day rule) = ac_shrink_rung s"
  "ac_halt (observe_with s snap day rule) = ac_halt s"
  "ac_resumes (observe_with s snap day rule) = ac_resumes s"
  "ac_last_equity (observe_with s snap day rule) = Some (es_equity snap)"
  "ac_last_equity_at (observe_with s snap day rule) = Some (es_at snap)"
  "ac_hwm (observe_with s snap day rule) =
     (if may_add_risk (ac_status s) then Some (ratchet (ac_hwm s) (es_equity snap)) else ac_hwm s)"
  by (cases rule; simp add: risk_defs)+

lemma step_with_fst: "fst (step_with s snap day p rule) =
    fst (apply_decision (observe_with s snap day rule) (evaluate_risk (observe_with s snap day rule) snap p) (es_at snap))"
  by (simp add: step_with_def Let_def split: prod.splits)

lemma apply_decision_keeps [simp]:
  "ac_account_id (fst (apply_decision s d now)) = ac_account_id s"
  "ac_version (fst (apply_decision s d now)) = ac_version s"
  "ac_hwm (fst (apply_decision s d now)) = ac_hwm s"
  "ac_last_equity (fst (apply_decision s d now)) = ac_last_equity s"
  "ac_day_start_equity (fst (apply_decision s d now)) = ac_day_start_equity s"
  "ac_resumes (fst (apply_decision s d now)) = ac_resumes s"
  by (simp_all add: risk_defs split: risk_action.splits option.splits)

lemma apply_decision_halted [simp]: "is_halt (ac_status s) \<Longrightarrow> apply_decision s d now = (s, None)"
  by (simp add: apply_decision_def)

text \<open>What holds along every step.\<close>

lemma risk_step_keeps:
  assumes "risk_step s ev t"
  shows "ac_account_id t = ac_account_id s" and "ac_version t = ac_version s"
    and "\<not> is_resume ev \<Longrightarrow> ac_resumes t = ac_resumes s"
    and "is_resume ev \<Longrightarrow> ac_status s = AsHalted \<and> ac_status t = AsActive \<and> (\<exists>r. ac_resumes t = ac_resumes s @ [r])"
  using assms
  by (cases ev; auto simp: step_with_fst is_resume_def halt_def begin_flatten_def complete_flatten_def
      resume_def try_bind_Inr ok_or_Inr split: account_status.splits if_splits)+

lemma halted_step:
  assumes "risk_step s ev t" and "is_halt (ac_status s)" and "\<not> is_resume ev"
  shows "is_halt (ac_status t)" and "ac_hwm t = ac_hwm s"
    and "map_option hr_reason (ac_halt t) = map_option hr_reason (ac_halt s)"
    and "ac_status t \<noteq> ac_status s \<Longrightarrow> ac_status s = AsFlattening \<and> ev = EvCompleteFlatten True"
  using assms
  by (cases ev; auto simp: step_with_fst is_resume_def halt_def begin_flatten_def complete_flatten_def is_halt_def
      may_add_risk_def option.map_comp comp_def split: if_splits)+

lemma posture_action:
  "rd_action (posture s p h raw t x y) = ActShrink sc \<Longrightarrow>
   rd_risk_scale (posture s p h raw t x y) = sc \<and> t = rd_next_rung (posture s p h raw t x y) \<and>
   (\<exists>i. t = Some i \<and> rung_action (rp_rungs p ! i) = RaShrink sc)"
  by (auto simp: posture_def decision_halted_def Let_def split: option.splits rung_action.splits)

lemma evaluate_inner_action:
  "evaluate_inner s snap p = Inr d \<Longrightarrow> rd_action d = ActShrink sc \<Longrightarrow>
   rd_risk_scale d = sc \<and> (\<exists>i. rd_next_rung d = Some i \<and> rung_action (rp_rungs p ! i) = RaShrink sc)"
  by (auto simp: evaluate_inner_def decision_halted_def Let_def try_bind_Inr split: if_splits
      dest!: posture_action)

lemma evaluate_risk_action:
  assumes "rd_action (evaluate_risk s snap p) = ActShrink sc" "account_decs_ok s" "dec_ok (es_equity snap)"
    "risk_policy_ok p"
  shows "\<exists>i. rd_next_rung (evaluate_risk s snap p) = Some i \<and> dec_ok sc \<and> 0 < dval sc \<and> dval sc < 1"
proof -
  let ?e = "dval (es_equity snap)"
  from assms(1) obtain d where d: "evaluate_inner s snap p = Inr d" "rd_action d = ActShrink sc"
    by (cases "evaluate_inner s snap p") (auto simp: evaluate_risk_def decision_halted_def)
  then have live: "may_add_risk (ac_status s)" by (auto simp: evaluate_inner_def Let_def status_dichotomy)
  from evaluate_inner_action [OF d] obtain i where i: "rd_next_rung d = Some i" "rung_action (rp_rungs p ! i) = RaShrink sc"
    by auto
  note v = evaluate_inner_verdict [OF d(1) live assms(2-4)]
  with d i have nh: "\<not> must_halt s p ?e" and "rung_in_force s p ?e = Some i"
    by (auto simp: risk_verdict_def prod_eq_iff split: option.splits)
  note sh = rung_in_force_shrink [OF assms(4) this]
  have "rung_ok (rp_rungs p ! i)" using sh(2) assms(4) by (simp add: risk_policy_ok_def list_all_length)
  then have "dec_ok sc" using i(2) by (simp add: rung_ok_def)
  with sh(1) d(1) i show ?thesis by (simp add: evaluate_risk_def)
qed

lemma risk_trace_resumes:
  "risk_trace s evs t \<Longrightarrow> length (ac_resumes t) = length (ac_resumes s) + length (filter is_resume evs)"
proof (induction rule: risk_trace.induct)
  case (rt_cons s ev t evs u)
  then show ?case using risk_step_keeps(3,4) [OF rt_cons(1)] by (cases "is_resume ev") auto
qed simp

section \<open>Well-formed accounts\<close>

definition risk_account_ok :: "account_state \<Rightarrow> bool" where
  "risk_account_ok s \<longleftrightarrow>
     (is_halt (ac_status s) \<longleftrightarrow> ac_halt s \<noteq> None)
     \<and> 0 < dval (ac_risk_scale s) \<and> dval (ac_risk_scale s) \<le> 1
     \<and> (ac_status s = AsActive \<longrightarrow> ac_risk_scale s = risk_one \<and> ac_shrink_rung s = None)
     \<and> (ac_status s = AsShrunk \<longrightarrow> ac_shrink_rung s \<noteq> None)
     \<and> account_decs_ok s \<and> pred_option dec_ok (ac_last_equity s)
     \<and> (may_add_risk (ac_status s) \<longrightarrow>
          (\<forall>e. ac_last_equity s = Some e \<longrightarrow> (\<exists>h. ac_hwm s = Some h \<and> dval e \<le> dval h)))"

lemma account_ok_new: "risk_account_ok (account_new a)"
  by (simp add: risk_account_ok_def account_new_def is_halt_def account_decs_ok_def)

lemma observe_day_start:
  "ac_day_start_equity (observe_with s snap day rule) \<in> {ac_day_start_equity s, Some (es_equity snap), None}"
  by (cases rule) (auto simp: risk_defs)

lemma ratchet_ge:
  "dec_ok e \<Longrightarrow> pred_option dec_ok h \<Longrightarrow> dec_ok (ratchet h e) \<and> dval e \<le> dval (ratchet h e) \<and>
   (\<forall>m. h = Some m \<longrightarrow> dval m \<le> dval (ratchet h e))"
  using ratchet_mark [of e h] by (cases h) (auto simp: mark_def)

lemma account_ok_observe:
  assumes "risk_account_ok s" "dec_ok (es_equity snap)"
  shows "risk_account_ok (observe_with s snap day rule)"
proof -
  have "pred_option dec_ok (ac_day_start_equity (observe_with s snap day rule))"
    using observe_day_start [of s snap day rule] assms by (auto simp: risk_account_ok_def account_decs_ok_def)
  then show ?thesis using assms ratchet_ge [OF assms(2), of "ac_hwm s"]
    by (simp add: risk_account_ok_def account_decs_ok_def)
qed

lemma account_ok_halting:
  assumes "risk_account_ok s"
  shows "risk_account_ok (fst (halt s r d n))" "risk_account_ok (fst (begin_flatten s r d n))" "risk_account_ok (fst (complete_flatten s v))"
  using assms by (cases "ac_status s"; simp add: risk_account_ok_def account_decs_ok_def halt_def begin_flatten_def
      complete_flatten_def is_halt_def may_add_risk_def)+

lemma account_ok_apply:
  assumes "risk_account_ok s"
    and "\<And>sc. rd_action d = ActShrink sc \<Longrightarrow> \<exists>i. rd_next_rung d = Some i \<and> dec_ok sc \<and> 0 < dval sc \<and> dval sc < 1"
  shows "risk_account_ok (fst (apply_decision s d n))"
proof (cases "rd_action d")
  case ActNone
  with assms(1) show ?thesis
    by (cases "ac_status s")
      (simp_all add: apply_decision_def with_full_size_def risk_account_ok_def account_decs_ok_def is_halt_def may_add_risk_def)
next
  case (ActShrink sc)
  from assms(2) [OF this] obtain i where "rd_next_rung d = Some i" "dec_ok sc" "0 < dval sc" "dval sc < 1" by blast
  with ActShrink assms(1) show ?thesis
    by (cases "ac_status s")
      (simp_all add: apply_decision_def with_shrink_def risk_account_ok_def account_decs_ok_def is_halt_def may_add_risk_def)
next
  case ActHaltFlatten
  with assms(1) account_ok_halting(2) [OF assms(1)] show ?thesis by (simp add: apply_decision_def)
qed

lemma account_ok_step:
  assumes "risk_step s ev t" "risk_account_ok s"
  shows "risk_account_ok t"
  using assms(1)
proof cases
  case (rs_step snap p day rule)
  let ?o = "observe_with s snap day rule"
  have o: "risk_account_ok ?o" using assms(2) rs_step by (intro account_ok_observe)
  then have "account_decs_ok ?o" by (simp add: risk_account_ok_def)
  with o rs_step show ?thesis unfolding rs_step(2) step_with_fst
    by (intro account_ok_apply evaluate_risk_action) auto
next
  case (rs_resume snap approval day tr)
  then show ?thesis using assms(2)
    by (auto simp: resume_def try_bind_Inr risk_account_ok_def account_decs_ok_def is_halt_def
        split: account_status.splits if_splits)
qed (use assms(2) in \<open>auto intro: account_ok_observe account_ok_halting\<close>)

text \<open>
  C27: every state an account can reach from a fresh one, by any sequence of the machine's operations
  with valid policies, is well-formed: it carries a halt record exactly when it is halted or
  flattening, its scale is in (0, 1] and is 1 when it is active, a shrunk account knows its rung, and
  while it may add risk its high-water mark is at least the last equity.
\<close>

theorem reachable_account_ok:
  assumes "risk_trace (account_new a) evs s"
  shows "risk_account_ok s \<and> ac_account_id s = a \<and> length (ac_resumes s) = length (filter is_resume evs)"
proof -
  have "risk_account_ok s \<and> ac_account_id s = ac_account_id (account_new a)"
    by (rule risk_trace_invariant [OF assms]) (auto simp: account_ok_new account_ok_step risk_step_keeps)
  moreover have "length (ac_resumes s) = length (ac_resumes (account_new a)) + length (filter is_resume evs)"
    using risk_trace_resumes [OF assms] .
  ultimately show ?thesis by (simp add: account_new_def)
qed

text \<open>A short history: a manual halt, a resume at 90 and a later reading.\<close>

definition example_approval :: human_approval where
  "example_approval = human_approval_new ''ann'' 5 ''reviewed''"

definition example_halted :: account_state where
  "example_halted = fst (halt example_risk_account HrManual ''stop'' 3)"

definition example_events :: "risk_event list" where
  "example_events = [EvHalt HrManual ''stop'' 3, EvCompleteFlatten True, EvObserve (example_reading 90) 1 FirstObservation,
     EvResume example_approval (example_reading 90) 1, EvObserve (example_reading 94) 1 FirstObservation]"

theorem reachable_account_ok_witness:
  "\<exists>s. risk_trace (account_new ''a'') example_events s \<and> risk_account_ok s \<and> length (ac_resumes s) = 1"
proof -
  have ok: "dec_ok (es_equity (example_reading 90))" "dec_ok (es_equity (example_reading 94))" by code_simp+
  let ?h = "fst (halt (account_new ''a'') HrManual ''stop'' 3)"
  have "ac_status ?h = AsHalted" "ac_halt ?h \<noteq> None" by (simp_all add: halt_def account_new_def is_halt_def)
  moreover have "is_positive (es_equity (example_reading 90))" by code_simp
  ultimately obtain r tr where "resume (observe_with ?h (example_reading 90) 1 FirstObservation) example_approval (example_reading 90) 1 = Inr (r, tr)"
    by (auto simp: resume_def)
  moreover have "fst (complete_flatten ?h True) = ?h" using \<open>ac_status ?h = AsHalted\<close> by (simp add: complete_flatten_def)
  ultimately obtain s where s: "risk_trace (account_new ''a'') example_events s"
    by (auto simp: example_events_def risk_step_simps ok)
  from reachable_account_ok [OF this] have "risk_account_ok s \<and> length (ac_resumes s) = 1"
    by (simp add: example_events_def is_resume_def)
  with s show ?thesis by blast
qed

section \<open>Halts\<close>

text \<open>
  C26: a halt is sticky. Whatever readings, decisions, further halts and flatten results follow, an
  account that is halted or flattening stays so until a resume; its risk scale is zero, its
  high-water mark is frozen, the first halt's reason is kept and no resume record appears. A halted
  account never goes back to flattening, and flattening ends only with a verified flatten.
\<close>

theorem halt_is_sticky:
  assumes "risk_trace s evs t" and "is_halt (ac_status s)" and "\<forall>ev\<in>set evs. \<not> is_resume ev"
  shows "is_halt (ac_status t) \<and> risk_scale t = dec_ZERO \<and> ac_hwm t = ac_hwm s \<and> ac_resumes t = ac_resumes s
    \<and> map_option hr_reason (ac_halt t) = map_option hr_reason (ac_halt s)
    \<and> (ac_status s = AsHalted \<longrightarrow> ac_status t = AsHalted)
    \<and> (ac_status s = AsFlattening \<and> ac_status t = AsHalted \<longrightarrow> EvCompleteFlatten True \<in> set evs)"
  using assms
proof (induction rule: risk_trace.induct)
  case (rt_nil s)
  then show ?case by (auto simp: risk_scale_def status_dichotomy)
next
  case (rt_cons s ev t evs u)
  note k = halted_step [OF rt_cons(1)] risk_step_keeps(3) [OF rt_cons(1)]
  from rt_cons.prems k have h: "is_halt (ac_status t)" by simp
  have st: "ac_status s = AsFlattening \<or> ac_status s = AsHalted" "ac_status t = AsFlattening \<or> ac_status t = AsHalted"
    using rt_cons.prems h by (simp_all add: is_halt_def)
  from rt_cons.IH h rt_cons.prems k st show ?case
    by (metis account_status.distinct(11) list.set_intros)
qed

theorem halt_is_sticky_witness:
  "is_halt (ac_status example_halted) \<and>
   (\<exists>t. risk_trace example_halted [EvStep (example_reading 94) 2 example_risk_policy FirstObservation, EvCompleteFlatten True] t
     \<and> ac_status t = AsHalted \<and> ac_hwm t = Some (Dec 100 0))"
proof -
  have h: "is_halt (ac_status example_halted)" "ac_status example_halted = AsHalted" "ac_hwm example_halted = Some (Dec 100 0)"
    by (simp_all add: example_halted_def halt_def example_risk_account_def account_new_def is_halt_def)
  let ?evs = "[EvStep (example_reading 94) 2 example_risk_policy FirstObservation, EvCompleteFlatten True]"
  obtain t where t: "risk_trace example_halted ?evs t"
    by (auto intro!: rs_step rs_complete_flatten example_reading_ok example_risk_policy_ok)
  have "\<forall>ev\<in>set ?evs. \<not> is_resume ev" by (simp add: is_resume_def)
  from halt_is_sticky [OF t h(1) this] h have "ac_status t = AsHalted \<and> ac_hwm t = Some (Dec 100 0)" by simp
  with h(1) t show ?thesis by blast
qed

lemma risk_step_hwm:
  "risk_step s ev t \<Longrightarrow> \<not> is_resume ev \<Longrightarrow>
   ac_hwm t = ac_hwm s \<or> (\<exists>e. dec_ok e \<and> ac_hwm t = Some (ratchet (ac_hwm s) e))"
  by (cases ev) (auto simp: step_with_fst halt_def begin_flatten_def complete_flatten_def is_resume_def, blast+)

text \<open>
  While no resume intervenes the high-water mark never falls, and it ends at or above every
  equity that was observed while the account could add risk, in particular the last one.
\<close>

theorem hwm_only_ratchets:
  assumes "risk_trace s evs t" and "risk_account_ok s" and "\<forall>ev\<in>set evs. \<not> is_resume ev" and "ac_hwm s = Some h"
  shows "\<exists>h'. ac_hwm t = Some h' \<and> dval h \<le> dval h' \<and>
    (may_add_risk (ac_status t) \<longrightarrow> (\<forall>e. ac_last_equity t = Some e \<longrightarrow> dval e \<le> dval h'))"
proof -
  have "risk_account_ok t \<and> (\<exists>h'. ac_hwm t = Some h' \<and> dval h \<le> dval h')"
  proof (rule risk_trace_invariant [OF assms(1)])
    fix a ev b
    assume ev: "ev \<in> set evs" and a: "risk_account_ok a \<and> (\<exists>h'. ac_hwm a = Some h' \<and> dval h \<le> dval h')"
      and st: "risk_step a ev b"
    have "pred_option dec_ok (ac_hwm a)" using a by (simp add: risk_account_ok_def account_decs_ok_def)
    from risk_step_hwm [OF st] ratchet_ge [OF _ this] a ev assms(3)
    have "\<exists>h'. ac_hwm b = Some h' \<and> dval h \<le> dval h'" by (metis order_trans)
    with a st show "risk_account_ok b \<and> (\<exists>h'. ac_hwm b = Some h' \<and> dval h \<le> dval h')"
      using account_ok_step by blast
  qed (use assms in auto)
  then show ?thesis by (auto simp: risk_account_ok_def)
qed

theorem hwm_only_ratchets_witness:
  "risk_account_ok example_risk_account \<and>
   (\<exists>t h'. risk_trace example_risk_account [EvObserve (example_reading 94) 1 FirstObservation] t
     \<and> ac_hwm t = Some h' \<and> 100 \<le> dval h')"
proof -
  have ok: "risk_account_ok example_risk_account"
    using example_account_ok by (simp add: risk_account_ok_def example_risk_account_def account_new_def is_halt_def dval_def)
  have h: "ac_hwm example_risk_account = Some (Dec 100 0)" by (simp add: example_risk_account_def)
  let ?evs = "[EvObserve (example_reading 94) 1 FirstObservation]"
  obtain t where t: "risk_trace example_risk_account ?evs t" by (simp add: risk_step_simps example_reading_ok)
  have "\<forall>ev\<in>set ?evs. \<not> is_resume ev" by (simp add: is_resume_def)
  from hwm_only_ratchets [OF t ok this h] have "\<exists>h'. ac_hwm t = Some h' \<and> 100 \<le> dval h'" by (auto simp: dval_def)
  with ok t show ?thesis by blast
qed

section \<open>Resuming\<close>

text \<open>
  C30: a halt is not a dead end, and a human is the only way out. From every well-formed halted or
  flattening account, a verified flatten followed by a resume with any approval at a positive equity
  succeeds and gives an active account at full size whose mark, day-start and last equity are that
  equity, with exactly one record appended that names the approver and the first halt's reason.
\<close>

theorem halted_can_resume:
  assumes "risk_account_ok s" and "is_halt (ac_status s)" and "is_positive (es_equity snap)" and "dec_ok (es_equity snap)"
  shows "\<exists>t r. risk_trace s [EvCompleteFlatten True, EvResume approval snap day] t
    \<and> ac_status t = AsActive \<and> risk_scale t = risk_one \<and> ac_shrink_rung t = None \<and> ac_halt t = None
    \<and> ac_hwm t = Some (es_equity snap) \<and> ac_day_start_equity t = Some (es_equity snap)
    \<and> ac_last_equity t = Some (es_equity snap) \<and> ac_trading_day t = Some day
    \<and> ac_resumes t = ac_resumes s @ [r] \<and> rr_approver r = ha_approver approval
    \<and> Some (rr_halt_reason r) = map_option hr_reason (ac_halt s)"
proof -
  obtain h where h: "ac_halt s = Some h" using assms(1,2) by (auto simp: risk_account_ok_def)
  let ?f = "fst (complete_flatten s True)"
  have f: "ac_status ?f = AsHalted" "ac_halt ?f = Some h" "ac_resumes ?f = ac_resumes s"
    using assms(2) h by (auto simp: complete_flatten_def is_halt_def)
  then show ?thesis using assms(3,4) h
    by (auto simp: risk_step_simps resume_def resume_entry_def risk_scale_def may_add_risk_def)
qed

theorem halted_can_resume_witness:
  "\<exists>t. risk_trace example_halted [EvCompleteFlatten True, EvResume example_approval (example_reading 94) 7] t
     \<and> ac_status t = AsActive \<and> ac_hwm t = Some (Dec 94 0)"
proof -
  have "risk_account_ok example_risk_account"
    using example_account_ok by (simp add: risk_account_ok_def example_risk_account_def account_new_def is_halt_def dval_def)
  then have ok: "risk_account_ok example_halted" unfolding example_halted_def by (rule account_ok_halting)
  have h: "is_halt (ac_status example_halted)"
    by (simp add: example_halted_def halt_def example_risk_account_def account_new_def is_halt_def)
  have p: "is_positive (es_equity (example_reading 94))" by code_simp
  have "es_equity (example_reading 94) = Dec 94 0" by (simp add: example_reading_def broker_reported_def)
  with halted_can_resume [OF ok h p example_reading_ok(1), of example_approval 7] show ?thesis by metis
qed

text \<open>The store's defence-in-depth check never refuses what the machine does.\<close>

lemma risk_step_allowed:
  assumes "risk_step s ev t"
  shows "transition_allowed s t"
proof (cases "is_resume ev")
  case True
  with risk_step_keeps [OF assms] show ?thesis by (auto simp: transition_allowed_def is_halt_def may_add_risk_def)
next
  case False
  have "\<not> (is_halt (ac_status s) \<and> may_add_risk (ac_status t))"
    using halted_step(1) [OF assms _ False] by (auto simp: status_dichotomy)
  moreover have "\<not> (ac_status s = AsHalted \<and> ac_status t = AsFlattening)"
    using halted_step(4) [OF assms _ False] by (auto simp: is_halt_def)
  ultimately show ?thesis using risk_step_keeps(1) [OF assms] risk_step_keeps(3) [OF assms False]
    by (simp add: transition_allowed_def Let_def del: de_Morgan_conj)
qed

section \<open>Persistence\<close>

text \<open>
  \<open>from_record\<close> reads back what \<open>to_record\<close> wrote for every well-formed account, except one that
  was shrunk when it was halted: \<open>halt\<close> and \<open>begin_flatten\<close> keep the shrink rung, and \<open>from_record\<close>
  refuses a rung in any status but shrunk, so such a saved halt cannot be loaded.
\<close>

theorem record_round_trip:
  assumes "risk_account_ok s"
  shows "from_record (to_record s) =
    (if is_halt (ac_status s) \<and> ac_shrink_rung s \<noteq> None
     then Inl ''shrink_rung must be present exactly when the status is shrunk'' else Inr s)"
proof -
  have "dec_ok (ac_risk_scale s)" "\<not> dval (ac_risk_scale s) \<le> 0" "\<not> 1 < dval (ac_risk_scale s)"
    using assms by (auto simp: risk_account_ok_def account_decs_ok_def)
  then have sc: "\<not> dec_le (ac_risk_scale s) dec_ZERO" "\<not> dec_lt risk_one (ac_risk_scale s)" by (simp_all add: dec_order)
  have "(is_halt (ac_status s)) = (ac_halt s \<noteq> None)" "ac_status s = AsActive \<Longrightarrow> ac_shrink_rung s = None"
    "ac_status s = AsShrunk \<Longrightarrow> ac_shrink_rung s \<noteq> None" using assms by (simp_all add: risk_account_ok_def)
  with sc show ?thesis
    by (cases "ac_status s"; cases "ac_halt s"; cases "ac_shrink_rung s")
      (simp_all add: from_record_def to_record_def is_halt_def)
qed

theorem record_round_trip_witness:
  "from_record (to_record example_risk_account) = Inr example_risk_account
   \<and> from_record (to_record example_halted) = Inl ''shrink_rung must be present exactly when the status is shrunk''"
proof -
  have ok: "risk_account_ok example_risk_account"
    using example_account_ok by (simp add: risk_account_ok_def example_risk_account_def account_new_def is_halt_def dval_def)
  then have ok': "risk_account_ok example_halted" unfolding example_halted_def by (rule account_ok_halting)
  from record_round_trip [OF ok] record_round_trip [OF ok'] show ?thesis
    by (simp add: example_halted_def halt_def example_risk_account_def account_new_def is_halt_def)
qed

end
