(* ===== verification/Risk_Store.thy ===== *)
theory Risk_Store
  imports Risk_Machine
begin

text \<open>
  \<open>rebalancer-risk/src/store.rs\<close>: compare-and-swap persistence of account states. The locale
  \<open>state_store\<close> is the contract of the trait \<open>StateStore\<close> over the abstract view \<open>stored\<close>; what
  clients rely on is proved in it, and it is interpreted on the in-memory store.
\<close>

section \<open>The in-memory store\<close>

datatype store_error =
    VersionConflict "64 word" "64 word"
  | IllegalTransition string
  | Unavailable string

definition store_error_code :: "store_error \<Rightarrow> string" where
  "store_error_code e =
     (case e of VersionConflict _ _ \<Rightarrow> ''STORE_VERSION_CONFLICT''
      | IllegalTransition _ \<Rightarrow> ''STORE_ILLEGAL_TRANSITION'' | Unavailable _ \<Rightarrow> ''STORE_UNAVAILABLE'')"

record mem_store =
  ms_states :: "(string, account_state) btree_map"
  ms_fail_next :: nat
  ms_saves :: "64 word"

definition mem_store_new :: mem_store where
  "mem_store_new = \<lparr>ms_states = [], ms_fail_next = 0, ms_saves = 0\<rparr>"

definition fail_next_calls :: "mem_store \<Rightarrow> nat \<Rightarrow> mem_store" where
  "fail_next_calls st n = st\<lparr>ms_fail_next := n\<rparr>"

definition mem_load :: "mem_store \<Rightarrow> string \<Rightarrow> mem_store \<times> (store_error + account_state option)" where
  "mem_load st account_id =
     (if ms_fail_next st > 0
      then (st\<lparr>ms_fail_next := ms_fail_next st - 1\<rparr>, Inl (Unavailable ''injected failure''))
      else (st, Inr (map_of (ms_states st) account_id)))"

definition version_of :: "account_state option \<Rightarrow> 64 word" where
  "version_of s = (case s of None \<Rightarrow> 0 | Some x \<Rightarrow> ac_version x)"

definition mem_save :: "mem_store \<Rightarrow> 64 word \<Rightarrow> account_state \<Rightarrow> mem_store \<times> (store_error + account_state)" where
  "mem_save st expected new_state =
     (if ms_fail_next st > 0
      then (st\<lparr>ms_fail_next := ms_fail_next st - 1\<rparr>, Inl (Unavailable ''injected failure''))
      else
        let key = ac_account_id new_state; old = map_of (ms_states st) key; actual = version_of old
        in if actual \<noteq> expected then (st, Inl (VersionConflict expected actual))
           else if (case old of None \<Rightarrow> False | Some o_state \<Rightarrow> \<not> transition_allowed o_state new_state)
           then (st, Inl (IllegalTransition
                  (status_as_str (ac_status (the old)) @ '' to '' @ status_as_str (ac_status new_state)
                   @ '' without a recorded human resume'')))
           else let saved = with_version new_state (expected + 1)
                in (st\<lparr>ms_states := btm_insert key saved (ms_states st), ms_saves := ms_saves st + 1\<rparr>, Inr saved))"

section \<open>Clients of a store\<close>

text \<open>
  Any number of processes call the store with whatever arguments they like; the store serialises
  the calls. \<open>run_calls\<close> is such a sequence, for any implementation of the trait.
\<close>

datatype store_call = LoadCall string | SaveCall "64 word" account_state

fun run_calls :: "('st \<Rightarrow> string \<Rightarrow> 'st \<times> (store_error + account_state option)) \<Rightarrow>
    ('st \<Rightarrow> 64 word \<Rightarrow> account_state \<Rightarrow> 'st \<times> (store_error + account_state)) \<Rightarrow> 'st \<Rightarrow> store_call list \<Rightarrow> 'st" where
  "run_calls ld sv st [] = st"
| "run_calls ld sv st (LoadCall a # cs) = run_calls ld sv (fst (ld st a)) cs"
| "run_calls ld sv st (SaveCall v s # cs) = run_calls ld sv (fst (sv st v s)) cs"

text \<open>
  How a later stored state of an account relates to an earlier one: its resume history extends the
  earlier one, and without a new record a halt is still in force.
\<close>

definition succeeds :: "account_state \<Rightarrow> account_state \<Rightarrow> bool" where
  "succeeds old new \<longleftrightarrow> ac_account_id new = ac_account_id old \<and>
     (\<exists>rs. ac_resumes new = ac_resumes old @ rs \<and>
       (rs = [] \<longrightarrow> (is_halt (ac_status old) \<longrightarrow> is_halt (ac_status new)) \<and>
                   (ac_status old = AsHalted \<longrightarrow> ac_status new = AsHalted)))"

lemma succeeds_refl: "succeeds s s"
  by (simp add: succeeds_def)

lemma transition_allowed_succeeds: "transition_allowed a b \<Longrightarrow> succeeds a b"
proof -
  assume t: "transition_allowed a b"
  then obtain rs where "ac_resumes b = ac_resumes a @ rs"
    by (metis (no_types, lifting) append_take_drop_id transition_allowed_def)
  with t show ?thesis
    by (cases "ac_status a"; cases "ac_status b")
      (auto simp: transition_allowed_def succeeds_def Let_def is_halt_def may_add_risk_def split: if_splits)
qed

lemma succeeds_trans: "succeeds a b \<Longrightarrow> succeeds b c \<Longrightarrow> succeeds a c"
  by (auto simp: succeeds_def)

lemma succeeds_with_version [simp]: "succeeds a (with_version b v) \<longleftrightarrow> succeeds a b"
  by (simp add: succeeds_def with_version_def)

section \<open>The contract\<close>

locale state_store =
  fixes stored :: "'st \<Rightarrow> string \<Rightarrow> account_state option"
    and load :: "'st \<Rightarrow> string \<Rightarrow> 'st \<times> (store_error + account_state option)"
    and save :: "'st \<Rightarrow> 64 word \<Rightarrow> account_state \<Rightarrow> 'st \<times> (store_error + account_state)"
  assumes load_view: "stored (fst (load st a)) = stored st"
    and load_reads: "load st a = (st', Inr r) \<Longrightarrow> r = stored st a"
    and save_fails: "save st v s = (st', Inl e) \<Longrightarrow> stored st' = stored st"
    and save_wins: "save st v s = (st', Inr s') \<Longrightarrow>
      v = version_of (stored st (ac_account_id s)) \<and> s' = with_version s (v + 1) \<and>
      stored st' = (stored st)(ac_account_id s \<mapsto> s') \<and>
      (\<forall>old. stored st (ac_account_id s) = Some old \<longrightarrow> transition_allowed old s)"
begin

lemma second_save_loses:
  assumes "save st v s1 = (st1, Inr s1')" and "ac_account_id s1 = ac_account_id s2"
  shows "\<exists>st2 e. save st1 v s2 = (st2, Inl e) \<and> stored st2 = stored st1"
proof (cases "snd (save st1 v s2)")
  case (Inr s2')
  then have "save st1 v s2 = (fst (save st1 v s2), Inr s2')" by (simp add: prod_eq_iff)
  from save_wins [OF this] save_wins [OF assms(1)] assms(2) have "v = v + 1"
    by (simp add: version_of_def with_version_def)
  then show ?thesis by simp
next
  case (Inl e)
  then have "save st1 v s2 = (fst (save st1 v s2), Inl e)" by (simp add: prod_eq_iff)
  with save_fails [OF this] show ?thesis by blast
qed

lemma save_succeeds:
  assumes "stored st a = Some old"
  shows "\<exists>new. stored (fst (save st v s)) a = Some new \<and> succeeds old new"
proof (cases "snd (save st v s)")
  case (Inl e)
  then have "save st v s = (fst (save st v s), Inl e)" by (simp add: prod_eq_iff)
  from save_fails [OF this] assms show ?thesis by (simp add: succeeds_refl)
next
  case (Inr s')
  then have "save st v s = (fst (save st v s), Inr s')" by (simp add: prod_eq_iff)
  from save_wins [OF this] assms show ?thesis
    by (cases "ac_account_id s = a") (auto simp: succeeds_refl transition_allowed_succeeds)
qed

lemma history:
  "stored st a = Some old \<Longrightarrow> \<exists>new. stored (run_calls load save st cs) a = Some new \<and> succeeds old new"
proof (induction cs arbitrary: st old)
  case (Cons c cs)
  show ?case
  proof (cases c)
    case (SaveCall v s)
    from save_succeeds [OF Cons.prems, of v s] obtain mid where
      mid: "stored (fst (save st v s)) a = Some mid" "succeeds old mid" by blast
    from Cons.IH [OF mid(1)] mid(2) SaveCall show ?thesis by (auto intro: succeeds_trans)
  qed (use Cons in \<open>simp add: load_view\<close>)
qed (simp add: succeeds_refl)

end

section \<open>The in-memory store keeps the contract\<close>

definition mem_stored :: "mem_store \<Rightarrow> string \<Rightarrow> account_state option" where
  "mem_stored st = map_of (ms_states st)"

interpretation ms: state_store mem_stored mem_load mem_save
proof unfold_locales
  fix st a
  show "mem_stored (fst (mem_load st a)) = mem_stored st" by (simp add: mem_stored_def mem_load_def)
next
  fix st a st' r
  show "mem_load st a = (st', Inr r) \<Longrightarrow> r = mem_stored st a"
    by (auto simp: mem_stored_def mem_load_def split: if_splits)
next
  fix st v s st' e
  show "mem_save st v s = (st', Inl e) \<Longrightarrow> mem_stored st' = mem_stored st"
    by (auto simp: mem_stored_def mem_save_def Let_def split: if_splits)
next
  fix st v s st' s'
  assume "mem_save st v s = (st', Inr s')"
  then show "v = version_of (mem_stored st (ac_account_id s)) \<and> s' = with_version s (v + 1) \<and>
      mem_stored st' = (mem_stored st)(ac_account_id s \<mapsto> s') \<and>
      (\<forall>old. mem_stored st (ac_account_id s) = Some old \<longrightarrow> transition_allowed old s)"
    by (auto simp: mem_stored_def mem_save_def Let_def map_of_btm_insert split: if_splits option.splits)
qed

text \<open>
  C29: whatever sequence of loads and saves the clients of the store issue, with any states and any
  version numbers, the stored history of an account is append-only, and an account stored as halted
  is still stored as halted unless a resume record was appended.
\<close>

theorem store_history_safe:
  assumes "map_of (ms_states st) a = Some old"
  shows "\<exists>new. map_of (ms_states (run_calls mem_load mem_save st cs)) a = Some new \<and>
    (\<exists>rs. ac_resumes new = ac_resumes old @ rs \<and>
      (rs = [] \<longrightarrow> (is_halt (ac_status old) \<longrightarrow> is_halt (ac_status new)) \<and>
                  (ac_status old = AsHalted \<longrightarrow> ac_status new = AsHalted)))"
  using ms.history [of st a old cs] assms by (auto simp: mem_stored_def succeeds_def)

text \<open>
  Load, step, save. When the store answers, the state a run loads, moves by any operation of the
  risk machine and saves at the loaded version is accepted (the transition check never refuses the
  machine) and stored with the next version; a second run that saves at the same version, whatever it
  computed, gets a version conflict and changes nothing.
\<close>

theorem load_step_save_once:
  assumes "mem_load st a = (st1, Inr (Some s))" and "ac_account_id s = a"
    and "risk_step s ev t" and "ac_account_id u = a"
  shows "\<exists>st2. mem_save st1 (ac_version s) t = (st2, Inr (with_version t (ac_version s + 1)))
    \<and> map_of (ms_states st2) a = Some (with_version t (ac_version s + 1))
    \<and> mem_save st2 (ac_version s) u = (st2, Inl (VersionConflict (ac_version s) (ac_version s + 1)))"
proof -
  have l: "st1 = st" "ms_fail_next st = 0" "map_of (ms_states st) a = Some s"
    using assms(1) by (auto simp: mem_load_def split: if_splits)
  have t: "ac_account_id t = a" using risk_step_keeps(1) [OF assms(3)] assms(2) by simp
  let ?t = "with_version t (ac_version s + 1)"
  let ?st2 = "st\<lparr>ms_states := btm_insert a ?t (ms_states st), ms_saves := ms_saves st + 1\<rparr>"
  have "mem_save st1 (ac_version s) t = (?st2, Inr ?t)"
    using risk_step_allowed [OF assms(3)] l t by (simp add: mem_save_def version_of_def Let_def)
  moreover have "mem_save ?st2 (ac_version s) u = (?st2, Inl (VersionConflict (ac_version s) (ac_version s + 1)))"
    using l assms(4) by (simp add: mem_save_def version_of_def Let_def map_of_btm_insert with_version_def)
  ultimately show ?thesis by (auto simp: map_of_btm_insert)
qed

definition example_store :: mem_store where
  "example_store = mem_store_new\<lparr>ms_states := [(''a'', example_halted)]\<rparr>"

lemma example_halted_facts:
  "ac_account_id example_halted = ''a''" "ac_status example_halted = AsHalted" "ac_resumes example_halted = []"
  "ac_version example_halted = 0"
  by (simp_all add: example_halted_def halt_def example_risk_account_def account_new_def is_halt_def)

theorem store_history_safe_witness:
  "\<exists>new. map_of (ms_states (run_calls mem_load mem_save example_store
       [LoadCall ''a'', SaveCall 0 (account_new ''a'')])) ''a'' = Some new \<and>
     (ac_resumes new = [] \<longrightarrow> ac_status new = AsHalted)"
proof -
  have "map_of (ms_states example_store) ''a'' = Some example_halted"
    by (simp add: example_store_def mem_store_new_def)
  from store_history_safe [OF this, of "[LoadCall ''a'', SaveCall 0 (account_new ''a'')]"]
  show ?thesis by (auto simp: example_halted_facts)
qed

theorem load_step_save_once_witness:
  "\<exists>st2. mem_save example_store 0 (fst (complete_flatten example_halted True)) =
      (st2, Inr (with_version (fst (complete_flatten example_halted True)) 1))
    \<and> mem_save st2 0 (account_new ''a'') = (st2, Inl (VersionConflict 0 1))"
proof -
  have l: "mem_load example_store ''a'' = (example_store, Inr (Some example_halted))"
    by (simp add: mem_load_def example_store_def mem_store_new_def)
  have u: "ac_account_id (account_new ''a'') = ''a''" by (simp add: account_new_def)
  from load_step_save_once [OF l example_halted_facts(1) rs_complete_flatten [of _ True] u]
  show ?thesis by (auto simp: example_halted_facts)
qed

end
