(* ===== verification/Mandate.thy ===== *)
theory Mandate
  imports Policy Risk_Props
begin

text \<open>
  \<open>mandate-core/src/mandate.rs\<close>: the whole mandate body and its validator, and the two compilers
  that start from it, \<open>Policy::compile\<close> and \<open>RiskPolicy::from_mandate\<close>. A violation is the dotted
  path of its field; its prose is left out. \<open>rust_decimal\<close>'s parser and the canonical hash of a
  body are parameters.
\<close>

section \<open>The body\<close>

datatype capital_source = Own | ThirdParty | Mixed

record acknowledgement =
  ak_doc :: string
  ak_doc_version :: string
  ak_at :: int
  ak_by :: string

record basis =
  ba_capital_source :: capital_source
  ba_jurisdiction :: string
  ba_acknowledgements :: "acknowledgement list"

datatype ladder_action = LaShrink | LaHaltFlatten

record ladder_rung =
  lr_at :: f64_obs
  lr_action :: ladder_action
  lr_scale :: "f64_obs option"

datatype resume_policy = HumanOnly

record loss =
  lo_daily_loss_limit :: f64_obs
  lo_drawdown_ladder :: "ladder_rung list"
  lo_resume_after_halt :: resume_policy

datatype agent_action =
    PlaceOrders | CancelOrders | ResizeWithinLimits | Rebalance | HaltAction | FlattenAction | AddStrategy | RemoveStrategy
  | RaiseTargetRisk | ChangeLimits | ResumeAfterHalt | ChangeCredentials | Withdraw

datatype autonomy_level = L0 | L1 | L2 | L3

record autonomy =
  au_level :: autonomy_level
  au_may :: "agent_action list"
  au_needs_confirmation :: "agent_action list"
  au_never :: "agent_action list"

datatype digest_cadence = DigestDaily | DigestWeekly

record reporting =
  re_digest :: digest_cadence
  re_alert_channels :: "string list"

record mandate_body =
  mb_basis :: basis
  mb_capital :: capital
  mb_universe :: universe
  mb_exposure :: exposure
  mb_loss :: loss
  mb_autonomy :: autonomy
  mb_reporting :: reporting

definition REQUIRED_ACK_DOCS :: "string list" where
  "REQUIRED_ACK_DOCS = [''own_capital_attestation'', ''risk_disclosure'']"

definition REQUIRED_NEVER :: "agent_action list" where
  "REQUIRED_NEVER = [ChangeLimits, ResumeAfterHalt, ChangeCredentials, Withdraw]"

definition ORDER_ACTIONS :: "agent_action list" where
  "ORDER_ACTIONS = [PlaceOrders, CancelOrders, ResizeWithinLimits, Rebalance, FlattenAction]"

section \<open>Validation\<close>

definition fgt :: "f64_obs \<Rightarrow> f64_obs \<Rightarrow> bool" where
  "fgt x y = fnum_lt (f_num y) (f_num x)"

definition not_positive :: "f64_obs \<Rightarrow> bool" where
  "not_positive v \<longleftrightarrow> \<not> f_finite v \<or> fnum_le (f_num v) (FNum 0)"

definition fraction :: "string \<Rightarrow> f64_obs \<Rightarrow> string list" where
  "fraction field v =
     (if not_positive v then [field] else if fnum_lt (FNum 1) (f_num v) then [field] else [])"

definition multiple :: "string \<Rightarrow> f64_obs \<Rightarrow> string list \<times> bool" where
  "multiple field v = (if not_positive v then ([field], False) else ([], True))"

definition money_check :: "(string \<Rightarrow> rat option) \<Rightarrow> string \<Rightarrow> money \<Rightarrow> string list \<times> rat option" where
  "money_check from_str field m =
     (let bad_ccy = (length (m_ccy m) \<noteq> 3 \<or> \<not> list_all is_upper (m_ccy m));
          v = (if bad_ccy then [field @ ''.ccy''] else [])
      in case from_str (trim (m_amount m)) of
           Some d \<Rightarrow> if d > 0 then (v, if bad_ccy then None else Some d) else (v @ [field @ ''.amount''], None)
         | None \<Rightarrow> (v @ [field @ ''.amount''], None))"

definition nonempty_list :: "string \<Rightarrow> string list \<Rightarrow> string list" where
  "nonempty_list field items =
     (if items = [] then [field] else []) @ (if list_ex (\<lambda>s. trim s = []) items then [field] else [])"

definition check_basis :: "basis \<Rightarrow> string list" where
  "check_basis b =
     (let j = trim (ba_jurisdiction b)
      in (if ba_capital_source b \<noteq> Own then [''basis.capital_source''] else [])
         @ (if j = [] \<or> length j > 16 \<or> \<not> list_all (\<lambda>c. is_alnum c \<or> c = CHR ''-'') j
            then [''basis.jurisdiction''] else [])
         @ concat (map (\<lambda>doc. if list_ex (\<lambda>a. ak_doc a = doc) (ba_acknowledgements b) then []
                              else [''basis.acknowledgements'']) REQUIRED_ACK_DOCS)
         @ concat (map (\<lambda>(i, a). if trim (ak_by a) = [] \<or> trim (ak_doc_version a) = []
                                 then [''basis.acknowledgements['' @ show_nat i @ '']''] else [])
                (enumerate 0 (ba_acknowledgements b))))"

definition check_reserve :: "f64_obs \<Rightarrow> string list" where
  "check_reserve r =
     (if \<not> f_finite r \<or> \<not> (fnum_le (FNum 0) (f_num r) \<and> fnum_lt (f_num r) (FNum 1))
      then [''capital.min_cash_reserve''] else [])"

definition leverage_bad :: "universe \<Rightarrow> bool" where
  "leverage_bad u \<longleftrightarrow> \<not> f_finite (u_leverage_max_gross u) \<or> fnum_lt (f_num (u_leverage_max_gross u)) (FNum 1)"

definition check_universe_lists :: "universe \<Rightarrow> string list" where
  "check_universe_lists u =
     (let allow = bts_of_list (map (\<lambda>s. to_upper (trim s)) (u_instrument_allow u));
          overlap = filter (\<lambda>s. to_upper (trim s) \<in> set allow) (u_instrument_deny u)
      in nonempty_list ''universe.venues'' (u_venues u)
         @ nonempty_list ''universe.asset_classes'' (u_asset_classes u)
         @ nonempty_list ''universe.instrument_allow'' (u_instrument_allow u)
         @ (if overlap \<noteq> [] then [''universe.instrument_deny''] else [])
         @ (if leverage_bad u then [''universe.leverage_max_gross''] else []))"

definition check_class_cap :: "universe \<Rightarrow> exposure \<Rightarrow> bool \<Rightarrow> string \<times> f64_obs \<Rightarrow> string list" where
  "check_class_cap u e gross_ok = (\<lambda>(cls, cap).
     let f = ''exposure.max_asset_class.'' @ cls; (bad, ok) = multiple f cap
     in (if cls \<in> set (u_asset_classes u) then [] else [f])
        @ bad @ (if ok \<and> gross_ok \<and> fgt cap (e_max_gross e) then [f] else []))"

definition check_caps :: "universe \<Rightarrow> exposure \<Rightarrow> string list" where
  "check_caps u e =
     (let (v1, gross_ok) = multiple ''exposure.max_gross'' (e_max_gross e);
          (v2, net_ok) = multiple ''exposure.max_net'' (e_max_net e);
          (v3, pos_ok) = multiple ''exposure.max_position'' (e_max_position e)
      in v1 @ v2 @ v3
         @ (if gross_ok \<and> \<not> leverage_bad u \<and> fgt (e_max_gross e) (u_leverage_max_gross u)
            then [''exposure.max_gross''] else [])
         @ (if gross_ok \<and> net_ok \<and> fgt (e_max_net e) (e_max_gross e) then [''exposure.max_net''] else [])
         @ (if gross_ok \<and> pos_ok \<and> fgt (e_max_position e) (e_max_gross e) then [''exposure.max_position''] else [])
         @ concat (map (check_class_cap u e gross_ok) (e_max_asset_class e)))"

definition check_notional :: "(string \<Rightarrow> rat option) \<Rightarrow> capital \<Rightarrow> exposure \<Rightarrow> rat option \<Rightarrow> string list" where
  "check_notional from_str c e allocated =
     (let (v, notional) = money_check from_str ''exposure.max_order_notional'' (e_max_order_notional e)
      in v @ (case (allocated, notional) of
           (Some a, Some n) \<Rightarrow>
             if m_ccy (e_max_order_notional e) \<noteq> m_ccy (c_allocated c) then [''exposure.max_order_notional.ccy'']
             else if n > a then [''exposure.max_order_notional''] else []
         | _ \<Rightarrow> []))"

text \<open>
  One rung, named \<open>f\<close>: its threshold, its scale (with the scale that the next rung may not exceed)
  and its place; \<open>is_last\<close> says that no rung follows it.
\<close>

definition check_at :: "string \<Rightarrow> f64_num \<Rightarrow> f64_obs \<Rightarrow> string list" where
  "check_at f prev_at a = fraction (f @ ''.at'') a @ (if f_finite a \<and> fnum_le (f_num a) prev_at then [f @ ''.at''] else [])"

definition check_scale :: "string \<Rightarrow> f64_num \<Rightarrow> ladder_action \<Rightarrow> f64_obs option \<Rightarrow> string list \<times> f64_num" where
  "check_scale f prev_scale act sc =
     (case (act, sc) of
        (LaShrink, Some s) \<Rightarrow>
          if f_finite s \<and> fnum_lt (FNum 0) (f_num s) \<and> fnum_lt (f_num s) (FNum 1)
          then (if fnum_lt prev_scale (f_num s) then [f @ ''.scale''] else [], f_num s)
          else ([f @ ''.scale''], prev_scale)
      | (LaShrink, None) \<Rightarrow> ([f @ ''.scale''], prev_scale)
      | (LaHaltFlatten, Some _) \<Rightarrow> ([f @ ''.scale''], prev_scale)
      | (LaHaltFlatten, None) \<Rightarrow> ([], prev_scale))"

definition check_place :: "string \<Rightarrow> bool \<Rightarrow> ladder_action \<Rightarrow> string list" where
  "check_place f is_last act =
     (if is_last \<and> act \<noteq> LaHaltFlatten then [f] else []) @ (if \<not> is_last \<and> act = LaHaltFlatten then [f] else [])"

definition check_rung :: "nat \<Rightarrow> bool \<Rightarrow> f64_num \<Rightarrow> f64_num \<Rightarrow> ladder_rung \<Rightarrow> string list \<times> f64_num" where
  "check_rung i is_last prev_at prev_scale r =
     (let f = ''loss.drawdown_ladder['' @ show_nat i @ '']'';
          (v, scale) = check_scale f prev_scale (lr_action r) (lr_scale r)
      in (check_at f prev_at (lr_at r) @ v @ check_place f is_last (lr_action r), scale))"

fun check_ladder :: "nat \<Rightarrow> f64_num \<Rightarrow> f64_num \<Rightarrow> ladder_rung list \<Rightarrow> string list" where
  "check_ladder i prev_at prev_scale [] = []"
| "check_ladder i prev_at prev_scale (r # rs) =
     (let (v, scale) = check_rung i (rs = []) prev_at prev_scale r
      in v @ check_ladder (Suc i) (f_num (lr_at r)) scale rs)"

definition check_loss :: "loss \<Rightarrow> string list" where
  "check_loss l =
     (let ladder = lo_drawdown_ladder l; d = lo_daily_loss_limit l
      in fraction ''loss.daily_loss_limit'' d
         @ (if ladder = [] then [''loss.drawdown_ladder''] else [])
         @ check_ladder 0 (FNum 0) (FNum 1) ladder
         @ (if ladder \<noteq> [] \<and> f_finite d \<and> f_finite (lr_at (last ladder)) \<and> fgt d (lr_at (last ladder))
            then [''loss.daily_loss_limit''] else []))"

fun check_listed :: "string \<Rightarrow> agent_action set \<Rightarrow> agent_action list \<Rightarrow> string list" where
  "check_listed name seen [] = []"
| "check_listed name seen (a # as) =
     (if a \<in> seen then [''autonomy.'' @ name] else []) @ check_listed name (insert a seen) as"

definition level_below_L2 :: "autonomy_level \<Rightarrow> bool" where
  "level_below_L2 l \<longleftrightarrow> l = L0 \<or> l = L1"

definition check_autonomy :: "autonomy \<Rightarrow> string list" where
  "check_autonomy a =
     concat (map (\<lambda>r. if r \<in> set (au_never a) then [] else [''autonomy.never'']) REQUIRED_NEVER)
     @ check_listed ''may'' {} (au_may a)
     @ check_listed ''needs_confirmation'' (set (au_may a)) (au_needs_confirmation a)
     @ check_listed ''never'' (set (au_may a) \<union> set (au_needs_confirmation a)) (au_never a)
     @ (if level_below_L2 (au_level a) \<and> list_ex (\<lambda>x. x \<in> set ORDER_ACTIONS) (au_may a) then [''autonomy.may''] else [])"

definition mandate_validate :: "(string \<Rightarrow> rat option) \<Rightarrow> mandate_body \<Rightarrow> string list" where
  "mandate_validate from_str m =
     (let c = mb_capital m; u = mb_universe m; e = mb_exposure m;
          (va, allocated) = money_check from_str ''capital.allocated'' (c_allocated c)
      in check_basis (mb_basis m) @ va @ check_reserve (c_min_cash_reserve c)
         @ check_universe_lists u @ check_caps u e @ check_notional from_str c e allocated
         @ (if e_max_orders_per_day e = 0 then [''exposure.max_orders_per_day''] else [])
         @ fst (multiple ''exposure.max_turnover_per_day'' (e_max_turnover_per_day e))
         @ check_loss (mb_loss m) @ check_autonomy (mb_autonomy m)
         @ (if re_alert_channels (mb_reporting m) = [] then [''reporting.alert_channels''] else []))"

section \<open>The compilers\<close>

text \<open>\<open>Policy::compile\<close>: an unusable body gives a policy that denies everything.\<close>

definition compile_policy :: "(string \<Rightarrow> rat option) \<Rightarrow> (mandate_body \<Rightarrow> string) \<Rightarrow> mandate_body \<Rightarrow> policy" where
  "compile_policy from_str hash m =
     \<lparr>p_body_hash = hash m,
      p_body = (if mandate_validate from_str m = []
                then case convert (mb_capital m) (mb_universe m) (mb_exposure m) of
                       Inr l \<Rightarrow> ValidBody l | Inl _ \<Rightarrow> InvalidBody
                else InvalidBody),
      p_envelope = None, p_max_price_age_secs = DEFAULT_MAX_PRICE_AGE_SECS\<rparr>"

definition rung_of :: "ladder_rung \<Rightarrow> risk_policy_error + rung" where
  "rung_of r =
     (let conv = (\<lambda>v. map_err math_error_text (ratio_to_dec v RoundDown))
      in try_bind (case lr_action r of
           LaShrink \<Rightarrow> try_bind (ok_or ''a shrink rung has no scale'' (lr_scale r)) (\<lambda>s.
                       try_bind (conv s) (\<lambda>d. Inr (RaShrink d)))
         | LaHaltFlatten \<Rightarrow> Inr RaHaltFlatten) (\<lambda>a.
         try_bind (conv (lr_at r)) (\<lambda>d. Inr \<lparr>rung_at = d, rung_action = a\<rparr>)))"

definition from_mandate_with_recovery :: "(string \<Rightarrow> rat option) \<Rightarrow> mandate_body \<Rightarrow> dec \<Rightarrow> risk_policy_error + risk_policy" where
  "from_mandate_with_recovery from_str m recovery =
     (let v = mandate_validate from_str m
      in if v \<noteq> [] then Inl (''the mandate is invalid: '' @ join ''; '' v)
      else try_bind (try_fold (\<lambda>rs r. try_bind (rung_of r) (\<lambda>x. Inr (rs @ [x]))) [] (lo_drawdown_ladder (mb_loss m))) (\<lambda>rungs.
           try_bind (map_err math_error_text (ratio_to_dec (lo_daily_loss_limit (mb_loss m)) RoundDown)) (\<lambda>d.
           risk_policy_new d rungs recovery)))"

definition from_mandate :: "(string \<Rightarrow> rat option) \<Rightarrow> mandate_body \<Rightarrow> risk_policy_error + risk_policy" where
  "from_mandate from_str m =
     from_mandate_with_recovery from_str m (case parse_dec ''0.5'' of Inr d \<Rightarrow> d | Inl _ \<Rightarrow> risk_one)"

section \<open>What a valid mandate is\<close>

definition holds :: "f64_obs \<Rightarrow> (rat \<Rightarrow> bool) \<Rightarrow> bool" where
  "holds v P = (case f_num v of FNum r \<Rightarrow> P r | _ \<Rightarrow> False)"

definition fval :: "f64_obs \<Rightarrow> rat" where
  "fval v = (case f_num v of FNum r \<Rightarrow> r | _ \<Rightarrow> 0)"

definition rung_scale_val :: "ladder_rung \<Rightarrow> rat" where
  "rung_scale_val r = (case lr_scale r of Some s \<Rightarrow> fval s | None \<Rightarrow> 0)"

definition money_ok :: "(string \<Rightarrow> rat option) \<Rightarrow> money \<Rightarrow> bool" where
  "money_ok from_str m \<longleftrightarrow> length (m_ccy m) = 3 \<and> list_all is_upper (m_ccy m) \<and>
     (\<exists>d>0. from_str (trim (m_amount m)) = Some d)"

definition amount_of :: "(string \<Rightarrow> rat option) \<Rightarrow> money \<Rightarrow> rat" where
  "amount_of from_str m = the (from_str (trim (m_amount m)))"

definition basis_ok :: "basis \<Rightarrow> bool" where
  "basis_ok b \<longleftrightarrow> ba_capital_source b = Own \<and>
     trim (ba_jurisdiction b) \<noteq> [] \<and> length (trim (ba_jurisdiction b)) \<le> 16 \<and>
     list_all (\<lambda>c. is_alnum c \<or> c = CHR ''-'') (trim (ba_jurisdiction b)) \<and>
     set REQUIRED_ACK_DOCS \<subseteq> ak_doc ` set (ba_acknowledgements b) \<and>
     (\<forall>a\<in>set (ba_acknowledgements b). trim (ak_by a) \<noteq> [] \<and> trim (ak_doc_version a) \<noteq> [])"

definition universe_ok :: "universe \<Rightarrow> bool" where
  "universe_ok u \<longleftrightarrow>
     (\<forall>xs\<in>{u_venues u, u_asset_classes u, u_instrument_allow u}. xs \<noteq> [] \<and> (\<forall>s\<in>set xs. trim s \<noteq> [])) \<and>
     (\<lambda>s. to_upper (trim s)) ` set (u_instrument_deny u) \<inter> (\<lambda>s. to_upper (trim s)) ` set (u_instrument_allow u) = {} \<and>
     holds (u_leverage_max_gross u) (\<lambda>r. 1 \<le> r)"

definition exposure_ok :: "universe \<Rightarrow> exposure \<Rightarrow> bool" where
  "exposure_ok u e \<longleftrightarrow>
     holds (e_max_gross e) (\<lambda>g. 0 < g \<and> g \<le> fval (u_leverage_max_gross u) \<and>
       holds (e_max_net e) (\<lambda>n. 0 < n \<and> n \<le> g) \<and> holds (e_max_position e) (\<lambda>p. 0 < p \<and> p \<le> g) \<and>
       (\<forall>(c, cap)\<in>set (e_max_asset_class e). c \<in> set (u_asset_classes u) \<and> holds cap (\<lambda>x. 0 < x \<and> x \<le> g))) \<and>
     0 < e_max_orders_per_day e \<and> holds (e_max_turnover_per_day e) (\<lambda>t. 0 < t)"

definition mandate_ladder_ok :: "ladder_rung list \<Rightarrow> bool" where
  "mandate_ladder_ok rs \<longleftrightarrow> rs \<noteq> [] \<and>
     (\<forall>r\<in>set rs. holds (lr_at r) (\<lambda>x. 0 < x \<and> x \<le> 1)) \<and>
     sorted_wrt (\<lambda>a b. fval (lr_at a) < fval (lr_at b)) rs \<and>
     (\<forall>r\<in>set (butlast rs). lr_action r = LaShrink \<and> (\<exists>s. lr_scale r = Some s \<and> holds s (\<lambda>x. 0 < x \<and> x < 1))) \<and>
     sorted_wrt (\<lambda>a b. rung_scale_val b \<le> rung_scale_val a) (butlast rs) \<and>
     lr_action (last rs) = LaHaltFlatten \<and> lr_scale (last rs) = None"

definition loss_ok :: "loss \<Rightarrow> bool" where
  "loss_ok l \<longleftrightarrow> mandate_ladder_ok (lo_drawdown_ladder l) \<and>
     holds (lo_daily_loss_limit l) (\<lambda>d. 0 < d \<and> d \<le> fval (lr_at (last (lo_drawdown_ladder l))))"

definition autonomy_ok :: "autonomy \<Rightarrow> bool" where
  "autonomy_ok a \<longleftrightarrow> set REQUIRED_NEVER \<subseteq> set (au_never a) \<and>
     distinct (au_may a @ au_needs_confirmation a @ au_never a) \<and>
     (level_below_L2 (au_level a) \<longrightarrow> set (au_may a) \<inter> set ORDER_ACTIONS = {})"

definition mandate_ok :: "(string \<Rightarrow> rat option) \<Rightarrow> mandate_body \<Rightarrow> bool" where
  "mandate_ok from_str m \<longleftrightarrow> basis_ok (mb_basis m) \<and>
     money_ok from_str (c_allocated (mb_capital m)) \<and> holds (c_min_cash_reserve (mb_capital m)) (\<lambda>r. 0 \<le> r \<and> r < 1) \<and>
     universe_ok (mb_universe m) \<and> exposure_ok (mb_universe m) (mb_exposure m) \<and>
     money_ok from_str (e_max_order_notional (mb_exposure m)) \<and>
     m_ccy (e_max_order_notional (mb_exposure m)) = m_ccy (c_allocated (mb_capital m)) \<and>
     amount_of from_str (e_max_order_notional (mb_exposure m)) \<le> amount_of from_str (c_allocated (mb_capital m)) \<and>
     loss_ok (mb_loss m) \<and> autonomy_ok (mb_autonomy m) \<and> re_alert_channels (mb_reporting m) \<noteq> []"

section \<open>The validator decides it\<close>

lemmas f64_defs = f_finite_def fnum_le_def holds_def fval_def fgt_def not_positive_def

lemma fraction_clean: "fraction f v = [] \<longleftrightarrow> holds v (\<lambda>x. 0 < x \<and> x \<le> 1)"
  by (cases "f_num v") (auto simp: fraction_def f64_defs)

lemma multiple_clean: "multiple f v = (if holds v (\<lambda>x. 0 < x) then ([], True) else ([f], False))"
  by (cases "f_num v") (auto simp: multiple_def f64_defs)

lemma concat_map_if_Nil: "concat (map (\<lambda>x. if P x then [] else [f x]) xs) = [] \<longleftrightarrow> (\<forall>x\<in>set xs. P x)"
  by (induction xs) auto

lemma concat_enumerate_Nil:
  "concat (map (\<lambda>(i, a). if P a then [f i] else []) (enumerate n xs)) = [] \<longleftrightarrow> (\<forall>a\<in>set xs. \<not> P a)"
  by (induction xs arbitrary: n) auto

lemma if_singleton_Nil: "(if c then [x] else []) = [] \<longleftrightarrow> \<not> c"
  by simp

lemma check_basis_clean: "check_basis b = [] \<longleftrightarrow> basis_ok b"
  unfolding check_basis_def basis_ok_def Let_def append_is_Nil_conv concat_map_if_Nil concat_enumerate_Nil if_singleton_Nil
  by (auto simp: list_ex_iff image_iff not_less subset_eq)

lemma money_check_clean:
  "fst (money_check fs f m) = [] \<longleftrightarrow> money_ok fs m"
  "money_ok fs m \<Longrightarrow> snd (money_check fs f m) = Some (amount_of fs m)"
  by (auto simp: money_check_def money_ok_def amount_of_def Let_def split: option.splits)

lemma check_reserve_clean: "check_reserve r = [] \<longleftrightarrow> holds r (\<lambda>x. 0 \<le> x \<and> x < 1)"
  by (cases "f_num r") (auto simp: check_reserve_def f64_defs)

lemma check_universe_clean: "check_universe_lists u = [] \<longleftrightarrow> universe_ok u"
  by (cases "f_num (u_leverage_max_gross u)")
    (auto simp: check_universe_lists_def universe_ok_def nonempty_list_def leverage_bad_def list_ex_iff filter_empty_conv
       f64_defs Let_def split: if_splits)

lemma check_class_clean:
  assumes "holds (e_max_gross e) (\<lambda>g. 0 < g)"
  shows "check_class_cap u e True (c, cap) = [] \<longleftrightarrow>
    c \<in> set (u_asset_classes u) \<and> holds cap (\<lambda>x. 0 < x \<and> x \<le> fval (e_max_gross e))"
  using assms by (cases "f_num cap"; cases "f_num (e_max_gross e)")
    (auto simp: check_class_cap_def multiple_clean f64_defs Let_def split: if_splits)

lemma check_caps_clean:
  assumes "universe_ok u"
  shows "check_caps u e = [] \<longleftrightarrow>
     holds (e_max_gross e) (\<lambda>g. 0 < g \<and> g \<le> fval (u_leverage_max_gross u) \<and>
       holds (e_max_net e) (\<lambda>n. 0 < n \<and> n \<le> g) \<and> holds (e_max_position e) (\<lambda>p. 0 < p \<and> p \<le> g) \<and>
       (\<forall>(c, cap)\<in>set (e_max_asset_class e). c \<in> set (u_asset_classes u) \<and> holds cap (\<lambda>x. 0 < x \<and> x \<le> g)))"
proof (cases "holds (e_max_gross e) (\<lambda>g. 0 < g)")
  case False
  then show ?thesis by (auto simp: check_caps_def multiple_clean holds_def split: f64_num.splits)
next
  case True
  then obtain g where g: "f_num (e_max_gross e) = FNum g" "0 < g" by (auto simp: holds_def split: f64_num.splits)
  obtain l where l: "f_num (u_leverage_max_gross u) = FNum l" "1 \<le> l"
    using assms by (auto simp: universe_ok_def holds_def split: f64_num.splits)
  have c: "(\<forall>x\<in>set cs. check_class_cap u e True x = []) \<longleftrightarrow>
     (\<forall>(c, cap)\<in>set cs. c \<in> set (u_asset_classes u) \<and> holds cap (\<lambda>x. 0 < x \<and> x \<le> g))" for cs
    using check_class_clean [OF True] g by (auto simp: fval_def)
  have nb: "\<not> leverage_bad u" using l by (simp add: leverage_bad_def f64_defs)
  show ?thesis
    unfolding check_caps_def multiple_clean holds_def [of "e_max_gross e"] g(1)
    using g l nb by (cases "f_num (e_max_net e)"; cases "f_num (e_max_position e)") (auto simp: f64_defs c [unfolded holds_def])
qed

lemma check_at_clean: "check_at f (FNum p) a = [] \<longleftrightarrow> holds a (\<lambda>x. p < x \<and> 0 < x \<and> x \<le> 1)"
  by (cases "f_num a") (auto simp: check_at_def fraction_clean f64_defs)

lemma check_scale_clean:
  "fst (check_scale f (FNum q) LaShrink sc) = [] \<longleftrightarrow> (\<exists>s. sc = Some s \<and> holds s (\<lambda>x. 0 < x \<and> x < 1 \<and> x \<le> q))"
  "fst (check_scale f (FNum q) LaHaltFlatten sc) = [] \<longleftrightarrow> sc = None"
  "fst (check_scale f (FNum q) LaShrink (Some s)) = [] \<Longrightarrow> snd (check_scale f (FNum q) LaShrink (Some s)) = FNum (fval s)"
proof -
  show "fst (check_scale f (FNum q) LaShrink sc) = [] \<longleftrightarrow> (\<exists>s. sc = Some s \<and> holds s (\<lambda>x. 0 < x \<and> x < 1 \<and> x \<le> q))"
  proof (cases sc)
    case (Some s)
    then show ?thesis by (cases "f_num s") (auto simp: check_scale_def f64_defs)
  qed (simp add: check_scale_def)
  show "fst (check_scale f (FNum q) LaHaltFlatten sc) = [] \<longleftrightarrow> sc = None"
    by (cases sc) (simp_all add: check_scale_def)
  show "fst (check_scale f (FNum q) LaShrink (Some s)) = [] \<Longrightarrow> snd (check_scale f (FNum q) LaShrink (Some s)) = FNum (fval s)"
    by (cases "f_num s") (auto simp: check_scale_def f64_defs split: if_splits)
qed

lemma check_place_clean: "check_place f is_last act = [] \<longleftrightarrow> (is_last \<longleftrightarrow> act = LaHaltFlatten)"
  by (auto simp: check_place_def)

lemma check_rung_clean:
  "fst (check_rung i is_last (FNum p) (FNum q) r) = [] \<longleftrightarrow>
     holds (lr_at r) (\<lambda>x. p < x \<and> 0 < x \<and> x \<le> 1) \<and>
     (if is_last then lr_action r = LaHaltFlatten \<and> lr_scale r = None
      else lr_action r = LaShrink \<and> (\<exists>s. lr_scale r = Some s \<and> holds s (\<lambda>x. 0 < x \<and> x < 1 \<and> x \<le> q)))"
  by (cases "lr_action r")
    (simp_all add: check_rung_def Let_def case_prod_beta check_at_clean check_scale_clean check_place_clean del: append.simps)

lemma check_rung_next:
  assumes "fst (check_rung i False (FNum p) (FNum q) r) = []"
  shows "snd (check_rung i False (FNum p) (FNum q) r) = FNum (rung_scale_val r)"
proof -
  obtain s where s: "lr_action r = LaShrink" "lr_scale r = Some s" "holds s (\<lambda>x. 0 < x \<and> x < 1 \<and> x \<le> q)"
    using assms by (auto simp: check_rung_clean)
  then have "fst (check_scale f (FNum q) LaShrink (Some s)) = []" for f by (simp add: check_scale_clean(1))
  with s(1,2) show ?thesis
    by (simp add: check_rung_def Let_def case_prod_beta rung_scale_val_def check_scale_clean(3) del: append.simps)
qed

lemma holds_fval: "holds v P \<longleftrightarrow> f_finite v \<and> P (fval v)"
  by (cases "f_num v") (simp_all add: f64_defs)

lemma f_num_fval: "f_finite v \<Longrightarrow> f_num v = FNum (fval v)"
  by (cases "f_num v") (simp_all add: f64_defs)

text \<open>The clean ladders: a run of shrink rungs before the halt rung.\<close>

lemma check_ladder_clean:
  "check_ladder i (FNum p) (FNum q) rs = [] \<longleftrightarrow> rs = [] \<or>
     (mandate_ladder_ok rs \<and> p < fval (lr_at (hd rs)) \<and> (tl rs \<noteq> [] \<longrightarrow> rung_scale_val (hd rs) \<le> q))"
proof (induction rs arbitrary: i p q)
  case (Cons r rs)
  show ?case
  proof (cases "fst (check_rung i (rs = []) (FNum p) (FNum q) r) = []")
    case False
    then show ?thesis
      by (cases rs) (auto simp: case_prod_beta check_rung_clean mandate_ladder_ok_def holds_fval rung_scale_val_def)
  next
    case clean: True
    then have at: "f_num (lr_at r) = FNum (fval (lr_at r))" by (simp add: check_rung_clean holds_fval f_num_fval)
    show ?thesis
    proof (cases rs)
      case Nil
      with clean show ?thesis by (auto simp: case_prod_beta check_rung_clean mandate_ladder_ok_def holds_fval)
    next
      case (Cons x xs)
      with clean have n: "snd (check_rung i False (FNum p) (FNum q) r) = FNum (rung_scale_val r)" by (simp add: check_rung_next)
      have "check_ladder i (FNum p) (FNum q) (r # rs) = [] \<longleftrightarrow>
          mandate_ladder_ok rs \<and> fval (lr_at r) < fval (lr_at x) \<and> (xs \<noteq> [] \<longrightarrow> rung_scale_val x \<le> rung_scale_val r)"
        using clean Cons n at Cons.IH by (simp add: case_prod_beta)
      also have "\<dots> \<longleftrightarrow> mandate_ladder_ok (r # rs) \<and> p < fval (lr_at r) \<and> rung_scale_val r \<le> q"
        using clean Cons unfolding check_rung_clean mandate_ladder_ok_def
        by (auto simp: holds_fval rung_scale_val_def sorted_wrt_append)
      finally show ?thesis using Cons by simp
    qed
  qed
qed simp

lemma check_loss_clean: "check_loss l = [] \<longleftrightarrow> loss_ok l"
proof -
  let ?rs = "lo_drawdown_ladder l" and ?d = "lo_daily_loss_limit l"
  have ne: "?rs \<noteq> [] \<and> check_ladder 0 (FNum 0) (FNum 1) ?rs = [] \<longleftrightarrow> mandate_ladder_ok ?rs"
    unfolding check_ladder_clean by (cases ?rs) (auto simp: mandate_ladder_ok_def holds_fval rung_scale_val_def)
  have f: "mandate_ladder_ok ?rs \<Longrightarrow> ?rs \<noteq> [] \<and> f_finite (lr_at (last ?rs)) \<and> fval (lr_at (last ?rs)) \<le> 1"
    by (auto simp: mandate_ladder_ok_def holds_fval)
  have "check_loss l = [] \<longleftrightarrow> holds ?d (\<lambda>x. 0 < x \<and> x \<le> 1) \<and> (?rs \<noteq> [] \<and> check_ladder 0 (FNum 0) (FNum 1) ?rs = []) \<and>
      \<not> (?rs \<noteq> [] \<and> f_finite ?d \<and> f_finite (lr_at (last ?rs)) \<and> fgt ?d (lr_at (last ?rs)))"
    unfolding check_loss_def Let_def append_is_Nil_conv fraction_clean by auto
  also have "\<dots> \<longleftrightarrow> loss_ok l"
    unfolding ne loss_ok_def using f
    by (auto simp: holds_fval fgt_def f_num_fval)
  finally show ?thesis .
qed

lemma check_listed_clean: "check_listed n seen xs = [] \<longleftrightarrow> distinct xs \<and> set xs \<inter> seen = {}"
  by (induction n seen xs rule: check_listed.induct) auto

lemma check_autonomy_clean: "check_autonomy a = [] \<longleftrightarrow> autonomy_ok a"
  unfolding check_autonomy_def autonomy_ok_def append_is_Nil_conv concat_map_if_Nil check_listed_clean if_singleton_Nil
  by (auto simp: list_ex_iff)

lemma check_notional_clean:
  assumes "money_ok fs (c_allocated c)"
  shows "check_notional fs c e (Some (amount_of fs (c_allocated c))) = [] \<longleftrightarrow>
     money_ok fs (e_max_order_notional e) \<and> m_ccy (e_max_order_notional e) = m_ccy (c_allocated c) \<and>
     amount_of fs (e_max_order_notional e) \<le> amount_of fs (c_allocated c)"
proof (cases "money_ok fs (e_max_order_notional e)")
  case True
  then show ?thesis
    using money_check_clean(1) [of fs _ "e_max_order_notional e"] money_check_clean(2) [of fs "e_max_order_notional e"]
    by (auto simp: check_notional_def case_prod_beta)
next
  case False
  then show ?thesis
    using money_check_clean(1) [of fs _ "e_max_order_notional e"] by (auto simp: check_notional_def case_prod_beta)
qed

lemma validate_iff: "mandate_validate from_str m = [] \<longleftrightarrow> mandate_ok from_str m"
proof (cases "money_ok from_str (c_allocated (mb_capital m)) \<and> universe_ok (mb_universe m)")
  case True
  then have a: "snd (money_check from_str ''capital.allocated'' (c_allocated (mb_capital m)))
      = Some (amount_of from_str (c_allocated (mb_capital m)))"
    by (simp add: money_check_clean)
  from True show ?thesis
    unfolding mandate_validate_def mandate_ok_def Let_def case_prod_beta append_is_Nil_conv a
    by (auto simp: check_basis_clean money_check_clean check_reserve_clean check_universe_clean check_caps_clean
        check_notional_clean check_loss_clean check_autonomy_clean multiple_clean exposure_ok_def)
next
  case False
  then show ?thesis
    unfolding mandate_validate_def mandate_ok_def Let_def case_prod_beta append_is_Nil_conv
    by (auto simp: money_check_clean check_universe_clean)
qed

text \<open>
  C17: the validator accepts a mandate exactly when it satisfies the written rules: own capital with
  the required acknowledgements, a usable universe, positive caps ordered position and net below
  gross below leverage, an order cap within the allocation in the same currency, a strictly rising
  ladder that ends in its only halt and never scales back up, a daily limit within the last rung,
  disjoint action lists that keep the four forbidden actions, and a channel for alerts.
\<close>

theorem validate_decides: "mandate_validate from_str m = [] \<longleftrightarrow> mandate_ok from_str m"
  by (rule validate_iff)

section \<open>What the compilers return\<close>

lemma ratio_to_dec_ok [dec_wf]: "ratio_to_dec v rnd = Inr d \<Longrightarrow> dec_ok d"
proof -
  assume "ratio_to_dec v rnd = Inr d"
  then have "(\<exists>t. parse_dec t = Inr d) \<or> (\<exists>t b u. parse_dec t = Inr b \<and> dec_new 1 18 = Inr u \<and> dadd b u = Inr d)"
    by (auto simp: ratio_to_dec_def Let_def res_inv split: if_splits prod.splits option.splits)
  then show ?thesis by (auto dest: parse_dec_ok dadd_ok simp: dec_new_def dec_ok_def MAX_SCALE_def split: if_splits)
qed

lemma convert_classes_ok: "convert_classes cs = Inr m \<Longrightarrow> caps_ok m"
proof -
  let ?f = "\<lambda>m (cls, cap). try_bind (ratio_down cap) (\<lambda>d. Inr (btm_insert (to_lower (trim cls)) d m))"
  have "caps_ok acc \<Longrightarrow> try_fold ?f acc cs = Inr m \<Longrightarrow> caps_ok m" for acc
  proof (induction cs arbitrary: acc)
    case (Cons x cs)
    then obtain d where "ratio_down (snd x) = Inr d" "try_fold ?f (btm_insert (to_lower (trim (fst x))) d acc) cs = Inr m"
      by (cases x) (auto simp: res_inv)
    then show ?case using Cons.IH caps_ok_insert [OF Cons.prems(1)] by (auto simp: ratio_down_def dest: ratio_to_dec_ok)
  qed simp
  from this [of "[]"] show "convert_classes cs = Inr m \<Longrightarrow> caps_ok m"
    by (simp add: convert_classes_def) (simp add: caps_ok_def)
qed

lemma convert_ok:
  assumes "convert c u e = Inr l"
  shows "limits_ok l" and "dval (l_max_gross l) \<le> dval (l_leverage_max_gross l)"
proof -
  have d: "ratio_down v = Inr d \<Longrightarrow> dec_ok d" "money_dec y = Inr d \<Longrightarrow> dec_ok d" for v y d
    by (auto simp: ratio_down_def money_dec_def res_inv dest: ratio_to_dec_ok parse_dec_ok)
  from assms obtain g lev where "ratio_down (e_max_gross e) = Inr g" "ratio_down (u_leverage_max_gross u) = Inr lev"
    and e: "l_max_gross l = dec_min g lev" "l_leverage_max_gross l = lev"
    by (auto simp: convert_def Let_def res_inv)
  then have g: "l_max_gross l = dec_min g lev" "l_leverage_max_gross l = lev" "dec_ok g" "dec_ok lev" by (auto dest: d)
  then show "dval (l_max_gross l) \<le> dval (l_leverage_max_gross l)" by (simp add: dec_min_dval)
  have "caps_ok (l_max_asset_class l)" "dec_ok (l_allocated l)" "dec_ok (l_min_cash_reserve l)" "dec_ok (l_max_position l)"
    "dec_ok (l_max_net l)" "dec_ok (l_max_order_notional l)" "dec_ok (l_max_turnover_per_day l)"
    using assms by (auto simp: convert_def Let_def res_inv dest: d ratio_to_dec_ok convert_classes_ok)
  then show "limits_ok l" using g by (simp add: limits_ok_def dec_ok_min)
qed

lemma compile_policy_limits:
  "policy_limits (compile_policy fs h m) = Some l \<longleftrightarrow>
     mandate_ok fs m \<and> convert (mb_capital m) (mb_universe m) (mb_exposure m) = Inr l"
  by (auto simp: compile_policy_def policy_limits_def validate_iff split: sum.splits)

lemma rung_of_ok: "rung_of r = Inr x \<Longrightarrow> rung_ok x"
  by (cases "lr_action r") (auto simp: rung_of_def rung_ok_def Let_def res_inv dest: ratio_to_dec_ok)

lemma rungs_of_ok:
  "try_fold (\<lambda>rs r. try_bind (rung_of r) (\<lambda>x. Inr (rs @ [x]))) acc ladder = Inr rungs \<Longrightarrow> list_all rung_ok acc
    \<Longrightarrow> list_all rung_ok rungs"
proof -
  assume r: "try_fold (\<lambda>rs r. try_bind (rung_of r) (\<lambda>x. Inr (rs @ [x]))) acc ladder = Inr rungs" and a: "list_all rung_ok acc"
  then obtain zs where zs: "rungs = acc @ zs" "list_all2 (\<lambda>r z. rung_of r = Inr z) ladder zs" by (auto simp: res_inv)
  from zs(2) have "list_all rung_ok zs" by (auto simp: list_all_length list_all2_conv_all_nth dest: rung_of_ok)
  with a zs(1) show ?thesis by simp
qed

lemma risk_policy_new_ok:
  "risk_policy_new d rungs rf = Inr p \<Longrightarrow> dec_ok d \<Longrightarrow> dec_ok rf \<Longrightarrow> list_all rung_ok rungs \<Longrightarrow> risk_policy_ok p"
  by (auto simp: risk_policy_ok_def risk_policy_new_def res_inv split: if_splits)

text \<open>The policy a run works with: compiled, then given its envelope and tightened by a deployment.\<close>

definition run_policy :: "policy \<Rightarrow> int \<Rightarrow> mandate_envelope \<Rightarrow> deployment_limits \<Rightarrow> policy" where
  "run_policy p age env d = with_deployment d (with_envelope env (with_max_price_age_secs age p))"

lemma run_policy_limits:
  "policy_limits (run_policy p age env d) = map_option (deploy_limits d) (policy_limits p)"
  by (cases "p_body p") (simp_all add: run_policy_def with_deployment_def with_envelope_def with_max_price_age_secs_def policy_limits_def)

text \<open>A ladder the risk overlay can work with, over the values of its rungs.\<close>

definition usable_ladder :: "risk_policy \<Rightarrow> bool" where
  "usable_ladder p \<longleftrightarrow>
     0 < dval (rp_daily_loss_limit p) \<and> dval (rp_daily_loss_limit p) \<le> 1 \<and>
     0 < dval (rp_recovery_fraction p) \<and> dval (rp_recovery_fraction p) \<le> 1 \<and> rp_rungs p \<noteq> [] \<and>
     (\<forall>r\<in>set (rp_rungs p). 0 < dval (rung_at r) \<and> dval (rung_at r) \<le> 1) \<and>
     sorted_wrt (\<lambda>a b. dval (rung_at a) < dval (rung_at b)) (rp_rungs p) \<and>
     (\<forall>r\<in>set (butlast (rp_rungs p)). \<exists>sc. rung_action r = RaShrink sc \<and> 0 < dval sc \<and> dval sc < 1) \<and>
     sorted_wrt (\<lambda>a b. rung_scale b \<le> rung_scale a) (rp_rungs p) \<and>
     rung_action (last (rp_rungs p)) = RaHaltFlatten"

lemma risk_policy_usable: "risk_policy_ok p \<Longrightarrow> usable_ladder p"
proof -
  assume "risk_policy_ok p"
  note d = risk_policy_okD [OF this]
  note l = d(1)
  let ?rs = "rp_rungs p"
  have "\<exists>sc. rung_action r = RaShrink sc \<and> 0 < dval sc \<and> dval sc < 1" if r: "r \<in> set (butlast ?rs)" for r
  proof -
    from r obtain i where i: "i < length ?rs - 1" "r = ?rs ! i" by (auto simp: in_set_conv_nth nth_butlast)
    then have "i < length ?rs" "Suc i \<noteq> length ?rs" by linarith+
    then show ?thesis using ladder_ok_action [OF l, of i] i(2) by auto
  qed
  moreover have "rung_action (last ?rs) = RaHaltFlatten"
    using ladder_ok_action [OF l, of "length ?rs - 1"] d(2) by (simp add: last_conv_nth)
  moreover have "\<forall>r\<in>set ?rs. 0 < dval (rung_at r) \<and> dval (rung_at r) \<le> 1"
    using ladder_ok_at [OF l] by (auto simp: in_set_conv_nth)
  moreover have "sorted_wrt (\<lambda>a b. dval (rung_at a) < dval (rung_at b)) ?rs" "sorted_wrt (\<lambda>a b. rung_scale b \<le> rung_scale a) ?rs"
    using ladder_ok_at_mono [OF l] ladder_ok_scale_antimono [OF l] by (simp_all add: sorted_wrt_iff_nth_less)
  ultimately show ?thesis using d unfolding usable_ladder_def by blast
qed

lemma compiled_ladder:
  assumes "from_mandate_with_recovery from_str m recovery = Inr rp" and "dec_ok recovery"
  shows "mandate_ok from_str m \<and> usable_ladder rp \<and>
    list_all2 (\<lambda>r z. rung_action z = RaHaltFlatten \<longleftrightarrow> lr_action r = LaHaltFlatten) (lo_drawdown_ladder (mb_loss m)) (rp_rungs rp)"
proof -
  let ?l = "mb_loss m"
  from assms(1) have v: "mandate_validate from_str m = []" by (auto simp: from_mandate_with_recovery_def Let_def split: if_splits)
  with assms(1) obtain rungs dl where r: "try_fold (\<lambda>rs r. try_bind (rung_of r) (\<lambda>x. Inr (rs @ [x]))) [] (lo_drawdown_ladder ?l) = Inr rungs"
      and dl: "ratio_to_dec (lo_daily_loss_limit ?l) RoundDown = Inr dl" and n: "risk_policy_new dl rungs recovery = Inr rp"
    unfolding from_mandate_with_recovery_def Let_def by (simp del: append.simps add: try_bind_Inr map_err_Inr) blast
  have "risk_policy_ok rp" using risk_policy_new_ok [OF n ratio_to_dec_ok [OF dl] assms(2)] rungs_of_ok [OF r] by simp
  then have "usable_ladder rp" by (rule risk_policy_usable)
  moreover have "list_all2 (\<lambda>r z. rung_of r = Inr z) (lo_drawdown_ladder ?l) rungs" using r by (auto simp: res_inv)
  then have "list_all2 (\<lambda>r z. rung_action z = RaHaltFlatten \<longleftrightarrow> lr_action r = LaHaltFlatten) (lo_drawdown_ladder ?l) rungs"
    by (rule list_all2_mono) (auto simp: rung_of_def Let_def res_inv split: ladder_action.splits)
  moreover have "rp_rungs rp = rungs" using n by (auto simp: risk_policy_new_def res_inv split: if_splits)
  ultimately show ?thesis using v validate_iff by simp
qed

lemma compiled_limits:
  assumes "policy_limits (run_policy (compile_policy from_str hash m) age env d) = Some l" and "deployment_ok d"
  shows "mandate_ok from_str m \<and> limits_ok l \<and> dval (l_max_gross l) \<le> dval (l_leverage_max_gross l) \<and>
    l_max_orders_per_day l \<le> e_max_orders_per_day (mb_exposure m) \<and>
    l_shorting l = u_shorting (mb_universe m) \<and> l_derivatives l = u_derivatives (mb_universe m) \<and>
    set (l_instrument_allow l) = (\<lambda>y. to_upper (trim y)) ` set (u_instrument_allow (mb_universe m))"
proof -
  from assms(1) obtain k where k: "policy_limits (compile_policy from_str hash m) = Some k" "l = deploy_limits d k"
    by (auto simp: run_policy_limits)
  then have c: "convert (mb_capital m) (mb_universe m) (mb_exposure m) = Inr k" and v: "mandate_ok from_str m"
    by (simp_all add: compile_policy_limits)
  have "dval (l_max_gross l) \<le> dval (l_max_gross k)" unfolding k(2) deploy_limits_simps
    using limits_okD [OF convert_ok(1) [OF c]] deployment_okD [OF assms(2)] by (intro tighten_le) auto
  moreover have "l_max_orders_per_day k = e_max_orders_per_day (mb_exposure m)" "l_shorting k = u_shorting (mb_universe m)"
    "l_derivatives k = u_derivatives (mb_universe m)"
    "set (l_instrument_allow k) = (\<lambda>y. to_upper (trim y)) ` set (u_instrument_allow (mb_universe m))"
    using c by (auto simp: convert_def Let_def res_inv normalise_def)
  ultimately show ?thesis using v convert_ok [OF c] deploy_limits_ok [OF convert_ok(1) [OF c] assms(2)]
    by (auto simp: k(2) deploy_limits_def split: option.split)
qed

text \<open>
  C18: each compiler returns something only for a valid mandate, and what it returns is well formed. The
  risk policy has a ladder of rungs strictly rising within (0, 1], the scales falling and within
  (0, 1), with one halt, its last rung, where the mandate's ladder has it; the daily limit and the recovery
  fraction are within (0, 1]. The limits a run works with (compiled, then tightened by the deployment)
  are machine decimals, the gross cap is never above the leverage cap, the order count never above
  the mandate's, and shorting, derivatives and the instruments are those of the mandate.
\<close>

theorem compile_well_formed:
  assumes "dec_ok recovery" and "deployment_ok d"
  shows "(\<forall>rp. from_mandate_with_recovery from_str m recovery = Inr rp \<longrightarrow> mandate_ok from_str m \<and> usable_ladder rp \<and>
      list_all2 (\<lambda>r z. rung_action z = RaHaltFlatten \<longleftrightarrow> lr_action r = LaHaltFlatten) (lo_drawdown_ladder (mb_loss m)) (rp_rungs rp))
    \<and> (\<forall>l. policy_limits (run_policy (compile_policy from_str hash m) age env d) = Some l \<longrightarrow>
      mandate_ok from_str m \<and> limits_ok l \<and> dval (l_max_gross l) \<le> dval (l_leverage_max_gross l) \<and>
      l_max_orders_per_day l \<le> e_max_orders_per_day (mb_exposure m) \<and>
      l_shorting l = u_shorting (mb_universe m) \<and> l_derivatives l = u_derivatives (mb_universe m) \<and>
      set (l_instrument_allow l) = (\<lambda>y. to_upper (trim y)) ` set (u_instrument_allow (mb_universe m)))"
  using compiled_ladder [OF _ assms(1)] compiled_limits [OF _ assms(2)] by blast

section \<open>The baseline mandate\<close>

text \<open>The fixture of the source's tests.\<close>

definition baseline_mandate :: mandate_body where
  "baseline_mandate =
     \<lparr>mb_basis = \<lparr>ba_capital_source = Own, ba_jurisdiction = ''US-GA'',
        ba_acknowledgements = [\<lparr>ak_doc = ''own_capital_attestation'', ak_doc_version = ''2026-10'', ak_at = 0, ak_by = ''user_1''\<rparr>,
          \<lparr>ak_doc = ''risk_disclosure'', ak_doc_version = ''2026-10'', ak_at = 0, ak_by = ''user_1''\<rparr>]\<rparr>,
      mb_capital = \<lparr>c_allocated = \<lparr>m_amount = ''5000.00'', m_ccy = ''USD''\<rparr>, c_min_cash_reserve = plain_f64 (1 / 20) ''0.05''\<rparr>,
      mb_universe = \<lparr>u_venues = [''alpaca'', ''kraken''], u_asset_classes = [''us_etf'', ''crypto_spot''],
        u_instrument_allow = [''SPY'', ''EFA'', ''BTC/USD'', ''ETH/USD''], u_instrument_deny = [],
        u_shorting = False, u_derivatives = False, u_leverage_max_gross = plain_f64 1 ''1''\<rparr>,
      mb_exposure = \<lparr>e_max_position = plain_f64 (1 / 4) ''0.25'', e_max_asset_class = [(''crypto_spot'', plain_f64 (3 / 5) ''0.6'')],
        e_max_gross = plain_f64 1 ''1'', e_max_net = plain_f64 1 ''1'',
        e_max_order_notional = \<lparr>m_amount = ''1500.00'', m_ccy = ''USD''\<rparr>, e_max_orders_per_day = 20,
        e_max_turnover_per_day = plain_f64 (1 / 2) ''0.5''\<rparr>,
      mb_loss = \<lparr>lo_daily_loss_limit = plain_f64 (3 / 100) ''0.03'',
        lo_drawdown_ladder = [\<lparr>lr_at = plain_f64 (1 / 10) ''0.1'', lr_action = LaShrink, lr_scale = Some (plain_f64 (1 / 2) ''0.5'')\<rparr>,
          \<lparr>lr_at = plain_f64 (1 / 5) ''0.2'', lr_action = LaHaltFlatten, lr_scale = None\<rparr>],
        lo_resume_after_halt = HumanOnly\<rparr>,
      mb_autonomy = \<lparr>au_level = L3, au_may = [PlaceOrders, CancelOrders, ResizeWithinLimits, Rebalance, HaltAction, FlattenAction],
        au_needs_confirmation = [AddStrategy, RemoveStrategy, RaiseTargetRisk],
        au_never = [ChangeLimits, ResumeAfterHalt, ChangeCredentials, Withdraw]\<rparr>,
      mb_reporting = \<lparr>re_digest = DigestDaily, re_alert_channels = [''email'']\<rparr>\<rparr>"

definition baseline_from_str :: "string \<Rightarrow> rat option" where
  "baseline_from_str s = (if s = ''5000.00'' then Some 5000 else if s = ''1500.00'' then Some 1500 else None)"

lemma baseline_from_mandate:
  "from_mandate_with_recovery baseline_from_str baseline_mandate (Dec 5 1) =
     Inr \<lparr>rp_daily_loss_limit = Dec 3 2,
          rp_rungs = [\<lparr>rung_at = Dec 1 1, rung_action = RaShrink (Dec 5 1)\<rparr>, \<lparr>rung_at = Dec 2 1, rung_action = RaHaltFlatten\<rparr>],
          rp_recovery_fraction = Dec 5 1\<rparr>"
  by code_simp

theorem compile_well_formed_witness:
  "\<exists>rp l. from_mandate_with_recovery baseline_from_str baseline_mandate (Dec 5 1) = Inr rp \<and>
     policy_limits (run_policy (compile_policy baseline_from_str (\<lambda>_. []) baseline_mandate) 300
       \<lparr>env_version = 1, env_status = MsActive, env_effective_from = 0, env_review_by = 1\<rparr> example_deployment) = Some l \<and>
     usable_ladder rp \<and> length (rp_rungs rp) = 2 \<and> limits_ok l \<and> \<not> l_shorting l"
proof -
  let ?p = "compile_policy baseline_from_str (\<lambda>_. []) baseline_mandate"
    and ?env = "\<lparr>env_version = 1, env_status = MsActive, env_effective_from = 0, env_review_by = 1\<rparr>"
  have r: "dec_ok (Dec 5 1)" by (simp add: dec_ok_small_units)
  note w = compile_well_formed [OF r baseline_ok(3), of baseline_from_str baseline_mandate "\<lambda>_. []" 300 ?env]
  obtain rp where rp: "from_mandate_with_recovery baseline_from_str baseline_mandate (Dec 5 1) = Inr rp" "length (rp_rungs rp) = 2"
    using baseline_from_mandate by (metis length_Cons list.size(3) numeral_2_eq_2 risk_policy.select_convs(2))
  with w have m: "mandate_ok baseline_from_str baseline_mandate" "usable_ladder rp" by blast+
  have "convert (mb_capital baseline_mandate) (mb_universe baseline_mandate) (mb_exposure baseline_mandate) = Inr baseline_limits"
    using convert_baseline by (simp add: baseline_mandate_def)
  with m(1) have l: "policy_limits (run_policy ?p 300 ?env example_deployment) = Some (deploy_limits example_deployment baseline_limits)"
    by (simp add: run_policy_limits compile_policy_limits)
  moreover have "\<not> u_shorting (mb_universe baseline_mandate)" by (simp add: baseline_mandate_def)
  ultimately show ?thesis using w rp m(2) by blast
qed

end
