(* ===== verification/Run_Record.thy ===== *)
theory Run_Record
  imports Flatten Planner Risk_Store Mandate
begin

text \<open>
  \<open>rebalancer-run/src/record.rs\<close> and \<open>data.rs\<close>: the types of a run record and of the data interface.
  A date is its day number and an instant its number of nanoseconds. The prose of notes, alerts and
  outcomes is left out, except the detail of a placed order, which the code searches; an alert keeps
  its run key and not the text of it.
\<close>

section \<open>Sleeves and data\<close>

datatype sleeve_kind = EtfTrend | CryptoTrend | EtfMomentum

datatype cadence = CadDaily | CadOnDecision

definition kind_cadence :: "sleeve_kind \<Rightarrow> cadence" where
  "kind_cadence k = (case k of CryptoTrend \<Rightarrow> CadDaily | _ \<Rightarrow> CadOnDecision)"

definition kind_as_str :: "sleeve_kind \<Rightarrow> string" where
  "kind_as_str k = (case k of EtfTrend \<Rightarrow> ''etf_trend'' | CryptoTrend \<Rightarrow> ''crypto_trend'' | EtfMomentum \<Rightarrow> ''etf_momentum'')"

record sleeve_spec =
  ss_id :: string
  ss_kind :: sleeve_kind
  ss_share :: dec
  ss_venue :: string
  ss_asset_class :: string
  ss_quote :: string
  ss_instruments :: "string list"
  ss_tranche_sessions :: nat
  ss_lookback :: "nat option"

definition is_published_point :: "sleeve_spec \<Rightarrow> bool" where
  "is_published_point s \<longleftrightarrow> ss_instruments s = [] \<and> ss_tranche_sessions s = 0 \<and> ss_lookback s = None"

text \<open>The published constants belong to the crate of the reference rules.\<close>

record published =
  pb_etf_symbols :: "string list"
  pb_crypto_symbols :: "string list"
  pb_etf_lookback :: nat
  pb_crypto_lookback :: nat
  pb_momentum_lookback :: nat

definition first_part :: "string \<Rightarrow> string" where
  "first_part s = (case split_once (CHR ''/'') s of Some (a, _) \<Rightarrow> a | None \<Rightarrow> s)"

definition rule_symbols :: "published \<Rightarrow> sleeve_spec \<Rightarrow> string list" where
  "rule_symbols pb s =
     (if ss_instruments s = []
      then (case ss_kind s of CryptoTrend \<Rightarrow> pb_crypto_symbols pb | _ \<Rightarrow> pb_etf_symbols pb)
      else (case ss_kind s of CryptoTrend \<Rightarrow> map first_part (ss_instruments s) | _ \<Rightarrow> ss_instruments s))"

definition sma_lookback :: "published \<Rightarrow> sleeve_spec \<Rightarrow> nat" where
  "sma_lookback pb s =
     (case ss_lookback s of
        Some n \<Rightarrow> n
      | None \<Rightarrow> (case ss_kind s of EtfTrend \<Rightarrow> pb_etf_lookback pb | CryptoTrend \<Rightarrow> pb_crypto_lookback pb
                  | EtfMomentum \<Rightarrow> pb_momentum_lookback pb))"

definition variant_key :: "sleeve_spec \<Rightarrow> string" where
  "variant_key s =
     (if is_published_point s then []
      else join '','' (ss_instruments s) @ ''|t'' @ show_nat (ss_tranche_sessions s) @ ''|l''
           @ (case ss_lookback s of Some l \<Rightarrow> show_nat l | None \<Rightarrow> []))"

datatype gate_mode = Shadow

datatype gate_verdict = GatePass | GateFlag | GateRefuse

definition gate_verdict_as_str :: "gate_verdict \<Rightarrow> string" where
  "gate_verdict_as_str v = (case v of GatePass \<Rightarrow> ''PASS'' | GateFlag \<Rightarrow> ''FLAG'' | GateRefuse \<Rightarrow> ''REFUSE'')"

datatype bar_position = MonthEnd | DecisionDay | WindowBar | DailyClose

definition bar_position_as_str :: "bar_position \<Rightarrow> string" where
  "bar_position_as_str b =
     (case b of MonthEnd \<Rightarrow> ''month_end'' | DecisionDay \<Rightarrow> ''decision_day'' | WindowBar \<Rightarrow> ''window'' | DailyClose \<Rightarrow> ''daily_close'')"

record gate_reason =
  gr_code :: string
  gr_verdict :: gate_verdict
  gr_symbol :: "string option"
  gr_date :: "int option"
  gr_detail :: string

record gate_comparison =
  gc_symbol :: string
  gc_date :: int
  gc_position :: bar_position
  gc_primary_close :: "f64_obs option"
  gc_secondary_close :: "f64_obs option"
  gc_diff_bps :: "f64_obs option"
  gc_verdict :: gate_verdict

record gate_instrument =
  gi_symbol :: string
  gi_verdict :: gate_verdict
  gi_max_diff_bps :: "f64_obs option"
  gi_comparisons :: "gate_comparison list"

record data_gate_report =
  dg_mode :: gate_mode
  dg_kind :: sleeve_kind
  dg_as_of :: int
  dg_primary_source :: string
  dg_secondary_source :: string
  dg_policy_version :: string
  dg_policy_hash :: string
  dg_primary_fingerprint :: string
  dg_secondary_fingerprint :: "string option"
  dg_primary_decision_date :: "int option"
  dg_secondary_decision_date :: "int option"
  dg_verdict :: gate_verdict
  dg_reasons :: "gate_reason list"
  dg_instruments :: "gate_instrument list"

text \<open>The refusals, the first one of each symbol and date.\<close>

fun refusals_from :: "(string option \<times> int option) set \<Rightarrow> gate_reason list \<Rightarrow> gate_reason list" where
  "refusals_from seen [] = []"
| "refusals_from seen (r # rs) =
     (if gr_verdict r = GateRefuse \<and> (gr_symbol r, gr_date r) \<notin> seen
      then r # refusals_from (insert (gr_symbol r, gr_date r) seen) rs
      else refusals_from seen rs)"

definition refusals :: "data_gate_report \<Rightarrow> gate_reason list" where
  "refusals g = refusals_from {} (dg_reasons g)"

record data_error =
  de_code :: string
  de_message :: string

section \<open>Evaluations\<close>

record instrument_evidence =
  ie_symbol :: string
  ie_close :: f64_obs
  ie_sma :: f64_obs
  ie_margin_bps :: f64_obs
  ie_weight :: f64_obs

section \<open>Runs\<close>

datatype execution_mode = Assisted | Paper | Live

definition mode_as_str :: "execution_mode \<Rightarrow> string" where
  "mode_as_str m = (case m of Assisted \<Rightarrow> ''assisted'' | Paper \<Rightarrow> ''paper'' | Live \<Rightarrow> ''live'')"

record run_key =
  rk_account_id :: string
  rk_scheduled_for :: int
  rk_sleeve_set :: string

definition run_key_new :: "string \<Rightarrow> int \<Rightarrow> string list \<Rightarrow> run_key" where
  "run_key_new account sched ids =
     \<lparr>rk_account_id = account, rk_scheduled_for = sched, rk_sleeve_set = join ''+'' (remdups_adj (sort ids))\<rparr>"

datatype outcome_kind = OkCompleted | OkRefused | OkFailedClosed | OkHalted

definition outcome_kind_as_str :: "outcome_kind \<Rightarrow> string" where
  "outcome_kind_as_str k =
     (case k of OkCompleted \<Rightarrow> ''COMPLETED'' | OkRefused \<Rightarrow> ''REFUSED'' | OkFailedClosed \<Rightarrow> ''FAILED_CLOSED'' | OkHalted \<Rightarrow> ''HALTED'')"

record run_outcome =
  ro_kind :: outcome_kind
  ro_code :: string

datatype alert_severity = AvInfo | AvWarning | AvCritical

datatype alert_code =
    AlHalt | AlFlattenIncomplete | AlRunFailed | AlStillHalted | AlMandateUnusable | AlDecisionNotActed
  | AlLatencyRecorderFailed | AlHeartbeatFailed | AlDataGateShadowRefuse | AlAccountExcludedWithPositions

definition alert_code_as_str :: "alert_code \<Rightarrow> string" where
  "alert_code_as_str c =
     (case c of
        AlHalt \<Rightarrow> ''ALERT_HALT'' | AlFlattenIncomplete \<Rightarrow> ''ALERT_FLATTEN_INCOMPLETE'' | AlRunFailed \<Rightarrow> ''ALERT_RUN_FAILED''
      | AlStillHalted \<Rightarrow> ''ALERT_STILL_HALTED'' | AlMandateUnusable \<Rightarrow> ''ALERT_MANDATE_UNUSABLE''
      | AlDecisionNotActed \<Rightarrow> ''ALERT_DECISION_NOT_ACTED'' | AlLatencyRecorderFailed \<Rightarrow> ''ALERT_LATENCY_RECORDER_FAILED''
      | AlHeartbeatFailed \<Rightarrow> ''ALERT_HEARTBEAT_FAILED'' | AlDataGateShadowRefuse \<Rightarrow> ''ALERT_DATA_GATE_SHADOW_REFUSE''
      | AlAccountExcludedWithPositions \<Rightarrow> ''ACCOUNT_EXCLUDED_WITH_POSITIONS'')"

record alert =
  al_code :: alert_code
  al_severity :: alert_severity
  al_account_id :: string
  al_run_key :: run_key
  al_dedupe_key :: string
  al_at :: int

record snapshot_summary =
  su_taken_at :: int
  su_equity :: dec
  su_cash :: dec
  su_derived_equity :: dec
  su_holdings :: "(string, dec) btree_map"
  su_marks :: "(string, dec) btree_map"
  su_open_order_ids :: "string list"

definition summary_baseline :: "snapshot_summary \<Rightarrow> recon_baseline" where
  "summary_baseline s = \<lparr>rb_cash = su_cash s, rb_holdings = su_holdings s, rb_marks = su_marks s\<rparr>"

record target_summary =
  ts_sleeve :: string
  ts_decision_date :: int
  ts_data_fingerprint :: string
  ts_weights :: "(string \<times> dec) list"

record sleeve_decision =
  sd_sleeve :: string
  sd_kind :: sleeve_kind
  sd_cadence :: cadence
  sd_decision_date :: int
  sd_computable_decision_date :: int
  sd_newest_bar_date :: int
  sd_lag_sessions :: nat
  sd_last_acted_decision :: "int option"
  sd_pending :: bool
  sd_entry :: bool
  sd_planned :: bool
  sd_acted :: bool
  sd_instruments :: "instrument_evidence list"
  sd_data_gate :: "data_gate_report option"

record denied_summary =
  ds_order :: planned_order
  ds_codes :: "denial_code list"

record plan_summary =
  ps_inputs_digest :: string
  ps_equity :: dec
  ps_capital_base :: dec
  ps_risk_scale :: dec
  ps_plan_orders :: "planned_order list"
  ps_plan_denied :: "denied_summary list"
  ps_skipped :: "skipped_trade list"
  ps_lines :: "instrument_line list"

datatype phase = Sells | Buys | Rehearsal

datatype placed_outcome =
    PoFilled | PoPartiallyFilled | PoNothingExecuted | PoValidated | PoRejected | PoNotSent | PoAdoptedExisting
  | PoUnknownNotFound | PoUnsettled

record placed_order =
  pd_phase :: phase
  pd_tag :: string
  pd_symbol :: string
  pd_side :: side
  pd_planned_quantity :: dec
  pd_price :: dec
  pd_outcome :: placed_outcome
  pd_broker_order_id :: "string option"
  pd_status :: "order_status option"
  pd_executed_quantity :: dec
  pd_reports :: "order_report list"
  pd_anomalies :: "string list"
  pd_detail :: string

definition MARKET_CLOSED_MARKER :: string where "MARKET_CLOSED_MARKER = ''MARKET_CLOSED''"

definition carried :: "placed_order \<Rightarrow> bool" where
  "carried p =
     (case pd_outcome p of
        PoFilled \<Rightarrow> True | PoPartiallyFilled \<Rightarrow> True | PoValidated \<Rightarrow> True
      | PoAdoptedExisting \<Rightarrow> is_positive (pd_executed_quantity p)
      | PoUnknownNotFound \<Rightarrow> list_ex (\<lambda>r. is_positive (or_executed_quantity r)) (pd_reports p)
      | _ \<Rightarrow> False)"

fun contains_text :: "string \<Rightarrow> string \<Rightarrow> bool" where
  "contains_text p [] \<longleftrightarrow> p = []"
| "contains_text p (c # s) \<longleftrightarrow> starts_with p (c # s) \<or> contains_text p s"

definition refused_market_closed :: "placed_order \<Rightarrow> bool" where
  "refused_market_closed p \<longleftrightarrow> pd_outcome p = PoNotSent \<and> contains_text MARKET_CLOSED_MARKER (pd_detail p)"

record step_note =
  sn_step :: string
  sn_at :: int

record stage_recon =
  sr_stage :: string
  sr_report :: recon_report

record run_record =
  rr_key :: run_key
  rr_mode :: execution_mode
  rr_attempt :: "32 word"
  rr_trading_day :: int
  rr_scheduled_for :: int
  rr_started_at :: int
  rr_finished_at :: int
  rr_outcome :: run_outcome
  rr_mandate_hash :: string
  rr_mandate_version :: "nat option"
  rr_mandate_standing :: string
  rr_deployment_digest :: "string option"
  rr_data_fingerprints :: "(string \<times> string) list"
  rr_pre_snapshot :: "snapshot_summary option"
  rr_post_snapshot :: "snapshot_summary option"
  rr_recon :: "stage_recon list"
  rr_state_before :: "account_status option"
  rr_state_after :: "account_status option"
  rr_transitions :: "transition list"
  rr_risk :: "risk_decision option"
  rr_decisions :: "sleeve_decision list"
  rr_targets :: "target_summary list"
  rr_plan :: "plan_summary option"
  rr_replan :: "plan_summary option"
  rr_tickets :: "planned_order list"
  rr_placed :: "placed_order list"
  rr_cleanup :: "cancel_record list"
  rr_flatten :: "flatten_report option"
  rr_alerts :: "alert list"
  rr_alert_delivery_failures :: "string list"
  rr_steps :: "step_note list"

definition step_names :: "run_record \<Rightarrow> string list" where
  "step_names r = map sn_step (rr_steps r)"

definition placed_live :: "run_record \<Rightarrow> placed_order list" where
  "placed_live r = filter (\<lambda>p. pd_phase p = Sells \<or> pd_phase p = Buys) (rr_placed r)"

definition denial_codes :: "run_record \<Rightarrow> denial_code list" where
  "denial_codes r = concat (map (\<lambda>p. concat (map ds_codes (ps_plan_denied p)))
     (opt_list (rr_plan r) @ opt_list (rr_replan r)))"

end
