(* ===== verification/Run_Store.thy ===== *)
theory Run_Store
  imports Run_Record
begin

text \<open>
  \<open>rebalancer-run/src/stores.rs\<close>: run records with a unique key, the journal of a running attempt
  and the decisions acted on. A method returns its result and the new store; an error keeps the run
  key and not its text. The locale \<open>run_store\<close> is the contract of the trait \<open>RunStore\<close>, interpreted
  on the in-memory store.
\<close>

section \<open>Data\<close>

datatype run_store_error =
    RsUnavailable
  | RsAlreadyFinished run_key
  | RsNotStarted run_key
  | RsLedgerUnavailable

definition run_store_error_code :: "run_store_error \<Rightarrow> string" where
  "run_store_error_code e =
     (case e of RsUnavailable \<Rightarrow> ''RUNSTORE_UNAVAILABLE'' | RsAlreadyFinished _ \<Rightarrow> ''RUNSTORE_ALREADY_FINISHED''
      | RsNotStarted _ \<Rightarrow> ''RUNSTORE_NOT_STARTED'' | RsLedgerUnavailable \<Rightarrow> ''RUNSTORE_DECISION_LEDGER_UNAVAILABLE'')"

datatype begin_outcome = Started "32 word" | AlreadyDone run_record | Busy int

record journal_entry =
  je_tag :: string
  je_broker_order_id :: "string option"
  je_notional :: dec

record run_summary =
  rs_key :: run_key
  rs_attempt :: "32 word"
  rs_scheduled_for :: int
  rs_started_at :: int
  rs_finished_at :: "int option"
  rs_outcome :: "(outcome_kind \<times> string) option"

text \<open>A duration in nanoseconds, and its whole seconds.\<close>

definition seconds :: "int \<Rightarrow> int" where
  "seconds n = n * 10 ^ 9"

definition num_seconds :: "int \<Rightarrow> int" where
  "num_seconds d = (if d < 0 then - ((- d) div 10 ^ 9) else d div 10 ^ 9)"

definition lateness_secs :: "run_summary \<Rightarrow> int" where
  "lateness_secs s = num_seconds (rs_started_at s - rs_scheduled_for s)"

section \<open>The in-memory store\<close>

record in_progress =
  ip_attempt :: "32 word"
  ip_trading_day :: int
  ip_started_at :: int
  ip_lease_until :: int
  ip_journal :: "journal_entry list"

datatype run_entry = InProgress in_progress | Done run_record

record run_mem =
  rm_entries :: "run_key \<Rightarrow> run_entry option"
  rm_order :: "run_key list"
  rm_fail_next :: nat
  rm_acted :: "(string \<times> string, int) btree_map"

definition run_mem_new :: run_mem where
  "run_mem_new = \<lparr>rm_entries = (\<lambda>_. None), rm_order = [], rm_fail_next = 0, rm_acted = []\<rparr>"

definition rm_fail_next_calls :: "nat \<Rightarrow> run_mem \<Rightarrow> run_mem" where
  "rm_fail_next_calls n st = st\<lparr>rm_fail_next := n\<rparr>"

definition done_of :: "run_entry option \<Rightarrow> run_record option" where
  "done_of e = (case e of Some (Done r) \<Rightarrow> Some r | _ \<Rightarrow> None)"

definition journal_of :: "run_entry option \<Rightarrow> journal_entry list" where
  "journal_of e = (case e of Some (InProgress p) \<Rightarrow> ip_journal p | _ \<Rightarrow> [])"

definition rm_records :: "run_mem \<Rightarrow> run_record list" where
  "rm_records st = List.map_filter (\<lambda>k. done_of (rm_entries st k)) (rm_order st)"

text \<open>Every method first consumes an injected failure.\<close>

definition rm_check :: "(run_mem \<Rightarrow> (run_store_error + 'a) \<times> run_mem) \<Rightarrow> run_mem \<Rightarrow> (run_store_error + 'a) \<times> run_mem" where
  "rm_check f st =
     (if rm_fail_next st > 0 then (Inl RsUnavailable, st\<lparr>rm_fail_next := rm_fail_next st - 1\<rparr>) else f st)"

text \<open>The attempt counter of a resumed run is a \<open>u32\<close>.\<close>

definition rm_begin :: "run_key \<Rightarrow> int \<Rightarrow> int \<Rightarrow> int \<Rightarrow> run_mem \<Rightarrow> (run_store_error + begin_outcome) \<times> run_mem" where
  "rm_begin ky trading_day started_at lease_secs = rm_check (\<lambda>st.
     let lease_until = started_at + seconds lease_secs
     in case rm_entries st ky of
          None \<Rightarrow>
            (Inr (Started 1),
             st\<lparr>rm_entries := (rm_entries st)(ky \<mapsto> InProgress \<lparr>ip_attempt = 1, ip_trading_day = trading_day,
                  ip_started_at = started_at, ip_lease_until = lease_until, ip_journal = []\<rparr>),
                rm_order := rm_order st @ [ky]\<rparr>)
        | Some (Done r) \<Rightarrow> (Inr (AlreadyDone r), st)
        | Some (InProgress p) \<Rightarrow>
            if started_at < ip_lease_until p then (Inr (Busy (ip_started_at p)), st)
            else (Inr (Started (ip_attempt p + 1)),
                  st\<lparr>rm_entries := (rm_entries st)(ky \<mapsto> InProgress (p\<lparr>ip_attempt := ip_attempt p + 1,
                       ip_started_at := started_at, ip_lease_until := lease_until, ip_trading_day := trading_day\<rparr>))\<rparr>))"

fun journal_put :: "journal_entry \<Rightarrow> journal_entry list \<Rightarrow> journal_entry list" where
  "journal_put e [] = [e]"
| "journal_put e (j # js) = (if je_tag j = je_tag e then e # js else j # journal_put e js)"

definition rm_journal_order :: "run_key \<Rightarrow> journal_entry \<Rightarrow> run_mem \<Rightarrow> (run_store_error + unit) \<times> run_mem" where
  "rm_journal_order ky entry = rm_check (\<lambda>st.
     case rm_entries st ky of
       Some (InProgress p) \<Rightarrow>
         (Inr (), st\<lparr>rm_entries := (rm_entries st)(ky \<mapsto> InProgress (p\<lparr>ip_journal := journal_put entry (ip_journal p)\<rparr>))\<rparr>)
     | _ \<Rightarrow> (Inl (RsNotStarted ky), st))"

definition keys_of :: "run_mem \<Rightarrow> string \<Rightarrow> run_key list" where
  "keys_of st account_id = filter (\<lambda>k. rk_account_id k = account_id) (rm_order st)"

definition rm_in_flight :: "string \<Rightarrow> run_mem \<Rightarrow> (run_store_error + journal_entry list) \<times> run_mem" where
  "rm_in_flight account_id = rm_check (\<lambda>st.
     (Inr (concat (map (\<lambda>k. journal_of (rm_entries st k)) (keys_of st account_id))), st))"

text \<open>The acted date of a sleeve never moves backwards.\<close>

definition act_on :: "string \<Rightarrow> (string \<times> string, int) btree_map \<Rightarrow> sleeve_decision \<Rightarrow> (string \<times> string, int) btree_map" where
  "act_on account_id m d =
     (let slot = (account_id, sd_sleeve d)
      in case map_of m slot of
           None \<Rightarrow> btm_insert slot (sd_decision_date d) m
         | Some t \<Rightarrow> if sd_decision_date d > t then btm_insert slot (sd_decision_date d) m else m)"

definition rm_finish :: "run_record \<Rightarrow> run_mem \<Rightarrow> (run_store_error + unit) \<times> run_mem" where
  "rm_finish r = rm_check (\<lambda>st.
     let ky = rr_key r
     in case rm_entries st ky of
          Some (InProgress _) \<Rightarrow>
            (Inr (), st\<lparr>rm_acted := foldl (act_on (rk_account_id ky)) (rm_acted st) (filter sd_acted (rr_decisions r)),
                        rm_entries := (rm_entries st)(ky \<mapsto> Done r)\<rparr>)
        | Some (Done _) \<Rightarrow> (Inl (RsAlreadyFinished ky), st)
        | None \<Rightarrow> (Inl (RsNotStarted ky), st))"

definition last_of :: "run_mem \<Rightarrow> (int \<times> snapshot_summary) option \<Rightarrow> run_key \<Rightarrow> (int \<times> snapshot_summary) option" where
  "last_of st best k =
     (case done_of (rm_entries st k) of
        None \<Rightarrow> best
      | Some r \<Rightarrow>
          (case opt_or (rr_post_snapshot r) (rr_pre_snapshot r) of
             None \<Rightarrow> best
           | Some s \<Rightarrow>
               if (case best of None \<Rightarrow> True | Some (t, _) \<Rightarrow> rr_finished_at r \<ge> t) then Some (rr_finished_at r, s) else best))"

definition rm_last_snapshot :: "string \<Rightarrow> run_mem \<Rightarrow> (run_store_error + snapshot_summary option) \<times> run_mem" where
  "rm_last_snapshot account_id = rm_check (\<lambda>st.
     (Inr (map_option snd (foldl (last_of st) None (keys_of st account_id))), st))"

definition entry_ids :: "run_entry option \<Rightarrow> string list" where
  "entry_ids e =
     (case e of
        Some (Done r) \<Rightarrow> List.map_filter pd_broker_order_id (rr_placed r)
      | Some (InProgress p) \<Rightarrow> List.map_filter je_broker_order_id (ip_journal p)
      | None \<Rightarrow> [])"

definition rm_known_order_ids :: "string \<Rightarrow> run_mem \<Rightarrow> (run_store_error + string btree_set) \<times> run_mem" where
  "rm_known_order_ids account_id = rm_check (\<lambda>st.
     (Inr (foldl (\<lambda>ids k. foldl (\<lambda>m i. bts_insert i m) ids (entry_ids (rm_entries st k))) [] (keys_of st account_id)), st))"

text \<open>The number of orders is a saturating \<open>u32\<close>; a sum that overflows is left as it was.\<close>

definition count_order :: "dec \<Rightarrow> day_counters \<Rightarrow> day_counters" where
  "count_order value c =
     \<lparr>dc_orders_today = min (dc_orders_today c + 1) (2 ^ 32 - 1), dc_turnover_today = add_or_keep (dc_turnover_today c) value\<rparr>"

definition counts_placed :: "placed_order \<Rightarrow> bool" where
  "counts_placed p \<longleftrightarrow> (pd_phase p = Sells \<or> pd_phase p = Buys) \<and> pd_broker_order_id p \<noteq> None \<and> pd_outcome p \<noteq> PoAdoptedExisting"

definition placed_value :: "placed_order \<Rightarrow> dec" where
  "placed_value p = (case dmul (pd_executed_quantity p) (pd_price p) of Inr v \<Rightarrow> v | Inl _ \<Rightarrow> dec_ZERO)"

definition count_entry :: "int \<Rightarrow> day_counters \<Rightarrow> run_entry option \<Rightarrow> day_counters" where
  "count_entry day c e =
     (case e of
        Some (Done r) \<Rightarrow>
          if rr_trading_day r = day \<and> rr_mode r = Live
          then foldl (\<lambda>c p. count_order (placed_value p) c) c (filter counts_placed (rr_placed r)) else c
      | Some (InProgress p) \<Rightarrow>
          if ip_trading_day p = day then foldl (\<lambda>c j. count_order (je_notional j) c) c (ip_journal p) else c
      | None \<Rightarrow> c)"

definition rm_day_counters :: "string \<Rightarrow> int \<Rightarrow> run_mem \<Rightarrow> (run_store_error + day_counters) \<times> run_mem" where
  "rm_day_counters account_id day = rm_check (\<lambda>st.
     (Inr (foldl (count_entry day) day_zero (map (rm_entries st) (keys_of st account_id))), st))"

definition summary_of :: "run_key \<Rightarrow> run_entry \<Rightarrow> run_summary" where
  "summary_of k e =
     (case e of
        Done r \<Rightarrow> \<lparr>rs_key = k, rs_attempt = rr_attempt r, rs_scheduled_for = rr_scheduled_for r, rs_started_at = rr_started_at r,
          rs_finished_at = Some (rr_finished_at r), rs_outcome = Some (ro_kind (rr_outcome r), ro_code (rr_outcome r))\<rparr>
      | InProgress p \<Rightarrow> \<lparr>rs_key = k, rs_attempt = ip_attempt p, rs_scheduled_for = rk_scheduled_for k,
          rs_started_at = ip_started_at p, rs_finished_at = None, rs_outcome = None\<rparr>)"

definition rm_summaries :: "string \<Rightarrow> run_mem \<Rightarrow> (run_store_error + run_summary list) \<times> run_mem" where
  "rm_summaries account_id = rm_check (\<lambda>st.
     (Inr (List.map_filter (\<lambda>k. map_option (summary_of k) (rm_entries st k)) (keys_of st account_id)), st))"

definition rm_get :: "run_key \<Rightarrow> run_mem \<Rightarrow> (run_store_error + run_record option) \<times> run_mem" where
  "rm_get ky = rm_check (\<lambda>st. (Inr (done_of (rm_entries st ky)), st))"

definition rm_last_acted_decision :: "string \<Rightarrow> string \<Rightarrow> run_mem \<Rightarrow> (run_store_error + int option) \<times> run_mem" where
  "rm_last_acted_decision account_id sleeve_id = rm_check (\<lambda>st.
     (Inr (map_of (rm_acted st) (account_id, sleeve_id)), st))"

section \<open>Missed runs\<close>

datatype missed_kind = NeverStarted | StuckInProgress

record missed_run =
  mr_scheduled_for :: int
  mr_kind :: missed_kind
  mr_overdue_secs :: int

definition missed_slot :: "run_summary list \<Rightarrow> int \<Rightarrow> int \<Rightarrow> int \<Rightarrow> int \<Rightarrow> missed_run option" where
  "missed_slot summaries now grace_secs lease_secs slot =
     (let due = slot + seconds grace_secs; overdue = num_seconds (now - due);
          mine = filter (\<lambda>s. rs_scheduled_for s = slot) summaries
      in if now < due then None
         else if mine = [] then Some \<lparr>mr_scheduled_for = slot, mr_kind = NeverStarted, mr_overdue_secs = overdue\<rparr>
         else if list_all (\<lambda>s. rs_finished_at s = None \<and> now \<ge> rs_started_at s + seconds lease_secs) mine
         then Some \<lparr>mr_scheduled_for = slot, mr_kind = StuckInProgress, mr_overdue_secs = overdue\<rparr>
         else None)"

definition find_missed :: "int list \<Rightarrow> run_summary list \<Rightarrow> int \<Rightarrow> int \<Rightarrow> int \<Rightarrow> missed_run list" where
  "find_missed expected summaries now grace_secs lease_secs =
     List.map_filter (missed_slot summaries now grace_secs lease_secs) expected"

section \<open>The equity log\<close>

definition MONITOR_SNAPSHOT_SOURCE :: string where "MONITOR_SNAPSHOT_SOURCE = ''monitor''"

record equity_reading =
  er_account_id :: string
  er_taken_at :: int
  er_equity :: dec
  er_cash :: dec
  er_derived_equity :: dec
  er_source :: string

record equity_log =
  el_readings :: "equity_reading list"
  el_fail :: bool

definition equity_log_new :: equity_log where "equity_log_new = \<lparr>el_readings = [], el_fail = False\<rparr>"

definition set_failing :: "bool \<Rightarrow> equity_log \<Rightarrow> equity_log" where
  "set_failing f l = l\<lparr>el_fail := f\<rparr>"

definition log_append :: "equity_reading \<Rightarrow> equity_log \<Rightarrow> (string + unit) \<times> equity_log" where
  "log_append r l =
     (if el_fail l then (Inl ''EQUITY_LOG_UNAVAILABLE: injected failure'', l)
      else (Inr (), l\<lparr>el_readings := el_readings l @ [r]\<rparr>))"


section \<open>Calls\<close>

text \<open>The methods of the trait as data: any process may make any call, and the store serialises them.\<close>

datatype run_call =
    BeginCall run_key int int int
  | JournalCall run_key journal_entry
  | InFlightCall string
  | FinishCall run_record
  | LastSnapshotCall string
  | KnownIdsCall string
  | DayCountersCall string int
  | SummariesCall string
  | GetCall run_key
  | LastActedCall string string

datatype run_reply =
    RFail run_store_error
  | RBegin begin_outcome
  | RUnit
  | RJournal "journal_entry list"
  | RSnapshot "snapshot_summary option"
  | RIds "string btree_set"
  | RCounters day_counters
  | RSummaries "run_summary list"
  | RRecord "run_record option"
  | RDate "int option"

definition reply :: "('a \<Rightarrow> run_reply) \<Rightarrow> (run_store_error + 'a) \<times> 'st \<Rightarrow> run_reply \<times> 'st" where
  "reply f = (\<lambda>(r, st). (case r of Inl e \<Rightarrow> RFail e | Inr x \<Rightarrow> f x, st))"

fun rm_call :: "run_call \<Rightarrow> run_mem \<Rightarrow> run_reply \<times> run_mem" where
  "rm_call (BeginCall k d t l) st = reply RBegin (rm_begin k d t l st)"
| "rm_call (JournalCall k e) st = reply (\<lambda>_. RUnit) (rm_journal_order k e st)"
| "rm_call (InFlightCall a) st = reply RJournal (rm_in_flight a st)"
| "rm_call (FinishCall r) st = reply (\<lambda>_. RUnit) (rm_finish r st)"
| "rm_call (LastSnapshotCall a) st = reply RSnapshot (rm_last_snapshot a st)"
| "rm_call (KnownIdsCall a) st = reply RIds (rm_known_order_ids a st)"
| "rm_call (DayCountersCall a d) st = reply RCounters (rm_day_counters a d st)"
| "rm_call (SummariesCall a) st = reply RSummaries (rm_summaries a st)"
| "rm_call (GetCall k) st = reply RRecord (rm_get k st)"
| "rm_call (LastActedCall a s) st = reply RDate (rm_last_acted_decision a s st)"

fun run_store_calls :: "(run_call \<Rightarrow> 'st \<Rightarrow> run_reply \<times> 'st) \<Rightarrow> run_call list \<Rightarrow> 'st \<Rightarrow> 'st" where
  "run_store_calls call [] st = st"
| "run_store_calls call (c # cs) st = run_store_calls call cs (snd (call c st))"

definition is_read :: "run_call \<Rightarrow> bool" where
  "is_read c = (case c of BeginCall _ _ _ _ \<Rightarrow> False | JournalCall _ _ \<Rightarrow> False | FinishCall _ \<Rightarrow> False | _ \<Rightarrow> True)"

text \<open>The newest of a date and the dates of a record's acted decisions for a sleeve.\<close>

definition acted_dates :: "string \<Rightarrow> run_record \<Rightarrow> int list" where
  "acted_dates sleeve r = map sd_decision_date (filter (\<lambda>d. sd_acted d \<and> sd_sleeve d = sleeve) (rr_decisions r))"

definition newest :: "int option \<Rightarrow> int list \<Rightarrow> int option" where
  "newest b ds = foldl (\<lambda>b d. case b of None \<Rightarrow> Some d | Some t \<Rightarrow> Some (max t d)) b ds"

lemma newest_Cons: "newest b (d # ds) = newest (case b of None \<Rightarrow> Some d | Some t \<Rightarrow> Some (max t d)) ds"
  by (simp add: newest_def)

lemma newest_Nil [simp]: "newest b [] = b"
  by (simp add: newest_def)

lemma newest_set:
  "newest b ds = (if set_option b \<union> set ds = {} then None else Some (Max (set_option b \<union> set ds)))"
proof (induction ds arbitrary: b)
  case (Cons d ds)
  then show ?case
    by (cases b; cases "set ds = {}") (simp_all add: newest_Cons max.assoc max.commute max.left_commute)
next
  case Nil
  show ?case by (cases b) simp_all
qed

lemma newest_Some: "newest (Some d) ds = Some (Max (insert d (set ds)))"
  by (simp add: newest_set)

text \<open>The entry of a key keeps every attempt out that starts before \<open>u\<close>.\<close>

definition leased :: "run_key \<Rightarrow> int \<Rightarrow> (run_key \<Rightarrow> run_entry option) \<Rightarrow> bool" where
  "leased k u m \<longleftrightarrow> (\<exists>r. m k = Some (Done r)) \<or> (\<exists>p. m k = Some (InProgress p) \<and> u \<le> ip_lease_until p)"

lemma journal_put_in: "e \<in> set (journal_put e js)"
  by (induction js) auto

lemma journal_put_other: "e \<in> set js \<Longrightarrow> je_tag e' \<noteq> je_tag e \<Longrightarrow> e \<in> set (journal_put e' js)"
  by (induction js) auto

text \<open>The decision dates the finished records of an account mark as acted, and the ledger that agrees with them.\<close>

definition done_dates :: "(run_key \<Rightarrow> run_entry option) \<Rightarrow> string \<Rightarrow> string \<Rightarrow> int set" where
  "done_dates m a s = {d. \<exists>k r. m k = Some (Done r) \<and> rk_account_id k = a \<and> d \<in> set (acted_dates s r)}"

definition is_newest :: "int option \<Rightarrow> int set \<Rightarrow> bool" where
  "is_newest b ds \<longleftrightarrow> (case b of None \<Rightarrow> ds = {} | Some d \<Rightarrow> d \<in> ds \<and> (\<forall>d' \<in> ds. d' \<le> d))"

definition ledger_ok :: "(run_key \<Rightarrow> run_entry option) \<Rightarrow> (string \<times> string \<Rightarrow> int option) \<Rightarrow> bool" where
  "ledger_ok m act \<longleftrightarrow> (\<forall>a s. is_newest (act (a, s)) (done_dates m a s))"

lemma is_newest_newest:
  assumes "is_newest b ds"
  shows "is_newest (newest b ns) (ds \<union> set ns)"
proof (cases b)
  case None
  with assms show ?thesis by (auto simp: is_newest_def newest_set)
next
  case (Some d)
  have "Max (insert d (set ns)) \<in> insert d (set ns)" by (rule Max_in) auto
  with assms Some show ?thesis by (auto simp: is_newest_def newest_Some intro: order_trans Max_ge)
qed

lemma ledger_cong:
  assumes "ledger_ok m act" "\<And>k. done_of (m' k) = done_of (m k)"
  shows "ledger_ok m' act"
proof -
  have "m' k = Some (Done r) \<longleftrightarrow> m k = Some (Done r)" for k r
    using assms(2) [of k] by (auto simp: done_of_def split: option.splits run_entry.splits)
  with assms show ?thesis by (simp add: ledger_ok_def done_dates_def)
qed

lemma ledger_finish:
  assumes "ledger_ok m act" and "m (rr_key r) = Some (InProgress p)"
    and "\<forall>a s. act' (a, s) = (if a = rk_account_id (rr_key r) then newest (act (a, s)) (acted_dates s r) else act (a, s))"
  shows "ledger_ok (m(rr_key r \<mapsto> Done r)) act'"
proof -
  have "(m(rr_key r \<mapsto> Done r)) k = Some (Done x) \<longleftrightarrow> m k = Some (Done x) \<or> k = rr_key r \<and> x = r" for k x
    using assms(2) by auto
  then have "done_dates (m(rr_key r \<mapsto> Done r)) a s =
      done_dates m a s \<union> (if a = rk_account_id (rr_key r) then set (acted_dates s r) else {})" for a s
    unfolding done_dates_def by (simp del: fun_upd_apply) blast
  with assms show ?thesis by (auto simp: ledger_ok_def is_newest_newest)
qed

section \<open>The contract\<close>

locale run_store =
  fixes view :: "'st \<Rightarrow> run_key \<Rightarrow> run_entry option"
    and acted :: "'st \<Rightarrow> string \<times> string \<Rightarrow> int option"
    and call :: "run_call \<Rightarrow> 'st \<Rightarrow> run_reply \<times> 'st"
  assumes reads: "is_read c \<Longrightarrow> view (snd (call c st)) = view st \<and> acted (snd (call c st)) = acted st"
    and fails: "call c st = (RFail err, st') \<Longrightarrow> view st' = view st \<and> acted st' = acted st"
    and begin_started: "call (BeginCall k d t l) st = (RBegin (Started n), st') \<Longrightarrow>
      (\<forall>r. view st k \<noteq> Some (Done r)) \<and> (\<forall>p. view st k = Some (InProgress p) \<longrightarrow> ip_lease_until p \<le> t) \<and>
      view st' = (view st)(k \<mapsto> InProgress \<lparr>ip_attempt = n, ip_trading_day = d, ip_started_at = t,
        ip_lease_until = t + seconds l, ip_journal = journal_of (view st k)\<rparr>) \<and> acted st' = acted st"
    and begin_done: "call (BeginCall k d t l) st = (RBegin (AlreadyDone r), st') \<Longrightarrow>
      view st k = Some (Done r) \<and> view st' = view st \<and> acted st' = acted st"
    and begin_busy: "call (BeginCall k d t l) st = (RBegin (Busy s), st') \<Longrightarrow> view st' = view st \<and> acted st' = acted st"
    and begin_reply: "\<exists>st'. (\<exists>e. call (BeginCall k d t l) st = (RFail e, st')) \<or> (\<exists>b. call (BeginCall k d t l) st = (RBegin b, st'))"
    and journals: "call (JournalCall k e) st = (RUnit, st') \<Longrightarrow>
      \<exists>p. view st k = Some (InProgress p) \<and>
        view st' = (view st)(k \<mapsto> InProgress (p\<lparr>ip_journal := journal_put e (ip_journal p)\<rparr>)) \<and> acted st' = acted st"
    and journal_reply: "\<exists>st'. (\<exists>x. call (JournalCall k e) st = (RFail x, st')) \<or> call (JournalCall k e) st = (RUnit, st')"
    and finishes: "call (FinishCall r) st = (RUnit, st') \<Longrightarrow>
      (\<exists>p. view st (rr_key r) = Some (InProgress p)) \<and> view st' = (view st)(rr_key r \<mapsto> Done r) \<and>
      (\<forall>a s. acted st' (a, s) = (if a = rk_account_id (rr_key r) then newest (acted st (a, s)) (acted_dates s r) else acted st (a, s)))"
    and finish_reply: "\<exists>st'. (\<exists>x. call (FinishCall r) st = (RFail x, st')) \<or> call (FinishCall r) st = (RUnit, st')"
begin

text \<open>What one call can do to the entries and the acted dates.\<close>

lemma call_cases:
  obtains (same) "view (snd (call c st)) = view st" "acted (snd (call c st)) = acted st"
  | (started) k d t l n where "c = BeginCall k d t l" "call c st = (RBegin (Started n), snd (call c st))"
  | (journal) k e where "c = JournalCall k e" "call c st = (RUnit, snd (call c st))"
  | (finish) r where "c = FinishCall r" "call c st = (RUnit, snd (call c st))"
proof (cases "is_read c")
  case True
  then show ?thesis using reads same by blast
next
  case False
  then consider k d t l where "c = BeginCall k d t l" | k e where "c = JournalCall k e" | r where "c = FinishCall r"
    by (cases c) (auto simp: is_read_def)
  then show ?thesis
  proof cases
    case (1 k d t l)
    with begin_reply [of k d t l st] consider e st' where "call c st = (RFail e, st')" | b st' where "call c st = (RBegin b, st')" by blast
    then show ?thesis
    proof cases
      case (2 b st')
      with 1 show ?thesis using started begin_done begin_busy same
        by (cases b) (metis snd_conv)+
    qed (use fails same in \<open>metis snd_conv\<close>)
  next
    case (2 k e)
    with journal_reply [of k e st] fails same journal show ?thesis by (metis snd_conv)
  next
    case (3 r)
    with finish_reply [of r st] fails same finish show ?thesis by (metis snd_conv)
  qed
qed

lemma done_kept:
  assumes "view st k = Some (Done r)"
  shows "view (snd (call c st)) k = Some (Done r)"
proof (cases rule: call_cases [of c st])
  case (started k' d t l n)
  with assms begin_started [of k' d t l st n "snd (call c st)"] show ?thesis by auto
next
  case (journal k' e)
  with assms journals [of k' e st "snd (call c st)"] show ?thesis by auto
next
  case (finish r')
  with assms finishes [of r' st "snd (call c st)"] show ?thesis by auto
qed (use assms in simp)

lemma done_stays: "view st k = Some (Done r) \<Longrightarrow> view (run_store_calls call cs st) k = Some (Done r)"
  by (induction cs arbitrary: st) (auto intro: done_kept)

lemma acted_step:
  assumes "acted st x = Some d"
  shows "\<exists>d' \<ge> d. acted (snd (call c st)) x = Some d'"
proof (cases rule: call_cases [of c st])
  case (started k' d' t l n)
  with assms begin_started [of k' d' t l st n "snd (call c st)"] show ?thesis by auto
next
  case (journal k' e)
  with assms journals [of k' e st "snd (call c st)"] show ?thesis by auto
next
  case (finish r')
  with assms finishes [of r' st "snd (call c st)"] show ?thesis
    by (cases x) (auto simp: newest_Some)
qed (use assms in auto)

lemma acted_monotone: "acted st x = Some d \<Longrightarrow> \<exists>d' \<ge> d. acted (run_store_calls call cs st) x = Some d'"
proof (induction cs arbitrary: st d)
  case (Cons c cs)
  from acted_step [OF Cons.prems, of c] Cons.IH show ?case by (metis order_trans run_store_calls.simps(2))
qed auto

lemma leased_begin: "leased k u (view st) \<Longrightarrow> t < u \<Longrightarrow> call (BeginCall k d t l) st \<noteq> (RBegin (Started n), st')"
  using begin_started [of k d t l st n st'] by (fastforce simp: leased_def)

lemma leased_step:
  assumes "leased k u (view st)" and "\<And>d t l. c = BeginCall k d t l \<Longrightarrow> t < u"
  shows "leased k u (view (snd (call c st)))"
proof (cases rule: call_cases [of c st])
  case (started k' d t l n)
  with assms leased_begin have "k' \<noteq> k" by metis
  with started assms(1) begin_started [of k' d t l st n "snd (call c st)"] show ?thesis by (auto simp: leased_def)
next
  case (journal k' e)
  with assms(1) journals [of k' e st "snd (call c st)"] show ?thesis by (cases "k = k'") (auto simp: leased_def)
next
  case (finish r')
  with assms(1) finishes [of r' st "snd (call c st)"] show ?thesis by (auto simp: leased_def)
qed (use assms in simp)

lemma leased_calls:
  "leased k u (view st) \<Longrightarrow> \<forall>d t l. BeginCall k d t l \<in> set cs \<longrightarrow> t < u \<Longrightarrow> leased k u (view (run_store_calls call cs st))"
proof (induction cs arbitrary: st)
  case (Cons c cs)
  then have "leased k u (view (snd (call c st)))" by (auto intro!: leased_step)
  then have "leased k u (view (run_store_calls call cs (snd (call c st))))"
    by (rule Cons.IH) (use Cons.prems(2) in \<open>meson list.set_intros(2)\<close>)
  then show ?case by simp
qed simp

text \<open>
  Within its lease an attempt is alone: as long as every later attempt for the key starts before
  the lease ends, none of them is let in.
\<close>

lemma lease_excludes:
  assumes "call (BeginCall k d t l) st = (RBegin (Started n), st')"
    and "\<forall>d' t' l'. BeginCall k d' t' l' \<in> set cs \<longrightarrow> t' < t + seconds l" and "t1 < t + seconds l"
  shows "call (BeginCall k d1 t1 l1) (run_store_calls call cs st') \<noteq> (RBegin (Started n1), st1)"
proof -
  from begin_started [OF assms(1)] have "leased k (t + seconds l) (view st')" by (simp add: leased_def)
  from leased_begin [OF leased_calls [OF this assms(2)] assms(3)] show ?thesis .
qed

text \<open>A journaled intent stays in the journal of its run until the run finishes or the tag is journaled again.\<close>

lemma journaled_step:
  assumes "e \<in> set (journal_of (view st k))" and "\<forall>r. c = FinishCall r \<longrightarrow> rr_key r \<noteq> k"
    and "\<forall>e'. c = JournalCall k e' \<longrightarrow> je_tag e' \<noteq> je_tag e"
  shows "e \<in> set (journal_of (view (snd (call c st)) k))"
proof (cases rule: call_cases [of c st])
  case (started k' d t l n)
  with assms(1) begin_started [of k' d t l st n "snd (call c st)"] show ?thesis
    by (auto simp: journal_of_def)
next
  case (journal k' e')
  with assms journals [of k' e' st "snd (call c st)"] show ?thesis
    by (auto simp: journal_of_def journal_put_other)
next
  case (finish r')
  with assms finishes [of r' st "snd (call c st)"] show ?thesis by auto
qed (use assms in simp)

lemma journaled_calls:
  "e \<in> set (journal_of (view st k)) \<Longrightarrow> \<forall>r. FinishCall r \<in> set cs \<longrightarrow> rr_key r \<noteq> k \<Longrightarrow>
   \<forall>e'. JournalCall k e' \<in> set cs \<longrightarrow> je_tag e' \<noteq> je_tag e \<Longrightarrow>
   e \<in> set (journal_of (view (run_store_calls call cs st) k))"
proof (induction cs arbitrary: st)
  case (Cons c cs)
  then have "e \<in> set (journal_of (view (snd (call c st)) k))" by (auto intro!: journaled_step)
  with Cons.IH Cons.prems(2,3) show ?case by simp
qed simp

lemma journal_kept:
  assumes "call (JournalCall k e) st = (RUnit, st')"
    and "\<forall>r. FinishCall r \<in> set cs \<longrightarrow> rr_key r \<noteq> k"
    and "\<forall>e'. JournalCall k e' \<in> set cs \<longrightarrow> je_tag e' \<noteq> je_tag e"
  shows "e \<in> set (journal_of (view (run_store_calls call cs st') k))"
proof -
  have "e \<in> set (journal_of (view st' k))"
    using journals [OF assms(1)] by (auto simp: journal_of_def journal_put_in)
  then show ?thesis using assms(2,3) by (rule journaled_calls)
qed

text \<open>The acted date of a sleeve is the newest one its account's finished records carry.\<close>

lemma ledger_step:
  assumes "ledger_ok (view st) (acted st)"
  shows "ledger_ok (view (snd (call c st))) (acted (snd (call c st)))"
proof (cases rule: call_cases [of c st])
  case same
  with assms show ?thesis by simp
next
  case (started k' d t l n)
  with assms begin_started [of k' d t l st n "snd (call c st)"] show ?thesis
    by (auto intro!: ledger_cong [OF assms] simp: done_of_def split: option.splits run_entry.splits)
next
  case (journal k' e')
  with assms journals [of k' e' st "snd (call c st)"] show ?thesis
    by (auto intro!: ledger_cong [OF assms] simp: done_of_def split: option.splits run_entry.splits)
next
  case (finish r)
  with assms finishes [of r st "snd (call c st)"] show ?thesis by (auto intro: ledger_finish)
qed

lemma ledger_calls:
  "ledger_ok (view st) (acted st) \<Longrightarrow> ledger_ok (view (run_store_calls call cs st)) (acted (run_store_calls call cs st))"
  by (induction cs arbitrary: st) (auto intro: ledger_step)

end

section \<open>The in-memory store keeps the contract\<close>

lemmas rm_defs = rm_begin_def rm_journal_order_def rm_in_flight_def rm_finish_def rm_last_snapshot_def
  rm_known_order_ids_def rm_day_counters_def rm_summaries_def rm_get_def rm_last_acted_decision_def

lemma act_on_lookup:
  "map_of (act_on a m d) (a', s) =
     (if a' = a \<and> sd_sleeve d = s then newest (map_of m (a', s)) [sd_decision_date d] else map_of m (a', s))"
  by (auto simp: act_on_def Let_def map_of_btm_insert newest_def split: option.splits)

lemma act_on_fold:
  "map_of (foldl (act_on a) m (filter sd_acted ds)) (a', s) =
     (if a' = a then newest (map_of m (a', s)) (map sd_decision_date (filter (\<lambda>d. sd_acted d \<and> sd_sleeve d = s) ds))
      else map_of m (a', s))"
proof (induction ds arbitrary: m)
  case (Cons d ds)
  have "newest (newest b [x]) xs = newest b (x # xs)" for b x xs by (simp add: newest_def)
  with Cons show ?case by (auto simp: act_on_lookup)
qed simp

lemmas mem_split = option.splits run_entry.splits sum.splits if_splits prod.splits

lemma rm_reads:
  "is_read c \<Longrightarrow> rm_entries (snd (rm_call c st)) = rm_entries st \<and> map_of (rm_acted (snd (rm_call c st))) = map_of (rm_acted st)"
  by (cases c; cases "rm_fail_next st = 0") (simp_all add: is_read_def rm_defs rm_check_def reply_def)

lemma rm_write_fails:
  assumes "\<not> is_read c" and "rm_call c st = (RFail err, st')"
  shows "rm_entries st' = rm_entries st \<and> map_of (rm_acted st') = map_of (rm_acted st)"
proof (cases c)
  case (BeginCall k d t l)
  with assms(2) show ?thesis by (auto simp: rm_begin_def rm_check_def reply_def Let_def split: mem_split)
next
  case (JournalCall k e)
  with assms(2) show ?thesis by (auto simp: rm_journal_order_def rm_check_def reply_def split: mem_split)
next
  case (FinishCall r)
  with assms(2) show ?thesis by (auto simp: rm_finish_def rm_check_def reply_def Let_def split: mem_split)
qed (use assms(1) in \<open>simp_all add: is_read_def\<close>)

interpretation rms: run_store rm_entries "\<lambda>st. map_of (rm_acted st)" rm_call
proof unfold_locales
  fix c and st st' :: run_mem and err
  show "is_read c \<Longrightarrow> rm_entries (snd (rm_call c st)) = rm_entries st \<and> map_of (rm_acted (snd (rm_call c st))) = map_of (rm_acted st)"
    by (rule rm_reads)
  show "rm_call c st = (RFail err, st') \<Longrightarrow> rm_entries st' = rm_entries st \<and> map_of (rm_acted st') = map_of (rm_acted st)"
    using rm_reads [of c st] rm_write_fails [of c st err st'] by (cases "is_read c") simp_all
next
  fix k d t l n b and st st' :: run_mem and r :: run_record
  show "rm_call (BeginCall k d t l) st = (RBegin (Started n), st') \<Longrightarrow>
      (\<forall>r. rm_entries st k \<noteq> Some (Done r)) \<and> (\<forall>p. rm_entries st k = Some (InProgress p) \<longrightarrow> ip_lease_until p \<le> t) \<and>
      rm_entries st' = (rm_entries st)(k \<mapsto> InProgress \<lparr>ip_attempt = n, ip_trading_day = d, ip_started_at = t,
        ip_lease_until = t + seconds l, ip_journal = journal_of (rm_entries st k)\<rparr>) \<and> map_of (rm_acted st') = map_of (rm_acted st)"
    by (auto simp: rm_begin_def rm_check_def reply_def Let_def journal_of_def split: mem_split)
  show "rm_call (BeginCall k d t l) st = (RBegin (AlreadyDone r), st') \<Longrightarrow>
      rm_entries st k = Some (Done r) \<and> rm_entries st' = rm_entries st \<and> map_of (rm_acted st') = map_of (rm_acted st)"
    by (auto simp: rm_begin_def rm_check_def reply_def Let_def split: mem_split)
  show "rm_call (BeginCall k d t l) st = (RBegin (Busy b), st') \<Longrightarrow>
      rm_entries st' = rm_entries st \<and> map_of (rm_acted st') = map_of (rm_acted st)"
    by (auto simp: rm_begin_def rm_check_def reply_def Let_def split: mem_split)
  show "\<exists>st'. (\<exists>e. rm_call (BeginCall k d t l) st = (RFail e, st')) \<or> (\<exists>b. rm_call (BeginCall k d t l) st = (RBegin b, st'))"
    by (cases "rm_begin k d t l st") (auto simp: reply_def split: sum.splits)
next
  fix k e and st st' :: run_mem
  show "rm_call (JournalCall k e) st = (RUnit, st') \<Longrightarrow>
      \<exists>p. rm_entries st k = Some (InProgress p) \<and>
        rm_entries st' = (rm_entries st)(k \<mapsto> InProgress (p\<lparr>ip_journal := journal_put e (ip_journal p)\<rparr>)) \<and>
        map_of (rm_acted st') = map_of (rm_acted st)"
    by (auto simp: rm_journal_order_def rm_check_def reply_def split: mem_split)
  show "\<exists>st'. (\<exists>x. rm_call (JournalCall k e) st = (RFail x, st')) \<or> rm_call (JournalCall k e) st = (RUnit, st')"
    by (cases "rm_journal_order k e st") (auto simp: reply_def split: sum.splits)
next
  fix r and st st' :: run_mem
  show "rm_call (FinishCall r) st = (RUnit, st') \<Longrightarrow>
      (\<exists>p. rm_entries st (rr_key r) = Some (InProgress p)) \<and> rm_entries st' = (rm_entries st)(rr_key r \<mapsto> Done r) \<and>
      (\<forall>a s. map_of (rm_acted st') (a, s) = (if a = rk_account_id (rr_key r) then newest (map_of (rm_acted st) (a, s)) (acted_dates s r)
         else map_of (rm_acted st) (a, s)))"
    by (auto simp: rm_finish_def rm_check_def reply_def Let_def act_on_fold acted_dates_def split: mem_split)
  show "\<exists>st'. (\<exists>x. rm_call (FinishCall r) st = (RFail x, st')) \<or> rm_call (FinishCall r) st = (RUnit, st')"
    by (cases "rm_finish r st") (auto simp: reply_def split: sum.splits)
qed

text \<open>No call injects a failure, and every entry is in the order list.\<close>

definition rm_ok :: "run_mem \<Rightarrow> bool" where
  "rm_ok st \<longleftrightarrow> rm_fail_next st = 0 \<and> dom (rm_entries st) \<subseteq> set (rm_order st)"

lemma rm_ok_new [simp]: "rm_ok run_mem_new"
  by (simp add: rm_ok_def run_mem_new_def)

lemma rm_ok_call: "rm_ok st \<Longrightarrow> rm_ok (snd (rm_call c st))"
  by (cases c) (simp add: rm_ok_def rm_defs rm_check_def reply_def Let_def split: option.split run_entry.split; blast)+

lemma rm_ok_calls: "rm_ok st \<Longrightarrow> rm_ok (run_store_calls rm_call cs st)"
  by (induction cs arbitrary: st) (simp_all add: rm_ok_call)

section \<open>Properties\<close>

text \<open>
  C12: A finished record is immutable: whatever calls follow, reading its key gives that record, a run
  that begins on the key is handed it instead of being started, and finishing the key again is refused.
\<close>

theorem run_records_immutable:
  assumes "rm_finish r st = (Inr (), st1)" and "st2 = run_store_calls rm_call cs st1" and "rm_fail_next st2 = 0"
    and "rr_key r' = rr_key r"
  shows "fst (rm_get (rr_key r) st2) = Inr (Some r) \<and>
    rm_begin (rr_key r) d t l st2 = (Inr (AlreadyDone r), st2) \<and>
    rm_finish r' st2 = (Inl (RsAlreadyFinished (rr_key r)), st2)"
proof -
  from assms(1) have "rm_call (FinishCall r) st = (RUnit, st1)" by (simp add: reply_def)
  from rms.finishes [OF this] have "rm_entries st1 (rr_key r) = Some (Done r)" by simp
  then have "rm_entries st2 (rr_key r) = Some (Done r)" using assms(2) by (simp add: rms.done_stays)
  then show ?thesis using assms(3,4) by (simp add: rm_get_def rm_begin_def rm_finish_def rm_check_def done_of_def)
qed

text \<open>
  C15: The decision ledger refines the records: after any calls on a new store, the last acted
  decision of a sleeve is the newest decision date that a finished record of the account marks as
  acted for it, and absent exactly when no record does.
\<close>

theorem acted_is_newest:
  "\<exists>b. fst (rm_last_acted_decision a s (run_store_calls rm_call cs run_mem_new)) = Inr b \<and>
     is_newest b (done_dates (rm_entries (run_store_calls rm_call cs run_mem_new)) a s)"
proof -
  let ?st = "run_store_calls rm_call cs run_mem_new"
  have "ledger_ok (rm_entries run_mem_new) (map_of (rm_acted run_mem_new))"
    by (simp add: run_mem_new_def ledger_ok_def done_dates_def is_newest_def)
  from rms.ledger_calls [OF this] have "is_newest (map_of (rm_acted ?st) (a, s)) (done_dates (rm_entries ?st) a s)"
    by (simp add: ledger_ok_def)
  moreover have "rm_fail_next ?st = 0" using rm_ok_calls [OF rm_ok_new] by (simp add: rm_ok_def)
  ultimately show ?thesis by (simp add: rm_last_acted_decision_def rm_check_def)
qed

text \<open>
  C13: Within its lease an attempt is alone: once a run has been started, and as long as every other
  attempt on the key starts before the lease ends, no attempt is started, whatever calls are in between.
\<close>

theorem lease_is_exclusive:
  assumes "rm_begin k d t l st = (Inr (Started n), st1)"
    and "\<forall>d' t' l'. BeginCall k d' t' l' \<in> set cs \<longrightarrow> t' < t + seconds l" and "t1 < t + seconds l"
  shows "fst (rm_begin k d1 t1 l1 (run_store_calls rm_call cs st1)) \<noteq> Inr (Started n1)"
proof -
  from assms(1) have "rm_call (BeginCall k d t l) st = (RBegin (Started n), st1)" by (simp add: reply_def)
  note out = rms.lease_excludes [OF this assms(2,3)]
  show ?thesis
  proof
    let ?st = "run_store_calls rm_call cs st1"
    assume "fst (rm_begin k d1 t1 l1 ?st) = Inr (Started n1)"
    then have "rm_call (BeginCall k d1 t1 l1) ?st = (RBegin (Started n1), snd (rm_begin k d1 t1 l1 ?st))"
      by (cases "rm_begin k d1 t1 l1 ?st") (simp add: reply_def)
    with out show False by blast
  qed
qed

text \<open>
  C14: A journaled order is recoverable: whatever calls follow, the next attempt of the account is
  handed the entry, unless the run was finished or the tag was journaled again.
\<close>

theorem journaled_is_in_flight:
  assumes "st = run_store_calls rm_call cs0 run_mem_new" and "rm_journal_order k e st = (Inr (), st1)"
    and "\<forall>r. FinishCall r \<in> set cs \<longrightarrow> rr_key r \<noteq> k"
    and "\<forall>e'. JournalCall k e' \<in> set cs \<longrightarrow> je_tag e' \<noteq> je_tag e"
  shows "\<exists>js. fst (rm_in_flight (rk_account_id k) (run_store_calls rm_call cs st1)) = Inr js \<and> e \<in> set js"
proof -
  from assms(2) have c: "rm_call (JournalCall k e) st = (RUnit, st1)" by (simp add: reply_def)
  have "rm_ok st" using assms(1) by (simp add: rm_ok_calls)
  then have "rm_ok st1" using rm_ok_call [of st "JournalCall k e"] c by simp
  then have ok: "rm_ok (run_store_calls rm_call cs st1)" by (rule rm_ok_calls)
  have j: "e \<in> set (journal_of (rm_entries (run_store_calls rm_call cs st1) k))"
    by (rule rms.journal_kept [OF c assms(3,4)])
  then have "k \<in> set (rm_order (run_store_calls rm_call cs st1))"
    using ok by (cases "rm_entries (run_store_calls rm_call cs st1) k") (auto simp: rm_ok_def journal_of_def)
  with j ok show ?thesis by (auto simp: rm_in_flight_def rm_check_def rm_ok_def keys_of_def)
qed

section \<open>Witnesses\<close>

definition example_key :: run_key where
  "example_key = run_key_new ''acct'' 1000 [''etf'', ''crypto'']"

definition example_record :: run_record where
  "example_record = \<lparr>rr_key = example_key, rr_mode = Live, rr_attempt = 1, rr_trading_day = 7, rr_scheduled_for = 1000,
     rr_started_at = 1000, rr_finished_at = 2000, rr_outcome = \<lparr>ro_kind = OkCompleted, ro_code = ''RUN_COMPLETED''\<rparr>,
     rr_mandate_hash = [], rr_mandate_version = None, rr_mandate_standing = ''active'', rr_deployment_digest = None,
     rr_data_fingerprints = [], rr_pre_snapshot = None, rr_post_snapshot = None, rr_recon = [], rr_state_before = None,
     rr_state_after = None, rr_transitions = [], rr_risk = None, rr_decisions = [], rr_targets = [], rr_plan = None,
     rr_replan = None, rr_tickets = [], rr_placed = [], rr_cleanup = [], rr_flatten = None, rr_alerts = [],
     rr_alert_delivery_failures = [], rr_steps = []\<rparr>"

definition example_entry :: journal_entry where
  "example_entry = \<lparr>je_tag = ''rb1:x'', je_broker_order_id = None, je_notional = dec_ZERO\<rparr>"

definition example_started :: run_mem where
  "example_started = snd (rm_begin example_key 7 1000 900 run_mem_new)"

lemma example_key_account [simp]: "rk_account_id example_key = ''acct''"
  by (simp add: example_key_def run_key_new_def)

lemma example_begin: "rm_begin example_key 7 1000 900 run_mem_new = (Inr (Started 1), example_started)"
  by (simp add: example_started_def rm_begin_def rm_check_def run_mem_new_def)

lemmas example_store = example_started_def rm_begin_def rm_check_def run_mem_new_def example_record_def

theorem run_records_immutable_witness:
  "\<exists>st1. rm_finish example_record example_started = (Inr (), st1) \<and>
     fst (rm_get example_key (run_store_calls rm_call [GetCall example_key] st1)) = Inr (Some example_record)"
proof -
  have f: "rm_finish example_record example_started = (Inr (), snd (rm_finish example_record example_started))"
    by (simp add: rm_finish_def example_store)
  have "rm_fail_next (run_store_calls rm_call [GetCall example_key] (snd (rm_finish example_record example_started))) = 0"
    by (simp add: rm_finish_def example_store rm_get_def reply_def)
  from run_records_immutable [OF f refl this refl] f show ?thesis by (auto simp: example_record_def)
qed

theorem lease_is_exclusive_witness:
  "fst (rm_begin example_key 7 5000 900 (run_store_calls rm_call [BeginCall example_key 7 4000 900] example_started)) \<noteq> Inr (Started 2)"
  by (rule lease_is_exclusive [OF example_begin]) (simp_all add: seconds_def)

theorem journaled_is_in_flight_witness:
  "\<exists>js. fst (rm_in_flight ''acct'' (run_store_calls rm_call [BeginCall example_key 7 2000 900]
      (snd (rm_journal_order example_key example_entry example_started)))) = Inr js \<and> example_entry \<in> set js"
proof -
  have st: "example_started = run_store_calls rm_call [BeginCall example_key 7 1000 900] run_mem_new"
    by (simp add: example_begin reply_def)
  have "rm_journal_order example_key example_entry example_started =
      (Inr (), snd (rm_journal_order example_key example_entry example_started))"
    by (simp add: rm_journal_order_def example_store)
  from journaled_is_in_flight [OF st this, of "[BeginCall example_key 7 2000 900]"] show ?thesis by simp
qed

end
