(* ===== verification/Decision.thy ===== *)
theory Decision
  imports Run_Record
begin

text \<open>
  \<open>rebalancer-run/src/decision.rs\<close> and the weight policy of \<open>cell_rules.rs\<close>: what a sleeve wants on a
  date, and the memo of a tick. The reference rules are another crate, not part of the repository: the
  panel is a type \<open>'p\<close>, and the record \<open>rules\<close> has the functions and constants of that crate and the
  three \<open>f64\<close> computations of this one. A series is what its accessors return.
\<close>

section \<open>The reference rules\<close>

datatype rule_error =
    FormingBar string int int
  | StaleData string int int int
  | EmptySeries string
  | DateNotInPanel string int
  | DataGap string int int int int
  | OtherRule string

record series =
  se_symbol :: string
  se_last_date :: int
  se_dates :: "int list"
  se_closes :: "f64_obs list"

datatype signal = LongSignal | CashSignal

record instrument_decision =
  id_symbol :: string
  id_close :: f64_obs
  id_sma :: f64_obs
  id_signal :: signal
  id_weight :: f64_obs

record 'p rules =
  ru_published :: published
  ru_iter :: "'p \<Rightarrow> series list"
  ru_get :: "'p \<Rightarrow> string \<Rightarrow> rule_error + series"
  ru_fingerprint :: "'p \<Rightarrow> string"
  ru_missing_weekdays :: "int \<Rightarrow> int \<Rightarrow> int"
  ru_max_missing_weekdays :: int
  ru_max_stale_days :: int
  ru_latest_decision_date :: "'p \<Rightarrow> string list \<Rightarrow> rule_error + int"
  ru_decide_etf :: "'p \<Rightarrow> int \<Rightarrow> int \<Rightarrow> string list \<Rightarrow> nat \<Rightarrow> f64_obs \<Rightarrow> rule_error + instrument_decision list"
  ru_decide_crypto :: "'p \<Rightarrow> int \<Rightarrow> int \<Rightarrow> bool \<Rightarrow> string list \<Rightarrow> nat \<Rightarrow> rule_error + instrument_decision list"
  ru_momentum_weights :: "f64_obs list list \<Rightarrow> string list \<Rightarrow> nat \<Rightarrow> f64_obs list"
  ru_etf_weight :: f64_obs
  ru_one_over :: "nat \<Rightarrow> f64_obs"
  ru_margin_bps :: "f64_obs \<Rightarrow> f64_obs \<Rightarrow> f64_obs"
  ru_floor_weight :: "f64_obs \<Rightarrow> f64_obs"

section \<open>Weight policies\<close>

datatype weight_policy = FixedConstant | EqualOverN

definition trend_weight_policy :: "sleeve_spec \<Rightarrow> weight_policy" where
  "trend_weight_policy s = (if ss_instruments s = [] then FixedConstant else EqualOverN)"

definition long_weight :: "(nat \<Rightarrow> f64_obs) \<Rightarrow> weight_policy \<Rightarrow> nat \<Rightarrow> f64_obs \<Rightarrow> f64_obs" where
  "long_weight one_over p n fixed_constant = (case p of FixedConstant \<Rightarrow> fixed_constant | EqualOverN \<Rightarrow> one_over n)"

definition decide_trend :: "'p rules \<Rightarrow> 'p \<Rightarrow> int \<Rightarrow> int \<Rightarrow> string list \<Rightarrow> nat \<Rightarrow> weight_policy \<Rightarrow> rule_error + instrument_decision list" where
  "decide_trend ru pan date as_of symbols months p =
     ru_decide_etf ru pan date as_of symbols months (long_weight (ru_one_over ru) p (length symbols) (ru_etf_weight ru))"

section \<open>Decisions\<close>

datatype rule_decision = EtfRule "instrument_decision list" | CryptoRule "instrument_decision list"

record evaluation =
  ev_kind :: sleeve_kind
  ev_as_of :: int
  ev_fingerprint :: string
  ev_decision_date :: int
  ev_newest_bar_date :: int
  ev_lag_sessions :: nat
  ev_instruments :: "instrument_evidence list"
  ev_rule :: rule_decision
  ev_data_gate :: "data_gate_report option"

definition sessions_past_action :: "evaluation \<Rightarrow> nat" where
  "sessions_past_action e = ev_lag_sessions e - 1"

definition decision_weights :: "instrument_decision list \<Rightarrow> (string \<times> f64_obs) list" where
  "decision_weights ds = map (\<lambda>i. (id_symbol i, id_weight i)) ds"

definition evaluation_target :: "(f64_obs \<Rightarrow> f64_obs) \<Rightarrow> evaluation \<Rightarrow> sleeve_spec \<Rightarrow> math_error + sleeve_target" where
  "evaluation_target floor_weight e s =
     (case ev_rule e of
        EtfRule ds \<Rightarrow>
          from_etf (ss_id s) (ss_share s) (ss_venue s) (ss_asset_class s)
            (decision_weights (if ev_kind e = EtfMomentum then map (\<lambda>i. i\<lparr>id_weight := floor_weight (id_weight i)\<rparr>) ds else ds))
      | CryptoRule ds \<Rightarrow>
          from_crypto (ss_id s) (ss_share s) (ss_venue s) (ss_asset_class s) (ss_quote s) (decision_weights ds))"

datatype eval_error = EvalData data_error | EvalRule rule_error

record 'p sleeve_data =
  sl_panel :: 'p
  sl_gate :: "data_gate_report option"

record 'p fetched =
  fe_data :: "'p sleeve_data"
  fe_fingerprint :: string

definition evidence :: "'p rules \<Rightarrow> instrument_decision \<Rightarrow> instrument_evidence" where
  "evidence ru i = \<lparr>ie_symbol = id_symbol i, ie_close = id_close i, ie_sma = id_sma i,
     ie_margin_bps = ru_margin_bps ru (id_close i) (id_sma i), ie_weight = id_weight i\<rparr>"

definition newest_bar :: "'p rules \<Rightarrow> 'p \<Rightarrow> int option" where
  "newest_bar ru pan = (case map se_last_date (ru_iter ru pan) of [] \<Rightarrow> None | d # ds \<Rightarrow> Some (foldl max d ds))"

subsection \<open>Momentum\<close>

definition momentum_series :: "'p rules \<Rightarrow> 'p \<Rightarrow> int \<Rightarrow> series list \<Rightarrow> string \<Rightarrow> rule_error + series list" where
  "momentum_series ru pan as_of acc sy =
     try_bind (ru_get ru pan sy) (\<lambda>s.
     if se_last_date s \<ge> as_of then Inl (FormingBar sy (se_last_date s) as_of)
     else if as_of - se_last_date s > ru_max_stale_days ru
     then Inl (StaleData sy (se_last_date s) as_of (ru_max_stale_days ru))
     else Inr (acc @ [s]))"

fun first_gap :: "'p rules \<Rightarrow> string \<Rightarrow> int list \<Rightarrow> rule_error + unit" where
  "first_gap ru sy (a # b # ds) =
     (let missing = ru_missing_weekdays ru a b
      in if missing > ru_max_missing_weekdays ru then Inl (DataGap sy a b missing (ru_max_missing_weekdays ru))
         else first_gap ru sy (b # ds))"
| "first_gap ru sy _ = Inr ()"

definition first_difference :: "int list \<Rightarrow> int list \<Rightarrow> int option" where
  "first_difference r ds = map_option fst (find (\<lambda>(a, b). a \<noteq> b) (zip r ds))"

definition momentum_window :: "'p rules \<Rightarrow> int \<Rightarrow> nat \<Rightarrow> int list option \<Rightarrow> series \<Rightarrow> rule_error + int list option" where
  "momentum_window ru date window ref s =
     (if se_last_date s \<noteq> date then Inl (DateNotInPanel (se_symbol s) date)
      else if length (se_dates s) < window then Inr ref
      else let ds = drop (length (se_dates s) - window) (se_dates s)
           in try_bind (first_gap ru (se_symbol s) ds) (\<lambda>_.
              case ref of
                None \<Rightarrow> Inr (Some ds)
              | Some r \<Rightarrow>
                  (case first_difference r ds of
                     Some d \<Rightarrow> Inl (DateNotInPanel (se_symbol s) d)
                   | None \<Rightarrow> Inr ref)))"

definition momentum_instrument :: "nat \<Rightarrow> series \<times> f64_obs \<Rightarrow> instrument_decision" where
  "momentum_instrument window = (\<lambda>(s, weight).
     let n = length (se_dates s); lst = se_closes s ! (n - 1);
         base = (if n \<ge> window then se_closes s ! (n - window) else lst)
     in \<lparr>id_symbol = se_symbol s, id_close = lst, id_sma = base,
         id_signal = (if fnum_lt (FNum 0) (f_num weight) then LongSignal else CashSignal), id_weight = weight\<rparr>)"

definition decide_momentum :: "'p rules \<Rightarrow> 'p \<Rightarrow> string list \<Rightarrow> nat \<Rightarrow> int \<Rightarrow> rule_error + int \<times> instrument_decision list" where
  "decide_momentum ru pan symbols lookback as_of =
     try_bind (try_fold (momentum_series ru pan as_of) [] symbols) (\<lambda>ss.
     case map se_last_date ss of
       [] \<Rightarrow> Inl (EmptySeries [])
     | d0 # ds \<Rightarrow>
         let date = foldl max d0 ds; window = lookback + 1
         in try_bind (try_fold (momentum_window ru date window) None ss) (\<lambda>_.
            let weights = ru_momentum_weights ru (map se_closes ss) symbols lookback
            in Inr (date, map (momentum_instrument window) (zip ss weights))))"

subsection \<open>Any kind\<close>

definition decide :: "'p rules \<Rightarrow> sleeve_spec \<Rightarrow> 'p \<Rightarrow> int \<Rightarrow> rule_error + int \<times> rule_decision" where
  "decide ru s pan as_of =
     (let symbols = rule_symbols (ru_published ru) s; lookback = sma_lookback (ru_published ru) s
      in case ss_kind s of
           EtfTrend \<Rightarrow>
             try_bind (ru_latest_decision_date ru pan symbols) (\<lambda>date.
             try_bind (decide_trend ru pan date as_of symbols lookback (trend_weight_policy s)) (\<lambda>d.
             Inr (date, EtfRule d)))
         | EtfMomentum \<Rightarrow>
             try_bind (decide_momentum ru pan symbols lookback as_of) (\<lambda>(date, d). Inr (date, EtfRule d))
         | CryptoTrend \<Rightarrow>
             let lag = int (ss_tranche_sessions s); date = as_of - 1 - lag
             in try_bind (ru_decide_crypto ru pan date as_of (lag > 0) symbols lookback) (\<lambda>d.
                Inr (date, CryptoRule d)))"

definition rule_instruments :: "rule_decision \<Rightarrow> instrument_decision list" where
  "rule_instruments r = (case r of EtfRule ds \<Rightarrow> ds | CryptoRule ds \<Rightarrow> ds)"

definition lag_of :: "'p rules \<Rightarrow> 'p \<Rightarrow> int \<Rightarrow> instrument_evidence list \<Rightarrow> nat" where
  "lag_of ru pan date is =
     (case is of
        [] \<Rightarrow> 0
      | i # _ \<Rightarrow>
          (case ru_get ru pan (ie_symbol i) of
             Inl _ \<Rightarrow> 0
           | Inr s \<Rightarrow> length (se_dates s) - length (takeWhile (\<lambda>d. d \<le> date) (se_dates s))))"

definition build :: "'p rules \<Rightarrow> sleeve_spec \<Rightarrow> int \<Rightarrow> 'p fetched \<Rightarrow> rule_error + evaluation" where
  "build ru s as_of f =
     (let pan = sl_panel (fe_data f)
      in try_bind (decide ru s pan as_of) (\<lambda>(date, rule).
         let is = map (evidence ru) (rule_instruments rule)
         in Inr \<lparr>ev_kind = ss_kind s, ev_as_of = as_of, ev_fingerprint = fe_fingerprint f, ev_decision_date = date,
              ev_newest_bar_date = (case newest_bar ru pan of Some d \<Rightarrow> d | None \<Rightarrow> date),
              ev_lag_sessions = lag_of ru pan date is, ev_instruments = is, ev_rule = rule,
              ev_data_gate = sl_gate (fe_data f)\<rparr>))"

section \<open>The memo of a tick\<close>

text \<open>A memo's entries are added at the front and never changed; its order is not observable.\<close>

type_synonym fkey = "sleeve_kind \<times> string \<times> string \<times> string \<times> string \<times> int"
type_synonym dkey = "sleeve_kind \<times> int \<times> string \<times> string"

record 'p eval_cache =
  ec_fetched :: "(fkey \<times> (data_error + 'p fetched)) list"
  ec_decided :: "(dkey \<times> (rule_error + evaluation)) list"

definition eval_cache_new :: "'p eval_cache" where
  "eval_cache_new = \<lparr>ec_fetched = [], ec_decided = []\<rparr>"

definition fetch_key :: "sleeve_spec \<Rightarrow> int \<Rightarrow> fkey" where
  "fetch_key s as_of = (ss_kind s, ss_venue s, ss_asset_class s, ss_quote s, variant_key s, as_of)"

definition decision_key :: "sleeve_spec \<Rightarrow> int \<Rightarrow> string \<Rightarrow> dkey" where
  "decision_key s as_of fingerprint = (ss_kind s, as_of, fingerprint, variant_key s)"

type_synonym ('p, 'w) source = "sleeve_spec \<Rightarrow> int \<Rightarrow> 'w \<Rightarrow> (data_error + 'p sleeve_data) \<times> 'w"

definition add_fetched :: "fkey \<Rightarrow> (data_error + 'p fetched) \<Rightarrow> 'p eval_cache \<Rightarrow> 'p eval_cache" where
  "add_fetched k r c = c\<lparr>ec_fetched := (k, r) # ec_fetched c\<rparr>"

definition add_decided :: "dkey \<Rightarrow> (rule_error + evaluation) \<Rightarrow> 'p eval_cache \<Rightarrow> 'p eval_cache" where
  "add_decided k r c = c\<lparr>ec_decided := (k, r) # ec_decided c\<rparr>"

definition finger :: "'p rules \<Rightarrow> 'p sleeve_data \<Rightarrow> 'p fetched" where
  "finger ru d = \<lparr>fe_data = d, fe_fingerprint = ru_fingerprint ru (sl_panel d)\<rparr>"

definition map_ok :: "('a \<Rightarrow> 'b) \<Rightarrow> 'e + 'a \<Rightarrow> 'e + 'b" where
  "map_ok f r = (case r of Inl e \<Rightarrow> Inl e | Inr x \<Rightarrow> Inr (f x))"

definition fetch :: "'p rules \<Rightarrow> ('p, 'w) source \<Rightarrow> sleeve_spec \<Rightarrow> int \<Rightarrow> 'p eval_cache option \<Rightarrow> 'w \<Rightarrow>
    (data_error + 'p fetched) \<times> 'p eval_cache option \<times> 'w" where
  "fetch ru src s as_of cache w =
     (case Option.bind cache (\<lambda>c. map_of (ec_fetched c) (fetch_key s as_of)) of
        Some found \<Rightarrow> (found, cache, w)
      | None \<Rightarrow>
          let (r, w') = src s as_of w; result = map_ok (finger ru) r
          in (result, map_option (add_fetched (fetch_key s as_of) result) cache, w'))"

definition evaluate :: "'p rules \<Rightarrow> ('p, 'w) source \<Rightarrow> sleeve_spec \<Rightarrow> int \<Rightarrow> 'p eval_cache option \<Rightarrow> 'w \<Rightarrow>
    (eval_error + evaluation) \<times> 'p eval_cache option \<times> 'w" where
  "evaluate ru src s as_of cache w =
     (let (f, cache', w') = fetch ru src s as_of cache w
      in case f of
           Inl e \<Rightarrow> (Inl (EvalData e), cache', w')
         | Inr fetched \<Rightarrow>
             let k = decision_key s as_of (fe_fingerprint fetched)
             in case Option.bind cache' (\<lambda>c. map_of (ec_decided c) k) of
                  Some found \<Rightarrow> (map_err EvalRule found, cache', w')
                | None \<Rightarrow>
                    let result = build ru s as_of fetched
                    in (map_err EvalRule result, map_option (add_decided k result) cache', w'))"

definition cache_sizes :: "'p eval_cache \<Rightarrow> nat \<times> nat" where
  "cache_sizes c = (length (ec_fetched c), length (ec_decided c))"

section \<open>Momentum decisions\<close>

lemma foldl_max_in: "foldl max (d0::int) ds \<in> set (d0 # ds)"
  by (induction ds arbitrary: d0) (fastforce simp: max_def)+

lemma momentum_series_Inr:
  "momentum_series ru pan as_of acc y = Inr acc' \<longleftrightarrow> (\<exists>s. ru_get ru pan y = Inr s \<and> se_last_date s < as_of \<and>
     as_of - se_last_date s \<le> ru_max_stale_days ru \<and> acc' = acc @ [s])"
  by (cases "ru_get ru pan y") (auto simp: momentum_series_def)

lemma momentum_series_fold:
  "try_fold (momentum_series ru pan as_of) acc symbols = Inr ss \<Longrightarrow>
   \<exists>new. ss = acc @ new \<and> list_all2 (\<lambda>y s. ru_get ru pan y = Inr s \<and> se_last_date s < as_of \<and>
     as_of - se_last_date s \<le> ru_max_stale_days ru) symbols new"
proof (induction symbols arbitrary: acc)
  case (Cons y symbols)
  then obtain s where s: "ru_get ru pan y = Inr s" "se_last_date s < as_of" "as_of - se_last_date s \<le> ru_max_stale_days ru"
    and r: "try_fold (momentum_series ru pan as_of) (acc @ [s]) symbols = Inr ss"
    by (auto simp: momentum_series_Inr try_bind_Inr)
  from Cons.IH [OF r] s show ?case by auto
qed simp

lemma momentum_window_fold:
  "try_fold (momentum_window ru date window) ref ss = Inr r \<Longrightarrow> \<forall>s \<in> set ss. se_last_date s = date"
  by (induction ss arbitrary: ref) (auto simp: momentum_window_def try_bind_Inr split: if_splits)

lemma decide_momentum_Inr:
  assumes "decide_momentum ru pan symbols lookback as_of = Inr (date, is)"
  shows "\<forall>y \<in> set symbols. \<exists>s. ru_get ru pan y = Inr s \<and> se_last_date s = date"
    and "date < as_of" and "as_of - date \<le> ru_max_stale_days ru"
proof -
  from assms obtain ss where ss: "try_fold (momentum_series ru pan as_of) [] symbols = Inr ss"
    by (auto simp: decide_momentum_def try_bind_Inr)
  with assms obtain d0 ds r where d: "map se_last_date ss = d0 # ds" and date: "date = foldl max d0 ds"
    and w: "try_fold (momentum_window ru date (lookback + 1)) None ss = Inr r"
    by (cases "map se_last_date ss") (auto simp: decide_momentum_def try_bind_Inr Let_def)
  from momentum_series_fold [OF ss] have l: "list_all2 (\<lambda>y s. ru_get ru pan y = Inr s \<and> se_last_date s < as_of \<and>
     as_of - se_last_date s \<le> ru_max_stale_days ru) symbols ss" by auto
  show "\<forall>y \<in> set symbols. \<exists>s. ru_get ru pan y = Inr s \<and> se_last_date s = date"
  proof
    fix y assume "y \<in> set symbols"
    then obtain i where i: "i < length symbols" "y = symbols ! i" by (auto simp: in_set_conv_nth)
    with l have "ru_get ru pan y = Inr (ss ! i)" "ss ! i \<in> set ss" by (auto simp: list_all2_conv_all_nth)
    with momentum_window_fold [OF w] show "\<exists>s. ru_get ru pan y = Inr s \<and> se_last_date s = date" by blast
  qed
  from foldl_max_in [of d0 ds] d have "date \<in> set (map se_last_date ss)" by (simp add: date)
  then obtain s where "s \<in> set ss" "se_last_date s = date" by auto
  with l show "date < as_of" "as_of - date \<le> ru_max_stale_days ru"
    by (auto simp: list_all2_conv_all_nth in_set_conv_nth)
qed

section \<open>The memo is transparent\<close>

text \<open>Instrument names without the separators of the variant key.\<close>

definition plain_names :: "sleeve_spec \<Rightarrow> bool" where
  "plain_names s \<longleftrightarrow> list_all (\<lambda>i. i \<noteq> [] \<and> CHR '','' \<notin> set i \<and> CHR ''|'' \<notin> set i) (ss_instruments s)"

lemma join_inj:
  "join '','' xs = join '','' ys \<Longrightarrow> list_all (\<lambda>i. i \<noteq> [] \<and> CHR '','' \<notin> set i) xs \<Longrightarrow>
   list_all (\<lambda>i. i \<noteq> [] \<and> CHR '','' \<notin> set i) ys \<Longrightarrow> xs = ys"
proof (induction xs arbitrary: ys)
  case Nil
  then show ?case by (cases ys; cases "tl ys") auto
next
  case (Cons x xs)
  from Cons.prems obtain y ys' where ys: "ys = y # ys'" by (cases ys; cases xs) auto
  have take: "takeWhile (\<lambda>c. c \<noteq> CHR '','') (join '','' (z # zs)) = z" if "CHR '','' \<notin> set z" for z zs
  proof -
    have "takeWhile (\<lambda>c. c \<noteq> CHR '','') z = z" using that by (simp add: takeWhile_eq_all_conv) blast
    with that show ?thesis by (cases zs) (auto simp: takeWhile_append)
  qed
  from take [of x xs] take [of y ys'] Cons.prems ys have xy: "x = y" by simp
  show ?case
  proof (cases xs)
    case Nil
    with Cons.prems ys xy show ?thesis by (cases ys') auto
  next
    case (Cons x' xs')
    with Cons.prems ys xy obtain y' ys'' where ys': "ys' = y' # ys''" by (cases ys') auto
    with Cons.prems ys xy Cons have "join '','' xs = join '','' ys'" by simp
    with Cons.IH Cons.prems ys xy show ?thesis by simp
  qed
qed

lemma split_unique:
  assumes "(c::char) \<notin> set a" "c \<notin> set a'" "a @ c # b = a' @ c # b'"
  shows "a = a' \<and> b = b'"
  using arg_cong [OF assms(3), of "split_once c"] by (simp add: split_once_append assms(1,2))

lemma show_nat_no_bar: "CHR ''|'' \<notin> set (show_nat n)"
  using show_nat_digits [of n] by (auto simp: list_all_iff is_digit_def code_def)

lemma show_nat_inj: "show_nat m = show_nat n \<Longrightarrow> m = n"
  by (metis digits_val_show of_nat_eq_iff)

lemma join_no_bar: "list_all (\<lambda>i. CHR ''|'' \<notin> set i) xs \<Longrightarrow> CHR ''|'' \<notin> set (join '','' xs)"
  by (induction xs rule: induct_list012) auto

definition rest_text :: "sleeve_spec \<Rightarrow> string" where
  "rest_text s = (case ss_lookback s of Some l \<Rightarrow> show_nat l | None \<Rightarrow> [])"

lemma variant_key_point:
  "\<not> is_published_point s \<Longrightarrow> variant_key s =
     join '','' (ss_instruments s) @ CHR ''|'' # CHR ''t'' # show_nat (ss_tranche_sessions s) @ CHR ''|'' # CHR ''l'' # rest_text s"
  by (simp add: variant_key_def rest_text_def)

lemma variant_key_inj:
  assumes "variant_key s = variant_key s'" and "plain_names s" and "plain_names s'"
  shows "ss_instruments s = ss_instruments s' \<and> ss_tranche_sessions s = ss_tranche_sessions s' \<and> ss_lookback s = ss_lookback s'"
proof (cases "is_published_point s \<or> is_published_point s'")
  case True
  have "variant_key x = [] \<longleftrightarrow> is_published_point x" for x by (simp add: variant_key_def)
  with True assms(1) have "is_published_point s" "is_published_point s'" by metis+
  then show ?thesis by (simp add: is_published_point_def)
next
  case False
  have bar: "CHR ''|'' \<notin> set (join '','' (ss_instruments x))" if "plain_names x" for x
    using that by (intro join_no_bar) (simp add: plain_names_def list_all_iff)
  have names: "list_all (\<lambda>i. i \<noteq> [] \<and> CHR '','' \<notin> set i) (ss_instruments x)" if "plain_names x" for x
    using that by (simp add: plain_names_def list_all_iff)
  have t: "CHR ''|'' \<notin> set (CHR ''t'' # show_nat n)" for n using show_nat_no_bar by simp
  from False assms(1) have "join '','' (ss_instruments s) @ CHR ''|'' # CHR ''t'' # show_nat (ss_tranche_sessions s) @ CHR ''|'' # CHR ''l'' # rest_text s =
      join '','' (ss_instruments s') @ CHR ''|'' # CHR ''t'' # show_nat (ss_tranche_sessions s') @ CHR ''|'' # CHR ''l'' # rest_text s'"
    by (simp add: variant_key_point)
  from split_unique [OF bar [OF assms(2)] bar [OF assms(3)] this]
  have j: "join '','' (ss_instruments s) = join '','' (ss_instruments s')"
    and r: "(CHR ''t'' # show_nat (ss_tranche_sessions s)) @ CHR ''|'' # CHR ''l'' # rest_text s =
      (CHR ''t'' # show_nat (ss_tranche_sessions s')) @ CHR ''|'' # CHR ''l'' # rest_text s'" by auto
  from split_unique [OF t t r] have "show_nat (ss_tranche_sessions s) = show_nat (ss_tranche_sessions s')"
    and l: "rest_text s = rest_text s'" by auto
  then have "ss_tranche_sessions s = ss_tranche_sessions s'" by (simp add: show_nat_inj)
  moreover from l have "ss_lookback s = ss_lookback s'"
    by (auto simp: rest_text_def show_nat_inj split: option.splits dest: sym)
  moreover from join_inj [OF j] names assms have "ss_instruments s = ss_instruments s'" by simp
  ultimately show ?thesis by simp
qed

lemma decide_cong:
  assumes "ss_kind s = ss_kind s'" "ss_instruments s = ss_instruments s'"
    "ss_tranche_sessions s = ss_tranche_sessions s'" "ss_lookback s = ss_lookback s'"
  shows "decide ru s pan as_of = decide ru s' pan as_of"
  unfolding decide_def rule_symbols_def sma_lookback_def trend_weight_policy_def assms by (rule refl)

text \<open>An evaluation without the report of the two-source gate, which the decision memo does not key.\<close>

definition drop_gate :: "'e + evaluation \<Rightarrow> 'e + evaluation" where
  "drop_gate r = map_ok (\<lambda>e. e\<lparr>ev_data_gate := None\<rparr>) r"

lemma build_cong:
  assumes "ss_kind s = ss_kind s'" "variant_key s = variant_key s'" "plain_names s" "plain_names s'"
    and "sl_panel (fe_data f) = sl_panel (fe_data f')" "fe_fingerprint f = fe_fingerprint f'"
  shows "drop_gate (build ru s as_of f) = drop_gate (build ru s' as_of f')"
proof -
  have "decide ru s (sl_panel (fe_data f)) as_of = decide ru s' (sl_panel (fe_data f')) as_of"
    unfolding assms(5) by (rule decide_cong) (use variant_key_inj [OF assms(2-4)] assms(1) in simp_all)
  with assms(1,5,6) show ?thesis
    by (cases "decide ru s' (sl_panel (fe_data f')) as_of") (auto simp: build_def drop_gate_def map_ok_def Let_def)
qed

text \<open>The sleeves of a tick, evaluated one after the other through one memo.\<close>

fun evaluate_all :: "'p rules \<Rightarrow> ('p, 'w) source \<Rightarrow> int \<Rightarrow> sleeve_spec list \<Rightarrow> 'p eval_cache option \<Rightarrow> 'w \<Rightarrow> (eval_error + evaluation) list" where
  "evaluate_all ru src as_of [] c w = []"
| "evaluate_all ru src as_of (s # ss) c w =
     (let (r, c', w') = evaluate ru src s as_of c w in r # evaluate_all ru src as_of ss c' w')"

text \<open>
  The specification: the source is asked once for each fetch key, in the order of the sleeves, and
  every sleeve is decided alone on the answer its key got. The source may change its answers and its
  state at every question.
\<close>

type_synonym 'p answers = "(fkey \<times> (data_error + 'p sleeve_data)) list"

definition ask_new :: "('p, 'w) source \<Rightarrow> int \<Rightarrow> sleeve_spec \<Rightarrow> 'p answers \<times> 'w \<Rightarrow> 'p answers \<times> 'w" where
  "ask_new src as_of s = (\<lambda>(m, w).
     if map_of m (fetch_key s as_of) \<noteq> None then (m, w)
     else let (r, w') = src s as_of w in ((fetch_key s as_of, r) # m, w'))"

definition ask_once :: "('p, 'w) source \<Rightarrow> int \<Rightarrow> sleeve_spec list \<Rightarrow> 'w \<Rightarrow> 'p answers" where
  "ask_once src as_of ss w = fst (fold (ask_new src as_of) ss ([], w))"

definition replay :: "'p answers \<Rightarrow> ('p, unit) source" where
  "replay m s as_of w = (the (map_of m (fetch_key s as_of)), w)"

definition panels_apart :: "'p rules \<Rightarrow> 'p answers \<Rightarrow> bool" where
  "panels_apart ru m \<longleftrightarrow> (\<forall>(_, r) \<in> set m. \<forall>(_, r') \<in> set m. \<forall>d d'. r = Inr d \<longrightarrow> r' = Inr d' \<longrightarrow>
     ru_fingerprint ru (sl_panel d) = ru_fingerprint ru (sl_panel d') \<longrightarrow> sl_panel d = sl_panel d')"

lemma panels_apartD:
  assumes "panels_apart ru m" "map_of m k = Some (Inr d)" "map_of m k' = Some (Inr d')"
    and "ru_fingerprint ru (sl_panel d) = ru_fingerprint ru (sl_panel d')"
  shows "sl_panel d = sl_panel d'"
  using assms(1,4) map_of_SomeD [OF assms(2)] map_of_SomeD [OF assms(3)] unfolding panels_apart_def by fast

lemma map_le_Some: "f \<subseteq>\<^sub>m g \<Longrightarrow> f k = Some v \<Longrightarrow> g k = Some v"
  unfolding map_le_def by (metis domI)

lemma ask_new_grows: "map_of (fst x) \<subseteq>\<^sub>m map_of (fst (ask_new src as_of s x))"
  by (cases x) (auto simp: ask_new_def map_le_def split: prod.split)

lemma ask_fold_grows: "map_of (fst x) \<subseteq>\<^sub>m map_of (fst (fold (ask_new src as_of) ss x))"
proof (induction ss arbitrary: x)
  case (Cons s ss)
  from map_le_trans [OF ask_new_grows Cons.IH] show ?case by simp
qed simp

lemma ask_new_answers: "\<exists>r. map_of (fst (ask_new src as_of s x)) (fetch_key s as_of) = Some r"
  by (cases x) (auto simp: ask_new_def split: prod.split)

text \<open>
  The memo holds the answers \<open>m\<close> so far, fingerprinted, and decisions on answers of the tick, \<open>F\<close>.
\<close>

definition cache_ok :: "'p rules \<Rightarrow> 'p answers \<Rightarrow> 'p answers \<Rightarrow> 'p eval_cache \<Rightarrow> bool" where
  "cache_ok ru F m c \<longleftrightarrow>
     map_of (ec_fetched c) = map_option (map_ok (finger ru)) \<circ> map_of m \<and>
     (\<forall>k r. map_of (ec_decided c) k = Some r \<longrightarrow>
        (\<exists>s t d. plain_names s \<and> map_of F (fetch_key s t) = Some (Inr d) \<and> k = decision_key s t (fe_fingerprint (finger ru d)) \<and>
          r = build ru s t (finger ru d)))"

lemma fetch_asks:
  assumes "cache_ok ru F m c"
  shows "\<exists>c'. fetch ru src s as_of (Some c) w =
      (map_ok (finger ru) (the (map_of (fst (ask_new src as_of s (m, w))) (fetch_key s as_of))), Some c', snd (ask_new src as_of s (m, w))) \<and>
    cache_ok ru F (fst (ask_new src as_of s (m, w))) c'"
proof (cases "map_of m (fetch_key s as_of)")
  case None
  obtain r w' where r: "src s as_of w = (r, w')" by (rule prod.exhaust)
  let ?c = "add_fetched (fetch_key s as_of) (map_ok (finger ru) r) c"
  have "cache_ok ru F ((fetch_key s as_of, r) # m) ?c" using assms by (simp add: cache_ok_def add_fetched_def)
  moreover from None assms have "map_of (ec_fetched c) (fetch_key s as_of) = None" by (simp add: cache_ok_def)
  ultimately show ?thesis using None r by (simp add: fetch_def ask_new_def Let_def)
next
  case (Some r)
  with assms show ?thesis by (simp add: fetch_def ask_new_def cache_ok_def)
qed

lemma decided_is_own:
  assumes "panels_apart ru F" and "cache_ok ru F m c" and "map_of (ec_decided c) (decision_key s as_of (fe_fingerprint (finger ru d))) = Some r"
    and "plain_names s" and "map_of F (fetch_key s as_of) = Some (Inr d)"
  shows "drop_gate r = drop_gate (build ru s as_of (finger ru d))"
proof -
  from assms(2,3) obtain s' t d' where s': "plain_names s'" "map_of F (fetch_key s' t) = Some (Inr d')" "r = build ru s' t (finger ru d')"
    and k: "decision_key s as_of (fe_fingerprint (finger ru d)) = decision_key s' t (fe_fingerprint (finger ru d'))"
    unfolding cache_ok_def by blast
  from k have e: "ss_kind s = ss_kind s'" "as_of = t" "variant_key s = variant_key s'"
      "fe_fingerprint (finger ru d) = fe_fingerprint (finger ru d')"
    by (simp_all add: decision_key_def)
  moreover have "sl_panel d = sl_panel d'"
    by (rule panels_apartD [OF assms(1,5) s'(2)]) (use e(4) in \<open>simp add: finger_def\<close>)
  ultimately show ?thesis unfolding s'(3) using assms(4) s'(1) by (auto intro!: build_cong simp: finger_def)
qed

lemma evaluate_asks:
  assumes F: "panels_apart ru F" "map_of (fst (ask_new src as_of s (m, w))) \<subseteq>\<^sub>m map_of F"
    and "cache_ok ru F m c" and "plain_names s"
  shows "\<exists>r c'. evaluate ru src s as_of (Some c) w = (r, Some c', snd (ask_new src as_of s (m, w))) \<and>
    cache_ok ru F (fst (ask_new src as_of s (m, w))) c' \<and> drop_gate r = drop_gate (fst (evaluate ru (replay F) s as_of None ()))"
proof -
  let ?m = "fst (ask_new src as_of s (m, w))" and ?w = "snd (ask_new src as_of s (m, w))"
  obtain a where a: "map_of ?m (fetch_key s as_of) = Some a" using ask_new_answers by blast
  from F(2) this have A: "map_of F (fetch_key s as_of) = Some a" by (rule map_le_Some)
  from fetch_asks [OF assms(3), of src s as_of w] a obtain c' where c': "cache_ok ru F ?m c'"
    and f: "fetch ru src s as_of (Some c) w = (map_ok (finger ru) a, Some c', ?w)" by auto
  have n: "fetch ru (replay F) s as_of None () = (map_ok (finger ru) a, None, ())"
    using A by (simp add: fetch_def replay_def)
  show ?thesis
  proof (cases a)
    case (Inl e)
    with f n c' show ?thesis by (simp add: evaluate_def map_ok_def)
  next
    case (Inr d)
    let ?k = "decision_key s as_of (fe_fingerprint (finger ru d))" and ?b = "build ru s as_of (finger ru d)"
    show ?thesis
    proof (cases "map_of (ec_decided c') ?k")
      case None
      with c' Inr A assms(4) have "cache_ok ru F ?m (add_decided ?k ?b c')" by (auto simp: cache_ok_def add_decided_def)
      with None Inr f n show ?thesis by (simp add: evaluate_def map_ok_def Let_def)
    next
      case (Some r)
      have "drop_gate r = drop_gate ?b" by (rule decided_is_own [OF F(1) c' Some assms(4) A [unfolded Inr]])
      then have "drop_gate (map_err EvalRule r) = drop_gate (map_err EvalRule ?b)"
        by (cases r; cases ?b) (auto simp: drop_gate_def map_ok_def)
      with Some Inr f n c' show ?thesis by (simp add: evaluate_def map_ok_def Let_def)
    qed
  qed
qed

lemma evaluate_all_asks:
  assumes "panels_apart ru F" and "\<forall>s \<in> set ss. plain_names s" and "cache_ok ru F m c"
    and "map_of (fst (fold (ask_new src as_of) ss (m, w))) \<subseteq>\<^sub>m map_of F"
  shows "map drop_gate (evaluate_all ru src as_of ss (Some c) w) =
    map (\<lambda>s. drop_gate (fst (evaluate ru (replay F) s as_of None ()))) ss"
  using assms(2-4)
proof (induction ss arbitrary: c m w)
  case (Cons s ss)
  let ?x = "ask_new src as_of s (m, w)"
  have "map_of (fst ?x) \<subseteq>\<^sub>m map_of F"
    using Cons.prems(3) ask_fold_grows [of ?x src as_of ss] by (auto intro: map_le_trans)
  from evaluate_asks [OF assms(1) this Cons.prems(2)] Cons.prems(1) obtain r c' where
    r: "evaluate ru src s as_of (Some c) w = (r, Some c', snd ?x)" "cache_ok ru F (fst ?x) c'"
    "drop_gate r = drop_gate (fst (evaluate ru (replay F) s as_of None ()))" by auto
  moreover have "map drop_gate (evaluate_all ru src as_of ss (Some c') (snd ?x)) =
      map (\<lambda>s. drop_gate (fst (evaluate ru (replay F) s as_of None ()))) ss"
    by (rule Cons.IH [OF _ r(2)]) (use Cons.prems in simp_all)
  ultimately show ?case by simp
qed simp

lemma ask_once_distinct: "distinct (map fst (ask_once src as_of ss w))"
proof -
  have "distinct (map fst (fst x)) \<Longrightarrow> distinct (map fst (fst (fold (ask_new src as_of) ss x)))" for x
  proof (induction ss arbitrary: x)
    case (Cons s ss)
    have "distinct (map fst (fst (ask_new src as_of s x)))"
      using Cons.prems by (cases x) (auto simp: ask_new_def map_of_eq_None_iff split: prod.split)
    with Cons.IH show ?case by simp
  qed simp
  from this [of "([], w)"] show ?thesis by (simp add: ask_once_def)
qed

section \<open>Properties\<close>


text \<open>
  A momentum decision is made on one completed, fresh bar: its date is the newest bar of every
  instrument it ranks, it lies strictly before the run date, and at most the permitted number of days.
\<close>

theorem momentum_date_sound:
  assumes "decide_momentum ru pan symbols lookback as_of = Inr (date, is)"
  shows "(\<forall>y \<in> set symbols. \<exists>s. ru_get ru pan y = Inr s \<and> se_last_date s = date) \<and>
    date < as_of \<and> as_of - date \<le> ru_max_stale_days ru"
  using decide_momentum_Inr [OF assms] by blast

section \<open>Witnesses\<close>

definition example_series :: series where
  "example_series = \<lparr>se_symbol = ''SPY'', se_last_date = 99, se_dates = [98, 99],
     se_closes = [plain_f64 100 ''100'', plain_f64 101 ''101'']\<rparr>"

definition example_rules :: "unit rules" where
  "example_rules = \<lparr>ru_published = \<lparr>pb_etf_symbols = [''SPY''], pb_crypto_symbols = [''BTC''], pb_etf_lookback = 1,
       pb_crypto_lookback = 1, pb_momentum_lookback = 1\<rparr>,
     ru_iter = (\<lambda>_. [example_series]), ru_get = (\<lambda>_ _. Inr example_series), ru_fingerprint = (\<lambda>_. ''fp''),
     ru_missing_weekdays = (\<lambda>_ _. 0), ru_max_missing_weekdays = 1, ru_max_stale_days = 7,
     ru_latest_decision_date = (\<lambda>_ _. Inr 98), ru_decide_etf = (\<lambda>_ _ _ _ _ _. Inr []),
     ru_decide_crypto = (\<lambda>_ _ _ _ _ _. Inr []), ru_momentum_weights = (\<lambda>_ _ _. [plain_f64 1 ''1'']),
     ru_etf_weight = plain_f64 (1/5) ''0.2'', ru_one_over = (\<lambda>_. plain_f64 1 ''1''), ru_margin_bps = (\<lambda>a _. a),
     ru_floor_weight = (\<lambda>w. w)\<rparr>"

definition example_sleeve :: "string \<Rightarrow> sleeve_kind \<Rightarrow> sleeve_spec" where
  "example_sleeve i k = \<lparr>ss_id = i, ss_kind = k, ss_share = from_i64 1, ss_venue = ''alpaca'', ss_asset_class = ''us_etf'',
     ss_quote = ''USD'', ss_instruments = [''SPY''], ss_tranche_sessions = 0, ss_lookback = None\<rparr>"

definition example_data :: "unit sleeve_data" where
  "example_data = \<lparr>sl_panel = (), sl_gate = None\<rparr>"

text \<open>Rules whose panels are texts that are their own fingerprints.\<close>

definition text_rules :: "string rules" where
  "text_rules = \<lparr>ru_published = ru_published example_rules, ru_iter = (\<lambda>_. [example_series]), ru_get = (\<lambda>_ _. Inr example_series),
     ru_fingerprint = (\<lambda>p. p), ru_missing_weekdays = (\<lambda>_ _. 0), ru_max_missing_weekdays = 1, ru_max_stale_days = 7,
     ru_latest_decision_date = (\<lambda>_ _. Inr 98), ru_decide_etf = (\<lambda>_ _ _ _ _ _. Inr []),
     ru_decide_crypto = (\<lambda>_ _ _ _ _ _. Inr []), ru_momentum_weights = (\<lambda>_ _ _. [plain_f64 1 ''1'']),
     ru_etf_weight = plain_f64 (1/5) ''0.2'', ru_one_over = (\<lambda>_. plain_f64 1 ''1''), ru_margin_bps = (\<lambda>a _. a),
     ru_floor_weight = (\<lambda>w. w)\<rparr>"

text \<open>A source that gives a panel at its first two questions and fails after that.\<close>

definition flaky_source :: "(string, nat) source" where
  "flaky_source s as_of n = (if n < 2 then Inr \<lparr>sl_panel = ''panel'' @ show_nat n, sl_gate = None\<rparr> else Inl (\<lparr>de_code = ''DOWN'', de_message = []\<rparr>), n + 1)"

definition example_sleeves :: "sleeve_spec list" where
  "example_sleeves = [example_sleeve ''a'' EtfMomentum, example_sleeve ''b'' EtfTrend, example_sleeve ''c'' EtfMomentum]"

lemma example_answers:
  "ask_once flaky_source 100 example_sleeves 0 =
     [(fetch_key (example_sleeve ''b'' EtfTrend) 100, Inr \<lparr>sl_panel = ''panel1'', sl_gate = None\<rparr>),
      (fetch_key (example_sleeve ''a'' EtfMomentum) 100, Inr \<lparr>sl_panel = ''panel0'', sl_gate = None\<rparr>)]"
  by code_simp


lemma example_momentum:
  "\<exists>is. decide_momentum example_rules () [''SPY''] 1 100 = Inr (99, is)"
  by (simp add: decide_momentum_def momentum_series_def momentum_window_def example_rules_def example_series_def Let_def)

theorem momentum_date_sound_witness: "(99::int) < 100 \<and> 100 - 99 \<le> ru_max_stale_days example_rules"
  using example_momentum momentum_date_sound [of example_rules "()" "[''SPY'']" 1 100 99] by blast

end
