(* ===== verification/Pipeline.thy ===== *)
theory Pipeline
  imports Run_Store Decision
begin

text \<open>
  \<open>rebalancer-run/src/pipeline.rs\<close>: one scheduled run. Everything external is a field of
  \<open>run_context\<close> over a state \<open>'w\<close> of the world outside, which every call may change; the mutable
  \<open>Run\<close> is the state of a state monad, and a step that ends the run early returns \<open>Inl Stop\<close>. Notes
  keep their step and time and not their prose; the texts that reach an order's detail or an account's
  halt record are built as in the source, from the parameters of \<open>run_text\<close> where they print an error,
  a time or a report.
\<close>

section \<open>Data\<close>

datatype run_code =
    RcCompleted | RcKillFlagSet | RcNoActiveMandate | RcMandateNotActive | RcMandateInvalid | RcAccountHalted | RcBusy
  | RcStoreUnavailable | RcKillFlagUnreadable | RcRiskPolicyInvalid | RcBrokerUnreachable | RcStateStoreError
  | RcCleanupFailed | RcDataError | RcRuleError | RcPlanError | RcNothingPending | RcDecisionLedgerUnavailable
  | RcDecisionNotActed | RcVenueNotPaper

definition run_code_as_str :: "run_code \<Rightarrow> string" where
  "run_code_as_str c =
     (case c of
        RcCompleted \<Rightarrow> ''RUN_COMPLETED'' | RcKillFlagSet \<Rightarrow> ''RUN_KILL_FLAG_SET'' | RcNoActiveMandate \<Rightarrow> ''RUN_NO_ACTIVE_MANDATE''
      | RcMandateNotActive \<Rightarrow> ''RUN_MANDATE_NOT_ACTIVE'' | RcMandateInvalid \<Rightarrow> ''RUN_MANDATE_INVALID''
      | RcAccountHalted \<Rightarrow> ''RUN_ACCOUNT_HALTED'' | RcBusy \<Rightarrow> ''RUN_BUSY'' | RcStoreUnavailable \<Rightarrow> ''RUN_STORE_UNAVAILABLE''
      | RcKillFlagUnreadable \<Rightarrow> ''RUN_KILL_FLAG_UNREADABLE'' | RcRiskPolicyInvalid \<Rightarrow> ''RUN_RISK_POLICY_INVALID''
      | RcBrokerUnreachable \<Rightarrow> ''RUN_BROKER_UNREACHABLE'' | RcStateStoreError \<Rightarrow> ''RUN_STATE_STORE_ERROR''
      | RcCleanupFailed \<Rightarrow> ''RUN_CLEANUP_FAILED'' | RcDataError \<Rightarrow> ''RUN_DATA_ERROR'' | RcRuleError \<Rightarrow> ''RUN_RULE_ERROR''
      | RcPlanError \<Rightarrow> ''RUN_PLAN_ERROR'' | RcNothingPending \<Rightarrow> ''RUN_NOTHING_PENDING''
      | RcDecisionLedgerUnavailable \<Rightarrow> ''RUN_DECISION_LEDGER_UNAVAILABLE''
      | RcDecisionNotActed \<Rightarrow> ''RUN_DECISION_NOT_ACTED'' | RcVenueNotPaper \<Rightarrow> ''RUN_VENUE_NOT_PAPER'')"

datatype venue_environment = VePaper | VeLive | VeUnspecified

definition venue_environment_as_str :: "venue_environment \<Rightarrow> string" where
  "venue_environment_as_str e = (case e of VePaper \<Rightarrow> ''paper'' | VeLive \<Rightarrow> ''live'' | VeUnspecified \<Rightarrow> ''unspecified'')"

datatype venue_policy = Unrestricted | PaperOnly

definition DAY_START_MISSING :: string where "DAY_START_MISSING = ''DAY_START_MISSING''"

record run_config =
  cf_min_trade_abs :: dec
  cf_min_trade_pct :: dec
  cf_fee_rate :: dec
  cf_tolerances :: recon_tolerances
  cf_recovery_fraction :: dec
  cf_max_price_age_secs :: int
  cf_lease_secs :: int
  cf_max_polls :: nat
  cf_poll_secs :: nat
  cf_flatten_max_rounds :: nat
  cf_deployment :: "deployment_limits option"
  cf_venue_policy :: venue_policy
  cf_day_start :: day_start_rule

definition run_config_default :: run_config where
  "run_config_default =
     (let d = (\<lambda>s. case parse_dec s of Inr x \<Rightarrow> x | Inl _ \<Rightarrow> dec_ZERO)
      in \<lparr>cf_min_trade_abs = d ''10'', cf_min_trade_pct = d ''0.02'', cf_fee_rate = d ''0.0026'',
          cf_tolerances = recon_default_tolerances, cf_recovery_fraction = d ''0.5'', cf_max_price_age_secs = 300,
          cf_lease_secs = 900, cf_max_polls = 3, cf_poll_secs = 1, cf_flatten_max_rounds = 4, cf_deployment = None,
          cf_venue_policy = Unrestricted, cf_day_start = FirstObservation\<rparr>)"

record run_text =
  tx_flat :: flat_text
  tx_plan :: plan_env
  tx_from_str :: "string \<Rightarrow> rat option"
  tx_hash :: "mandate_body \<Rightarrow> string"
  tx_attempt_key :: "int \<Rightarrow> string"
  tx_date :: "int \<Rightarrow> string"
  tx_halt_summary :: "recon_report \<Rightarrow> string"
  tx_store_error :: "run_store_error \<Rightarrow> string"

record ('p, 'w) run_context =
  cx_account_id :: string
  cx_scheduled_for :: int
  cx_trading_day :: int
  cx_mode :: execution_mode
  cx_sleeves :: "sleeve_spec list"
  cx_mandate :: "mandate_body option"
  cx_envelope :: "mandate_envelope option"
  cx_venue_rules :: venue_rule_book
  cx_config :: run_config
  cx_text :: run_text
  cx_rules :: "'p rules"
  cx_broker :: "'w broker"
  cx_environment :: venue_environment
  cx_source :: "('p, 'w) source"
  cx_prices :: "string list \<Rightarrow> int \<Rightarrow> 'w \<Rightarrow> (data_error + (string, price_point) btree_map) \<times> 'w"
  cx_load :: "string \<Rightarrow> 'w \<Rightarrow> (store_error + account_state option) \<times> 'w"
  cx_save :: "64 word \<Rightarrow> account_state \<Rightarrow> 'w \<Rightarrow> (store_error + account_state) \<times> 'w"
  cx_begin :: "run_key \<Rightarrow> int \<Rightarrow> int \<Rightarrow> int \<Rightarrow> 'w \<Rightarrow> (run_store_error + begin_outcome) \<times> 'w"
  cx_journal_order :: "run_key \<Rightarrow> journal_entry \<Rightarrow> 'w \<Rightarrow> (run_store_error + unit) \<times> 'w"
  cx_in_flight :: "string \<Rightarrow> 'w \<Rightarrow> (run_store_error + journal_entry list) \<times> 'w"
  cx_finish :: "run_record \<Rightarrow> 'w \<Rightarrow> (run_store_error + unit) \<times> 'w"
  cx_last_snapshot :: "string \<Rightarrow> 'w \<Rightarrow> (run_store_error + snapshot_summary option) \<times> 'w"
  cx_known_order_ids :: "string \<Rightarrow> 'w \<Rightarrow> (run_store_error + string btree_set) \<times> 'w"
  cx_day_counters :: "string \<Rightarrow> int \<Rightarrow> 'w \<Rightarrow> (run_store_error + day_counters) \<times> 'w"
  cx_last_acted_decision :: "string \<Rightarrow> string \<Rightarrow> 'w \<Rightarrow> (run_store_error + int option) \<times> 'w"
  cx_notify :: "alert \<Rightarrow> 'w \<Rightarrow> (string + unit) \<times> 'w"
  cx_kill_flag :: "'w \<Rightarrow> (string + bool) \<times> 'w"

text \<open>The \<open>Run\<close>; the tick's evaluation memo, shared by reference in the source, travels with it.\<close>

record ('p, 'w) run =
  rn_world :: 'w
  rn_cache :: "'p eval_cache option"
  rn_rec :: run_record
  rn_state :: account_state
  rn_snapshot :: "broker_snapshot option"
  rn_policy :: "policy option"
  rn_risk_policy :: "risk_policy option"
  rn_known_ids :: "string btree_set"
  rn_pre_baseline :: "recon_baseline option"
  rn_applied_ids :: "string btree_set"
  rn_pending :: "(nat \<times> evaluation) list"
  rn_carried :: bool
  rn_buys_paused :: "string option"
  rn_paused_tickets :: "string list"

datatype stop = Stop

type_synonym ('p, 'w, 'a) run_m = "(('p, 'w) run, 'a) state"
type_synonym ('p, 'w, 'a) run_s = "(('p, 'w) run, stop + 'a) state"

section \<open>Primitives\<close>

text \<open>A call outside, a read of the run, the \<open>?\<close> operator, and a change of the record.\<close>

definition call :: "('w \<Rightarrow> 'a \<times> 'w) \<Rightarrow> ('p, 'w, 'a) run_m" where
  "call f = State (\<lambda>s. let (x, w) = f (rn_world s) in (x, s\<lparr>rn_world := w\<rparr>))"

definition ask :: "(('p, 'w) run \<Rightarrow> 'a) \<Rightarrow> ('p, 'w, 'a) run_m" where
  "ask f = State (\<lambda>s. (f s, s))"

definition and_then :: "('s, 'e + 'a) state \<Rightarrow> ('a \<Rightarrow> ('s, 'e + 'b) state) \<Rightarrow> ('s, 'e + 'b) state" where
  "and_then m k = State_Monad.bind m (\<lambda>r. case r of Inl e \<Rightarrow> State_Monad.return (Inl e) | Inr x \<Rightarrow> k x)"

definition ok :: "'a \<Rightarrow> ('s, 'e + 'a) state" where
  "ok x = State_Monad.return (Inr x)"

definition edit :: "(run_record \<Rightarrow> run_record) \<Rightarrow> ('p, 'w, unit) run_m" where
  "edit f = change (\<lambda>s. s\<lparr>rn_rec := f (rn_rec s)\<rparr>)"

definition now :: "('p, 'w) run_context \<Rightarrow> ('p, 'w, int) run_m" where
  "now cx = call (bk_now (cx_broker cx))"

definition note_step :: "('p, 'w) run_context \<Rightarrow> string \<Rightarrow> ('p, 'w, unit) run_m" where
  "note_step cx name =
     do { t \<leftarrow> now cx;
          edit (\<lambda>r. r\<lparr>rr_steps := rr_steps r @ [\<lparr>sn_step = name, sn_at = t\<rparr>]\<rparr>) }"

definition raise_alert :: "('p, 'w) run_context \<Rightarrow> alert_code \<Rightarrow> alert_severity \<Rightarrow> string \<Rightarrow> ('p, 'w, unit) run_m" where
  "raise_alert cx c sev dedupe =
     do { k \<leftarrow> ask (\<lambda>s. rr_key (rn_rec s));
          t \<leftarrow> now cx;
          let a = \<lparr>al_code = c, al_severity = sev, al_account_id = cx_account_id cx, al_run_key = k,
                   al_dedupe_key = cx_account_id cx @ '':'' @ dedupe, al_at = t\<rparr>
          in do { d \<leftarrow> call (cx_notify cx a);
                  edit (\<lambda>r. (case d of
                     Inl e \<Rightarrow> r\<lparr>rr_alert_delivery_failures := rr_alert_delivery_failures r @ [alert_code_as_str c @ '': '' @ e]\<rparr>
                   | Inr _ \<Rightarrow> r)\<lparr>rr_alerts := rr_alerts r @ [a]\<rparr>) } }"

definition stop_run :: "outcome_kind \<Rightarrow> string \<Rightarrow> ('p, 'w, stop) run_m" where
  "stop_run kind c =
     do { _ \<leftarrow> edit (\<lambda>r. r\<lparr>rr_outcome := \<lparr>ro_kind = kind, ro_code = c\<rparr>\<rparr>);
          State_Monad.return Stop }"

definition err :: "('p, 'w, stop) run_m \<Rightarrow> ('p, 'w, 'a) run_s" where
  "err m = State_Monad.bind m (\<lambda>x. State_Monad.return (Inl x))"

definition fail_closed :: "('p, 'w) run_context \<Rightarrow> run_code \<Rightarrow> ('p, 'w, stop) run_m" where
  "fail_closed cx c =
     do { _ \<leftarrow> raise_alert cx AlRunFailed AvCritical (''failed:'' @ run_code_as_str c);
          stop_run OkFailedClosed (run_code_as_str c) }"

definition refuse :: "outcome_kind \<Rightarrow> string \<Rightarrow> ('p, 'w, 'a) run_s" where
  "refuse kind c = err (stop_run kind c)"

definition summarize :: "broker_snapshot \<Rightarrow> snapshot_summary" where
  "summarize s =
     (let b = baseline_from_snapshot s
      in \<lparr>su_taken_at = bs_taken_at s, su_equity = bs_equity s, su_cash = bs_cash s, su_derived_equity = bs_derived_equity s,
          su_holdings = rb_holdings b, su_marks = rb_marks b, su_open_order_ids = map or_broker_order_id (bs_open_orders s)\<rparr>)"

section \<open>Venue policy, kill flag and mandate\<close>

definition step_venue_policy :: "('p, 'w) run_context \<Rightarrow> ('p, 'w, unit) run_s" where
  "step_venue_policy cx =
     (if cf_venue_policy (cx_config cx) = Unrestricted then ok ()
      else if cx_environment cx = VePaper
      then do { _ \<leftarrow> note_step cx ''venue_policy''; ok () }
      else do { _ \<leftarrow> note_step cx ''venue_policy''; err (fail_closed cx RcVenueNotPaper) })"

definition step_kill_flag :: "('p, 'w) run_context \<Rightarrow> ('p, 'w, unit) run_s" where
  "step_kill_flag cx =
     do { k \<leftarrow> call (cx_kill_flag cx);
          case k of
            Inr False \<Rightarrow> do { _ \<leftarrow> note_step cx ''kill_flag''; ok () }
          | Inr True \<Rightarrow> do { _ \<leftarrow> note_step cx ''kill_flag''; refuse OkRefused (run_code_as_str RcKillFlagSet) }
          | Inl e \<Rightarrow> do { _ \<leftarrow> note_step cx ''kill_flag''; err (fail_closed cx RcKillFlagUnreadable) } }"

text \<open>The policy of the run, before its standing is judged.\<close>

definition mandate_policy :: "('p, 'w) run_context \<Rightarrow> mandate_body \<Rightarrow> policy" where
  "mandate_policy cx body =
     (let cfg = cx_config cx;
          p0 = with_max_price_age_secs (cf_max_price_age_secs cfg) (compile_policy (tx_from_str (cx_text cx)) (tx_hash (cx_text cx)) body);
          p1 = (case cx_envelope cx of Some env \<Rightarrow> with_envelope env p0 | None \<Rightarrow> p0)
      in case cf_deployment cfg of Some dep \<Rightarrow> with_deployment dep p1 | None \<Rightarrow> p1)"

definition rehearsal_allowed :: "('p, 'w) run_context \<Rightarrow> bool" where
  "rehearsal_allowed cx \<longleftrightarrow> cx_mode cx \<noteq> Live \<and>
     (case cx_envelope cx of Some e \<Rightarrow> env_status e = MsDraft | None \<Rightarrow> False)"

definition set_standing :: "('p, 'w) run_context \<Rightarrow> string \<Rightarrow> ('p, 'w, unit) run_m" where
  "set_standing cx text =
     do { _ \<leftarrow> edit (\<lambda>r. r\<lparr>rr_mandate_standing := text\<rparr>);
          note_step cx ''mandate'' }"

definition mandate_accepted :: "('p, 'w) run_context \<Rightarrow> mandate_body \<Rightarrow> policy \<Rightarrow> ('p, 'w, unit) run_s" where
  "mandate_accepted cx body p =
     (case from_mandate_with_recovery (tx_from_str (cx_text cx)) body (cf_recovery_fraction (cx_config cx)) of
        Inl e \<Rightarrow> err (fail_closed cx RcRiskPolicyInvalid)
      | Inr rp \<Rightarrow> do { _ \<leftarrow> change (\<lambda>s. s\<lparr>rn_risk_policy := Some rp, rn_policy := Some p\<rparr>); ok () })"

definition step_mandate :: "('p, 'w) run_context \<Rightarrow> ('p, 'w, unit) run_s" where
  "step_mandate cx =
     (case cx_mandate cx of
        None \<Rightarrow>
          do { _ \<leftarrow> note_step cx ''mandate'';
               _ \<leftarrow> raise_alert cx AlMandateUnusable AvWarning ''mandate'';
               refuse OkRefused (run_code_as_str RcNoActiveMandate) }
      | Some body \<Rightarrow>
          do { _ \<leftarrow> edit (\<lambda>r. r\<lparr>rr_mandate_hash := tx_hash (cx_text cx) body,
                 rr_mandate_version := map_option env_version (cx_envelope cx),
                 rr_deployment_digest := map_option deployment_digest (cf_deployment (cx_config cx))\<rparr>);
               t \<leftarrow> now cx;
               let p = mandate_policy cx body
               in case policy_standing p t of
                    StInvalid \<Rightarrow>
                      do { _ \<leftarrow> set_standing cx ''invalid'';
                           _ \<leftarrow> raise_alert cx AlMandateUnusable AvCritical ''mandate'';
                           refuse OkRefused (run_code_as_str RcMandateInvalid) }
                  | StNotActive \<Rightarrow>
                      if \<not> rehearsal_allowed cx
                      then do { _ \<leftarrow> set_standing cx ''not active'';
                                _ \<leftarrow> raise_alert cx AlMandateUnusable AvWarning ''mandate'';
                                refuse OkRefused (run_code_as_str RcMandateNotActive) }
                      else do { _ \<leftarrow> set_standing cx ''draft (rehearsal)'';
                                mandate_accepted cx body (case cx_envelope cx of
                                  Some env \<Rightarrow> with_envelope (env\<lparr>env_status := MsActive\<rparr>) p | None \<Rightarrow> p) }
                  | StExpired \<Rightarrow> do { _ \<leftarrow> set_standing cx ''expired''; mandate_accepted cx body p }
                  | StActive \<Rightarrow> do { _ \<leftarrow> set_standing cx ''active''; mandate_accepted cx body p } })"

section \<open>The account and its state\<close>

definition read_snapshot :: "('p, 'w) run_context \<Rightarrow> string \<Rightarrow> ('p, 'w, broker_snapshot) run_s" where
  "read_snapshot cx name =
     do { t \<leftarrow> now cx;
          r \<leftarrow> call (bk_snapshot (cx_broker cx) t);
          case r of
            Inr s \<Rightarrow> ok s
          | Inl e \<Rightarrow> do { _ \<leftarrow> note_step cx name; err (fail_closed cx RcBrokerUnreachable) } }"

definition save_state :: "('p, 'w) run_context \<Rightarrow> account_state \<Rightarrow> ('p, 'w, unit) run_s" where
  "save_state cx nxt =
     do { st \<leftarrow> ask rn_state;
          if nxt = st then ok ()
          else do { r \<leftarrow> call (cx_save cx (ac_version st) nxt);
                    case r of
                      Inr saved \<Rightarrow> do { _ \<leftarrow> change (\<lambda>s. s\<lparr>rn_state := saved\<rparr>); ok () }
                    | Inl e \<Rightarrow> err (fail_closed cx RcStateStoreError) } }"

definition push_transition :: "transition option \<Rightarrow> ('p, 'w, unit) run_m" where
  "push_transition tr = edit (\<lambda>r. r\<lparr>rr_transitions := rr_transitions r @ opt_list tr\<rparr>)"

definition step_read_account :: "('p, 'w) run_context \<Rightarrow> ('p, 'w, unit) run_s" where
  "step_read_account cx =
     and_then (read_snapshot cx ''read_account'') (\<lambda>snap.
     do { _ \<leftarrow> edit (\<lambda>r. r\<lparr>rr_pre_snapshot := Some (summarize snap)\<rparr>);
          _ \<leftarrow> note_step cx ''read_account'';
          _ \<leftarrow> change (\<lambda>s. s\<lparr>rn_snapshot := Some snap\<rparr>);
          l \<leftarrow> call (cx_load cx (cx_account_id cx));
          case l of
            Inl e \<Rightarrow> err (fail_closed cx RcStateStoreError)
          | Inr st \<Rightarrow>
              do { _ \<leftarrow> change (\<lambda>s. s\<lparr>rn_state := (case st of Some x \<Rightarrow> x | None \<Rightarrow> account_new (cx_account_id cx))\<rparr>);
                   status \<leftarrow> ask (\<lambda>s. ac_status (rn_state s));
                   _ \<leftarrow> edit (\<lambda>r. r\<lparr>rr_state_before := Some status\<rparr>);
                   k \<leftarrow> call (cx_known_order_ids cx (cx_account_id cx));
                   case k of
                     Inr ids \<Rightarrow> do { _ \<leftarrow> change (\<lambda>s. s\<lparr>rn_known_ids := ids\<rparr>); ok () }
                   | Inl e \<Rightarrow> err (fail_closed cx RcStoreUnavailable) } })"

definition add_known :: "string list \<Rightarrow> ('p, 'w, unit) run_m" where
  "add_known ids = change (\<lambda>s. s\<lparr>rn_known_ids := foldl (\<lambda>m i. bts_insert i m) (rn_known_ids s) ids\<rparr>)"

text \<open>Run the flatten of the halt in force. A failed save has raised its alert and ends the step.\<close>

definition flatten_spec_of :: "('p, 'w) run_context \<Rightarrow> ('p, 'w) run \<Rightarrow> halt_record \<Rightarrow> flatten_spec" where
  "flatten_spec_of cx s h =
     (let cfg = cx_config cx;
          uni = (case Option.bind (rn_policy s) policy_limits of Some l \<Rightarrow> l_instrument_allow l | None \<Rightarrow> [])
      in (flatten_spec_new (cx_account_id cx) (tx_attempt_key (cx_text cx) (hr_at h)) uni (cx_venue_rules cx) (rn_known_ids s))
           \<lparr>fs_max_rounds := cf_flatten_max_rounds cfg, fs_max_polls := cf_max_polls cfg, fs_poll_secs := cf_poll_secs cfg\<rparr>)"

definition finish_flatten :: "('p, 'w) run_context \<Rightarrow> ('p, 'w, unit) run_m" where
  "finish_flatten cx =
     do { h \<leftarrow> ask (\<lambda>s. ac_halt (rn_state s));
          case h of
            None \<Rightarrow> State_Monad.return ()
          | Some hr \<Rightarrow>
              do { spec \<leftarrow> ask (\<lambda>s. flatten_spec_of cx s hr);
                   report \<leftarrow> call (flatten (tx_flat (cx_text cx)) (cx_broker cx) spec);
                   _ \<leftarrow> note_step cx ''flatten'';
                   _ \<leftarrow> add_known (List.map_filter fo_broker_order_id (fr_orders report));
                   _ \<leftarrow> edit (\<lambda>r. r\<lparr>rr_flatten := Some report\<rparr>);
                   let verified = (fr_verdict report \<noteq> FvHaltAndAlert)
                   in do { (nxt, tr) \<leftarrow> ask (\<lambda>s. complete_flatten (rn_state s) verified);
                           _ \<leftarrow> push_transition tr;
                           sv \<leftarrow> save_state cx nxt;
                           case sv of
                             Inl _ \<Rightarrow> State_Monad.return ()
                           | Inr _ \<Rightarrow> if verified then State_Monad.return ()
                                     else raise_alert cx AlFlattenIncomplete AvCritical ''flatten'' } } }"

definition step_halted_check :: "('p, 'w) run_context \<Rightarrow> ('p, 'w, unit) run_s" where
  "step_halted_check cx =
     do { status \<leftarrow> ask (\<lambda>s. ac_status (rn_state s));
          case status of
            AsHalted \<Rightarrow>
              do { _ \<leftarrow> note_step cx ''halted_check'';
                   _ \<leftarrow> raise_alert cx AlStillHalted AvWarning ''halted'';
                   refuse OkRefused (run_code_as_str RcAccountHalted) }
          | AsFlattening \<Rightarrow>
              do { _ \<leftarrow> note_step cx ''halted_check'';
                   if cx_mode cx = Live
                   then do { _ \<leftarrow> finish_flatten cx;
                             h \<leftarrow> ask (\<lambda>s. ac_halt (rn_state s));
                             refuse OkHalted (halt_reason_code (case h of None \<Rightarrow> HrManual | Some x \<Rightarrow> hr_reason x)) }
                   else do { _ \<leftarrow> raise_alert cx AlStillHalted AvWarning ''halted'';
                             refuse OkRefused (run_code_as_str RcAccountHalted) } }
          | _ \<Rightarrow> ok () }"

section \<open>Clean-up and reconciliation before trading\<close>

definition step_cleanup :: "('p, 'w) run_context \<Rightarrow> ('p, 'w, unit) run_s" where
  "step_cleanup cx =
     (if cx_mode cx \<noteq> Live then do { _ \<leftarrow> note_step cx ''cleanup''; ok () }
      else
        do { has_own \<leftarrow> ask (\<lambda>s. case rn_snapshot s of None \<Rightarrow> False
               | Some v \<Rightarrow> list_ex (\<lambda>r. is_own_order r (rn_known_ids s)) (bs_open_orders v));
             if \<not> has_own then do { _ \<leftarrow> note_step cx ''cleanup''; ok () }
             else
               do { known \<leftarrow> ask rn_known_ids;
                    (cancels, failures, _) \<leftarrow> call (cancel_own_open_orders (tx_flat (cx_text cx)) (cx_broker cx) known
                       (cf_max_polls (cx_config cx)) (cf_poll_secs (cx_config cx)));
                    _ \<leftarrow> edit (\<lambda>r. r\<lparr>rr_cleanup := cancels\<rparr>);
                    _ \<leftarrow> note_step cx ''cleanup'';
                    if list_ex (\<lambda>f. is_blocking (ff_code f) \<or> ff_code f = FcReadFailed) failures
                    then err (fail_closed cx RcCleanupFailed)
                    else and_then (read_snapshot cx ''cleanup'') (\<lambda>snap.
                         do { _ \<leftarrow> edit (\<lambda>r. r\<lparr>rr_pre_snapshot := Some (summarize snap)\<rparr>);
                              _ \<leftarrow> change (\<lambda>s. s\<lparr>rn_snapshot := Some snap\<rparr>);
                              ok () }) } })"

text \<open>The orders of crashed attempts, read back from the broker by tag.\<close>

definition in_flight_order :: "journal_entry \<Rightarrow> order_report list \<Rightarrow> expected_order" where
  "in_flight_order e reports =
     (let (symbol, sd, planned) = (case reports of
            [] \<Rightarrow> ([], Buy, dec_ZERO)
          | r # _ \<Rightarrow> (or_symbol r, case or_side r of Some x \<Rightarrow> x | None \<Rightarrow> Buy, or_quantity r))
      in \<lparr>eo_tag = je_tag e, eo_symbol = symbol, eo_side = sd, eo_planned_quantity = planned,
          eo_broker_order_id = opt_or (je_broker_order_id e) (case reports of [] \<Rightarrow> None | r # _ \<Rightarrow> Some (or_broker_order_id r)),
          eo_reports = reports, eo_anomalies = [], eo_expect_exists = True\<rparr>)"

fun look_up_entries :: "('p, 'w) run_context \<Rightarrow> journal_entry list \<Rightarrow> ('p, 'w, expected_order list) run_s" where
  "look_up_entries cx [] = ok []"
| "look_up_entries cx (e # es) =
     do { r \<leftarrow> call (bk_find_by_tag (cx_broker cx) (je_tag e));
          case r of
            Inl x \<Rightarrow> err (fail_closed cx RcBrokerUnreachable)
          | Inr reports \<Rightarrow>
              do { _ \<leftarrow> add_known (opt_list (je_broker_order_id e) @ map or_broker_order_id reports);
                   and_then (look_up_entries cx es) (\<lambda>rest. ok (in_flight_order e reports # rest)) } }"

definition in_flight_orders :: "('p, 'w) run_context \<Rightarrow> ('p, 'w, expected_order list) run_s" where
  "in_flight_orders cx =
     do { r \<leftarrow> call (cx_in_flight cx (cx_account_id cx));
          case r of
            Inl e \<Rightarrow> err (fail_closed cx RcStoreUnavailable)
          | Inr entries \<Rightarrow> look_up_entries cx entries }"

definition downgrade_for_mode :: "execution_mode \<Rightarrow> recon_report \<Rightarrow> recon_report" where
  "downgrade_for_mode m report =
     (if m = Assisted
      then let fs = map (\<lambda>f. if rf_code f \<in> {ForeignOrder, PositionDrift, BalanceDrift} then f\<lparr>rf_severity := SevInfo\<rparr> else f)
                 (rr_findings report)
           in report\<lparr>rr_findings := fs,
                rr_verdict := (if list_ex (\<lambda>f. rf_severity f = SevHalt) fs then ReconHaltAndAlert else ReconOk)\<rparr>
      else report)"

text \<open>Halt without flatten.\<close>

definition halt_reconciliation :: "('p, 'w) run_context \<Rightarrow> string \<Rightarrow> ('p, 'w, stop) run_m" where
  "halt_reconciliation cx detail =
     do { t \<leftarrow> now cx;
          (nxt, tr) \<leftarrow> ask (\<lambda>s. halt (rn_state s) HrReconciliation detail t);
          _ \<leftarrow> push_transition tr;
          sv \<leftarrow> save_state cx nxt;
          case sv of
            Inl st \<Rightarrow> State_Monad.return st
          | Inr _ \<Rightarrow> do { _ \<leftarrow> raise_alert cx AlHalt AvCritical ''halt'';
                         stop_run OkHalted (halt_reason_code HrReconciliation) } }"

text \<open>The recorded reconciliation of a stage; the run halts on its verdict.\<close>

definition judge_recon :: "('p, 'w) run_context \<Rightarrow> string \<Rightarrow> recon_report \<Rightarrow> ('p, 'w, unit) run_s" where
  "judge_recon cx stage report =
     do { _ \<leftarrow> note_step cx (''reconcile_'' @ stage);
          _ \<leftarrow> edit (\<lambda>r. r\<lparr>rr_recon := rr_recon r @ [\<lparr>sr_stage = stage, sr_report = report\<rparr>]\<rparr>);
          if rr_verdict report = ReconHaltAndAlert
          then err (halt_reconciliation cx (tx_halt_summary (cx_text cx) report))
          else ok () }"

definition report_ids :: "expected_order list \<Rightarrow> string list" where
  "report_ids es = concat (map (\<lambda>e. map or_broker_order_id (eo_reports e)) es)"

definition get_or_stop :: "(('p, 'w) run \<Rightarrow> 'a option) \<Rightarrow> ('p, 'w, 'a) run_s" where
  "get_or_stop f = do { x \<leftarrow> ask f; case x of None \<Rightarrow> State_Monad.return (Inl Stop) | Some y \<Rightarrow> ok y }"

definition step_recon_pre :: "('p, 'w) run_context \<Rightarrow> ('p, 'w, unit) run_s" where
  "step_recon_pre cx =
     do { l \<leftarrow> call (cx_last_snapshot cx (cx_account_id cx));
          case l of
            Inl e \<Rightarrow> err (fail_closed cx RcStoreUnavailable)
          | Inr lst \<Rightarrow>
              and_then (in_flight_orders cx) (\<lambda>in_flight.
              do { _ \<leftarrow> change (\<lambda>s. s\<lparr>rn_applied_ids := foldl (\<lambda>m i. bts_insert i m) (rn_applied_ids s) (report_ids in_flight)\<rparr>);
                   case (case lst of None \<Rightarrow> Some None
                         | Some s \<Rightarrow> map_option Some (after_orders (summary_baseline s) in_flight)) of
                     None \<Rightarrow> err (halt_reconciliation cx ''the fills of an earlier attempt could not be applied to the baseline'')
                   | Some baseline \<Rightarrow>
                       and_then (get_or_stop rn_snapshot) (\<lambda>snap.
                       do { t \<leftarrow> now cx;
                            known \<leftarrow> ask rn_known_ids;
                            let report = downgrade_for_mode (cx_mode cx)
                                  (reconcile \<lparr>ri_view = snap, ri_now = t, ri_known_order_ids = known, ri_baseline = baseline,
                                     ri_orders = in_flight, ri_tolerances = cf_tolerances (cx_config cx)\<rparr>)
                            in and_then (judge_recon cx ''pre'' report) (\<lambda>_.
                               do { _ \<leftarrow> change (\<lambda>s. s\<lparr>rn_pre_baseline := Some (case baseline of
                                      Some b \<Rightarrow> b | None \<Rightarrow> baseline_from_snapshot snap)\<rparr>);
                                    ok () }) }) }) }"

section \<open>Risk\<close>

definition day_start_missing_message :: "run_text \<Rightarrow> int \<Rightarrow> int \<Rightarrow> int option \<Rightarrow> string" where
  "day_start_missing_message tx day max_lag_secs first_at =
     (let first = (case first_at of None \<Rightarrow> []
            | Some t \<Rightarrow> '' (the first reading of the day was at '' @ pe_rfc3339 (tx_plan tx) t @ '')'')
      in DAY_START_MISSING @ '': no reading of '' @ tx_date tx day @ '' was taken within '' @ show_int max_lag_secs
         @ ''s of 00:00 UTC'' @ first @ '', so the day has no 00:00 UTC value: the one-day loss limit cannot fire today and new buys are paused until the next anchored day; sells and the drawdown ladder still apply'')"

text \<open>Pause new buys on a day without a 00:00 UTC reading; the run that found it alerts.\<close>

definition pause_buys :: "('p, 'w) run_context \<Rightarrow> broker_snapshot \<Rightarrow> int option \<Rightarrow> ('p, 'w, unit) run_m" where
  "pause_buys cx snap prior_day =
     (case cf_day_start (cx_config cx) of
        FirstObservation \<Rightarrow> State_Monad.return ()
      | UtcMidnight max_lag_secs \<Rightarrow>
          let day = date_naive (bs_taken_at snap)
          in do { missing \<leftarrow> ask (\<lambda>s. day_start_missing (rn_state s) day);
                  if \<not> missing then State_Monad.return ()
                  else
                    let first_at = (if prior_day \<noteq> Some day then Some (bs_taken_at snap) else None)
                    in do { _ \<leftarrow> note_step cx ''risk'';
                            _ \<leftarrow> (if first_at \<noteq> None
                                  then raise_alert cx AlRunFailed AvWarning (''day_start_missing:'' @ tx_date (cx_text cx) day)
                                  else State_Monad.return ());
                            change (\<lambda>s. s\<lparr>rn_buys_paused := Some (day_start_missing_message (cx_text cx) day max_lag_secs first_at)\<rparr>) } })"

definition step_risk :: "('p, 'w) run_context \<Rightarrow> ('p, 'w, unit) run_s" where
  "step_risk cx =
     and_then (get_or_stop rn_snapshot) (\<lambda>snap.
     and_then (get_or_stop rn_risk_policy) (\<lambda>rp.
     do { prior_day \<leftarrow> ask (\<lambda>s. ac_trading_day (rn_state s));
          (nxt, decision, tr) \<leftarrow> ask (\<lambda>s. step_with (rn_state s) (snap_equity snap) (cx_trading_day cx) rp (cf_day_start (cx_config cx)));
          _ \<leftarrow> note_step cx ''risk'';
          _ \<leftarrow> edit (\<lambda>r. r\<lparr>rr_risk := Some decision\<rparr>);
          _ \<leftarrow> push_transition tr;
          and_then (save_state cx nxt) (\<lambda>_.
          if rd_action decision \<noteq> ActHaltFlatten then do { _ \<leftarrow> pause_buys cx snap prior_day; ok () }
          else
            let reason = (case rd_halt_reason decision of Some r \<Rightarrow> r | None \<Rightarrow> HrEquityInvalid)
            in do { _ \<leftarrow> raise_alert cx AlHalt AvCritical ''halt'';
                    and_then (if cx_mode cx = Live then do { _ \<leftarrow> finish_flatten cx; ok () }
                              else do { (halted, tr2) \<leftarrow> ask (\<lambda>s. complete_flatten (rn_state s) True);
                                        _ \<leftarrow> push_transition tr2;
                                        and_then (save_state cx halted) (\<lambda>_.
                                        do { _ \<leftarrow> raise_alert cx AlFlattenIncomplete AvCritical ''flatten''; ok () }) })
                      (\<lambda>_. refuse OkHalted (halt_reason_code reason)) }) }))"

section \<open>Decisions and targets\<close>

definition eval_sleeve :: "('p, 'w) run_context \<Rightarrow> sleeve_spec \<Rightarrow> ('p, 'w, eval_error + evaluation) run_m" where
  "eval_sleeve cx sl = State (\<lambda>s.
     let (r, c, w) = evaluate (cx_rules cx) (cx_source cx) sl (date_naive (cx_scheduled_for cx)) (rn_cache s) (rn_world s)
     in (r, s\<lparr>rn_cache := c, rn_world := w\<rparr>))"

definition last_acted :: "('p, 'w) run_context \<Rightarrow> sleeve_spec \<Rightarrow> ('p, 'w, int option) run_s" where
  "last_acted cx sl =
     (case kind_cadence (ss_kind sl) of
        CadDaily \<Rightarrow> ok None
      | CadOnDecision \<Rightarrow>
          do { r \<leftarrow> call (cx_last_acted_decision cx (cx_account_id cx) (ss_id sl));
               case r of
                 Inr v \<Rightarrow> ok v
               | Inl RsLedgerUnavailable \<Rightarrow> do { _ \<leftarrow> note_step cx ''decisions''; err (fail_closed cx RcDecisionLedgerUnavailable) }
               | Inl _ \<Rightarrow> err (fail_closed cx RcStoreUnavailable) })"

definition decision_is_new :: "sleeve_spec \<Rightarrow> evaluation \<Rightarrow> int option \<Rightarrow> bool" where
  "decision_is_new sl e acted =
     (case kind_cadence (ss_kind sl) of
        CadDaily \<Rightarrow> True
      | CadOnDecision \<Rightarrow> (case acted of None \<Rightarrow> True | Some d \<Rightarrow> ev_decision_date e > d))"

definition tranche_elapsed :: "sleeve_spec \<Rightarrow> evaluation \<Rightarrow> bool" where
  "tranche_elapsed sl e \<longleftrightarrow> kind_cadence (ss_kind sl) = CadDaily \<or> sessions_past_action e \<ge> ss_tranche_sessions sl"

definition gate_where :: "run_text \<Rightarrow> gate_reason \<Rightarrow> string" where
  "gate_where tx r =
     (case (gr_symbol r, gr_date r) of
        (Some y, Some d) \<Rightarrow> y @ ''@'' @ tx_date tx d
      | (Some y, None) \<Rightarrow> y
      | (None, Some d) \<Rightarrow> ''@'' @ tx_date tx d
      | (None, None) \<Rightarrow> ''sleeve'')"

definition alert_gate :: "('p, 'w) run_context \<Rightarrow> sleeve_spec \<Rightarrow> evaluation \<Rightarrow> ('p, 'w, unit) run_m" where
  "alert_gate cx sl e =
     (case ev_data_gate e of
        None \<Rightarrow> State_Monad.return ()
      | Some gate \<Rightarrow>
          do { _ \<leftarrow> note_step cx ''decisions'';
               for_each (\<lambda>r. raise_alert cx AlDataGateShadowRefuse AvWarning
                 (''data_gate_shadow_refuse:'' @ ss_id sl @ '':'' @ gate_where (cx_text cx) r)) (refusals gate) })"

definition decision_of :: "sleeve_spec \<Rightarrow> evaluation \<Rightarrow> int option \<Rightarrow> sleeve_decision" where
  "decision_of sl e acted =
     \<lparr>sd_sleeve = ss_id sl, sd_kind = ss_kind sl, sd_cadence = kind_cadence (ss_kind sl),
      sd_decision_date = ev_decision_date e, sd_computable_decision_date = ev_decision_date e,
      sd_newest_bar_date = ev_newest_bar_date e, sd_lag_sessions = ev_lag_sessions e, sd_last_acted_decision = acted,
      sd_pending = decision_is_new sl e acted \<and> tranche_elapsed sl e,
      sd_entry = (kind_cadence (ss_kind sl) = CadOnDecision \<and> acted = None),
      sd_planned = False, sd_acted = False, sd_instruments = ev_instruments e, sd_data_gate = ev_data_gate e\<rparr>"

definition decide_sleeve :: "('p, 'w) run_context \<Rightarrow> nat \<times> sleeve_spec \<Rightarrow> ('p, 'w, unit) run_s" where
  "decide_sleeve cx = (\<lambda>(idx, sl).
     do { r \<leftarrow> eval_sleeve cx sl;
          case r of
            Inl (EvalData e) \<Rightarrow> do { _ \<leftarrow> note_step cx ''decisions''; err (fail_closed cx RcDataError) }
          | Inl (EvalRule e) \<Rightarrow> do { _ \<leftarrow> note_step cx ''decisions''; err (fail_closed cx RcRuleError) }
          | Inr e \<Rightarrow>
              do { _ \<leftarrow> edit (\<lambda>r. r\<lparr>rr_data_fingerprints := rr_data_fingerprints r @ [(ss_id sl, ev_fingerprint e)]\<rparr>);
                   and_then (last_acted cx sl) (\<lambda>acted.
                   do { _ \<leftarrow> (if decision_is_new sl e acted \<and> \<not> tranche_elapsed sl e then note_step cx ''decisions''
                              else State_Monad.return ());
                        _ \<leftarrow> alert_gate cx sl e;
                        _ \<leftarrow> edit (\<lambda>r. r\<lparr>rr_decisions := rr_decisions r @ [decision_of sl e acted]\<rparr>);
                        _ \<leftarrow> (if sd_pending (decision_of sl e acted)
                              then change (\<lambda>s. s\<lparr>rn_pending := rn_pending s @ [(idx, e)]\<rparr>)
                              else State_Monad.return ());
                        ok () }) } })"

fun try_each :: "('a \<Rightarrow> ('s, 'e + unit) state) \<Rightarrow> 'a list \<Rightarrow> ('s, 'e + unit) state" where
  "try_each f [] = ok ()"
| "try_each f (x # xs) = and_then (f x) (\<lambda>_. try_each f xs)"

text \<open>With nothing pending, an account in good standing ends the run here without a read of the broker.\<close>

definition nothing_pending :: "('p, 'w) run_context \<Rightarrow> ('p, 'w, unit) run_s" where
  "nothing_pending cx =
     do { l \<leftarrow> call (cx_load cx (cx_account_id cx));
          own \<leftarrow> ask rn_state;
          case (case l of Inr None \<Rightarrow> Some own
                | Inr (Some st) \<Rightarrow> if may_add_risk (ac_status st) then Some st else None
                | Inl _ \<Rightarrow> None) of
            None \<Rightarrow> do { _ \<leftarrow> note_step cx ''decisions''; ok () }
          | Some st \<Rightarrow>
              do { _ \<leftarrow> change (\<lambda>s. s\<lparr>rn_state := st\<rparr>);
                   _ \<leftarrow> edit (\<lambda>r. r\<lparr>rr_state_before := Some (ac_status st)\<rparr>);
                   _ \<leftarrow> note_step cx ''decisions'';
                   refuse OkCompleted (run_code_as_str RcNothingPending) } }"

definition step_decisions :: "('p, 'w) run_context \<Rightarrow> ('p, 'w, unit) run_s" where
  "step_decisions cx =
     and_then (try_each (decide_sleeve cx) (List.enumerate 0 (cx_sleeves cx))) (\<lambda>_.
     do { pending \<leftarrow> ask rn_pending;
          if cx_sleeves cx = [] \<or> pending \<noteq> [] then do { _ \<leftarrow> note_step cx ''decisions''; ok () }
          else nothing_pending cx })"

definition target_summary_of :: "sleeve_spec \<Rightarrow> evaluation \<Rightarrow> sleeve_target \<Rightarrow> target_summary" where
  "target_summary_of sl e t =
     \<lparr>ts_sleeve = ss_id sl, ts_decision_date = ev_decision_date e, ts_data_fingerprint = ev_fingerprint e,
      ts_weights = map (\<lambda>w. (tw_symbol w, tw_weight w)) (st_weights t)\<rparr>"

fun build_targets :: "('p, 'w) run_context \<Rightarrow> (nat \<times> evaluation) list \<Rightarrow> ('p, 'w, sleeve_target list) run_s" where
  "build_targets cx [] = ok []"
| "build_targets cx ((idx, e) # ps) =
     (let sl = cx_sleeves cx ! idx
      in case evaluation_target (ru_floor_weight (cx_rules cx)) e sl of
           Inl x \<Rightarrow> err (fail_closed cx RcRuleError)
         | Inr t \<Rightarrow>
             do { _ \<leftarrow> edit (\<lambda>r. r\<lparr>rr_targets := rr_targets r @ [target_summary_of sl e t],
                    rr_decisions := (rr_decisions r)[idx := (rr_decisions r ! idx)\<lparr>sd_planned := True\<rparr>]\<rparr>);
                  and_then (build_targets cx ps) (\<lambda>ts. ok (t # ts)) })"

definition step_targets :: "('p, 'w) run_context \<Rightarrow> ('p, 'w, sleeve_target list) run_s" where
  "step_targets cx =
     do { pending \<leftarrow> ask rn_pending;
          and_then (build_targets cx pending) (\<lambda>targets.
          do { _ \<leftarrow> note_step cx ''targets''; ok targets }) }"

section \<open>Planning\<close>

definition price_symbols :: "sleeve_target list \<Rightarrow> broker_snapshot \<Rightarrow> string list" where
  "price_symbols targets snap =
     bts_of_list (concat (map (\<lambda>t. map (\<lambda>w. to_upper (tw_symbol w)) (st_weights t)) targets)
       @ map (\<lambda>h. to_upper (hd_symbol h)) (bs_holdings snap))"

definition prices_for :: "('p, 'w) run_context \<Rightarrow> sleeve_target list \<Rightarrow> broker_snapshot \<Rightarrow> ('p, 'w, (string, price_point) btree_map) run_s" where
  "prices_for cx targets snap =
     do { t \<leftarrow> now cx;
          r \<leftarrow> call (cx_prices cx (price_symbols targets snap) t);
          case r of Inr p \<Rightarrow> ok p | Inl e \<Rightarrow> err (fail_closed cx RcDataError) }"

definition plan_config_of :: "('p, 'w) run_context \<Rightarrow> dec \<Rightarrow> day_counters \<Rightarrow> bool \<Rightarrow> plan_config" where
  "plan_config_of cx scale day credit_sells =
     (let cfg = cx_config cx
      in (plan_config_new (cx_scheduled_for cx) scale (cf_min_trade_abs cfg) (cf_min_trade_pct cfg) (cf_fee_rate cfg))
           \<lparr>pc_credit_sell_proceeds := credit_sells, pc_day := day\<rparr>)"

definition plan_with :: "('p, 'w) run_context \<Rightarrow> sleeve_target list \<Rightarrow> broker_snapshot \<Rightarrow> day_counters \<Rightarrow> bool \<Rightarrow> ('p, 'w, order_plan) run_s" where
  "plan_with cx targets snap day credit_sells =
     and_then (prices_for cx targets snap) (\<lambda>prices.
     and_then (get_or_stop rn_policy) (\<lambda>p.
     do { st \<leftarrow> ask rn_state;
          t \<leftarrow> now cx;
          case make_plan (tx_plan (cx_text cx)) targets (snap_account_view snap (cx_account_id cx) (is_halt (ac_status st)) t)
                 prices (cx_venue_rules cx) p (plan_config_of cx (risk_scale st) day credit_sells) of
            Inr pl \<Rightarrow> ok pl
          | Inl e \<Rightarrow> err (fail_closed cx RcPlanError) }))"

definition summarize_plan :: "order_plan \<Rightarrow> plan_summary" where
  "summarize_plan pl =
     \<lparr>ps_inputs_digest = op_inputs_digest pl, ps_equity = op_equity pl, ps_capital_base = op_capital_base pl,
      ps_risk_scale = op_risk_scale pl, ps_plan_orders = op_orders pl,
      ps_plan_denied = map (\<lambda>d. \<lparr>ds_order = dn_order d, ds_codes = dn_reasons d\<rparr>) (op_denied pl),
      ps_skipped = op_skipped pl, ps_lines = op_lines pl\<rparr>"

definition day_counters_of :: "('p, 'w) run_context \<Rightarrow> ('p, 'w, day_counters) run_s" where
  "day_counters_of cx =
     do { r \<leftarrow> call (cx_day_counters cx (cx_account_id cx) (cx_trading_day cx));
          case r of Inr c \<Rightarrow> ok c | Inl e \<Rightarrow> err (fail_closed cx RcStoreUnavailable) }"

definition step_plan :: "('p, 'w) run_context \<Rightarrow> sleeve_target list \<Rightarrow> ('p, 'w, order_plan) run_s" where
  "step_plan cx targets =
     and_then (get_or_stop rn_snapshot) (\<lambda>snap.
     and_then (day_counters_of cx) (\<lambda>day.
     and_then (plan_with cx targets snap day True) (\<lambda>pl.
     do { _ \<leftarrow> edit (\<lambda>r. r\<lparr>rr_plan := Some (summarize_plan pl)\<rparr>);
          _ \<leftarrow> note_step cx ''plan'';
          ok pl })))"

section \<open>Execution\<close>

text \<open>Never a buy that covers a short the account holds.\<close>

definition buy_is_paused :: "('p, 'w) run \<Rightarrow> planned_order \<Rightarrow> bool" where
  "buy_is_paused s o_rd =
     (if rn_buys_paused s = None \<or> pl_side o_rd \<noteq> Buy then False
      else \<not> (case Option.bind (rn_snapshot s) (\<lambda>v. snap_holding v (pl_symbol o_rd)) of
                None \<Rightarrow> False | Some h \<Rightarrow> is_negative (hd_quantity h)))"

definition finalize_outcome :: "order_report \<Rightarrow> placed_outcome" where
  "finalize_outcome r =
     (if or_status r = Filled then PoFilled
      else if is_positive (or_executed_quantity r) \<and> is_terminal (or_status r) then PoPartiallyFilled
      else if is_terminal (or_status r) then PoNothingExecuted
      else PoUnsettled)"

definition finalize :: "placed_order \<Rightarrow> order_report \<Rightarrow> placed_order" where
  "finalize p r =
     p\<lparr>pd_status := Some (or_status r), pd_executed_quantity := or_executed_quantity r,
       pd_outcome := (if pd_outcome p = PoAdoptedExisting then PoAdoptedExisting else finalize_outcome r),
       pd_reports := pd_reports p @ [r]\<rparr>"

definition add_anomaly :: "string \<Rightarrow> placed_order \<Rightarrow> placed_order" where
  "add_anomaly t p = p\<lparr>pd_anomalies := pd_anomalies p @ [t]\<rparr>"

text \<open>The poll loop of \<open>settle_into\<close>: \<open>n\<close> polls are left; the flag says whether the loop returned.\<close>

fun settle_polls :: "('p, 'w) run_context \<Rightarrow> string \<Rightarrow> nat \<Rightarrow> placed_order \<Rightarrow> ('p, 'w, bool \<times> placed_order) run_m" where
  "settle_polls cx oid 0 p = State_Monad.return (False, p)"
| "settle_polls cx oid (Suc n) p =
     do { r \<leftarrow> call (bk_get_order (cx_broker cx) oid);
          case r of
            Inr rep \<Rightarrow>
              if is_terminal (or_status rep) then State_Monad.return (True, finalize p rep)
              else do { _ \<leftarrow> (if n > 0 then call (bk_sleep_secs (cx_broker cx) (cf_poll_secs (cx_config cx))) else State_Monad.return ());
                        settle_polls cx oid n (p\<lparr>pd_status := Some (or_status rep)\<rparr>) }
          | Inl e \<Rightarrow>
              let q = add_anomaly (ft_error (tx_flat (cx_text cx)) e) p
              in State_Monad.return (True, if is_anomaly e then q\<lparr>pd_outcome := PoUnsettled\<rparr> else q) }"

definition settle_into :: "('p, 'w) run_context \<Rightarrow> placed_order \<Rightarrow> string \<Rightarrow> ('p, 'w, placed_order) run_m" where
  "settle_into cx p oid =
     do { _ \<leftarrow> add_known [oid];
          (settled, q) \<leftarrow> settle_polls cx oid (cf_max_polls (cx_config cx)) (p\<lparr>pd_broker_order_id := Some oid\<rparr>);
          if settled then State_Monad.return q
          else do { c \<leftarrow> call (bk_cancel_and_settle (cx_broker cx) oid);
                    case c of
                      Inr (_, rep) \<Rightarrow> State_Monad.return (finalize q rep)
                    | Inl e \<Rightarrow> State_Monad.return ((add_anomaly (ft_error (tx_flat (cx_text cx)) e) q)\<lparr>pd_outcome := PoUnsettled\<rparr>) } }"

definition journal :: "('p, 'w) run_context \<Rightarrow> journal_entry \<Rightarrow> ('p, 'w, run_store_error + unit) run_m" where
  "journal cx e = do { k \<leftarrow> ask (\<lambda>s. rr_key (rn_rec s)); call (cx_journal_order cx k e) }"

definition journal_anomaly :: "run_text \<Rightarrow> run_store_error + unit \<Rightarrow> placed_order \<Rightarrow> placed_order" where
  "journal_anomaly tx r p = (case r of Inl e \<Rightarrow> add_anomaly (''journal: '' @ tx_store_error tx e) p | Inr _ \<Rightarrow> p)"

text \<open>The order that exists is the one described from here on; \<open>found\<close> is its first report.\<close>

definition adopt :: "('p, 'w) run_context \<Rightarrow> placed_order \<Rightarrow> order_report \<Rightarrow> ('p, 'w, placed_order) run_m" where
  "adopt cx p found =
     (let oid = or_broker_order_id found;
          q = p\<lparr>pd_outcome := PoAdoptedExisting, pd_planned_quantity := or_quantity found,
            pd_detail := ''an order with this tag already existed at the broker ('' @ oid @ '', quantity '' @ dec_to_string (or_quantity found)
              @ ''): adopted, not re-sent; this attempt planned '' @ dec_to_string (pd_planned_quantity p)\<rparr>
      in do { j \<leftarrow> journal cx \<lparr>je_tag = pd_tag p, je_broker_order_id = Some oid, je_notional = dec_ZERO\<rparr>;
              settle_into cx (journal_anomaly (cx_text cx) j q) oid })"

definition placed_new :: "planned_order \<Rightarrow> phase \<Rightarrow> placed_order" where
  "placed_new o_rd ph =
     \<lparr>pd_phase = ph, pd_tag = pl_tag o_rd, pd_symbol = pl_symbol o_rd, pd_side = pl_side o_rd,
      pd_planned_quantity = pl_quantity o_rd, pd_price = pl_price o_rd, pd_outcome = PoNotSent, pd_broker_order_id = None,
      pd_status = None, pd_executed_quantity = dec_ZERO, pd_reports = [], pd_anomalies = [], pd_detail = []\<rparr>"

definition request_of :: "planned_order \<Rightarrow> bool \<Rightarrow> order_request" where
  "request_of o_rd rehearsal =
     (order_market (pl_tag o_rd) (pl_symbol o_rd) (pl_side o_rd) (pl_quantity o_rd))
       \<lparr>req_reference_price := Some (pl_price o_rd), req_validate_only := rehearsal\<rparr>"

definition not_sent_detail :: "run_text \<Rightarrow> broker_error \<Rightarrow> string" where
  "not_sent_detail tx e =
     (case e of
        MarketClosed _ _ \<Rightarrow> ''not sent: '' @ MARKET_CLOSED_MARKER @ '': '' @ ft_error (tx_flat tx) e
      | _ \<Rightarrow> ''not sent: '' @ ft_error (tx_flat tx) e)"

text \<open>After an unknown outcome: look the order up, never send it again.\<close>

definition resolve_unknown :: "('p, 'w) run_context \<Rightarrow> bool \<Rightarrow> string \<Rightarrow> placed_order \<Rightarrow> ('p, 'w, placed_order) run_m" where
  "resolve_unknown cx rehearsal reason p =
     do { r \<leftarrow> call (bk_find_by_tag (cx_broker cx) (pd_tag p));
          case r of
            Inr (f # _) \<Rightarrow>
              do { q \<leftarrow> adopt cx (if rehearsal then add_anomaly ''PAPER_ORDER_EXISTS: a validate-only request created an order'' p else p) f;
                   State_Monad.return (q\<lparr>pd_detail := ''outcome was unknown ('' @ reason @ ''); found by tag''\<rparr>) }
          | Inr [] \<Rightarrow> State_Monad.return (p\<lparr>pd_outcome := PoUnknownNotFound, pd_detail := ''outcome was unknown ('' @ reason
                @ '') and no order carries the tag: treated as not placed, not retried''\<rparr>)
          | Inl e \<Rightarrow> State_Monad.return (p\<lparr>pd_outcome := PoUnknownNotFound, pd_detail := ''outcome was unknown ('' @ reason
                @ '') and the look-up failed ('' @ ft_error (tx_flat (cx_text cx)) e @ ''): not retried''\<rparr>) }"

definition send :: "('p, 'w) run_context \<Rightarrow> planned_order \<Rightarrow> bool \<Rightarrow> placed_order \<Rightarrow> ('p, 'w, placed_order) run_m" where
  "send cx o_rd rehearsal p =
     do { r \<leftarrow> call (bk_place (cx_broker cx) (request_of o_rd rehearsal));
          case r of
            Inr (Accepted oid _ _ _) \<Rightarrow>
              if rehearsal
              then settle_into cx (add_anomaly (''PAPER_ORDER_EXISTS: a validate-only order came back as accepted ('' @ oid @ '')'') p) oid
              else do { j \<leftarrow> journal cx \<lparr>je_tag = pl_tag o_rd, je_broker_order_id = Some oid, je_notional = pl_notional o_rd\<rparr>;
                        settle_into cx (journal_anomaly (cx_text cx) j p) oid }
          | Inr (ValidatedOnly _ _ _) \<Rightarrow> State_Monad.return (p\<lparr>pd_outcome := PoValidated\<rparr>)
          | Inr (Rejected errors _) \<Rightarrow> State_Monad.return (p\<lparr>pd_outcome := PoRejected, pd_detail := join '', '' (map ee_code errors)\<rparr>)
          | Inr (UnknownOutcome reason _) \<Rightarrow> resolve_unknown cx rehearsal reason p
          | Inl e \<Rightarrow> State_Monad.return (p\<lparr>pd_outcome := PoNotSent, pd_detail := not_sent_detail (cx_text cx) e\<rparr>) }"

text \<open>The intent is journaled before anything is sent that could execute.\<close>

definition send_journaled :: "('p, 'w) run_context \<Rightarrow> planned_order \<Rightarrow> bool \<Rightarrow> placed_order \<Rightarrow> ('p, 'w, placed_order) run_m" where
  "send_journaled cx o_rd rehearsal p =
     (if rehearsal then send cx o_rd rehearsal p
      else do { j \<leftarrow> journal cx \<lparr>je_tag = pl_tag o_rd, je_broker_order_id = None, je_notional = pl_notional o_rd\<rparr>;
                case j of
                  Inl e \<Rightarrow> State_Monad.return (p\<lparr>pd_detail := ''not sent: the intent could not be journaled ('' @ tx_store_error (cx_text cx) e @ '')''\<rparr>)
                | Inr _ \<Rightarrow> send cx o_rd rehearsal p })"

definition execute_order :: "('p, 'w) run_context \<Rightarrow> phase \<Rightarrow> planned_order \<Rightarrow> ('p, 'w, placed_order) run_m" where
  "execute_order cx ph o_rd =
     (let rehearsal = (ph = Rehearsal); p = placed_new o_rd ph
      in do { status \<leftarrow> ask (\<lambda>s. ac_status (rn_state s));
              paused \<leftarrow> ask (\<lambda>s. buy_is_paused s o_rd);
              why \<leftarrow> ask rn_buys_paused;
              if \<not> may_add_risk status
              then State_Monad.return (p\<lparr>pd_detail := ''refused: the account is '' @ status_as_str status\<rparr>)
              else if paused
              then State_Monad.return (p\<lparr>pd_detail := ''not sent: '' @ (case why of Some t \<Rightarrow> t | None \<Rightarrow> DAY_START_MISSING)\<rparr>)
              else
                do { r \<leftarrow> call (bk_find_by_tag (cx_broker cx) (pl_tag o_rd));
                     case r of
                       Inl e \<Rightarrow> State_Monad.return (p\<lparr>pd_detail := ''not sent: the tag look-up failed ('' @ ft_error (tx_flat (cx_text cx)) e
                           @ ''), so it cannot be known whether the order exists''\<rparr>)
                     | Inr (f # fs) \<Rightarrow>
                         adopt cx (if rehearsal then add_anomaly (''PAPER_ORDER_EXISTS: '' @ show_nat (length (f # fs))
                           @ '' order(s) already carry this tag in a paper run'') p else p) f
                     | Inr [] \<Rightarrow> send_journaled cx o_rd rehearsal p } })"

definition execute_and_record :: "('p, 'w) run_context \<Rightarrow> phase \<Rightarrow> planned_order \<Rightarrow> ('p, 'w, unit) run_m" where
  "execute_and_record cx ph o_rd =
     do { p \<leftarrow> execute_order cx ph o_rd;
          edit (\<lambda>r. r\<lparr>rr_placed := rr_placed r @ [p]\<rparr>) }"

definition of_side :: "side \<Rightarrow> order_plan \<Rightarrow> planned_order list" where
  "of_side sd pl = filter (\<lambda>x. pl_side x = sd) (op_orders pl)"

definition execute_live :: "('p, 'w) run_context \<Rightarrow> sleeve_target list \<Rightarrow> order_plan \<Rightarrow> ('p, 'w, unit) run_s" where
  "execute_live cx targets pl =
     do { _ \<leftarrow> for_each (execute_and_record cx Sells) (of_side Sell pl);
          if of_side Buy pl = [] then do { _ \<leftarrow> note_step cx ''execute''; ok () }
          else
            and_then (read_snapshot cx ''execute'') (\<lambda>snap.
            and_then (day_counters_of cx) (\<lambda>day.
            and_then (plan_with cx targets snap day False) (\<lambda>replan.
            do { _ \<leftarrow> edit (\<lambda>r. r\<lparr>rr_replan := Some (summarize_plan replan)\<rparr>);
                 _ \<leftarrow> note_step cx ''execute'';
                 _ \<leftarrow> for_each (execute_and_record cx Buys) (of_side Buy replan);
                 ok () }))) }"

definition step_execute :: "('p, 'w) run_context \<Rightarrow> sleeve_target list \<Rightarrow> order_plan \<Rightarrow> ('p, 'w, unit) run_s" where
  "step_execute cx targets pl =
     (case cx_mode cx of
        Assisted \<Rightarrow>
          do { tickets \<leftarrow> ask (\<lambda>s. filter (\<lambda>x. \<not> buy_is_paused s x) (op_orders pl));
               paused \<leftarrow> ask (\<lambda>s. filter (buy_is_paused s) (op_orders pl));
               why \<leftarrow> ask rn_buys_paused;
               _ \<leftarrow> (case why of
                       None \<Rightarrow> State_Monad.return ()
                     | Some t \<Rightarrow> change (\<lambda>s. s\<lparr>rn_paused_tickets := map (\<lambda>x. ''buy '' @ pl_symbol x @ '' not ticketed: '' @ t) paused\<rparr>));
               _ \<leftarrow> edit (\<lambda>r. r\<lparr>rr_tickets := tickets\<rparr>);
               _ \<leftarrow> note_step cx ''execute'';
               ok () }
      | Paper \<Rightarrow>
          do { _ \<leftarrow> for_each (execute_and_record cx Rehearsal) (op_orders pl);
               _ \<leftarrow> note_step cx ''execute'';
               ok () }
      | Live \<Rightarrow> execute_live cx targets pl)"

section \<open>Reconciliation after trading\<close>

definition last_look_up :: "('p, 'w) run_context \<Rightarrow> placed_order \<Rightarrow> ('p, 'w, placed_order) run_m" where
  "last_look_up cx p =
     (if pd_outcome p = PoUnknownNotFound
      then do { r \<leftarrow> call (bk_find_by_tag (cx_broker cx) (pd_tag p));
                State_Monad.return (case r of
                  Inr (f # fs) \<Rightarrow> p\<lparr>pd_broker_order_id := Some (or_broker_order_id f), pd_reports := f # fs,
                    pd_detail := pd_detail p @ '' | the order appeared after the run's own look-up''\<rparr>
                | _ \<Rightarrow> p) }
      else State_Monad.return p)"

fun look_up_placed :: "('p, 'w) run_context \<Rightarrow> placed_order list \<Rightarrow> ('p, 'w, placed_order list) run_m" where
  "look_up_placed cx [] = State_Monad.return []"
| "look_up_placed cx (p # ps) =
     do { q \<leftarrow> last_look_up cx p;
          qs \<leftarrow> look_up_placed cx ps;
          State_Monad.return (q # qs) }"

definition expected_of :: "bool \<Rightarrow> placed_order \<Rightarrow> expected_order" where
  "expected_of live p =
     \<lparr>eo_tag = pd_tag p, eo_symbol = pd_symbol p, eo_side = pd_side p, eo_planned_quantity = pd_planned_quantity p,
      eo_broker_order_id = pd_broker_order_id p, eo_reports = pd_reports p, eo_anomalies = pd_anomalies p,
      eo_expect_exists = ((live \<and> pd_outcome p \<notin> {PoNotSent, PoRejected, PoValidated}) \<or> pd_anomalies p \<noteq> [])\<rparr>"

text \<open>Orders whose fills are already inside the baseline are not counted twice.\<close>

definition fresh_orders :: "string btree_set \<Rightarrow> expected_order list \<Rightarrow> expected_order list" where
  "fresh_orders applied es =
     filter (\<lambda>e. eo_expect_exists e \<and> list_all (\<lambda>r. or_broker_order_id r \<notin> set applied) (eo_reports e)) es"

definition step_recon_post :: "('p, 'w) run_context \<Rightarrow> ('p, 'w, unit) run_s" where
  "step_recon_post cx =
     (if cx_mode cx = Assisted then do { _ \<leftarrow> note_step cx ''reconcile_post''; ok () }
      else
        let live = (cx_mode cx = Live)
        in do { placed0 \<leftarrow> ask (\<lambda>s. rr_placed (rn_rec s));
                placed \<leftarrow> look_up_placed cx placed0;
                _ \<leftarrow> edit (\<lambda>r. r\<lparr>rr_placed := placed\<rparr>);
                let expected = map (expected_of live) placed;
                    unsettled = map pd_tag (filter (\<lambda>p. pd_outcome p = PoUnsettled) placed)
                in if unsettled \<noteq> []
                   then do { _ \<leftarrow> note_step cx ''reconcile_post'';
                             err (halt_reconciliation cx (''orders still live or unreadable after the run: '' @ join '', '' unsettled)) }
                   else
                     do { t \<leftarrow> now cx;
                          r \<leftarrow> call (bk_snapshot (cx_broker cx) t);
                          case r of
                            Inl e \<Rightarrow>
                              do { _ \<leftarrow> note_step cx ''reconcile_post'';
                                   err (halt_reconciliation cx (''the account could not be re-read after trading: ''
                                     @ ft_snapshot_error (tx_flat (cx_text cx)) e)) }
                          | Inr snap \<Rightarrow>
                              do { _ \<leftarrow> edit (\<lambda>r. r\<lparr>rr_post_snapshot := Some (summarize snap)\<rparr>);
                                   applied \<leftarrow> ask rn_applied_ids;
                                   and_then (get_or_stop rn_pre_baseline) (\<lambda>base.
                                   case (if live then after_orders base (fresh_orders applied expected) else Some base) of
                                     None \<Rightarrow> err (halt_reconciliation cx ''the fills of this run could not be applied to the baseline'')
                                   | Some after \<Rightarrow>
                                       do { t2 \<leftarrow> now cx;
                                            known \<leftarrow> ask rn_known_ids;
                                            and_then (judge_recon cx ''post'' (reconcile
                                              \<lparr>ri_view = snap, ri_now = t2, ri_known_order_ids = known, ri_baseline = Some after,
                                               ri_orders = expected, ri_tolerances = cf_tolerances (cx_config cx)\<rparr>)) (\<lambda>_.
                                            do { _ \<leftarrow> change (\<lambda>s. s\<lparr>rn_snapshot := Some snap\<rparr>); ok () }) }) } } })"

section \<open>Did the run act?\<close>

datatype gap = GapDenied planned_order | GapSkipped skipped_trade | GapPaused string | GapOrder placed_order

definition material :: "skip_reason \<Rightarrow> bool" where
  "material r =
     (case r of
        BelowMinTradeAbs _ _ \<Rightarrow> False | BelowMinTradePct _ _ \<Rightarrow> False | CutBelowVenueMinimum \<Rightarrow> False | NoCashAvailable \<Rightarrow> False
      | VenueRefused refusal \<Rightarrow> \<not> is_dust_refusal refusal
      | _ \<Rightarrow> True)"

definition is_sell_line :: "plan_summary \<Rightarrow> string \<Rightarrow> bool" where
  "is_sell_line pl symbol \<longleftrightarrow>
     list_ex (\<lambda>l. eq_ignore_case (il_symbol l) symbol \<and> dec_lt (il_target_notional l) (il_current_notional l)) (ps_lines pl)"

text \<open>Sells are judged by the first plan and buys by the re-plan, when there is one. The flag says that the market was closed.\<close>

definition shortfalls :: "('p, 'w) run \<Rightarrow> (gap \<times> bool) list" where
  "shortfalls s =
     (case rr_plan (rn_rec s) of
        None \<Rightarrow> []
      | Some pl \<Rightarrow>
          let replan = rr_replan (rn_rec s)
          in map (\<lambda>d. (GapDenied (ds_order d), False))
               (filter (\<lambda>d. replan = None \<or> pl_side (ds_order d) = Sell) (ps_plan_denied pl))
             @ (case replan of None \<Rightarrow> []
                | Some r \<Rightarrow> map (\<lambda>d. (GapDenied (ds_order d), False)) (filter (\<lambda>d. pl_side (ds_order d) = Buy) (ps_plan_denied r)))
             @ map (\<lambda>k. (GapSkipped k, False))
                 (filter (\<lambda>k. material (sk_reason k) \<and> (replan = None \<or> is_sell_line pl (sk_symbol k))) (ps_skipped pl))
             @ (case replan of None \<Rightarrow> []
                | Some r \<Rightarrow> map (\<lambda>k. (GapSkipped k, False))
                    (filter (\<lambda>k. material (sk_reason k) \<and> \<not> is_sell_line pl (sk_symbol k)) (ps_skipped r)))
             @ map (\<lambda>t. (GapPaused t, False)) (rn_paused_tickets s)
             @ map (\<lambda>p. (GapOrder p, refused_market_closed p)) (filter (\<lambda>p. \<not> carried p) (rr_placed (rn_rec s))))"

definition step_assess :: "('p, 'w) run_context \<Rightarrow> ('p, 'w, unit) run_m" where
  "step_assess cx =
     do { gaps \<leftarrow> ask shortfalls;
          if gaps = []
          then do { _ \<leftarrow> change (\<lambda>s. s\<lparr>rn_carried := True\<rparr>);
                    _ \<leftarrow> stop_run OkCompleted (run_code_as_str RcCompleted);
                    State_Monad.return () }
          else do { _ \<leftarrow> note_step cx ''assess'';
                    _ \<leftarrow> raise_alert cx AlDecisionNotActed (if list_all snd gaps then AvWarning else AvCritical) ''decision_not_acted'';
                    _ \<leftarrow> stop_run OkCompleted (run_code_as_str RcDecisionNotActed);
                    State_Monad.return () } }"

section \<open>The run\<close>

definition execute :: "('p, 'w) run_context \<Rightarrow> ('p, 'w, unit) run_s" where
  "execute cx =
     and_then (step_venue_policy cx) (\<lambda>_.
     and_then (step_kill_flag cx) (\<lambda>_.
     and_then (step_mandate cx) (\<lambda>_.
     and_then (step_decisions cx) (\<lambda>_.
     and_then (step_read_account cx) (\<lambda>_.
     and_then (step_halted_check cx) (\<lambda>_.
     and_then (step_cleanup cx) (\<lambda>_.
     and_then (step_recon_pre cx) (\<lambda>_.
     and_then (step_risk cx) (\<lambda>_.
     and_then (step_targets cx) (\<lambda>targets.
     and_then (step_plan cx targets) (\<lambda>pl.
     and_then (step_execute cx targets pl) (\<lambda>_.
     and_then (step_recon_post cx) (\<lambda>_.
     do { _ \<leftarrow> step_assess cx; ok () })))))))))))))"

text \<open>A planned decision counts as acted when the run completed and everything was carried.\<close>

definition mark_acted :: "('p, 'w) run \<Rightarrow> run_record \<Rightarrow> run_record" where
  "mark_acted s r =
     r\<lparr>rr_decisions := map (\<lambda>d. d\<lparr>sd_acted := (sd_planned d \<and> ro_kind (rr_outcome r) = OkCompleted \<and> rn_carried s)\<rparr>) (rr_decisions r)\<rparr>"

definition finish_run :: "('p, 'w) run_context \<Rightarrow> ('p, 'w, run_record) run_m" where
  "finish_run cx =
     do { t \<leftarrow> now cx;
          _ \<leftarrow> change (\<lambda>s. s\<lparr>rn_rec := mark_acted s ((rn_rec s)\<lparr>rr_state_after := Some (ac_status (rn_state s)), rr_finished_at := t\<rparr>)\<rparr>);
          rec \<leftarrow> ask rn_rec;
          f \<leftarrow> call (cx_finish cx rec);
          _ \<leftarrow> (case f of
                  Inr _ \<Rightarrow> State_Monad.return ()
                | Inl e \<Rightarrow>
                    do { _ \<leftarrow> edit (\<lambda>r. r\<lparr>rr_steps := rr_steps r @ [\<lparr>sn_step = ''finish'', sn_at = rr_finished_at r\<rparr>]\<rparr>);
                         raise_alert cx AlRunFailed AvCritical ''failed:record'' });
          ask rn_rec }"

definition run_record_new :: "('p, 'w) run_context \<Rightarrow> run_key \<Rightarrow> int \<Rightarrow> run_record" where
  "run_record_new cx k t =
     \<lparr>rr_key = k, rr_mode = cx_mode cx, rr_attempt = 1, rr_trading_day = cx_trading_day cx,
      rr_scheduled_for = cx_scheduled_for cx, rr_started_at = t, rr_finished_at = t,
      rr_outcome = \<lparr>ro_kind = OkCompleted, ro_code = run_code_as_str RcCompleted\<rparr>, rr_mandate_hash = [],
      rr_mandate_version = None, rr_mandate_standing = ''none'', rr_deployment_digest = None, rr_data_fingerprints = [],
      rr_pre_snapshot = None, rr_post_snapshot = None, rr_recon = [], rr_state_before = None, rr_state_after = None,
      rr_transitions = [], rr_risk = None, rr_decisions = [], rr_targets = [], rr_plan = None, rr_replan = None,
      rr_tickets = [], rr_placed = [], rr_cleanup = [], rr_flatten = None, rr_alerts = [],
      rr_alert_delivery_failures = [], rr_steps = []\<rparr>"

definition run_new :: "('p, 'w) run_context \<Rightarrow> 'p eval_cache option \<Rightarrow> 'w \<Rightarrow> run_key \<Rightarrow> int \<Rightarrow> ('p, 'w) run" where
  "run_new cx cache w k t =
     \<lparr>rn_world = w, rn_cache = cache, rn_rec = run_record_new cx k t, rn_state = account_new (cx_account_id cx),
      rn_snapshot = None, rn_policy = None, rn_risk_policy = None, rn_known_ids = [], rn_pre_baseline = None,
      rn_applied_ids = [], rn_pending = [], rn_carried = False, rn_buys_paused = None, rn_paused_tickets = []\<rparr>"

definition finish_now :: "('p, 'w) run_context \<Rightarrow> ('p, 'w, run_record) run_m" where
  "finish_now cx = do { t \<leftarrow> now cx; _ \<leftarrow> edit (\<lambda>r. r\<lparr>rr_finished_at := t\<rparr>); ask rn_rec }"

definition run_started :: "('p, 'w) run_context \<Rightarrow> run_key \<Rightarrow> int \<Rightarrow> ('p, 'w, run_record) run_m" where
  "run_started cx k started_at =
     do { b \<leftarrow> call (cx_begin cx k (cx_trading_day cx) started_at (cf_lease_secs (cx_config cx)));
          case b of
            Inr (Started attempt) \<Rightarrow>
              do { _ \<leftarrow> edit (\<lambda>r. r\<lparr>rr_attempt := attempt\<rparr>);
                   _ \<leftarrow> note_step cx ''acquire_run_key'';
                   _ \<leftarrow> execute cx;
                   finish_run cx }
          | Inr (AlreadyDone first) \<Rightarrow> State_Monad.return first
          | Inr (Busy _) \<Rightarrow>
              do { _ \<leftarrow> note_step cx ''acquire_run_key'';
                   _ \<leftarrow> stop_run OkRefused (run_code_as_str RcBusy);
                   finish_now cx }
          | Inl e \<Rightarrow>
              do { _ \<leftarrow> note_step cx ''acquire_run_key'';
                   _ \<leftarrow> stop_run OkFailedClosed (run_code_as_str RcStoreUnavailable);
                   _ \<leftarrow> raise_alert cx AlRunFailed AvCritical ''failed:store'';
                   finish_now cx } }"

definition run_once :: "('p, 'w) run_context \<Rightarrow> 'p eval_cache option \<Rightarrow> 'w \<Rightarrow> run_record \<times> ('p, 'w) run" where
  "run_once cx cache w0 =
     (let (started_at, w) = bk_now (cx_broker cx) w0;
          k = run_key_new (cx_account_id cx) (cx_scheduled_for cx) (map ss_id (cx_sleeves cx))
      in run_state (run_started cx k started_at) (run_new cx cache w k started_at))"

end
