(* ===== verification/Flatten_Props.thy ===== *)
theory Flatten_Props
  imports Flatten
begin

text \<open>
  Safety of the kill path for every broker. The broker is put behind a recorder that logs the
  snapshots it returned and the orders it was asked to place; the theorems are about that log.
  Invariants are proved with the composition rules of \<open>State_Logic\<close>.
\<close>

lemma keeps_io: "(\<And>s x w. I s \<Longrightarrow> f (fl_world s) = (x, w) \<Longrightarrow> I (s\<lparr>fl_world := w\<rparr>)) \<Longrightarrow> keeps I (io f)"
  by (auto simp: leads_def io_def split: prod.splits)

section \<open>The recording broker\<close>

datatype log_event = SawSnapshot broker_snapshot | Placed order_request

text \<open>The log is kept newest first.\<close>

definition lift_io :: "('w \<Rightarrow> 'a \<times> 'w) \<Rightarrow> 'w \<times> log_event list \<Rightarrow> 'a \<times> 'w \<times> log_event list" where
  "lift_io f = (\<lambda>(w, l). let (x, w') = f w in (x, w', l))"

definition recording :: "'w broker \<Rightarrow> ('w \<times> log_event list) broker" where
  "recording b =
     \<lparr>bk_venue = bk_venue b,
      bk_snapshot = (\<lambda>t (w, l). let (r, w') = bk_snapshot b t w
        in (r, w', case r of Inr snap \<Rightarrow> SawSnapshot snap # l | Inl _ \<Rightarrow> l)),
      bk_place = (\<lambda>req (w, l). let (r, w') = bk_place b req w in (r, w', Placed req # l)),
      bk_get_order = (\<lambda>i. lift_io (bk_get_order b i)),
      bk_open_orders = lift_io (bk_open_orders b),
      bk_find_by_tag = (\<lambda>t. lift_io (bk_find_by_tag b t)),
      bk_cancel_and_settle = (\<lambda>i. lift_io (bk_cancel_and_settle b i)),
      bk_now = lift_io (bk_now b),
      bk_sleep_secs = (\<lambda>n. lift_io (bk_sleep_secs b n))\<rparr>"

fun last_snapshot :: "log_event list \<Rightarrow> broker_snapshot option" where
  "last_snapshot [] = None"
| "last_snapshot (SawSnapshot s # l) = Some s"
| "last_snapshot (Placed r # l) = last_snapshot l"

text \<open>Every order in the log satisfies a relation to the last snapshot read before it.\<close>

fun log_ok :: "(broker_snapshot \<Rightarrow> order_request \<Rightarrow> bool) \<Rightarrow> log_event list \<Rightarrow> bool" where
  "log_ok R [] = True"
| "log_ok R (SawSnapshot s # l) = log_ok R l"
| "log_ok R (Placed r # l) \<longleftrightarrow> (\<exists>s. last_snapshot l = Some s \<and> R s r) \<and> log_ok R l"

text \<open>What the invariants talk about: the log, the orders recorded and the first shorts seen.\<close>

type_synonym fview = "log_event list \<times> flatten_order list \<times> (string, dec) btree_map"

definition view :: "('w \<times> log_event list) flattener \<Rightarrow> fview" where
  "view s = (snd (fl_world s), fl_orders s, fl_first_short s)"

lemma view_updates [simp]:
  "view (s\<lparr>fl_cancels := c\<rparr>) = view s" "view (s\<lparr>fl_failures := f\<rparr>) = view s" "view (s\<lparr>fl_foreign := g\<rparr>) = view s"
  by (simp_all add: view_def)

lemma recording_venue [simp]: "bk_venue (recording b) = bk_venue b"
  by (simp add: recording_def)

lemma lift_io_log: "lift_io f w = (x, w') \<Longrightarrow> snd w' = snd w"
  by (auto simp: lift_io_def split: prod.splits)

text \<open>Calls that do not place an order or read the account leave the log alone.\<close>

lemma keeps_quiet_calls [keeps_intros]:
  "keeps (\<lambda>s. J (view s)) (io (bk_get_order (recording b) i))"
  "keeps (\<lambda>s. J (view s)) (io (bk_open_orders (recording b)))"
  "keeps (\<lambda>s. J (view s)) (io (bk_find_by_tag (recording b) t))"
  "keeps (\<lambda>s. J (view s)) (io (bk_cancel_and_settle (recording b) i))"
  "keeps (\<lambda>s. J (view s)) (io (bk_now (recording b)))"
  "keeps (\<lambda>s. J (view s)) (io (bk_sleep_secs (recording b) n))"
  by (auto simp: recording_def view_def dest: lift_io_log intro!: keeps_io)

lemma keeps_fail [keeps_intros]: "keeps (\<lambda>s. J (view s)) (fail c m)"
  by (simp add: fail_def leads_change)

lemma keeps_poll [keeps_intros]: "keeps (\<lambda>s. J (view s)) (poll_order (recording b) spec i n)"
  by (induction n) (auto intro!: keeps_intros split: sum.splits)

lemma keeps_settle [keeps_intros]: "keeps (\<lambda>s. J (view s)) (settle tx (recording b) spec i)"
  unfolding settle_def by (auto intro!: keeps_intros split: sum.splits option.splits)

lemma keeps_cancel_one [keeps_intros]: "keeps (\<lambda>s. J (view s)) (cancel_one tx (recording b) spec r)"
  unfolding cancel_one_def Let_def
  by (auto intro!: keeps_intros leads_change simp: update_last_cancel_def split: sum.splits broker_error.splits)

lemma keeps_cancel_own [keeps_intros]: "keeps (\<lambda>s. J (view s)) (cancel_own tx (recording b) spec)"
  unfolding cancel_own_def by (auto intro!: keeps_intros split: sum.splits)

lemma keeps_free_tag [keeps_intros]: "keeps (\<lambda>s. J (view s)) (free_tag_from tx (recording b) spec y sd k n)"
  by (induction n arbitrary: k) (auto intro!: keeps_intros split: sum.splits simp: Let_def)

lemma keeps_cancel_own_free [keeps_intros]: "keeps (\<lambda>s. J (view s)) (free_tag tx (recording b) spec y sd)"
  by (simp add: free_tag_def keeps_free_tag)

text \<open>Placing a leg: one log entry per attempt and at most one recorded order.\<close>

definition leg_closed :: "(fview \<Rightarrow> bool) \<Rightarrow> (fview \<Rightarrow> bool) \<Rightarrow> string \<Rightarrow> side \<Rightarrow> dec \<Rightarrow> bool" where
  "leg_closed J K y sd q \<longleftrightarrow>
     (\<forall>req l os fs. req_symbol req = y \<and> req_side req = sd \<and> req_quantity req = q \<and> req_kind req = Market \<longrightarrow>
        J (l, os, fs) \<longrightarrow> J (Placed req # l, os, fs)) \<and>
     (\<forall>x l os fs. fo_symbol x = y \<and> fo_side x = sd \<and> fo_quantity x = q \<longrightarrow> J (l, os, fs) \<longrightarrow> K (l, os @ [x], fs)) \<and>
     (\<forall>v. J v \<longrightarrow> K v)"

lemma leg_closed_weaken: "leg_closed J K y sd q \<Longrightarrow> J v \<Longrightarrow> K v"
  by (cases v) (simp add: leg_closed_def)

lemma leads_leg_return: "leg_closed J K y sd q \<Longrightarrow> leads (\<lambda>s. J (view s)) (State_Monad.return x) (\<lambda>s. K (view s))"
  using leg_closed_weaken by (simp add: leads_def) blast

lemma leads_push_order:
  "leg_closed J K y sd q \<Longrightarrow> fo_symbol x = y \<Longrightarrow> fo_side x = sd \<Longrightarrow> fo_quantity x = q \<Longrightarrow>
   leads (\<lambda>s. J (view s)) (push_order x) (\<lambda>s. K (view s))"
  by (auto simp: push_order_def view_def leg_closed_def intro!: leads_change)

lemma leads_records:
  "leg_closed J K y sd q \<Longrightarrow> leads (\<lambda>s. J (view s)) (record_report t y sd q r a) (\<lambda>s. K (view s))"
  "leg_closed J K y sd q \<Longrightarrow> leads (\<lambda>s. J (view s)) (record_unsent t y sd q oc) (\<lambda>s. K (view s))"
  by (auto simp: record_report_def record_unsent_def intro!: leads_push_order)

lemma leads_fail_then:
  "leads (\<lambda>s. J (view s)) m K \<Longrightarrow> leads (\<lambda>s. J (view s)) (State_Monad.bind (fail c t) (\<lambda>_. m)) K"
  by (rule leads_bind [OF keeps_fail])

lemma leads_settle_and_record:
  "leg_closed J K y sd q \<Longrightarrow>
   leads (\<lambda>s. J (view s)) (settle_and_record tx (recording b) spec t y sd q i a) (\<lambda>s. K (view s))"
  unfolding settle_and_record_def
  by (rule leads_bind [OF keeps_settle])
    (auto intro!: leads_records leads_fail_then split: sum.splits)

lemma keeps_place:
  "leg_closed J K (req_symbol req) (req_side req) (req_quantity req) \<Longrightarrow> req_kind req = Market \<Longrightarrow>
   keeps (\<lambda>s. J (view s)) (io (bk_place (recording b) req))"
  by (auto simp: recording_def view_def leg_closed_def split: prod.splits intro!: keeps_io)

lemma leads_place_attempts:
  assumes "leg_closed J K (req_symbol req) (req_side req) (req_quantity req)" "req_kind req = Market"
  shows "leads (\<lambda>s. J (view s)) (place_attempts tx (recording b) spec req k n) (\<lambda>s. K (view s))"
proof (induction n arbitrary: k)
  case 0
  then show ?case using leads_leg_return [OF assms(1)] by simp
next
  case (Suc n)
  note rec = leads_records [OF assms(1)] leads_settle_and_record [OF assms(1)] leads_fail_then
    leads_bind [OF keeps_quiet_calls(3)]
  show ?case unfolding place_attempts.simps Let_def
    by (rule leads_bind [OF keeps_place [OF assms]])
      (auto intro!: rec Suc.IH split: sum.splits place_outcome.splits list.splits)
qed

lemma leads_place_leg:
  assumes "leg_closed J K y sd q"
  shows "leads (\<lambda>s. J (view s)) (place_leg tx (recording b) spec sd (y, q, pr)) (\<lambda>s. K (view s))"
  unfolding place_leg_def split
  by (rule leads_bind [OF keeps_cancel_own_free])
    (use assms in \<open>auto intro!: leads_place_attempts intro: leads_leg_return split: option.splits
      simp: order_market_def order_base_def\<close>)

section \<open>What the plan of a snapshot allows\<close>

text \<open>A leg that reduces a position the snapshot shows, within its size.\<close>

definition legal_leg :: "flatten_spec \<Rightarrow> broker_snapshot \<Rightarrow> side \<Rightarrow> string \<Rightarrow> dec \<Rightarrow> bool" where
  "legal_leg spec snap sd y q \<longleftrightarrow> dec_ok q \<and> 0 < dval q \<and>
     (\<exists>h\<in>set (bs_holdings snap). hd_symbol h = y \<and> to_upper y \<in> set (fs_universe spec) \<and>
        dval q \<le> \<bar>dval (hd_quantity h)\<bar> \<and> (sd = Buy \<longleftrightarrow> dval (hd_quantity h) < 0))"

lemma legal_leg_smaller:
  "legal_leg spec snap sd y q \<Longrightarrow> dec_ok q' \<Longrightarrow> 0 < dval q' \<Longrightarrow> dval q' \<le> dval q \<Longrightarrow> legal_leg spec snap sd y q'"
  by (fastforce simp: legal_leg_def)

definition plan_ok :: "flatten_spec \<Rightarrow> broker_snapshot \<Rightarrow> sell_plan \<Rightarrow> bool" where
  "plan_ok spec snap p \<longleftrightarrow> (\<forall>(y, q, pr)\<in>set (sp_covers p). legal_leg spec snap Buy y q) \<and>
     (\<forall>(y, q, pr)\<in>set (sp_sells p). legal_leg spec snap Sell y q)"

lemma closing_val:
  "closing q = Some (sd, held) \<Longrightarrow> dec_ok q \<Longrightarrow>
   dec_ok held \<and> dval held = \<bar>dval q\<bar> \<and> (sd = Buy \<longleftrightarrow> dval q < 0)"
  by (auto simp: closing_def res_opt_def dval_sign dneg_val dest: dneg_ok split: if_splits sum.splits)

lemma plan_ok_blocker [simp]: "plan_ok spec snap (blocker m p) = plan_ok spec snap p"
  by (simp add: plan_ok_def blocker_def)

lemma plan_ok_updates [simp]:
  "plan_ok spec snap (p\<lparr>sp_dust := d\<rparr>) = plan_ok spec snap p" "plan_ok spec snap (p\<lparr>sp_unmanaged := u\<rparr>) = plan_ok spec snap p"
  by (simp_all add: plan_ok_def)

lemma plan_rounded_ok:
  assumes "plan_ok spec snap p" and "\<not> dec_lt held q \<Longrightarrow> legal_leg spec snap sd (hd_symbol h) q"
  shows "plan_ok spec snap (plan_rounded h sd held price q p)"
  using assms by (cases sd) (auto simp: plan_rounded_def Let_def plan_ok_def blocker_def)

lemma plan_holding_ok:
  assumes p: "plan_ok spec snap p" and h: "h \<in> set (bs_holdings snap)" "dec_ok (hd_quantity h)"
    and book: "book_ok (fs_venue_rules spec)"
  shows "plan_ok spec snap (plan_holding tx spec venue p h)"
proof -
  have "legal_leg spec snap sd (hd_symbol h) q"
    if "to_upper (hd_symbol h) \<in> set (fs_universe spec)" "closing (hd_quantity h) = Some (sd, held)"
      "book_get (fs_venue_rules spec) venue = Some rules" "vr_round_quantity rules (hd_symbol h) sd held price = Inr q"
    for sd held rules price q
    using that h closing_val [OF that(2) h(2)] book_get_contract [OF book that(3)]
    by (force simp: venue_contract_def legal_leg_def)
  then have rounded: "plan_ok spec snap (plan_rounded h sd held price q p)"
    if "to_upper (hd_symbol h) \<in> set (fs_universe spec)" "closing (hd_quantity h) = Some (sd, held)"
      "book_get (fs_venue_rules spec) venue = Some rules" "vr_round_quantity rules (hd_symbol h) sd held price = Inr q"
    for sd held rules price q
    using that p by (blast intro: plan_rounded_ok)
  show ?thesis
  proof (cases "is_zero (hd_quantity h) \<or> to_upper (hd_symbol h) \<notin> set (fs_universe spec) \<or> closing (hd_quantity h) = None")
    case True
    with p show ?thesis by (auto simp: plan_holding_def Let_def)
  next
    case False
    then obtain sd held where c: "closing (hd_quantity h) = Some (sd, held)" by auto
    show ?thesis
    proof (cases "book_get (fs_venue_rules spec) venue = None \<or> price_of h = None")
      case True
      with False p c show ?thesis
        by (cases "book_get (fs_venue_rules spec) venue") (simp_all add: plan_holding_def Let_def)
    next
      case f: False
      then obtain rules price where r: "book_get (fs_venue_rules spec) venue = Some rules" "price_of h = Some price" by auto
      with False p c rounded [OF _ c r(1)] show ?thesis
        by (cases "vr_round_quantity rules (hd_symbol h) sd held price") (simp_all add: plan_holding_def Let_def)
    qed
  qed
qed

lemma plan_sells_ok:
  assumes "snapshot_ok snap" and "book_ok (fs_venue_rules spec)"
  shows "plan_ok spec snap (plan_sells tx spec venue snap)"
proof -
  have "plan_ok spec snap (foldl (plan_holding tx spec venue) p hs)"
    if "plan_ok spec snap p" "set hs \<subseteq> set (bs_holdings snap)" for p hs
    using that
  proof (induction hs arbitrary: p)
    case (Cons h hs)
    then have "plan_ok spec snap (plan_holding tx spec venue p h)"
      using assms by (intro plan_holding_ok) (auto simp: snapshot_ok_def)
    with Cons show ?case by simp
  qed simp
  note fold = this
  have "plan_ok spec snap \<lparr>sp_covers = [], sp_sells = [], sp_dust = [], sp_unmanaged = [], sp_blockers = []\<rparr>"
    by (simp add: plan_ok_def)
  then show ?thesis unfolding plan_sells_def by (rule fold) (simp add: sort_by_key_def)
qed

section \<open>Every order reduces a position of a fresh read\<close>

text \<open>An order that closes (part of) a position of a snapshot: a market sell of a long or a market buy of a short.\<close>

definition closes_position :: "flatten_spec \<Rightarrow> broker_snapshot \<Rightarrow> order_request \<Rightarrow> bool" where
  "closes_position spec snap req \<longleftrightarrow> req_kind req = Market \<and> legal_leg spec snap (req_side req) (req_symbol req) (req_quantity req)"

text \<open>A log that extends \<open>l0\<close> by snapshots and by orders related to the last snapshot before them.\<close>

inductive log_from :: "(broker_snapshot \<Rightarrow> order_request \<Rightarrow> bool) \<Rightarrow> log_event list \<Rightarrow> log_event list \<Rightarrow> bool" for R l0 where
  base: "log_from R l0 l0"
| saw: "log_from R l0 l \<Longrightarrow> log_from R l0 (SawSnapshot s # l)"
| placed: "log_from R l0 l \<Longrightarrow> last_snapshot l = Some s \<Longrightarrow> R s r \<Longrightarrow> log_from R l0 (Placed r # l)"

lemma log_from_ok: "log_from R [] l \<Longrightarrow> log_ok R l"
  by (induction rule: log_from.induct) auto

lemma last_snapshot_in: "last_snapshot l = Some s \<Longrightarrow> SawSnapshot s \<in> set l"
  by (induction l rule: last_snapshot.induct) auto

lemma log_from_placed:
  "log_from R l0 l \<Longrightarrow> set l0 \<subseteq> set l \<and>
     (\<forall>r. Placed r \<in> set l \<longrightarrow> Placed r \<in> set l0 \<or> (\<exists>s. SawSnapshot s \<in> set l \<and> R s r))"
  by (induction rule: log_from.induct) (auto dest: last_snapshot_in)

definition reduce_inv :: "flatten_spec \<Rightarrow> log_event list \<Rightarrow> broker_snapshot option \<Rightarrow> fview \<Rightarrow> bool" where
  "reduce_inv spec l0 seen = (\<lambda>(l, os, fs). log_from (closes_position spec) l0 l \<and> (\<forall>d\<in>snd ` set fs. dec_ok d) \<and>
     (\<forall>snap. seen = Some snap \<longrightarrow> last_snapshot l = Some snap))"

lemma reduce_leg_closed:
  "legal_leg spec snap sd y q \<Longrightarrow> leg_closed (reduce_inv spec l0 (Some snap)) (reduce_inv spec l0 (Some snap)) y sd q"
  by (auto simp: leg_closed_def reduce_inv_def closes_position_def intro: log_from.intros)

lemma cover_size_legal:
  assumes "cover_size b spec y q pr a = Some q'" "legal_leg spec snap Buy y q" "dec_ok a" "book_ok (fs_venue_rules spec)"
  shows "legal_leg spec snap Buy y q' \<and> (dval q' \<le> dval a)"
proof (cases "dec_lt a q")
  case True
  with assms(1) obtain rules where r: "book_get (fs_venue_rules spec) (bk_venue b) = Some rules"
    "vr_round_quantity rules y Buy a pr = Inr q'"
    by (auto simp: cover_size_def split: option.splits sum.splits if_splits)
  have "0 < dval q'" "dval q' \<le> dval a" "dec_ok q'"
    using book_get_contract [OF assms(4) r(1)] r(2) assms(3) by (auto simp: venue_contract_def)
  moreover have "dval a < dval q" using True assms(2,3) by (simp add: dec_order legal_leg_def)
  ultimately show ?thesis using legal_leg_smaller [OF assms(2)] by simp
next
  case False
  with assms show ?thesis by (simp add: cover_size_def dec_order legal_leg_def not_less)
qed

text \<open>How a cover sizes its leg, for any invariant of the view.\<close>

lemma leads_cover:
  assumes legal: "legal_leg spec snap Buy y q" and book: "book_ok (fs_venue_rules spec)"
    and fs: "\<And>l os fs. J (l, os, fs) \<Longrightarrow> \<forall>d\<in>snd ` set fs. dec_ok d"
    and step: "\<And>l os fs q' first. J (l, os, fs) \<Longrightarrow> legal_leg spec snap Buy y q' \<Longrightarrow>
      first = (case map_of fs (to_upper y) of Some f \<Rightarrow> f | None \<Rightarrow> q) \<Longrightarrow>
      dval q' \<le> dval first - dval (cover_quantity_used os y) \<Longrightarrow>
      leads (\<lambda>t. view t = (l, os, if map_of fs (to_upper y) = None then btm_insert (to_upper y) q fs else fs))
        (place_leg tx (recording b) spec Buy (y, q', pr)) (\<lambda>t. K (view t))"
    and skip: "\<And>l os fs. J (l, os, fs) \<Longrightarrow> K (l, os, if map_of fs (to_upper y) = None then btm_insert (to_upper y) q fs else fs)"
  shows "leads (\<lambda>s. J (view s)) (cover tx (recording b) spec (y, q, pr)) (\<lambda>s. K (view s))"
  unfolding cover_def split Let_def
proof (rule leads_get, goal_cases)
  case (1 s)
  let ?key = "to_upper y" and ?os = "fl_orders s" and ?fs = "fl_first_short s" and ?l = "snd (fl_world s)"
  let ?first = "case map_of ?fs ?key of Some f \<Rightarrow> f | None \<Rightarrow> q"
  let ?used = "cover_quantity_used ?os y"
  let ?a = "case dsub ?first ?used of Inr a \<Rightarrow> a | Inl _ \<Rightarrow> dec_ZERO"
  let ?fs' = "if map_of ?fs ?key = None then btm_insert ?key q ?fs else ?fs"
  have J: "J (?l, ?os, ?fs)" using 1 by (simp add: view_def)
  have f: "dec_ok ?first" using fs [OF J] legal by (force simp: legal_leg_def dest: map_of_SomeD split: option.splits)
  have a: "dec_ok ?a" using dsub_ok [OF _ f] by (auto split: sum.splits)
  let ?mid = "\<lambda>t. view t = (?l, ?os, ?fs')"
  have skip': "leads ?mid (fail c m) (\<lambda>t. K (view t))" for c m
    using skip [OF J] by (simp add: leads_def fail_def change_def)
  have "leads ?mid (place_leg tx (recording b) spec Buy (y, q', pr)) (\<lambda>t. K (view t))"
    if pos: "is_positive ?a" and q': "cover_size (recording b) spec y q pr ?a = Some q'" for q'
  proof (rule step [OF J _ refl])
    note c = cover_size_legal [OF q' legal a book]
    show "legal_leg spec snap Buy y q'" using c by blast
    obtain v where v: "dsub ?first ?used = Inr v" "?a = v"
      using pos by (cases "dsub ?first ?used") (auto simp: is_positive_def)
    show "dval q' \<le> dval ?first - dval ?used" using c dsub_val [OF v(1) f] unfolding v(2) by simp
  qed
  with skip' show ?case
    by (intro leads_bind [where R = ?mid])
      (auto simp: view_def intro!: leads_change split: option.splits)
qed

lemma btm_insert_all: "\<forall>d\<in>snd ` set m. P d \<Longrightarrow> P v \<Longrightarrow> \<forall>d\<in>snd ` set (btm_insert k v m). P d"
  using btm_insert_values [of k v m] by blast

lemma set_btm_insert_subset: "set (btm_insert k v m) \<subseteq> insert (k, v) (set m)"
  by (induction k v m rule: btm_insert.induct) auto

lemma keeps_cover_reduce:
  assumes "legal_leg spec snap Buy y q" "book_ok (fs_venue_rules spec)"
  shows "keeps (\<lambda>s. reduce_inv spec l0 (Some snap) (view s)) (cover tx (recording b) spec (y, q, pr))"
proof (rule leads_cover [OF assms])
  fix l os fs
  assume J: "reduce_inv spec l0 (Some snap) (l, os, fs)"
  then show "\<forall>d\<in>snd ` set fs. dec_ok d" by (simp add: reduce_inv_def)
  let ?fs' = "if map_of fs (to_upper y) = None then btm_insert (to_upper y) q fs else fs"
  have "\<forall>d\<in>snd ` set ?fs'. dec_ok d"
  proof (cases "map_of fs (to_upper y) = None")
    case True
    have "\<forall>d\<in>snd ` set (btm_insert (to_upper y) q fs). dec_ok d"
      by (rule btm_insert_all) (use J assms(1) in \<open>simp_all add: reduce_inv_def legal_leg_def\<close>)
    with True show ?thesis by simp
  qed (use J in \<open>auto simp: reduce_inv_def\<close>)
  then show K: "reduce_inv spec l0 (Some snap) (l, os, ?fs')" using J by (simp add: reduce_inv_def)
  fix q'
  assume "legal_leg spec snap Buy y q'"
  from leads_place_leg [OF reduce_leg_closed [OF this]]
  show "leads (\<lambda>t. view t = (l, os, ?fs')) (place_leg tx (recording b) spec Buy (y, q', pr))
      (\<lambda>t. reduce_inv spec l0 (Some snap) (view t))"
    by (rule leads_mono) (use K in auto)
qed

lemma reduce_inv_weaken: "reduce_inv spec l0 (Some snap) v \<Longrightarrow> reduce_inv spec l0 None v"
  by (auto simp: reduce_inv_def)

text \<open>A read of the account: an error leaves the log, a snapshot becomes the last one.\<close>

definition snapshots_ok :: "'w broker \<Rightarrow> bool" where
  "snapshots_ok b \<longleftrightarrow> (\<forall>t w snap w'. bk_snapshot b t w = (Inr snap, w') \<longrightarrow> snapshot_ok snap)"

lemma leads_snapshot:
  assumes "\<And>e. leads (\<lambda>s. J (view s)) (f (Inl e)) Q"
    and "\<And>snap. snapshots_ok b \<Longrightarrow> snapshot_ok snap \<Longrightarrow>
      leads (\<lambda>s. \<exists>l os fs. J (l, os, fs) \<and> view s = (SawSnapshot snap # l, os, fs)) (f (Inr snap)) Q"
    and "snapshots_ok (b :: 'w broker)"
  shows "leads (\<lambda>s. J (view s)) (State_Monad.bind (io (bk_snapshot (recording b) t)) f) Q"
  unfolding leads_def
proof (intro allI impI)
  fix s :: "('w \<times> log_event list) flattener"
  assume J: "J (view s)"
  obtain r w' where r: "bk_snapshot b t (fst (fl_world s)) = (r, w')" by (cases "bk_snapshot b t (fst (fl_world s))")
  let ?s = "s\<lparr>fl_world := (w', case r of Inr snap \<Rightarrow> SawSnapshot snap # snd (fl_world s) | Inl _ \<Rightarrow> snd (fl_world s))\<rparr>"
  have run: "run_state (io (bk_snapshot (recording b) t)) s = (r, ?s)"
    using r by (cases "fl_world s"; cases r) (simp_all add: io_def recording_def)
  show "Q (snd (run_state (State_Monad.bind (io (bk_snapshot (recording b) t)) f) s))"
  proof (cases r)
    case (Inl e)
    with J run assms(1) [of e] show ?thesis by (simp add: leads_def view_def)
  next
    case (Inr snap)
    have "snapshot_ok snap" using assms(3) r Inr by (auto simp: snapshots_ok_def)
    from assms(2) [OF assms(3) this] J run Inr show ?thesis by (auto simp: leads_def view_def)
  qed
qed

text \<open>
  The rounds keep an invariant of the view when every plan of a readable snapshot does, from the
  moment its snapshot is the last one.
\<close>

lemma keeps_rounds:
  assumes b: "snapshots_ok b"
    and saw: "\<And>snap l os fs. snapshot_ok snap \<Longrightarrow> sp_covers (plan_sells tx spec (bk_venue b) snap) = [] \<Longrightarrow>
      J (l, os, fs) \<Longrightarrow> J (SawSnapshot snap # l, os, fs)"
    and trade: "\<And>snap. snapshot_ok snap \<Longrightarrow>
      leads (\<lambda>s. \<exists>l os fs. J (l, os, fs) \<and> view s = (SawSnapshot snap # l, os, fs))
        (trade_plan tx (recording b) spec (plan_sells tx spec (bk_venue b) snap)) (\<lambda>s. J (view s))"
  shows "keeps (\<lambda>s. J (view s)) (flatten_rounds tx (recording b) spec k n du)"
proof (induction n arbitrary: k du)
  case (Suc n)
  let ?I = "\<lambda>s. J (view s)"
  have quit: "leads (\<lambda>s. \<exists>l os fs. J (l, os, fs) \<and> view s = (SawSnapshot snap # l, os, fs)) (State_Monad.return x) ?I"
    if "snapshot_ok snap" "sp_covers (plan_sells tx spec (bk_venue b) snap) = []" for snap x
    using saw [OF that] by (auto intro!: leads_return)
  show ?case unfolding flatten_rounds.simps
  proof (rule keeps_bind [OF keeps_cancel_own], rule leads_if, rule keeps_return,
      rule keeps_bind [OF keeps_quiet_calls(5)], rule leads_snapshot [OF _ _ b], goal_cases)
    case (1 go t e)
    then show ?case by (auto intro!: keeps_bind keeps_fail)
  next
    case (2 go t snap)
    show ?case unfolding sum.case Let_def recording_venue
      by (rule leads_if, rule quit [OF 2(3)], simp, rule leads_bind [OF trade [OF 2(3)] Suc.IH])
  qed
qed simp

lemma trade_plan_reduce:
  assumes "snapshot_ok snap" "book_ok (fs_venue_rules spec)"
  shows "leads (\<lambda>s. \<exists>l os fs. reduce_inv spec l0 None (l, os, fs) \<and> view s = (SawSnapshot snap # l, os, fs))
    (trade_plan tx (recording b) spec (plan_sells tx spec v snap)) (\<lambda>s. reduce_inv spec l0 None (view s))"
proof -
  have ok: "plan_ok spec snap (plan_sells tx spec v snap)" using assms by (rule plan_sells_ok)
  have "keeps (\<lambda>s. reduce_inv spec l0 (Some snap) (view s)) (trade_plan tx (recording b) spec (plan_sells tx spec v snap))"
    unfolding trade_plan_def
    using ok assms(2) by (auto simp: plan_ok_def intro!: keeps_bind keeps_for_each keeps_cover_reduce leads_place_leg reduce_leg_closed)
  then show ?thesis by (rule leads_mono) (auto simp: reduce_inv_def intro: log_from.intros)
qed

lemma keeps_rounds_reduce:
  assumes "snapshots_ok b" "book_ok (fs_venue_rules spec)"
  shows "keeps (\<lambda>s. reduce_inv spec l0 None (view s)) (flatten_rounds tx (recording b) spec k n du)"
proof (rule keeps_rounds [OF assms(1)])
  show "reduce_inv spec l0 None (SawSnapshot snap # l, os, fs)" if "reduce_inv spec l0 None (l, os, fs)" for snap l os fs
    using that by (auto simp: reduce_inv_def intro: log_from.intros)
qed (rule trade_plan_reduce [OF _ assms(2)])

section \<open>The stages of flatten\<close>

lemma flatten_stages:
  assumes "flatten tx b spec w0 = (rep, w')"
  obtains st w rounds du s1 residual verified dust unm s fin where
    "bk_now b w0 = (st, w)"
    "run_state (flatten_rounds tx b spec 0 (fs_max_rounds spec) ([], [])) (flattener_new w) = ((rounds, du), s1)"
    "run_state (verify_flat tx b spec du) s1 = ((residual, verified, dust, unm), s)"
    "bk_now b (fl_world s) = (fin, w')"
    "fr_orders rep = fl_orders s" "fr_failures rep = fl_failures s" "fr_dust rep = dust"
    "fr_verified_flat rep = verified" "fr_residual rep = residual"
    "fr_verdict rep = (if \<not> verified \<or> list_ex (\<lambda>x. is_blocking (ff_code x)) (fl_failures s) then FvHaltAndAlert
       else if dust = [] then FvFlat else FvFlatWithDust)"
  using assms by (auto simp: flatten_def Let_def split: prod.splits)

lemma keeps_verify_flat:
  assumes "snapshots_ok b" and saw: "\<And>snap l os fs. snapshot_ok snap \<Longrightarrow> J (l, os, fs) \<Longrightarrow> J (SawSnapshot snap # l, os, fs)"
  shows "keeps (\<lambda>s. J (view s)) (verify_flat tx (recording b) spec du)"
  unfolding verify_flat_def
proof (rule keeps_bind [OF keeps_quiet_calls(5)], rule leads_snapshot [OF _ _ assms(1)], goal_cases)
  case (1 t e)
  then show ?case by (auto intro!: keeps_bind keeps_fail)
next
  case (2 t snap)
  have "keeps (\<lambda>s. J (view s)) (case Inr snap of Inl e \<Rightarrow> m e | Inr snap \<Rightarrow> n snap)"
    if "keeps (\<lambda>s. J (view s)) (n snap)" for m and n :: "_ \<Rightarrow> (_, _) state" using that by simp
  then show ?case
    by (rule leads_mono)
      (auto simp: Let_def intro!: saw [OF 2(2)] keeps_bind keeps_fail leads_change leads_if)
qed

lemma flatten_view:
  assumes "snapshots_ok b" and saw: "\<And>snap l os fs. snapshot_ok snap \<Longrightarrow> J (l, os, fs) \<Longrightarrow> J (SawSnapshot snap # l, os, fs)"
    and rounds: "\<And>k n du. keeps (\<lambda>s. K (view s)) (flatten_rounds tx (recording b) spec k n du)"
    and init: "K (l0, [], [])" and weaken: "\<And>v. K v \<Longrightarrow> J v"
    and run: "flatten tx (recording b) spec (w, l0) = (rep, w', events)"
  shows "\<exists>fs. J (events, fr_orders rep, fs)"
  using run
proof (rule flatten_stages)
  fix st w1 rnds du s1 residual verified dust unm s fin
  assume n: "bk_now (recording b) (w, l0) = (st, w1)"
    and r: "run_state (flatten_rounds tx (recording b) spec 0 (fs_max_rounds spec) ([], [])) (flattener_new w1) = ((rnds, du), s1)"
    and v: "run_state (verify_flat tx (recording b) spec du) s1 = ((residual, verified, dust, unm), s)"
    and f: "bk_now (recording b) (fl_world s) = (fin, w', events)" and o: "fr_orders rep = fl_orders s"
  have "snd w1 = l0" using n by (auto simp: recording_def dest: lift_io_log)
  then have "K (view (flattener_new w1))" using init by (simp add: view_def flattener_new_def)
  then have "J (view s1)" using leads_run [OF rounds _ r] weaken by blast
  moreover have "keeps (\<lambda>s. J (view s)) (verify_flat tx (recording b) spec du)"
    by (rule keeps_verify_flat [OF assms(1)]) (rule saw)
  ultimately have "J (view s)" using v by (metis leads_run)
  moreover have "events = snd (fl_world s)" using f by (auto simp: recording_def dest: lift_io_log)
  ultimately show ?thesis using o by (auto simp: view_def)
qed

lemma flatten_log:
  assumes "snapshots_ok b" and "book_ok (fs_venue_rules spec)"
    and "flatten tx (recording b) spec (w, l0) = (rep, w', events)"
  shows "log_from (closes_position spec) l0 events"
proof -
  have "\<exists>fs. reduce_inv spec l0 None (events, fr_orders rep, fs)"
    by (rule flatten_view [OF assms(1) _ keeps_rounds_reduce [OF assms(1,2)] _ _ assms(3)])
      (auto simp: reduce_inv_def intro: log_from.intros)
  then show ?thesis by (auto simp: reduce_inv_def)
qed

text \<open>
  C9: flatten only ever reduces. Against any broker whose snapshots carry machine decimals, and venue
  rules that round down, every order flatten asks the broker to place is a market order in an
  instrument of the mandate's universe whose size is positive and at most the position of the last
  snapshot read before it: a sell of a long, or a buy that covers a short. It can neither open nor
  flip a position that the read shows.
\<close>

theorem flatten_only_reduces:
  assumes "snapshots_ok b" and "book_ok (fs_venue_rules spec)"
    and "flatten tx (recording b) spec (w, []) = (rep, w', events)"
  shows "log_ok (closes_position spec) events"
  by (rule log_from_ok [OF flatten_log [OF assms]])

section \<open>Covers are bounded by the first short seen\<close>

text \<open>
  The shorts a snapshot shows as coverable, in the plan's order, and those of a log (its newest
  event first) from the first snapshot on. The first short of an instrument is that of the first
  snapshot that shows one.
\<close>

definition shorts_of :: "flat_text \<Rightarrow> flatten_spec \<Rightarrow> string \<Rightarrow> broker_snapshot \<Rightarrow> (string \<times> dec) list" where
  "shorts_of tx spec venue snap = map (\<lambda>(y, q, _). (to_upper y, q)) (sp_covers (plan_sells tx spec venue snap))"

fun shorts_seen :: "flat_text \<Rightarrow> flatten_spec \<Rightarrow> string \<Rightarrow> log_event list \<Rightarrow> (string \<times> dec) list" where
  "shorts_seen tx spec venue [] = []"
| "shorts_seen tx spec venue (SawSnapshot snap # l) = shorts_seen tx spec venue l @ shorts_of tx spec venue snap"
| "shorts_seen tx spec venue (Placed r # l) = shorts_seen tx spec venue l"

definition first_short_in :: "flat_text \<Rightarrow> flatten_spec \<Rightarrow> string \<Rightarrow> log_event list \<Rightarrow> string \<Rightarrow> broker_snapshot \<Rightarrow> dec \<Rightarrow> bool" where
  "first_short_in tx spec venue l k snap f \<longleftrightarrow> (\<exists>newer older. l = newer @ SawSnapshot snap # older \<and>
     map_of (shorts_of tx spec venue snap) k = Some f \<and>
     (\<forall>v. SawSnapshot v \<in> set older \<longrightarrow> map_of (shorts_of tx spec venue v) k = None))"

lemma shorts_seen_None:
  "map_of (shorts_seen tx spec venue l) k = None \<Longrightarrow> SawSnapshot v \<in> set l \<Longrightarrow> map_of (shorts_of tx spec venue v) k = None"
  by (induction tx spec venue l rule: shorts_seen.induct) (auto simp: map_add_None)

lemma shorts_seen_first:
  "map_of (shorts_seen tx spec venue l) k = Some f \<Longrightarrow> \<exists>snap. first_short_in tx spec venue l k snap f"
proof (induction tx spec venue l rule: shorts_seen.induct)
  case (2 tx spec venue snap l)
  show ?case
  proof (cases "map_of (shorts_seen tx spec venue l) k")
    case None
    with 2(2) have "map_of (shorts_of tx spec venue snap) k = Some f" by (simp add: map_add_Some_iff)
    with None shorts_seen_None show ?thesis unfolding first_short_in_def by (metis append_Nil)
  next
    case (Some g)
    with 2(2) have "g = f" by (simp add: map_add_def)
    with Some 2(1) obtain s where "first_short_in tx spec venue l k s f" by blast
    then show ?thesis unfolding first_short_in_def by (metis append_Cons)
  qed
next
  case (3 tx spec venue r l)
  then show ?case unfolding first_short_in_def by (metis append_Cons shorts_seen.simps(3))
qed simp

text \<open>What was bought back of an instrument: the whole order when it never settled, else what was executed.\<close>

definition bought_back :: "flatten_order list \<Rightarrow> string \<Rightarrow> dec list" where
  "bought_back xs y = map (\<lambda>x. if fo_outcome x = FoUnsettled then fo_quantity x else fo_executed_quantity x)
     (filter (\<lambda>x. fo_side x = Buy \<and> to_upper (fo_symbol x) = to_upper y) xs)"

lemma add_or_keep_sum: "try_fold dadd s ds = Inr t \<Longrightarrow> foldl add_or_keep s ds = t"
proof (induction ds arbitrary: s)
  case (Cons d ds)
  then show ?case by (auto simp: add_or_keep_def res_inv)
qed simp

lemma cover_quantity_used_sum:
  assumes "dsum (bought_back xs y) = Inr t" and "list_all dec_ok (bought_back xs y)"
  shows "dval (cover_quantity_used xs y) = sum_list (map dval (bought_back xs y))"
proof -
  have "cover_quantity_used xs y = foldl add_or_keep dec_ZERO (bought_back xs y)"
    by (simp add: cover_quantity_used_def bought_back_def cover_counted_def [abs_def] foldl_map eq_ignore_case_upper cong: foldl_cong)
  with assms show ?thesis using add_or_keep_sum [of dec_ZERO _ t] try_fold_dadd [of dec_ZERO _ t] by (simp add: dsum_def)
qed

text \<open>
  Every cover is within the first short of its instrument, less what the orders before it count as
  bought back; \<open>firsts\<close> gives the first shorts.
\<close>

definition covers_bounded :: "flatten_order list \<Rightarrow> (string \<rightharpoonup> dec) \<Rightarrow> bool" where
  "covers_bounded os firsts \<longleftrightarrow> (\<forall>xs x ys. os = xs @ x # ys \<longrightarrow> fo_side x = Buy \<longrightarrow>
     (\<exists>f. firsts (to_upper (fo_symbol x)) = Some f \<and>
       dval (fo_quantity x) \<le> dval f - dval (cover_quantity_used xs (fo_symbol x))))"

lemma covers_bounded_snoc:
  assumes b: "covers_bounded os fs"
    and x: "fo_side x = Buy \<Longrightarrow> \<exists>f. fs (to_upper (fo_symbol x)) = Some f \<and>
      dval (fo_quantity x) \<le> dval f - dval (cover_quantity_used os (fo_symbol x))"
  shows "covers_bounded (os @ [x]) fs"
  unfolding covers_bounded_def
proof (intro allI impI)
  fix xs y ys
  assume e: "os @ [x] = xs @ y # ys" and y: "fo_side y = Buy"
  show "\<exists>f. fs (to_upper (fo_symbol y)) = Some f \<and> dval (fo_quantity y) \<le> dval f - dval (cover_quantity_used xs (fo_symbol y))"
  proof (cases ys rule: rev_cases)
    case Nil
    with e x y show ?thesis by simp
  next
    case (snoc zs z)
    with e have "os = xs @ y # zs" by simp
    with b y show ?thesis unfolding covers_bounded_def by blast
  qed
qed

lemma covers_bounded_mono: "covers_bounded os fs \<Longrightarrow> fs \<subseteq>\<^sub>m fs' \<Longrightarrow> covers_bounded os fs'"
  unfolding covers_bounded_def map_le_def by (metis domI)

text \<open>\<open>ws\<close> are the shorts considered so far and \<open>P\<close> is what is known of the log.\<close>

definition cover_inv :: "(log_event list \<Rightarrow> bool) \<Rightarrow> (string \<times> dec) list \<Rightarrow> fview \<Rightarrow> bool" where
  "cover_inv P ws = (\<lambda>(l, os, fs). covers_bounded os (map_of ws) \<and> map_of fs = map_of ws \<and> (\<forall>d\<in>snd ` set fs. dec_ok d) \<and> P l)"

lemma first_short_kept:
  assumes "map_of fs = map_of ws"
  shows "map_of (if map_of fs k = None then btm_insert k q fs else fs) = map_of (ws @ [(k, q)])"
  using assms by (auto simp: fun_eq_iff map_of_btm_insert map_add_def split: option.splits if_splits)

lemma leads_cover_bound:
  assumes "legal_leg spec snap Buy y q" "book_ok (fs_venue_rules spec)" and P: "\<And>r l. P l \<Longrightarrow> P (Placed r # l)"
  shows "leads (\<lambda>s. cover_inv P ws (view s)) (cover tx (recording b) spec (y, q, pr))
    (\<lambda>s. cover_inv P (ws @ [(to_upper y, q)]) (view s))"
proof (rule leads_cover [OF assms(1,2)])
  fix l os fs
  assume J: "cover_inv P ws (l, os, fs)"
  then show ok: "\<forall>d\<in>snd ` set fs. dec_ok d" by (simp add: cover_inv_def)
  let ?k = "to_upper y"
  let ?fs' = "if map_of fs ?k = None then btm_insert ?k q fs else fs" and ?ws' = "ws @ [(?k, q)]"
  have "covers_bounded os (map_of ws)" using J by (simp add: cover_inv_def)
  then have os: "covers_bounded os (map_of ?ws')" by (rule covers_bounded_mono) (auto simp: map_le_def map_add_def)
  have fs': "map_of ?fs' = map_of ?ws'" using J by (intro first_short_kept) (simp add: cover_inv_def)
  have "dec_ok q" using assms(1) by (simp add: legal_leg_def)
  from btm_insert_all [OF ok this] ok have ok': "\<forall>d\<in>snd ` set ?fs'. dec_ok d" by (simp only: split: if_split) blast
  have l: "P l" using J by (simp add: cover_inv_def)
  show "cover_inv P ?ws' (l, os, ?fs')" unfolding cover_inv_def using os fs' ok' l by blast
  fix q' first
  assume f: "first = (case map_of fs ?k of Some f \<Rightarrow> f | None \<Rightarrow> q)"
    and bound: "dval q' \<le> dval first - dval (cover_quantity_used os y)"
  have first: "map_of ?ws' ?k = Some first" using f fs' J by (auto simp: cover_inv_def map_add_def split: option.splits)
  let ?J = "\<lambda>(l1, os1, fs1). os1 = os \<and> fs1 = ?fs' \<and> P l1"
  have "leg_closed ?J (cover_inv P ?ws') y Buy q'"
    unfolding leg_closed_def
  proof (intro conjI allI impI)
    fix x :: flatten_order and l1 os1 fs1
    assume x: "fo_symbol x = y \<and> fo_side x = Buy \<and> fo_quantity x = q'" and "?J (l1, os1, fs1)"
    then have e: "os1 = os" "fs1 = ?fs'" "P l1" by auto
    have "covers_bounded (os @ [x]) (map_of ?ws')" using x first bound by (intro covers_bounded_snoc [OF os]) auto
    then show "cover_inv P ?ws' (l1, os1 @ [x], fs1)" unfolding cover_inv_def e using fs' ok' e(3) by blast
  next
    fix v assume "?J v"
    then show "cover_inv P ?ws' v" unfolding cover_inv_def using os fs' ok' by (cases v) auto
  qed (use P in auto)
  from leads_place_leg [OF this]
  show "leads (\<lambda>t. view t = (l, os, ?fs')) (place_leg tx (recording b) spec Buy (y, q', pr)) (\<lambda>t. cover_inv P ?ws' (view t))"
    by (rule leads_mono) (use l in auto)
qed

lemma leads_for_each:
  assumes "\<And>ws x. x \<in> set xs \<Longrightarrow> leads (I ws) (f x) (I (ws @ [g x]))"
  shows "leads (I ws) (for_each f xs) (I (ws @ map g xs))"
  using assms
proof (induction xs arbitrary: ws)
  case Nil
  then show ?case by (simp add: leads_def)
next
  case (Cons x xs)
  have "leads (I (ws @ [g x])) (for_each f xs) (I ((ws @ [g x]) @ map g xs))" by (rule Cons.IH) (simp add: Cons.prems)
  then show ?case by (auto intro!: leads_bind [where R = "I (ws @ [g x])"] Cons.prems)
qed

lemma sell_leg_closed: "(\<And>r l. P l \<Longrightarrow> P (Placed r # l)) \<Longrightarrow> leg_closed (cover_inv P ws) (cover_inv P ws) y Sell q"
  by (auto simp: leg_closed_def cover_inv_def intro: covers_bounded_snoc)

definition log_sane :: "log_event list \<Rightarrow> bool" where
  "log_sane l \<longleftrightarrow> (\<forall>snap. SawSnapshot snap \<in> set l \<longrightarrow> snapshot_ok snap)"

lemma log_sane_Cons [simp]:
  "log_sane []" "log_sane (Placed r # l) = log_sane l" "log_sane (SawSnapshot snap # l) \<longleftrightarrow> snapshot_ok snap \<and> log_sane l"
  by (auto simp: log_sane_def)

text \<open>A round: the shorts of its snapshot are considered one after another, then the longs are sold.\<close>

lemma trade_plan_covers:
  assumes "snapshot_ok snap" "book_ok (fs_venue_rules spec)"
  shows "leads (\<lambda>s. \<exists>l os fs. cover_inv log_sane (shorts_seen tx spec v l) (l, os, fs) \<and> view s = (SawSnapshot snap # l, os, fs))
    (trade_plan tx (recording b) spec (plan_sells tx spec v snap))
    (\<lambda>s. cover_inv log_sane (shorts_seen tx spec v (fst (view s))) (view s))"
proof -
  let ?p = "plan_sells tx spec v snap"
  have ok: "plan_ok spec snap ?p" using assms by (rule plan_sells_ok)
  have "leads (\<lambda>s. cover_inv P ws (view s)) (trade_plan tx (recording b) spec ?p) (\<lambda>s. cover_inv P (ws @ shorts_of tx spec v snap) (view s))"
    if P: "\<And>r l. P l \<Longrightarrow> P (Placed r # l)" for P ws
    unfolding trade_plan_def
  proof (rule leads_bind)
    show "leads (\<lambda>s. cover_inv P ws (view s)) (for_each (cover tx (recording b) spec) (sp_covers ?p))
        (\<lambda>s. cover_inv P (ws @ shorts_of tx spec v snap) (view s))"
      unfolding shorts_of_def
      by (rule leads_for_each [where I = "\<lambda>ws s. cover_inv P ws (view s)"])
        (use ok assms(2) P in \<open>auto simp: plan_ok_def intro!: leads_cover_bound\<close>)
    show "keeps (\<lambda>s. cover_inv P (ws @ shorts_of tx spec v snap) (view s)) (for_each (place_leg tx (recording b) spec Sell) (sp_sells ?p))"
      using P by (auto intro!: keeps_for_each leads_place_leg sell_leg_closed)
  qed
  note trade = this
  show ?thesis
    unfolding leads_def
  proof (intro allI impI, elim exE conjE)
    fix s :: "('a \<times> log_event list) flattener" and l os fs
    assume J: "cover_inv log_sane (shorts_seen tx spec v l) (l, os, fs)" and s: "view s = (SawSnapshot snap # l, os, fs)"
    let ?P = "\<lambda>l'. log_sane l' \<and> shorts_seen tx spec v l' = shorts_seen tx spec v l @ shorts_of tx spec v snap"
    have "cover_inv ?P (shorts_seen tx spec v l) (view s)" using J assms(1) s by (simp add: cover_inv_def)
    with trade [of ?P] have "cover_inv ?P (shorts_seen tx spec v l @ shorts_of tx spec v snap)
        (view (snd (run_state (trade_plan tx (recording b) spec ?p) s)))"
      unfolding leads_def by simp
    then show "cover_inv log_sane (shorts_seen tx spec v (fst (view (snd (run_state (trade_plan tx (recording b) spec ?p) s)))))
        (view (snd (run_state (trade_plan tx (recording b) spec ?p) s)))"
      by (cases "view (snd (run_state (trade_plan tx (recording b) spec ?p) s))") (simp add: cover_inv_def)
  qed
qed

lemma keeps_rounds_cover:
  assumes "snapshots_ok b" "book_ok (fs_venue_rules spec)"
  shows "keeps (\<lambda>s. cover_inv log_sane (shorts_seen tx spec (bk_venue b) (fst (view s))) (view s)) (flatten_rounds tx (recording b) spec k n du)"
  by (rule keeps_rounds [OF assms(1), where J = "\<lambda>v. cover_inv log_sane (shorts_seen tx spec (bk_venue b) (fst v)) v"])
    (use trade_plan_covers [OF _ assms(2)] in \<open>auto simp: cover_inv_def shorts_of_def\<close>)

text \<open>The final read may show a short for the first time; nothing is bought after it.\<close>

lemma flatten_covers:
  assumes "snapshots_ok b" and "book_ok (fs_venue_rules spec)"
    and "flatten tx (recording b) spec (w, []) = (rep, w', events)"
  shows "log_sane events \<and> covers_bounded (fr_orders rep) (map_of (shorts_seen tx spec (bk_venue b) events))"
proof -
  let ?J = "\<lambda>(l, os, fs :: (string, dec) btree_map). log_sane l \<and> covers_bounded os (map_of (shorts_seen tx spec (bk_venue b) l))"
  let ?K = "\<lambda>v. cover_inv log_sane (shorts_seen tx spec (bk_venue b) (fst v)) v"
  have "\<exists>fs. ?J (events, fr_orders rep, fs)"
  proof (rule flatten_view [OF assms(1), where J = ?J and K = ?K])
    show "?J (SawSnapshot snap # l, os, fs)" if "snapshot_ok snap" "?J (l, os, fs)" for snap l os fs
    proof -
      have "covers_bounded os (map_of (shorts_seen tx spec (bk_venue b) l))" using that by simp
      then have "covers_bounded os (map_of (shorts_seen tx spec (bk_venue b) (SawSnapshot snap # l)))"
        by (rule covers_bounded_mono) (auto simp: map_le_def map_add_def)
      with that show ?thesis by simp
    qed
    show "keeps (\<lambda>s. ?K (view s)) (flatten_rounds tx (recording b) spec k n du)" for k n du by (rule keeps_rounds_cover [OF assms(1,2)])
    show "?J v" if "?K v" for v using that by (cases v) (simp add: cover_inv_def)
  qed (use assms(3) in \<open>simp_all add: cover_inv_def covers_bounded_def\<close>)
  then show ?thesis by simp
qed

lemma first_short_held:
  assumes "first_short_in tx spec v l k snap f" and "log_sane l" and "book_ok (fs_venue_rules spec)"
  shows "0 < dval f \<and> (\<exists>h\<in>set (bs_holdings snap). to_upper (hd_symbol h) = k \<and> dval f \<le> - dval (hd_quantity h))"
proof -
  from assms have snap: "snapshot_ok snap" and m: "map_of (shorts_of tx spec v snap) k = Some f"
    by (auto simp: first_short_in_def log_sane_def)
  from map_of_SomeD [OF m] obtain y pr where y: "(y, f, pr) \<in> set (sp_covers (plan_sells tx spec v snap))" "to_upper y = k"
    by (auto simp: shorts_of_def)
  with plan_sells_ok [OF snap assms(3), of tx v] have "legal_leg spec snap Buy y f" by (auto simp: plan_ok_def)
  with y(2) show ?thesis by (fastforce simp: legal_leg_def)
qed


section \<open>What a flat verdict means\<close>

text \<open>A holding that needs no order: nothing held, not ours to sell, or refused by the venue as too small.\<close>

definition settled_holding :: "flatten_spec \<Rightarrow> string \<Rightarrow> holding \<Rightarrow> bool" where
  "settled_holding spec venue h \<longleftrightarrow>
     is_zero (hd_quantity h) \<or> to_upper (hd_symbol h) \<notin> set (fs_universe spec) \<or>
     (\<exists>sd held rules price e. closing (hd_quantity h) = Some (sd, held) \<and>
        book_get (fs_venue_rules spec) venue = Some rules \<and> price_of h = Some price \<and>
        vr_round_quantity rules (hd_symbol h) sd held price = Inl e \<and> is_dust_refusal e)"

definition plan_empty :: "sell_plan \<Rightarrow> bool" where
  "plan_empty p \<longleftrightarrow> sp_covers p = [] \<and> sp_sells p = [] \<and> sp_blockers p = []"

lemma plan_rounded_not_empty: "\<not> plan_empty (plan_rounded h sd held price q p)"
  by (simp add: plan_rounded_def plan_empty_def blocker_def Let_def)

lemma plan_holding_empty:
  assumes "plan_empty (plan_holding tx spec venue p h)"
  shows "plan_empty p \<and> settled_holding spec venue h"
proof (cases "is_zero (hd_quantity h) \<or> to_upper (hd_symbol h) \<notin> set (fs_universe spec)")
  case True
  with assms show ?thesis by (auto simp: plan_holding_def plan_empty_def settled_holding_def Let_def split: if_splits)
next
  case False
  have nb: "\<not> plan_empty (blocker m p)" for m by (simp add: plan_empty_def blocker_def)
  obtain sd held where c: "closing (hd_quantity h) = Some (sd, held)"
    using False assms nb by (cases "closing (hd_quantity h)") (auto simp: plan_holding_def Let_def)
  obtain rules where b: "book_get (fs_venue_rules spec) venue = Some rules"
    using False assms nb c by (cases "book_get (fs_venue_rules spec) venue") (auto simp: plan_holding_def Let_def)
  obtain price where pr: "price_of h = Some price"
    using False assms nb c b by (cases "price_of h") (auto simp: plan_holding_def Let_def)
  show ?thesis
  proof (cases "vr_round_quantity rules (hd_symbol h) sd held price")
    case (Inr q)
    with False assms c b pr plan_rounded_not_empty show ?thesis by (simp add: plan_holding_def Let_def)
  next
    case (Inl e)
    with False assms c b pr nb have "is_dust_refusal e" "plan_empty p"
      by (auto simp: plan_holding_def Let_def plan_empty_def blocker_def split: if_splits)
    with c b pr Inl show ?thesis by (auto simp: settled_holding_def)
  qed
qed

lemma plan_sells_empty:
  assumes "plan_empty (plan_sells tx spec venue snap)" and "h \<in> set (bs_holdings snap)"
  shows "settled_holding spec venue h"
proof -
  have "plan_empty p \<and> (\<forall>h\<in>set hs. settled_holding spec venue h)"
    if "plan_empty (foldl (plan_holding tx spec venue) p hs)" for p hs
    using that by (induction hs arbitrary: p) (auto dest: plan_holding_empty)
  with assms show ?thesis by (auto simp: plan_sells_def sort_by_key_def)
qed

lemma set_push_new [simp]: "set (push_new fs xs) = set fs \<union> set xs"
  by (induction fs xs rule: push_new.induct) auto

lemma residual_of_Nil: "residual_of p = [] \<longleftrightarrow> sp_covers p = [] \<and> sp_sells p = []"
  by (auto simp: residual_of_def)

definition sizing_blockers :: "sell_plan \<Rightarrow> bool" where
  "sizing_blockers p \<longleftrightarrow> (\<forall>x\<in>set (sp_blockers p). ff_code x = FcCannotSize)"

lemma sizing_blockers_simps [simp]:
  "sizing_blockers (blocker m p) = sizing_blockers p"
  "sizing_blockers (p\<lparr>sp_dust := d\<rparr>) = sizing_blockers p"
  "sizing_blockers (p\<lparr>sp_unmanaged := u\<rparr>) = sizing_blockers p"
  "sizing_blockers (p\<lparr>sp_covers := c\<rparr>) = sizing_blockers p"
  "sizing_blockers (p\<lparr>sp_sells := c\<rparr>) = sizing_blockers p"
  by (auto simp: sizing_blockers_def blocker_def)

lemma sizing_blockers_rounded [simp]: "sizing_blockers (plan_rounded h sd held price q p) = sizing_blockers p"
  by (simp add: plan_rounded_def Let_def del: append.simps)

lemma sizing_blockers_holding [simp]: "sizing_blockers (plan_holding tx spec venue p h) = sizing_blockers p"
proof (cases "closing (hd_quantity h)")
  case (Some c)
  then show ?thesis
    by (cases c; cases "book_get (fs_venue_rules spec) venue"; cases "price_of h")
      (simp_all add: plan_holding_def Let_def del: append.simps split: sum.split)
qed (simp add: plan_holding_def Let_def del: append.simps)

lemma blockers_cannot_size: "sizing_blockers (plan_sells tx spec venue snap)"
proof -
  have "sizing_blockers p \<Longrightarrow> sizing_blockers (foldl (plan_holding tx spec venue) p hs)" for p hs
    by (induction hs arbitrary: p) simp_all
  moreover have "sizing_blockers \<lparr>sp_covers = [], sp_sells = [], sp_dust = [], sp_unmanaged = [], sp_blockers = []\<rparr>"
    by (simp add: sizing_blockers_def)
  ultimately show ?thesis by (simp add: plan_sells_def)
qed

text \<open>The failures that stop \<open>verify_flat\<close> from calling the account flat, or that block the verdict.\<close>

definition clean :: "flatten_failure list \<Rightarrow> bool" where
  "clean fs \<longleftrightarrow> \<not> list_ex (\<lambda>x. ff_code x = FcShortHeld \<or> ff_code x = FcCannotSize) fs
     \<and> \<not> list_ex (\<lambda>x. is_blocking (ff_code x)) fs"

lemma clean_push_new: "clean (push_new fs xs) \<longleftrightarrow> clean fs \<and> clean xs"
  by (auto simp: clean_def list_ex_iff)

lemma clean_append [simp]: "clean (fs @ [x]) \<longleftrightarrow> clean fs \<and> clean [x]"
  by (auto simp: clean_def)

lemma clean_blockers: "sizing_blockers p \<Longrightarrow> clean (sp_blockers p) \<Longrightarrow> sp_blockers p = []"
  by (cases "sp_blockers p") (simp_all add: sizing_blockers_def clean_def)

lemma not_clean_end: "\<not> clean [\<lparr>ff_code = FcOpenOrdersRemain, ff_message = m\<rparr>]"
  by (simp add: clean_def is_blocking_def)

definition own_order :: "flatten_spec \<Rightarrow> order_report \<Rightarrow> bool" where
  "own_order spec r \<longleftrightarrow> is_own_order r (fs_known_order_ids spec)"

definition flat_snapshot :: "flat_text \<Rightarrow> flatten_spec \<Rightarrow> string \<Rightarrow> broker_snapshot \<Rightarrow> bool" where
  "flat_snapshot tx spec venue snap \<longleftrightarrow>
     (\<forall>r\<in>set (bs_open_orders snap). \<not> own_order spec r) \<and> plan_empty (plan_sells tx spec venue snap)"

lemma verify_flat_sound:
  assumes run: "run_state (verify_flat tx (recording b) spec du) s1 = ((residual, verified, dust, unm), s)"
    and verified and "clean (fl_failures s)"
  shows "\<exists>snap l. snd (fl_world s) = SawSnapshot snap # l \<and> flat_snapshot tx spec (bk_venue b) snap"
proof -
  obtain t w1 where now: "bk_now b (fst (fl_world s1)) = (t, w1)" by force
  obtain r w2 where sn: "bk_snapshot b t w1 = (r, w2)" by force
  obtain w l where w0: "fl_world s1 = (w, l)" by force
  show ?thesis
  proof (cases r)
    case (Inl e)
    with run now sn w0 \<open>verified\<close> show ?thesis
      by (simp add: verify_flat_def io_def recording_def lift_io_def fail_def change_def run_state_bind Let_def del: append.simps)
  next
    case (Inr snap)
    let ?p = "plan_sells tx spec (bk_venue b) snap"
    let ?own = "\<lambda>r. is_own_order r (fs_known_order_ids spec)"
    from run now sn w0 Inr \<open>verified\<close> \<open>clean _\<close>
    have "snd (fl_world s) = SawSnapshot snap # l \<and> residual_of ?p = [] \<and>
        \<not> list_ex ?own (bs_open_orders snap) \<and> clean (sp_blockers ?p)"
      by (cases "residual_of ?p = []"; cases "list_ex ?own (bs_open_orders snap)")
        (auto simp: verify_flat_def io_def recording_def lift_io_def fail_def change_def run_state_bind Let_def
           clean_push_new not_clean_end simp del: append.simps)
    then show ?thesis
      using clean_blockers [OF blockers_cannot_size]
      by (auto simp: flat_snapshot_def own_order_def plan_empty_def residual_of_Nil list_ex_iff)
  qed
qed

lemma verify_flat_checked:
  assumes "run_state (verify_flat tx b spec du) s1 = ((residual, verified, dust, unm), s)" and verified
  shows "\<not> list_ex (\<lambda>x. ff_code x = FcShortHeld \<or> ff_code x = FcCannotSize) (fl_failures s)"
  using assms
  by (auto simp: verify_flat_def io_def fail_def change_def run_state_bind Let_def
      simp del: append.simps split: prod.splits sum.splits if_splits)

text \<open>
  C10: a flat verdict is a checked one. When the report of flatten says flat, or flat with dust, the
  last thing the broker was asked is a snapshot that shows none of our orders open and no position
  left to close: every holding is zero, outside the universe, or refused by the venue as too small.
\<close>

theorem flat_verdict_sound:
  assumes "flatten tx (recording b) spec (w, []) = (rep, w', events)"
    and "fr_verdict rep \<noteq> FvHaltAndAlert"
  shows "\<exists>snap l. events = SawSnapshot snap # l \<and> (\<forall>r\<in>set (bs_open_orders snap). \<not> is_own_order r (fs_known_order_ids spec))
      \<and> (\<forall>h\<in>set (bs_holdings snap). settled_holding spec (bk_venue b) h)"
  using assms(1)
proof (rule flatten_stages)
  fix st w1 rnds du s1 residual verified dust unm s fin
  assume v: "run_state (verify_flat tx (recording b) spec du) s1 = ((residual, verified, dust, unm), s)"
    and f: "bk_now (recording b) (fl_world s) = (fin, w', events)" and "fr_failures rep = fl_failures s"
    and vd: "fr_verdict rep = (if \<not> verified \<or> list_ex (\<lambda>x. is_blocking (ff_code x)) (fl_failures s) then FvHaltAndAlert
       else if dust = [] then FvFlat else FvFlatWithDust)"
  have "verified" and nb: "\<not> list_ex (\<lambda>x. is_blocking (ff_code x)) (fl_failures s)"
    using vd assms(2) by (auto split: if_splits)
  moreover have "clean (fl_failures s)" using verify_flat_checked [OF v \<open>verified\<close>] nb by (simp add: clean_def)
  ultimately obtain snap l where "snd (fl_world s) = SawSnapshot snap # l" and "flat_snapshot tx spec (bk_venue b) snap"
    using verify_flat_sound [OF v] by blast
  moreover have "events = snd (fl_world s)" using f by (auto simp: recording_def dest: lift_io_log)
  ultimately show ?thesis by (auto simp: flat_snapshot_def own_order_def intro: plan_sells_empty)
qed

section \<open>A scripted account\<close>

text \<open>
  The world is the position in hundredths of a coin: it is long or short a half, and any order
  closes it. The concrete runs below show that the hypotheses of the theorems can hold.
\<close>

definition demo_text :: flat_text where
  "demo_text = \<lparr>ft_sha_hex = (\<lambda>_. ''00''), ft_error = (\<lambda>_. []), ft_snapshot_error = (\<lambda>_. []), ft_refusal = (\<lambda>_. []), ft_status = (\<lambda>_. [])\<rparr>"

definition demo_book :: venue_rule_book where
  "demo_book = book_with ''kraken'' (kraken_rules (\<lambda>_. []) builtin_pairs) book_new"

definition demo_spec :: flatten_spec where
  "demo_spec = flatten_spec_new ''acc'' ''k1'' [''BTC/USD''] demo_book []"

definition demo_snapshot :: "int \<Rightarrow> broker_snapshot" where
  "demo_snapshot held = example_snapshot\<lparr>bs_holdings := (if \<bar>held\<bar> = 50 then [\<lparr>hd_symbol = ''BTC/USD'', hd_asset_class = ''c'',
     hd_quantity = Dec held 2, hd_mark = Some (Dec 100 0), hd_market_value = Dec held 0\<rparr>] else [])\<rparr>"

definition demo_broker :: "int broker" where
  "demo_broker =
     \<lparr>bk_venue = ''kraken'',
      bk_snapshot = (\<lambda>_ held. (Inr (demo_snapshot held), held)),
      bk_place = (\<lambda>req _. (Inr (Accepted ''1'' None \<lparr>sent_broker_pair = [], sent_side = req_side req,
        sent_quantity = req_quantity req, sent_price = None, sent_userref = 1, sent_validate_only = False\<rparr> []), 0)),
      bk_get_order = (\<lambda>i held. (Inr example_report, held)),
      bk_open_orders = (\<lambda>held. (Inr [], held)),
      bk_find_by_tag = (\<lambda>t held. (Inr [], held)),
      bk_cancel_and_settle = (\<lambda>i held. (Inr (\<lparr>co_canceled_count = 0, co_pending = False\<rparr>, example_report), held)),
      bk_now = (\<lambda>held. (0, held)),
      bk_sleep_secs = (\<lambda>n held. ((), held))\<rparr>"


lemma demo_plans:
  "plan_sells demo_text demo_spec ''kraken'' (demo_snapshot 50) =
     \<lparr>sp_covers = [], sp_sells = [(''BTC/USD'', Dec 50000000 8, Dec 100 0)], sp_dust = [], sp_unmanaged = [], sp_blockers = []\<rparr>
   \<and> plan_sells demo_text demo_spec ''kraken'' (demo_snapshot (- 50)) =
     \<lparr>sp_covers = [(''BTC/USD'', Dec 50000000 8, Dec 100 0)], sp_sells = [], sp_dust = [], sp_unmanaged = [], sp_blockers = []\<rparr>
   \<and> plan_sells demo_text demo_spec ''kraken'' (demo_snapshot 0) =
     \<lparr>sp_covers = [], sp_sells = [], sp_dust = [], sp_unmanaged = [], sp_blockers = []\<rparr>"
  by code_simp

lemma demo_limits:
  "fs_max_rounds demo_spec = Suc (Suc (Suc (Suc 0)))" "fs_max_polls demo_spec = Suc (Suc (Suc 0))"
  "fs_max_tag_index demo_spec = Suc 24" "fs_known_order_ids demo_spec = []" "bk_venue demo_broker = ''kraken''"
  by (simp_all add: demo_spec_def flatten_spec_new_def demo_broker_def)

lemma demo_calls:
  "bk_now (recording demo_broker) (h, l) = (0, h, l)" "bk_open_orders (recording demo_broker) (h, l) = (Inr [], h, l)"
  "bk_snapshot (recording demo_broker) t (h, l) = (Inr (demo_snapshot h), h, SawSnapshot (demo_snapshot h) # l)"
  "bk_find_by_tag (recording demo_broker) g (h, l) = (Inr [], h, l)"
  "bk_get_order (recording demo_broker) i (h, l) = (Inr example_report, h, l)"
  "bk_place (recording demo_broker) req (h, l) = (Inr (Accepted ''1'' None \<lparr>sent_broker_pair = [], sent_side = req_side req,
        sent_quantity = req_quantity req, sent_price = None, sent_userref = 1, sent_validate_only = False\<rparr> []), 0, Placed req # l)"
  "bs_open_orders (demo_snapshot h) = []" "or_status example_report = Filled"
  by (simp_all add: recording_def demo_broker_def lift_io_def demo_snapshot_def example_snapshot_def example_report_def)

lemma demo_tag:
  assumes "fl_world s = (h, l)"
  shows "run_state (free_tag demo_text (recording demo_broker) demo_spec y sd) s = (Some (tag_for demo_text demo_spec y sd 1), s)"
proof -
  have "run_state (free_tag_from demo_text (recording demo_broker) demo_spec y sd 1 (Suc n)) s
      = (Some (tag_for demo_text demo_spec y sd 1), s)" for n
    using assms by (simp del: One_nat_def add: io_def demo_calls Let_def run_state_bind)
  then show ?thesis by (simp only: free_tag_def demo_limits)
qed

lemma demo_attempts: "place_attempts tx b spec req k 2 = place_attempts tx b spec req k (Suc 1)"
  by (simp only: numeral_2_eq_2 One_nat_def)

lemmas demo_steps = flatten_def flattener_new_def demo_limits demo_calls demo_plans [THEN conjunct1] demo_plans [THEN conjunct2, THEN conjunct1]
  demo_plans [THEN conjunct2, THEN conjunct2] cancel_own_def
  io_def trade_plan_def place_leg_def demo_tag demo_attempts settle_and_record_def settle_def record_report_def report_outcome_def
  push_order_def change_def verify_flat_def residual_of_def order_market_def order_base_def is_terminal_def Let_def run_state_bind

lemma demo_run:
  "flatten demo_text (recording demo_broker) demo_spec (50, []) = (rep, h, l) \<Longrightarrow>
     fr_verdict rep = FvFlat \<and> map (\<lambda>x. (fo_side x, fo_quantity x)) (fr_orders rep) = [(Sell, Dec 50000000 8)]"
  by (auto simp: demo_steps simp del: append.simps)

lemma demo_allowance:
  "dsub (Dec 50000000 8) (cover_quantity_used [] y) = Inr (Dec 50000000 8)" "is_positive (Dec 50000000 8)"
  "cover_size b spec y (Dec 50000000 8) price (Dec 50000000 8) = Some (Dec 50000000 8)"
  by (simp_all add: cover_quantity_used_def cover_size_def) code_simp+

lemma demo_run_short:
  "flatten demo_text (recording demo_broker) demo_spec (- 50, []) = (rep, h, l) \<Longrightarrow>
     fr_verdict rep = FvFlat \<and> map (\<lambda>x. (fo_side x, fo_quantity x)) (fr_orders rep) = [(Buy, Dec 50000000 8)]"
  by (auto simp: demo_steps cover_def demo_allowance simp del: append.simps)

lemma demo_snapshots: "snapshots_ok demo_broker"
  by (auto simp: snapshots_ok_def demo_broker_def demo_snapshot_def example_snapshot_def snapshot_ok_def dec_ok_def in_i128_bound)

lemma demo_rules: "book_ok (fs_venue_rules demo_spec)"
  by (simp add: demo_spec_def flatten_spec_new_def demo_book_def builtin_kraken_book_ok)

text \<open>A long of a half is sold and a short of a half is bought back, and the account is then flat.\<close>

theorem flatten_only_reduces_witness:
  "\<exists>rep h l. flatten demo_text (recording demo_broker) demo_spec (50, []) = (rep, h, l)
     \<and> map (\<lambda>x. (fo_side x, fo_quantity x)) (fr_orders rep) = [(Sell, Dec 50000000 8)] \<and> log_ok (closes_position demo_spec) l"
proof -
  obtain rep h l where r: "flatten demo_text (recording demo_broker) demo_spec (50, []) = (rep, h, l)"
    by (rule prod_cases3)
  from flatten_only_reduces [OF demo_snapshots demo_rules r] demo_run [OF r] r show ?thesis by auto
qed


theorem flat_verdict_sound_witness:
  "\<exists>rep h snap l. flatten demo_text (recording demo_broker) demo_spec (50, []) = (rep, h, SawSnapshot snap # l)
     \<and> fr_verdict rep = FvFlat \<and> (\<forall>x\<in>set (bs_holdings snap). settled_holding demo_spec ''kraken'' x)"
proof -
  obtain rep h l where r: "flatten demo_text (recording demo_broker) demo_spec (50, []) = (rep, h, l)"
    by (rule prod_cases3)
  then have v: "fr_verdict rep = FvFlat" using demo_run by blast
  then have "fr_verdict rep \<noteq> FvHaltAndAlert" by simp
  from flat_verdict_sound [OF r this] r v show ?thesis by (auto simp: demo_limits)
qed

end
