(* ===== verification/Pipeline_Inv.thy ===== *)
theory Pipeline_Inv
  imports Pipeline Flatten_Props
begin

text \<open>
  Invariants of a run, for every broker, store and data source. The context is put behind a recorder
  that logs the snapshots the broker returned and the orders it was asked to place. The locales state
  what an invariant has to survive for the steps of the run to keep it, one locale for the steps that
  refuse, one for those that trade; the properties are interpretations of them.
\<close>

section \<open>The recorded context\<close>

definition recorded :: "('p, 'w) run_context \<Rightarrow> ('p, 'w \<times> log_event list) run_context" where
  "recorded cx =
     \<lparr>cx_account_id = cx_account_id cx, cx_scheduled_for = cx_scheduled_for cx, cx_trading_day = cx_trading_day cx,
      cx_mode = cx_mode cx, cx_sleeves = cx_sleeves cx, cx_mandate = cx_mandate cx, cx_envelope = cx_envelope cx,
      cx_venue_rules = cx_venue_rules cx, cx_config = cx_config cx, cx_text = cx_text cx, cx_rules = cx_rules cx,
      cx_broker = recording (cx_broker cx), cx_environment = cx_environment cx,
      cx_source = (\<lambda>s t. lift_io (cx_source cx s t)), cx_prices = (\<lambda>ys t. lift_io (cx_prices cx ys t)),
      cx_load = (\<lambda>a. lift_io (cx_load cx a)), cx_save = (\<lambda>v s. lift_io (cx_save cx v s)),
      cx_begin = (\<lambda>k d t l. lift_io (cx_begin cx k d t l)), cx_journal_order = (\<lambda>k e. lift_io (cx_journal_order cx k e)),
      cx_in_flight = (\<lambda>a. lift_io (cx_in_flight cx a)), cx_finish = (\<lambda>r. lift_io (cx_finish cx r)),
      cx_last_snapshot = (\<lambda>a. lift_io (cx_last_snapshot cx a)), cx_known_order_ids = (\<lambda>a. lift_io (cx_known_order_ids cx a)),
      cx_day_counters = (\<lambda>a d. lift_io (cx_day_counters cx a d)),
      cx_last_acted_decision = (\<lambda>a s. lift_io (cx_last_acted_decision cx a s)),
      cx_notify = (\<lambda>x. lift_io (cx_notify cx x)), cx_kill_flag = lift_io (cx_kill_flag cx)\<rparr>"

lemma recorded_sel [simp]:
  "cx_account_id (recorded cx) = cx_account_id cx" "cx_mode (recorded cx) = cx_mode cx" "cx_sleeves (recorded cx) = cx_sleeves cx"
  "cx_mandate (recorded cx) = cx_mandate cx" "cx_envelope (recorded cx) = cx_envelope cx"
  "cx_venue_rules (recorded cx) = cx_venue_rules cx" "cx_config (recorded cx) = cx_config cx"
  "cx_text (recorded cx) = cx_text cx" "cx_rules (recorded cx) = cx_rules cx"
  "cx_broker (recorded cx) = recording (cx_broker cx)" "cx_environment (recorded cx) = cx_environment cx"
  "cx_scheduled_for (recorded cx) = cx_scheduled_for cx" "cx_trading_day (recorded cx) = cx_trading_day cx"
  by (simp_all add: recorded_def)

text \<open>What the invariants talk about.\<close>

record run_core =
  rc_log :: "log_event list"
  rc_plan :: "plan_summary option"
  rc_replan :: "plan_summary option"
  rc_placed :: "placed_order list"
  rc_flatten :: "flatten_report option"
  rc_policy :: "policy option"
  rc_paused :: "string list"
  rc_carried :: bool
  rc_outcome :: run_outcome

definition core_of :: "('p, 'w \<times> log_event list) run \<Rightarrow> run_core" where
  "core_of s =
     \<lparr>rc_log = snd (rn_world s), rc_plan = rr_plan (rn_rec s), rc_replan = rr_replan (rn_rec s),
      rc_placed = rr_placed (rn_rec s), rc_flatten = rr_flatten (rn_rec s), rc_policy = rn_policy s,
      rc_paused = rn_paused_tickets s, rc_carried = rn_carried s, rc_outcome = rr_outcome (rn_rec s)\<rparr>"

abbreviation steady_in :: "(run_core \<Rightarrow> bool) \<Rightarrow> (('p, 'w \<times> log_event list) run, 'a) state \<Rightarrow> bool" where
  "steady_in I m \<equiv> keeps (\<lambda>s. I (core_of s)) m"

section \<open>Composition\<close>

named_theorems run_keeps \<open>operations that keep every invariant of the core\<close>

lemma keeps_and_then [keeps_intros]: "keeps I m \<Longrightarrow> (\<And>x. keeps I (k x)) \<Longrightarrow> keeps I (and_then m k)"
  unfolding and_then_def by (rule keeps_bind) (auto split: sum.split)

lemma keeps_ok [keeps_intros, simp]: "keeps I (ok x)"
  by (simp add: ok_def)

lemma keeps_ask [keeps_intros, simp]: "keeps I (ask f)"
  by (simp add: leads_def ask_def)

lemma keeps_err [keeps_intros]: "keeps I m \<Longrightarrow> keeps I (err m)"
  unfolding err_def by (intro keeps_bind) auto

lemma keeps_case_prod [keeps_intros]: "(\<And>a b. keeps I (f a b)) \<Longrightarrow> keeps I (case x of (a, b) \<Rightarrow> f a b)"
  by (cases x) simp

lemma keeps_get_or_stop [keeps_intros]: "keeps I (get_or_stop f)"
  unfolding get_or_stop_def by (intro keeps_bind keeps_ask) (auto split: option.split)

lemma keeps_try_each [keeps_intros]: "(\<And>x. keeps I (f x)) \<Longrightarrow> keeps I (try_each f xs)"
  by (induction xs) (auto intro: keeps_and_then)

lemma core_of_updates [simp]:
  "core_of (s\<lparr>rn_cache := c\<rparr>) = core_of s" "core_of (s\<lparr>rn_state := st\<rparr>) = core_of s"
  "core_of (s\<lparr>rn_snapshot := sn\<rparr>) = core_of s" "core_of (s\<lparr>rn_risk_policy := rp\<rparr>) = core_of s"
  "core_of (s\<lparr>rn_known_ids := i\<rparr>) = core_of s" "core_of (s\<lparr>rn_pre_baseline := b\<rparr>) = core_of s"
  "core_of (s\<lparr>rn_applied_ids := i\<rparr>) = core_of s" "core_of (s\<lparr>rn_pending := p\<rparr>) = core_of s"
  "core_of (s\<lparr>rn_buys_paused := t\<rparr>) = core_of s"
  by (simp_all add: core_of_def)

lemma steady_change [run_keeps]: "(\<And>s. core_of (f s) = core_of s) \<Longrightarrow> steady_in I (change f)"
  by (simp add: leads_change)

lemma steady_edit [run_keeps]:
  "(\<And>r. rr_plan (f r) = rr_plan r \<and> rr_replan (f r) = rr_replan r \<and> rr_placed (f r) = rr_placed r \<and>
     rr_flatten (f r) = rr_flatten r \<and> rr_outcome (f r) = rr_outcome r) \<Longrightarrow> steady_in I (edit f)"
  unfolding edit_def by (intro steady_change) (simp add: core_of_def)

lemma steady_lift [run_keeps]: "steady_in I (call (lift_io f))"
  by (auto simp: leads_def call_def core_of_def dest: lift_io_log split: prod.splits)

lemma steady_broker [run_keeps]:
  "steady_in I (call (bk_now (recording b)))" "steady_in I (call (bk_get_order (recording b) i))"
  "steady_in I (call (bk_find_by_tag (recording b) t))" "steady_in I (call (bk_cancel_and_settle (recording b) i))"
  "steady_in I (call (bk_sleep_secs (recording b) n))"
  by (simp_all add: recording_def steady_lift)

lemma steady_context [run_keeps]:
  "steady_in I (call (cx_prices (recorded cx) ys t))" "steady_in I (call (cx_load (recorded cx) a))"
  "steady_in I (call (cx_save (recorded cx) v st))" "steady_in I (call (cx_begin (recorded cx) k d t l))"
  "steady_in I (call (cx_journal_order (recorded cx) k e))" "steady_in I (call (cx_in_flight (recorded cx) a))"
  "steady_in I (call (cx_finish (recorded cx) r))" "steady_in I (call (cx_last_snapshot (recorded cx) a))"
  "steady_in I (call (cx_known_order_ids (recorded cx) a))" "steady_in I (call (cx_day_counters (recorded cx) a d))"
  "steady_in I (call (cx_last_acted_decision (recorded cx) a y))" "steady_in I (call (cx_notify (recorded cx) x))"
  "steady_in I (call (cx_kill_flag (recorded cx)))"
  by (simp_all add: recorded_def steady_lift)

lemma steady_now [run_keeps]: "steady_in I (now (recorded cx))"
  by (simp add: now_def run_keeps)

lemma steady_note [run_keeps]: "steady_in I (note_step (recorded cx) n)"
  unfolding note_step_def by (intro keeps_bind run_keeps) simp

lemma steady_alert [run_keeps]: "steady_in I (raise_alert (recorded cx) c sev d)"
  unfolding raise_alert_def Let_def by (intro keeps_bind keeps_ask run_keeps) (simp split: sum.split)

lemma steady_push_transition [run_keeps]: "steady_in I (push_transition tr)"
  unfolding push_transition_def by (intro run_keeps) simp

lemma steady_add_known [run_keeps]: "steady_in I (add_known ids)"
  unfolding add_known_def by (intro run_keeps) simp

lemma steady_journal [run_keeps]: "steady_in I (journal (recorded cx) e)"
  unfolding journal_def by (intro keeps_bind keeps_ask run_keeps)

lemma steady_set_standing [run_keeps]: "steady_in I (set_standing (recorded cx) t)"
  unfolding set_standing_def by (intro keeps_bind run_keeps) simp

lemma evaluate_log:
  "evaluate ru (\<lambda>s t. lift_io (src s t)) sl t c w = (r, c', w') \<Longrightarrow> snd w' = snd w"
  by (auto simp: evaluate_def fetch_def Let_def dest: lift_io_log split: prod.splits sum.splits option.splits)

lemma steady_eval [run_keeps]: "steady_in I (eval_sleeve (recorded cx) sl)"
  by (auto simp: leads_def eval_sleeve_def core_of_def recorded_def dest: evaluate_log split: prod.splits)

lemma steady_settle_polls [run_keeps]: "steady_in I (settle_polls (recorded cx) i n p)"
  by (induction n arbitrary: p) (auto simp: Let_def intro!: keeps_intros run_keeps split: sum.split)

lemma steady_settle_into [run_keeps]: "steady_in I (settle_into (recorded cx) p i)"
  unfolding settle_into_def by (auto intro!: keeps_intros run_keeps split: sum.split)

lemma steady_adopt [run_keeps]: "steady_in I (adopt (recorded cx) p f)"
  unfolding adopt_def Let_def by (auto intro!: keeps_intros run_keeps)

lemma steady_resolve [run_keeps]: "steady_in I (resolve_unknown (recorded cx) reh t p)"
  unfolding resolve_unknown_def by (auto intro!: keeps_intros run_keeps split: sum.split list.split)

lemma steady_look_up_placed [run_keeps]: "steady_in I (look_up_placed (recorded cx) ps)"
  by (induction ps) (auto simp: last_look_up_def intro!: keeps_intros run_keeps)

section \<open>Steps that read\<close>

definition outcome_set :: "outcome_kind \<Rightarrow> string \<Rightarrow> run_core \<Rightarrow> run_core" where
  "outcome_set k x c = c\<lparr>rc_outcome := \<lparr>ro_kind = k, ro_code = x\<rparr>\<rparr>"

definition log_add :: "log_event \<Rightarrow> run_core \<Rightarrow> run_core" where
  "log_add e c = c\<lparr>rc_log := e # rc_log c\<rparr>"

lemma keeps_change_core:
  assumes "\<And>s. core_of (f s) = g (core_of s)" and "\<And>c. I c \<Longrightarrow> I (g c)"
  shows "steady_in I (change f)"
  by (intro leads_change) (simp add: assms)

lemma keeps_call:
  fixes f :: "'w \<times> log_event list \<Rightarrow> 'a \<times> 'w \<times> log_event list"
  assumes "\<And>w l x w' l' c. f (w, l) = (x, w', l') \<Longrightarrow> I c \<Longrightarrow> rc_log c = l \<Longrightarrow> I (c\<lparr>rc_log := l'\<rparr>)"
  shows "steady_in I (call f :: ('p, 'w \<times> log_event list, 'a) run_m)"
  unfolding leads_def
proof (intro allI impI)
  fix s :: "('p, 'w \<times> log_event list) run" assume s: "I (core_of s)"
  obtain w l where w: "rn_world s = (w, l)" by (rule prod.exhaust)
  obtain x w' l' where f: "f (w, l) = (x, w', l')" by (rule prod_cases3)
  have "core_of (s\<lparr>rn_world := (w', l')\<rparr>) = (core_of s)\<lparr>rc_log := l'\<rparr>" "rc_log (core_of s) = l"
    using w by (simp_all add: core_of_def)
  with assms [OF f s] w f show "I (core_of (snd (run_state (call f) s)))" by (simp add: call_def)
qed

lemma change_policy:
  "(\<And>c. I c \<Longrightarrow> I (c\<lparr>rc_policy := Some p\<rparr>)) \<Longrightarrow> steady_in I (change (\<lambda>s. s\<lparr>rn_risk_policy := rp, rn_policy := Some p\<rparr>))"
  by (rule keeps_change_core [where g = "\<lambda>c. c\<lparr>rc_policy := Some p\<rparr>"]) (simp_all add: core_of_def)

lemma keeps_stop_run:
  "(\<And>c. I c \<Longrightarrow> I (outcome_set k x c)) \<Longrightarrow> steady_in I (stop_run k x)"
  unfolding stop_run_def edit_def
  by (intro keeps_bind keeps_change_core [where g = "outcome_set k x"]) (auto simp: core_of_def outcome_set_def)

lemma keeps_refuse:
  "(\<And>c. I c \<Longrightarrow> I (outcome_set k x c)) \<Longrightarrow> steady_in I (refuse k x)"
  unfolding refuse_def by (intro keeps_err keeps_stop_run)

lemma keeps_snapshot:
  "(\<And>c v. I c \<Longrightarrow> I (log_add (SawSnapshot v) c)) \<Longrightarrow> steady_in I (call (bk_snapshot (recording b) t))"
  by (rule keeps_call) (force simp: recording_def log_add_def split: prod.splits sum.splits)

text \<open>An invariant that survives a failure, a halt and the reading of a snapshot.\<close>

locale run_invariant =
  fixes I :: "run_core \<Rightarrow> bool"
  assumes fails: "I c \<Longrightarrow> I (outcome_set OkFailedClosed x c)"
    and halts: "I c \<Longrightarrow> I (outcome_set OkHalted x c)"
    and sees: "I c \<Longrightarrow> I (log_add (SawSnapshot v) c)"
begin

lemma fail_closed_kept [run_keeps]: "steady_in I (fail_closed (recorded cx) c)"
  unfolding fail_closed_def by (intro keeps_bind run_keeps keeps_stop_run fails)

lemma read_snapshot_kept [run_keeps]: "steady_in I (read_snapshot (recorded cx) n)"
  unfolding read_snapshot_def
  by (intro keeps_bind run_keeps) (auto intro!: keeps_intros run_keeps keeps_snapshot sees split: sum.split)

lemma save_state_kept [run_keeps]: "steady_in I (save_state (recorded cx) st)"
  unfolding save_state_def by (auto intro!: keeps_intros run_keeps split: sum.split)

lemma step_venue_policy_kept [run_keeps]: "steady_in I (step_venue_policy (recorded cx))"
  unfolding step_venue_policy_def by (auto intro!: keeps_intros run_keeps)

lemma step_read_account_kept [run_keeps]: "steady_in I (step_read_account (recorded cx))"
  unfolding step_read_account_def by (auto intro!: keeps_intros run_keeps split: sum.split)

lemma look_up_entries_kept [run_keeps]: "steady_in I (look_up_entries (recorded cx) es)"
  by (induction es) (auto intro!: keeps_intros run_keeps split: sum.split)

lemma in_flight_orders_kept [run_keeps]: "steady_in I (in_flight_orders (recorded cx))"
  unfolding in_flight_orders_def by (auto intro!: keeps_intros run_keeps split: sum.split)

lemma halt_reconciliation_kept [run_keeps]: "steady_in I (halt_reconciliation (recorded cx) d)"
  unfolding halt_reconciliation_def
  by (auto intro!: keeps_intros run_keeps keeps_stop_run halts split: sum.split)

lemma judge_recon_kept [run_keeps]: "steady_in I (judge_recon (recorded cx) st r)"
  unfolding judge_recon_def by (auto intro!: keeps_intros run_keeps)

lemma step_recon_pre_kept [run_keeps]: "steady_in I (step_recon_pre (recorded cx))"
  unfolding step_recon_pre_def Let_def by (auto intro!: keeps_intros run_keeps split: sum.split option.split)

lemma pause_buys_kept [run_keeps]: "steady_in I (pause_buys (recorded cx) v d)"
  unfolding pause_buys_def Let_def by (auto intro!: keeps_intros run_keeps split: day_start_rule.split)

lemma build_targets_kept [run_keeps]: "steady_in I (build_targets (recorded cx) ps)"
  by (induction ps) (auto simp: Let_def intro!: keeps_intros run_keeps split: sum.split)

lemma step_targets_kept [run_keeps]: "steady_in I (step_targets (recorded cx))"
  unfolding step_targets_def by (auto intro!: keeps_intros run_keeps)

lemma prices_for_kept [run_keeps]: "steady_in I (prices_for (recorded cx) ts v)"
  unfolding prices_for_def by (auto intro!: keeps_intros run_keeps split: sum.split)

lemma day_counters_of_kept [run_keeps]: "steady_in I (day_counters_of (recorded cx))"
  unfolding day_counters_of_def by (auto intro!: keeps_intros run_keeps split: sum.split)

lemma plan_with_kept [run_keeps]: "steady_in I (plan_with (recorded cx) ts v d cr)"
  unfolding plan_with_def by (auto intro!: keeps_intros run_keeps split: sum.split)

lemma cancel_call_kept [run_keeps]:
  "steady_in I (call (cancel_own_open_orders tx (recording b) known n m))"
proof -
  have "snd (snd (cancel_own_open_orders tx (recording b) known n m w)) = snd w" for w
  proof -
    let ?spec = "(flatten_spec_new ''cleanup'' ''cleanup'' [] book_new known)\<lparr>fs_max_polls := n, fs_poll_secs := m\<rparr>"
    have "keeps (\<lambda>s. fst (view s) = snd w) (cancel_own tx (recording b) ?spec)" by (rule keeps_cancel_own)
    then show ?thesis
      by (simp add: cancel_own_open_orders_def Let_def leads_def view_def flattener_new_def)
  qed
  then show ?thesis by (intro keeps_call) (metis run_core.surjective run_core.update_convs(1) snd_conv)
qed

lemma step_cleanup_kept [run_keeps]: "steady_in I (step_cleanup (recorded cx))"
  unfolding step_cleanup_def by (auto intro!: keeps_intros run_keeps)

lemma last_acted_kept [run_keeps]: "steady_in I (last_acted (recorded cx) sl)"
  unfolding last_acted_def
  by (auto intro!: keeps_intros run_keeps split: cadence.split sum.split run_store_error.split)

lemma alert_gate_kept [run_keeps]: "steady_in I (alert_gate (recorded cx) sl e)"
  unfolding alert_gate_def by (auto intro!: keeps_intros run_keeps split: option.split)

lemma decide_sleeve_kept [run_keeps]: "steady_in I (decide_sleeve (recorded cx) x)"
  unfolding decide_sleeve_def
  by (cases x) (auto intro!: keeps_intros run_keeps split: sum.split eval_error.split)

end

section \<open>Steps that refuse\<close>

text \<open>The policies a run can plan with: the compiled mandate, and in a rehearsal its draft taken as active.\<close>

definition run_policy_ok :: "('p, 'w) run_context \<Rightarrow> policy \<Rightarrow> bool" where
  "run_policy_ok cx p \<longleftrightarrow> (\<exists>body. cx_mandate cx = Some body \<and>
     (p = mandate_policy cx body \<or> cx_mode cx \<noteq> Live \<and> (\<exists>env. p = with_envelope env (mandate_policy cx body))))"

lemma policy_ok_self: "cx_mandate cx = Some body \<Longrightarrow> run_policy_ok cx (mandate_policy cx body)"
  by (auto simp: run_policy_ok_def)

lemma policy_ok_draft:
  "cx_mandate cx = Some body \<Longrightarrow> cx_mode cx \<noteq> Live \<Longrightarrow> run_policy_ok cx (with_envelope env (mandate_policy cx body))"
  by (auto simp: run_policy_ok_def)

locale refusing_invariant = run_invariant I for I :: "run_core \<Rightarrow> bool" +
  fixes cx :: "('p, 'w) run_context"
  assumes refuses: "I c \<Longrightarrow> I (outcome_set k x c)"
    and compiles: "I c \<Longrightarrow> run_policy_ok cx p \<Longrightarrow> I (c\<lparr>rc_policy := Some p\<rparr>)"
begin

lemma refuse_kept [run_keeps]: "steady_in I (refuse k x)"
  by (intro keeps_refuse refuses)

lemma step_kill_flag_kept [run_keeps]: "steady_in I (step_kill_flag (recorded cx))"
  unfolding step_kill_flag_def by (auto intro!: keeps_intros run_keeps split: sum.split bool.split)

lemma mandate_accepted_kept: "run_policy_ok cx p \<Longrightarrow> steady_in I (mandate_accepted (recorded cx) body p)"
  unfolding mandate_accepted_def
  by (auto intro!: keeps_intros run_keeps change_policy compiles split: sum.split)

lemma mandate_policy_recorded [simp]: "mandate_policy (recorded cx) = mandate_policy cx"
  by (simp add: mandate_policy_def fun_eq_iff)

lemma step_mandate_kept [run_keeps]: "steady_in I (step_mandate (recorded cx))"
  unfolding step_mandate_def Let_def
  by (auto intro!: keeps_intros run_keeps mandate_accepted_kept policy_ok_self policy_ok_draft simp: rehearsal_allowed_def
      split: option.split standing.split)

lemma step_decisions_kept [run_keeps]: "steady_in I (step_decisions (recorded cx))"
  unfolding step_decisions_def nothing_pending_def
  by (auto intro!: keeps_intros run_keeps split: option.split)

end

section \<open>Steps that trade\<close>

text \<open>What a result tells when the invariant held before.\<close>

definition gives :: "('s \<Rightarrow> bool) \<Rightarrow> ('s, 'e + 'a) state \<Rightarrow> ('a \<Rightarrow> bool) \<Rightarrow> bool" where
  "gives P m Q \<longleftrightarrow> (\<forall>s x t. P s \<longrightarrow> run_state m s = (Inr x, t) \<longrightarrow> Q x)"

lemma keeps_and_then_gives:
  assumes "keeps I m" and "gives I m Q" and "\<And>x. Q x \<Longrightarrow> keeps I (k x)"
  shows "keeps I (and_then m k)"
  unfolding leads_def
proof (intro allI impI)
  fix s assume s: "I s"
  obtain r t where m: "run_state m s = (r, t)" by (rule prod.exhaust)
  with assms(1) s have t: "I t" by (auto simp: leads_def dest: spec [of _ s])
  show "I (snd (run_state (and_then m k) s))"
  proof (cases r)
    case (Inl e)
    with m t show ?thesis by (simp add: and_then_def)
  next
    case (Inr x)
    with assms(2) s m have "Q x" unfolding gives_def by blast
    with assms(3) t have "I (snd (run_state (k x) t))" by (auto simp: leads_def)
    with m Inr show ?thesis by (simp add: and_then_def)
  qed
qed

lemma keeps_ask_gives:
  assumes "\<And>s. I s \<Longrightarrow> Q (f s)" and "\<And>x. Q x \<Longrightarrow> keeps I (k x)"
  shows "keeps I (State_Monad.bind (ask f) k)"
  using assms by (simp add: leads_def ask_def)

lemma gives_and_then:
  assumes "keeps I m" and "\<And>x. gives I (k x) Q"
  shows "gives I (and_then m k) Q"
  unfolding gives_def
proof (intro allI impI)
  fix s x t assume s: "I s" and r: "run_state (and_then m k) s = (Inr x, t)"
  obtain y u where m: "run_state m s = (y, u)" by (rule prod.exhaust)
  with assms(1) s have "I u" by (auto simp: leads_def dest: spec [of _ s])
  with assms(2) m r show "Q x" by (cases y) (auto simp: and_then_def gives_def)
qed

lemma gives_bind:
  assumes "keeps I m" and "\<And>x. gives I (k x) Q"
  shows "gives I (State_Monad.bind m k) Q"
  unfolding gives_def
proof (intro allI impI)
  fix s x t assume s: "I s" and r: "run_state (State_Monad.bind m k) s = (Inr x, t)"
  obtain y u where m: "run_state m s = (y, u)" by (rule prod.exhaust)
  with assms(1) s have "I u" by (auto simp: leads_def dest: spec [of _ s])
  with assms(2) m r show "Q x" by (auto simp: gives_def)
qed

lemma gives_and_then_get:
  assumes "\<And>s y. I s \<Longrightarrow> f s = Some y \<Longrightarrow> R y" and "\<And>y. R y \<Longrightarrow> gives I (k y) Q"
  shows "gives I (and_then (get_or_stop f) k) Q"
  unfolding gives_def
proof (intro allI impI)
  fix s x t assume s: "I s" and r: "run_state (and_then (get_or_stop f) k) s = (Inr x, t)"
  then obtain y where "f s = Some y" "run_state (k y) s = (Inr x, t)"
    by (cases "f s") (auto simp: and_then_def get_or_stop_def ask_def ok_def)
  with assms s show "Q x" unfolding gives_def by blast
qed

lemma gives_ok: "Q x \<Longrightarrow> gives I (ok x) Q"
  by (simp add: gives_def ok_def)

lemma gives_err [simp]: "gives I (err m) Q"
  by (auto simp: gives_def err_def split: prod.splits)

text \<open>A plan the planner made for this account under the run's policy.\<close>

definition plan_of :: "('p, 'w) run_context \<Rightarrow> order_plan \<Rightarrow> bool" where
  "plan_of cx pl \<longleftrightarrow> (\<exists>targets snap halted t prices p scale day credit. run_policy_ok cx p \<and>
     make_plan (tx_plan (cx_text cx)) targets (snap_account_view snap (cx_account_id cx) halted t) prices (cx_venue_rules cx) p
       (plan_config_of cx scale day credit) = Inr pl)"

lemma plan_ofI:
  "run_policy_ok cx p \<Longrightarrow> make_plan (tx_plan (cx_text cx)) targets (snap_account_view snap (cx_account_id cx) halted t) prices
     (cx_venue_rules cx) p (plan_config_of cx scale day credit) = Inr pl \<Longrightarrow> plan_of cx pl"
  unfolding plan_of_def by blast

lemma plan_config_recorded [simp]: "plan_config_of (recorded cx) = plan_config_of cx"
  by (simp add: plan_config_of_def fun_eq_iff)

locale trading_invariant = run_invariant I for I :: "run_core \<Rightarrow> bool" +
  fixes cx :: "('p, 'w) run_context"
  assumes known: "I c \<Longrightarrow> rc_policy c = Some p \<Longrightarrow> run_policy_ok cx p"
    and plans: "I c \<Longrightarrow> plan_of cx pl \<Longrightarrow> I (c\<lparr>rc_plan := Some (summarize_plan pl)\<rparr>)"
    and replans: "I c \<Longrightarrow> plan_of cx pl \<Longrightarrow> I (c\<lparr>rc_replan := Some (summarize_plan pl)\<rparr>)"
    and records: "I c \<Longrightarrow> I (c\<lparr>rc_placed := ps\<rparr>)"
    and pauses: "I c \<Longrightarrow> I (c\<lparr>rc_paused := ts\<rparr>)"
    and places: "I c \<Longrightarrow> cx_mode cx \<noteq> Assisted \<Longrightarrow> plan_of cx pl \<Longrightarrow> x \<in> set (op_orders pl) \<Longrightarrow>
      I (log_add (Placed (request_of x (cx_mode cx \<noteq> Live))) c)"
begin

lemma plan_with_gives: "gives (\<lambda>s. I (core_of s)) (plan_with (recorded cx) ts v d cr) (plan_of cx)"
  unfolding plan_with_def
proof (rule gives_and_then [OF prices_for_kept], rule gives_and_then_get [where R = "run_policy_ok cx"], goal_cases)
  case (1 prices s p)
  then show ?case by (intro known [of "core_of s"]) (simp_all add: core_of_def)
next
  case (2 prices p)
  then show ?case
    by (intro gives_bind keeps_ask steady_now)
      (auto intro!: gives_ok intro: plan_ofI split: sum.split)
qed

lemma step_plan_kept: "steady_in I (step_plan (recorded cx) ts)"
  unfolding step_plan_def
proof (rule keeps_and_then [OF keeps_get_or_stop], rule keeps_and_then [OF day_counters_of_kept],
    rule keeps_and_then_gives [OF plan_with_kept plan_with_gives], goal_cases)
  case (1 snap day pl)
  have "steady_in I (edit (\<lambda>r. r\<lparr>rr_plan := Some (summarize_plan pl)\<rparr>))"
    unfolding edit_def
    by (rule keeps_change_core [where g = "\<lambda>c. c\<lparr>rc_plan := Some (summarize_plan pl)\<rparr>"]) (simp_all add: core_of_def plans 1)
  then show ?case by (intro keeps_bind steady_note keeps_ok)
qed

lemma step_plan_gives: "gives (\<lambda>s. I (core_of s)) (step_plan (recorded cx) ts) (plan_of cx)"
proof -
  have "plan_of cx pl" if "I (core_of s)" and r: "run_state (step_plan (recorded cx) ts) s = (Inr pl, t)" for s t pl
  proof -
    let ?P = "\<lambda>s. I (core_of s)"
    have k: "gives ?P (and_then (plan_with (recorded cx) ts snap day True) (\<lambda>pl.
       State_Monad.bind (edit (\<lambda>r. r\<lparr>rr_plan := Some (summarize_plan pl)\<rparr>)) (\<lambda>_.
       State_Monad.bind (note_step (recorded cx) ''plan'') (\<lambda>_. ok pl)))) (plan_of cx)" for snap day
      using plan_with_gives [of ts snap day True] unfolding gives_def and_then_def
      by (fastforce simp: ok_def split: prod.splits sum.splits)
    have "gives ?P (step_plan (recorded cx) ts) (plan_of cx)"
      unfolding step_plan_def
      by (intro gives_and_then keeps_get_or_stop day_counters_of_kept k)
    with that show ?thesis unfolding gives_def by blast
  qed
  then show ?thesis unfolding gives_def by blast
qed

lemma place_kept:
  assumes "cx_mode cx \<noteq> Assisted" "plan_of cx pl" "x \<in> set (op_orders pl)"
  shows "steady_in I (call (bk_place (recording b) (request_of x (cx_mode cx \<noteq> Live))))"
proof (rule keeps_call)
  fix w l r w' l' c
  assume "bk_place (recording b) (request_of x (cx_mode cx \<noteq> Live)) (w, l) = (r, w', l')" "I c" "rc_log c = l"
  then show "I (c\<lparr>rc_log := l'\<rparr>)"
    using places [OF _ assms, of c] by (auto simp: recording_def log_add_def split: prod.splits)
qed

lemma execute_order_kept:
  assumes "cx_mode cx \<noteq> Assisted" "plan_of cx pl" "x \<in> set (op_orders pl)" and ph: "(ph = Rehearsal) = (cx_mode cx \<noteq> Live)"
  shows "steady_in I (execute_order (recorded cx) ph x)"
proof -
  have "steady_in I (send (recorded cx) x (ph = Rehearsal) p)" for p
    unfolding send_def
    by (intro keeps_bind) (auto intro!: keeps_intros run_keeps place_kept [OF assms(1-3), unfolded ph [symmetric]]
        split: sum.split place_outcome.split)
  then show ?thesis
    unfolding execute_order_def Let_def send_journaled_def
    by (auto intro!: keeps_intros run_keeps split: sum.split list.split)
qed

lemma execute_and_record_kept:
  assumes "cx_mode cx \<noteq> Assisted" "plan_of cx pl" "x \<in> set (op_orders pl)" "(ph = Rehearsal) = (cx_mode cx \<noteq> Live)"
  shows "steady_in I (execute_and_record (recorded cx) ph x)"
proof -
  have "steady_in I (edit (\<lambda>r. r\<lparr>rr_placed := rr_placed r @ [p]\<rparr>))" for p
    unfolding edit_def
    by (rule keeps_change_core [where g = "\<lambda>c. c\<lparr>rc_placed := rc_placed c @ [p]\<rparr>"]) (simp_all add: core_of_def records)
  then show ?thesis unfolding execute_and_record_def by (intro keeps_bind execute_order_kept [OF assms])
qed

lemma step_execute_kept:
  assumes "plan_of cx pl"
  shows "steady_in I (step_execute (recorded cx) ts pl)"
proof (cases "cx_mode cx")
  case Assisted
  have "steady_in I (change (\<lambda>s. s\<lparr>rn_paused_tickets := xs\<rparr>))" for xs
    by (rule keeps_change_core [where g = "\<lambda>c. c\<lparr>rc_paused := xs\<rparr>"]) (simp_all add: core_of_def pauses)
  with Assisted show ?thesis
    by (auto simp: step_execute_def intro!: keeps_intros steady_note steady_edit split: option.split)
next
  case Paper
  with assms show ?thesis
    by (auto simp: step_execute_def intro!: keeps_intros run_keeps execute_and_record_kept [of pl])
next
  case Live
  have side: "steady_in I (execute_and_record (recorded cx) ph x)" if "plan_of cx p" "x \<in> set (of_side sd p)" "ph \<noteq> Rehearsal" for ph x sd p
    using that Live by (intro execute_and_record_kept [of p]) (auto simp: of_side_def)
  have "steady_in I (edit (\<lambda>r. r\<lparr>rr_replan := Some (summarize_plan p)\<rparr>))" if "plan_of cx p" for p
    unfolding edit_def
    by (rule keeps_change_core [where g = "\<lambda>c. c\<lparr>rc_replan := Some (summarize_plan p)\<rparr>"]) (simp_all add: core_of_def replans that)
  note replan = this
  have "steady_in I (and_then (plan_with (recorded cx) ts snap day False) (\<lambda>replan.
      State_Monad.bind (edit (\<lambda>r. r\<lparr>rr_replan := Some (summarize_plan replan)\<rparr>)) (\<lambda>_.
      State_Monad.bind (note_step (recorded cx) ''execute'') (\<lambda>_.
      State_Monad.bind (for_each (execute_and_record (recorded cx) Buys) (of_side Buy replan)) (\<lambda>_. ok ())))))" for snap day
    by (rule keeps_and_then_gives [OF plan_with_kept plan_with_gives])
      (intro keeps_bind keeps_for_each keeps_ok steady_note replan side; simp)
  note buys = this
  have "steady_in I (for_each (execute_and_record (recorded cx) Sells) (of_side Sell pl))"
    by (intro keeps_for_each side [OF assms]) simp_all
  then have "steady_in I (execute_live (recorded cx) ts pl)"
    unfolding execute_live_def
    by (rule keeps_bind, intro leads_if keeps_bind steady_note keeps_ok)
      (rule keeps_and_then [OF read_snapshot_kept keeps_and_then [OF day_counters_of_kept buys]])
  with Live show ?thesis by (simp add: step_execute_def)
qed

lemma step_recon_post_kept: "steady_in I (step_recon_post (recorded cx))"
proof -
  have "steady_in I (edit (\<lambda>r. r\<lparr>rr_placed := ps\<rparr>))" for ps
    unfolding edit_def by (rule keeps_change_core [where g = "\<lambda>c. c\<lparr>rc_placed := ps\<rparr>"]) (simp_all add: core_of_def records)
  note placed = this
  have "steady_in I (edit (\<lambda>r. r\<lparr>rr_post_snapshot := v\<rparr>))" for v by (rule steady_edit) simp
  then show ?thesis
    supply steady_edit [run_keeps del]
    unfolding step_recon_post_def Let_def
    by (auto intro!: keeps_intros placed run_keeps keeps_snapshot sees split: sum.split option.split)
qed

end

section \<open>The whole run\<close>

text \<open>A flatten of this run: over the run's venue rules and within the instruments of its policy.\<close>

definition flatten_of :: "('p, 'w) run_context \<Rightarrow> flatten_spec \<Rightarrow> bool" where
  "flatten_of cx spec \<longleftrightarrow> fs_venue_rules spec = cx_venue_rules cx \<and>
     (\<forall>y \<in> set (fs_universe spec). \<exists>p l. run_policy_ok cx p \<and> policy_limits p = Some l \<and> y \<in> set (l_instrument_allow l))"

lemma flatten_of_spec:
  assumes "\<And>p. rn_policy s = Some p \<Longrightarrow> run_policy_ok cx p"
  shows "flatten_of cx (flatten_spec_of (recorded cx) s h)"
proof (cases "Option.bind (rn_policy s) policy_limits")
  case None
  then show ?thesis by (simp add: flatten_of_def flatten_spec_of_def Let_def flatten_spec_new_def)
next
  case (Some l)
  then obtain p where "rn_policy s = Some p" "policy_limits p = Some l" by (auto simp: Option.bind_eq_Some_conv)
  with Some assms show ?thesis by (auto simp: flatten_of_def flatten_spec_of_def Let_def flatten_spec_new_def)
qed

text \<open>The steps up to the assessment, and the rest.\<close>

definition until_assess :: "('p, 'w) run_context \<Rightarrow> ('p, 'w, unit) run_s" where
  "until_assess cx =
     and_then (step_venue_policy cx) (\<lambda>_. and_then (step_kill_flag cx) (\<lambda>_. and_then (step_mandate cx) (\<lambda>_.
     and_then (step_decisions cx) (\<lambda>_. and_then (step_read_account cx) (\<lambda>_. and_then (step_halted_check cx) (\<lambda>_.
     and_then (step_cleanup cx) (\<lambda>_. and_then (step_recon_pre cx) (\<lambda>_. and_then (step_risk cx) (\<lambda>_.
     and_then (step_targets cx) (\<lambda>targets. and_then (step_plan cx targets) (\<lambda>pl.
     and_then (step_execute cx targets pl) (\<lambda>_. step_recon_post cx))))))))))))"

lemma and_then_assoc: "and_then (and_then m f) g = and_then m (\<lambda>x. and_then (f x) g)"
  by (rule state.expand) (auto simp: and_then_def fun_eq_iff split: prod.splits sum.splits)

lemma execute_eq: "execute cx = and_then (until_assess cx) (\<lambda>_. State_Monad.bind (step_assess cx) (\<lambda>_. ok ()))"
  by (simp only: execute_def until_assess_def and_then_assoc)

locale whole_invariant = refusing_invariant I cx + trading_invariant I cx
  for I :: "run_core \<Rightarrow> bool" and cx :: "('p, 'w) run_context" +
  assumes reports: "I c \<Longrightarrow> I (c\<lparr>rc_flatten := Some rep\<rparr>)"
    and flattens: "I c \<Longrightarrow> cx_mode cx = Live \<Longrightarrow> flatten_of cx spec \<Longrightarrow>
      flatten (tx_flat (cx_text cx)) (recording (cx_broker cx)) spec (w, rc_log c) = (rep, w', l') \<Longrightarrow> I (c\<lparr>rc_log := l'\<rparr>)"
begin

lemma finish_flatten_kept:
  assumes "cx_mode cx = Live"
  shows "steady_in I (finish_flatten (recorded cx))"
proof -
  have f: "steady_in I (call (flatten (tx_flat (cx_text cx)) (recording (cx_broker cx)) spec))" if "flatten_of cx spec" for spec
    by (rule keeps_call) (auto intro: flattens assms that)
  have r: "steady_in I (edit (\<lambda>r. r\<lparr>rr_flatten := Some rep\<rparr>))" for rep
    unfolding edit_def by (rule keeps_change_core [where g = "\<lambda>c. c\<lparr>rc_flatten := Some rep\<rparr>"]) (simp_all add: core_of_def reports)
  have spec: "flatten_of cx (flatten_spec_of (recorded cx) s h)" if "I (core_of s)" for s :: "('p, 'w \<times> log_event list) run" and h
    using known [OF that] by (intro flatten_of_spec) (simp add: core_of_def)
  have "steady_in I (State_Monad.bind (ask (\<lambda>s. flatten_spec_of (recorded cx) s h)) k)"
    if "\<And>spec. flatten_of cx spec \<Longrightarrow> steady_in I (k spec)" for h k
    by (rule keeps_ask_gives [where Q = "flatten_of cx"]) (auto intro: spec that)
  note bind_spec = this
  show ?thesis
    unfolding finish_flatten_def Let_def
  proof (rule keeps_bind [OF keeps_ask], goal_cases)
    case (1 h)
    show ?case
      supply steady_edit [run_keeps del]
      by (cases h) (auto intro!: bind_spec, auto intro!: keeps_intros f r run_keeps split: sum.split)
  qed
qed

lemma step_halted_check_kept: "steady_in I (step_halted_check (recorded cx))"
  unfolding step_halted_check_def
  by (intro keeps_bind keeps_ask) (auto intro!: keeps_intros run_keeps finish_flatten_kept split: account_status.split)

lemma step_risk_kept: "steady_in I (step_risk (recorded cx))"
  unfolding step_risk_def Let_def
  by (auto intro!: keeps_intros run_keeps finish_flatten_kept split: option.split)

lemma until_assess_kept: "steady_in I (until_assess (recorded cx))"
  unfolding until_assess_def
  by (intro keeps_and_then run_keeps step_halted_check_kept step_risk_kept step_recon_post_kept
      keeps_and_then_gives [OF step_plan_kept step_plan_gives] step_execute_kept)

end

end
