(* ===== verification/Pipeline_Props.thy ===== *)
theory Pipeline_Props
  imports Pipeline_Inv
begin

text \<open>
  What a run can and cannot do, for every broker, store and data source: by mode, by outcome, and by
  where its orders come from. The theorems are about the log of the recorder and the record returned.
\<close>

section \<open>From the steps to the run\<close>

definition core_start :: run_core where
  "core_start = \<lparr>rc_log = [], rc_plan = None, rc_replan = None, rc_placed = [], rc_flatten = None, rc_policy = None,
     rc_paused = [], rc_carried = False, rc_outcome = \<lparr>ro_kind = OkCompleted, ro_code = run_code_as_str RcCompleted\<rparr>\<rparr>"

lemma core_run_new: "snd w = [] \<Longrightarrow> core_of (run_new cx cache w k t) = core_start"
  by (simp add: core_of_def run_new_def run_record_new_def core_start_def)

lemma run_once_stages:
  assumes "run_once (recorded cx) cache (w, []) = (r, s)"
  obtains t w' k where "run_state (run_started (recorded cx) k t) (run_new (recorded cx) cache w' k t) = (r, s)"
    "core_of (run_new (recorded cx) cache w' k t) = core_start"
proof -
  obtain t w' where n: "bk_now (recording (cx_broker cx)) (w, []) = (t, w')" by (rule prod.exhaust)
  then have "snd w' = []" by (auto simp: recording_def dest: lift_io_log)
  with assms n show thesis by (intro that) (auto simp: run_once_def Let_def core_run_new)
qed

lemma core_mark [simp]:
  "core_of (s\<lparr>rn_rec := mark_acted s ((rn_rec s)\<lparr>rr_state_after := a, rr_finished_at := t\<rparr>)\<rparr>) = core_of s"
  by (simp add: core_of_def mark_acted_def)

lemma steady_finish_run: "steady_in I (finish_run (recorded cx))"
  unfolding finish_run_def by (auto intro!: keeps_intros run_keeps split: sum.split)

locale complete_invariant = whole_invariant I cx for I :: "run_core \<Rightarrow> bool" and cx :: "('p, 'w) run_context" +
  assumes carries: "I c \<Longrightarrow> I (c\<lparr>rc_carried := True\<rparr>)"
begin

lemma step_assess_kept: "steady_in I (step_assess (recorded cx))"
proof -
  have "steady_in I (change (\<lambda>s. s\<lparr>rn_carried := True\<rparr>))"
    by (rule keeps_change_core [where g = "\<lambda>c. c\<lparr>rc_carried := True\<rparr>"]) (simp_all add: core_of_def carries)
  then show ?thesis
    unfolding step_assess_def
    by (intro keeps_bind keeps_ask leads_if keeps_return keeps_stop_run refuses steady_note steady_alert)
qed

lemma execute_kept: "steady_in I (execute (recorded cx))"
  unfolding execute_eq by (intro keeps_and_then until_assess_kept keeps_bind step_assess_kept keeps_ok)

lemma run_started_kept: "steady_in I (run_started (recorded cx) k t)"
  unfolding run_started_def finish_now_def
  by (auto intro!: keeps_intros run_keeps execute_kept steady_finish_run keeps_stop_run refuses
      split: sum.split begin_outcome.split)

lemma run_once_kept:
  assumes "run_once (recorded cx) cache (w, []) = (r, s)" and "I core_start"
  shows "I (core_of s)"
  using assms(1)
proof (rule run_once_stages)
  fix t w' k
  assume "run_state (run_started (recorded cx) k t) (run_new (recorded cx) cache w' k t) = (r, s)"
    "core_of (run_new (recorded cx) cache w' k t) = core_start"
  with assms(2) leads_run [OF run_started_kept] show ?thesis by metis
qed

end

section \<open>Modes\<close>

definition sent :: "log_event list \<Rightarrow> order_request list" where
  "sent l = List.map_filter (\<lambda>e. case e of Placed r \<Rightarrow> Some r | SawSnapshot _ \<Rightarrow> None) l"

lemma sent_simps [simp]:
  "sent [] = []" "sent (SawSnapshot v # l) = sent l" "sent (Placed r # l) = r # sent l"
  by (simp_all add: sent_def List.map_filter_def)

lemma sent_iff: "req \<in> set (sent l) \<longleftrightarrow> Placed req \<in> set l"
  by (induction l) (auto simp: sent_def List.map_filter_def split: log_event.split)

definition mode_respected :: "execution_mode \<Rightarrow> log_event list \<Rightarrow> bool" where
  "mode_respected m l =
     (case m of Assisted \<Rightarrow> sent l = [] | Paper \<Rightarrow> list_all req_validate_only (sent l) | Live \<Rightarrow> True)"

definition policy_known :: "('p, 'w) run_context \<Rightarrow> run_core \<Rightarrow> bool" where
  "policy_known cx c \<longleftrightarrow> (\<forall>p. rc_policy c = Some p \<longrightarrow> run_policy_ok cx p)"

definition mode_inv :: "('p, 'w) run_context \<Rightarrow> run_core \<Rightarrow> bool" where
  "mode_inv cx c \<longleftrightarrow> policy_known cx c \<and> mode_respected (cx_mode cx) (rc_log c)"

lemmas core_updates = outcome_set_def log_add_def policy_known_def

interpretation by_mode: complete_invariant "mode_inv cx" cx for cx :: "('p, 'w) run_context"
proof unfold_locales
  fix c x pl
  assume "mode_inv cx c" "cx_mode cx \<noteq> Assisted"
  then show "mode_inv cx (log_add (Placed (request_of x (cx_mode cx \<noteq> Live))) c)"
    by (cases "cx_mode cx") (auto simp: mode_inv_def core_updates mode_respected_def request_of_def)
next
  fix c spec w rep w' l'
  assume "mode_inv cx c" "cx_mode cx = Live"
  then show "mode_inv cx (c\<lparr>rc_log := l'\<rparr>)" by (simp add: mode_inv_def core_updates mode_respected_def)
qed (auto simp: mode_inv_def core_updates mode_respected_def split: execution_mode.splits)

section \<open>Where orders come from\<close>

definition planned_request :: "('p, 'w) run_context \<Rightarrow> order_request \<Rightarrow> bool" where
  "planned_request cx req \<longleftrightarrow> (\<exists>pl x. plan_of cx pl \<and> x \<in> set (op_orders pl) \<and> req = request_of x (cx_mode cx \<noteq> Live))"

definition closing_request :: "('p, 'w) run_context \<Rightarrow> log_event list \<Rightarrow> order_request \<Rightarrow> bool" where
  "closing_request cx l req \<longleftrightarrow> cx_mode cx = Live \<and>
     (\<exists>spec snap. flatten_of cx spec \<and> SawSnapshot snap \<in> set l \<and> closes_position spec snap req)"

definition origin_inv :: "('p, 'w) run_context \<Rightarrow> run_core \<Rightarrow> bool" where
  "origin_inv cx c \<longleftrightarrow> policy_known cx c \<and>
     (snapshots_ok (cx_broker cx) \<longrightarrow> book_ok (cx_venue_rules cx) \<longrightarrow>
      (\<forall>req \<in> set (sent (rc_log c)). planned_request cx req \<or> closing_request cx (rc_log c) req))"

lemma closing_request_mono: "closing_request cx l req \<Longrightarrow> set l \<subseteq> set l' \<Longrightarrow> closing_request cx l' req"
  unfolding closing_request_def by blast

interpretation by_origin: complete_invariant "origin_inv cx" cx for cx :: "('p, 'w) run_context"
proof unfold_locales
  fix c v
  assume "origin_inv cx c"
  then show "origin_inv cx (log_add (SawSnapshot v) c)"
    by (auto simp: origin_inv_def core_updates intro: closing_request_mono)
next
  fix c pl x
  assume "origin_inv cx c" "plan_of cx pl" "x \<in> set (op_orders pl)"
  then show "origin_inv cx (log_add (Placed (request_of x (cx_mode cx \<noteq> Live))) c)"
    by (auto simp: origin_inv_def core_updates planned_request_def intro: closing_request_mono)
next
  fix c spec w rep w' l'
  assume o: "origin_inv cx c" and l: "cx_mode cx = Live" "flatten_of cx spec"
    and f: "flatten (tx_flat (cx_text cx)) (recording (cx_broker cx)) spec (w, rc_log c) = (rep, w', l')"
  have "planned_request cx req \<or> closing_request cx l' req"
    if ok: "snapshots_ok (cx_broker cx)" "book_ok (cx_venue_rules cx)" and req: "Placed req \<in> set l'" for req
  proof -
    have "book_ok (fs_venue_rules spec)" using ok(2) l(2) by (simp add: flatten_of_def)
    note n = log_from_placed [OF flatten_log [OF ok(1) this f]]
    with req consider "req \<in> set (sent (rc_log c))" | snap where "SawSnapshot snap \<in> set l'" "closes_position spec snap req"
      by (auto simp: sent_iff)
    then show ?thesis
    proof cases
      case 1
      with o ok have "planned_request cx req \<or> closing_request cx (rc_log c) req" by (simp add: origin_inv_def)
      with n show ?thesis by (auto intro: closing_request_mono)
    next
      case 2
      with l show ?thesis by (auto simp: closing_request_def)
    qed
  qed
  with o show "origin_inv cx (c\<lparr>rc_log := l'\<rparr>)" by (simp add: origin_inv_def core_updates sent_iff)
qed (auto simp: origin_inv_def core_updates)

section \<open>Properties\<close>

text \<open>
  C2: A run respects its mode: an assisted run asks the broker for no order at all, and a paper run
  only for orders marked validate-only, whatever the broker, the stores and the data answer.
\<close>

theorem run_respects_mode:
  assumes "run_once (recorded cx) cache (w, []) = (r, s)"
  shows "mode_respected (cx_mode cx) (snd (rn_world s))"
proof -
  have "mode_inv cx core_start" by (simp add: mode_inv_def core_start_def core_updates mode_respected_def split: execution_mode.split)
  from by_mode.run_once_kept [OF assms this] show ?thesis by (simp add: mode_inv_def core_of_def)
qed

text \<open>
  C1: Every order a run sends is accounted for: it is the request of an order of a plan the planner
  made for this account under the policy compiled from its mandate, or, in a live run, a market order
  of the kill path that closes no more than a position a snapshot showed, in an instrument the mandate
  allows.
\<close>

theorem run_orders_accounted:
  assumes "run_once (recorded cx) cache (w, []) = (r, s)" and "snapshots_ok (cx_broker cx)" and "book_ok (cx_venue_rules cx)"
    and "req \<in> set (sent (snd (rn_world s)))"
  shows "planned_request cx req \<or> closing_request cx (snd (rn_world s)) req"
proof -
  have "origin_inv cx core_start" by (simp add: origin_inv_def core_start_def core_updates)
  from by_origin.run_once_kept [OF assms(1) this] assms show ?thesis by (simp add: origin_inv_def core_of_def)
qed

section \<open>Refusals\<close>

text \<open>
  Until the run trades, a step that lets it continue has not refused it. \<open>arrives\<close> speaks of
  the results that do not stop the run.
\<close>

definition arrives :: "('s \<Rightarrow> bool) \<Rightarrow> ('s, 'e + 'a) state \<Rightarrow> ('s \<Rightarrow> bool) \<Rightarrow> bool" where
  "arrives P m Q \<longleftrightarrow> (\<forall>s x t. P s \<longrightarrow> run_state m s = (Inr x, t) \<longrightarrow> Q t)"

abbreviation flows :: "('s \<Rightarrow> bool) \<Rightarrow> ('s, 'e + 'a) state \<Rightarrow> bool" where
  "flows P m \<equiv> arrives P m P"

lemma arrivesD: "arrives P m Q \<Longrightarrow> P s \<Longrightarrow> run_state m s = (Inr x, t) \<Longrightarrow> Q t"
  unfolding arrives_def by blast

lemma arrivesI: "(\<And>s x t. P s \<Longrightarrow> run_state m s = (Inr x, t) \<Longrightarrow> Q t) \<Longrightarrow> arrives P m Q"
  unfolding arrives_def by blast

lemma flows_keeps: "keeps P m \<Longrightarrow> flows P m"
  by (rule arrivesI) (rule leads_run)

lemma flows_ok: "flows P (ok x)"
  by (rule flows_keeps) simp

lemma flows_err: "flows P (err m)"
  by (rule arrivesI) (simp add: err_def split: prod.splits)

lemma flows_refuse: "flows P (refuse k x)"
  by (simp add: refuse_def flows_err)

lemma flows_bind:
  assumes "keeps P m" and "\<And>x. flows P (k x)"
  shows "flows P (State_Monad.bind m k)"
proof (rule arrivesI)
  fix s x t assume s: "P s" and r: "run_state (State_Monad.bind m k) s = (Inr x, t)"
  obtain y u where m: "run_state m s = (y, u)" by (rule prod.exhaust)
  from r m have "run_state (k y) u = (Inr x, t)" by simp
  with arrivesD [OF assms(2) leads_run [OF assms(1) s m]] show "P t" by blast
qed

lemma arrives_and_then:
  assumes "arrives P m R" and "gives P m G" and "\<And>x. G x \<Longrightarrow> arrives R (k x) Q"
  shows "arrives P (and_then m k) Q"
proof (rule arrivesI)
  fix s x t assume s: "P s" and r: "run_state (and_then m k) s = (Inr x, t)"
  then obtain y u where m: "run_state m s = (Inr y, u)" and k: "run_state (k y) u = (Inr x, t)"
    by (auto simp: and_then_def split: prod.splits sum.splits)
  from assms(2) s m have "G y" unfolding gives_def by blast
  from arrivesD [OF assms(3) [OF this] arrivesD [OF assms(1) s m] k] show "Q t" .
qed

lemma gives_True: "gives P m (\<lambda>_. True)"
  by (simp add: gives_def)

lemmas arrives_next = arrives_and_then [OF _ gives_True]

lemma flows_and_then: "flows P m \<Longrightarrow> (\<And>x. flows P (k x)) \<Longrightarrow> flows P (and_then m k)"
  by (rule arrives_next)

lemma flows_if: "(c \<Longrightarrow> flows P m) \<Longrightarrow> (\<not> c \<Longrightarrow> flows P n) \<Longrightarrow> flows P (if c then m else n)"
  by simp

lemma flows_try_each: "(\<And>x. flows P (f x)) \<Longrightarrow> flows P (try_each f xs)"
  by (induction xs) (simp_all add: flows_ok flows_and_then)

definition before_inv :: "('p, 'w) run_context \<Rightarrow> run_core \<Rightarrow> bool" where
  "before_inv cx c \<longleftrightarrow> policy_known cx c \<and> sent (rc_log c) = []"

definition after_inv :: "('p, 'w) run_context \<Rightarrow> run_core \<Rightarrow> bool" where
  "after_inv cx c \<longleftrightarrow> policy_known cx c \<and> ro_kind (rc_outcome c) \<noteq> OkRefused"

interpretation before_trade: refusing_invariant "before_inv cx" cx for cx :: "('p, 'w) run_context"
  by unfold_locales (auto simp: before_inv_def core_updates)

interpretation after_trade: trading_invariant "after_inv cx" cx for cx :: "('p, 'w) run_context"
  by unfold_locales (auto simp: after_inv_def core_updates)

abbreviation goes_on :: "('p, 'w) run_context \<Rightarrow> (('p, 'w \<times> log_event list) run, stop + 'a) state \<Rightarrow> bool" where
  "goes_on cx m \<equiv> flows (\<lambda>s. after_inv cx (core_of s)) m"

lemma goes_on_kill_flag: "goes_on cx (step_kill_flag (recorded cx))"
  unfolding step_kill_flag_def
  by (rule flows_bind, intro run_keeps)
    (auto intro!: flows_bind flows_ok flows_err flows_refuse steady_note split: sum.split bool.split)

lemma goes_on_accepted:
  assumes "run_policy_ok cx p"
  shows "goes_on cx (mandate_accepted (recorded cx) body p)"
proof -
  have "steady_in (after_inv cx) (change (\<lambda>s. s\<lparr>rn_risk_policy := rp, rn_policy := Some p\<rparr>))" for rp
    by (rule change_policy) (simp add: after_inv_def core_updates assms)
  then show ?thesis
    unfolding mandate_accepted_def by (auto intro!: flows_bind flows_ok flows_err split: sum.split)
qed

lemma goes_on_mandate: "goes_on cx (step_mandate (recorded cx))"
proof (cases "cx_mandate cx")
  case None
  then show ?thesis
    by (auto simp: step_mandate_def intro!: flows_bind flows_refuse steady_note steady_alert)
next
  case (Some body)
  note ok = policy_ok_self [OF Some] policy_ok_draft [OF Some]
  show ?thesis
    unfolding step_mandate_def Let_def recorded_sel Some option.case
  proof (intro flows_bind steady_edit steady_now, goal_cases)
    case (2 u t)
    show ?case
      by (auto intro!: flows_bind flows_refuse flows_if goes_on_accepted steady_set_standing steady_alert ok
          simp: rehearsal_allowed_def split: standing.split option.split)
  qed simp
qed

lemma goes_on_decisions: "goes_on cx (step_decisions (recorded cx))"
proof -
  have "goes_on cx (nothing_pending (recorded cx))"
    unfolding nothing_pending_def
    by (rule flows_bind, intro run_keeps, rule flows_bind, rule keeps_ask)
      (auto intro!: flows_bind flows_ok flows_refuse steady_note steady_change steady_edit split: sum.split option.split)
  moreover have "goes_on cx (try_each (decide_sleeve (recorded cx)) xs)" for xs
    by (intro flows_try_each flows_keeps after_trade.decide_sleeve_kept)
  ultimately show ?thesis
    unfolding step_decisions_def
    by (intro flows_and_then flows_bind flows_if flows_ok keeps_ask steady_note)
qed

lemma goes_on_halted: "goes_on cx (step_halted_check (recorded cx))"
proof -
  have "goes_on cx (State_Monad.bind m (\<lambda>_. refuse k x))" for m k x
    by (rule arrivesI) (auto simp: refuse_def err_def split: prod.splits)
  have live: "flows P (State_Monad.bind m (\<lambda>_. State_Monad.bind n (\<lambda>h. refuse k (f h))))" for P m n k f
    by (rule arrivesI) (auto simp: refuse_def err_def split: prod.splits)
  show ?thesis
    unfolding step_halted_check_def
    by (rule flows_bind, rule keeps_ask)
      (auto intro!: flows_bind flows_ok flows_refuse flows_if live steady_note steady_alert split: account_status.split)
qed

text \<open>The steps that can refuse the run, and those after them.\<close>

definition until_cleared :: "('p, 'w) run_context \<Rightarrow> ('p, 'w, unit) run_s" where
  "until_cleared cx =
     and_then (step_venue_policy cx) (\<lambda>_. and_then (step_kill_flag cx) (\<lambda>_. and_then (step_mandate cx) (\<lambda>_.
     and_then (step_decisions cx) (\<lambda>_. and_then (step_read_account cx) (\<lambda>_. step_halted_check cx)))))"

definition once_cleared :: "('p, 'w) run_context \<Rightarrow> ('p, 'w, unit) run_s" where
  "once_cleared cx =
     and_then (step_cleanup cx) (\<lambda>_. and_then (step_recon_pre cx) (\<lambda>_. and_then (step_risk cx) (\<lambda>_.
     and_then (step_targets cx) (\<lambda>targets. and_then (step_plan cx targets) (\<lambda>pl.
     and_then (step_execute cx targets pl) (\<lambda>_. and_then (step_recon_post cx) (\<lambda>_.
     State_Monad.bind (step_assess cx) (\<lambda>_. ok ()))))))))"

lemma execute_cleared: "execute cx = and_then (until_cleared cx) (\<lambda>_. once_cleared cx)"
  by (simp only: execute_def until_cleared_def once_cleared_def and_then_assoc)

lemma goes_on_cleared: "goes_on cx (until_cleared (recorded cx))"
  unfolding until_cleared_def
  by (intro flows_and_then goes_on_kill_flag goes_on_mandate goes_on_decisions goes_on_halted
      flows_keeps [OF after_trade.step_venue_policy_kept] flows_keeps [OF after_trade.step_read_account_kept])

definition unrefused :: "run_core \<Rightarrow> bool" where
  "unrefused c \<longleftrightarrow> sent (rc_log c) = [] \<or> ro_kind (rc_outcome c) \<noteq> OkRefused"

lemma leads_and_then:
  assumes "keeps P m" and "\<And>x. leads P (k x) Q" and "\<And>s. P s \<Longrightarrow> Q s"
  shows "leads P (and_then m k) Q"
  unfolding and_then_def
  by (rule leads_bind [OF assms(1)]) (auto intro: assms(2,3) leads_return split: sum.split)

lemma leads_refuse: "(\<And>s. Q s \<Longrightarrow> R (s\<lparr>rn_rec := (rn_rec s)\<lparr>rr_outcome := \<lparr>ro_kind = k, ro_code = x\<rparr>\<rparr>\<rparr>)) \<Longrightarrow> leads Q (refuse k x) R"
  by (simp add: leads_def refuse_def err_def stop_run_def edit_def change_def)

lemma leads_true: "leads P m (\<lambda>_. True)"
  by (simp add: leads_def)

lemma halted_check_unrefused: "leads (\<lambda>s. before_inv cx (core_of s)) (step_halted_check (recorded cx)) (\<lambda>s. unrefused (core_of s))"
proof -
  let ?P = "\<lambda>s :: ('p, 'w \<times> log_event list) run. before_inv cx (core_of s)"
  let ?Q = "\<lambda>s :: ('p, 'w \<times> log_event list) run. unrefused (core_of s)"
  have w: "?Q s" if "?P s" for s using that by (simp add: before_inv_def unrefused_def)
  have halt: "leads (\<lambda>_. True) (refuse OkHalted x) ?Q" for x
    by (rule leads_refuse) (simp add: unrefused_def core_of_def)
  have live: "leads ?P (State_Monad.bind m (\<lambda>_. State_Monad.bind (ask f) (\<lambda>h. refuse OkHalted (g h)))) ?Q"
    for m :: "('p, 'w \<times> log_event list, unit) run_m" and f g
    by (rule leads_bind [OF leads_true], rule leads_bind [OF leads_true], rule halt)
  have quiet: "leads ?P (refuse OkRefused x) ?Q" "leads ?P (ok ()) ?Q" for x
    by (rule leads_mono [OF before_trade.refuse_kept _ w], assumption+, rule leads_mono [OF keeps_ok _ w], assumption+)
  show ?thesis
    unfolding step_halted_check_def
    by (intro leads_bind [OF keeps_ask])
      (auto intro!: leads_bind [OF steady_note] leads_bind [OF steady_alert] live leads_if quiet split: account_status.split)
qed

lemma until_cleared_unrefused: "leads (\<lambda>s. before_inv cx (core_of s)) (until_cleared (recorded cx)) (\<lambda>s. unrefused (core_of s))"
  unfolding until_cleared_def
  by (intro leads_and_then halted_check_unrefused before_trade.step_venue_policy_kept before_trade.step_kill_flag_kept
      before_trade.step_mandate_kept before_trade.step_decisions_kept before_trade.step_read_account_kept)
    (simp_all add: before_inv_def unrefused_def)

text \<open>After that nothing refuses: what trades fails closed, halts or completes.\<close>

text \<open>Invariants that look neither at the log nor at the flatten report: placing an order and flattening keep them.\<close>

locale blind_invariant = run_invariant I for I :: "run_core \<Rightarrow> bool" +
  assumes unlogged: "I c \<Longrightarrow> I (c\<lparr>rc_log := l\<rparr>)"
    and unreported: "I c \<Longrightarrow> I (c\<lparr>rc_flatten := Some rep\<rparr>)"
begin

lemma call_kept: "steady_in I (call f :: ('p, 'w \<times> log_event list, 'a) run_m)"
  by (rule keeps_call) (rule unlogged)

lemma flatten_kept: "steady_in I (finish_flatten (recorded cx))"
proof -
  have "steady_in I (edit (\<lambda>r. r\<lparr>rr_flatten := Some rep\<rparr>))" for rep
    unfolding edit_def
    by (rule keeps_change_core [where g = "\<lambda>c. c\<lparr>rc_flatten := Some rep\<rparr>"]) (simp_all add: core_of_def unreported)
  note reported = this
  show ?thesis
    supply steady_edit [run_keeps del]
    unfolding finish_flatten_def Let_def
    by (rule keeps_bind [OF keeps_ask])
      (auto intro!: keeps_intros call_kept reported run_keeps save_state_kept split: option.split sum.split)
qed

lemma order_kept: "steady_in I (execute_order (recorded cx) ph x)"
  unfolding execute_order_def Let_def send_journaled_def send_def
  by (auto intro!: keeps_intros run_keeps call_kept split: sum.split list.split place_outcome.split)

end

interpretation after_blind: blind_invariant "after_inv cx" for cx :: "('p, 'w) run_context"
  by unfold_locales (auto simp: after_inv_def core_updates)

lemma after_halt: "steady_in (after_inv cx) (refuse OkHalted x)" "steady_in (after_inv cx) (stop_run OkCompleted x)"
  by (intro keeps_refuse keeps_stop_run; simp add: after_inv_def core_updates)+

lemma after_risk: "steady_in (after_inv cx) (step_risk (recorded cx))"
  unfolding step_risk_def Let_def
  by (auto intro!: keeps_intros run_keeps after_halt after_blind.flatten_kept after_trade.save_state_kept after_trade.pause_buys_kept)

lemma after_assess: "steady_in (after_inv cx) (step_assess (recorded cx))"
proof -
  have "steady_in (after_inv cx) (change (\<lambda>s. s\<lparr>rn_carried := True\<rparr>))"
    by (rule keeps_change_core [where g = "\<lambda>c. c\<lparr>rc_carried := True\<rparr>"]) (simp_all add: core_of_def after_inv_def core_updates)
  then show ?thesis
    unfolding step_assess_def
    by (intro keeps_bind keeps_ask leads_if keeps_return after_halt steady_note steady_alert)
qed

lemma once_cleared_kept: "steady_in (after_inv cx) (once_cleared (recorded cx))"
  unfolding once_cleared_def
  by (intro keeps_and_then after_trade.step_cleanup_kept after_trade.step_recon_pre_kept after_risk after_trade.step_targets_kept
      keeps_and_then_gives [OF after_trade.step_plan_kept after_trade.step_plan_gives] after_trade.step_execute_kept
      after_trade.step_recon_post_kept keeps_bind after_assess keeps_ok)

lemma execute_unrefused:
  assumes "before_inv cx (core_of s)" and "after_inv cx (core_of s)" and "run_state (execute (recorded cx)) s = (r, t)"
  shows "unrefused (core_of t)"
proof -
  obtain r1 t1 where m: "run_state (until_cleared (recorded cx)) s = (r1, t1)" by (rule prod.exhaust)
  show ?thesis
  proof (cases r1)
    case (Inl e)
    with assms(3) m have "t = t1" by (simp add: execute_cleared and_then_def)
    with leads_run [OF until_cleared_unrefused assms(1) m] show ?thesis by simp
  next
    case (Inr x)
    with m have "after_inv cx (core_of t1)" by (intro arrivesD [OF goes_on_cleared assms(2)]) simp
    moreover from assms(3) m Inr have "run_state (once_cleared (recorded cx)) t1 = (r, t)" by (simp add: execute_cleared and_then_def)
    ultimately have "after_inv cx (core_of t)" by (rule leads_run [OF once_cleared_kept])
    then show ?thesis by (simp add: after_inv_def unrefused_def)
  qed
qed

section \<open>The end of a run\<close>

lemma finish_run_result:
  assumes "run_state (finish_run cx) s = (r, t)"
  shows "r = rn_rec t \<and> rr_decisions r = rr_decisions (mark_acted s (rn_rec s))"
  using assms
  by (auto simp: finish_run_def raise_alert_def now_def call_def ask_def edit_def change_def mark_acted_def Let_def
      split: prod.splits sum.splits)

lemma steady_eq: "(\<And>I. steady_in I m) \<Longrightarrow> run_state m s = (x, t) \<Longrightarrow> core_of t = core_of s"
proof -
  assume "\<And>I. steady_in I m" and r: "run_state m s = (x, t)"
  from this(1) [of "\<lambda>c. c = core_of s"] have "leads (\<lambda>u. core_of u = core_of s) m (\<lambda>u. core_of u = core_of s)" .
  from leads_run [OF this refl r] show ?thesis .
qed

lemmas finish_run_core = steady_eq [OF steady_finish_run]

lemmas unfold_monad = call_def ask_def edit_def change_def now_def note_step_def raise_alert_def stop_run_def Let_def

text \<open>A run that was not let to start sends nothing.\<close>

lemma unstarted:
  assumes "run_state (State_Monad.bind (note_step (recorded cx) n) (\<lambda>_. State_Monad.bind (stop_run kd c) (\<lambda>_.
      State_Monad.bind m (\<lambda>_. finish_now (recorded cx))))) u = (r, s)"
    and "m = State_Monad.return () \<or> m = raise_alert (recorded cx) a v d"
  shows "r = rn_rec s \<and> rc_log (core_of s) = rc_log (core_of u) \<and> rr_decisions (rn_rec s) = rr_decisions (rn_rec u)"
proof -
  let ?I = "\<lambda>c. rc_log c = rc_log (core_of u)"
  have "steady_in ?I m" using assms(2) by (auto intro: steady_alert)
  then have "steady_in ?I (State_Monad.bind (note_step (recorded cx) n) (\<lambda>_. State_Monad.bind (stop_run kd c) (\<lambda>_.
      State_Monad.bind m (\<lambda>_. finish_now (recorded cx)))))"
    unfolding finish_now_def by (intro keeps_bind steady_note keeps_stop_run steady_now steady_edit keeps_ask) (simp_all add: outcome_set_def)
  from leads_run [OF this _ assms(1)] have "?I (core_of s)" by simp
  moreover have "r = rn_rec s \<and> rr_decisions (rn_rec s) = rr_decisions (rn_rec u)"
    using assms by (auto simp: finish_now_def unfold_monad split: prod.splits sum.splits)
  ultimately show ?thesis by simp
qed

text \<open>Where a run ends: with the first record of its key, before it starts, or after its steps.\<close>

lemma run_started_cases:
  assumes "run_state (run_started (recorded cx) k t) s0 = (r, s)"
  obtains (replayed) "core_of s = core_of s0" "rn_rec s = rn_rec s0"
  | (early) "r = rn_rec s" "rc_log (core_of s) = rc_log (core_of s0)" "rr_decisions (rn_rec s) = rr_decisions (rn_rec s0)"
  | (ran) s1 x s2 where "core_of s1 = core_of s0" "run_state (execute (recorded cx)) s1 = (x, s2)"
      "run_state (finish_run (recorded cx)) s2 = (r, s)"
proof -
  obtain b u where b: "run_state (call (cx_begin (recorded cx) k (cx_trading_day cx) t (cf_lease_secs (cx_config cx)))) s0 = (b, u)"
    by (rule prod.exhaust)
  have u: "core_of u = core_of s0" "rn_rec u = rn_rec s0"
    using steady_eq [OF steady_context(4) b] b by (auto simp: call_def split: prod.splits)
  show thesis
  proof (cases b)
    case (Inl e)
    then have "run_state (State_Monad.bind (note_step (recorded cx) ''acquire_run_key'') (\<lambda>_.
        State_Monad.bind (stop_run OkFailedClosed (run_code_as_str RcStoreUnavailable)) (\<lambda>_.
        State_Monad.bind (raise_alert (recorded cx) AlRunFailed AvCritical ''failed:store'') (\<lambda>_. finish_now (recorded cx))))) u = (r, s)"
      using assms b by (simp add: run_started_def)
    from unstarted [OF this disjI2 [OF refl]] u early show ?thesis by simp
  next
    case (Inr o_c)
    show ?thesis
    proof (cases o_c)
      case (Started n)
      let ?m = "State_Monad.bind (edit (\<lambda>r. r\<lparr>rr_attempt := n\<rparr>)) (\<lambda>_. note_step (recorded cx) ''acquire_run_key'')"
      obtain v s1 where 1: "run_state ?m u = (v, s1)" by (rule prod.exhaust)
      obtain x s2 where 2: "run_state (execute (recorded cx)) s1 = (x, s2)" by (rule prod.exhaust)
      have "steady_in I ?m" for I by (intro keeps_bind steady_note steady_edit) simp
      from steady_eq [OF this 1] u have "core_of s1 = core_of s0" by simp
      moreover have "run_state (finish_run (recorded cx)) s2 = (r, s)"
        using assms b 1 2 Inr Started by (auto simp: run_started_def split: prod.splits)
      ultimately show ?thesis using 2 by (intro ran)
    next
      case (AlreadyDone f)
      with assms b u Inr replayed show ?thesis by (simp add: run_started_def)
    next
      case (Busy d)
      then have "run_state (State_Monad.bind (note_step (recorded cx) ''acquire_run_key'') (\<lambda>_.
          State_Monad.bind (stop_run OkRefused (run_code_as_str RcBusy)) (\<lambda>_.
          State_Monad.bind (State_Monad.return ()) (\<lambda>_. finish_now (recorded cx))))) u = (r, s)"
        using assms b Inr by (simp add: run_started_def)
      from unstarted [OF this disjI1 [OF refl]] u early show ?thesis by simp
    qed
  qed
qed

text \<open>A run whose key the store cannot hand out sends nothing.\<close>

lemma store_down_sends_nothing:
  assumes run: "run_once (recorded cx) cache (w, []) = (r, s)" and n: "bk_now (cx_broker cx) w = (t, w1)"
    and b: "cx_begin cx (run_key_new (cx_account_id cx) (cx_scheduled_for cx) (map ss_id (cx_sleeves cx))) (cx_trading_day cx) t
      (cf_lease_secs (cx_config cx)) w1 = (Inl e, w2)"
  shows "sent (snd (rn_world s)) = []"
proof -
  let ?k = "run_key_new (cx_account_id cx) (cx_scheduled_for cx) (map ss_id (cx_sleeves cx))"
  let ?u = "(run_new (recorded cx) cache (w1, []) ?k t)\<lparr>rn_world := (w2, [])\<rparr>"
  have "bk_now (recording (cx_broker cx)) (w, []) = (t, w1, [])" using n by (simp add: recording_def lift_io_def)
  moreover have "run_state (call (cx_begin (recorded cx) ?k (cx_trading_day cx) t (cf_lease_secs (cx_config cx))))
      (run_new (recorded cx) cache (w1, []) ?k t) = (Inl e, ?u)"
    using b by (simp add: call_def recorded_def lift_io_def run_new_def)
  ultimately have "run_state (State_Monad.bind (note_step (recorded cx) ''acquire_run_key'') (\<lambda>_.
      State_Monad.bind (stop_run OkFailedClosed (run_code_as_str RcStoreUnavailable)) (\<lambda>_.
      State_Monad.bind (raise_alert (recorded cx) AlRunFailed AvCritical ''failed:store'') (\<lambda>_. finish_now (recorded cx))))) ?u = (r, s)"
    using run by (simp add: run_once_def run_started_def Let_def)
  from unstarted [OF this disjI2 [OF refl]] show ?thesis by (simp add: core_of_def)
qed

text \<open>
  C6: A run that reports a refusal sent nothing: when the outcome of the returned record is Refused,
  whichever step refused, the broker was not asked for a single order during the run.
\<close>

theorem refused_run_sends_nothing:
  assumes run: "run_once (recorded cx) cache (w, []) = (r, s)" and refused: "ro_kind (rr_outcome r) = OkRefused"
  shows "sent (snd (rn_world s)) = []"
  using run
proof (rule run_once_stages)
  fix t w' k
  assume start: "run_state (run_started (recorded cx) k t) (run_new (recorded cx) cache w' k t) = (r, s)"
    and core: "core_of (run_new (recorded cx) cache w' k t) = core_start"
  have log: ?thesis if "rc_log (core_of s) = rc_log core_start"
    using that by (simp add: core_start_def core_of_def)
  from start show ?thesis
  proof (cases rule: run_started_cases)
    case (ran s1 x s2)
    then have "core_of s1 = core_start" by (simp add: core)
    then have "before_inv cx (core_of s1)" "after_inv cx (core_of s1)"
      by (simp_all add: before_inv_def after_inv_def core_start_def core_updates)
    from execute_unrefused [OF this ran(2)] finish_run_core [OF ran(3)] have "unrefused (core_of s)" by simp
    with refused finish_run_result [OF ran(3)] show ?thesis by (simp add: unrefused_def core_of_def)
  qed (use core log in simp_all)
qed

section \<open>Acted decisions\<close>

text \<open>What carrying a decision out means, on values.\<close>

definition was_executed :: "placed_order \<Rightarrow> bool" where
  "was_executed p \<longleftrightarrow> pd_outcome p \<in> {PoFilled, PoPartiallyFilled, PoValidated} \<or>
     pd_outcome p = PoAdoptedExisting \<and> 0 < dval (pd_executed_quantity p) \<or>
     pd_outcome p = PoUnknownNotFound \<and> (\<exists>r \<in> set (pd_reports p). 0 < dval (or_executed_quantity r))"

definition near_target :: "skip_reason \<Rightarrow> bool" where
  "near_target k \<longleftrightarrow> (\<exists>a b. k = BelowMinTradeAbs a b \<or> k = BelowMinTradePct a b) \<or> k = CutBelowVenueMinimum \<or> k = NoCashAvailable \<or>
     k = VenueRefused RoundsToZero \<or> (\<exists>m. k = VenueRefused (SizeBelowMinQuantity m) \<or> k = VenueRefused (SizeBelowMinCost m))"

definition sold_down :: "plan_summary \<Rightarrow> string \<Rightarrow> bool" where
  "sold_down pl y \<longleftrightarrow> (\<exists>l \<in> set (ps_lines pl). eq_ignore_case (il_symbol l) y \<and> dec_lt (il_target_notional l) (il_current_notional l))"

text \<open>Without a re-plan the plan answers for both sides; with one, the plan for the sells and the re-plan for the buys.\<close>

definition nothing_missing :: "plan_summary \<Rightarrow> plan_summary option \<Rightarrow> bool" where
  "nothing_missing pl replan =
     (case replan of
        None \<Rightarrow> ps_plan_denied pl = [] \<and> (\<forall>k \<in> set (ps_skipped pl). near_target (sk_reason k))
      | Some rp \<Rightarrow> (\<forall>d \<in> set (ps_plan_denied pl). pl_side (ds_order d) \<noteq> Sell) \<and> (\<forall>d \<in> set (ps_plan_denied rp). pl_side (ds_order d) \<noteq> Buy) \<and>
          (\<forall>k \<in> set (ps_skipped pl). sold_down pl (sk_symbol k) \<longrightarrow> near_target (sk_reason k)) \<and>
          (\<forall>k \<in> set (ps_skipped rp). \<not> sold_down pl (sk_symbol k) \<longrightarrow> near_target (sk_reason k)))"

definition order_id :: "planned_order \<Rightarrow> string \<times> string \<times> side" where
  "order_id x = (pl_tag x, pl_symbol x, pl_side x)"

definition placed_id :: "placed_order \<Rightarrow> string \<times> string \<times> side" where
  "placed_id p = (pd_tag p, pd_symbol p, pd_side p)"

text \<open>
  The orders of the plan, each taken up once and in order: as tickets, as rehearsals, or as the sells
  of the plan and then the buys of the re-plan.
\<close>

definition plan_taken_up :: "execution_mode \<Rightarrow> plan_summary \<Rightarrow> run_record \<Rightarrow> bool" where
  "plan_taken_up m pl r =
     (case m of
        Assisted \<Rightarrow> rr_replan r = None \<and> rr_tickets r = ps_plan_orders pl \<and> rr_placed r = []
      | Paper \<Rightarrow> rr_replan r = None \<and> map placed_id (rr_placed r) = map order_id (ps_plan_orders pl)
      | Live \<Rightarrow> map placed_id (rr_placed r) = map order_id (filter (\<lambda>x. pl_side x = Sell) (ps_plan_orders pl) @
            (case rr_replan r of None \<Rightarrow> [] | Some rp \<Rightarrow> filter (\<lambda>x. pl_side x = Buy) (ps_plan_orders rp))) \<and>
          (rr_replan r = None \<longrightarrow> (\<forall>x \<in> set (ps_plan_orders pl). pl_side x = Sell)))"

lemma carried_executed: "carried p \<Longrightarrow> was_executed p"
  by (auto simp: carried_def was_executed_def dval_sign list_ex_iff split: placed_outcome.splits)

lemma material_far: "\<not> material k \<Longrightarrow> near_target k"
  by (auto simp: material_def near_target_def is_dust_refusal_def split: skip_reason.splits size_refusal.splits)

lemma sell_line_sold_down: "is_sell_line pl y = sold_down pl y"
  by (auto simp: is_sell_line_def sold_down_def list_ex_iff)

lemma no_shortfalls:
  assumes "shortfalls s = []" and "rr_plan (rn_rec s) = Some pl"
  shows "nothing_missing pl (rr_replan (rn_rec s)) \<and> rn_paused_tickets s = [] \<and> list_all was_executed (rr_placed (rn_rec s))"
proof (cases "rr_replan (rn_rec s)")
  case None
  with assms show ?thesis
    by (auto simp: shortfalls_def nothing_missing_def filter_empty_conv list_all_iff intro: carried_executed material_far)
next
  case (Some rp)
  with assms show ?thesis
    by (auto simp: shortfalls_def nothing_missing_def filter_empty_conv list_all_iff sell_line_sold_down
        intro: carried_executed material_far)
qed

text \<open>What one order leaves in the record.\<close>

definition trades_of :: "run_core \<Rightarrow> plan_summary option \<times> plan_summary option \<times> placed_order list \<times> string list" where
  "trades_of c = (rc_plan c, rc_replan c, rc_placed c, rc_paused c)"

interpretation same_trades: blind_invariant "\<lambda>c. trades_of c = k" for k
  by unfold_locales (simp_all add: trades_of_def core_updates)

definition returns :: "('s, 'a) state \<Rightarrow> ('a \<Rightarrow> bool) \<Rightarrow> bool" where
  "returns m Q \<longleftrightarrow> (\<forall>s x t. run_state m s = (x, t) \<longrightarrow> Q x)"

lemma returnsD: "returns m Q \<Longrightarrow> run_state m s = (x, t) \<Longrightarrow> Q x"
  unfolding returns_def by blast

lemma returns_return [simp]: "returns (State_Monad.return x) Q \<longleftrightarrow> Q x"
  by (simp add: returns_def)

lemma returns_bind: "(\<And>x. returns (k x) Q) \<Longrightarrow> returns (State_Monad.bind m k) Q"
  by (auto simp: returns_def split: prod.splits)

lemma returns_bind_of: "returns m R \<Longrightarrow> (\<And>x. R x \<Longrightarrow> returns (k x) Q) \<Longrightarrow> returns (State_Monad.bind m k) Q"
  by (fastforce simp: returns_def split: prod.splits)

lemma placed_id_updates [simp]:
  "placed_id (add_anomaly n p) = placed_id p" "placed_id (finalize p rep) = placed_id p" "placed_id (journal_anomaly tx j p) = placed_id p"
  "placed_id (placed_new x ph) = order_id x" "placed_id (p\<lparr>pd_status := a\<rparr>) = placed_id p" "placed_id (p\<lparr>pd_outcome := b\<rparr>) = placed_id p"
  "placed_id (p\<lparr>pd_detail := d\<rparr>) = placed_id p" "placed_id (p\<lparr>pd_broker_order_id := e\<rparr>) = placed_id p"
  "placed_id (p\<lparr>pd_planned_quantity := f\<rparr>) = placed_id p" "placed_id (p\<lparr>pd_reports := g\<rparr>) = placed_id p"
  by (simp_all add: placed_id_def order_id_def add_anomaly_def finalize_def journal_anomaly_def placed_new_def split: sum.split)

lemma settle_polls_id: "placed_id p = i \<Longrightarrow> returns (settle_polls cx oid n p) (\<lambda>x. placed_id (snd x) = i)"
proof (induction n arbitrary: p)
  case (Suc n)
  have IH: "returns (settle_polls cx oid n (p\<lparr>pd_status := st\<rparr>)) (\<lambda>x. placed_id (snd x) = i)" for st using Suc by simp
  show ?case
    using Suc.prems IH by (auto simp: Let_def intro!: returns_bind split: sum.split)
qed simp

lemma settle_into_id:
  assumes "placed_id p = i"
  shows "returns (settle_into cx p oid) (\<lambda>q. placed_id q = i)"
proof -
  have "returns (settle_polls cx oid n (p\<lparr>pd_broker_order_id := Some oid\<rparr>)) (\<lambda>x. placed_id (snd x) = i)" for n
    using assms by (intro settle_polls_id) simp
  note polled = returns_bind_of [OF this]
  show ?thesis
    unfolding settle_into_def by (intro returns_bind polled) (auto intro!: returns_bind split: sum.split)
qed

lemma adopt_id: "placed_id p = i \<Longrightarrow> returns (adopt cx p f) (\<lambda>q. placed_id q = i)"
  unfolding adopt_def Let_def by (intro returns_bind settle_into_id) simp

lemma resolve_unknown_id: "placed_id p = i \<Longrightarrow> returns (resolve_unknown cx reh t p) (\<lambda>q. placed_id q = i)"
  unfolding resolve_unknown_def
  by (rule returns_bind) (auto intro!: returns_bind_of [OF adopt_id [where i = i]] split: sum.split list.split)

lemma send_id: "placed_id p = i \<Longrightarrow> returns (send cx x reh p) (\<lambda>q. placed_id q = i)"
  unfolding send_def
  by (rule returns_bind) (auto intro!: returns_bind settle_into_id resolve_unknown_id split: sum.split place_outcome.split)

lemma execute_order_id: "returns (execute_order cx ph x) (\<lambda>q. placed_id q = order_id x)"
  unfolding execute_order_def send_journaled_def Let_def
  by (intro returns_bind) (auto intro!: returns_bind adopt_id send_id split: sum.split list.split)

lemma execute_and_record_trades:
  assumes "run_state (execute_and_record (recorded cx) ph x) s = (u, t)"
  shows "rr_plan (rn_rec t) = rr_plan (rn_rec s) \<and> rr_replan (rn_rec t) = rr_replan (rn_rec s) \<and>
     map placed_id (rr_placed (rn_rec t)) = map placed_id (rr_placed (rn_rec s)) @ [order_id x]"
proof -
  obtain p v where p: "run_state (execute_order (recorded cx) ph x) s = (p, v)" by (rule prod.exhaust)
  from leads_run [OF same_trades.order_kept refl p] have v: "trades_of (core_of v) = trades_of (core_of s)" .
  from assms p have "t = v\<lparr>rn_rec := (rn_rec v)\<lparr>rr_placed := rr_placed (rn_rec v) @ [p]\<rparr>\<rparr>"
    by (simp add: execute_and_record_def edit_def change_def)
  with v returnsD [OF execute_order_id p] show ?thesis by (simp add: trades_of_def core_of_def)
qed

lemma execute_each_trades:
  assumes "run_state (for_each (execute_and_record (recorded cx) ph) xs) s = (u, t)"
  shows "rr_plan (rn_rec t) = rr_plan (rn_rec s) \<and> rr_replan (rn_rec t) = rr_replan (rn_rec s) \<and>
     map placed_id (rr_placed (rn_rec t)) = map placed_id (rr_placed (rn_rec s)) @ map order_id xs"
  using assms
proof (induction xs arbitrary: s)
  case (Cons x xs)
  obtain v w where v: "run_state (execute_and_record (recorded cx) ph x) s = (v, w)" by (rule prod.exhaust)
  with Cons.prems have "run_state (for_each (execute_and_record (recorded cx) ph) xs) w = (u, t)" by simp
  from Cons.IH [OF this] execute_and_record_trades [OF v] show ?case by simp
qed simp

text \<open>A plan was made, and nothing of it was done yet.\<close>

definition fresh_plan :: "order_plan \<Rightarrow> ('p, 'w) run \<Rightarrow> bool" where
  "fresh_plan pl s \<longleftrightarrow> rr_plan (rn_rec s) = Some (summarize_plan pl) \<and> rr_replan (rn_rec s) = None \<and> rr_placed (rn_rec s) = [] \<and>
     rn_paused_tickets s = []"

definition taken_up :: "execution_mode \<Rightarrow> ('p, 'w) run \<Rightarrow> bool" where
  "taken_up m s \<longleftrightarrow> (\<exists>pl. rr_plan (rn_rec s) = Some pl \<and> (rn_paused_tickets s = [] \<longrightarrow> plan_taken_up m pl (rn_rec s)))"

lemma taken_up_cong:
  assumes "taken_up m s" and "rr_plan (rn_rec t) = rr_plan (rn_rec s)" "rr_replan (rn_rec t) = rr_replan (rn_rec s)"
    "rr_placed (rn_rec t) = rr_placed (rn_rec s)" "rr_tickets (rn_rec t) = rr_tickets (rn_rec s)" "rn_paused_tickets t = rn_paused_tickets s"
  shows "taken_up m t"
  using assms(1) unfolding taken_up_def plan_taken_up_def assms(2-6) .

lemma summarize_orders [simp]: "ps_plan_orders (summarize_plan pl) = op_orders pl"
  by (simp add: summarize_plan_def)

lemma not_paused: "rn_buys_paused s = None \<Longrightarrow> \<not> buy_is_paused s x"
  by (simp add: buy_is_paused_def)

lemma execute_assisted_takes_up:
  assumes "cx_mode cx = Assisted"
  shows "arrives (fresh_plan pl) (step_execute (recorded cx) ts pl) (taken_up Assisted)"
proof (rule arrivesI)
  fix s x t
  assume s: "fresh_plan pl s" and r: "run_state (step_execute (recorded cx) ts pl) s = (Inr x, t)"
  from r assms have t: "rr_plan (rn_rec t) = rr_plan (rn_rec s)" "rr_replan (rn_rec t) = rr_replan (rn_rec s)"
    "rr_placed (rn_rec t) = rr_placed (rn_rec s)" "rr_tickets (rn_rec t) = filter (\<lambda>x. \<not> buy_is_paused s x) (op_orders pl)"
    "rn_paused_tickets t = [] \<Longrightarrow> rn_buys_paused s = None \<or> filter (buy_is_paused s) (op_orders pl) = []"
    by (auto simp: step_execute_def unfold_monad ok_def split: prod.splits option.splits)
  then have "rr_tickets (rn_rec t) = op_orders pl" if "rn_paused_tickets t = []"
    using that not_paused [of s] by (auto simp: filter_empty_conv intro!: filter_True)
  with s t show "taken_up Assisted t" by (simp add: taken_up_def plan_taken_up_def fresh_plan_def)
qed

lemma execute_paper_takes_up:
  assumes "cx_mode cx = Paper"
  shows "arrives (fresh_plan pl) (step_execute (recorded cx) ts pl) (taken_up Paper)"
proof (rule arrivesI)
  fix s x t
  assume s: "fresh_plan pl s" and r: "run_state (step_execute (recorded cx) ts pl) s = (Inr x, t)"
  obtain y u where u: "run_state (for_each (execute_and_record (recorded cx) Rehearsal) (op_orders pl)) s = (y, u)" by (rule prod.exhaust)
  from r u assms have "rr_plan (rn_rec t) = rr_plan (rn_rec u)" "rr_replan (rn_rec t) = rr_replan (rn_rec u)"
    "rr_placed (rn_rec t) = rr_placed (rn_rec u)"
    by (auto simp: step_execute_def unfold_monad ok_def split: prod.splits)
  with s execute_each_trades [OF u] show "taken_up Paper t" by (simp add: taken_up_def plan_taken_up_def fresh_plan_def)
qed

lemma and_then_Inr:
  assumes "run_state (and_then m k) s = (Inr x, t)"
  shows "\<exists>y u. run_state m s = (Inr y, u) \<and> run_state (k y) u = (Inr x, t)"
  using assms by (auto simp: and_then_def split: prod.splits sum.splits)

lemma execute_live_takes_up:
  assumes "cx_mode cx = Live"
  shows "arrives (fresh_plan pl) (step_execute (recorded cx) ts pl) (taken_up Live)"
proof (rule arrivesI)
  fix s x t
  assume s: "fresh_plan pl s" and "run_state (step_execute (recorded cx) ts pl) s = (Inr x, t)"
  with assms have r: "run_state (execute_live (recorded cx) ts pl) s = (Inr x, t)" by (simp add: step_execute_def)
  obtain y u where u: "run_state (for_each (execute_and_record (recorded cx) Sells) (of_side Sell pl)) s = (y, u)" by (rule prod.exhaust)
  note sells = execute_each_trades [OF u]
  show "taken_up Live t"
  proof (cases "of_side Buy pl = []")
    case True
    then have "\<forall>x \<in> set (op_orders pl). pl_side x = Sell" by (auto simp: of_side_def filter_empty_conv intro: side.exhaust)
    moreover from r u True have "rr_plan (rn_rec t) = rr_plan (rn_rec u)" "rr_replan (rn_rec t) = rr_replan (rn_rec u)"
      "rr_placed (rn_rec t) = rr_placed (rn_rec u)"
      by (auto simp: execute_live_def unfold_monad ok_def split: prod.splits)
    ultimately show ?thesis using s sells by (simp add: taken_up_def plan_taken_up_def fresh_plan_def of_side_def)
  next
    case False
    let ?m = "and_then (read_snapshot (recorded cx) ''execute'') (\<lambda>snap. and_then (day_counters_of (recorded cx)) (\<lambda>day.
      plan_with (recorded cx) ts snap day False))"
    have "steady_in (\<lambda>c. trades_of c = k) ?m" for k
      by (intro keeps_and_then same_trades.read_snapshot_kept same_trades.day_counters_of_kept same_trades.plan_with_kept)
    note same = this
    let ?f = "\<lambda>rp. State_Monad.bind (edit (\<lambda>r. r\<lparr>rr_replan := Some (summarize_plan rp)\<rparr>)) (\<lambda>_.
      State_Monad.bind (note_step (recorded cx) ''execute'') (\<lambda>_.
      State_Monad.bind (for_each (execute_and_record (recorded cx) Buys) (of_side Buy rp)) (\<lambda>_. ok ())))"
    from r u False have "run_state (and_then ?m ?f) u = (Inr x, t)"
      by (simp add: execute_live_def and_then_assoc)
    from and_then_Inr [OF this] obtain rp v where v: "run_state ?m u = (Inr rp, v)" and "run_state (?f rp) v = (Inr x :: stop + unit, t)"
      by (elim exE conjE)
    then obtain w where w: "run_state (for_each (execute_and_record (recorded cx) Buys) (of_side Buy rp)) w = ((), t)"
      "run_state (note_step (recorded cx) ''execute'') (v\<lparr>rn_rec := (rn_rec v)\<lparr>rr_replan := Some (summarize_plan rp)\<rparr>\<rparr>) = ((), w)"
      by (auto simp: edit_def change_def ok_def split: prod.splits)
    from execute_each_trades [OF w(1)] steady_eq [OF steady_note w(2)] leads_run [OF same refl v] s sells show ?thesis
      by (simp add: taken_up_def plan_taken_up_def fresh_plan_def of_side_def trades_of_def core_of_def)
  qed
qed

lemma keeps_bind_returns: "keeps I m \<Longrightarrow> returns m Q \<Longrightarrow> (\<And>x. Q x \<Longrightarrow> keeps I (k x)) \<Longrightarrow> keeps I (State_Monad.bind m k)"
  unfolding leads_def returns_def by (auto split: prod.splits) (metis prod.collapse snd_conv)

definition ids_of :: "run_core \<Rightarrow> plan_summary option \<times> plan_summary option \<times> (string \<times> string \<times> side) list \<times> string list" where
  "ids_of c = (rc_plan c, rc_replan c, map placed_id (rc_placed c), rc_paused c)"

interpretation same_ids: run_invariant "\<lambda>c. ids_of c = k" for k
  by unfold_locales (simp_all add: ids_of_def core_updates)

lemma look_up_placed_ids: "returns (look_up_placed cx ps) (\<lambda>qs. map placed_id qs = map placed_id ps)"
proof (induction ps)
  case (Cons p ps)
  have "returns (last_look_up cx p) (\<lambda>q. placed_id q = placed_id p)"
    unfolding last_look_up_def by (auto intro!: returns_bind split: sum.split list.split)
  with Cons show ?case by (auto intro!: returns_bind_of [where R = "\<lambda>q. placed_id q = placed_id p"] returns_bind_of [OF Cons])
qed simp

lemma step_recon_post_ids: "steady_in (\<lambda>c. ids_of c = k) (step_recon_post (recorded cx))"
proof -
  have placed: "steady_in (\<lambda>c. ids_of c = k) (edit (\<lambda>r. r\<lparr>rr_placed := ps\<rparr>))" if "map placed_id ps = fst (snd (snd k))" for ps
    unfolding edit_def
    by (rule keeps_change_core [where g = "\<lambda>c. c\<lparr>rc_placed := ps\<rparr>"]) (use that in \<open>auto simp: core_of_def ids_of_def\<close>)
  have "steady_in (\<lambda>c. ids_of c = k) (edit (\<lambda>r. r\<lparr>rr_post_snapshot := v\<rparr>))" for v by (rule steady_edit) simp
  note snap = this
  show ?thesis
    supply steady_edit [run_keeps del]
    unfolding step_recon_post_def Let_def
  proof (rule leads_if, goal_cases)
    case 1
    show ?case by (intro keeps_bind steady_note keeps_ok)
  next
    case 2
    show ?case
    proof (rule keeps_ask_gives [where Q = "\<lambda>ps. map placed_id ps = fst (snd (snd k))"], goal_cases)
      case (1 s)
      then show ?case by (auto simp: ids_of_def core_of_def)
    next
      case (2 ps)
      note looked = keeps_bind_returns [OF steady_look_up_placed look_up_placed_ids]
      show ?case
        by (rule looked) (auto intro!: keeps_intros placed snap run_keeps keeps_snapshot same_ids.sees same_ids.halt_reconciliation_kept
            same_ids.judge_recon_kept simp: 2 split: sum.split option.split)
    qed
  qed
qed

text \<open>From the start of the run to the plan nothing is traded; then the plan is taken up.\<close>

definition untraded :: "run_core \<Rightarrow> bool" where
  "untraded c \<longleftrightarrow> rc_replan c = None \<and> rc_placed c = [] \<and> rc_paused c = []"

interpretation before_plan: refusing_invariant untraded cx for cx :: "('p, 'w) run_context"
  by unfold_locales (simp_all add: untraded_def core_updates)

interpretation before_plan_blind: blind_invariant untraded
  by unfold_locales (simp_all add: untraded_def core_updates)

lemma untraded_halted_check: "steady_in untraded (step_halted_check (recorded cx))"
  unfolding step_halted_check_def
  by (intro keeps_bind keeps_ask)
    (auto intro!: keeps_intros run_keeps before_plan.refuse_kept before_plan_blind.flatten_kept split: account_status.split)

lemma untraded_risk: "steady_in untraded (step_risk (recorded cx))"
  unfolding step_risk_def Let_def
  by (auto intro!: keeps_intros run_keeps before_plan.refuse_kept before_plan.fail_closed_kept before_plan.save_state_kept
      before_plan.pause_buys_kept before_plan_blind.flatten_kept split: option.split)

lemma step_plan_plans:
  "run_state (step_plan cx ts) s = (Inr pl, t) \<Longrightarrow> rr_plan (rn_rec t) = Some (summarize_plan pl)"
  by (auto simp: step_plan_def and_then_def ok_def note_step_def edit_def change_def now_def call_def Let_def split: prod.splits sum.splits)

lemma step_plan_fresh:
  assumes "untraded (core_of s)" and "run_state (step_plan (recorded cx) ts) s = (Inr pl, t)"
  shows "fresh_plan pl t"
proof -
  let ?I = "\<lambda>c. (rc_replan c, rc_placed c, rc_paused c) = (None, [], [])"
  have "steady_in ?I (edit (\<lambda>r. r\<lparr>rr_plan := p\<rparr>))" for p
    unfolding edit_def by (rule keeps_change_core [where g = "\<lambda>c. c\<lparr>rc_plan := p\<rparr>"]) (simp_all add: core_of_def)
  moreover have "run_invariant ?I" by unfold_locales (simp_all add: core_updates)
  ultimately have "steady_in ?I (step_plan (recorded cx) ts)"
    unfolding step_plan_def
    by (intro keeps_and_then keeps_bind keeps_get_or_stop run_invariant.day_counters_of_kept run_invariant.plan_with_kept steady_note keeps_ok)
  from leads_run [OF this _ assms(2)] assms step_plan_plans [OF assms(2)] show ?thesis
    by (simp add: fresh_plan_def untraded_def core_of_def)
qed

lemma step_execute_takes_up: "arrives (fresh_plan pl) (step_execute (recorded cx) ts pl) (taken_up (cx_mode cx))"
  by (cases "cx_mode cx") (simp_all add: execute_assisted_takes_up execute_paper_takes_up execute_live_takes_up)

lemma recon_post_takes_up: "flows (taken_up (cx_mode cx)) (step_recon_post (recorded cx))"
proof (rule arrivesI)
  fix s x t
  assume s: "taken_up (cx_mode cx) s" and r: "run_state (step_recon_post (recorded cx)) s = (Inr x, t)"
  from leads_run [OF step_recon_post_ids refl r] have ids: "ids_of (core_of t) = ids_of (core_of s)" .
  have "rr_tickets (rn_rec t) = rr_tickets (rn_rec s)" if "cx_mode cx = Assisted"
    using r that by (auto simp: step_recon_post_def unfold_monad ok_def split: prod.splits)
  with s ids show "taken_up (cx_mode cx) t"
    by (auto simp: taken_up_def plan_taken_up_def ids_of_def core_of_def split: execution_mode.splits)
qed

lemma until_assess_takes_up:
  "arrives (\<lambda>s. untraded (core_of s)) (until_assess (recorded cx)) (taken_up (cx_mode cx))"
proof -
  define rest where "rest ts = and_then (step_plan (recorded cx) ts) (\<lambda>pl.
     and_then (step_execute (recorded cx) ts pl) (\<lambda>_. step_recon_post (recorded cx)))" for ts
  have "arrives (\<lambda>s. untraded (core_of s)) (rest ts) (taken_up (cx_mode cx))" for ts
  proof (rule arrivesI)
    fix s x t
    assume s: "untraded (core_of s)" and "run_state (rest ts) s = (Inr x, t)"
    then obtain pl u where u: "run_state (step_plan (recorded cx) ts) s = (Inr pl, u)"
      "run_state (and_then (step_execute (recorded cx) ts pl) (\<lambda>_. step_recon_post (recorded cx))) u = (Inr x, t)"
      unfolding rest_def by (blast dest: and_then_Inr)
    from arrivesD [OF arrives_next [OF step_execute_takes_up recon_post_takes_up] step_plan_fresh [OF s u(1)] u(2)]
    show "taken_up (cx_mode cx) t" .
  qed
  then show ?thesis
    unfolding until_assess_def rest_def [symmetric]
    by (intro arrives_next [where P = "\<lambda>s. untraded (core_of s)" and R = "\<lambda>s. untraded (core_of s)"] flows_keeps
        before_plan.step_venue_policy_kept before_plan.step_kill_flag_kept before_plan.step_mandate_kept before_plan.step_decisions_kept
        before_plan.step_read_account_kept untraded_halted_check before_plan.step_cleanup_kept before_plan.step_recon_pre_kept
        untraded_risk before_plan.step_targets_kept)
qed

interpretation uncarried: whole_invariant "\<lambda>c. policy_known cx c \<and> \<not> rc_carried c" cx for cx :: "('p, 'w) run_context"
  by unfold_locales (auto simp: core_updates)

lemma shortfalls_cong:
  assumes "rr_plan (rn_rec s) = rr_plan (rn_rec t)" "rr_replan (rn_rec s) = rr_replan (rn_rec t)"
    "rr_placed (rn_rec s) = rr_placed (rn_rec t)" "rn_paused_tickets s = rn_paused_tickets t"
  shows "shortfalls s = shortfalls t"
  unfolding shortfalls_def assms by (rule refl)

lemma shortfalls_core: "core_of s = core_of t \<Longrightarrow> shortfalls s = shortfalls t"
  by (rule shortfalls_cong) (simp_all add: core_of_def)

text \<open>What an acting run leaves: the outcome, and the plan with nothing missing.\<close>

definition acted_fully :: "execution_mode \<Rightarrow> ('p, 'w) run \<Rightarrow> bool" where
  "acted_fully m s \<longleftrightarrow> rr_outcome (rn_rec s) = \<lparr>ro_kind = OkCompleted, ro_code = run_code_as_str RcCompleted\<rparr> \<and>
     taken_up m s \<and> shortfalls s = []"

lemma assess_acts:
  assumes "run_state (step_assess (recorded cx)) s = (x, t)" and "rn_carried t" and "\<not> rn_carried s" and "taken_up m s"
  shows "acted_fully m t"
proof -
  have n: "shortfalls s = []"
    using assms(1-3) by (auto simp: step_assess_def unfold_monad split: if_splits prod.splits)
  with assms(1) have t: "t = s\<lparr>rn_carried := True, rn_rec := (rn_rec s)\<lparr>rr_outcome := \<lparr>ro_kind = OkCompleted, ro_code = run_code_as_str RcCompleted\<rparr>\<rparr>\<rparr>"
    by (simp add: step_assess_def unfold_monad)
  then have "shortfalls t = shortfalls s" by (intro shortfalls_cong) simp_all
  moreover have "taken_up m t" by (rule taken_up_cong [OF assms(4)]) (simp_all add: t)
  ultimately show ?thesis using n t by (simp add: acted_fully_def)
qed

lemma execute_acts:
  assumes "core_of s = core_start" and "run_state (execute (recorded cx)) s = (x, t)" and "rn_carried t"
  shows "acted_fully (cx_mode cx) t"
proof -
  obtain y u where m: "run_state (until_assess (recorded cx)) s = (y, u)" by (rule prod.exhaust)
  have s: "policy_known cx (core_of s) \<and> \<not> rc_carried (core_of s)" "untraded (core_of s)"
    by (simp_all add: assms(1) core_start_def core_updates untraded_def)
  from leads_run [OF uncarried.until_assess_kept s(1) m] have u: "\<not> rn_carried u" by (simp add: core_of_def)
  show ?thesis
  proof (cases y)
    case (Inl e)
    with assms(2,3) m u show ?thesis by (simp add: execute_eq and_then_def)
  next
    case (Inr z)
    from arrivesD [OF until_assess_takes_up s(2) m [unfolded Inr]] have "taken_up (cx_mode cx) u" .
    moreover have "run_state (step_assess (recorded cx)) u = ((), t)"
      using assms(2) m Inr by (simp add: execute_eq and_then_def ok_def split: prod.splits)
    ultimately show ?thesis using assess_acts u assms(3) by blast
  qed
qed

lemma finish_run_acted:
  assumes "run_state (finish_run (recorded cx)) s = (r, t)" and "acted_fully m s"
  shows "acted_fully m t"
proof -
  have "rr_tickets (rn_rec t) = rr_tickets (rn_rec s)"
    using assms(1)
    by (auto simp: finish_run_def raise_alert_def now_def call_def ask_def edit_def change_def mark_acted_def Let_def
        split: prod.splits sum.splits)
  moreover note core = finish_run_core [OF assms(1)]
  ultimately have "taken_up m t" using assms(2) by (intro taken_up_cong [of m s t]) (simp_all add: acted_fully_def core_of_def)
  with core shortfalls_core [OF core] assms(2) show ?thesis by (simp add: acted_fully_def core_of_def)
qed


section \<open>One order\<close>

abbreviation log_of :: "('p, 'w \<times> log_event list) run \<Rightarrow> log_event list" where
  "log_of s \<equiv> snd (rn_world s)"

lemma log_after:
  assumes "\<And>I. steady_in I m" and "run_state m s = (x, t)"
  shows "log_of t = log_of s"
  using steady_eq [OF assms] by (simp add: core_of_def)

lemma send_logs:
  assumes "run_state (send (recorded cx) x reh p) s = (q, t)"
  shows "log_of t = Placed (request_of x reh) # log_of s"
proof -
  obtain r u where c: "run_state (call (bk_place (cx_broker (recorded cx)) (request_of x reh))) s = (r, u)" by (rule prod.exhaust)
  then have "log_of u = Placed (request_of x reh) # log_of s" by (auto simp: call_def recording_def split: prod.splits)
  moreover have "log_of t = log_of u"
  proof (rule log_after)
    show "run_state (case r of
        Inr (Accepted oid _ _ _) \<Rightarrow>
          if reh
          then settle_into (recorded cx) (add_anomaly (''PAPER_ORDER_EXISTS: a validate-only order came back as accepted ('' @ oid @ '')'') p) oid
          else State_Monad.bind (journal (recorded cx) \<lparr>je_tag = pl_tag x, je_broker_order_id = Some oid, je_notional = pl_notional x\<rparr>)
            (\<lambda>j. settle_into (recorded cx) (journal_anomaly (cx_text (recorded cx)) j p) oid)
      | Inr (ValidatedOnly _ _ _) \<Rightarrow> State_Monad.return (p\<lparr>pd_outcome := PoValidated\<rparr>)
      | Inr (Rejected errors _) \<Rightarrow> State_Monad.return (p\<lparr>pd_outcome := PoRejected, pd_detail := join '', '' (map ee_code errors)\<rparr>)
      | Inr (UnknownOutcome reason _) \<Rightarrow> resolve_unknown (recorded cx) reh reason p
      | Inl e \<Rightarrow> State_Monad.return (p\<lparr>pd_outcome := PoNotSent, pd_detail := not_sent_detail (cx_text (recorded cx)) e\<rparr>)) u = (q, t)"
      using assms c by (simp add: send_def)
  qed (auto intro!: keeps_bind run_keeps split: sum.split place_outcome.split)
  ultimately show ?thesis by simp
qed

lemma tag_look_up:
  assumes "run_state (call (bk_find_by_tag (recording b) g)) s = (r, u)"
  shows "\<exists>w1. bk_find_by_tag b g (fst (rn_world s)) = (r, w1) \<and> fst (rn_world u) = w1 \<and> log_of u = log_of s \<and> rn_rec u = rn_rec s"
  using assms by (cases "rn_world s") (auto simp: call_def recording_def lift_io_def split: prod.splits)

lemma journal_call:
  assumes "run_state (journal (recorded cx) e) s = (r, u)"
  shows "\<exists>w2. cx_journal_order cx (rr_key (rn_rec s)) e (fst (rn_world s)) = (r, w2) \<and> log_of u = log_of s"
  using assms by (cases "rn_world s") (auto simp: journal_def ask_def call_def recorded_def lift_io_def split: prod.splits)

definition intent :: "planned_order \<Rightarrow> journal_entry" where
  "intent x = \<lparr>je_tag = pl_tag x, je_broker_order_id = None, je_notional = pl_notional x\<rparr>"

text \<open>Nothing was sent, or the order was, once, after its intent was journaled.\<close>

definition sends_once :: "('p, 'w) run_context \<Rightarrow> bool \<Rightarrow> planned_order \<Rightarrow> run_key \<Rightarrow> 'w \<Rightarrow> log_event list \<Rightarrow> log_event list \<Rightarrow> bool" where
  "sends_once cx reh x k w l l' \<longleftrightarrow> l' = l \<or>
     l' = Placed (request_of x reh) # l \<and> (reh \<or> (\<exists>w2. cx_journal_order cx k (intent x) w = (Inr (), w2)))"

lemma send_journaled_once:
  assumes "run_state (send_journaled (recorded cx) x reh p) s = (q, t)"
  shows "sends_once cx reh x (rr_key (rn_rec s)) (fst (rn_world s)) (log_of s) (log_of t)"
proof (cases reh)
  case True
  with assms show ?thesis by (auto simp: send_journaled_def sends_once_def dest: send_logs)
next
  case False
  obtain r u where j: "run_state (journal (recorded cx) (intent x)) s = (r, u)" by (rule prod.exhaust)
  note w = journal_call [OF j]
  show ?thesis
  proof (cases r)
    case (Inl e)
    with assms False j w show ?thesis by (auto simp: send_journaled_def sends_once_def intent_def)
  next
    case (Inr y)
    with assms False j have "run_state (send (recorded cx) x False p) u = (q, t)" by (simp add: send_journaled_def intent_def)
    from send_logs [OF this] w Inr False show ?thesis by (auto simp: sends_once_def)
  qed
qed

lemma execute_order_cases:
  assumes r: "run_state (execute_order (recorded cx) ph x) s = (p, t)"
    and f: "run_state (call (bk_find_by_tag (recording (cx_broker cx)) (pl_tag x))) s = (f, u)"
  obtains (blocked) "log_of t = log_of s"
  | (empty) "may_add_risk (ac_status (rn_state s))" "\<not> buy_is_paused s x" "f = Inr []"
      "run_state (send_journaled (recorded cx) x (ph = Rehearsal) (placed_new x ph)) u = (p, t)"
proof (cases "may_add_risk (ac_status (rn_state s)) \<and> \<not> buy_is_paused s x")
  case False
  with r blocked show ?thesis by (auto simp: execute_order_def ask_def Let_def split: if_splits)
next
  case ok: True
  show ?thesis
  proof (cases "\<exists>g gs. f = Inr (g # gs)")
    case True
    then obtain g gs where g: "f = Inr (g # gs)" by blast
    from ok r f [unfolded g] have "\<exists>q. run_state (adopt (recorded cx) q g) u = (p, t)" by (auto simp: execute_order_def ask_def Let_def)
    then have "log_of t = log_of u" using log_after [OF steady_adopt] by blast
    with tag_look_up [OF f] blocked show ?thesis by simp
  next
    case False
    then consider e where "f = Inl e" | "f = Inr []" by (cases f) (auto, metis list.exhaust)
    then show ?thesis
    proof cases
      case (1 e)
      with ok r f have "t = u" by (auto simp: execute_order_def ask_def Let_def)
      with tag_look_up [OF f] blocked show ?thesis by simp
    next
      case 2
      with ok r f have "run_state (send_journaled (recorded cx) x (ph = Rehearsal) (placed_new x ph)) u = (p, t)"
        by (simp add: execute_order_def ask_def Let_def)
      with ok 2 empty show ?thesis by simp
    qed
  qed
qed

text \<open>
  C8: Placing one order of a plan asks the broker at most once for it, and only after the account's
  status allows it, a paused buy was excluded, the look-up by the order's tag answered that no order
  carries it, and (except in a rehearsal) the journal accepted the intent.
\<close>

theorem order_sent_at_most_once:
  "let (p, t) = run_state (execute_order (recorded cx) ph x) s
   in log_of t = log_of s \<or>
      log_of t = Placed (request_of x (ph = Rehearsal)) # log_of s \<and> may_add_risk (ac_status (rn_state s)) \<and> \<not> buy_is_paused s x \<and>
      (\<exists>w1. bk_find_by_tag (cx_broker cx) (pl_tag x) (fst (rn_world s)) = (Inr [], w1) \<and>
        (ph = Rehearsal \<or> (\<exists>w2. cx_journal_order cx (rr_key (rn_rec s)) (intent x) w1 = (Inr (), w2))))"
proof -
  obtain p t where r: "run_state (execute_order (recorded cx) ph x) s = (p, t)" by (rule prod.exhaust)
  obtain f u where f: "run_state (call (bk_find_by_tag (recording (cx_broker cx)) (pl_tag x))) s = (f, u)" by (rule prod.exhaust)
  note look = tag_look_up [OF f]
  from r f show ?thesis
  proof (cases rule: execute_order_cases)
    case blocked
    with r show ?thesis by simp
  next
    case empty
    with r look send_journaled_once [OF empty(4)] show ?thesis by (auto simp: sends_once_def)
  qed
qed

text \<open>
  A run whose key was finished before is a no-op: it returns the first record and sends nothing.
\<close>

theorem replay_is_noop:
  assumes "cx_begin cx (run_key_new (cx_account_id cx) (cx_scheduled_for cx) (map ss_id (cx_sleeves cx))) (cx_trading_day cx) t
      (cf_lease_secs (cx_config cx)) w1 = (Inr (AlreadyDone first), w2)"
    and "bk_now (cx_broker cx) w = (t, w1)"
  shows "fst (run_once (recorded cx) cache (w, [])) = first \<and> rn_world (snd (run_once (recorded cx) cache (w, []))) = (w2, [])"
  using assms by (simp add: run_once_def run_started_def Let_def recording_def lift_io_def call_def recorded_def run_new_def)

section \<open>Failing closed after the sells\<close>

interpretation sends_no_more: run_invariant "\<lambda>c. sent (rc_log c) = x" for x
  by unfold_locales (simp_all add: core_updates)

lemma read_snapshot_fails:
  assumes "run_state (read_snapshot (recorded cx) n) s = (Inl e, t)"
  shows "ro_kind (rr_outcome (rn_rec t)) = OkFailedClosed \<and> sent (log_of t) = sent (log_of s)"
proof
  show "ro_kind (rr_outcome (rn_rec t)) = OkFailedClosed"
    using assms by (auto simp: read_snapshot_def fail_closed_def err_def ok_def unfold_monad split: prod.splits sum.splits)
  show "sent (log_of t) = sent (log_of s)"
    using leads_run [OF sends_no_more.read_snapshot_kept _ assms] by (simp add: core_of_def)
qed

text \<open>
  In a live run the account is read again between the sells and the buys. When that read fails, the
  run reports that it failed closed, with the alert that nothing was traded, after its sells were sent.
\<close>

lemma live_run_fails_closed_after_sells:
  assumes "run_state (for_each (execute_and_record (recorded cx) Sells) (of_side Sell pl)) s = ((), t)"
    and "of_side Buy pl \<noteq> []" and "run_state (read_snapshot (recorded cx) ''execute'') t = (Inl e, u)"
  shows "run_state (execute_live (recorded cx) ts pl) s = (Inl e, u) \<and>
     ro_kind (rr_outcome (rn_rec u)) = OkFailedClosed \<and> sent (log_of u) = sent (log_of t)"
  using assms read_snapshot_fails [OF assms(3)] by (simp add: execute_live_def and_then_def)

end
