(* ===== verification/Guard_Props.thy ===== *)
theory Guard_Props
  imports Guard
begin

text \<open>
  What the guard's verdicts mean. \<open>account_ok\<close> and \<open>order_ok\<close> say that every decimal the guard is
  given is well formed; \<open>pv_after\<close>, \<open>gross_after\<close>, \<open>net_after\<close> and \<open>class_after\<close> are the exposures
  after the order as rational numbers, computed from the positions alone. An allowed order is one
  for which every check recorded nothing, so the inversion lemmas \<open>chk_ok\<close> turn "allowed" into the
  list of conditions, and the properties read the limits off it.
\<close>

section \<open>Inversion of checks\<close>

lemma chk_bind_ok: "chk_bind m k = ([], Inr y) \<longleftrightarrow> (\<exists>x. m = ([], Inr x) \<and> k x = ([], Inr y))"
  by (auto simp: chk_bind_def split: prod.splits sum.splits)

lemma chk_lift_ok: "chk_lift m = ([], Inr y) \<longleftrightarrow> m = Inr y"
  by (simp add: chk_lift_def)

lemma deny_if_ok: "deny_if b c = ([], Inr y) \<longleftrightarrow> \<not> b"
  by (simp add: deny_if_def)

lemma ex_unit: "(\<exists>x::unit. P x) \<longleftrightarrow> P ()"
  by (metis (full_types) unit.exhaust)

lemmas chk_ok = chk_bind_ok chk_lift_ok deny_if_ok ex_unit

lemma guard_allow_iff: "v_allow (guard_run p a o1 d s) \<longleftrightarrow> check_inner p a o1 d s = ([], Inr ())"
  by (cases "check_inner p a o1 d s"; cases "snd (check_inner p a o1 d s)") (auto simp: guard_run_def Let_def)

lemma guard_allow_reasons: "v_allow (guard_run p a o1 d s) \<longleftrightarrow> v_reasons (guard_run p a o1 d s) = []"
  by (simp add: guard_run_def Let_def)

section \<open>Well-formed inputs\<close>

definition account_ok :: "account_view \<Rightarrow> bool" where
  "account_ok a \<longleftrightarrow> dec_ok (av_equity a) \<and> dec_ok (av_cash a)
     \<and> list_all (\<lambda>p. dec_ok (pos_quantity p) \<and> dec_ok (pos_market_value p)) (av_positions a)"

definition order_ok :: "proposed_order \<Rightarrow> bool" where
  "order_ok o1 \<longleftrightarrow> dec_ok (po_quantity o1) \<and> dec_ok (po_est_fee o1)
     \<and> (\<forall>pt. po_price o1 = Some pt \<longrightarrow> dec_ok (pp_price pt))"

lemma position_qty_ok: "account_ok a \<Longrightarrow> dec_ok (position_qty a o1)"
  by (auto simp: position_qty_def account_position_def account_ok_def list_all_iff
      dest!: find_Some_mem split: option.split)

lemma not_dec_lt: "\<not> dec_lt a b \<Longrightarrow> dec_ok a \<Longrightarrow> dec_ok b \<Longrightarrow> dval b \<le> dval a"
  by (simp add: dec_order not_less)

lemma capital_base_ok: "policy_ok p \<Longrightarrow> dec_ok e \<Longrightarrow> dec_ok (capital_base p e c)"
  by (auto simp: capital_base_def policy_ok_def intro!: dec_ok_min limits_okD split: option.splits)

lemma capital_base_val:
  assumes "policy_limits p = Some l" and "limits_ok l" and "dec_ok e" and "eq_ignore_case (trim c) (l_ccy l)"
  shows "dval (capital_base p e c) = min (dval e) (dval (l_allocated l))"
  using assms limits_okD [OF assms(2)] eq_ignore_case_sym [of "l_ccy l"] by (simp add: capital_base_def dec_min_dval)

section \<open>Exposure after the order, as numbers\<close>

definition signed_val :: "side \<Rightarrow> rat \<Rightarrow> rat" where
  "signed_val s x = (case s of Buy \<Rightarrow> x | Sell \<Rightarrow> - x)"

definition same_symbol :: "proposed_order \<Rightarrow> position \<Rightarrow> bool" where
  "same_symbol o1 p \<longleftrightarrow> eq_ignore_case (pos_symbol p) (trim (po_symbol o1))"

definition pv_after :: "account_view \<Rightarrow> proposed_order \<Rightarrow> rat \<Rightarrow> rat" where
  "pv_after a o1 n = signed_val (po_side o1) n + (\<Sum>p\<leftarrow>filter (same_symbol o1) (av_positions a). dval (pos_market_value p))"

definition gross_after :: "account_view \<Rightarrow> proposed_order \<Rightarrow> rat \<Rightarrow> rat" where
  "gross_after a o1 n =
     (\<Sum>p\<leftarrow>filter (\<lambda>p. \<not> same_symbol o1 p) (av_positions a). \<bar>dval (pos_market_value p)\<bar>) + \<bar>pv_after a o1 n\<bar>"

definition net_after :: "account_view \<Rightarrow> proposed_order \<Rightarrow> rat \<Rightarrow> rat" where
  "net_after a o1 n = signed_val (po_side o1) n + (\<Sum>p\<leftarrow>av_positions a. dval (pos_market_value p))"

definition class_after :: "account_view \<Rightarrow> proposed_order \<Rightarrow> rat \<Rightarrow> rat" where
  "class_after a o1 n =
     (\<Sum>p\<leftarrow>filter (\<lambda>p. \<not> same_symbol o1 p \<and> eq_ignore_case (trim (pos_asset_class p)) (order_class o1)) (av_positions a).
        \<bar>dval (pos_market_value p)\<bar>) + \<bar>pv_after a o1 n\<bar>"

lemma signed_by_side_val:
  assumes "signed_by_side s d = Inr r" and "dec_ok d"
  shows "dval r = signed_val s (dval d)" and "dec_ok r"
  using assms by (auto simp: signed_by_side_def signed_val_def dest: dneg_val dneg_ok split: side.splits)

lemma after_step_val:
  assumes st: "after_step sy cls (pv, og, on, oc) p = Inr (pv', og', on', oc')"
    and ok: "dec_ok pv" "dec_ok og" "dec_ok on" "dec_ok oc" and m: "dec_ok (pos_market_value p)"
  defines "same \<equiv> eq_ignore_case (pos_symbol p) sy" and "mv \<equiv> dval (pos_market_value p)"
  shows "dval pv' = dval pv + (if same then mv else 0) \<and> dval og' = dval og + (if same then 0 else \<bar>mv\<bar>)
    \<and> dval on' = dval on + (if same then 0 else mv)
    \<and> dval oc' = dval oc + (if \<not> same \<and> eq_ignore_case (trim (pos_asset_class p)) cls then \<bar>mv\<bar> else 0)
    \<and> dec_ok pv' \<and> dec_ok og' \<and> dec_ok on' \<and> dec_ok oc'"
proof (cases same)
  case True
  with st have "dadd pv (pos_market_value p) = Inr pv'" "og' = og" "on' = on" "oc' = oc"
    by (auto simp: after_step_def res_inv same_def)
  then show ?thesis using True ok m dadd_val [of pv _ pv'] dadd_ok [of pv _ pv'] by (simp add: mv_def)
next
  case False
  with st obtain b where b: "dabs (pos_market_value p) = Inr b" "dadd og b = Inr og'"
    "dadd on (pos_market_value p) = Inr on'" "pv' = pv"
    and oc: "if eq_ignore_case (trim (pos_asset_class p)) cls then dadd oc b = Inr oc' else oc' = oc"
    by (auto simp: after_step_def res_inv same_def split: if_splits)
  have bv: "dval b = \<bar>mv\<bar>" "dec_ok b" using dabs_val [OF b(1)] dabs_ok [OF b(1) m] by (simp_all add: mv_def)
  have "dval og' = dval og + \<bar>mv\<bar>" "dec_ok og'" "dval on' = dval on + mv" "dec_ok on'"
    using dadd_val [OF b(2) ok(2) bv(2)] dadd_ok [OF b(2) ok(2) bv(2)] dadd_val [OF b(3) ok(3) m]
      dadd_ok [OF b(3) ok(3) m] bv(1) by (simp_all add: mv_def)
  moreover have "dval oc' = dval oc + (if eq_ignore_case (trim (pos_asset_class p)) cls then \<bar>mv\<bar> else 0)" "dec_ok oc'"
    using oc dadd_val [of oc b oc'] dadd_ok [of oc b oc'] ok(4) bv by (auto split: if_splits)
  ultimately show ?thesis using False ok(1) b(4) by simp
qed

lemma after_fold_val:
  assumes "try_fold (after_step sy cls) (pv, og, on, oc) ps = Inr (pv', og', on', oc')"
    and "dec_ok pv" "dec_ok og" "dec_ok on" "dec_ok oc" "list_all (\<lambda>p. dec_ok (pos_market_value p)) ps"
  defines "same \<equiv> (\<lambda>p. eq_ignore_case (pos_symbol p) sy)"
  shows "dval pv' = dval pv + (\<Sum>p\<leftarrow>filter same ps. dval (pos_market_value p))"
    "dval og' = dval og + (\<Sum>p\<leftarrow>filter (\<lambda>p. \<not> same p) ps. \<bar>dval (pos_market_value p)\<bar>)"
    "dval on' = dval on + (\<Sum>p\<leftarrow>filter (\<lambda>p. \<not> same p) ps. dval (pos_market_value p))"
    "dval oc' = dval oc + (\<Sum>p\<leftarrow>filter (\<lambda>p. \<not> same p \<and> eq_ignore_case (trim (pos_asset_class p)) cls) ps.
        \<bar>dval (pos_market_value p)\<bar>)"
    "dec_ok pv' \<and> dec_ok og' \<and> dec_ok on' \<and> dec_ok oc'"
proof -
  have "dval pv' = dval pv + (\<Sum>p\<leftarrow>filter same ps. dval (pos_market_value p))
    \<and> dval og' = dval og + (\<Sum>p\<leftarrow>filter (\<lambda>p. \<not> same p) ps. \<bar>dval (pos_market_value p)\<bar>)
    \<and> dval on' = dval on + (\<Sum>p\<leftarrow>filter (\<lambda>p. \<not> same p) ps. dval (pos_market_value p))
    \<and> dval oc' = dval oc + (\<Sum>p\<leftarrow>filter (\<lambda>p. \<not> same p \<and> eq_ignore_case (trim (pos_asset_class p)) cls) ps.
        \<bar>dval (pos_market_value p)\<bar>)
    \<and> dec_ok pv' \<and> dec_ok og' \<and> dec_ok on' \<and> dec_ok oc'"
    using assms(1-6)
  proof (induction ps arbitrary: pv og on oc)
    case Nil
    then show ?case by simp
  next
    case (Cons p ps)
    from Cons.prems(1) obtain pv1 og1 on1 oc1 where
      s: "after_step sy cls (pv, og, on, oc) p = Inr (pv1, og1, on1, oc1)"
      and r: "try_fold (after_step sy cls) (pv1, og1, on1, oc1) ps = Inr (pv', og', on', oc')"
      by (auto simp: res_inv)
    have mv: "dec_ok (pos_market_value p)" using Cons.prems(6) by simp
    from after_step_val [OF s Cons.prems(2-5) mv] have v: "dval pv1 = dval pv + (if same p then dval (pos_market_value p) else 0) \<and> dval og1 = dval og + (if same p then 0 else \<bar>dval (pos_market_value p)\<bar>)
      \<and> dval on1 = dval on + (if same p then 0 else dval (pos_market_value p))
      \<and> dval oc1 = dval oc + (if \<not> same p \<and> eq_ignore_case (trim (pos_asset_class p)) cls then \<bar>dval (pos_market_value p)\<bar> else 0)
      \<and> dec_ok pv1 \<and> dec_ok og1 \<and> dec_ok on1 \<and> dec_ok oc1" by (simp add: same_def)
    then have "dec_ok pv1" "dec_ok og1" "dec_ok on1" "dec_ok oc1" by auto
    from Cons.IH [OF r this] Cons.prems(6) v show ?case by (simp add: same_def)
  qed
  then show "dval pv' = dval pv + (\<Sum>p\<leftarrow>filter same ps. dval (pos_market_value p))"
    "dval og' = dval og + (\<Sum>p\<leftarrow>filter (\<lambda>p. \<not> same p) ps. \<bar>dval (pos_market_value p)\<bar>)"
    "dval on' = dval on + (\<Sum>p\<leftarrow>filter (\<lambda>p. \<not> same p) ps. dval (pos_market_value p))"
    "dval oc' = dval oc + (\<Sum>p\<leftarrow>filter (\<lambda>p. \<not> same p \<and> eq_ignore_case (trim (pos_asset_class p)) cls) ps.
        \<bar>dval (pos_market_value p)\<bar>)"
    "dec_ok pv' \<and> dec_ok og' \<and> dec_ok on' \<and> dec_ok oc'" by blast+
qed

lemma sum_list_filter_split:
  fixes f :: "'a \<Rightarrow> rat"
  shows "sum_list (map f (filter P xs)) + sum_list (map f (filter (\<lambda>x. \<not> P x) xs)) = sum_list (map f xs)"
  by (induction xs) auto

text \<open>\<open>after_state\<close> computes exactly the exposures of the account after the order.\<close>

lemma after_state_val:
  assumes r: "after_state a o1 n (order_class o1) = Inr af" and a: "account_ok a" and n: "dec_ok n"
    and fee: "dec_ok (po_est_fee o1)"
  shows "dval (af_position_value af) = \<bar>pv_after a o1 (dval n)\<bar>"
    "dval (af_gross af) = gross_after a o1 (dval n)" "dval (af_net af) = net_after a o1 (dval n)"
    "dval (af_class_gross af) = class_after a o1 (dval n)"
    "dval (af_cash af) = dval (av_cash a) - signed_val (po_side o1) (dval n) - dval (po_est_fee o1)"
    "dec_ok (af_position_value af)" "dec_ok (af_gross af)" "dec_ok (af_net af)" "dec_ok (af_class_gross af)"
    "dec_ok (af_cash af)"
proof -
  from r obtain sg pv og on oc c1 where
    sg: "signed_by_side (po_side o1) n = Inr sg"
    and f: "try_fold (after_step (trim (po_symbol o1)) (order_class o1)) (sg, dec_ZERO, dec_ZERO, dec_ZERO) (av_positions a)
        = Inr (pv, og, on, oc)"
    and pa: "dabs pv = Inr (af_position_value af)" and g: "dadd og (af_position_value af) = Inr (af_gross af)"
    and net: "dadd on pv = Inr (af_net af)" and c: "dadd oc (af_position_value af) = Inr (af_class_gross af)"
    and c1: "dsub (av_cash a) sg = Inr c1" and cash: "dsub c1 (po_est_fee o1) = Inr (af_cash af)"
    by (auto simp: after_state_def res_inv)
  note sv = signed_by_side_val [OF sg n]
  have ps: "list_all (\<lambda>p. dec_ok (pos_market_value p)) (av_positions a)"
    using a by (auto simp: account_ok_def list_all_iff)
  note v = after_fold_val [OF f sv(2) dec_ok_ZERO dec_ok_ZERO dec_ok_ZERO ps]
  have ok: "dec_ok pv" "dec_ok og" "dec_ok on" "dec_ok oc" using v(5) by auto
  show oks: "dec_ok (af_position_value af)" "dec_ok (af_gross af)" "dec_ok (af_net af)" "dec_ok (af_class_gross af)"
    "dec_ok (af_cash af)"
    using dabs_ok [OF pa ok(1)] dadd_ok [OF g ok(2)] dadd_ok [OF net ok(3,1)] dadd_ok [OF c ok(4)]
      dsub_ok [OF cash] dsub_ok [OF c1] a by (auto simp: account_ok_def)
  have pv: "dval pv = pv_after a o1 (dval n)" using v(1) by (simp add: pv_after_def sv(1) same_symbol_def [abs_def])
  show "dval (af_position_value af) = \<bar>pv_after a o1 (dval n)\<bar>" using dabs_val [OF pa] pv by simp
  then show "dval (af_gross af) = gross_after a o1 (dval n)" "dval (af_class_gross af) = class_after a o1 (dval n)"
    using dadd_val [OF g ok(2) oks(1)] dadd_val [OF c ok(4) oks(1)] v(2,4)
    by (simp_all add: gross_after_def class_after_def same_symbol_def [abs_def])
  show "dval (af_net af) = net_after a o1 (dval n)"
    using dadd_val [OF net ok(3,1)] v(3) pv
      sum_list_filter_split [of "\<lambda>p. dval (pos_market_value p)" "same_symbol o1" "av_positions a"]
    by (simp add: net_after_def pv_after_def same_symbol_def [abs_def])
  show "dval (af_cash af) = dval (av_cash a) - signed_val (po_side o1) (dval n) - dval (po_est_fee o1)"
    using dsub_val [OF cash] dsub_val [OF c1] dsub_ok [OF c1] sv(1) a by (simp add: account_ok_def)
qed

section \<open>Inversion of an allowed order\<close>

definition order_rule :: "(margin_context \<times> instrument_rules) option \<Rightarrow> proposed_order \<Rightarrow> instrument_venue_rule option" where
  "order_rule s o1 = Option.bind (map_option snd s) (\<lambda>i. rule_for i (po_venue o1) (po_symbol o1))"

lemma check_price_ok:
  "check_price p a o1 = ([], Inr pr) \<Longrightarrow> \<exists>pt. po_price o1 = Some pt \<and> pr = Some (pp_price pt)
     \<and> is_positive (pp_price pt) \<and> - 5000 \<le> span_ms (av_now a - pp_as_of pt)
     \<and> span_ms (av_now a - pp_as_of pt) \<le> sat_i64 (p_max_price_age_secs p * 1000)"
  by (auto simp: check_price_def Let_def sat_i64_def MAX_FUTURE_SKEW_SECS_def split: option.splits if_splits)

lemma check_order_ok:
  assumes "check_order p l ex a o1 d s = ([], Inr ())"
  shows "\<exists>reducing px dm. is_reducing (position_qty a o1) o1 = Inr reducing
    \<and> (av_halted a \<longrightarrow> reducing) \<and> (ex \<longrightarrow> reducing)
    \<and> check_price p a o1 = ([], Inr (Some px)) \<and> check_universe l o1 = ([], Inr ())
    \<and> check_short l (map_option snd s) (order_rule s o1) (position_qty a o1) o1 = ([], Inr ())
    \<and> (po_is_derivative o1 \<longrightarrow> l_derivatives l)
    \<and> check_leverage l (s \<noteq> None) (order_rule s o1) a o1 (capital_base p (av_equity a) (av_ccy a)) reducing (Some px)
        = ([], Inr ())
    \<and> (s \<noteq> None \<longrightarrow> margin_use a o1 px = Inr dm)
    \<and> check_limits p l (map_option fst s) (order_rule s o1) a o1 d ex reducing
        (capital_base p (av_equity a) (av_ccy a)) dm px = ([], Inr ())"
proof -
  from assms obtain reducing pr dm where
    c: "is_reducing (position_qty a o1) o1 = Inr reducing" "av_halted a \<longrightarrow> reducing" "ex \<longrightarrow> reducing"
      "check_price p a o1 = ([], Inr pr)" "check_universe l o1 = ([], Inr ())"
      "check_short l (map_option snd s) (order_rule s o1) (position_qty a o1) o1 = ([], Inr ())"
      "po_is_derivative o1 \<longrightarrow> l_derivatives l"
      "check_leverage l (s \<noteq> None) (order_rule s o1) a o1 (capital_base p (av_equity a) (av_ccy a)) reducing pr = ([], Inr ())"
    and m: "(case (map_option fst s, pr) of (Some _, Some px) \<Rightarrow> chk_lift (margin_use a o1 px) | _ \<Rightarrow> ([], Inr False))
        = ([], Inr dm)"
    and lim: "(case pr of None \<Rightarrow> ([], Inr ()) | Some px \<Rightarrow> check_limits p l (map_option fst s) (order_rule s o1) a o1 d ex
        reducing (capital_base p (av_equity a) (av_ccy a)) dm px) = ([], Inr ())"
    unfolding check_order_def Let_def chk_ok order_rule_def [symmetric] by blast
  from check_price_ok [OF c(4)] obtain px where "pr = Some px" by blast
  with c m lim show ?thesis by (auto simp: chk_lift_def split: option.splits)
qed

lemma check_inner_ok:
  assumes "check_inner p a o1 d s = ([], Inr ())"
  shows "\<exists>l. policy_limits p = Some l \<and> policy_standing p (av_now a) \<in> {StActive, StExpired}
    \<and> is_positive (po_quantity o1) \<and> \<not> is_negative (po_est_fee o1) \<and> is_positive (av_equity a)
    \<and> eq_ignore_case (trim (av_ccy a)) (l_ccy l)
    \<and> check_order p l (policy_standing p (av_now a) = StExpired) a o1 d s = ([], Inr ())"
  using assms by (auto simp: check_inner_def Let_def split: standing.splits option.splits if_splits)

lemma check_limits_ok:
  assumes "check_limits p l m rule a o1 d ex reducing base dm px = ([], Inr ())"
  shows "\<exists>n af. dmul (po_quantity o1) px = Inr n \<and> after_state a o1 n (order_class o1) = Inr af
    \<and> (\<not> reducing \<longrightarrow> check_exposure l rule (position_qty a o1) o1 base n af = ([], Inr ())
         \<and> check_churn l d base n = ([], Inr ())
         \<and> check_funding p m a o1 base px dm af = ([], Inr ()))
    \<and> (\<not> ((av_halted a \<or> ex) \<and> reducing) \<and> \<not> (po_loss_rung_cover o1 \<and> po_side o1 = Buy \<and> reducing)
         \<longrightarrow> check_churn l d base n = ([], Inr ()))"
  using assms unfolding check_limits_def Let_def chk_ok by (auto split: if_splits)

lemma cap_holds:
  assumes "dmul c b = Inr k" and "\<not> dec_lt k x" and "dec_ok c" and "dec_ok x" and "dec_ok b"
  shows "dval x \<le> floor_dp 18 (dval c * dval b)"
  using not_dec_lt [OF assms(2) dmul_ok [OF assms(1,3,5)] assms(4)] dmul_val [OF assms(1,3,5)] by simp

lemma exposure_within:
  assumes ex: "check_exposure l rule q o1 b n af = ([], Inr ())" and af: "after_state a o1 n (order_class o1) = Inr af"
    and lok: "limits_ok l" and ok: "account_ok a" "order_ok o1" "dec_ok n" "dec_ok b"
  shows "dval n \<le> dval (l_max_order_notional l)
    \<and> \<bar>pv_after a o1 (dval n)\<bar> \<le> floor_dp 18 (dval (l_max_position l) * dval b)
    \<and> gross_after a o1 (dval n) \<le> floor_dp 18 (dval (l_max_gross l) * dval b)
    \<and> \<bar>net_after a o1 (dval n)\<bar> \<le> floor_dp 18 (dval (l_max_net l) * dval b)
    \<and> (\<forall>cap. map_of (l_max_asset_class l) (order_class o1) = Some cap \<longrightarrow>
         class_after a o1 (dval n) \<le> floor_dp 18 (dval cap * dval b))"
proof -
  note lo = limits_okD [OF lok]
  have "dec_ok (po_est_fee o1)" using ok(2) by (simp add: order_ok_def)
  note v = after_state_val [OF af ok(1,3) this]
  from ex obtain pcap gcap ncap anet where
    e: "\<not> dec_lt (l_max_order_notional l) n" "dmul (l_max_position l) b = Inr pcap"
      "\<not> dec_lt pcap (af_position_value af)" "dmul (l_max_gross l) b = Inr gcap" "\<not> dec_lt gcap (af_gross af)"
      "dmul (l_max_net l) b = Inr ncap" "dabs (af_net af) = Inr anet" "\<not> dec_lt ncap anet"
    and cls: "(case map_of (l_max_asset_class l) (order_class o1) of None \<Rightarrow> ([], Inr ())
       | Some class_cap \<Rightarrow> chk_bind (chk_lift (dmul class_cap b)) (\<lambda>ccap.
           deny_if (dec_lt ccap (af_class_gross af)) MaxAssetClass)) = ([], Inr ())"
    unfolding check_exposure_def chk_ok by blast
  have "dval n \<le> dval (l_max_order_notional l)" using not_dec_lt [OF e(1) lo(7) ok(3)] .
  moreover have "\<bar>pv_after a o1 (dval n)\<bar> \<le> floor_dp 18 (dval (l_max_position l) * dval b)"
    using cap_holds [OF e(2,3) lo(4) v(6) ok(4)] v(1) by simp
  moreover have "gross_after a o1 (dval n) \<le> floor_dp 18 (dval (l_max_gross l) * dval b)"
    using cap_holds [OF e(4,5) lo(5) v(7) ok(4)] v(2) by simp
  moreover have "\<bar>net_after a o1 (dval n)\<bar> \<le> floor_dp 18 (dval (l_max_net l) * dval b)"
    using cap_holds [OF e(6,8) lo(6) dabs_ok [OF e(7) v(8)] ok(4)] dabs_val [OF e(7)] v(3) by simp
  moreover have "class_after a o1 (dval n) \<le> floor_dp 18 (dval c * dval b)"
    if "map_of (l_max_asset_class l) (order_class o1) = Some c" for c
    using cls that cap_holds [of c b _ "af_class_gross af"] limits_ok_class [OF lok that] v(4,9) ok(4) by (auto simp: chk_ok)
  ultimately show ?thesis by blast
qed

lemma churn_within:
  assumes ch: "check_churn l d b n = ([], Inr ())" and lok: "limits_ok l"
    and ok: "dec_ok (dc_turnover_today d)" "dec_ok n" "dec_ok b"
  shows "dc_orders_today d + 1 \<le> l_max_orders_per_day l
    \<and> dval (dc_turnover_today d) + dval n \<le> floor_dp 18 (dval (l_max_turnover_per_day l) * dval b)"
proof -
  from ch obtain ta tc where t: "\<not> dc_orders_today d + 1 > l_max_orders_per_day l"
      "dadd (dc_turnover_today d) n = Inr ta" "dmul (l_max_turnover_per_day l) b = Inr tc" "\<not> dec_lt tc ta"
    unfolding check_churn_def chk_ok by blast
  have "dval (dc_turnover_today d) + dval n \<le> floor_dp 18 (dval (l_max_turnover_per_day l) * dval b)"
    using cap_holds [OF t(3,4) limits_okD(8) [OF lok] dadd_ok [OF t(2) ok(1,2)] ok(3)] dadd_val [OF t(2) ok(1,2)] by simp
  with t(1) show ?thesis by simp
qed

section \<open>Properties\<close>

text \<open>
  C3: an allowed order that is not a reduction keeps every exposure limit of the mandate after it:
  notional, position, asset class, gross and net, each measured against the capital base, and the
  daily order count and turnover; the account is not halted and the mandate not expired.
\<close>

theorem guard_allow_limits:
  assumes allow: "v_allow (guard_run p a o1 d s)" and red: "is_reducing (position_qty a o1) o1 = Inr False"
    and ok: "policy_ok p" "account_ok a" "order_ok o1" "dec_ok (dc_turnover_today d)"
  shows "\<exists>l px n. policy_limits p = Some l \<and> po_price o1 = Some px
    \<and> dmul (po_quantity o1) (pp_price px) = Inr n
    \<and> policy_standing p (av_now a) = StActive \<and> \<not> av_halted a
    \<and> (let base = min (dval (av_equity a)) (dval (l_allocated l)) in
         dval n \<le> dval (l_max_order_notional l)
       \<and> \<bar>pv_after a o1 (dval n)\<bar> \<le> floor_dp 18 (dval (l_max_position l) * base)
       \<and> gross_after a o1 (dval n) \<le> floor_dp 18 (dval (l_max_gross l) * base)
       \<and> \<bar>net_after a o1 (dval n)\<bar> \<le> floor_dp 18 (dval (l_max_net l) * base)
       \<and> (\<forall>cap. map_of (l_max_asset_class l) (order_class o1) = Some cap \<longrightarrow>
            class_after a o1 (dval n) \<le> floor_dp 18 (dval cap * base))
       \<and> dc_orders_today d + 1 \<le> l_max_orders_per_day l
       \<and> dval (dc_turnover_today d) + dval n \<le> floor_dp 18 (dval (l_max_turnover_per_day l) * base))"
proof -
  from check_inner_ok [OF allow [unfolded guard_allow_iff]] obtain l where
    l: "policy_limits p = Some l" "policy_standing p (av_now a) \<in> {StActive, StExpired}"
      "eq_ignore_case (trim (av_ccy a)) (l_ccy l)"
      "check_order p l (policy_standing p (av_now a) = StExpired) a o1 d s = ([], Inr ())" by blast
  let ?b = "capital_base p (av_equity a) (av_ccy a)"
  from check_order_ok [OF l(4)] red obtain px dm where
    st: "\<not> av_halted a" "policy_standing p (av_now a) \<noteq> StExpired" and price: "check_price p a o1 = ([], Inr (Some px))"
    and lim: "check_limits p l (map_option fst s) (order_rule s o1) a o1 d (policy_standing p (av_now a) = StExpired) False
        ?b dm px = ([], Inr ())" by auto
  from check_price_ok [OF price] obtain pt where pt: "po_price o1 = Some pt" "px = pp_price pt" by auto
  from check_limits_ok [OF lim] obtain n af where n: "dmul (po_quantity o1) px = Inr n"
    and af: "after_state a o1 n (order_class o1) = Inr af"
    and ex: "check_exposure l (order_rule s o1) (position_qty a o1) o1 ?b n af = ([], Inr ())"
    and ch: "check_churn l d ?b n = ([], Inr ())" by auto
  have lok: "limits_ok l" using ok(1) l(1) by (simp add: policy_ok_def)
  have eok: "dec_ok (av_equity a)" using ok(2) by (simp add: account_ok_def)
  have bok: "dec_ok ?b" using capital_base_ok [OF ok(1) eok] .
  have bv: "dval ?b = min (dval (av_equity a)) (dval (l_allocated l))"
    using capital_base_val [OF l(1) lok eok l(3)] .
  have nok: "dec_ok n" using dmul_ok [OF n] ok(3) pt by (simp add: order_ok_def)
  note caps = exposure_within [OF ex af lok ok(2,3) nok bok] churn_within [OF ch lok ok(4) nok bok]
  then show ?thesis using l(1,2) st pt n unfolding bv Let_def
    by (intro exI [of _ l] exI [of _ pt] exI [of _ n]) auto
qed

text \<open>A concrete account and order on the baseline mandate, for the examples.\<close>

definition example_account :: account_view where
  "example_account =
     \<lparr>av_account_id = ''acc'', av_ccy = ''usd'', av_equity = Dec 10000 0, av_cash = Dec 10000 0,
      av_positions = [\<lparr>pos_symbol = ''ETH/USD'', pos_venue = ''kraken'', pos_asset_class = ''crypto_spot'',
        pos_quantity = Dec 2 1, pos_market_value = Dec 500 0\<rparr>], av_halted = False, av_now = 10 ^ 12\<rparr>"

definition example_order :: proposed_order where
  "example_order =
     \<lparr>po_venue = ''kraken'', po_asset_class = ''crypto_spot'', po_symbol = ''BTC/USD'', po_side = Buy,
      po_quantity = Dec 1 2, po_price = Some \<lparr>pp_price = Dec 60000 0, pp_as_of = 10 ^ 12 - 60 * 10 ^ 9\<rparr>,
      po_est_fee = Dec 2 0, po_uses_margin = False, po_is_derivative = False, po_loss_rung_cover = False\<rparr>"

lemma example_ok: "account_ok example_account" "order_ok example_order" "dec_ok (dc_turnover_today day_zero)"
  by (simp_all add: account_ok_def order_ok_def example_account_def example_order_def day_zero_def dec_ok_small_units)

lemma example_evaluates:
  "v_allow (guard_run baseline_policy example_account example_order day_zero None)
   \<and> is_reducing (position_qty example_account example_order) example_order = Inr False
   \<and> dmul (po_quantity example_order) (pp_price (the (po_price example_order))) = Inr (Dec 60000 2)"
  by code_simp

lemmas example_allowed = example_evaluates [THEN conjunct1]
  and example_adds = example_evaluates [THEN conjunct2, THEN conjunct1]
  and example_notional = example_evaluates [THEN conjunct2, THEN conjunct2]

lemma baseline_limits_of: "policy_limits baseline_policy = Some baseline_limits"
  by (simp add: policy_limits_def baseline_policy_def)

theorem guard_allow_limits_witness:
  "v_allow (guard_run baseline_policy example_account example_order day_zero None)
   \<and> gross_after example_account example_order 600 \<le> floor_dp 18 (1 * 5000)"
proof -
  note red = example_adds
  note n = example_notional
  from guard_allow_limits [OF example_allowed red baseline_ok(2) example_ok] n baseline_limits_of
  have "gross_after example_account example_order (dval (Dec 60000 2)) \<le>
      floor_dp 18 (dval (l_max_gross baseline_limits)
        * min (dval (av_equity example_account)) (dval (l_allocated baseline_limits)))"
    unfolding Let_def by auto
  then show ?thesis using example_allowed by (simp add: dval_def baseline_limits_def example_account_def)
qed

text \<open>
  C21: without a usable mandate nothing is allowed, reductions included: an uncompiled mandate, no
  envelope, a status other than active, or an effective date in the future gives exactly one
  denial, whatever the order and the account.
\<close>

theorem guard_no_usable_mandate:
  assumes "policy_limits p = None \<or> p_envelope p = None
    \<or> (\<exists>e. p_envelope p = Some e \<and> (env_status e \<noteq> MsActive \<or> av_now a < env_effective_from e))"
  shows "\<not> v_allow (guard_run p a o1 d s)
    \<and> v_reasons (guard_run p a o1 d s) = [if policy_limits p = None then MandateInvalid else MandateNotActive]"
proof -
  from assms have "policy_standing p (av_now a) = (if policy_limits p = None then StInvalid else StNotActive)"
    by (auto simp: policy_standing_def split: option.splits)
  then show ?thesis by (auto simp: guard_run_def check_inner_def Let_def)
qed

theorem guard_no_usable_mandate_witness:
  "\<not> v_allow (guard_run (baseline_policy\<lparr>p_envelope := None\<rparr>) example_account example_order day_zero None)"
  using guard_no_usable_mandate [of "baseline_policy\<lparr>p_envelope := None\<rparr>" example_account] by simp

lemma reducing_val:
  assumes r: "is_reducing q o1 = Inr True" and q: "dec_ok q" and o1: "dec_ok (po_quantity o1)"
    and pos: "is_positive (po_quantity o1)"
  defines "after \<equiv> dval q + signed_val (po_side o1) (dval (po_quantity o1))"
  shows "\<bar>after\<bar> < \<bar>dval q\<bar> \<and> (0 < dval q \<longrightarrow> 0 \<le> after) \<and> (dval q < 0 \<longrightarrow> after \<le> 0) \<and> dval q \<noteq> 0"
proof (cases "po_side o1")
  case Sell
  with r have "0 < dval q" "dval (po_quantity o1) \<le> dval q" using q o1 by (auto simp: is_reducing_def dval_sign dec_order)
  then show ?thesis using pos Sell by (auto simp: after_def signed_val_def dval_sign)
next
  case Buy
  with r obtain n where n: "dval q < 0" "dneg q = Inr n" "dec_le (po_quantity o1) n"
    by (auto simp: is_reducing_def dval_sign res_inv split: if_splits)
  then have "dval (po_quantity o1) \<le> - dval q" using dneg_val [OF n(2)] dneg_ok [OF n(2)] o1 by (simp add: dec_order)
  then show ?thesis using pos Buy n(1) by (auto simp: after_def signed_val_def dval_sign)
qed

text \<open>
  C4: on a halted account, or past the mandate's review date, an allowed order strictly shrinks the
  position it trades and never takes it through zero.
\<close>

theorem guard_only_reduces_when_halted:
  assumes allow: "v_allow (guard_run p a o1 d s)" and ok: "account_ok a" "order_ok o1"
    and st: "av_halted a \<or> (\<exists>e. p_envelope p = Some e \<and> env_review_by e \<le> av_now a)"
  shows "let q = dval (position_qty a o1); q' = q + signed_val (po_side o1) (dval (po_quantity o1))
    in \<bar>q'\<bar> < \<bar>q\<bar> \<and> (0 < q \<longrightarrow> 0 \<le> q') \<and> (q < 0 \<longrightarrow> q' \<le> 0)"
proof -
  from check_inner_ok [OF allow [unfolded guard_allow_iff]] obtain l where
    l: "policy_standing p (av_now a) \<in> {StActive, StExpired}" "is_positive (po_quantity o1)"
      "check_order p l (policy_standing p (av_now a) = StExpired) a o1 d s = ([], Inr ())" by blast
  have "av_halted a \<or> policy_standing p (av_now a) = StExpired"
    using st l(1) by (auto simp: policy_standing_def split: if_splits option.splits)
  with check_order_ok [OF l(3)] have "is_reducing (position_qty a o1) o1 = Inr True" by auto
  from reducing_val [OF this position_qty_ok [OF ok(1)] _ l(2)] ok(2) show ?thesis
    by (simp add: order_ok_def Let_def)
qed

theorem guard_only_reduces_when_halted_witness:
  "v_allow (guard_run baseline_policy (example_account\<lparr>av_halted := True\<rparr>)
     (example_order\<lparr>po_symbol := ''ETH/USD'', po_side := Sell, po_quantity := Dec 1 1\<rparr>) day_zero None)
   \<and> \<bar>2 / 10 - 1 / 10 :: rat\<bar> < \<bar>2 / 10\<bar>"
proof -
  let ?a = "example_account\<lparr>av_halted := True\<rparr>"
  let ?o = "example_order\<lparr>po_symbol := ''ETH/USD'', po_side := Sell, po_quantity := Dec 1 1\<rparr>"
  have e: "v_allow (guard_run baseline_policy ?a ?o day_zero None) \<and> position_qty ?a ?o = Dec 2 1" by code_simp
  note al = e [THEN conjunct1] and q = e [THEN conjunct2]
  have ok: "account_ok ?a" "order_ok ?o"
    by (simp_all add: account_ok_def order_ok_def example_account_def example_order_def dec_ok_small_units)
  have h: "av_halted ?a \<or> (\<exists>e. p_envelope baseline_policy = Some e \<and> env_review_by e \<le> av_now ?a)" by simp
  from guard_only_reduces_when_halted [OF al ok h] al show ?thesis
    unfolding q Let_def by (simp add: dval_def signed_val_def)
qed

text \<open>
  An allowed order is inside the mandate's universe (instrument on the allow list and not on the
  deny list, venue and asset class listed, derivatives only where permitted), in the mandate's
  currency, and valued at a positive price no older than the policy's limit and at most five
  seconds in the future.
\<close>

theorem guard_allow_universe:
  assumes "v_allow (guard_run p a o1 d s)"
  shows "\<exists>l pt. policy_limits p = Some l \<and> po_price o1 = Some pt
    \<and> to_upper (trim (po_symbol o1)) \<in> set (l_instrument_allow l)
    \<and> to_upper (trim (po_symbol o1)) \<notin> set (l_instrument_deny l)
    \<and> to_lower (trim (po_venue o1)) \<in> set (l_venues l) \<and> order_class o1 \<in> set (l_asset_classes l)
    \<and> (po_is_derivative o1 \<longrightarrow> l_derivatives l) \<and> eq_ignore_case (trim (av_ccy a)) (l_ccy l)
    \<and> 0 < dval (pp_price pt) \<and> - 5000 \<le> span_ms (av_now a - pp_as_of pt)
    \<and> span_ms (av_now a - pp_as_of pt) \<le> sat_i64 (p_max_price_age_secs p * 1000)"
proof -
  from check_inner_ok [OF assms [unfolded guard_allow_iff]] obtain l where
    l: "policy_limits p = Some l" "eq_ignore_case (trim (av_ccy a)) (l_ccy l)"
      "check_order p l (policy_standing p (av_now a) = StExpired) a o1 d s = ([], Inr ())" by blast
  from check_order_ok [OF l(3)] obtain px where c: "check_price p a o1 = ([], Inr (Some px))"
    "check_universe l o1 = ([], Inr ())" "po_is_derivative o1 \<longrightarrow> l_derivatives l" by blast
  from check_price_ok [OF c(1)] obtain pt where pt: "po_price o1 = Some pt" "is_positive (pp_price pt)"
    "- 5000 \<le> span_ms (av_now a - pp_as_of pt)"
    "span_ms (av_now a - pp_as_of pt) \<le> sat_i64 (p_max_price_age_secs p * 1000)" by blast
  from c(2) have "to_upper (trim (po_symbol o1)) \<in> set (l_instrument_allow l)"
    "to_upper (trim (po_symbol o1)) \<notin> set (l_instrument_deny l)"
    "to_lower (trim (po_venue o1)) \<in> set (l_venues l)" "order_class o1 \<in> set (l_asset_classes l)"
    by (auto simp: check_universe_def Let_def split: if_splits)
  with l pt c(3) show ?thesis by (intro exI [of _ l] exI [of _ pt]) (simp add: dval_sign)
qed

theorem guard_allow_universe_witness:
  "v_allow (guard_run baseline_policy example_account example_order day_zero None)
   \<and> to_upper (trim ''BTC/USD'') \<in> set (l_instrument_allow baseline_limits)"
  using guard_allow_universe [OF example_allowed] example_allowed baseline_limits_of by (auto simp: example_order_def)

text \<open>
  An allowed order that opens or deepens a short needs the mandate's permission, and on the
  signed path also the venue's: a rule for the instrument must exist and say allowed, or say that a
  locate is needed and one is on record. Without the mandate's permission no allowed sell exceeds
  the long position held.
\<close>

theorem guard_short_needs_permission:
  assumes allow: "v_allow (guard_run p a o1 d s)" and sell: "po_side o1 = Sell"
    and ok: "account_ok a" "order_ok o1"
    and short: "max 0 (dval (position_qty a o1)) < dval (po_quantity o1)"
  shows "(\<exists>l. policy_limits p = Some l \<and> l_shorting l)
    \<and> (\<forall>m i. s = Some (m, i) \<longrightarrow> (\<exists>r. rule_for i (po_venue o1) (po_symbol o1) = Some r
         \<and> (ivr_short r = Allowed \<or> ivr_short r = NeedsLocate \<and> has_locate i (po_venue o1) (po_symbol o1))))"
proof -
  from check_inner_ok [OF allow [unfolded guard_allow_iff]] obtain l where
    l: "policy_limits p = Some l"
      "check_order p l (policy_standing p (av_now a) = StExpired) a o1 d s = ([], Inr ())" by blast
  from check_order_ok [OF l(2)] have c:
    "check_short l (map_option snd s) (order_rule s o1) (position_qty a o1) o1 = ([], Inr ())" by blast
  have "dec_lt (if is_positive (position_qty a o1) then position_qty a o1 else dec_ZERO) (po_quantity o1)"
    using short position_qty_ok [OF ok(1)] ok(2) by (simp add: dec_order order_ok_def dval_sign max_def split: if_splits)
  with c sell have "l_shorting l"
    and v: "map_option snd s = Some i \<longrightarrow> \<not> venue_short_block i (order_rule s o1) o1" for i
    by (auto simp: check_short_def Let_def chk_ok split: option.splits)
  moreover have "\<exists>r. rule_for i (po_venue o1) (po_symbol o1) = Some r
      \<and> (ivr_short r = Allowed \<or> ivr_short r = NeedsLocate \<and> has_locate i (po_venue o1) (po_symbol o1))"
    if "s = Some (m, i)" for m i
    using v [of i] that by (auto simp: venue_short_block_def order_rule_def split: option.splits short_policy.splits)
  ultimately show ?thesis using l(1) by blast
qed

theorem guard_short_needs_permission_witness:
  "\<exists>p i. v_allow (guard_run p example_account (example_order\<lparr>po_side := Sell\<rparr>) day_zero
      (Some (\<lparr>mc_buying_power_left = Some (Dec 10000 0)\<rparr>, i)))
    \<and> (\<exists>l. policy_limits p = Some l \<and> l_shorting l)"
proof -
  let ?p = "baseline_policy\<lparr>p_body := ValidBody (baseline_limits\<lparr>l_shorting := True\<rparr>)\<rparr>"
  let ?i = "with_rule ''kraken'' ''BTC/USD'' shortable instrument_rules_new"
  let ?o = "example_order\<lparr>po_side := Sell\<rparr>"
  let ?s = "Some (\<lparr>mc_buying_power_left = Some (Dec 10000 0)\<rparr>, ?i)"
  have e: "v_allow (guard_run ?p example_account ?o day_zero ?s) \<and> position_qty example_account ?o = dec_ZERO" by code_simp
  note al = e [THEN conjunct1] and q = e [THEN conjunct2]
  have ok: "account_ok example_account" "order_ok ?o" using example_ok by (simp_all add: order_ok_def)
  have sh: "max 0 (dval (position_qty example_account ?o)) < dval (po_quantity ?o)"
    unfolding q by (simp add: example_order_def dval_def)
  from guard_short_needs_permission [OF al _ ok sh] al show ?thesis by auto
qed

definition rules_dec_ok :: "instrument_rules \<Rightarrow> bool" where
  "rules_dec_ok i \<longleftrightarrow> (\<forall>v sy r x. rule_for i v sy = Some r \<longrightarrow> ivr_max_leverage r = Some x \<longrightarrow> dec_ok x)"

lemma effective_gross_cap_val:
  assumes "limits_ok l" and "\<forall>r x. rule = Some r \<longrightarrow> ivr_max_leverage r = Some x \<longrightarrow> dec_ok x"
  shows "dec_ok (effective_gross_cap l rule)"
    and "dval (effective_gross_cap l rule) \<le> dval (l_leverage_max_gross l)"
    and "dval (effective_gross_cap l rule) \<le> dval (l_max_gross l)"
    and "rule = Some r \<Longrightarrow> ivr_max_leverage r = Some x \<Longrightarrow> dval (effective_gross_cap l rule) \<le> dval x"
proof -
  note lo = limits_okD [OF assms(1)]
  have m: "dec_ok (dec_min (l_leverage_max_gross l) (l_max_gross l))" using lo by (intro dec_ok_min)
  have b: "dec_ok x" if "Option.bind rule ivr_max_leverage = Some x" for x
    using that assms(2) by (cases rule) auto
  show "dec_ok (effective_gross_cap l rule)"
    using m b by (auto simp: effective_gross_cap_def Let_def intro: dec_ok_min split: option.split)
  show "dval (effective_gross_cap l rule) \<le> dval (l_leverage_max_gross l)"
    "dval (effective_gross_cap l rule) \<le> dval (l_max_gross l)"
    using lo m b by (auto simp: effective_gross_cap_def Let_def dec_min_dval split: option.split)
  show "rule = Some r \<Longrightarrow> ivr_max_leverage r = Some x \<Longrightarrow> dval (effective_gross_cap l rule) \<le> dval x"
    using m b [of x] by (simp add: effective_gross_cap_def Let_def dec_min_dval)
qed

text \<open>
  On the signed path an allowed order that is not a reduction leaves gross exposure within the
  lowest of the mandate's leverage, the mandate's gross cap and the venue's leverage for the
  instrument, times the capital base; being short is by itself no reason to deny.
\<close>

theorem guard_signed_gross_cap:
  assumes allow: "v_allow (guard_run p a o1 d (Some (m, i)))" and red: "is_reducing (position_qty a o1) o1 = Inr False"
    and ok: "policy_ok p" "account_ok a" "order_ok o1" "rules_dec_ok i"
  shows "\<exists>l pt n mult. policy_limits p = Some l \<and> po_price o1 = Some pt \<and> dmul (po_quantity o1) (pp_price pt) = Inr n
    \<and> mult \<le> dval (l_leverage_max_gross l) \<and> mult \<le> dval (l_max_gross l)
    \<and> (\<forall>r x. rule_for i (po_venue o1) (po_symbol o1) = Some r \<and> ivr_max_leverage r = Some x \<longrightarrow> mult \<le> dval x)
    \<and> gross_after a o1 (dval n) \<le> floor_dp 18 (mult * min (dval (av_equity a)) (dval (l_allocated l)))"
proof -
  let ?b = "capital_base p (av_equity a) (av_ccy a)" and ?r = "order_rule (Some (m, i)) o1"
  from check_inner_ok [OF allow [unfolded guard_allow_iff]] obtain l where
    l: "policy_limits p = Some l" "eq_ignore_case (trim (av_ccy a)) (l_ccy l)"
      "check_order p l (policy_standing p (av_now a) = StExpired) a o1 d (Some (m, i)) = ([], Inr ())" by blast
  from check_order_ok [OF l(3)] red obtain px where pr: "check_price p a o1 = ([], Inr (Some px))"
    and lev: "check_leverage l True ?r a o1 ?b False (Some px) = ([], Inr ())" by auto
  from check_price_ok [OF pr] obtain pt where pt: "po_price o1 = Some pt" "px = pp_price pt" by auto
  from lev obtain n af cap where n: "dmul (po_quantity o1) px = Inr n"
    and af: "after_state a o1 n (order_class o1) = Inr af"
    and cap: "dmul (effective_gross_cap l ?r) ?b = Inr cap" "\<not> dec_lt cap (af_gross af)"
    by (auto simp: check_leverage_def chk_ok)
  have lok: "limits_ok l" using ok(1) l(1) by (simp add: policy_ok_def)
  have eok: "dec_ok (av_equity a)" using ok(2) by (simp add: account_ok_def)
  have bok: "dec_ok ?b" using capital_base_ok [OF ok(1) eok] .
  have rok: "\<forall>r x. ?r = Some r \<longrightarrow> ivr_max_leverage r = Some x \<longrightarrow> dec_ok x"
    using ok(4) unfolding order_rule_def rules_dec_ok_def by auto
  note eg = effective_gross_cap_val [OF lok rok]
  have nok: "dec_ok n" using dmul_ok [OF n] ok(3) pt by (simp add: order_ok_def)
  have fee: "dec_ok (po_est_fee o1)" using ok(3) by (simp add: order_ok_def)
  note v = after_state_val [OF af ok(2) nok fee]
  have "gross_after a o1 (dval n) \<le> floor_dp 18 (dval (effective_gross_cap l ?r) * dval ?b)"
    using not_dec_lt [OF cap(2) dmul_ok [OF cap(1) eg(1) bok] v(7)] dmul_val [OF cap(1) eg(1) bok] v(2) by simp
  then have g: "gross_after a o1 (dval n) \<le>
      floor_dp 18 (dval (effective_gross_cap l ?r) * min (dval (av_equity a)) (dval (l_allocated l)))"
    by (simp only: capital_base_val [OF l(1) lok eok l(2)])
  have venue: "\<forall>r x. rule_for i (po_venue o1) (po_symbol o1) = Some r \<and> ivr_max_leverage r = Some x
      \<longrightarrow> dval (effective_gross_cap l ?r) \<le> dval x"
    using eg(4) by (auto simp: order_rule_def)
  show ?thesis using l(1) pt n eg(2,3) venue g by blast
qed

theorem guard_signed_gross_cap_witness:
  "v_allow (guard_run baseline_policy example_account example_order day_zero
     (Some (\<lparr>mc_buying_power_left = Some (Dec 10000 0)\<rparr>, instrument_rules_new)))
   \<and> (\<exists>mult. mult \<le> 1 \<and> gross_after example_account example_order 600 \<le> floor_dp 18 (mult * 5000))"
proof -
  let ?s = "(\<lparr>mc_buying_power_left = Some (Dec 10000 0)\<rparr>, instrument_rules_new)"
  have al: "v_allow (guard_run baseline_policy example_account example_order day_zero (Some ?s))" by code_simp
  note red = example_adds
  have r: "rules_dec_ok instrument_rules_new" by (simp add: rules_dec_ok_def rule_for_def instrument_rules_new_def)
  note n = example_notional
  from guard_signed_gross_cap [OF al red baseline_ok(2) example_ok(1,2) r] n baseline_limits_of
  obtain mult where "mult \<le> dval (l_max_gross baseline_limits)"
    "gross_after example_account example_order (dval (Dec 60000 2)) \<le>
      floor_dp 18 (mult * min (dval (av_equity example_account)) (dval (l_allocated baseline_limits)))" by auto
  then show ?thesis using al by (auto simp: dval_def baseline_limits_def example_account_def)
qed

text \<open>
  C31: on the long-only path an allowed order that is not a reduction leaves the broker's cash, after
  its notional and fee, at or above the policy's reserve on the capital base.
\<close>

theorem guard_keeps_cash_reserve:
  assumes allow: "v_allow (guard_check p a o1 d)" and red: "is_reducing (position_qty a o1) o1 = Inr False"
    and ok: "policy_ok p" "account_ok a" "order_ok o1"
  shows "\<exists>pt n r. po_price o1 = Some pt \<and> dmul (po_quantity o1) (pp_price pt) = Inr n
    \<and> reserve_amount p (capital_base p (av_equity a) (av_ccy a)) = Inr r
    \<and> dval r \<le> dval (av_cash a) - signed_val (po_side o1) (dval n) - dval (po_est_fee o1)"
proof -
  let ?b = "capital_base p (av_equity a) (av_ccy a)"
  from check_inner_ok [OF allow [unfolded guard_check_def guard_allow_iff]] obtain l where
    l: "policy_limits p = Some l"
      "check_order p l (policy_standing p (av_now a) = StExpired) a o1 d None = ([], Inr ())" by blast
  from check_order_ok [OF l(2)] red obtain px dm where pr: "check_price p a o1 = ([], Inr (Some px))"
    and lim: "check_limits p l None (order_rule None o1) a o1 d (policy_standing p (av_now a) = StExpired) False ?b dm px
      = ([], Inr ())" by auto
  from check_price_ok [OF pr] obtain pt where pt: "po_price o1 = Some pt" "px = pp_price pt" by auto
  from check_limits_ok [OF lim] obtain n af where n: "dmul (po_quantity o1) px = Inr n"
    and af: "after_state a o1 n (order_class o1) = Inr af" and f: "check_funding p None a o1 ?b px dm af = ([], Inr ())"
    by auto
  from f obtain r where r: "reserve_amount p ?b = Inr r" "\<not> dec_lt (af_cash af) r"
    by (auto simp: check_funding_def chk_ok)
  have lok: "limits_ok l" using ok(1) l(1) by (simp add: policy_ok_def)
  have bok: "dec_ok ?b" using capital_base_ok [OF ok(1)] ok(2) by (simp add: account_ok_def)
  have rok: "dec_ok r"
    using r(1) l(1) dmul_ok [OF _ limits_okD(2) [OF lok] bok] by (auto simp: reserve_amount_def res_inv dest: round_dp_ok)
  have nok: "dec_ok n" using dmul_ok [OF n] ok(3) pt by (simp add: order_ok_def)
  have fee: "dec_ok (po_est_fee o1)" using ok(3) by (simp add: order_ok_def)
  note v = after_state_val [OF af ok(2) nok fee]
  show ?thesis using pt n r(1) not_dec_lt [OF r(2) v(10) rok] v(5) by auto
qed

theorem guard_keeps_cash_reserve_witness:
  "v_allow (guard_check baseline_policy example_account example_order day_zero)
   \<and> (\<exists>r. reserve_amount baseline_policy (capital_base baseline_policy (Dec 10000 0) ''usd'') = Inr r
        \<and> dval r \<le> 10000 - 600 - 2)"
proof -
  have al: "v_allow (guard_check baseline_policy example_account example_order day_zero)"
    using example_allowed by (simp add: guard_check_def)
  note red = example_adds
  note n = example_notional
  from guard_keeps_cash_reserve [OF al red baseline_ok(2) example_ok(1,2)] n al show ?thesis
    by (auto simp: dval_def example_account_def example_order_def signed_val_def)
qed

text \<open>
  \<open>DenialCode::ALL\<close> is documented as the order the guard evaluates the codes in; the guard records
  \<open>ACCOUNT_HALTED\<close> before \<open>MANDATE_EXPIRED\<close>, the table has them the other way round.
\<close>

lemma halted_reported_before_expired:
  "v_reasons (guard_check (baseline_policy\<lparr>p_envelope := Some \<lparr>env_version = 3, env_status = MsActive,
      env_effective_from = 0, env_review_by = 1\<rparr>\<rparr>) (example_account\<lparr>av_halted := True\<rparr>) example_order day_zero)
     = [AccountHalted, MandateExpired]
   \<and> take 4 all_codes = [MandateInvalid, MandateNotActive, MandateExpired, AccountHalted]"
  by code_simp

end
