(* ===== verification/Plan_Legs.thy ===== *)
theory Plan_Legs
  imports Guard_Props Planner
begin

text \<open>
  What the planner wants of one instrument: the legs of its trade, the sizes the venue makes of
  them, and how far they move the position. \<open>inputs_ok\<close> says that every decimal the planner is given
  is well formed and that every venue of the rule book keeps its contract.
\<close>

section \<open>Well-formed inputs\<close>

definition prices_ok :: "(string, price_point) btree_map \<Rightarrow> bool" where
  "prices_ok m \<longleftrightarrow> list_all (\<lambda>(k, v). dec_ok (pp_price v)) m"

definition target_ok :: "sleeve_target \<Rightarrow> bool" where
  "target_ok t \<longleftrightarrow> dec_ok (st_share t) \<and> list_all (\<lambda>w. dec_ok (tw_weight w)) (st_weights t)"

definition config_ok :: "plan_config \<Rightarrow> bool" where
  "config_ok cfg \<longleftrightarrow> list_all dec_ok [pc_risk_scale cfg, pc_min_trade_abs cfg, pc_min_trade_pct cfg, pc_fee_rate cfg]
     \<and> dec_ok (dc_turnover_today (pc_day cfg)) \<and> (\<forall>b. pc_buying_power cfg = Some b \<longrightarrow> dec_ok b)"

definition inputs_ok ::
    "sleeve_target list \<Rightarrow> account_view \<Rightarrow> (string, price_point) btree_map \<Rightarrow> venue_rule_book \<Rightarrow> policy \<Rightarrow> plan_config \<Rightarrow> bool" where
  "inputs_ok targets a prices book p cfg \<longleftrightarrow>
     list_all target_ok targets \<and> account_ok a \<and> prices_ok prices \<and> book_ok book \<and> policy_ok p \<and> config_ok cfg"

lemma prices_ok_get: "prices_ok m \<Longrightarrow> map_of m k = Some v \<Longrightarrow> dec_ok (pp_price v)"
  by (auto simp: prices_ok_def list_all_iff dest!: map_of_SomeD)

lemma prices_ok_insert: "prices_ok m \<Longrightarrow> dec_ok (pp_price v) \<Longrightarrow> prices_ok (btm_insert k v m)"
  by (induction k v m rule: btm_insert.induct) (auto simp: prices_ok_def)

lemma prices_ok_keyed: "prices_ok m \<Longrightarrow> prices_ok acc \<Longrightarrow> prices_ok (foldl (\<lambda>m (k, v). btm_insert (key k) v m) acc m)"
proof (induction m arbitrary: acc)
  case (Cons kv m)
  obtain k v where kv: "kv = (k, v)" by (cases kv)
  with Cons.prems have "prices_ok (btm_insert (key k) v acc)" by (intro prices_ok_insert) (simp_all add: prices_ok_def)
  with Cons.IH [of "btm_insert (key k) v acc"] Cons.prems(1) kv show ?case by (simp add: prices_ok_def)
qed simp

lemma config_okD:
  assumes "config_ok cfg"
  shows "dec_ok (pc_risk_scale cfg)" "dec_ok (pc_min_trade_abs cfg)" "dec_ok (pc_min_trade_pct cfg)"
    "dec_ok (pc_fee_rate cfg)" "dec_ok (dc_turnover_today (pc_day cfg))"
    "pc_buying_power cfg = Some b \<Longrightarrow> dec_ok b"
  using assms by (auto simp: config_ok_def)

text \<open>The aggregated weights are well formed, and an instrument is filed under its own key.\<close>

definition managed_ok :: "(string, managed) btree_map \<Rightarrow> bool" where
  "managed_ok mp \<longleftrightarrow> btm_ok mp \<and> list_all (\<lambda>(k, m). mg_symbol m = k \<and> dec_ok (mg_weight m)) mp"

lemma managed_ok_insert:
  assumes "managed_ok mp" and "mg_symbol m = k" and "dec_ok (mg_weight m)"
  shows "managed_ok (btm_insert k m mp)"
proof -
  have "list_all (\<lambda>(k, m). mg_symbol m = k \<and> dec_ok (mg_weight m)) (btm_insert k m mp)"
    using assms by (induction k m mp rule: btm_insert.induct) (auto simp: managed_ok_def btm_ok_def)
  with assms(1) show ?thesis by (simp add: managed_ok_def)
qed

lemma managed_ok_get: "managed_ok mp \<Longrightarrow> map_of mp k = Some m \<Longrightarrow> mg_symbol m = k \<and> dec_ok (mg_weight m)"
  by (auto simp: managed_ok_def list_all_iff dest!: map_of_SomeD)

lemma aggregate_weight_ok:
  assumes "aggregate_weight cfg t mp w = Inr mp'" and mp: "managed_ok mp" and "dec_ok (st_share t)" and "dec_ok (tw_weight w)"
  shows "managed_ok mp'"
proof -
  from assms(1) obtain c where c: "dmul (st_share t) (tw_weight w) = Inr c"
    by (auto simp: aggregate_weight_def Let_def res_inv)
  have cok: "dec_ok c" using dmul_ok [OF c assms(3,4)] .
  show ?thesis
  proof (cases "map_of mp (key (tw_symbol w))")
    case None
    with assms(1) c show ?thesis by (auto simp: aggregate_weight_def Let_def intro!: managed_ok_insert mp cok)
  next
    case (Some m)
    from managed_ok_get [OF mp Some] have m: "mg_symbol m = key (tw_symbol w)" "dec_ok (mg_weight m)" by auto
    from assms(1) c Some obtain wt sg sl where wt: "dadd (mg_weight m) c = Inr wt"
      and mp': "mp' = btm_insert (key (tw_symbol w)) (m\<lparr>mg_weight := wt, mg_signed := sg, mg_sleeves := sl\<rparr>) mp"
      by (auto simp: aggregate_weight_def Let_def res_inv split: if_splits)
    show ?thesis unfolding mp' using dadd_ok [OF wt m(2) cok] m(1) by (intro managed_ok_insert mp) simp_all
  qed
qed

lemma aggregate_ok:
  assumes "aggregate targets cfg = Inr mp" and "list_all target_ok targets"
  shows "managed_ok mp"
  using assms(1) unfolding aggregate_def
proof (rule try_fold_invariant [where I = managed_ok])
  show "managed_ok []" by (simp add: managed_ok_def)
  fix mp t mp' assume t: "t \<in> set targets" "managed_ok mp" "try_fold (aggregate_weight cfg t) mp (st_weights t) = Inr mp'"
  then have "target_ok t" using assms(2) by (auto simp: list_all_iff)
  then show "managed_ok mp'" using t(2)
    by (intro try_fold_invariant [where I = managed_ok, OF t(3)]) (auto simp: target_ok_def list_all_iff intro: aggregate_weight_ok)
qed

lemma held_qty_ok: "account_ok a \<Longrightarrow> dec_ok (held_qty a m)"
  by (auto simp: held_qty_def account_position_def account_ok_def list_all_iff dest!: find_Some_mem split: option.split)

lemma round_toward_zero_ok: "round_toward_zero v = Inr r \<Longrightarrow> dec_ok v \<Longrightarrow> dec_ok r"
  by (auto simp: round_toward_zero_def Let_def res_inv dest!: dneg_ok round_dp_ok split: if_splits intro: dabs_ok)

lemma target_notional_ok:
  "target_notional base m rs = Inr t \<Longrightarrow> dec_ok base \<Longrightarrow> dec_ok (mg_weight m) \<Longrightarrow> dec_ok rs \<Longrightarrow> dec_ok t"
  unfolding target_notional_def res_inv by (blast intro: round_toward_zero_ok dmul_ok)

section \<open>The legs of a trade\<close>

lemma contractD:
  assumes "venue_contract v" and "vr_round_quantity v s sd w p = Inr q" and "dec_ok w"
  shows "0 < dval q" "dval q \<le> dval w" "dec_ok q"
  using assms unfolding venue_contract_def by blast+

abbreviation leg_candidate :: "managed \<Rightarrow> price_point \<Rightarrow> leg \<Rightarrow> side \<Rightarrow> dec \<Rightarrow> bool \<Rightarrow> candidate" where
  "leg_candidate m pt l sd q red \<equiv> \<lparr>cd_m = m, cd_side = sd, cd_qty = q, cd_price = pt, cd_reducing = red, cd_leg = l\<rparr>"

lemma run_whole:
  assumes "run_legs rules m pt [(WholeLeg, sd, w, red)] r0 [] [] = Inr (cs, sk)"
  shows "cs = [] \<or> (\<exists>q. cs = [leg_candidate m pt WholeLeg sd q red]
    \<and> vr_round_quantity rules (mg_symbol m) sd w (pp_price pt) = Inr q)"
  using assms by (auto simp: res_inv split: sum.splits if_splits)

lemma run_flip:
  assumes "run_legs rules m pt [(CloseLeg, sd1, h, True), (OpenLeg, sd2, w, False)] r0 [] [] = Inr (cs, sk)"
  shows "cs = [] \<or> (\<exists>q1. vr_round_quantity rules (mg_symbol m) sd1 h (pp_price pt) = Inr q1
    \<and> (cs = [leg_candidate m pt CloseLeg sd1 q1 True]
       \<or> (\<exists>r w' q2. dsub h q1 = Inr r \<and> dadd w r = Inr w'
            \<and> vr_round_quantity rules (mg_symbol m) sd2 w' (pp_price pt) = Inr q2
            \<and> cs = [leg_candidate m pt CloseLeg sd1 q1 True, leg_candidate m pt OpenLeg sd2 q2 False])))"
proof (cases "vr_round_quantity rules (mg_symbol m) sd1 h (pp_price pt)")
  case Inl
  with assms show ?thesis by simp
next
  case (Inr q1)
  with assms obtain r w' where r: "dsub h q1 = Inr r" "dadd w r = Inr w'" and l: "\<not> dec_lt h q1"
    by (auto simp: res_inv split: if_splits)
  show ?thesis
    using Inr r l assms by (cases "vr_round_quantity rules (mg_symbol m) sd2 w' (pp_price pt)") (auto split: if_splits)
qed

definition cand_signed :: "candidate \<Rightarrow> rat" where
  "cand_signed c = signed_val (cd_side c) (dval (cd_qty c))"

definition cand_ok :: "account_view \<Rightarrow> candidate \<Rightarrow> bool" where
  "cand_ok a c \<longleftrightarrow> dec_ok (cd_qty c) \<and> 0 < dval (cd_qty c) \<and> dec_ok (pp_price (cd_price c)) \<and> 0 < dval (pp_price (cd_price c))
     \<and> (cd_reducing c \<longrightarrow> dval (cd_qty c) \<le> \<bar>dval (held_qty a (cd_m c))\<bar>
          \<and> (cd_side c = Sell \<and> 0 < dval (held_qty a (cd_m c)) \<or> cd_side c = Buy \<and> dval (held_qty a (cd_m c)) < 0))"


lemma trade_legs_cases:
  assumes "trade_legs held cur tgt delta ad price = Inr legs"
  obtains (Flip) ha at1 oq where "dabs held = Inr ha" "dabs tgt = Inr at1" "div_floor at1 price 18 = Inr oq"
      "is_positive cur \<and> is_negative tgt \<or> is_negative cur \<and> is_positive tgt"
      "legs = [(CloseLeg, (if is_positive held then Sell else Buy), ha, True),
        (OpenLeg, (if is_positive tgt then Buy else Sell), oq, False)]"
  | (Whole) ha w sd red where "dabs held = Inr ha" "sd = (if is_positive delta then Buy else Sell)"
      "red \<longleftrightarrow> sd = Sell \<and> is_positive held \<or> sd = Buy \<and> is_negative held"
      "legs = [(WholeLeg, sd, w, red)]"
      "red \<and> is_zero tgt \<and> w = ha \<or> (\<exists>q. div_floor ad price 18 = Inr q \<and> (w = q \<and> \<not> red \<or> w = dec_min q ha \<and> red))"
proof (cases "is_positive cur \<and> is_negative tgt \<or> is_negative cur \<and> is_positive tgt")
  case True
  with assms Flip show ?thesis by (auto simp: trade_legs_def Let_def res_inv)
next
  case False
  let ?sd = "if is_positive delta then Buy else Sell"
  let ?red = "?sd = Sell \<and> is_positive held \<or> ?sd = Buy \<and> is_negative held"
  have "\<exists>ha w. dabs held = Inr ha \<and> (if \<not> ?red then div_floor ad price 18 else if is_zero tgt then Inr ha
      else try_bind (div_floor ad price 18) (\<lambda>q. Inr (dec_min q ha))) = Inr w
      \<and> Inr [(WholeLeg, ?sd, w, ?red)] = (Inr legs :: math_error + leg_spec list)"
    using assms unfolding trade_legs_def Let_def if_not_P [OF False] try_bind_Inr by blast
  then obtain ha w where w: "dabs held = Inr ha" "legs = [(WholeLeg, ?sd, w, ?red)]"
    "(if \<not> ?red then div_floor ad price 18 else if is_zero tgt then Inr ha
      else try_bind (div_floor ad price 18) (\<lambda>q. Inr (dec_min q ha))) = Inr w"
    by blast
  show ?thesis by (rule Whole [OF w(1) refl refl w(2)]) (use w(3) in \<open>auto simp: res_inv split: if_splits\<close>)
qed

definition instrument_trade ::
    "account_view \<Rightarrow> (string, price_point) btree_map \<Rightarrow> venue_rule_book \<Rightarrow> plan_config \<Rightarrow> dec \<Rightarrow> managed \<Rightarrow> instrument_outcome
      \<Rightarrow> price_point \<Rightarrow> venue_rules \<Rightarrow> dec \<Rightarrow> dec \<Rightarrow> dec \<Rightarrow> dec \<Rightarrow> leg_spec list \<Rightarrow> skip_reason list \<Rightarrow> bool" where
  "instrument_trade a prices book cfg base m out pt rules current target delta ad legs sk \<longleftrightarrow>
     map_of prices (mg_symbol m) = Some pt \<and> is_positive (pp_price pt) \<and> book_get book (mg_venue m) = Some rules
     \<and> dmul (held_qty a m) (pp_price pt) = Inr current \<and> target_notional base m (pc_risk_scale cfg) = Inr target
     \<and> dsub target current = Inr delta \<and> dabs delta = Inr ad \<and> \<not> is_zero delta
     \<and> trade_legs (held_qty a m) current target delta ad (pp_price pt) = Inr legs
     \<and> run_legs rules m pt legs dec_ZERO [] [] = Inr (io_cands out, sk)
     \<and> map il_target_notional (io_lines out) = [target]"

lemma plan_instrument_inv:
  assumes "plan_instrument a prices book cfg base m = Inr out" and "io_cands out \<noteq> []"
  shows "\<exists>pt rules current target delta ad legs sk.
    instrument_trade a prices book cfg base m out pt rules current target delta ad legs sk"
  using assms unfolding plan_instrument_def Let_def opt_filter_def instrument_trade_def
  by (auto simp: res_inv no_trade_def split: option.splits if_splits)


text \<open>What the trade of one instrument moves, as numbers: the price, the exact value held, the
  target, and the wished quantities.\<close>

lemma instrument_trade_vals:
  assumes t: "instrument_trade a prices book cfg base m out pt rules current target delta ad legs sk"
    and ok: "account_ok a" "prices_ok prices" "book_ok book" "dec_ok base" "dec_ok (mg_weight m)" "config_ok cfg"
  defines "h \<equiv> dval (held_qty a m)" and "x \<equiv> dval (pp_price pt)"
  shows "0 < x" "dec_ok (pp_price pt)" "venue_contract rules" "dec_ok (held_qty a m)" "dec_ok target" "dec_ok ad"
    "dval current = floor_dp 18 (h * x)" "dval delta = dval target - dval current" "dval ad = \<bar>dval delta\<bar>"
    "dec_ok current" "dec_ok delta"
proof -
  have i: "map_of prices (mg_symbol m) = Some pt" "is_positive (pp_price pt)" "book_get book (mg_venue m) = Some rules"
     "dmul (held_qty a m) (pp_price pt) = Inr current" "target_notional base m (pc_risk_scale cfg) = Inr target"
     "dsub target current = Inr delta" "dabs delta = Inr ad" using t by (auto simp: instrument_trade_def)
  show "0 < x" using i(2) by (simp add: x_def dval_sign)
  show px: "dec_ok (pp_price pt)" using prices_ok_get [OF ok(2) i(1)] .
  show "venue_contract rules" using book_get_contract [OF ok(3) i(3)] .
  show h: "dec_ok (held_qty a m)" using held_qty_ok [OF ok(1)] .
  show tg: "dec_ok target" using target_notional_ok [OF i(5) ok(4,5) config_okD(1) [OF ok(6)]] .
  show c: "dec_ok current" using dmul_ok [OF i(4) h px] .
  show "dval current = floor_dp 18 (h * x)" using dmul_val [OF i(4) h px] by (simp add: h_def x_def)
  show "dval delta = dval target - dval current" using dsub_val [OF i(6) tg] .
  show d: "dec_ok delta" using dsub_ok [OF i(6) tg] .
  show "dval ad = \<bar>dval delta\<bar>" "dec_ok ad" using dabs_val [OF i(7)] dabs_ok [OF i(7) d] by auto
qed

lemma floor_dp_pos: "0 < floor_dp n x \<Longrightarrow> 0 < x"
  using floor_dp_le [of n x] by linarith

lemma floor_dp_neg: "floor_dp n x < 0 \<Longrightarrow> x < 0"
  using floor_dp_nonneg [of x n] by linarith

lemma div_floor_le:
  assumes "div_floor n d 18 = Inr q" and "dec_ok n" and "dec_ok d"
  shows "dval q * dval d \<le> dval n" "dec_ok q"
proof -
  note s = div_floor_spec [OF assms]
  then have "dval q \<le> dval n / dval d" by (simp add: floor_dp_le)
  then show "dval q * dval d \<le> dval n" using s by (simp add: le_divide_eq)
  show "dec_ok q" using s by blast
qed


definition between_eps :: "rat \<Rightarrow> rat \<Rightarrow> rat \<Rightarrow> bool" where
  "between_eps v t y \<longleftrightarrow> min v t - 1 / 10 ^ 18 \<le> y \<and> y \<le> max v t + 1 / 10 ^ 18"

lemma between_eps_self: "between_eps v t v"
  by (simp add: between_eps_def min_def max_def)

lemma whole_between:
  assumes x: "0 < x" and q: "0 < q" and cur: "cur \<le> h * x" "h * x < cur + 1 / 10 ^ 18"
    and sd: "sd = (if cur < t then Buy else Sell)"
    and w: "q * x \<le> \<bar>t - cur\<bar> \<or> t = 0 \<and> q \<le> \<bar>h\<bar> \<and> (sd = Sell \<and> 0 < h \<or> sd = Buy \<and> h < 0)"
  shows "between_eps (h * x) t ((h + signed_val sd q) * x)"
proof -
  have q0: "0 < q * x" using x q by simp
  show ?thesis
  proof (cases sd)
    case Buy
    with sd have c: "cur < t" by (simp split: if_splits)
    have "(h + q) * x \<le> max (h * x) t + 1 / 10 ^ 18"
    proof (cases "q * x \<le> t - cur")
      case True
      then show ?thesis using cur by (simp add: distrib_right)
    next
      case False
      with w c Buy have "t = 0" "(h + q) * x \<le> 0" using x by (auto simp: mult_le_0_iff)
      then show ?thesis by simp
    qed
    moreover have "min (h * x) t - 1 / 10 ^ 18 \<le> (h + q) * x"
      using q0 unfolding distrib_right by (simp add: min_def)
    ultimately show ?thesis using Buy by (simp add: between_eps_def signed_val_def)
  next
    case Sell
    with sd have c: "t \<le> cur" by (simp split: if_splits)
    have "min (h * x) t - 1 / 10 ^ 18 \<le> (h - q) * x"
    proof (cases "q * x \<le> cur - t")
      case True
      then show ?thesis using cur unfolding left_diff_distrib by (simp add: min_def)
    next
      case False
      with w c Sell have "t = 0" "0 \<le> (h - q) * x" using x by auto
      then show ?thesis by simp
    qed
    moreover have "(h - q) * x \<le> max (h * x) t + 1 / 10 ^ 18"
      using q0 unfolding left_diff_distrib by (simp add: max_def)
    ultimately show ?thesis using Sell by (simp add: between_eps_def signed_val_def)
  qed
qed

lemma flip_between:
  assumes x: "0 < x" and q1: "0 < q1" "q1 \<le> \<bar>h\<bar>" and sgn: "0 < h \<and> t < 0 \<or> h < 0 \<and> 0 < t"
  shows "between_eps (h * x) t ((h + signed_val (if 0 < h then Sell else Buy) q1) * x)"
    and "0 < q2 \<Longrightarrow> q2 \<le> oq + (\<bar>h\<bar> - q1) \<Longrightarrow> oq * x \<le> \<bar>t\<bar> \<Longrightarrow>
      between_eps (h * x) t ((h + signed_val (if 0 < h then Sell else Buy) q1 + signed_val (if 0 < t then Buy else Sell) q2) * x)"
proof -
  consider "0 < h" "t < 0" | "h < 0" "0 < t" using sgn by blast
  note cases = this
  have p: "0 < q1 * x" "q1 * x \<le> \<bar>h\<bar> * x" using x q1 by simp_all
  show "between_eps (h * x) t ((h + signed_val (if 0 < h then Sell else Buy) q1) * x)"
    using cases
  proof cases
    case 1
    then have "0 \<le> (h - q1) * x" "(h - q1) * x \<le> h * x" using q1 x p by (simp_all add: left_diff_distrib)
    with 1 show ?thesis by (simp add: between_eps_def signed_val_def)
  next
    case 2
    then have "(h + q1) * x \<le> 0" "h * x \<le> (h + q1) * x" using q1 x p by (simp_all add: distrib_right mult_le_0_iff)
    with 2 show ?thesis by (simp add: between_eps_def signed_val_def)
  qed
  assume q2: "0 < q2" "q2 \<le> oq + (\<bar>h\<bar> - q1)" and oq: "oq * x \<le> \<bar>t\<bar>"
  have r: "0 < q2 * x" "q2 * x \<le> oq * x + (\<bar>h\<bar> * x - q1 * x)"
    using q2 x mult_right_mono [OF q2(2), of x] by (simp_all add: distrib_right left_diff_distrib)
  show "between_eps (h * x) t ((h + signed_val (if 0 < h then Sell else Buy) q1 + signed_val (if 0 < t then Buy else Sell) q2) * x)"
    using cases
  proof cases
    case 1
    then have "t \<le> (h - q1 - q2) * x" "(h - q1 - q2) * x \<le> h * x" using r p oq by (simp_all add: left_diff_distrib)
    with 1 show ?thesis by (simp add: between_eps_def signed_val_def)
  next
    case 2
    then have "(h + q1 + q2) * x \<le> t" "h * x \<le> (h + q1 + q2) * x" using r p oq by (simp_all add: distrib_right)
    with 2 show ?thesis by (simp add: between_eps_def signed_val_def)
  qed
qed


definition moved :: "candidate list \<Rightarrow> rat" where
  "moved cs = (\<Sum>c\<leftarrow>cs. cand_signed c)"

definition cands_good :: "account_view \<Rightarrow> managed \<Rightarrow> price_point \<Rightarrow> rat \<Rightarrow> candidate list \<Rightarrow> bool" where
  "cands_good a m pt t cs \<longleftrightarrow>
     list_all (\<lambda>c. cand_ok a c \<and> cd_m c = m \<and> cd_price c = pt) cs
     \<and> (\<forall>k. between_eps (dval (held_qty a m) * dval (pp_price pt)) t
          ((dval (held_qty a m) + moved (take k cs)) * dval (pp_price pt)))"

lemma cands_good_Nil: "cands_good a m pt t []"
  by (simp add: cands_good_def moved_def between_eps_self)

lemma cands_good_one:
  assumes "cand_ok a c" "cd_m c = m" "cd_price c = pt"
    and "between_eps (dval (held_qty a m) * dval (pp_price pt)) t ((dval (held_qty a m) + cand_signed c) * dval (pp_price pt))"
  shows "cands_good a m pt t [c]"
  unfolding cands_good_def
proof (intro conjI allI)
  show "list_all (\<lambda>c. cand_ok a c \<and> cd_m c = m \<and> cd_price c = pt) [c]" using assms(1-3) by simp
  fix k
  show "between_eps (dval (held_qty a m) * dval (pp_price pt)) t
      ((dval (held_qty a m) + moved (take k [c])) * dval (pp_price pt))"
    using assms(4) between_eps_self by (cases k) (simp_all add: moved_def)
qed

lemma cands_good_two:
  assumes one: "cands_good a m pt t [c]" and "cand_ok a d" "cd_m d = m" "cd_price d = pt"
    and b: "between_eps (dval (held_qty a m) * dval (pp_price pt)) t
      ((dval (held_qty a m) + cand_signed c + cand_signed d) * dval (pp_price pt))"
  shows "cands_good a m pt t [c, d]"
  unfolding cands_good_def
proof (intro conjI allI)
  show "list_all (\<lambda>c. cand_ok a c \<and> cd_m c = m \<and> cd_price c = pt) [c, d]"
    using assms by (simp add: cands_good_def)
  fix k :: nat
  have "take k [c, d] = take k [c] \<or> take k [c, d] = [c, d]" by (cases k; cases "k - 1") simp_all
  then show "between_eps (dval (held_qty a m) * dval (pp_price pt)) t
      ((dval (held_qty a m) + moved (take k [c, d])) * dval (pp_price pt))"
  proof
    assume e: "take k [c, d] = take k [c]"
    show ?thesis unfolding e using one by (simp add: cands_good_def)
  next
    assume e: "take k [c, d] = [c, d]"
    show ?thesis unfolding e using b by (simp add: moved_def add.assoc)
  qed
qed

lemma instrument_cands:
  assumes t: "instrument_trade a prices book cfg base m out pt rules current target delta ad legs sk"
    and ok: "account_ok a" "prices_ok prices" "book_ok book" "dec_ok base" "dec_ok (mg_weight m)" "config_ok cfg"
  shows "cands_good a m pt (dval target) (io_cands out)"
proof -
  note v = instrument_trade_vals [OF t ok]
  let ?h = "dval (held_qty a m)" and ?x = "dval (pp_price pt)"
  have run: "run_legs rules m pt legs dec_ZERO [] [] = Inr (io_cands out, sk)" and nz: "\<not> is_zero delta"
    and "trade_legs (held_qty a m) current target delta ad (pp_price pt) = Inr legs"
    using t by (auto simp: instrument_trade_def)
  from this(3) show ?thesis
  proof (cases rule: trade_legs_cases)
    case (Flip ha at1 oq)
    have ha: "dval ha = \<bar>?h\<bar>" "dec_ok ha" using dabs_val [OF Flip(1)] dabs_ok [OF Flip(1) v(4)] by auto
    have at1: "dval at1 = \<bar>dval target\<bar>" "dec_ok at1" using dabs_val [OF Flip(2)] dabs_ok [OF Flip(2) v(5)] by auto
    note oq = div_floor_le [OF Flip(3) at1(2) v(2)]
    have sgn: "0 < ?h \<and> dval target < 0 \<or> ?h < 0 \<and> 0 < dval target"
      using Flip(4) v(1,7) floor_dp_pos [of 18 "?h * ?x"] floor_dp_neg [of 18 "?h * ?x"]
      by (auto simp: dval_sign zero_less_mult_iff mult_less_0_iff)
    let ?s1 = "if is_positive (held_qty a m) then Sell else Buy" and ?s2 = "if is_positive target then Buy else Sell"
    have s: "?s1 = (if 0 < ?h then Sell else Buy)" "?s2 = (if 0 < dval target then Buy else Sell)" by (simp_all add: dval_sign)
    from run_flip [OF run [unfolded Flip(5)]] show ?thesis
    proof (elim disjE exE conjE)
      assume "io_cands out = []" then show ?thesis by (simp add: cands_good_Nil)
    next
      fix q1 assume q1: "vr_round_quantity rules (mg_symbol m) ?s1 ha (pp_price pt) = Inr q1"
      note c1 = contractD [OF v(3) q1 ha(2)]
      let ?c = "leg_candidate m pt CloseLeg ?s1 q1 True"
      have one: "cands_good a m pt (dval target) [?c]"
      proof (rule cands_good_one)
        show "cand_ok a ?c" using c1 ha(1) v(1,2) sgn by (auto simp: cand_ok_def dval_sign)
        show "between_eps (?h * ?x) (dval target) ((?h + cand_signed ?c) * ?x)"
          using flip_between(1) [OF v(1) c1(1) _ sgn] c1(2) ha(1) s(1) by (simp add: cand_signed_def)
      qed simp_all
      then show "io_cands out = [?c] \<Longrightarrow> ?thesis" by simp
      fix r w' q2 assume r: "dsub ha q1 = Inr r" and w': "dadd oq r = Inr w'"
        and q2: "vr_round_quantity rules (mg_symbol m) ?s2 w' (pp_price pt) = Inr q2"
        and out: "io_cands out = [?c, leg_candidate m pt OpenLeg ?s2 q2 False]"
      note rv = dsub_val [OF r ha(2)] dsub_ok [OF r ha(2)]
      note wv = dadd_val [OF w' oq(2) rv(2)] dadd_ok [OF w' oq(2) rv(2)]
      note c2 = contractD [OF v(3) q2 wv(2)]
      show ?thesis unfolding out
      proof (rule cands_good_two [OF one])
        show "cand_ok a (leg_candidate m pt OpenLeg ?s2 q2 False)" using c2 v(1,2) by (simp add: cand_ok_def)
        show "between_eps (?h * ?x) (dval target)
            ((?h + cand_signed ?c + cand_signed (leg_candidate m pt OpenLeg ?s2 q2 False)) * ?x)"
          using flip_between(2) [OF v(1) c1(1) _ sgn c2(1), of "dval oq"] c1(2) c2(2) ha(1) at1(1) wv(1) rv(1) oq(1) s
          by (simp add: cand_signed_def)
      qed simp_all
    qed
  next
    case (Whole ha w sd red)
    have ha: "dval ha = \<bar>?h\<bar>" "dec_ok ha" using dabs_val [OF Whole(1)] dabs_ok [OF Whole(1) v(4)] by auto
    have w: "dec_ok w \<and> (red \<longrightarrow> dval w \<le> \<bar>?h\<bar>) \<and> (dval w * ?x \<le> \<bar>dval target - dval current\<bar> \<or> dval target = 0 \<and> red)"
      using Whole(5)
    proof (elim disjE exE conjE)
      fix q assume q: "div_floor ad (pp_price pt) 18 = Inr q" "w = dec_min q ha" and red
      note d = div_floor_le [OF q(1) v(6,2)]
      have "dval w \<le> dval q" "dval w \<le> \<bar>?h\<bar>" "dec_ok w" using q(2) d(2) ha by (auto simp: dec_min_dval dec_ok_min)
      moreover have "dval w * ?x \<le> dval q * ?x" using calculation(1) v(1) by simp
      ultimately show ?thesis using d(1) v(8,9) by auto
    qed (use ha v(8,9) div_floor_le [OF _ v(6,2)] in \<open>auto simp: dval_sign\<close>)
    from run_whole [OF run [unfolded Whole(4)]] show ?thesis
    proof (elim disjE exE conjE)
      assume "io_cands out = []" then show ?thesis by (simp add: cands_good_Nil)
    next
      fix q assume out: "io_cands out = [leg_candidate m pt WholeLeg sd q red]"
        and q: "vr_round_quantity rules (mg_symbol m) sd w (pp_price pt) = Inr q"
      note c = contractD [OF v(3) q conjunct1 [OF w]]
      have qx: "dval q * ?x \<le> dval w * ?x" using c(2) v(1) by simp
      have sd: "sd = (if dval current < dval target then Buy else Sell)" using Whole(2) v(8) by (simp add: dval_sign)
      show ?thesis unfolding out
      proof (rule cands_good_one)
        show "cand_ok a (leg_candidate m pt WholeLeg sd q red)"
          using c w v(1,2) Whole(3) by (auto simp: cand_ok_def dval_sign)
        have "between_eps (?h * ?x) (dval target) ((?h + signed_val sd (dval q)) * ?x)"
        proof (rule whole_between [OF v(1) c(1) _ _ sd])
          show "dval current \<le> ?h * ?x" "?h * ?x < dval current + 1 / 10 ^ 18"
            unfolding v(7) using floor_dp_le [of 18 "?h * ?x"] floor_dp_gt [of "?h * ?x" 18] by simp_all
          show "dval q * ?x \<le> \<bar>dval target - dval current\<bar> \<or> dval target = 0 \<and> dval q \<le> \<bar>?h\<bar>
            \<and> (sd = Sell \<and> 0 < ?h \<or> sd = Buy \<and> ?h < 0)"
            using w qx c(2) Whole(3) by (auto simp: dval_sign)
        qed
        then show "between_eps (?h * ?x) (dval target) ((?h + cand_signed (leg_candidate m pt WholeLeg sd q red)) * ?x)"
          by (simp add: cand_signed_def)
      qed simp_all
    qed
  qed
qed

end
