(* ===== verification/Plan_Run.thy ===== *)
theory Plan_Run
  imports Plan_Legs "HOL-Library.Sublist"
begin

text \<open>
  The orders of a plan as a run of the guard: \<open>guarded_run\<close> is the abstract specification of an order
  list, and placing candidates (\<open>try_order\<close>, \<open>place_reducers\<close>, \<open>place_buys\<close>) extends such a run.
\<close>

section \<open>The candidates of a plan\<close>

lemma plan_instrument_cands:
  assumes "plan_instrument a prices book cfg base m = Inr out"
    and ok: "account_ok a" "prices_ok prices" "book_ok book" "dec_ok base" "dec_ok (mg_weight m)" "config_ok cfg"
  shows "list_all (\<lambda>c. cand_ok a c \<and> cd_m c = m) (io_cands out)"
proof (cases "io_cands out = []")
  case False
  from plan_instrument_inv [OF assms(1) this] obtain pt rules current target delta ad legs sk where
    "instrument_trade a prices book cfg base m out pt rules current target delta ad legs sk" by blast
  from instrument_cands [OF this ok] show ?thesis by (auto simp: cands_good_def list_all_iff)
qed simp

definition cands_from :: "account_view \<Rightarrow> managed list \<Rightarrow> candidate_set \<Rightarrow> bool" where
  "cands_from a ms cs \<longleftrightarrow>
     list_all (\<lambda>c. cand_ok a c \<and> cd_m c \<in> set ms \<and> cd_reducing c) (cs_reducers cs)
     \<and> list_all (\<lambda>c. cand_ok a c \<and> cd_m c \<in> set ms \<and> \<not> cd_reducing c) (cs_increasers cs)"

lemma collect_candidates_from:
  assumes "collect_candidates a prices book cfg base ms = Inr cs"
    and ok: "account_ok a" "prices_ok prices" "book_ok book" "dec_ok base" "list_all (\<lambda>m. dec_ok (mg_weight m)) ms" "config_ok cfg"
  shows "cands_from a ms cs"
  using assms(1) unfolding collect_candidates_def
proof (rule try_fold_invariant [where I = "cands_from a ms"])
  fix t m t' assume m: "m \<in> set ms" and t: "cands_from a ms t"
    and r: "try_bind (plan_instrument a prices book cfg base m) (\<lambda>out.
      Inr \<lparr>cs_lines = cs_lines t @ io_lines out, cs_skipped = cs_skipped t @ map (skip_of m) (io_skips out),
           cs_reducers = cs_reducers t @ filter cd_reducing (io_cands out),
           cs_increasers = cs_increasers t @ filter (\<lambda>c. \<not> cd_reducing c) (io_cands out)\<rparr>) = Inr t'"
  have "dec_ok (mg_weight m)" using m ok(5) by (auto simp: list_all_iff)
  from r obtain out where o: "plan_instrument a prices book cfg base m = Inr out"
    "cs_reducers t' = cs_reducers t @ filter cd_reducing (io_cands out)"
    "cs_increasers t' = cs_increasers t @ filter (\<lambda>c. \<not> cd_reducing c) (io_cands out)" by (auto simp: res_inv)
  from plan_instrument_cands [OF o(1) ok(1-4) \<open>dec_ok (mg_weight m)\<close> ok(6)] m t
  show "cands_from a ms t'" by (auto simp: cands_from_def o(2,3) list_all_iff)
qed (simp add: cands_from_def)

section \<open>Guarded runs\<close>

text \<open>
  The specification of a plan's order list: a run of orders, each of which the guard allows on the
  simulated account as the orders before it left it, and each applied to that account in turn.
\<close>

definition order_managed :: "planned_order \<Rightarrow> managed" where
  "order_managed o1 = \<lparr>mg_symbol = pl_symbol o1, mg_venue = pl_venue o1, mg_asset_class = pl_asset_class o1,
     mg_sleeves = [], mg_weight = dec_ZERO, mg_signed = False\<rparr>"

definition proposal :: "planned_order \<Rightarrow> price_point \<Rightarrow> bool \<Rightarrow> proposed_order" where
  "proposal o1 pt um = \<lparr>po_venue = pl_venue o1, po_asset_class = pl_asset_class o1, po_symbol = pl_symbol o1,
     po_side = pl_side o1, po_quantity = pl_quantity o1, po_price = Some pt, po_est_fee = pl_est_fee o1,
     po_uses_margin = um, po_is_derivative = False, po_loss_rung_cover = False\<rparr>"

definition guard_ctx :: "plan_config \<Rightarrow> venue_rule_book \<Rightarrow> dec option \<Rightarrow> (margin_context \<times> instrument_rules) option" where
  "guard_ctx cfg book bp =
     (if pc_signed_sleeves cfg = [] then None else Some (\<lparr>mc_buying_power_left = bp\<rparr>, vb_instruments book))"

inductive guarded_run ::
    "policy \<Rightarrow> venue_rule_book \<Rightarrow> plan_config \<Rightarrow> account_view \<times> day_counters \<Rightarrow> planned_order list
      \<Rightarrow> account_view \<times> day_counters \<Rightarrow> bool"
  for p book cfg s where
  run_nil: "guarded_run p book cfg s [] s"
| run_snoc: "guarded_run p book cfg s os (a, d) \<Longrightarrow>
    v_allow (guard_run p a (proposal o1 pt um) d (guard_ctx cfg book bp)) \<Longrightarrow>
    pp_price pt = pl_price o1 \<Longrightarrow> order_ok (proposal o1 pt um) \<Longrightarrow>
    dmul (pl_quantity o1) (pl_price o1) = Inr (pl_notional o1) \<Longrightarrow>
    fee_for (pl_notional o1) (pc_fee_rate cfg) = Inr (pl_est_fee o1) \<Longrightarrow>
    apply_order a d (order_managed o1) (pl_side o1) (pl_quantity o1) (pl_price o1) (pl_est_fee o1) = Inr t \<Longrightarrow>
    guarded_run p book cfg s (os @ [o1]) t"

inductive_cases guarded_run_nilE: "guarded_run p book cfg s [] t"
inductive_cases guarded_run_snocE: "guarded_run p book cfg s (os @ [o1]) t"

lemma guarded_run_prefix:
  "guarded_run p book cfg s (xs @ ys) t \<Longrightarrow> \<exists>u. guarded_run p book cfg s xs u"
proof (induction ys arbitrary: t rule: rev_induct)
  case (snoc y ys)
  then show ?case by (auto simp flip: append_assoc elim: guarded_run_snocE)
qed auto

lemma apply_order_managed:
  "apply_order sim day m sd q x f = apply_order sim day (order_managed (planned pe acct sched c q' n f')) sd q x f"
  if "m = cd_m c"
  using that by (simp add: apply_order_def order_managed_def planned_def Let_def)

definition order_of :: "plan_env \<Rightarrow> plan_config \<Rightarrow> string \<Rightarrow> candidate \<times> dec \<Rightarrow> planned_order \<Rightarrow> bool" where
  "order_of pe cfg acct cq o1 \<longleftrightarrow> (\<exists>n f. o1 = planned pe acct (pc_scheduled_for cfg) (fst cq) (snd cq) n f)"

lemma fee_for_ok: "fee_for n r = Inr f \<Longrightarrow> dec_ok n \<Longrightarrow> dec_ok r \<Longrightarrow> dec_ok f"
  unfolding fee_for_def res_inv by (blast dest: dmul_ok round_dp_ok)

lemma try_order_cases:
  assumes t: "try_order pe p book cfg acct c q s = Inr (placed, s')"
    and ok: "dec_ok q" "dec_ok (pp_price (cd_price c))" "dec_ok (pc_fee_rate cfg)"
  obtains (Placed) o1 pt um bp where "placed" "order_of pe cfg acct (c, q) o1" "ps_orders s' = ps_orders s @ [o1]"
      "ps_denied s' = ps_denied s" "v_allow (guard_run p (ps_sim s) (proposal o1 pt um) (ps_day s) (guard_ctx cfg book bp))"
      "pp_price pt = pl_price o1" "order_ok (proposal o1 pt um)" "dmul (pl_quantity o1) (pl_price o1) = Inr (pl_notional o1)"
      "fee_for (pl_notional o1) (pc_fee_rate cfg) = Inr (pl_est_fee o1)"
      "apply_order (ps_sim s) (ps_day s) (order_managed o1) (pl_side o1) (pl_quantity o1) (pl_price o1) (pl_est_fee o1)
        = Inr (ps_sim s', ps_day s')"
  | (Refused) d where "\<not> placed" "order_of pe cfg acct (c, q) (dn_order d)" "dn_reasons d \<noteq> []"
      "s' = s\<lparr>ps_denied := ps_denied s @ [d]\<rparr>"
proof -
  let ?x = "pp_price (cd_price c)"
  from t obtain n f um where n: "dmul q ?x = Inr n" and f: "fee_for n (pc_fee_rate cfg) = Inr f"
    and rest: "(let proposed = (propose c q f)\<lparr>po_uses_margin := um\<rparr>;
        verdict = (if pc_signed_sleeves cfg \<noteq> []
            then guard_check_signed p (ps_sim s) proposed (ps_day s) \<lparr>mc_buying_power_left = ps_bp_left s\<rparr> (vb_instruments book)
            else guard_check p (ps_sim s) proposed (ps_day s));
        o1 = planned pe acct (pc_scheduled_for cfg) c q n f
      in if v_allow verdict
         then try_bind (plan_math (apply_order (ps_sim s) (ps_day s) (cd_m c) (cd_side c) q ?x f)) (\<lambda>(sim, day).
              try_bind (case ps_bp_left s of
                  Some bp \<Rightarrow> if \<not> cd_reducing c
                    then try_bind (plan_math (dsub bp n)) (\<lambda>b1. try_bind (plan_math (dsub b1 f)) (\<lambda>b2. Inr (Some b2)))
                    else Inr (Some bp)
                | None \<Rightarrow> Inr None) (\<lambda>bp'.
              Inr (True, s\<lparr>ps_sim := sim, ps_day := day, ps_bp_left := bp',
                ps_margin_tags := ps_margin_tags s @ (if um then [pl_tag o1] else []),
                ps_orders := ps_orders s @ [o1]\<rparr>)))
         else Inr (False, s\<lparr>ps_denied := ps_denied s @ [\<lparr>dn_order = o1, dn_reasons = v_reasons verdict\<rparr>]\<rparr>))
      = Inr (placed, s')"
    unfolding try_order_def Let_def try_bind_Inr map_err_Inr by blast
  let ?o = "planned pe acct (pc_scheduled_for cfg) c q n f"
  have of: "order_of pe cfg acct (c, q) ?o" by (auto simp: order_of_def)
  have pr: "proposal ?o (cd_price c) um = (propose c q f)\<lparr>po_uses_margin := um\<rparr>"
    by (simp add: proposal_def propose_def planned_def Let_def)
  have g: "(if pc_signed_sleeves cfg \<noteq> []
            then guard_check_signed p (ps_sim s) ((propose c q f)\<lparr>po_uses_margin := um\<rparr>) (ps_day s)
              \<lparr>mc_buying_power_left = ps_bp_left s\<rparr> (vb_instruments book)
            else guard_check p (ps_sim s) ((propose c q f)\<lparr>po_uses_margin := um\<rparr>) (ps_day s))
      = guard_run p (ps_sim s) (proposal ?o (cd_price c) um) (ps_day s) (guard_ctx cfg book (ps_bp_left s))"
    by (simp add: guard_check_signed_def guard_check_def guard_ctx_def pr)
  have fok: "dec_ok f" using fee_for_ok [OF f dmul_ok [OF n ok(1,2)] ok(3)] .
  have ord: "order_ok (proposal ?o (cd_price c) um)" using ok fok by (simp add: order_ok_def pr propose_def)
  have fields: "pl_quantity ?o = q" "pl_price ?o = ?x" "pl_notional ?o = n" "pl_est_fee ?o = f" "pl_side ?o = cd_side c"
    by (simp_all add: planned_def Let_def)
  show thesis
  proof (cases "v_allow (guard_run p (ps_sim s) (proposal ?o (cd_price c) um) (ps_day s) (guard_ctx cfg book (ps_bp_left s)))")
    case True
    from rest [unfolded Let_def g] True obtain sim day where
      ap: "apply_order (ps_sim s) (ps_day s) (cd_m c) (cd_side c) q ?x f = Inr (sim, day)"
      and s': "placed" "ps_orders s' = ps_orders s @ [?o]" "ps_denied s' = ps_denied s" "ps_sim s' = sim" "ps_day s' = day"
      by (auto simp: res_inv)
    show thesis
    proof (rule Placed [OF s'(1) of s'(2,3) True])
      show "apply_order (ps_sim s) (ps_day s) (order_managed ?o) (pl_side ?o) (pl_quantity ?o) (pl_price ?o) (pl_est_fee ?o)
        = Inr (ps_sim s', ps_day s')"
        using ap s' unfolding fields by (simp add: apply_order_managed [symmetric, OF refl])
    qed (simp_all only: fields n f ord)
  next
    case False
    with rest [unfolded Let_def g] have "\<not> placed" "s' = s\<lparr>ps_denied := ps_denied s @ [\<lparr>dn_order = ?o, dn_reasons =
        v_reasons (guard_run p (ps_sim s) (proposal ?o (cd_price c) um) (ps_day s) (guard_ctx cfg book (ps_bp_left s)))\<rparr>]\<rparr>"
      by auto
    with False show thesis by (intro Refused) (auto simp: of guard_allow_reasons)
  qed
qed


section \<open>Placing orders extends a guarded run\<close>

definition cq_ok :: "candidate \<times> dec \<Rightarrow> bool" where
  "cq_ok cq \<longleftrightarrow> dec_ok (snd cq) \<and> dec_ok (pp_price (cd_price (fst cq)))"

definition extends_run ::
    "plan_env \<Rightarrow> policy \<Rightarrow> venue_rule_book \<Rightarrow> plan_config \<Rightarrow> string \<Rightarrow> (candidate \<times> dec) list \<Rightarrow> plan_state \<Rightarrow> plan_state \<Rightarrow> bool" where
  "extends_run pe p book cfg acct cqs s s' \<longleftrightarrow>
     (\<exists>xs os. subseq xs cqs \<and> list_all2 (order_of pe cfg acct) xs os \<and> ps_orders s' = ps_orders s @ os)
     \<and> (\<forall>u. guarded_run p book cfg u (ps_orders s) (ps_sim s, ps_day s) \<longrightarrow>
           guarded_run p book cfg u (ps_orders s') (ps_sim s', ps_day s'))"

lemma extends_run_refl: "extends_run pe p book cfg acct [] s s"
  by (auto simp: extends_run_def)

lemma extends_run_skip:
  assumes "extends_run pe p book cfg acct cqs s s'"
  shows "extends_run pe p book cfg acct (cq # cqs) s s'"
  using assms unfolding extends_run_def by (blast intro: list_emb_Cons)

lemma extends_run_trans:
  assumes "extends_run pe p book cfg acct xs s t" and "extends_run pe p book cfg acct ys t u"
  shows "extends_run pe p book cfg acct (xs @ ys) s u"
proof -
  from assms obtain xs' os ys' os' where
    "subseq xs' xs" "list_all2 (order_of pe cfg acct) xs' os" "ps_orders t = ps_orders s @ os"
    "subseq ys' ys" "list_all2 (order_of pe cfg acct) ys' os'" "ps_orders u = ps_orders t @ os'"
    unfolding extends_run_def by blast
  then have "subseq (xs' @ ys') (xs @ ys)" "list_all2 (order_of pe cfg acct) (xs' @ ys') (os @ os')"
    "ps_orders u = ps_orders s @ (os @ os')" by (auto intro: list_emb_append_mono list_all2_appendI)
  with assms show ?thesis unfolding extends_run_def by blast
qed

lemma try_order_extends:
  assumes "try_order pe p book cfg acct c q s = Inr (placed, s')" and "cq_ok (c, q)" and "dec_ok (pc_fee_rate cfg)"
  shows "extends_run pe p book cfg acct [(c, q)] s s'"
proof -
  have ok: "dec_ok q" "dec_ok (pp_price (cd_price c))" using assms(2) by (simp_all add: cq_ok_def)
  from assms(1) ok assms(3) show ?thesis
  proof (cases rule: try_order_cases)
    case (Placed o1 pt um bp)
    have "list_all2 (order_of pe cfg acct) [(c, q)] [o1]" using Placed(2) by simp
    moreover have "guarded_run p book cfg u (ps_orders s') (ps_sim s', ps_day s')"
      if "guarded_run p book cfg u (ps_orders s) (ps_sim s, ps_day s)" for u
      unfolding Placed(3) using that Placed by (intro run_snoc)
    ultimately show ?thesis using Placed(3) unfolding extends_run_def by blast
  next
    case (Refused d)
    then have "ps_orders s' = ps_orders s @ []" "ps_sim s' = ps_sim s" "ps_day s' = ps_day s" by simp_all
    then show ?thesis unfolding extends_run_def by (metis append_Nil2 list_all2_Nil list_emb_Nil)
  qed
qed

lemma place_reducers_extends:
  assumes "place_reducers pe p book cfg acct cs s = Inr (s', cld)" and "list_all (\<lambda>c. cq_ok (c, cd_qty c)) cs"
    and "dec_ok (pc_fee_rate cfg)"
  shows "extends_run pe p book cfg acct (map (\<lambda>c. (c, cd_qty c)) cs) s s'"
proof -
  let ?f = "\<lambda>(s, cld) c. try_bind (try_order pe p book cfg acct c (cd_qty c) s) (\<lambda>(placed, s').
        Inr (s', if placed \<and> cd_leg c = CloseLeg then bts_insert (mg_symbol (cd_m c)) cld else cld))"
  have "extends_run pe p book cfg acct (map (\<lambda>c. (c, cd_qty c)) cs) s s'"
    if "try_fold ?f (s, cl) cs = Inr (s', cld)" "list_all (\<lambda>c. cq_ok (c, cd_qty c)) cs" for cl s cs
    using that
  proof (induction cs arbitrary: s cl)
    case Nil
    then show ?case by (simp add: extends_run_refl)
  next
    case (Cons c cs)
    from Cons.prems(1) obtain pl t cl' where t: "try_order pe p book cfg acct c (cd_qty c) s = Inr (pl, t)"
      and r: "try_fold ?f (t, cl') cs = Inr (s', cld)" by (auto simp: res_inv)
    have "extends_run pe p book cfg acct [(c, cd_qty c)] s t"
      using try_order_extends [OF t _ assms(3)] Cons.prems(2) by simp
    from extends_run_trans [OF this Cons.IH [OF r]] Cons.prems(2) show ?case by simp
  qed
  then show ?thesis using assms(1,2) unfolding place_reducers_def .
qed

lemma place_buys_extends:
  assumes "place_buys pe p book cfg acct av cqs (s, sk) = Inr (s', sk')" and "list_all cq_ok cqs"
    and fee: "dec_ok (pc_fee_rate cfg)"
  shows "extends_run pe p book cfg acct cqs s s'"
  using assms(1,2) unfolding place_buys_def
proof (induction cqs arbitrary: s sk)
  case Nil
  then show ?case by (simp add: extends_run_refl)
next
  case (Cons cq cqs)
  obtain c q where cq: "cq = (c, q)" by (cases cq)
  show ?case
  proof (cases "is_zero q")
    case True
    with Cons show ?thesis by (auto simp: cq intro: extends_run_skip)
  next
    case False
    with Cons.prems(1) obtain pl t where t: "try_order pe p book cfg acct c q s = Inr (pl, t)"
      and r: "try_fold (\<lambda>(s, skipped) (c, q).
        if is_zero q
        then Inr (s, skipped @ [skip_of (cd_m c) (if is_positive av then CutBelowVenueMinimum else NoCashAvailable)])
        else try_bind (try_order pe p book cfg acct c q s) (\<lambda>(_, s'). Inr (s', skipped))) (t, sk) cqs = Inr (s', sk')"
      by (auto simp: res_inv cq)
    have "extends_run pe p book cfg acct [cq] s t"
      using try_order_extends [OF t _ fee] Cons.prems(2) by (simp add: cq)
    from extends_run_trans [OF this Cons.IH [OF r]] Cons.prems(2) show ?thesis by simp
  qed
qed

end
