(* ===== verification/Plan_Scale.thy ===== *)
theory Plan_Scale
  imports Plan_Run
begin

text \<open>
  Cutting the increases to the cash that is available: exact bounds on fees and costs, and that the
  cut orders fit.
\<close>

section \<open>Scaling the increases\<close>

lemma costs_Inr: "costs cfg cqs = Inr xs \<longleftrightarrow> list_all2 (\<lambda>(c, q) x. buy_cost cfg c q = Inr x) cqs xs"
proof -
  have e: "(\<lambda>acc (c, q). try_bind (buy_cost cfg c q) (\<lambda>x. Inr (acc @ [x])))
    = (\<lambda>acc cq. try_bind (case cq of (c, q) \<Rightarrow> buy_cost cfg c q) (\<lambda>x. Inr (acc @ [x])))"
    by (auto simp: fun_eq_iff split: prod.splits)
  show ?thesis unfolding costs_def e try_fold_collect by (simp add: case_prod_unfold)
qed

lemma buy_cost_ok:
  assumes "buy_cost cfg c q = Inr x" and "cq_ok (c, q)" and "dec_ok (pc_fee_rate cfg)"
  shows "dec_ok x"
proof -
  from assms(1) obtain n f where n: "dmul q (pp_price (cd_price c)) = Inr n" and f: "fee_for n (pc_fee_rate cfg) = Inr f"
    and x: "dadd n f = Inr x" by (auto simp: buy_cost_def res_inv)
  have "dec_ok n" using dmul_ok [OF n] assms(2) by (simp add: cq_ok_def)
  with dadd_ok [OF x] fee_for_ok [OF f _ assms(3)] show ?thesis by blast
qed

lemma costs_ok:
  assumes "costs cfg cqs = Inr xs" and "list_all cq_ok cqs" and "dec_ok (pc_fee_rate cfg)"
  shows "list_all dec_ok xs"
  using assms(1,2) unfolding costs_Inr
  by (induction rule: list_all2_induct) (auto intro: buy_cost_ok [OF _ _ assms(3)])

text \<open>A scaled quantity is a size the venue accepts, not above the scaled wish, or zero.\<close>

lemma scale_qty_cases:
  assumes "scale_qty book factor (c, q) = Inr r" and "book_ok book" and "dec_ok q" and "dec_ok factor"
    and nn: "0 \<le> dval q" "0 \<le> dval factor"
  shows "r = dec_ZERO \<or> (dec_ok r \<and> 0 < dval r \<and> dval r \<le> dval q * dval factor)"
proof -
  from assms(1) obtain x y where x: "dmul q factor = Inr x" and y: "round_dp x 18 Floor = Inr y"
    and r: "(if is_zero y then Inr dec_ZERO
       else case map_option (\<lambda>r. vr_round_quantity r (mg_symbol (cd_m c)) (cd_side c) y (pp_price (cd_price c)))
                 (book_get book (mg_venue (cd_m c))) of
            Some (Inr rounded) \<Rightarrow> if dec_le rounded y then Inr rounded else Inl (VenueRoundedUp (mg_symbol (cd_m c)) y rounded)
          | _ \<Rightarrow> Inr dec_ZERO) = Inr r"
    unfolding scale_qty_def by (auto simp: res_inv)
  have xv: "dval x = floor_dp 18 (dval q * dval factor)" "dec_ok x"
    using dmul_val [OF x assms(3,4)] dmul_ok [OF x assms(3,4)] by auto
  have yok: "dec_ok y" "dscale y = 18" using round_dp_ok [OF y xv(2)] by auto
  show ?thesis
  proof (cases "r = dec_ZERO")
    case False
    with r obtain v where v: "book_get book (mg_venue (cd_m c)) = Some v"
      "vr_round_quantity v (mg_symbol (cd_m c)) (cd_side c) y (pp_price (cd_price c)) = Inr r"
      by (auto split: if_splits option.splits sum.splits)
    note k = contractD [OF book_get_contract [OF assms(2) v(1)] v(2) yok(1)]
    have "0 \<le> dunits x" unfolding dval_nonneg_iff [symmetric] xv(1) using nn by (simp add: floor_dp_nonneg)
    then have "dval y \<le> dval x" using round_dp_floor_le [OF y xv(2)] by simp
    then show ?thesis using k xv(1) floor_dp_le [of 18 "dval q * dval factor"] by auto
  qed simp
qed

lemma div_up_le:
  fixes k b :: int
  assumes "0 < b"
  shows "(k div b + of_bool (k mod b \<noteq> 0)) * b \<le> k + b - 1"
proof -
  have "k div b * b = k - k mod b" by (simp add: minus_mod_eq_div_mult)
  moreover have "k mod b = 0 \<or> 0 < k mod b" using pos_mod_sign [OF assms, of k] by linarith
  ultimately show ?thesis using assms by (auto simp: distrib_right)
qed

lemma ceil_dp_grid: "ceil_dp 8 (of_int k / 10 ^ 18) \<le> of_int k / 10 ^ 18 + 1 / 10 ^ 8 - 1 / 10 ^ 18"
proof -
  have "\<lceil>of_int k / (10::rat) ^ 18 * 10 ^ 8\<rceil> = \<lceil>of_int k / (of_int (10 ^ 10) :: rat)\<rceil>" by simp
  also have "\<dots> = k div 10 ^ 10 + of_bool (k mod 10 ^ 10 \<noteq> 0)" by (rule ceiling_div) simp
  finally have e: "ceil_dp 8 (of_int k / 10 ^ 18) = of_int (k div 10 ^ 10 + of_bool (k mod 10 ^ 10 \<noteq> 0)) / 10 ^ 8"
    by (simp add: ceil_dp_def)
  have "(k div 10 ^ 10 + of_bool (k mod 10 ^ 10 \<noteq> 0)) * 10 ^ 10 \<le> k + 10 ^ 10 - 1"
    by (rule div_up_le) simp
  then have "of_int ((k div 10 ^ 10 + of_bool (k mod 10 ^ 10 \<noteq> 0)) * 10 ^ 10) \<le> (of_int (k + 10 ^ 10 - 1) :: rat)"
    by (simp only: of_int_le_iff)
  then show ?thesis unfolding e by (simp add: field_simps)
qed

lemma fee_for_bounds:
  assumes "fee_for n r = Inr f" and ok: "dec_ok n" "dec_ok r" and n: "0 \<le> dval n" "dval n \<le> 10 ^ 20" and r: "0 \<le> dval r" "dval r < 1"
  shows "dval n * dval r - 1 / 10 ^ 18 \<le> dval f" "dval f \<le> dval n * dval r + 1 / 10 ^ 8 - 1 / 10 ^ 18" "dec_ok f" "0 \<le> dval f"
proof -
  from assms(1) obtain g where g: "dmul n r = Inr g" "round_dp g 8 Ceil = Inr f" by (auto simp: fee_for_def res_inv)
  have gv: "dval g = floor_dp 18 (dval n * dval r)" "dec_ok g" using dmul_val [OF g(1) ok] dmul_ok [OF g(1) ok] by auto
  have nr: "0 \<le> dval n * dval r" "dval n * dval r \<le> dval n" using n r mult_left_le [of "dval r" "dval n"] by simp_all
  have g0: "0 \<le> dval g" "dval g \<le> dval n * dval r" unfolding gv(1) using nr by (simp_all add: floor_dp_nonneg floor_dp_le)
  then have "dec_small g" using gv(2) nr n by (simp add: dec_small_def)
  then have f: "dval f = ceil_dp 8 (dval g)" using round_dp_small_dir(2) [OF _ g(2)] by simp
  show "dec_ok f" using round_dp_ok [OF g(2) gv(2)] by simp
  show "dval n * dval r - 1 / 10 ^ 18 \<le> dval f"
    using ceil_dp_ge [of "dval g" 8] floor_dp_gt [of "dval n * dval r" 18] unfolding f gv(1) by linarith
  show "dval f \<le> dval n * dval r + 1 / 10 ^ 8 - 1 / 10 ^ 18"
    using ceil_dp_grid [of "\<lfloor>dval n * dval r * 10 ^ 18\<rfloor>"] g0(2) unfolding f gv(1) floor_dp_def by linarith
  show "0 \<le> dval f" using ceil_dp_ge [of "dval g" 8] g0 unfolding f by linarith
qed

text \<open>The cost of one order, and of the same order scaled by a factor of at most one.\<close>

lemma buy_cost_bounds:
  assumes "buy_cost cfg c q = Inr x" and ok: "cq_ok (c, q)" "dec_ok (pc_fee_rate cfg)"
    and q: "0 \<le> dval q" and p: "0 < dval (pp_price (cd_price c))"
    and b: "dval q * dval (pp_price (cd_price c)) \<le> 10 ^ 19" and r: "0 \<le> dval (pc_fee_rate cfg)" "dval (pc_fee_rate cfg) < 1"
  defines "v \<equiv> dval q * dval (pp_price (cd_price c))" and "e \<equiv> 1 / (10::rat) ^ 18" and "ph \<equiv> dval (pc_fee_rate cfg)"
  shows "(v - e) * (1 + ph) - e \<le> dval x" "dval x \<le> v * (1 + ph) + 1 / 10 ^ 8 - e" "0 \<le> dval x" "dec_ok x"
    "dval q = 0 \<Longrightarrow> dval x = 0"
proof -
  from assms(1) obtain n f where n: "dmul q (pp_price (cd_price c)) = Inr n" and f: "fee_for n (pc_fee_rate cfg) = Inr f"
    and x: "dadd n f = Inr x" by (auto simp: buy_cost_def res_inv)
  have nv: "dval n = floor_dp 18 v" "dec_ok n" using dmul_val [OF n] dmul_ok [OF n] ok(1) by (simp_all add: cq_ok_def v_def)
  have v0: "0 \<le> v" using q p by (simp add: v_def)
  have n0: "0 \<le> dval n" "dval n \<le> v" "v - e < dval n"
    unfolding nv(1) e_def using v0 floor_dp_gt [of v 18] by (auto intro: floor_dp_nonneg floor_dp_le)
  have "dval n \<le> 10 ^ 20" using n0(2) b unfolding v_def by simp
  note fb = fee_for_bounds [OF f nv(2) ok(2) n0(1) this r]
  have xv: "dval x = dval n + dval f" using dadd_val [OF x nv(2) fb(3)] .
  show "dec_ok x" using dadd_ok [OF x nv(2) fb(3)] .
  show "0 \<le> dval x" using n0 fb xv by simp
  have "(v - e) * (1 + ph) \<le> dval n * (1 + ph)" "dval n * (1 + ph) \<le> v * (1 + ph)"
    using n0 r by (auto intro!: mult_right_mono simp: ph_def)
  then show "(v - e) * (1 + ph) - e \<le> dval x" "dval x \<le> v * (1 + ph) + 1 / 10 ^ 8 - e"
    using fb(1,2) xv unfolding e_def ph_def by (simp_all add: distrib_left)
  assume "dval q = 0"
  then have z: "dval n = 0" using n0 by (simp add: v_def)
  have "dval f = 0"
  proof -
    from f obtain g where g: "dmul n (pc_fee_rate cfg) = Inr g" "round_dp g 8 Ceil = Inr f" by (auto simp: fee_for_def res_inv)
    have "dval g = 0" "dec_ok g" using dmul_val [OF g(1) nv(2) ok(2)] dmul_ok [OF g(1) nv(2) ok(2)] z by (simp_all add: floor_dp_def)
    then show ?thesis using round_dp_small_dir(2) [OF _ g(2)] by (simp add: dec_small_def ceil_dp_def)
  qed
  with z xv show "dval x = 0" by simp
qed

lemma scaled_cost:
  assumes x: "buy_cost cfg c q = Inr x" and y: "buy_cost cfg c s = Inr y"
    and ok: "cq_ok (c, q)" "cq_ok (c, s)" "dec_ok (pc_fee_rate cfg)"
    and q: "0 \<le> dval q" "0 \<le> dval s" "dval s \<le> dval q * F" and F: "0 \<le> F" "F \<le> 1"
    and p: "0 < dval (pp_price (cd_price c))" and b: "dval q * dval (pp_price (cd_price c)) \<le> 10 ^ 19"
    and r: "0 \<le> dval (pc_fee_rate cfg)" "dval (pc_fee_rate cfg) < 1"
  shows "dval y \<le> F * dval x + (1 / 10 ^ 8 + 2 / 10 ^ 18)"
proof -
  let ?x = "dval (pp_price (cd_price c))" and ?e = "1 / (10::rat) ^ 18" and ?ph = "dval (pc_fee_rate cfg)"
  have s: "dval s * ?x \<le> F * (dval q * ?x)" using mult_right_mono [OF q(3), of ?x] p by (simp add: ac_simps)
  have "F * (dval q * ?x) \<le> dval q * ?x" using F q(1) p mult_left_le_one_le [of "dval q * ?x" F] by simp
  then have "dval s * ?x \<le> 10 ^ 19" using s b by linarith
  note cs = buy_cost_bounds [OF y ok(2,3) q(2) p this r] and cq = buy_cost_bounds [OF x ok(1,3) q(1) p b r]
  have "dval s * ?x * (1 + ?ph) \<le> F * (dval q * ?x) * (1 + ?ph)" using s r by (intro mult_right_mono) simp_all
  also have "\<dots> = F * ((dval q * ?x - ?e) * (1 + ?ph) - ?e) + F * (?e * (2 + ?ph))" by (simp add: algebra_simps)
  also have "\<dots> \<le> F * dval x + F * (?e * (2 + ?ph))" using mult_left_mono [OF cq(1) F(1)] by simp
  also have "\<dots> \<le> F * dval x + 3 * ?e" using mult_mono [OF F(2), of "?e * (2 + ?ph)" "3 * ?e"] r by simp
  finally show ?thesis using cs(2) by simp
qed

definition buys_ok :: "candidate list \<Rightarrow> bool" where
  "buys_ok buys \<longleftrightarrow> list_all (\<lambda>c. cq_ok (c, cd_qty c) \<and> 0 < dval (cd_qty c) \<and> 0 < dval (pp_price (cd_price c))) buys"

text \<open>Either nothing is scaled, or every quantity is at most the common factor of what was wished.\<close>

lemma scale_buys_cases:
  assumes "scale_buys book cfg av buys = Inr qs" and b: "buys_ok buys" and ok: "book_ok book" "dec_ok av" "dec_ok (pc_fee_rate cfg)"
  obtains (Fits) xs where "qs = map cd_qty buys" "costs cfg (map (\<lambda>c. (c, cd_qty c)) buys) = Inr xs"
      "(\<Sum>x\<leftarrow>xs. dval x) \<le> dval av"
  | (Empty) "buys = []" "qs = []"
  | (Scaled) xs F where "costs cfg (map (\<lambda>c. (c, cd_qty c)) buys) = Inr xs" "0 \<le> F" "F \<le> 1"
      "F * (\<Sum>x\<leftarrow>xs. dval x) \<le> max 0 (dval av - of_nat (length buys) / 10 ^ 8)" "F = 0 \<or> 0 < dval av - of_nat (length buys) / 10 ^ 8"
      "list_all2 (\<lambda>c q. dec_ok q \<and> 0 \<le> dval q \<and> dval q \<le> dval (cd_qty c) * F) buys qs"
proof (cases "buys = []")
  case True
  then show thesis using assms(1) Empty by (simp add: scale_buys_def)
next
  case False
  let ?cqs = "map (\<lambda>c. (c, cd_qty c)) buys"
  from assms(1) False obtain xs total where xs: "costs cfg ?cqs = Inr xs" and total: "dsum xs = Inr total"
    by (auto simp: scale_buys_def Let_def res_inv)
  have xok: "list_all dec_ok xs" using costs_ok [OF xs _ ok(3)] b by (auto simp: buys_ok_def list_all_iff)
  have tv: "dval total = (\<Sum>x\<leftarrow>xs. dval x)" "dec_ok total" using dsum_val [OF total xok] dsum_ok [OF total xok] by auto
  show thesis
  proof (cases "dec_lt av total")
    case le: False
    then have "qs = map cd_qty buys" using assms(1) False xs total by (simp add: scale_buys_def Let_def)
    moreover have "dval total \<le> dval av" using not_dec_lt [OF le ok(2) tv(2)] .
    ultimately show thesis using Fits [OF _ xs] tv(1) by simp
  next
    case lt: True
    from assms(1) False xs total lt obtain u slack usable factor where
      u: "dec_new 1 8 = Inr u" and sl: "dmul u (from_i64 (int (length buys))) = Inr slack" and us: "dsub av slack = Inr usable"
      and fa: "(if is_positive usable then plan_math (div_floor usable total 18) else Inr dec_ZERO) = Inr factor"
      and qs: "list_all2 (\<lambda>cq q. scale_qty book factor cq = Inr q) ?cqs qs"
      by (auto simp: scale_buys_def Let_def res_inv)
    have sv: "dval slack = of_nat (length buys) / 10 ^ 8"
      using u sl by (auto simp: dec_new_def MAX_SCALE_def dmul_def checked_mul_def from_i64_def res_inv dval_def Let_def split: option.splits if_splits)
    have uv: "dval usable = dval av - of_nat (length buys) / 10 ^ 8" "dec_ok usable"
      using dsub_val [OF us ok(2)] dsub_ok [OF us ok(2)] sv by auto
    have avt: "dval av < dval total" using lt ok(2) tv(2) by (simp add: dec_order)
    have F: "0 \<le> dval factor \<and> dval factor \<le> 1 \<and> dec_ok factor \<and> dval factor * dval total \<le> max 0 (dval usable)
        \<and> (dval factor = 0 \<or> 0 < dval usable)"
    proof (cases "is_positive usable")
      case True
      with fa have d: "div_floor usable total 18 = Inr factor" by (simp add: res_inv)
      note s = div_floor_spec [OF d uv(2) tv(2)] and l = div_floor_le [OF d uv(2) tv(2)]
      have p: "0 < dval usable" using True by (simp add: dval_sign)
      have "dval usable / dval total \<le> 1" using avt uv(1) s by (simp add: divide_le_eq)
      then have "dval factor \<le> 1" using s floor_dp_le [of 18 "dval usable / dval total"] by linarith
      moreover have "0 \<le> dval factor" using s p by (simp add: floor_dp_nonneg)
      ultimately show ?thesis using l p by simp
    qed (use fa in simp)
    have "list_all2 (\<lambda>c q. dec_ok q \<and> 0 \<le> dval q \<and> dval q \<le> dval (cd_qty c) * dval factor) buys qs"
      using qs b unfolding list_all2_map1
    proof (induction rule: list_all2_induct)
      case (Cons c cs q qs)
      have c: "dec_ok (cd_qty c)" "0 < dval (cd_qty c)" using Cons.prems by (auto simp: buys_ok_def cq_ok_def)
      have "0 \<le> dval (cd_qty c) * dval factor" using c F by simp
      with scale_qty_cases [OF Cons.hyps(1) ok(1) c(1)] c F Cons show ?case by (auto simp: buys_ok_def)
    qed simp
    with Scaled [OF xs] F tv(1) uv(1) show thesis by auto
  qed
qed

text \<open>
  Cutting the increases to the available cash works: no quantity grows, and the notionals and
  fees of the cut orders together exceed the available amount by at most \<open>2 * 10^-18\<close> per order
  (nothing is bought when nothing is available).
\<close>

theorem scale_buys_fits:
  assumes s: "scale_buys book cfg av buys = Inr qs" and b: "buys_ok buys"
    and ok: "book_ok book" "dec_ok av" "dec_ok (pc_fee_rate cfg)"
    and r: "0 \<le> dval (pc_fee_rate cfg)" "dval (pc_fee_rate cfg) < 1"
    and small: "list_all (\<lambda>c. dval (cd_qty c) * dval (pp_price (cd_price c)) \<le> 10 ^ 19) buys"
    and cs: "costs cfg (zip buys qs) = Inr cs"
  shows "list_all2 (\<lambda>c q. 0 \<le> dval q \<and> dval q \<le> dval (cd_qty c)) buys qs
    \<and> (\<Sum>x\<leftarrow>cs. dval x) \<le> max 0 (dval av) + of_nat (length buys) * (2 / 10 ^ 18)"
  using s b ok
proof (cases rule: scale_buys_cases)
  case (Fits xs)
  have "zip buys qs = map (\<lambda>c. (c, cd_qty c)) buys" unfolding Fits(1) by (induction buys) simp_all
  then have "cs = xs" using cs Fits(2) by simp
  moreover have "list_all2 (\<lambda>c q. 0 \<le> dval q \<and> dval q \<le> dval (cd_qty c)) buys qs"
    using b unfolding Fits(1) by (induction buys) (auto simp: buys_ok_def)
  ultimately show ?thesis using Fits(3) by (auto simp: add_increasing2)
next
  case Empty
  then show ?thesis using cs by (simp add: costs_def)
next
  case (Scaled xs F)
  define D where "D = 1 / 10 ^ 8 + 2 / (10::rat) ^ 18"
  have le: "list_all2 (\<lambda>c q. 0 \<le> dval q \<and> dval q \<le> dval (cd_qty c)) buys qs"
    using Scaled(6) b
  proof (induction rule: list_all2_induct)
    case (Cons c cs q qs)
    have f: "dval (cd_qty c) * F \<le> dval (cd_qty c)"
      using Scaled(2,3) Cons.prems by (intro mult_right_le_one_le) (auto simp: buys_ok_def)
    have "dval q \<le> dval (cd_qty c)" by (rule order_trans [OF _ f]) (use Cons.hyps(1) in simp)
    with Cons show ?case by (auto simp: buys_ok_def)
  qed simp
  have len: "length qs = length buys" using Scaled(6) by (simp add: list_all2_lengthD)
  have "(\<Sum>x\<leftarrow>cs. dval x) \<le> F * (\<Sum>x\<leftarrow>xs. dval x) + (if F = 0 then 0 else of_nat (length buys) * D)"
    using Scaled(6) Scaled(1)[unfolded costs_Inr] cs[unfolded costs_Inr] b small
  proof (induction arbitrary: xs cs rule: list_all2_induct)
    case (Cons c buys q qs)
    from Cons.prems obtain x xs' y cs' where x: "xs = x # xs'" "cs = y # cs'"
      "buy_cost cfg c (cd_qty c) = Inr x" "buy_cost cfg c q = Inr y" by (auto simp: list_all2_Cons1)
    have ok1: "cq_ok (c, cd_qty c)" "cq_ok (c, q)" "0 < dval (cd_qty c)" "0 < dval (pp_price (cd_price c))"
      "dval (cd_qty c) * dval (pp_price (cd_price c)) \<le> 10 ^ 19"
      using Cons.prems(3,4) Cons.hyps(1) by (auto simp: buys_ok_def cq_ok_def)
    have q: "0 \<le> dval q" "dval q \<le> dval (cd_qty c) * F" using Cons.hyps(1) by auto
    have "dval y \<le> F * dval x + D"
      using scaled_cost [OF x(3,4) ok1(1,2) ok(3) _ q Scaled(2,3) ok1(4,5) r] ok1(3) by (simp add: D_def)
    moreover have "dval y = 0" if "F = 0"
      using buy_cost_bounds(5) [OF x(4) ok1(2) ok(3) q(1) ok1(4) _ r] q that by simp
    moreover have "(\<Sum>x\<leftarrow>cs'. dval x) \<le> F * (\<Sum>x\<leftarrow>xs'. dval x) + (if F = 0 then 0 else of_nat (length buys) * D)"
      using Cons.prems by (intro Cons.IH) (auto simp: x(1,2) buys_ok_def)
    ultimately show ?case by (simp add: x(1,2) distrib_left distrib_right split: if_splits)
  qed simp
  also have "\<dots> \<le> max 0 (dval av) + of_nat (length buys) * (2 / 10 ^ 18)"
    using Scaled(4,5) by (auto simp: D_def max_def distrib_left split: if_splits)
  finally show ?thesis using le by blast
qed

end
