(* ===== verification/Planner_Props.thy ===== *)
theory Planner_Props
  imports Plan_Scale
begin

text \<open>
  The properties of a whole plan, from its parts (\<open>plan_parts\<close>), with a small plan of two orders as
  the example the properties are applied to.
\<close>

section \<open>The parts of a plan\<close>

abbreviation keyed_prices :: "(string, price_point) btree_map \<Rightarrow> (string, price_point) btree_map" where
  "keyed_prices m \<equiv> foldl (\<lambda>m (k, v). btm_insert (key k) v m) [] m"

abbreviation open_ok :: "string btree_set \<Rightarrow> candidate \<Rightarrow> bool" where
  "open_ok cld c \<equiv> \<not> (cd_leg c = OpenLeg \<and> mg_symbol (cd_m c) \<notin> set cld)"

definition plan_parts ::
    "plan_env \<Rightarrow> sleeve_target list \<Rightarrow> account_view \<Rightarrow> (string, price_point) btree_map \<Rightarrow> venue_rule_book \<Rightarrow> policy \<Rightarrow> plan_config
      \<Rightarrow> order_plan \<Rightarrow> (string, managed) btree_map \<Rightarrow> position list \<Rightarrow> candidate_set \<Rightarrow> plan_state \<Rightarrow> plan_state \<Rightarrow> string btree_set
      \<Rightarrow> plan_state \<Rightarrow> dec \<Rightarrow> candidate list \<Rightarrow> dec list \<Rightarrow> bool" where
  "plan_parts pe targets a prices book p cfg pl mgd sp cs s0 s1 cld s2 available buys qtys \<longleftrightarrow>
     validate targets a cfg = Inr () \<and> aggregate targets cfg = Inr mgd
     \<and> revalue_all (keyed_prices prices) (av_positions a) = Inr sp
     \<and> collect_candidates a (keyed_prices prices) book cfg (capital_base p (av_equity a) (av_ccy a)) (map snd mgd) = Inr cs
     \<and> (\<exists>bp. s0 = \<lparr>ps_sim = a\<lparr>av_positions := sp\<rparr>, ps_day = pc_day cfg, ps_orders = [], ps_denied = [],
           ps_bp_left = bp, ps_margin_tags = []\<rparr>)
     \<and> place_reducers pe p book cfg (av_account_id a) (sort_key by_venue_symbol (cs_reducers cs)) s0 = Inr (s1, cld)
     \<and> buys = filter (open_ok cld) (sort_key by_venue_symbol (cs_increasers cs))
     \<and> (\<exists>reserve. reserve_amount p (capital_base p (av_equity a) (av_ccy a)) = Inr reserve
          \<and> dsub (plan_budget cfg a (ps_sim s1)) reserve = Inr available)
     \<and> scale_buys book cfg available buys = Inr qtys
     \<and> (\<exists>sk0 sk. place_buys pe p book cfg (av_account_id a) available (zip buys qtys) (s1, sk0) = Inr (s2, sk))
     \<and> check_tags (map pl_tag (ps_orders s2) @ map (\<lambda>d. pl_tag (dn_order d)) (ps_denied s2)) [] = Inr ()
     \<and> op_orders pl = ps_orders s2 \<and> op_denied pl = ps_denied s2 \<and> op_lines pl = cs_lines cs"

lemma make_plan_parts:
  assumes "make_plan pe targets a prices book p cfg = Inr pl"
  shows "\<exists>mgd sp cs s0 s1 cld s2 available buys qtys.
    plan_parts pe targets a prices book p cfg pl mgd sp cs s0 s1 cld s2 available buys qtys"
proof -
  from assms obtain mgd sp cs margin where
    m: "validate targets a cfg = Inr ()" "aggregate targets cfg = Inr mgd"
      "revalue_all (keyed_prices prices) (av_positions a) = Inr sp"
      "collect_candidates a (keyed_prices prices) book cfg (capital_base p (av_equity a) (av_ccy a)) (map snd mgd) = Inr cs"
      "margin_check p cfg (av_equity a) (capital_base p (av_equity a) (av_ccy a)) sp (cs_lines cs) = Inr margin"
    unfolding make_plan_def Let_def try_bind_Inr map_err_Inr by auto
  let ?s0 = "\<lparr>ps_sim = a\<lparr>av_positions := sp\<rparr>, ps_day = pc_day cfg, ps_orders = [], ps_denied = [],
    ps_bp_left = mr_buying_power_left margin, ps_margin_tags = []\<rparr>"
  from assms m obtain s1 cld reserve available where
    r: "place_reducers pe p book cfg (av_account_id a) (sort_key by_venue_symbol (cs_reducers cs)) ?s0 = Inr (s1, cld)"
      "reserve_amount p (capital_base p (av_equity a) (av_ccy a)) = Inr reserve"
      "dsub (plan_budget cfg a (ps_sim s1)) reserve = Inr available"
    unfolding make_plan_def Let_def by (auto simp: try_bind_Inr map_err_Inr)
  let ?inc = "sort_key by_venue_symbol (cs_increasers cs)"
  from assms m r obtain qtys s2 sk where
    q: "scale_buys book cfg available (filter (open_ok cld) ?inc) = Inr qtys"
      "place_buys pe p book cfg (av_account_id a) available (zip (filter (open_ok cld) ?inc) qtys)
         (s1, cs_skipped cs @ map (\<lambda>c. skip_of (cd_m c) FlipCloseLegNotPlaced) (filter (\<lambda>c. \<not> open_ok cld c) ?inc)) = Inr (s2, sk)"
      "check_tags (map pl_tag (ps_orders s2) @ map (\<lambda>d. pl_tag (dn_order d)) (ps_denied s2)) [] = Inr ()"
      "op_orders pl = ps_orders s2" "op_denied pl = ps_denied s2" "op_lines pl = cs_lines cs"
    unfolding make_plan_def Let_def by (auto simp: try_bind_Inr map_err_Inr)
  from m r q have "plan_parts pe targets a prices book p cfg pl mgd sp cs ?s0 s1 cld s2 available (filter (open_ok cld) ?inc) qtys"
    unfolding plan_parts_def by blast
  then show ?thesis by blast
qed

lemma revalue_all_ok:
  assumes "revalue_all prices ps = Inr sp" and "prices_ok prices"
    and "list_all (\<lambda>p. dec_ok (pos_quantity p) \<and> dec_ok (pos_market_value p)) ps"
  shows "list_all (\<lambda>p. dec_ok (pos_quantity p) \<and> dec_ok (pos_market_value p)) sp
    \<and> list_all2 (\<lambda>q r. pos_symbol r = pos_symbol q \<and> pos_quantity r = pos_quantity q) ps sp"
proof -
  have "list_all2 (\<lambda>q r. revalue prices q = Inr r) ps sp"
    using assms(1) unfolding revalue_all_def try_fold_collect by simp
  then show ?thesis using assms(3)
  proof (induction rule: list_all2_induct)
    case (Cons q ps r sp)
    have "dec_ok (pos_quantity r) \<and> dec_ok (pos_market_value r) \<and> pos_symbol r = pos_symbol q \<and> pos_quantity r = pos_quantity q"
    using Cons.hyps(1) Cons.prems prices_ok_get [OF assms(2)]
    by (auto simp: revalue_def res_inv intro: dmul_ok split: option.splits)
    with Cons show ?case by simp
  qed simp
qed

lemma reserve_amount_ok: "reserve_amount p b = Inr r \<Longrightarrow> policy_ok p \<Longrightarrow> dec_ok b \<Longrightarrow> dec_ok r"
  by (auto simp: reserve_amount_def policy_ok_def res_inv split: option.splits
      dest!: round_dp_ok intro: dmul_ok dest: limits_okD)


section \<open>Runs keep the account well formed\<close>

definition pos_dec_ok :: "position \<Rightarrow> bool" where
  "pos_dec_ok p \<longleftrightarrow> dec_ok (pos_quantity p) \<and> dec_ok (pos_market_value p)"

lemma account_ok_iff: "account_ok a \<longleftrightarrow> dec_ok (av_equity a) \<and> dec_ok (av_cash a) \<and> list_all pos_dec_ok (av_positions a)"
  by (simp add: account_ok_def pos_dec_ok_def [abs_def])

lemma apply_position_ok:
  assumes "apply_position sy fresh q v ps = Inr ps'" and "list_all pos_dec_ok ps" and "pos_dec_ok fresh" and "dec_ok q" and "dec_ok v"
  shows "list_all pos_dec_ok ps'"
  using assms(1,2)
proof (induction ps arbitrary: ps')
  case Nil
  then show ?case using assms(3) by auto
next
  case (Cons p ps)
  show ?case
  proof (cases "eq_ignore_case (pos_symbol p) sy")
    case True
    with Cons.prems(1) obtain q' v' where "dadd (pos_quantity p) q = Inr q'" "dadd (pos_market_value p) v = Inr v'"
      and ps': "ps' = p\<lparr>pos_quantity := q', pos_market_value := v'\<rparr> # ps" by (auto simp: res_inv)
    then have "dec_ok q'" "dec_ok v'"
      using dadd_ok [of "pos_quantity p" q q'] dadd_ok [of "pos_market_value p" v v'] Cons.prems(2) assms(4,5)
      by (auto simp: pos_dec_ok_def)
    then show ?thesis using ps' Cons.prems(2) by (simp add: pos_dec_ok_def)
  next
    case False
    with Cons show ?thesis by (auto simp: res_inv)
  qed
qed

lemma apply_position_nonneg:
  assumes "apply_position sy fresh q v ps = Inr ps'" and "list_all pos_dec_ok ps" and "list_all (\<lambda>p. 0 \<le> dval (pos_quantity p)) ps"
    and "dec_ok q" and "pos_quantity fresh = q"
    and "0 \<le> dval q + (case find (\<lambda>p. eq_ignore_case (pos_symbol p) sy) ps of Some p \<Rightarrow> dval (pos_quantity p) | None \<Rightarrow> 0)"
  shows "list_all (\<lambda>p. 0 \<le> dval (pos_quantity p)) ps'"
  using assms(1-3,6)
proof (induction ps arbitrary: ps')
  case Nil
  then show ?case using assms(5) by auto
next
  case (Cons p ps)
  show ?case
  proof (cases "eq_ignore_case (pos_symbol p) sy")
    case True
    with Cons.prems(1) obtain q' v' where "dadd (pos_quantity p) q = Inr q'"
      and ps': "ps' = p\<lparr>pos_quantity := q', pos_market_value := v'\<rparr> # ps" by (auto simp: res_inv)
    then have "dval q' = dval (pos_quantity p) + dval q"
      using dadd_val [of "pos_quantity p" q q'] Cons.prems(2) assms(4) by (simp add: pos_dec_ok_def)
    then show ?thesis using ps' True Cons.prems(3,4) by simp
  next
    case False
    with Cons show ?thesis by (auto simp: res_inv)
  qed
qed

lemma apply_order_inv:
  assumes "apply_order sim day m sd q x f = Inr (sim', day')"
  obtains n sq sv ps c1 cash t where "dmul q x = Inr n" "signed_by_side sd q = Inr sq" "signed_by_side sd n = Inr sv"
    "apply_position (mg_symbol m) \<lparr>pos_symbol = mg_symbol m, pos_venue = mg_venue m, pos_asset_class = mg_asset_class m,
       pos_quantity = sq, pos_market_value = sv\<rparr> sq sv (av_positions sim) = Inr ps"
    "dsub (av_cash sim) sv = Inr c1" "dsub c1 f = Inr cash" "dadd (dc_turnover_today day) n = Inr t"
    "sim' = sim\<lparr>av_positions := ps, av_cash := cash\<rparr>" "dc_turnover_today day' = t"
  using assms unfolding apply_order_def by (auto simp: res_inv)

lemma apply_order_ok:
  assumes "apply_order sim day m sd q x f = Inr (sim', day')" and ok: "account_ok sim" "dec_ok q" "dec_ok x" "dec_ok f"
    and d: "dec_ok (dc_turnover_today day)"
  shows "account_ok sim' \<and> dec_ok (dc_turnover_today day')"
  using assms(1)
proof (cases rule: apply_order_inv)
  case (1 n sq sv ps c1 cash t)
  have n: "dec_ok n" using dmul_ok [OF 1(1) ok(2,3)] .
  have "dec_ok sq" "dec_ok sv" using signed_by_side_val(2) [OF 1(2) ok(2)] signed_by_side_val(2) [OF 1(3) n] .
  moreover have "dec_ok cash" using dsub_ok [OF 1(6) dsub_ok [OF 1(5)]] ok(1) by (simp add: account_ok_iff)
  moreover have "dec_ok t" using dadd_ok [OF 1(7) d n] .
  ultimately show ?thesis using apply_position_ok [OF 1(4)] ok(1) 1(8,9) by (simp add: account_ok_iff pos_dec_ok_def)
qed

lemma guarded_run_ok:
  assumes "guarded_run p book cfg s os t" and "account_ok (fst s)" and "dec_ok (dc_turnover_today (snd s))"
  shows "account_ok (fst t) \<and> dec_ok (dc_turnover_today (snd t))"
  using assms
proof (induction rule: guarded_run.induct)
  case (run_snoc os a d o1 pt um bp t)
  obtain a' d' where t: "t = (a', d')" by (cases t)
  have "dec_ok (pl_quantity o1)" "dec_ok (pl_est_fee o1)" "dec_ok (pl_price o1)"
    using run_snoc.hyps(3,4) by (auto simp: order_ok_def proposal_def)
  with apply_order_ok [of a d _ _ _ _ _ a' d'] run_snoc show ?case by (auto simp: t)
qed auto

section \<open>Shorting\<close>

lemma allow_no_short:
  assumes allow: "v_allow (guard_run p a o1 d s)" and l: "policy_limits p = Some l" "\<not> l_shorting l" and sell: "po_side o1 = Sell"
    and ok: "account_ok a" "order_ok o1"
  shows "0 < dval (po_quantity o1) \<and> dval (po_quantity o1) \<le> dval (position_qty a o1)"
proof -
  from check_inner_ok [OF allow [unfolded guard_allow_iff]] l have
    q: "is_positive (po_quantity o1)" and c: "check_order p l (policy_standing p (av_now a) = StExpired) a o1 d s = ([], Inr ())"
    by auto
  from check_order_ok [OF c] have sh: "check_short l (map_option snd s) (order_rule s o1) (position_qty a o1) o1 = ([], Inr ())"
    by blast
  let ?h = "if is_positive (position_qty a o1) then position_qty a o1 else dec_ZERO"
  have "\<not> dec_lt ?h (po_quantity o1)" using sh l(2) sell by (auto simp: check_short_def Let_def deny_if_ok)
  moreover have "dec_ok (position_qty a o1)" "dec_ok (po_quantity o1)"
    using ok position_qty_ok by (auto simp: order_ok_def)
  ultimately have "dval (po_quantity o1) \<le> dval ?h" by (intro not_dec_lt) simp_all
  with q show ?thesis by (auto simp: dval_sign split: if_splits)
qed

lemma guarded_run_nonneg:
  assumes "guarded_run p book cfg s os t" and "policy_limits p = Some l" and "\<not> l_shorting l"
    and "account_ok (fst s)" and "dec_ok (dc_turnover_today (snd s))"
    and "list_all (\<lambda>q. 0 \<le> dval (pos_quantity q)) (av_positions (fst s))"
  shows "list_all (\<lambda>q. 0 \<le> dval (pos_quantity q)) (av_positions (fst t))"
  using assms
proof (induction rule: guarded_run.induct)
  case (run_snoc os a d o1 pt um bp t)
  obtain a' d' where t: "t = (a', d')" by (cases t)
  have a: "account_ok a" using guarded_run_ok [OF run_snoc.hyps(1) run_snoc.prems(3,4)] by simp
  have nn: "list_all (\<lambda>q. 0 \<le> dval (pos_quantity q)) (av_positions a)" using run_snoc by simp
  let ?o = "proposal o1 pt um"
  have f: "po_quantity ?o = pl_quantity o1" "po_side ?o = pl_side o1" "po_symbol ?o = pl_symbol o1" by (simp_all add: proposal_def)
  have q: "dec_ok (pl_quantity o1)" using run_snoc.hyps(4) f by (simp add: order_ok_def)
  from run_snoc.hyps(7)[unfolded t] show ?case
  proof (cases rule: apply_order_inv)
    case (1 n sq sv ps c1 cash tt)
    note sv = signed_by_side_val [OF 1(2) q]
    have pos: "0 < dval (pl_quantity o1)"
      using check_inner_ok [OF run_snoc.hyps(2)[unfolded guard_allow_iff]] f by (auto simp: dval_sign)
    have held: "dval (position_qty a ?o) = (case find (\<lambda>p. eq_ignore_case (pos_symbol p) (pl_symbol o1)) (av_positions a) of
        Some p \<Rightarrow> dval (pos_quantity p) | None \<Rightarrow> 0)"
      by (simp add: position_qty_def account_position_def f split: option.split)
    have h0: "0 \<le> dval (position_qty a ?o)"
      unfolding held using nn by (auto simp: list_all_iff dest!: find_Some_mem split: option.split)
    have "0 \<le> dval sq + dval (position_qty a ?o)"
      using allow_no_short [OF run_snoc.hyps(2) run_snoc.prems(1,2) _ a run_snoc.hyps(4)] f sv(1) h0 pos
      by (cases "pl_side o1") (auto simp: signed_val_def)
    then have "list_all (\<lambda>q. 0 \<le> dval (pos_quantity q)) ps"
      using apply_position_nonneg [OF 1(4) _ nn sv(2)] a unfolding held by (simp add: account_ok_iff order_managed_def)
    then show ?thesis using 1(8) by (simp add: t)
  qed
qed auto


section \<open>What the parts of a plan give\<close>

definition start :: "account_view \<Rightarrow> position list \<Rightarrow> plan_config \<Rightarrow> account_view \<times> day_counters" where
  "start a sp cfg = (a\<lparr>av_positions := sp\<rparr>, pc_day cfg)"

lemma start_ok:
  assumes "inputs_ok targets a prices book p cfg" and "revalue_all (keyed_prices prices) (av_positions a) = Inr sp"
  shows "account_ok (fst (start a sp cfg))" "dec_ok (dc_turnover_today (snd (start a sp cfg)))"
    "list_all2 (\<lambda>q r. pos_symbol r = pos_symbol q \<and> pos_quantity r = pos_quantity q) (av_positions a) sp"
proof -
  have p: "prices_ok (keyed_prices prices)" using assms(1) by (intro prices_ok_keyed) (simp_all add: inputs_ok_def prices_ok_def)
  note r = revalue_all_ok [OF assms(2) p]
  show "account_ok (fst (start a sp cfg))" "dec_ok (dc_turnover_today (snd (start a sp cfg)))"
    "list_all2 (\<lambda>q r. pos_symbol r = pos_symbol q \<and> pos_quantity r = pos_quantity q) (av_positions a) sp"
    using r assms(1) by (auto simp: start_def account_ok_def inputs_ok_def config_ok_def)
qed

lemma plan_budget_ok:
  assumes "account_ok a" and "account_ok sim" and "config_ok cfg"
  shows "dec_ok (plan_budget cfg a sim)"
  using assms by (auto simp: plan_budget_def account_ok_def intro: dec_ok_min dest: config_okD(6) split: option.splits bool.splits)

lemma reduce_phase:
  assumes ok: "inputs_ok targets a prices book p cfg"
    and P: "aggregate targets cfg = Inr mgd" "revalue_all (keyed_prices prices) (av_positions a) = Inr sp"
      "collect_candidates a (keyed_prices prices) book cfg (capital_base p (av_equity a) (av_ccy a)) (map snd mgd) = Inr cs"
      "place_reducers pe p book cfg (av_account_id a) (sort_key by_venue_symbol (cs_reducers cs)) s0 = Inr (s1, cld)"
    and S: "ps_orders s0 = []" "(ps_sim s0, ps_day s0) = start a sp cfg"
  shows "cands_from a (map snd mgd) cs"
    "extends_run pe p book cfg (av_account_id a) (map (\<lambda>c. (c, cd_qty c)) (sort_key by_venue_symbol (cs_reducers cs))) s0 s1"
    "guarded_run p book cfg (start a sp cfg) (ps_orders s1) (ps_sim s1, ps_day s1)" "account_ok (ps_sim s1)"
    "buys_ok (filter (open_ok cld) (sort_key by_venue_symbol (cs_increasers cs)))"
proof -
  have i: "list_all target_ok targets" "account_ok a" "prices_ok prices" "book_ok book" "policy_ok p" "config_ok cfg"
    using ok by (auto simp: inputs_ok_def)
  have pr: "prices_ok (keyed_prices prices)" using i(3) by (intro prices_ok_keyed) (simp_all add: prices_ok_def)
  have bok: "dec_ok (capital_base p (av_equity a) (av_ccy a))" using i by (intro capital_base_ok) (auto simp: account_ok_def)
  have mw: "list_all (\<lambda>m. dec_ok (mg_weight m)) (map snd mgd)"
    using aggregate_ok [OF P(1) i(1)] by (auto simp: managed_ok_def list_all_iff)
  show cf: "cands_from a (map snd mgd) cs" using collect_candidates_from [OF P(3) i(2) pr i(4) bok mw i(6)] .
  show red: "extends_run pe p book cfg (av_account_id a) (map (\<lambda>c. (c, cd_qty c)) (sort_key by_venue_symbol (cs_reducers cs))) s0 s1"
    using cf by (intro place_reducers_extends [OF P(4) _ config_okD(4) [OF i(6)]])
      (auto simp: cands_from_def cand_ok_def cq_ok_def list_all_iff)
  have "guarded_run p book cfg (start a sp cfg) (ps_orders s0) (ps_sim s0, ps_day s0)" unfolding S by (rule run_nil)
  then show g1: "guarded_run p book cfg (start a sp cfg) (ps_orders s1) (ps_sim s1, ps_day s1)"
    using red unfolding extends_run_def by blast
  show "account_ok (ps_sim s1)" using guarded_run_ok [OF g1 start_ok(1,2) [OF ok P(2)]] by simp
  show "buys_ok (filter (open_ok cld) (sort_key by_venue_symbol (cs_increasers cs)))"
    using cf by (auto simp: buys_ok_def cands_from_def cand_ok_def cq_ok_def list_all_iff)
qed

lemma available_ok:
  assumes "inputs_ok targets a prices book p cfg" and "account_ok sim" and "dsub (plan_budget cfg a sim) reserve = Inr available"
  shows "dec_ok available"
  using dsub_ok [OF assms(3) plan_budget_ok] assms(1,2) by (simp add: inputs_ok_def)

lemma scaled_ok:
  assumes "scale_buys book cfg available buys = Inr qtys" and b: "buys_ok buys" and ok: "book_ok book" "dec_ok available" "dec_ok (pc_fee_rate cfg)"
  shows "list_all cq_ok (zip buys qtys)"
proof -
  have "list_all2 (\<lambda>c q. dec_ok q) buys qtys"
    using assms(1) b ok
  proof (cases rule: scale_buys_cases)
    case (Fits xs)
    show ?thesis unfolding Fits(1) using b by (induction buys) (auto simp: buys_ok_def cq_ok_def)
  qed (auto elim: list_all2_mono)
  then show ?thesis using b by (induction rule: list_all2_induct) (auto simp: buys_ok_def cq_ok_def)
qed

lemma plan_parts_ok:
  assumes parts: "plan_parts pe targets a prices book p cfg pl mgd sp cs s0 s1 cld s2 available buys qtys"
    and ok: "inputs_ok targets a prices book p cfg"
  shows "cands_from a (map snd mgd) cs"
    "extends_run pe p book cfg (av_account_id a) (map (\<lambda>c. (c, cd_qty c)) (sort_key by_venue_symbol (cs_reducers cs))) s0 s1"
    "extends_run pe p book cfg (av_account_id a) (zip buys qtys) s1 s2"
    "guarded_run p book cfg (start a sp cfg) (op_orders pl) (ps_sim s2, ps_day s2)"
proof -
  have i: "book_ok book" "config_ok cfg" using ok by (auto simp: inputs_ok_def)
  have P: "aggregate targets cfg = Inr mgd" "revalue_all (keyed_prices prices) (av_positions a) = Inr sp"
    "collect_candidates a (keyed_prices prices) book cfg (capital_base p (av_equity a) (av_ccy a)) (map snd mgd) = Inr cs"
    "place_reducers pe p book cfg (av_account_id a) (sort_key by_venue_symbol (cs_reducers cs)) s0 = Inr (s1, cld)"
    "ps_orders s0 = []" "(ps_sim s0, ps_day s0) = start a sp cfg"
    and B: "buys = filter (open_ok cld) (sort_key by_venue_symbol (cs_increasers cs))"
    "scale_buys book cfg available buys = Inr qtys" "op_orders pl = ps_orders s2"
    using parts by (auto simp: plan_parts_def start_def)
  obtain sk0 sk reserve where place: "place_buys pe p book cfg (av_account_id a) available (zip buys qtys) (s1, sk0) = Inr (s2, sk)"
    and av: "dsub (plan_budget cfg a (ps_sim s1)) reserve = Inr available"
    using parts by (auto simp: plan_parts_def)
  note red = reduce_phase [OF ok P]
  show "cands_from a (map snd mgd) cs"
    "extends_run pe p book cfg (av_account_id a) (map (\<lambda>c. (c, cd_qty c)) (sort_key by_venue_symbol (cs_reducers cs))) s0 s1"
    using red by auto
  have "list_all cq_ok (zip buys qtys)"
    using scaled_ok [OF B(2)] red(5) available_ok [OF ok red(4) av] i config_okD(4) B(1) by simp
  then show "extends_run pe p book cfg (av_account_id a) (zip buys qtys) s1 s2"
    using place_buys_extends [OF place] config_okD(4) [OF i(2)] by simp
  then show "guarded_run p book cfg (start a sp cfg) (op_orders pl) (ps_sim s2, ps_day s2)"
    using red(3) unfolding B(3) extends_run_def by blast
qed

text \<open>
  C5: the orders of a plan form a guarded run: each is well formed, allowed by the guard on the
  simulated account as the orders before it left it (positions revalued at the plan's prices, cash,
  day counters), carries the notional and fee computed from its own quantity and price, and is
  applied to that account before the next.
\<close>

theorem plan_is_guarded_run:
  assumes "make_plan pe targets a prices book p cfg = Inr pl" and "inputs_ok targets a prices book p cfg"
  shows "\<exists>sp t. revalue_all (keyed_prices prices) (av_positions a) = Inr sp
    \<and> guarded_run p book cfg (start a sp cfg) (op_orders pl) t"
proof -
  from make_plan_parts [OF assms(1)] obtain mgd sp cs s0 s1 cld s2 available buys qtys where
    P: "plan_parts pe targets a prices book p cfg pl mgd sp cs s0 s1 cld s2 available buys qtys" by blast
  from plan_parts_ok(4) [OF P assms(2)] P show ?thesis unfolding plan_parts_def by blast
qed

text \<open>
  C22: under a mandate without shorting a plan never leads to a short position: if every position
  held is non-negative, then after any prefix of the plan's orders every position of the simulated
  account is non-negative.
\<close>

theorem plan_never_opens_short:
  assumes "make_plan pe targets a prices book p cfg = Inr pl" and "inputs_ok targets a prices book p cfg"
    and "policy_limits p = Some l" and "\<not> l_shorting l"
    and "list_all (\<lambda>q. 0 \<le> dval (pos_quantity q)) (av_positions a)" and "op_orders pl = xs @ ys"
  shows "\<exists>sp t. revalue_all (keyed_prices prices) (av_positions a) = Inr sp
    \<and> guarded_run p book cfg (start a sp cfg) xs t \<and> list_all (\<lambda>q. 0 \<le> dval (pos_quantity q)) (av_positions (fst t))"
proof -
  from make_plan_parts [OF assms(1)] obtain mgd sp cs s0 s1 cld s2 available buys qtys where
    P: "plan_parts pe targets a prices book p cfg pl mgd sp cs s0 s1 cld s2 available buys qtys" by blast
  then have sp: "revalue_all (keyed_prices prices) (av_positions a) = Inr sp" by (simp add: plan_parts_def)
  note st = start_ok [OF assms(2) sp]
  obtain t where t: "guarded_run p book cfg (start a sp cfg) xs t"
    using guarded_run_prefix [OF plan_parts_ok(4) [OF P assms(2), unfolded assms(6)]] by blast
  have "list_all (\<lambda>q. 0 \<le> dval (pos_quantity q)) (av_positions (fst (start a sp cfg)))"
    using st(3) assms(5) unfolding start_def by (induction rule: list_all2_induct) auto
  from guarded_run_nonneg [OF t assms(3,4) st(1,2) this] sp t show ?thesis by blast
qed

section \<open>The shape of a plan\<close>

lemma subseq_sorted_wrt: "subseq xs ys \<Longrightarrow> sorted_wrt P ys \<Longrightarrow> sorted_wrt P xs"
proof (induction rule: list_emb.induct)
  case (list_emb_Cons2 x y xs ys)
  moreover have "set xs \<subseteq> set ys" using list_emb_Cons2.hyps(2) by (auto dest: list_emb_set)
  ultimately show ?case by auto
qed auto

definition order_key :: "planned_order \<Rightarrow> string \<times> string" where
  "order_key o1 = (pl_venue o1, pl_symbol o1)"

definition order_held :: "account_view \<Rightarrow> planned_order \<Rightarrow> rat" where
  "order_held a o1 = dval (held_qty a (order_managed o1))"

definition reduces :: "account_view \<Rightarrow> planned_order \<Rightarrow> bool" where
  "reduces a o1 \<longleftrightarrow> 0 < dval (pl_quantity o1) \<and> dval (pl_quantity o1) \<le> \<bar>order_held a o1\<bar>
     \<and> (pl_side o1 = Sell \<and> 0 < order_held a o1 \<or> pl_side o1 = Buy \<and> order_held a o1 < 0)"

lemma order_of_key: "order_of pe cfg acct (c, q) o1 \<Longrightarrow> order_key o1 = by_venue_symbol c"
  by (auto simp: order_of_def order_key_def by_venue_symbol_def planned_def Let_def)

lemma orders_sorted:
  assumes "subseq xs cqs" and "sorted (map (by_venue_symbol \<circ> fst) cqs)" and "list_all2 (order_of pe cfg acct) xs os"
  shows "sorted (map order_key os)"
proof -
  have "map order_key os = map (by_venue_symbol \<circ> fst) xs"
    using assms(3) by (induction rule: list_all2_induct) (auto dest: order_of_key)
  moreover have "sorted (map (by_venue_symbol \<circ> fst) xs)"
    using subseq_sorted_wrt [OF subseq_map [OF assms(1)] assms(2)] .
  ultimately show ?thesis by simp
qed

lemma order_of_member:
  assumes "subseq xs cqs" and "list_all2 (order_of pe cfg acct) xs os" and "o1 \<in> set os"
  shows "\<exists>c q. (c, q) \<in> set cqs \<and> order_of pe cfg acct (c, q) o1"
proof -
  have "\<exists>cq \<in> set xs. order_of pe cfg acct cq o1"
    using assms(2,3) by (induction rule: list_all2_induct) auto
  then obtain cq where "cq \<in> set xs" "order_of pe cfg acct cq o1" by blast
  moreover from this(1) have "cq \<in> set cqs" using list_emb_set [OF assms(1)] by blast
  ultimately show ?thesis by (metis surj_pair)
qed

lemma sorted_filter_key: "sorted (map f xs) \<Longrightarrow> sorted (map f (filter P xs))"
  by (induction xs) auto

lemma sorted_map_fst_zip: "sorted (map f xs) \<Longrightarrow> sorted (map (f \<circ> fst) (zip xs ys))"
proof (induction xs arbitrary: ys)
  case (Cons x xs)
  then show ?case by (cases ys) (auto dest: set_zip_leftD)
qed simp

text \<open>
  A plan's orders are its reductions followed by its increases, each group sorted by venue and
  symbol. A reduction sells a long or buys back a short, and never more than the account held in that
  instrument when planning began.
\<close>

theorem plan_reductions_first:
  assumes "make_plan pe targets a prices book p cfg = Inr pl" and "inputs_ok targets a prices book p cfg"
  shows "\<exists>rs is. op_orders pl = rs @ is \<and> sorted (map order_key rs) \<and> sorted (map order_key is)
    \<and> list_all (reduces a) rs"
proof -
  from make_plan_parts [OF assms(1)] obtain mgd sp cs s0 s1 cld s2 available buys qtys where
    P: "plan_parts pe targets a prices book p cfg pl mgd sp cs s0 s1 cld s2 available buys qtys" by blast
  note ok = plan_parts_ok [OF P assms(2)]
  let ?red = "sort_key by_venue_symbol (cs_reducers cs)"
  have s0: "ps_orders s0 = []" "op_orders pl = ps_orders s2"
    and buys: "buys = filter (open_ok cld) (sort_key by_venue_symbol (cs_increasers cs))"
    using P by (auto simp: plan_parts_def)
  from ok(2) obtain xs rs where rs: "subseq xs (map (\<lambda>c. (c, cd_qty c)) ?red)"
    "list_all2 (order_of pe cfg (av_account_id a)) xs rs" "ps_orders s1 = rs" unfolding extends_run_def s0 by auto
  from ok(3) obtain ys js where js: "subseq ys (zip buys qtys)"
    "list_all2 (order_of pe cfg (av_account_id a)) ys js" "ps_orders s2 = rs @ js" unfolding extends_run_def rs(3) by blast
  have "sorted (map order_key rs)" by (rule orders_sorted [OF rs(1) _ rs(2)]) (simp add: comp_def)
  moreover have "sorted (map order_key js)"
    by (rule orders_sorted [OF js(1) _ js(2)]) (unfold buys, intro sorted_map_fst_zip sorted_filter_key, simp)
  moreover have "reduces a o1" if "o1 \<in> set rs" for o1
  proof -
    from order_of_member [OF rs(1,2) that] obtain c where c: "c \<in> set (cs_reducers cs)"
      "order_of pe cfg (av_account_id a) (c, cd_qty c) o1" by auto
    have "cand_ok a c" "cd_reducing c" using ok(1) c(1) by (auto simp: cands_from_def list_all_iff)
    moreover have "pl_quantity o1 = cd_qty c" "pl_side o1 = cd_side c" "order_held a o1 = dval (held_qty a (cd_m c))"
      using c(2) by (auto simp: order_of_def planned_def Let_def order_held_def order_managed_def held_qty_def)
    ultimately show ?thesis by (simp add: reduces_def cand_ok_def)
  qed
  ultimately show ?thesis using s0(2) js(3) by (auto simp: list_all_iff)
qed

section \<open>Tags\<close>

lemma check_tags_distinct: "check_tags ts seen = Inr () \<Longrightarrow> distinct ts \<and> set ts \<inter> set seen = {}"
  by (induction ts seen rule: check_tags.induct) (auto split: if_splits)

text \<open>No two orders of a plan, placed or denied, carry the same tag.\<close>

theorem plan_tags_distinct:
  assumes "make_plan pe targets a prices book p cfg = Inr pl"
  shows "distinct (map pl_tag (op_orders pl) @ map (\<lambda>d. pl_tag (dn_order d)) (op_denied pl))"
proof -
  from make_plan_parts [OF assms] obtain mgd sp cs s0 s1 cld s2 available buys qtys where
    "plan_parts pe targets a prices book p cfg pl mgd sp cs s0 s1 cld s2 available buys qtys" by blast
  then have "check_tags (map pl_tag (op_orders pl) @ map (\<lambda>d. pl_tag (dn_order d)) (op_denied pl)) [] = Inr ()"
    by (simp add: plan_parts_def)
  from check_tags_distinct [OF this] show ?thesis by blast
qed

section \<open>Targets are approached, not passed\<close>

text \<open>
  C23: the trades planned for one instrument move its position from where it is towards its target
  and not past it: after any prefix of them the value held lies between the current value and the
  target, up to \<open>10^-18\<close>. This includes a flip through zero, whose opening leg also covers what the
  venue's rounding left of the closing leg.
\<close>

theorem plan_instrument_no_overshoot:
  assumes "plan_instrument a prices book cfg base m = Inr out" and "io_lines out = [li]"
    and "map_of prices (mg_symbol m) = Some pt"
    and ok: "account_ok a" "prices_ok prices" "book_ok book" "dec_ok base" "dec_ok (mg_weight m)" "config_ok cfg"
  shows "between_eps (dval (held_qty a m) * dval (pp_price pt)) (dval (il_target_notional li))
    ((dval (held_qty a m) + moved (take k (io_cands out))) * dval (pp_price pt))"
proof (cases "io_cands out = []")
  case True
  then show ?thesis by (simp add: moved_def between_eps_self)
next
  case False
  from plan_instrument_inv [OF assms(1) this] obtain pt' rules current target delta ad legs sk where
    t: "instrument_trade a prices book cfg base m out pt' rules current target delta ad legs sk" by blast
  then have "pt' = pt" "target = il_target_notional li" using assms(2,3) by (auto simp: instrument_trade_def)
  with instrument_cands [OF t ok] show ?thesis by (simp add: cands_good_def)
qed

section \<open>An error that cannot happen\<close>

definition no_round_up :: "plan_error + 'a \<Rightarrow> bool" where
  "no_round_up m \<longleftrightarrow> (\<forall>s w q. m \<noteq> Inl (VenueRoundedUp s w q))"

lemma nru_bind: "no_round_up m \<Longrightarrow> (\<And>x. m = Inr x \<Longrightarrow> no_round_up (k x)) \<Longrightarrow> no_round_up (try_bind m k)"
  by (cases m) (auto simp: no_round_up_def)

lemma nru_math: "no_round_up (plan_math m)"
  by (cases m) (auto simp: no_round_up_def)

lemma nru_Inr: "no_round_up (Inr x)"
  by (simp add: no_round_up_def)

lemma nru_fold: "(\<And>s x. x \<in> set xs \<Longrightarrow> no_round_up (f s x)) \<Longrightarrow> no_round_up (try_fold f s xs)"
  by (induction xs arbitrary: s) (auto intro!: nru_bind nru_Inr)

lemma nru_other: "(\<And>s w q. e \<noteq> VenueRoundedUp s w q) \<Longrightarrow> no_round_up (Inl e)"
  by (simp add: no_round_up_def)

lemmas nru = nru_bind nru_math nru_Inr nru_fold nru_other

lemma nru_validate: "no_round_up (validate targets a cfg)"
  by (auto simp: validate_def validate_params_def validate_signed_sleeve_def validate_target_def validate_weight_def Let_def
      intro!: nru split: prod.splits weight_bounds.splits)

lemma nru_aggregate: "no_round_up (aggregate targets cfg)"
  by (auto simp: aggregate_def aggregate_weight_def Let_def intro!: nru split: option.splits)

lemma nru_margin_check: "no_round_up (margin_check p cfg e b sp ls)"
  by (auto simp: margin_check_def Let_def intro!: nru split: option.splits)

lemma nru_try_order: "no_round_up (try_order pe p book cfg acct c q s)"
  unfolding try_order_def Let_def by (auto intro!: nru split: prod.splits option.splits)

lemma nru_check_tags: "no_round_up (check_tags ts seen)"
  by (induction ts seen rule: check_tags.induct) (auto intro: nru)


lemma nru_run_legs:
  assumes v: "venue_contract rules"
  shows "list_all (\<lambda>(l, sd, w, r). dec_ok w) legs \<Longrightarrow> dec_ok res \<Longrightarrow> no_round_up (run_legs rules m pt legs res pend sk)"
proof (induction legs arbitrary: res pend sk)
  case (Cons leg legs)
  obtain l sd w0 red where leg: "leg = (l, sd, w0, red)" by (cases leg)
  show ?case unfolding leg run_legs.simps
  proof (rule nru_bind)
    show "no_round_up (if l = OpenLeg then plan_math (dadd w0 res) else Inr w0)" by (simp add: nru_math nru_Inr)
    fix w assume w: "(if l = OpenLeg then plan_math (dadd w0 res) else Inr w0) = Inr w"
    have wok: "dec_ok w" using w Cons.prems leg dadd_ok [of w0 res w] by (auto simp: res_inv split: if_splits)
    have IH: "dec_ok res' \<Longrightarrow> no_round_up (run_legs rules m pt legs res' pend' sk')" for res' pend' sk'
      using Cons by simp
    show "no_round_up (case vr_round_quantity rules (mg_symbol m) sd w (pp_price pt) of
        Inl refusal \<Rightarrow> if l = CloseLeg then Inr ([], sk @ [VenueRefused refusal])
          else run_legs rules m pt legs res pend (sk @ [VenueRefused refusal])
      | Inr qty \<Rightarrow> if dec_lt w qty then Inl (VenueRoundedUp (mg_symbol m) w qty)
          else try_bind (if l = CloseLeg then plan_math (dsub w qty) else Inr res) (\<lambda>res'.
            run_legs rules m pt legs res' (pend @ [leg_candidate m pt l sd qty red]) sk))"
    proof (cases "vr_round_quantity rules (mg_symbol m) sd w (pp_price pt)")
      case (Inl e)
      then show ?thesis using IH Cons.prems(2) by (simp add: nru_Inr)
    next
      case (Inr q)
      note c = contractD [OF v Inr wok]
      have "\<not> dec_lt w q" using c wok by (simp add: dec_order)
      then show ?thesis using Inr Cons.prems(2) dsub_ok [OF _ wok]
        by (auto simp: res_inv intro!: nru_bind nru_math nru_Inr IH)
    qed
  qed
qed (simp add: nru_Inr)

lemma trade_legs_ok:
  assumes "trade_legs held cur tgt delta ad price = Inr legs" and "dec_ok held" "dec_ok tgt" "dec_ok ad" "dec_ok price"
  shows "list_all (\<lambda>(l, sd, w, r). dec_ok w) legs"
  using assms(1)
proof (cases rule: trade_legs_cases)
  case (Flip ha at1 oq)
  then show ?thesis using dabs_ok [OF Flip(1) assms(2)] dabs_ok [OF Flip(2) assms(3)] div_floor_ok [OF Flip(3)] assms(5) by simp
next
  case (Whole ha w sd red)
  have "dec_ok ha" using dabs_ok [OF Whole(1) assms(2)] .
  then show ?thesis using Whole(4,5) div_floor_ok [of ad price 18] assms(4,5) by (auto intro: dec_ok_min)
qed

lemma nru_plan_instrument:
  assumes ok: "account_ok a" "prices_ok prices" "book_ok book" "dec_ok base" "dec_ok (mg_weight m)" "config_ok cfg"
  shows "no_round_up (plan_instrument a prices book cfg base m)"
proof (cases "opt_filter (\<lambda>p. is_positive (pp_price p)) (map_of prices (mg_symbol m))")
  case None
  then show ?thesis by (simp add: plan_instrument_def nru_Inr)
next
  case (Some pt)
  have px: "dec_ok (pp_price pt)" using prices_ok_get [OF ok(2)] Some by (auto simp: res_inv)
  show ?thesis
  proof (cases "book_get book (mg_venue m)")
    case None
    then show ?thesis using Some by (simp add: plan_instrument_def nru_Inr)
  next
    case rules: (Some rules)
    have v: "venue_contract rules" using book_get_contract [OF ok(3) rules] .
    have h: "dec_ok (held_qty a m)" using held_qty_ok [OF ok(1)] .
    have legs: "no_round_up (run_legs rules m pt legs dec_ZERO [] [])"
      if "target_notional base m (pc_risk_scale cfg) = Inr t" "dsub t c = Inr d" "dabs d = Inr ad"
        "trade_legs (held_qty a m) c t d ad (pp_price pt) = Inr legs" for t c d ad legs
    proof -
      have t: "dec_ok t" using target_notional_ok [OF that(1) ok(4,5) config_okD(1) [OF ok(6)]] .
      show ?thesis
        using trade_legs_ok [OF that(4) h t dabs_ok [OF that(3) dsub_ok [OF that(2) t]] px] by (intro nru_run_legs v) simp_all
    qed
    show ?thesis unfolding plan_instrument_def Some option.case rules Let_def
      by (auto simp: map_err_Inr intro!: nru_bind nru_math nru_Inr split: prod.splits) (blast intro: legs)+
  qed
qed

lemma nru_scale_qty:
  assumes "book_ok book" and "dec_ok q" and "dec_ok f"
  shows "no_round_up (scale_qty book f (c, q))"
proof -
  have "no_round_up (case map_option (\<lambda>r. vr_round_quantity r (mg_symbol (cd_m c)) (cd_side c) y (pp_price (cd_price c)))
                 (book_get book (mg_venue (cd_m c))) of
            Some (Inr rounded) \<Rightarrow>
              if dec_le rounded y then Inr rounded else Inl (VenueRoundedUp (mg_symbol (cd_m c)) y rounded)
          | _ \<Rightarrow> Inr dec_ZERO)" if "dec_ok y" for y
  proof -
    have "dec_le r y" if "book_get book (mg_venue (cd_m c)) = Some v"
      "vr_round_quantity v (mg_symbol (cd_m c)) (cd_side c) y (pp_price (cd_price c)) = Inr r" for v r
      using contractD [OF book_get_contract [OF assms(1) that(1)] that(2) \<open>dec_ok y\<close>] \<open>dec_ok y\<close> by (simp add: dec_order)
    then show ?thesis by (auto simp: nru_Inr split: option.splits sum.splits)
  qed
  moreover have "dec_ok y" if "dmul q f = Inr x" "round_dp x 18 Floor = Inr y" for x y
    using round_dp_ok [OF that(2) dmul_ok [OF that(1) assms(2,3)]] by simp
  ultimately show ?thesis unfolding scale_qty_def by (auto simp: res_inv intro!: nru_bind nru_math nru_Inr)
qed

lemma scale_factor_ok:
  assumes "dsub av slack = Inr usable" and "dec_ok av" and "dec_ok tot"
    and "(if is_positive usable then plan_math (div_floor usable tot 18) else Inr dec_ZERO) = Inr factor"
  shows "dec_ok factor"
  using assms(4) div_floor_ok [OF _ dsub_ok [OF assms(1,2)] assms(3)] by (auto simp: map_err_Inr split: if_splits)

lemma nru_scale_buys:
  assumes b: "buys_ok buys" and ok: "book_ok book" "dec_ok av" "dec_ok (pc_fee_rate cfg)"
  shows "no_round_up (scale_buys book cfg av buys)"
proof -
  have c: "list_all cq_ok (map (\<lambda>c. (c, cd_qty c)) buys)" using b by (auto simp: buys_ok_def list_all_iff)
  have t: "dec_ok tot" if "costs cfg (map (\<lambda>c. (c, cd_qty c)) buys) = Inr cs" "dsum cs = Inr tot" for cs tot
    using dsum_ok [OF that(2) costs_ok [OF that(1) c ok(3)]] .
  have q: "no_round_up (scale_qty book f (c, cd_qty c))" if "c \<in> set buys" "dec_ok f" for c f
    using b that by (intro nru_scale_qty ok(1)) (auto simp: buys_ok_def cq_ok_def list_all_iff)
  show ?thesis unfolding scale_buys_def Let_def
    by (auto simp: map_err_Inr nru_Inr nru_math intro!: nru_bind nru_math nru_Inr nru_fold) (blast intro: q scale_factor_ok ok(2) t)
qed

text \<open>
  Planning never fails because a venue rounded a size up: for a rule book of venues that keep
  their contract, the error \<open>VenueRoundedUp\<close> cannot be returned.
\<close>

theorem make_plan_no_round_up:
  assumes ok: "inputs_ok targets a prices book p cfg"
  shows "make_plan pe targets a prices book p cfg \<noteq> Inl (VenueRoundedUp s w q)"
proof -
  have i: "list_all target_ok targets" "account_ok a" "prices_ok prices" "book_ok book" "policy_ok p" "config_ok cfg"
    using ok by (auto simp: inputs_ok_def)
  have pr: "prices_ok (keyed_prices prices)" using i(3) by (intro prices_ok_keyed) (simp_all add: prices_ok_def)
  have bok: "dec_ok (capital_base p (av_equity a) (av_ccy a))" using i by (intro capital_base_ok) (auto simp: account_ok_def)
  have collect: "no_round_up (collect_candidates a (keyed_prices prices) book cfg (capital_base p (av_equity a) (av_ccy a)) (map snd mgd))"
    if "aggregate targets cfg = Inr mgd" for mgd
  proof -
    have "dec_ok (mg_weight m)" if "m \<in> set (map snd mgd)" for m
      using aggregate_ok [OF \<open>aggregate targets cfg = Inr mgd\<close> i(1)] that by (auto simp: managed_ok_def list_all_iff)
    then show ?thesis unfolding collect_candidates_def
      by (intro nru_fold nru_bind nru_Inr nru_plan_instrument i(2) pr i(4) bok i(6))
  qed
  have place: "no_round_up (place_reducers pe p book cfg acct cs s)" "no_round_up (place_buys pe p book cfg acct av cqs st)"
    for acct cs s av cqs st
    unfolding place_reducers_def place_buys_def
    by (auto intro!: nru_fold nru_bind nru_Inr nru_try_order split: prod.splits)
  have scale: "no_round_up (scale_buys book cfg available (filter (open_ok cld) (sort_key by_venue_symbol (cs_increasers cs))))"
    if "aggregate targets cfg = Inr mgd" "revalue_all (keyed_prices prices) (av_positions a) = Inr sp"
      "collect_candidates a (keyed_prices prices) book cfg (capital_base p (av_equity a) (av_ccy a)) (map snd mgd) = Inr cs"
      "place_reducers pe p book cfg (av_account_id a) (sort_key by_venue_symbol (cs_reducers cs))
         \<lparr>ps_sim = a\<lparr>av_positions := sp\<rparr>, ps_day = pc_day cfg, ps_orders = [], ps_denied = [], ps_bp_left = bp,
          ps_margin_tags = []\<rparr> = Inr (s1, cld)"
      "dsub (plan_budget cfg a (ps_sim s1)) reserve = Inr available" for mgd sp cs bp s1 cld reserve available
  proof -
    note red = reduce_phase [OF ok that(1-4)]
    show ?thesis using nru_scale_buys [OF red(5)] available_ok [OF ok red(4) that(5)] i config_okD(4) by (simp add: start_def)
  qed
  have "no_round_up (make_plan pe targets a prices book p cfg)"
    unfolding make_plan_def Let_def
    by (auto simp: map_err_Inr intro!: nru_bind nru_validate nru_aggregate nru_math nru_Inr nru_margin_check nru_check_tags place collect
        split: prod.splits) (blast intro: scale [simplified])
  then show ?thesis by (simp add: no_round_up_def)
qed

section \<open>What the digest of the inputs leaves out\<close>

lemma with_deployment_ids: "p_body_hash (with_deployment d p) = p_body_hash p" "p_envelope (with_deployment d p) = p_envelope p"
  "p_max_price_age_secs (with_deployment d p) = p_max_price_age_secs p"
  by (simp_all add: with_deployment_def split: policy_body.splits)

text \<open>
  The digest of a plan's inputs covers the mandate by its hash only, so two plans that differ in the
  deployment's limits, and therefore possibly in their orders, share a digest.
\<close>

lemma digest_ignores_deployment:
  "digest_inputs pe targets a prices book (with_deployment d p) cfg mgd = digest_inputs pe targets a prices book p cfg mgd"
  by (simp add: digest_inputs_def digest_lines_def with_deployment_ids)


section \<open>An example plan\<close>

definition example_env :: plan_env where
  "example_env = \<lparr>pe_sha256_hex = (\<lambda>s. s), pe_sched = (\<lambda>_. ''t''), pe_rfc3339 = (\<lambda>_. ''t''), pe_debug_envelope = (\<lambda>_. [])\<rparr>"

definition small_account :: account_view where
  "small_account =
     \<lparr>av_account_id = ''acc'', av_ccy = ''usd'', av_equity = Dec 100 0, av_cash = Dec 50 0,
      av_positions = [\<lparr>pos_symbol = ''ETH/USD'', pos_venue = ''kraken'', pos_asset_class = ''crypto_spot'',
        pos_quantity = Dec 2 0, pos_market_value = Dec 50 0\<rparr>], av_halted = False, av_now = 10 ^ 12\<rparr>"

definition example_targets :: "sleeve_target list" where
  "example_targets = [\<lparr>st_sleeve = ''crypto'', st_share = Dec 1 0, st_venue = ''kraken'', st_asset_class = ''crypto_spot'',
     st_weights = [\<lparr>tw_symbol = ''BTC/USD'', tw_weight = Dec 2 1\<rparr>, \<lparr>tw_symbol = ''ETH/USD'', tw_weight = Dec 2 1\<rparr>]\<rparr>]"

definition example_prices :: "(string, price_point) btree_map" where
  "example_prices = [(''BTC/USD'', \<lparr>pp_price = Dec 50 0, pp_as_of = 10 ^ 12\<rparr>), (''ETH/USD'', \<lparr>pp_price = Dec 25 0, pp_as_of = 10 ^ 12\<rparr>)]"

definition example_book :: venue_rule_book where
  "example_book = book_with ''kraken'' (kraken_rules (\<lambda>_. []) builtin_pairs) book_new"

definition example_config :: plan_config where
  "example_config = plan_config_new 0 (Dec 1 0) (Dec 1 0) (Dec 5 3) (Dec 2 3)"



definition ex_instrument :: "string \<Rightarrow> managed" where
  "ex_instrument sy = \<lparr>mg_symbol = sy, mg_venue = ''kraken'', mg_asset_class = ''crypto_spot'', mg_sleeves = [''crypto''],
     mg_weight = Dec 2 1, mg_signed = False\<rparr>"

definition ex_managed :: "(string, managed) btree_map" where
  "ex_managed = [(''BTC/USD'', ex_instrument ''BTC/USD''), (''ETH/USD'', ex_instrument ''ETH/USD'')]"

definition ex_sell :: candidate where
  "ex_sell = leg_candidate (ex_instrument ''ETH/USD'') \<lparr>pp_price = Dec 25 0, pp_as_of = 10 ^ 12\<rparr> WholeLeg Sell (Dec 120000000 8) True"

definition ex_buy :: candidate where
  "ex_buy = leg_candidate (ex_instrument ''BTC/USD'') \<lparr>pp_price = Dec 50 0, pp_as_of = 10 ^ 12\<rparr> WholeLeg Buy (Dec 40000000 8) False"

definition ex_cands :: candidate_set where
  "ex_cands = \<lparr>cs_lines =
      [\<lparr>il_symbol = ''BTC/USD'', il_sleeve = ''crypto'', il_held = Dec 0 0, il_current_notional = Dec 0 0,
        il_target_notional = Dec 2000000000 8\<rparr>,
       \<lparr>il_symbol = ''ETH/USD'', il_sleeve = ''crypto'', il_held = Dec 2 0, il_current_notional = Dec 50 0,
        il_target_notional = Dec 2000000000 8\<rparr>],
    cs_skipped = [], cs_reducers = [ex_sell], cs_increasers = [ex_buy]\<rparr>"

definition ex_start :: plan_state where
  "ex_start = \<lparr>ps_sim = small_account, ps_day = pc_day example_config, ps_orders = [], ps_denied = [],
     ps_bp_left = None, ps_margin_tags = []\<rparr>"

definition ex_order_sell :: planned_order where
  "ex_order_sell = planned example_env ''acc'' 0 ex_sell (Dec 120000000 8) (Dec 3000000000 8) (Dec 6000000 8)"

definition ex_order_buy :: planned_order where
  "ex_order_buy = planned example_env ''acc'' 0 ex_buy (Dec 40000000 8) (Dec 2000000000 8) (Dec 4000000 8)"

definition ex_sold :: plan_state where
  "ex_sold = ex_start\<lparr>ps_sim := small_account\<lparr>av_cash := Dec 7994000000 8,
       av_positions := [\<lparr>pos_symbol = ''ETH/USD'', pos_venue = ''kraken'', pos_asset_class = ''crypto_spot'',
         pos_quantity = Dec 80000000 8, pos_market_value = Dec 2000000000 8\<rparr>]\<rparr>,
     ps_day := \<lparr>dc_orders_today = 1, dc_turnover_today = Dec 3000000000 8\<rparr>, ps_orders := [ex_order_sell]\<rparr>"

definition ex_done :: plan_state where
  "ex_done = ex_sold\<lparr>ps_sim := (ps_sim ex_sold)\<lparr>av_cash := Dec 5990000000 8,
       av_positions := av_positions (ps_sim ex_sold) @ [\<lparr>pos_symbol = ''BTC/USD'', pos_venue = ''kraken'',
         pos_asset_class = ''crypto_spot'', pos_quantity = Dec 40000000 8, pos_market_value = Dec 2000000000 8\<rparr>]\<rparr>,
     ps_day := \<lparr>dc_orders_today = 2, dc_turnover_today = Dec 5000000000 8\<rparr>, ps_orders := [ex_order_sell, ex_order_buy]\<rparr>"

lemma ex_values:
  "validate example_targets small_account example_config = Inr ()
   \<and> aggregate example_targets example_config = Inr ex_managed
   \<and> capital_base baseline_policy (av_equity small_account) (av_ccy small_account) = Dec 100 0
   \<and> keyed_prices example_prices = example_prices
   \<and> revalue_all example_prices (av_positions small_account) = Inr (av_positions small_account)
   \<and> margin_check baseline_policy example_config (av_equity small_account) (Dec 100 0) (av_positions small_account) (cs_lines ex_cands)
       = Inr margin_long_only
   \<and> reserve_amount baseline_policy (Dec 100 0) = Inr (Dec 500000000 8)
   \<and> dsub (plan_budget example_config small_account (ps_sim ex_sold)) (Dec 500000000 8) = Inr (Dec 7494000000 8)
   \<and> scale_buys example_book example_config (Dec 7494000000 8) [ex_buy] = Inr [Dec 40000000 8]
   \<and> pl_tag ex_order_buy \<noteq> pl_tag ex_order_sell \<and> cd_leg ex_buy \<noteq> OpenLeg
   \<and> held_qty small_account (ex_instrument ''ETH/USD'') = Dec 2 0
   \<and> scale_buys example_book example_config (Dec 10 0) [ex_buy] = Inr [Dec 19960079 8]
   \<and> costs example_config [(ex_buy, Dec 19960079 8)] = Inr [Dec 999999958 8]"
  by code_simp

lemma ex_validate: "validate example_targets small_account example_config = Inr ()"
  and ex_aggregate: "aggregate example_targets example_config = Inr ex_managed"
  and ex_base: "capital_base baseline_policy (av_equity small_account) (av_ccy small_account) = Dec 100 0"
  and ex_prices: "keyed_prices example_prices = example_prices"
  and ex_revalue: "revalue_all example_prices (av_positions small_account) = Inr (av_positions small_account)"
  and ex_margin: "margin_check baseline_policy example_config (av_equity small_account) (Dec 100 0) (av_positions small_account)
      (cs_lines ex_cands) = Inr margin_long_only"
  and ex_reserve: "reserve_amount baseline_policy (Dec 100 0) = Inr (Dec 500000000 8)"
  and ex_available: "dsub (plan_budget example_config small_account (ps_sim ex_sold)) (Dec 500000000 8) = Inr (Dec 7494000000 8)"
  and ex_scale: "scale_buys example_book example_config (Dec 7494000000 8) [ex_buy] = Inr [Dec 40000000 8]"
  and ex_tags: "pl_tag ex_order_buy \<noteq> pl_tag ex_order_sell" and ex_open: "cd_leg ex_buy \<noteq> OpenLeg"
  and ex_held: "held_qty small_account (ex_instrument ''ETH/USD'') = Dec 2 0"
  and ex_scale_cut: "scale_buys example_book example_config (Dec 10 0) [ex_buy] = Inr [Dec 19960079 8]"
  and ex_costs: "costs example_config [(ex_buy, Dec 19960079 8)] = Inr [Dec 999999958 8]"
  using ex_values by - (elim conjE, assumption)+

lemma ex_collect: "collect_candidates small_account example_prices example_book example_config (Dec 100 0) (map snd ex_managed) = Inr ex_cands"
  by code_simp
lemma ex_reduce: "place_reducers example_env baseline_policy example_book example_config ''acc'' [ex_sell] ex_start = Inr (ex_sold, [])"
  by code_simp
lemma ex_place: "place_buys example_env baseline_policy example_book example_config ''acc'' (Dec 7494000000 8) [(ex_buy, Dec 40000000 8)] (ex_sold, [])
   = Inr (ex_done, [])" by code_simp
lemma ex_sort: "sort_key by_venue_symbol [c] = [c]" by simp

definition ex_plan :: order_plan where
  "ex_plan = \<lparr>op_inputs_digest = digest_inputs example_env example_targets small_account example_prices example_book baseline_policy example_config ex_managed,
     op_account_id = ''acc'', op_scheduled_for = 0, op_equity = Dec 100 0, op_capital_base = Dec 100 0, op_risk_scale = Dec 1 0,
     op_orders = [ex_order_sell, ex_order_buy], op_denied = [], op_skipped = [], op_lines = cs_lines ex_cands, op_margin = margin_long_only\<rparr>"

lemma try_bind_weak_cong: "m = m' \<Longrightarrow> try_bind m k = try_bind m' k" by simp

lemma ex_make_plan: "make_plan example_env example_targets small_account example_prices example_book baseline_policy example_config = Inr ex_plan"
proof -
  have f: "cs_reducers ex_cands = [ex_sell]" "cs_increasers ex_cands = [ex_buy]" "cs_skipped ex_cands = []"
    "av_account_id small_account = ''acc''" "mr_buying_power_left margin_long_only = None"
    "small_account\<lparr>av_positions := av_positions small_account\<rparr> = small_account"
    "ps_orders ex_done = [ex_order_sell, ex_order_buy]" "ps_denied ex_done = []" "ps_bp_left ex_done = None" "ps_margin_tags ex_done = []"
    "margin_long_only\<lparr>mr_buying_power_left := None, mr_margin_order_tags := []\<rparr> = margin_long_only"
    "pc_scheduled_for example_config = 0" "av_equity small_account = Dec 100 0" "pc_risk_scale example_config = Dec 1 0"
    by (simp_all add: ex_cands_def small_account_def margin_long_only_def ex_done_def ex_sold_def ex_start_def example_config_def plan_config_new_def)
  show ?thesis
    unfolding make_plan_def Let_def ex_validate ex_prices ex_aggregate ex_base try_bind_simps map_err_simps ex_revalue ex_collect ex_margin
      f(1-6) ex_sort ex_start_def [symmetric] ex_reduce prod.case ex_reserve ex_available
    by (simp add: ex_scale ex_open ex_place ex_tags f ex_plan_def cong: try_bind_weak_cong)
qed

section \<open>The example meets the hypotheses\<close>

lemma ex_inputs_ok: "inputs_ok example_targets small_account example_prices example_book baseline_policy example_config"
proof -
  have "book_ok example_book" unfolding example_book_def by (rule builtin_kraken_book_ok)
  moreover have "list_all target_ok example_targets" "account_ok small_account" "prices_ok example_prices" "config_ok example_config"
    by (simp_all add: target_ok_def example_targets_def account_ok_def small_account_def prices_ok_def example_prices_def
        config_ok_def example_config_def plan_config_new_def day_zero_def dec_ok_small_units)
  ultimately show ?thesis using baseline_ok(2) by (simp add: inputs_ok_def)
qed

theorem plan_is_guarded_run_witness:
  "\<exists>sp t. revalue_all (keyed_prices example_prices) (av_positions small_account) = Inr sp
    \<and> guarded_run baseline_policy example_book example_config (start small_account sp example_config)
        [ex_order_sell, ex_order_buy] t"
  using plan_is_guarded_run [OF ex_make_plan ex_inputs_ok] by (simp add: ex_plan_def)

theorem plan_never_opens_short_witness:
  "\<exists>sp t. revalue_all (keyed_prices example_prices) (av_positions small_account) = Inr sp
    \<and> guarded_run baseline_policy example_book example_config (start small_account sp example_config) [ex_order_sell] t
    \<and> list_all (\<lambda>q. 0 \<le> dval (pos_quantity q)) (av_positions (fst t))"
  by (rule plan_never_opens_short [OF ex_make_plan ex_inputs_ok baseline_limits_of, where ys = "[ex_order_buy]"])
    (simp_all add: baseline_limits_def small_account_def dval_def ex_plan_def)

theorem plan_reductions_first_witness:
  "\<exists>rs is. [ex_order_sell, ex_order_buy] = rs @ is \<and> sorted (map order_key rs) \<and> sorted (map order_key is)
    \<and> list_all (reduces small_account) rs"
  using plan_reductions_first [OF ex_make_plan ex_inputs_ok] by (simp add: ex_plan_def)

theorem plan_tags_distinct_witness: "distinct (map pl_tag [ex_order_sell, ex_order_buy])"
  using plan_tags_distinct [OF ex_make_plan] by (simp add: ex_plan_def)

theorem make_plan_no_round_up_witness:
  "make_plan example_env example_targets small_account example_prices example_book baseline_policy example_config
     \<noteq> Inl (VenueRoundedUp ''BTC/USD'' (Dec 1 0) (Dec 2 0))"
  by (rule make_plan_no_round_up [OF ex_inputs_ok])

theorem plan_instrument_no_overshoot_witness:
  "\<exists>out. plan_instrument small_account example_prices example_book example_config (Dec 100 0) (ex_instrument ''ETH/USD'') = Inr out
    \<and> io_cands out = [ex_sell] \<and> between_eps (2 * 25) 20 ((2 + moved [ex_sell]) * 25)"
proof -
  let ?m = "ex_instrument ''ETH/USD''" and ?li = "cs_lines ex_cands ! 1" and ?pt = "\<lparr>pp_price = Dec 25 0, pp_as_of = 10 ^ 12\<rparr>"
  let ?out = "\<lparr>io_lines = [?li], io_skips = [], io_cands = [ex_sell]\<rparr>"
  have out: "plan_instrument small_account example_prices example_book example_config (Dec 100 0) ?m = Inr ?out" by code_simp
  have ok: "account_ok small_account" "prices_ok example_prices" "book_ok example_book" "config_ok example_config"
    using ex_inputs_ok by (auto simp: inputs_ok_def)
  have "map_of example_prices (mg_symbol ?m) = Some ?pt" "dec_ok (Dec 100 0)" "dec_ok (mg_weight ?m)"
    by (simp_all add: example_prices_def ex_instrument_def dec_ok_small_units)
  from plan_instrument_no_overshoot [OF out _ this(1) ok(1-3) this(2,3) ok(4), of ?li 1]
  have "between_eps (dval (held_qty small_account ?m) * dval (Dec 25 0)) (dval (il_target_notional ?li))
    ((dval (held_qty small_account ?m) + moved [ex_sell]) * dval (Dec 25 0))" by simp
  then show ?thesis using out ex_held by (simp add: ex_cands_def dval_def)
qed

theorem scale_buys_fits_witness:
  "scale_buys example_book example_config (Dec 10 0) [ex_buy] = Inr [Dec 19960079 8] \<and>
   costs example_config [(ex_buy, Dec 19960079 8)] = Inr [Dec 999999958 8] \<and>
   (\<Sum>x\<leftarrow>[Dec 999999958 8]. dval x) \<le> max 0 10 + 2 / 10 ^ 18"
proof -
  note s = ex_scale_cut
  have c: "costs example_config (zip [ex_buy] [Dec 19960079 8]) = Inr [Dec 999999958 8]" using ex_costs by simp
  have b: "buys_ok [ex_buy]" by (simp add: buys_ok_def cq_ok_def ex_buy_def dval_def dec_ok_small_units)
  have "book_ok example_book" using ex_inputs_ok by (simp add: inputs_ok_def)
  from scale_buys_fits [OF s b this _ _ _ _ _ c] s c show ?thesis
    by (simp add: dec_ok_small_units example_config_def plan_config_new_def dval_def ex_buy_def)
qed

end
