(* ===== verification/Pipeline_Demo.thy ===== *)
theory Pipeline_Demo
  imports Pipeline_Props Mandate Planner_Props
begin

text \<open>
  A whole paper run evaluated in the logic, for the witnesses of the run's properties: the baseline
  mandate, one crypto sleeve, a broker that validates every order, and the example plan of the planner.
  Each step takes the run from one \<open>trial_point\<close> to the next.
\<close>

section \<open>The context\<close>

definition trial_now :: int where "trial_now = 10 ^ 12"

definition trial_view :: broker_snapshot where
  "trial_view = \<lparr>bs_venue = ''kraken'', bs_ccy = ''usd'', bs_equity = Dec 100 0, bs_cash = Dec 50 0,
     bs_holdings = [\<lparr>hd_symbol = ''ETH/USD'', hd_asset_class = ''crypto_spot'', hd_quantity = Dec 2 0, hd_mark = Some (Dec 25 0),
       hd_market_value = Dec 50 0\<rparr>],
     bs_unvalued = [], bs_open_orders = [], bs_excluded_balances = [], bs_taken_at = trial_now, bs_derived_equity = Dec 100 0\<rparr>"

definition trial_broker :: "unit broker" where
  "trial_broker =
     \<lparr>bk_venue = ''kraken'', bk_snapshot = (\<lambda>t w. (Inr trial_view, w)),
      bk_place = (\<lambda>req w. (Inr (ValidatedOnly None \<lparr>sent_broker_pair = [], sent_side = req_side req,
        sent_quantity = req_quantity req, sent_price = None, sent_userref = 1, sent_validate_only = True\<rparr> []), w)),
      bk_get_order = (\<lambda>i w. (Inr example_report, w)), bk_open_orders = (\<lambda>w. (Inr [], w)), bk_find_by_tag = (\<lambda>t w. (Inr [], w)),
      bk_cancel_and_settle = (\<lambda>i w. (Inr (\<lparr>co_canceled_count = 0, co_pending = False\<rparr>, example_report), w)),
      bk_now = (\<lambda>w. (trial_now, w)), bk_sleep_secs = (\<lambda>n w. ((), w))\<rparr>"

definition held :: "string \<Rightarrow> instrument_decision" where
  "held y = \<lparr>id_symbol = y, id_close = plain_f64 50 ''50'', id_sma = plain_f64 40 ''40'', id_signal = LongSignal,
     id_weight = plain_f64 (1 / 5) ''0.2''\<rparr>"

definition trial_decision :: evaluation where
  "trial_decision = \<lparr>ev_kind = CryptoTrend, ev_as_of = date_naive 0, ev_fingerprint = ''fp'', ev_decision_date = date_naive 0 - 1, ev_newest_bar_date = 99,
     ev_lag_sessions = 2, ev_instruments = map (evidence example_rules) [held ''BTC'', held ''ETH''],
     ev_rule = CryptoRule [held ''BTC'', held ''ETH''], ev_data_gate = None\<rparr>"

definition trial_rules :: "unit rules" where
  "trial_rules = example_rules\<lparr>ru_decide_crypto := (\<lambda>_ _ _ _ _ _. Inr [held ''BTC'', held ''ETH''])\<rparr>"

definition trial_sleeve :: sleeve_spec where
  "trial_sleeve = \<lparr>ss_id = ''crypto'', ss_kind = CryptoTrend, ss_share = Dec 1 0, ss_venue = ''kraken'', ss_asset_class = ''crypto_spot'',
     ss_quote = ''USD'', ss_instruments = [], ss_tranche_sessions = 0, ss_lookback = None\<rparr>"

definition trial_config :: run_config where
  "trial_config = \<lparr>cf_min_trade_abs = Dec 1 0, cf_min_trade_pct = Dec 5 3, cf_fee_rate = Dec 2 3,
     cf_tolerances = recon_default_tolerances, cf_recovery_fraction = Dec 5 1, cf_max_price_age_secs = DEFAULT_MAX_PRICE_AGE_SECS,
     cf_lease_secs = 900, cf_max_polls = 3, cf_poll_secs = 1, cf_flatten_max_rounds = 4, cf_deployment = None,
     cf_venue_policy = Unrestricted, cf_day_start = FirstObservation\<rparr>"

definition trial :: "bool \<Rightarrow> (unit, unit) run_context" where
  "trial kill =
     \<lparr>cx_account_id = ''acc'', cx_scheduled_for = 0, cx_trading_day = 0, cx_mode = Paper, cx_sleeves = [trial_sleeve],
      cx_mandate = Some baseline_mandate,
      cx_envelope = Some \<lparr>env_version = 3, env_status = MsActive, env_effective_from = 0, env_review_by = 10 ^ 18\<rparr>,
      cx_venue_rules = example_book, cx_config = trial_config,
      cx_text = \<lparr>tx_flat = demo_text, tx_plan = example_env, tx_from_str = baseline_from_str, tx_hash = (\<lambda>_. ''h''), tx_attempt_key = (\<lambda>_. []),
        tx_date = (\<lambda>_. []), tx_halt_summary = (\<lambda>_. []), tx_store_error = (\<lambda>_. [])\<rparr>,
      cx_rules = trial_rules, cx_broker = trial_broker, cx_environment = VeUnspecified,
      cx_source = (\<lambda>s t w. (Inr example_data, w)), cx_prices = (\<lambda>ys t w. (Inr example_prices, w)),
      cx_load = (\<lambda>a w. (Inr None, w)), cx_save = (\<lambda>v st w. (Inr st, w)),
      cx_begin = (\<lambda>k d t l w. (Inr (Started 1), w)), cx_journal_order = (\<lambda>k e w. (Inr (), w)), cx_in_flight = (\<lambda>a w. (Inr [], w)),
      cx_finish = (\<lambda>r w. (Inr (), w)), cx_last_snapshot = (\<lambda>a w. (Inr None, w)), cx_known_order_ids = (\<lambda>a w. (Inr [], w)),
      cx_day_counters = (\<lambda>a d w. (Inr day_zero, w)),
      cx_last_acted_decision = (\<lambda>a y w. (Inr None, w)), cx_notify = (\<lambda>x w. (Inr (), w)), cx_kill_flag = (\<lambda>w. (Inr kill, w))\<rparr>"

section \<open>What the context answers\<close>

lemma same_world [simp]: "s\<lparr>rn_world := ((), snd (rn_world s))\<rparr> = s"
  by (cases "rn_world s") simp

lemma trial_calls:
  "run_state (call (cx_kill_flag (recorded (trial k)))) s = (Inr k, s)"
  "run_state (call (cx_load (recorded (trial k)) a)) s = (Inr None, s)"
  "run_state (call (cx_save (recorded (trial k)) v st)) s = (Inr st, s)"
  "run_state (call (cx_prices (recorded (trial k)) ys t)) s = (Inr example_prices, s)"
  "run_state (call (cx_in_flight (recorded (trial k)) a)) s = (Inr [], s)"
  "run_state (call (cx_last_snapshot (recorded (trial k)) a)) s = (Inr None, s)"
  "run_state (call (cx_known_order_ids (recorded (trial k)) a)) s = (Inr [], s)"
  "run_state (call (cx_day_counters (recorded (trial k)) a d)) s = (Inr day_zero, s)"
  "run_state (call (cx_finish (recorded (trial k)) r)) s = (Inr (), s)"
  "run_state (call (cx_begin (recorded (trial k)) kk d t l)) s = (Inr (Started 1), s)"
  "run_state (call (bk_snapshot (recording trial_broker) t)) s = (Inr trial_view, s\<lparr>rn_world := ((), SawSnapshot trial_view # log_of s)\<rparr>)"
  "run_state (call (bk_find_by_tag (recording trial_broker) g)) s = (Inr [], s)"
  "run_state (now (recorded (trial k))) s = (trial_now, s)"
  by (simp_all add: call_def recorded_def trial_def lift_io_def recording_def trial_broker_def now_def split: prod.splits)


section \<open>The heavy values\<close>

definition trial_risk_policy :: risk_policy where
  "trial_risk_policy = \<lparr>rp_daily_loss_limit = Dec 3 2, rp_rungs = [\<lparr>rung_at = Dec 1 1, rung_action = RaShrink (Dec 5 1)\<rparr>,
     \<lparr>rung_at = Dec 2 1, rung_action = RaHaltFlatten\<rparr>], rp_recovery_fraction = Dec 5 1\<rparr>"

definition trial_stepped :: "account_state \<times> risk_decision \<times> transition option" where
  "trial_stepped = step_with (account_new ''acc'') (snap_equity trial_view) 0 trial_risk_policy FirstObservation"

lemma trial_values:
  "mandate_validate baseline_from_str baseline_mandate = []
   \<and> policy_standing baseline_policy trial_now = StActive
   \<and> build trial_rules trial_sleeve (date_naive 0) (finger trial_rules example_data) = Inr trial_decision
   \<and> evaluation_target (ru_floor_weight trial_rules) trial_decision trial_sleeve = Inr (hd example_targets)
   \<and> ac_status (fst trial_stepped) = AsActive
   \<and> risk_scale (fst trial_stepped) = Dec 1 0
   \<and> rd_action (fst (snd trial_stepped)) \<noteq> ActHaltFlatten
   \<and> rr_verdict (reconcile \<lparr>ri_view = trial_view, ri_now = trial_now, ri_known_order_ids = [], ri_baseline = None,
      ri_orders = [], ri_tolerances = recon_default_tolerances\<rparr>) = ReconOk
   \<and> rr_verdict (reconcile \<lparr>ri_view = trial_view, ri_now = trial_now, ri_known_order_ids = [],
      ri_baseline = Some (baseline_from_snapshot trial_view), ri_orders = map (expected_of False) [(placed_new ex_order_sell Rehearsal)\<lparr>pd_outcome := PoValidated\<rparr>, (placed_new ex_order_buy Rehearsal)\<lparr>pd_outcome := PoValidated\<rparr>],
      ri_tolerances = recon_default_tolerances\<rparr>) = ReconOk
   \<and> snap_account_view trial_view ''acc'' False trial_now = small_account"
  by code_simp

lemma trial_mandate_valid: "mandate_validate baseline_from_str baseline_mandate = []"
  and trial_active: "policy_standing baseline_policy trial_now = StActive"
  and trial_build: "build trial_rules trial_sleeve (date_naive 0) (finger trial_rules example_data) = Inr trial_decision"
  and trial_target: "evaluation_target (ru_floor_weight trial_rules) trial_decision trial_sleeve = Inr (hd example_targets)"
  and trial_risk_status: "ac_status (fst trial_stepped) = AsActive"
  and trial_risk_scale: "risk_scale (fst trial_stepped) = Dec 1 0"
  and trial_risk_action: "rd_action (fst (snd trial_stepped)) \<noteq> ActHaltFlatten"
  and trial_recon: "rr_verdict (reconcile \<lparr>ri_view = trial_view, ri_now = trial_now, ri_known_order_ids = [], ri_baseline = None,
      ri_orders = [], ri_tolerances = recon_default_tolerances\<rparr>) = ReconOk"
  and trial_recon_post: "rr_verdict (reconcile \<lparr>ri_view = trial_view, ri_now = trial_now, ri_known_order_ids = [],
      ri_baseline = Some (baseline_from_snapshot trial_view), ri_orders = map (expected_of False) [(placed_new ex_order_sell Rehearsal)\<lparr>pd_outcome := PoValidated\<rparr>, (placed_new ex_order_buy Rehearsal)\<lparr>pd_outcome := PoValidated\<rparr>],
      ri_tolerances = recon_default_tolerances\<rparr>) = ReconOk"
  and trial_account: "snap_account_view trial_view ''acc'' False trial_now = small_account"
  using trial_values by - (elim conjE, assumption)+

lemmas trial_risk = trial_risk_status trial_risk_scale trial_risk_action

lemma trial_standing: "mandate_policy (trial k) baseline_mandate = baseline_policy"
proof -
  have "convert (mb_capital baseline_mandate) (mb_universe baseline_mandate) (mb_exposure baseline_mandate) = Inr baseline_limits"
    using convert_baseline by (simp add: baseline_mandate_def)
  then show ?thesis using trial_mandate_valid
    by (simp add: mandate_policy_def trial_def trial_config_def compile_policy_def with_max_price_age_secs_def with_envelope_def baseline_policy_def)
qed


lemma trial_eval:
  assumes "rn_cache s = None"
  shows "run_state (eval_sleeve (recorded (trial k)) trial_sleeve) s = (Inr trial_decision, s)"
proof -
  have "cx_source (recorded (trial k)) sl t w = (Inr example_data, w)" "cx_rules (trial k) = trial_rules"
    "cx_scheduled_for (trial k) = 0" for sl t w
    by (simp_all add: recorded_def trial_def lift_io_def split: prod.splits)
  with assms trial_build show ?thesis
    by (simp add: eval_sleeve_def evaluate_def fetch_def Let_def map_ok_def)
qed

lemma trial_plan: "make_plan example_env example_targets (snap_account_view trial_view ''acc'' False trial_now) example_prices example_book baseline_policy
   (plan_config_of (trial k) (Dec 1 0) day_zero True) = Inr ex_plan"
proof -
  have "plan_config_of (trial k) (Dec 1 0) day_zero True = example_config"
    by (simp add: plan_config_of_def trial_def trial_config_def example_config_def plan_config_new_def Let_def)
  then show ?thesis using ex_make_plan trial_account by simp
qed


section \<open>The run\<close>

definition noted :: "string \<Rightarrow> ('p, 'w) run \<Rightarrow> ('p, 'w) run" where
  "noted n s = s\<lparr>rn_rec := (rn_rec s)\<lparr>rr_steps := rr_steps (rn_rec s) @ [\<lparr>sn_step = n, sn_at = trial_now\<rparr>]\<rparr>\<rparr>"

text \<open>The parts of the state the run depends on; the rest of the record is its narrative.\<close>

record trial_point =
  dp_log :: "log_event list"
  dp_state :: account_state
  dp_view :: "broker_snapshot option"
  dp_policy :: "policy option"
  dp_risk :: "risk_policy option"
  dp_base :: "recon_baseline option"
  dp_pending :: "(nat \<times> evaluation) list"
  dp_decisions :: "(bool \<times> bool) list"
  dp_plan :: "plan_summary option"
  dp_placed :: "placed_order list"

definition point :: "(unit, unit \<times> log_event list) run \<Rightarrow> trial_point \<Rightarrow> bool" where
  "point s d \<longleftrightarrow> log_of s = dp_log d \<and> rn_state s = dp_state d \<and> rn_snapshot s = dp_view d \<and> rn_policy s = dp_policy d \<and>
     rn_risk_policy s = dp_risk d \<and> rn_pre_baseline s = dp_base d \<and> rn_pending s = dp_pending d \<and>
     map (\<lambda>x. (sd_planned x, sd_acted x)) (rr_decisions (rn_rec s)) = dp_decisions d \<and> rr_plan (rn_rec s) = dp_plan d \<and>
     rr_placed (rn_rec s) = dp_placed d \<and> rn_cache s = None \<and> rn_known_ids s = [] \<and> rn_applied_ids s = [] \<and> \<not> rn_carried s \<and>
     rn_buys_paused s = None \<and> rn_paused_tickets s = [] \<and> rr_replan (rn_rec s) = None"

definition moves :: "((unit, unit \<times> log_event list) run, 'a) state \<Rightarrow> trial_point \<Rightarrow> 'a \<Rightarrow> trial_point \<Rightarrow> bool" where
  "moves m d x e \<longleftrightarrow> (\<forall>s. point s d \<longrightarrow> (\<exists>t. run_state m s = (x, t) \<and> point t e))"

lemma moves_and_then:
  assumes "moves m d (Inr x) e" and "moves (k x) e y f"
  shows "moves (and_then m k) d y f"
  using assms unfolding moves_def and_then_def by (fastforce split: prod.splits)

lemma note_calls: "run_state (note_step (recorded (trial k)) n) s = ((), noted n s)"
  by (simp add: note_step_def edit_def change_def trial_calls noted_def)

lemma noted_sel [simp]:
  "rn_world (noted n s) = rn_world s" "rn_state (noted n s) = rn_state s" "rn_snapshot (noted n s) = rn_snapshot s"
  "rn_policy (noted n s) = rn_policy s" "rn_risk_policy (noted n s) = rn_risk_policy s" "rn_pre_baseline (noted n s) = rn_pre_baseline s"
  "rn_pending (noted n s) = rn_pending s" "rr_decisions (rn_rec (noted n s)) = rr_decisions (rn_rec s)"
  "rr_plan (rn_rec (noted n s)) = rr_plan (rn_rec s)" "rr_placed (rn_rec (noted n s)) = rr_placed (rn_rec s)"
  "rn_cache (noted n s) = rn_cache s" "rn_known_ids (noted n s) = rn_known_ids s" "rn_applied_ids (noted n s) = rn_applied_ids s"
  "rn_carried (noted n s) = rn_carried s" "rn_buys_paused (noted n s) = rn_buys_paused s"
  "rn_paused_tickets (noted n s) = rn_paused_tickets s" "rr_replan (rn_rec (noted n s)) = rr_replan (rn_rec s)"
  by (simp_all add: noted_def)

lemma trial_sel [simp]:
  "cx_account_id (trial k) = ''acc''" "cx_scheduled_for (trial k) = 0" "cx_trading_day (trial k) = 0"
  "cx_mode (trial k) = Paper" "cx_sleeves (trial k) = [trial_sleeve]" "cx_mandate (trial k) = Some baseline_mandate"
  "cx_venue_rules (trial k) = example_book" "cx_config (trial k) = trial_config" "cx_rules (trial k) = trial_rules"
  "cx_broker (trial k) = trial_broker" "tx_plan (cx_text (trial k)) = example_env"
  "tx_from_str (cx_text (trial k)) = baseline_from_str"
  "cf_venue_policy trial_config = Unrestricted" "cf_deployment trial_config = None" "cf_day_start trial_config = FirstObservation"
  "cf_tolerances trial_config = recon_default_tolerances"
  by (simp_all add: trial_def trial_config_def)

lemma trial_sleeve_sel [simp]: "kind_cadence (ss_kind trial_sleeve) = CadDaily" "ev_data_gate trial_decision = None"
  by (simp_all add: trial_sleeve_def kind_cadence_def trial_decision_def)

lemma trial_from_mandate: "from_mandate_with_recovery baseline_from_str baseline_mandate (cf_recovery_fraction trial_config) = Inr trial_risk_policy"
  using baseline_from_mandate by (simp add: trial_risk_policy_def trial_config_def)

lemmas run_trial = Let_def trial_calls note_calls edit_def change_def ask_def ok_def moves_def point_def

definition stage0 :: trial_point where
  "stage0 = \<lparr>dp_log = [], dp_state = account_new ''acc'', dp_view = None, dp_policy = None, dp_risk = None, dp_base = None,
     dp_pending = [], dp_decisions = [], dp_plan = None, dp_placed = []\<rparr>"
definition stage1 :: trial_point where "stage1 = stage0\<lparr>dp_policy := Some baseline_policy, dp_risk := Some trial_risk_policy\<rparr>"
definition stage2 :: trial_point where "stage2 = stage1\<lparr>dp_pending := [(0, trial_decision)], dp_decisions := [(False, False)]\<rparr>"
definition stage3 :: trial_point where "stage3 = stage2\<lparr>dp_view := Some trial_view, dp_log := [SawSnapshot trial_view]\<rparr>"
definition stage4 :: trial_point where "stage4 = stage3\<lparr>dp_base := Some (baseline_from_snapshot trial_view)\<rparr>"
definition stage5 :: trial_point where "stage5 = stage4\<lparr>dp_state := fst trial_stepped\<rparr>"
definition stage6 :: trial_point where "stage6 = stage5\<lparr>dp_decisions := [(True, False)]\<rparr>"
definition stage7 :: trial_point where "stage7 = stage6\<lparr>dp_plan := Some (summarize_plan ex_plan)\<rparr>"
definition validated :: "planned_order \<Rightarrow> placed_order" where "validated x = (placed_new x Rehearsal)\<lparr>pd_outcome := PoValidated\<rparr>"
definition stage8 :: trial_point where
  "stage8 = stage7\<lparr>dp_placed := [validated ex_order_sell, validated ex_order_buy],
     dp_log := [Placed (request_of ex_order_buy True), Placed (request_of ex_order_sell True), SawSnapshot trial_view]\<rparr>"
definition stage9 :: trial_point where "stage9 = stage8\<lparr>dp_log := SawSnapshot trial_view # dp_log stage8\<rparr>"

lemma trial_step1: "moves (step_venue_policy (recorded (trial False))) stage0 (Inr ()) stage0"
  by (simp add: step_venue_policy_def run_trial)

lemma trial_step2: "moves (step_kill_flag (recorded (trial False))) stage0 (Inr ()) stage0"
  by (simp add: step_kill_flag_def run_trial)

lemma trial_step3: "moves (step_mandate (recorded (trial False))) stage0 (Inr ()) stage1"
  by (simp add: step_mandate_def set_standing_def mandate_accepted_def run_trial trial_standing trial_active trial_from_mandate stage0_def stage1_def)

lemma trial_step4: "moves (step_decisions (recorded (trial False))) stage1 (Inr ()) stage2"
  by (simp add: step_decisions_def decide_sleeve_def and_then_def last_acted_def decision_of_def decision_is_new_def tranche_elapsed_def alert_gate_def
     run_trial trial_eval stage0_def stage1_def stage2_def)

lemma trial_step5: "moves (step_read_account (recorded (trial False))) stage2 (Inr ()) stage3"
  by (simp add: step_read_account_def read_snapshot_def and_then_def run_trial stage0_def stage1_def stage2_def stage3_def)

lemma trial_step6: "moves (step_halted_check (recorded (trial False))) stage3 (Inr ()) stage3"
  by (simp add: step_halted_check_def run_trial stage0_def stage1_def stage2_def stage3_def account_new_def)

lemma trial_step7: "moves (step_cleanup (recorded (trial False))) stage3 (Inr ()) stage3"
  by (simp add: step_cleanup_def run_trial)

lemma trial_step8: "moves (step_recon_pre (recorded (trial False))) stage3 (Inr ()) stage4"
  by (simp add: step_recon_pre_def in_flight_orders_def and_then_def get_or_stop_def downgrade_for_mode_def judge_recon_def report_ids_def
      run_trial trial_recon stage0_def stage1_def stage2_def stage3_def stage4_def)

lemma trial_step9: "moves (step_risk (recorded (trial False))) stage4 (Inr ()) stage5"
proof -
  obtain st dc tr where r: "trial_stepped = (st, dc, tr)" by (rule prod_cases3)
  have e: "step_with (account_new ''acc'') (snap_equity trial_view) 0 trial_risk_policy FirstObservation = (st, dc, tr)"
    using r by (simp add: trial_stepped_def)
  have "rd_action dc \<noteq> ActHaltFlatten" using trial_risk(3) unfolding r by simp
  then show ?thesis
    by (auto simp: step_risk_def and_then_def get_or_stop_def push_transition_def save_state_def pause_buys_def
      run_trial e r stage0_def stage1_def stage2_def stage3_def stage4_def stage5_def)
qed

lemma trial_step10: "moves (step_targets (recorded (trial False))) stage5 (Inr example_targets) stage6"
proof -
  have "[hd example_targets] = example_targets" by (simp add: example_targets_def)
  then show ?thesis
    by (auto simp: step_targets_def and_then_def trial_target run_trial stage0_def stage1_def stage2_def stage3_def stage4_def stage5_def stage6_def map_update)
qed

lemma trial_step11: "moves (step_plan (recorded (trial False)) example_targets) stage6 (Inr ex_plan) stage7"
  using trial_risk trial_plan [of False]
  by (simp add: step_plan_def plan_with_def prices_for_def day_counters_of_def get_or_stop_def and_then_def run_trial
      stage0_def stage1_def stage2_def stage3_def stage4_def stage5_def stage6_def stage7_def is_halt_def)

lemma place_calls:
  "run_state (call (bk_place (recording trial_broker) req)) s =
    (Inr (ValidatedOnly None \<lparr>sent_broker_pair = [], sent_side = req_side req, sent_quantity = req_quantity req, sent_price = None,
       sent_userref = 1, sent_validate_only = True\<rparr> []), s\<lparr>rn_world := ((), Placed req # log_of s)\<rparr>)"
  by (simp add: call_def recording_def trial_broker_def split: prod.splits)

lemma order_rehearsed:
  assumes "ac_status (rn_state s) = AsActive" and "rn_buys_paused s = None"
  shows "run_state (execute_and_record (recorded (trial k)) Rehearsal x) s =
    ((), s\<lparr>rn_world := ((), Placed (request_of x True) # log_of s), rn_rec := (rn_rec s)\<lparr>rr_placed := rr_placed (rn_rec s) @ [validated x]\<rparr>\<rparr>)"
  using assms
  by (simp add: execute_and_record_def execute_order_def send_journaled_def send_def Let_def ask_def edit_def change_def trial_calls place_calls
      buy_is_paused_def may_add_risk_def validated_def)

lemma trial_step12: "moves (step_execute (recorded (trial False)) example_targets ex_plan) stage7 (Inr ()) stage8"
proof -
  have "op_orders ex_plan = [ex_order_sell, ex_order_buy]" by (simp add: ex_plan_def)
  with trial_risk show ?thesis
    by (simp add: step_execute_def order_rehearsed run_trial stage0_def stage1_def stage2_def stage3_def stage4_def stage5_def stage6_def stage7_def stage8_def)
qed

lemma validated_settled [simp]:
  "last_look_up cx (validated x) = State_Monad.return (validated x)" "pd_outcome (validated x) = PoValidated" "carried (validated x)"
  by (simp_all add: last_look_up_def validated_def carried_def placed_new_def)

lemma trial_step13: "moves (step_recon_post (recorded (trial False))) stage8 (Inr ()) stage9"
proof -
  have "rr_verdict (reconcile \<lparr>ri_view = trial_view, ri_now = trial_now, ri_known_order_ids = [], ri_baseline = Some (baseline_from_snapshot trial_view),
     ri_orders = [expected_of False (validated ex_order_sell), expected_of False (validated ex_order_buy)],
     ri_tolerances = recon_default_tolerances\<rparr>) = ReconOk"
    using trial_recon_post by (simp add: validated_def)
  then show ?thesis
    by (simp add: step_recon_post_def and_then_def get_or_stop_def judge_recon_def run_trial
      stage0_def stage1_def stage2_def stage3_def stage4_def stage5_def stage6_def stage7_def stage8_def stage9_def)
qed

lemma trial_until: "moves (until_assess (recorded (trial False))) stage0 (Inr ()) stage9"
  unfolding until_assess_def
  by (rule moves_and_then [OF trial_step1], rule moves_and_then [OF trial_step2], rule moves_and_then [OF trial_step3], rule moves_and_then [OF trial_step4],
    rule moves_and_then [OF trial_step5], rule moves_and_then [OF trial_step6], rule moves_and_then [OF trial_step7], rule moves_and_then [OF trial_step8],
    rule moves_and_then [OF trial_step9], rule moves_and_then [OF trial_step10], rule moves_and_then [OF trial_step11], rule moves_and_then [OF trial_step12], rule trial_step13)

lemma trial_shortfalls: "point s stage9 \<Longrightarrow> shortfalls s = []"
proof -
  assume p: "point s stage9"
  then have "rr_plan (rn_rec s) = Some (summarize_plan ex_plan)" "rr_replan (rn_rec s) = None"
      "rr_placed (rn_rec s) = [validated ex_order_sell, validated ex_order_buy]" "rn_paused_tickets s = []"
    by (simp_all add: point_def stage9_def stage8_def stage7_def stage6_def stage5_def stage4_def stage3_def stage2_def stage1_def stage0_def)
  moreover have "op_denied ex_plan = []" "op_skipped ex_plan = []" by (simp_all add: ex_plan_def)
  ultimately show ?thesis by (simp add: shortfalls_def summarize_plan_def)
qed

lemma trial_started:
  "\<exists>s. run_once (recorded (trial False)) None ((), []) = (rn_rec s, s) \<and>
     map (\<lambda>x. (sd_planned x, sd_acted x)) (rr_decisions (rn_rec s)) = [(True, True)] \<and>
     sent (log_of s) = [request_of ex_order_buy True, request_of ex_order_sell True]"
proof -
  let ?C = "recorded (trial False)" and ?k = "run_key_new ''acc'' 0 [ss_id trial_sleeve]"
  let ?s0 = "noted ''acquire_run_key'' ((run_new ?C None ((), []) ?k trial_now)\<lparr>rn_rec := (run_record_new ?C ?k trial_now)\<lparr>rr_attempt := 1\<rparr>\<rparr>)"
  have "point ?s0 stage0" by (simp add: point_def stage0_def run_new_def run_record_new_def)
  then obtain t where t: "run_state (until_assess ?C) ?s0 = (Inr (), t)" "point t stage9"
    using trial_until unfolding moves_def by blast
  let ?t' = "t\<lparr>rn_carried := True, rn_rec := (rn_rec t)\<lparr>rr_outcome := \<lparr>ro_kind = OkCompleted, ro_code = run_code_as_str RcCompleted\<rparr>\<rparr>\<rparr>"
  have x: "run_state (execute ?C) ?s0 = (Inr (), ?t')"
    using t trial_shortfalls [OF t(2)] by (simp add: execute_eq and_then_def step_assess_def ask_def change_def stop_run_def edit_def ok_def)
  let ?u = "?t'\<lparr>rn_rec := mark_acted ?t' ((rn_rec ?t')\<lparr>rr_state_after := Some (ac_status (rn_state ?t')), rr_finished_at := trial_now\<rparr>)\<rparr>"
  have f: "run_state (finish_run ?C) ?t' = (rn_rec ?u, ?u)"
    by (simp add: finish_run_def trial_calls change_def ask_def)
  have n: "bk_now (recording trial_broker) ((), []) = (trial_now, ((), []))" by (simp add: recording_def trial_broker_def lift_io_def)
  have "run_once ?C None ((), []) = (rn_rec ?u, ?u)"
    using x f n by (simp add: run_once_def run_started_def edit_def change_def note_calls trial_calls run_new_def Let_def)
  moreover have "map (\<lambda>x. (sd_planned x, sd_acted x)) (rr_decisions (rn_rec ?u)) = [(True, True)]"
    using t(2) by (auto simp: point_def mark_acted_def stage9_def stage8_def stage7_def stage6_def)
  moreover have "sent (log_of ?u) = [request_of ex_order_buy True, request_of ex_order_sell True]"
    using t(2) by (simp add: point_def stage9_def stage8_def stage7_def stage6_def)
  ultimately show ?thesis by (intro exI [of _ ?u] conjI)
qed

lemma trial_killed:
  "\<exists>r s. run_once (recorded (trial True)) None ((), []) = (r, s) \<and> ro_kind (rr_outcome r) = OkRefused"
  by (simp add: run_once_def run_started_def execute_def and_then_def step_venue_policy_def step_kill_flag_def
      trial_calls note_calls refuse_def err_def stop_run_def edit_def change_def ask_def ok_def finish_run_def mark_acted_def Let_def
      recording_def trial_broker_def lift_io_def)

lemma trial_snapshots_ok: "snapshots_ok trial_broker"
  by (auto simp: snapshots_ok_def trial_broker_def trial_view_def snapshot_ok_def dec_ok_def in_i128_bound)

theorem run_respects_mode_witness:
  "\<exists>s. run_once (recorded (trial False)) None ((), []) = (rn_rec s, s) \<and> length (sent (log_of s)) = 2 \<and>
     mode_respected Paper (log_of s)"
proof -
  from trial_started obtain s where s: "run_once (recorded (trial False)) None ((), []) = (rn_rec s, s)"
    and l: "sent (log_of s) = [request_of ex_order_buy True, request_of ex_order_sell True]" by (elim exE conjE)
  have "length (sent (log_of s)) = 2" unfolding l by simp
  moreover have "mode_respected Paper (log_of s)" using run_respects_mode [OF s] by simp
  ultimately show ?thesis using s by (intro exI [of _ s] conjI)
qed

theorem run_orders_accounted_witness:
  "\<exists>s. run_once (recorded (trial False)) None ((), []) = (rn_rec s, s) \<and>
     (planned_request (trial False) (request_of ex_order_buy True) \<or>
      closing_request (trial False) (log_of s) (request_of ex_order_buy True))"
proof -
  obtain s where s: "run_once (recorded (trial False)) None ((), []) = (rn_rec s, s)"
    "request_of ex_order_buy True \<in> set (sent (log_of s))" using trial_started by (elim exE conjE) (rule that, assumption, simp)
  have "snapshots_ok (cx_broker (trial False))" "book_ok (cx_venue_rules (trial False))"
    using trial_snapshots_ok builtin_kraken_book_ok by (simp_all add: example_book_def)
  from run_orders_accounted [OF s(1) this s(2)] s(1) show ?thesis by (intro exI [of _ s] conjI)
qed

theorem refused_run_sends_nothing_witness:
  "\<exists>r s. run_once (recorded (trial True)) None ((), []) = (r, s) \<and> ro_kind (rr_outcome r) = OkRefused \<and> sent (log_of s) = []"
proof -
  from trial_killed obtain r s where r: "run_once (recorded (trial True)) None ((), []) = (r, s)" "ro_kind (rr_outcome r) = OkRefused"
    by (elim exE conjE)
  from refused_run_sends_nothing [OF r] r show ?thesis by (intro exI [of _ r] exI [of _ s] conjI)
qed


theorem replay_is_noop_witness:
  "let cx = (trial False)\<lparr>cx_begin := (\<lambda>k d t l w. (Inr (AlreadyDone example_record), w))\<rparr>
   in fst (run_once (recorded cx) None ((), [])) = example_record \<and> rn_world (snd (run_once (recorded cx) None ((), []))) = ((), [])"
  unfolding Let_def
  by (rule replay_is_noop [where t = trial_now and ?w1.0 = "()" and ?w2.0 = "()"]) (simp_all add: trial_broker_def)
end
