(* ===== verification/Userref.thy ===== *)
theory Userref
  imports Broker_Types "HOL-Library.Word"
begin

text \<open>
  \<open>broker-adapters/src/kraken/userref.rs\<close>: the table that gives every order tag its Kraken client
  reference. SHA-256 is a parameter \<open>sha\<close>, the bytes of a digest. The probing loop of \<open>assign\<close> runs
  until it finds a free value or is back where it began; it is a partial function, and that it always
  returns is proved. \<open>from_json\<close> and \<open>to_json\<close> are serde around \<open>from_entries\<close> and \<open>entries\<close>.
\<close>

unbundle bit_operations_syntax

section \<open>The table\<close>

definition I32_MAX :: int where "I32_MAX = 2 ^ 31 - 1"

datatype userref_error = UrEmptyTag | UrExhausted | UrOutOfRange int | UrConflict string

record userref_entry =
  ue_tag :: string
  ue_userref :: int

record userref_map =
  um_by_tag :: "(string, int) btree_map"
  um_by_ref :: "(int, string) btree_map"

definition userref_new :: userref_map where
  "userref_new = \<lparr>um_by_tag = [], um_by_ref = []\<rparr>"

text \<open>\<open>u32::from_be_bytes\<close> of the first four bytes, masked to 31 bits, 0 read as 1.\<close>

definition be_bytes :: "8 word list \<Rightarrow> 32 word" where
  "be_bytes bs = foldl (\<lambda>a b. push_bit 8 a OR ucast b) 0 (take 4 bs)"

definition userref_candidate :: "(string \<Rightarrow> 8 word list) \<Rightarrow> string \<Rightarrow> int" where
  "userref_candidate sha tag =
     (let v = be_bytes (sha (''mendl-userref-v1'' @ [char_of (0 :: nat)] @ tag)) AND 0x7FFFFFFF
      in if v = 0 then 1 else uint v)"

definition next_probe :: "int \<Rightarrow> int" where
  "next_probe r = (if r = I32_MAX then 1 else r + 1)"

definition insert_pair :: "string \<Rightarrow> int \<Rightarrow> userref_map \<Rightarrow> userref_map" where
  "insert_pair t r m = m\<lparr>um_by_tag := btm_insert t r (um_by_tag m), um_by_ref := btm_insert r t (um_by_ref m)\<rparr>"

definition from_entry :: "userref_map \<Rightarrow> userref_entry \<Rightarrow> userref_error + userref_map" where
  "from_entry m e =
     (if ue_tag e = [] then Inl UrEmptyTag
      else if ue_userref e < 1 then Inl (UrOutOfRange (ue_userref e))
      else case (map_of (um_by_tag m) (ue_tag e), map_of (um_by_ref m) (ue_userref e)) of
          (None, None) \<Rightarrow> Inr (insert_pair (ue_tag e) (ue_userref e) m)
        | (Some r, Some t) \<Rightarrow>
            if r = ue_userref e \<and> t = ue_tag e then Inr m
            else Inl (UrConflict (ue_tag e @ '' <-> '' @ show_int (ue_userref e)))
        | _ \<Rightarrow> Inl (UrConflict (ue_tag e @ '' <-> '' @ show_int (ue_userref e))))"

definition from_entries :: "userref_entry list \<Rightarrow> userref_error + userref_map" where
  "from_entries es = try_fold from_entry userref_new es"

definition userref_entries :: "userref_map \<Rightarrow> userref_entry list" where
  "userref_entries m = map (\<lambda>(t, r). \<lparr>ue_tag = t, ue_userref = r\<rparr>) (um_by_tag m)"

definition get_userref :: "userref_map \<Rightarrow> string \<Rightarrow> int option" where
  "get_userref m t = map_of (um_by_tag m) t"

definition tag_for_userref :: "userref_map \<Rightarrow> int \<Rightarrow> string option" where
  "tag_for_userref m r = map_of (um_by_ref m) r"

partial_function (option) probe :: "(int, string) btree_map \<Rightarrow> int \<Rightarrow> int \<Rightarrow> (userref_error + int) option" where
  "probe m start r =
     (if map_of m r = None then Some (Inr r)
      else if next_probe r = start then Some (Inl UrExhausted)
      else probe m start (next_probe r))"

definition assign :: "(string \<Rightarrow> 8 word list) \<Rightarrow> string \<Rightarrow> userref_map \<Rightarrow> ((userref_error + int) \<times> userref_map) option" where
  "assign sha tag m =
     (if tag = [] then Some (Inl UrEmptyTag, m)
      else case map_of (um_by_tag m) tag of
          Some r \<Rightarrow> Some (Inr r, m)
        | None \<Rightarrow>
            (let start = userref_candidate sha tag
             in map_option (\<lambda>res. case res of
                    Inr r \<Rightarrow> (Inr r, insert_pair tag r m)
                  | Inl e \<Rightarrow> (Inl e, m)) (probe (um_by_ref m) start start)))"

section \<open>The invariant\<close>

definition ref_ok :: "int \<Rightarrow> bool" where
  "ref_ok r \<longleftrightarrow> 1 \<le> r \<and> r \<le> I32_MAX"

text \<open>The two maps are inverse to each other; tags are not empty and references are positive 32-bit numbers.\<close>

definition userref_ok :: "userref_map \<Rightarrow> bool" where
  "userref_ok m \<longleftrightarrow> btm_ok (um_by_tag m) \<and> btm_ok (um_by_ref m)
     \<and> list_all (\<lambda>(t, r). t \<noteq> [] \<and> ref_ok r \<and> map_of (um_by_ref m) r = Some t) (um_by_tag m)
     \<and> list_all (\<lambda>(r, t). map_of (um_by_tag m) t = Some r) (um_by_ref m)"

lemma btm_map_of: "btm_ok m \<Longrightarrow> map_of m k = Some v \<longleftrightarrow> (k, v) \<in> set m"
  by (simp add: btm_ok_def strict_sorted_iff map_of_eq_Some_iff)

lemma userref_ok_iff:
  "userref_ok m \<longleftrightarrow> btm_ok (um_by_tag m) \<and> btm_ok (um_by_ref m)
     \<and> (\<forall>t r. map_of (um_by_tag m) t = Some r \<longleftrightarrow> map_of (um_by_ref m) r = Some t)
     \<and> (\<forall>t r. map_of (um_by_tag m) t = Some r \<longrightarrow> t \<noteq> [] \<and> ref_ok r)"
proof -
  have l: "list_all P xs \<longleftrightarrow> (\<forall>k v. map_of xs k = Some v \<longrightarrow> P (k, v))" if "btm_ok xs"
    for P and xs :: "('k::linorder \<times> 'v) list"
    using that by (auto simp: list_all_iff btm_map_of)
  show ?thesis
  proof (cases "btm_ok (um_by_tag m) \<and> btm_ok (um_by_ref m)")
    case True
    then have o: "btm_ok (um_by_tag m)" "btm_ok (um_by_ref m)" by auto
    show ?thesis unfolding userref_ok_def l [OF o(1)] l [OF o(2)] split_conv by blast
  qed (auto simp: userref_ok_def)
qed

lemma userref_ok_new: "userref_ok userref_new"
  by (simp add: userref_ok_def userref_new_def)

lemma userref_ok_insert:
  assumes "userref_ok m" and "t \<noteq> []" and "ref_ok r" and "map_of (um_by_tag m) t = None" and "map_of (um_by_ref m) r = None"
  shows "userref_ok (insert_pair t r m)"
  using assms unfolding userref_ok_iff insert_pair_def
  by (auto simp: map_of_btm_insert split: if_splits) (metis option.distinct(1))

section \<open>Probing\<close>

lemma candidate_ok: "ref_ok (userref_candidate sha tag)"
proof -
  define v :: "32 word" where "v = be_bytes (sha (''mendl-userref-v1'' @ [char_of (0 :: nat)] @ tag)) AND 0x7FFFFFFF"
  have "(0x7FFFFFFF :: 32 word) = mask 31" by (simp add: mask_eq_exp_minus_1)
  then have "v = take_bit 31 (be_bytes (sha (''mendl-userref-v1'' @ [char_of (0 :: nat)] @ tag)))"
    by (simp add: v_def take_bit_eq_mask)
  then have "uint v = take_bit 31 (uint (be_bytes (sha (''mendl-userref-v1'' @ [char_of (0 :: nat)] @ tag))))"
    by (simp only: unsigned_take_bit_eq)
  then have "uint v < 2 ^ 31" by (simp only: take_bit_int_less_exp)
  moreover have "v \<noteq> 0 \<Longrightarrow> 1 \<le> uint v" using uint_0_iff [of v] uint_ge_0 [of v] by linarith
  ultimately show ?thesis unfolding userref_candidate_def Let_def v_def [symmetric] by (simp add: ref_ok_def I32_MAX_def)
qed

lemma next_probe_ok: "ref_ok r \<Longrightarrow> ref_ok (next_probe r)"
  by (auto simp: ref_ok_def next_probe_def I32_MAX_def)

lemma mod_pred: "0 < n \<Longrightarrow> x mod n \<noteq> 0 \<Longrightarrow> (x - 1) mod n = x mod n - (1 :: int)"
proof -
  assume n: "0 < n" "x mod n \<noteq> 0"
  have "(x - 1) mod n = (x mod n - 1) mod n" by (simp add: mod_diff_left_eq)
  also have "\<dots> = x mod n - 1"
    using n pos_mod_sign [of n x] pos_mod_bound [of n x] by (intro mod_pos_pos_trivial) linarith+
  finally show ?thesis .
qed

lemma next_probe_mod: "(x - next_probe r) mod I32_MAX = (x - r - 1) mod I32_MAX"
proof (cases "r = I32_MAX")
  case True
  have "(x - 1 - I32_MAX) mod I32_MAX = (x - 1) mod I32_MAX" by (rule minus_mod_self2)
  with True show ?thesis by (simp add: next_probe_def algebra_simps)
qed (simp add: next_probe_def algebra_simps)

lemma ref_mod_eq:
  assumes "ref_ok q" and "ref_ok r" and "(q - r) mod I32_MAX = 0"
  shows "q = r"
proof (rule ccontr)
  assume "q \<noteq> r"
  moreover have "I32_MAX dvd \<bar>q - r\<bar>" using assms(3) [folded dvd_eq_mod_eq_0] by simp
  ultimately have "I32_MAX \<le> \<bar>q - r\<bar>" by (intro zdvd_imp_le) simp_all
  then show False using assms(1,2) unfolding ref_ok_def by linarith
qed

text \<open>
  From \<open>r\<close> the loop makes at most \<open>(start - r - 1) mod I32_MAX\<close> more steps, and has seen every value on
  the way when it gives up.
\<close>

lemma probe_returns:
  assumes "ref_ok start" and "ref_ok r" and "n = nat ((start - r - 1) mod I32_MAX)"
  shows "(\<exists>q. probe m start r = Some (Inr q) \<and> ref_ok q \<and> map_of m q = None)
    \<or> probe m start r = Some (Inl UrExhausted)
      \<and> (\<forall>q. ref_ok q \<longrightarrow> (q - r) mod I32_MAX \<le> (start - r - 1) mod I32_MAX \<longrightarrow> map_of m q \<noteq> None)"
  using assms(2,3)
proof (induction n arbitrary: r)
  case 0
  have pos: "0 < I32_MAX" by (simp add: I32_MAX_def)
  have "(start - r - 1) mod I32_MAX = 0" using 0(2) pos_mod_sign [OF pos, of "start - r - 1"] by linarith
  then have e: "(start - next_probe r) mod I32_MAX = 0" by (simp add: next_probe_mod)
  have q: "(q - r) mod I32_MAX \<le> 0 \<Longrightarrow> ref_ok q \<Longrightarrow> q = r" for q
    using ref_mod_eq [of q r] 0(1) pos_mod_sign [OF pos, of "q - r"] by linarith
  have s: "next_probe r = start" using ref_mod_eq [OF assms(1) next_probe_ok [OF 0(1)] e] by simp
  show ?case
    using 0 q s \<open>(start - r - 1) mod I32_MAX = 0\<close> by (subst (1 2) probe.simps) auto
next
  case (Suc n)
  have pos: "0 < I32_MAX" by (simp add: I32_MAX_def)
  let ?r = "next_probe r"
  have d: "(start - r - 1) mod I32_MAX \<noteq> 0" using Suc(3) by auto
  have "(start - ?r - 1) mod I32_MAX = ((start - ?r) mod I32_MAX - 1) mod I32_MAX" by (simp add: mod_diff_left_eq)
  then have s: "(start - ?r - 1) mod I32_MAX = (start - r - 1) mod I32_MAX - 1"
    using mod_pred [OF pos d] by (simp add: next_probe_mod mod_diff_left_eq)
  have "?r \<noteq> start" using d next_probe_mod [of start r] by auto
  then have eq: "probe m start r = (if map_of m r = None then Some (Inr r) else probe m start ?r)"
    using probe.simps [of m start r] by (simp only: if_False)
  have n: "n = nat ((start - ?r - 1) mod I32_MAX)" using Suc(3) s by linarith
  have q: "q = r \<or> (q - ?r) mod I32_MAX \<le> (start - ?r - 1) mod I32_MAX"
    if "ref_ok q" "(q - r) mod I32_MAX \<le> (start - r - 1) mod I32_MAX" for q
  proof (cases "(q - r) mod I32_MAX = 0")
    case True
    then show ?thesis using ref_mod_eq [OF that(1) Suc(2)] by simp
  next
    case False
    from mod_pred [OF pos this] show ?thesis using that(2) s by (simp add: next_probe_mod)
  qed
  show ?case
  proof (cases "map_of m r = None")
    case True
    then show ?thesis using Suc(2) eq by simp
  next
    case False
    then have "probe m start r = probe m start ?r" using eq by (simp only: if_False)
    then show ?thesis using Suc.IH [OF next_probe_ok [OF Suc(2)] n] q False by metis
  qed
qed

lemma probe_from_start:
  assumes "ref_ok start"
  shows "(\<exists>q. probe m start start = Some (Inr q) \<and> ref_ok q \<and> map_of m q = None)
    \<or> probe m start start = Some (Inl UrExhausted) \<and> (\<forall>q. ref_ok q \<longrightarrow> map_of m q \<noteq> None)"
proof -
  have pos: "0 < I32_MAX" by (simp add: I32_MAX_def)
  have "(start - start - 1) mod I32_MAX = I32_MAX - 1" by (simp add: I32_MAX_def)
  then have "(q - start) mod I32_MAX \<le> (start - start - 1) mod I32_MAX" for q
    using pos_mod_bound [OF pos, of "q - start"] by linarith
  then show ?thesis using probe_returns [OF assms assms refl, of m] by blast
qed

lemma exhausted_full:
  assumes ok: "userref_ok m" and full: "\<forall>q. ref_ok q \<longrightarrow> map_of (um_by_ref m) q \<noteq> None"
  shows "nat I32_MAX \<le> length (um_by_tag m)"
proof -
  have "{1..I32_MAX} \<subseteq> snd ` set (um_by_tag m)"
  proof
    fix q assume "q \<in> {1..I32_MAX}"
    then obtain t where "map_of (um_by_ref m) q = Some t" using full by (auto simp: ref_ok_def)
    then have "map_of (um_by_tag m) t = Some q" using ok by (simp add: userref_ok_iff)
    then show "q \<in> snd ` set (um_by_tag m)" by (force dest: map_of_SomeD)
  qed
  then have "card {1..I32_MAX} \<le> card (snd ` set (um_by_tag m))" by (intro card_mono) simp_all
  also have "\<dots> \<le> length (um_by_tag m)" using card_image_le [of "set (um_by_tag m)" snd] card_length [of "um_by_tag m"] by simp
  finally show ?thesis by simp
qed

text \<open>
  C36: \<open>assign\<close> always returns. On a consistent table it keeps the table consistent and every reference
  already given out; a tag that is not empty gets a reference of its own, from 1 to \<open>i32::MAX\<close>, unless
  all of them are taken.
\<close>

theorem assign_returns:
  assumes ok: "userref_ok m"
  shows "\<exists>res m'. assign sha tag m = Some (res, m') \<and> userref_ok m'
    \<and> (\<forall>t r. get_userref m t = Some r \<longrightarrow> get_userref m' t = Some r)
    \<and> (case res of
         Inr r \<Rightarrow> ref_ok r \<and> get_userref m' tag = Some r \<and> tag_for_userref m' r = Some tag
       | Inl UrEmptyTag \<Rightarrow> tag = [] \<and> m' = m
       | Inl e \<Rightarrow> e = UrExhausted \<and> nat I32_MAX \<le> length (um_by_tag m) \<and> m' = m)"
proof (cases "tag = [] \<or> map_of (um_by_tag m) tag \<noteq> None")
  case True
  then consider "tag = []" | r where "tag \<noteq> []" "map_of (um_by_tag m) tag = Some r" by blast
  then show ?thesis
  proof cases
    case 1
    then show ?thesis using ok by (simp add: assign_def)
  next
    case (2 r)
    moreover have "ref_ok r" "map_of (um_by_ref m) r = Some tag" using ok 2(2) unfolding userref_ok_iff by blast+
    ultimately show ?thesis using ok by (simp add: assign_def get_userref_def tag_for_userref_def)
  qed
next
  case False
  let ?s = "userref_candidate sha tag"
  from False have n: "tag \<noteq> []" "map_of (um_by_tag m) tag = None" by auto
  consider q where "probe (um_by_ref m) ?s ?s = Some (Inr q)" "ref_ok q" "map_of (um_by_ref m) q = None"
    | "probe (um_by_ref m) ?s ?s = Some (Inl UrExhausted)" "\<forall>q. ref_ok q \<longrightarrow> map_of (um_by_ref m) q \<noteq> None"
    using probe_from_start [OF candidate_ok, of "um_by_ref m" sha tag] by blast
  then show ?thesis
  proof cases
    case (1 q)
    then show ?thesis using n userref_ok_insert [OF ok n(1) 1(2) n(2) 1(3)]
      by (auto simp: assign_def get_userref_def tag_for_userref_def insert_pair_def map_of_btm_insert)
  next
    case 2
    then show ?thesis using n ok exhausted_full [OF ok 2(2)] by (simp add: assign_def)
  qed
qed

theorem assign_returns_witness:
  "\<exists>r m'. assign (\<lambda>_. [0, 0, 0, 7]) ''b'' (insert_pair ''a'' 7 userref_new) = Some (Inr r, m') \<and> userref_ok m'
    \<and> get_userref m' ''a'' = Some 7 \<and> tag_for_userref m' r = Some ''b''"
proof -
  have ok: "userref_ok (insert_pair ''a'' 7 userref_new)"
    by (rule userref_ok_insert [OF userref_ok_new]) (simp_all add: ref_ok_def I32_MAX_def userref_new_def)
  have a: "get_userref (insert_pair ''a'' 7 userref_new) ''a'' = Some 7"
    by (simp add: get_userref_def insert_pair_def userref_new_def)
  have l: "\<not> nat I32_MAX \<le> length (um_by_tag (insert_pair ''a'' 7 userref_new))"
    by (simp add: insert_pair_def userref_new_def I32_MAX_def)
  from assign_returns [OF ok, of "\<lambda>_. [0, 0, 0, 7]" "''b''"] a l show ?thesis
    by (fastforce split: sum.splits userref_error.splits)
qed

section \<open>Persistence\<close>

lemma btm_unique: "btm_ok a \<Longrightarrow> btm_ok b \<Longrightarrow> set a = set b \<Longrightarrow> a = b"
  unfolding btm_ok_def strict_sorted_iff
  by (rule map_sorted_distinct_set_unique [of fst]) (auto simp: distinct_map)

lemma from_entry_ok: "userref_ok m \<Longrightarrow> ue_userref e \<le> I32_MAX \<Longrightarrow> from_entry m e = Inr m' \<Longrightarrow> userref_ok m'"
  by (auto simp: from_entry_def ref_ok_def intro: userref_ok_insert split: if_splits option.splits)

lemma from_entries_ok:
  "list_all (\<lambda>e. ue_userref e \<le> I32_MAX) es \<Longrightarrow> from_entries es = Inr m \<Longrightarrow> userref_ok m"
proof -
  have "userref_ok a \<Longrightarrow> list_all (\<lambda>e. ue_userref e \<le> I32_MAX) es \<Longrightarrow> try_fold from_entry a es = Inr m \<Longrightarrow> userref_ok m" for a
    by (induction es arbitrary: a) (auto simp: res_inv dest: from_entry_ok)
  from this [OF userref_ok_new]
  show "list_all (\<lambda>e. ue_userref e \<le> I32_MAX) es \<Longrightarrow> from_entries es = Inr m \<Longrightarrow> userref_ok m"
    by (simp only: from_entries_def)
qed

lemma rebuild:
  assumes "userref_ok a" and "distinct (map fst ps)" and "distinct (map snd ps)"
    and "list_all (\<lambda>(t, r). t \<noteq> [] \<and> ref_ok r \<and> map_of (um_by_tag a) t = None \<and> map_of (um_by_ref a) r = None) ps"
  shows "\<exists>m. try_fold from_entry a (map (\<lambda>(t, r). \<lparr>ue_tag = t, ue_userref = r\<rparr>) ps) = Inr m \<and> userref_ok m
    \<and> (\<forall>t r. map_of (um_by_tag m) t = Some r \<longleftrightarrow> map_of (um_by_tag a) t = Some r \<or> (t, r) \<in> set ps)"
  using assms
proof (induction ps arbitrary: a)
  case (Cons p ps)
  obtain t r where p: "p = (t, r)" by force
  have n: "t \<noteq> []" "ref_ok r" "map_of (um_by_tag a) t = None" "map_of (um_by_ref a) r = None" using Cons.prems p by auto
  have e: "from_entry a \<lparr>ue_tag = t, ue_userref = r\<rparr> = Inr (insert_pair t r a)"
    using n by (simp add: from_entry_def ref_ok_def)
  have "list_all (\<lambda>(t', r'). t' \<noteq> [] \<and> ref_ok r' \<and> map_of (um_by_tag (insert_pair t r a)) t' = None
      \<and> map_of (um_by_ref (insert_pair t r a)) r' = None) ps"
  proof -
    have "t' \<noteq> t \<and> r' \<noteq> r" if "(t', r') \<in> set ps" for t' r'
      using Cons.prems(2,3) p image_eqI [OF _ that, of _ fst] image_eqI [OF _ that, of _ snd] by auto
    then show ?thesis using Cons.prems(4) p by (auto simp: list_all_iff insert_pair_def map_of_btm_insert)
  qed
  from Cons.IH [OF userref_ok_insert [OF Cons.prems(1) n] _ _ this] Cons.prems p obtain m where
    m: "try_fold from_entry (insert_pair t r a) (map (\<lambda>(t, r). \<lparr>ue_tag = t, ue_userref = r\<rparr>) ps) = Inr m" "userref_ok m"
      "\<forall>t' r'. map_of (um_by_tag m) t' = Some r' \<longleftrightarrow> map_of (um_by_tag (insert_pair t r a)) t' = Some r' \<or> (t', r') \<in> set ps"
    by auto
  show ?case using m e n p by (auto simp: insert_pair_def map_of_btm_insert)
qed auto

text \<open>
  C37: the entries a consistent table writes out rebuild exactly that table, so a restart from the
  persisted entries knows every reference it has given out.
\<close>

theorem userref_round_trip:
  assumes ok: "userref_ok m"
  shows "from_entries (userref_entries m) = Inr m"
proof -
  have bt: "btm_ok (um_by_tag m)" and br: "btm_ok (um_by_ref m)"
    and inv: "\<And>t r. map_of (um_by_tag m) t = Some r \<longleftrightarrow> map_of (um_by_ref m) r = Some t"
    and rng: "\<And>t r. map_of (um_by_tag m) t = Some r \<Longrightarrow> t \<noteq> [] \<and> ref_ok r"
    using ok by (auto simp: userref_ok_iff)
  have d: "distinct (map fst (um_by_tag m))" using bt by (simp add: btm_ok_def strict_sorted_iff)
  have "inj_on snd (set (um_by_tag m))"
    using inv bt by (intro inj_onI) (metis btm_map_of option.inject prod.collapse)
  then have d2: "distinct (map snd (um_by_tag m))" using d by (simp add: distinct_map)
  have "list_all (\<lambda>(t, r). t \<noteq> [] \<and> ref_ok r \<and> map_of (um_by_tag userref_new) t = None
      \<and> map_of (um_by_ref userref_new) r = None) (um_by_tag m)"
    using rng bt by (auto simp: list_all_iff userref_new_def btm_map_of)
  from rebuild [OF userref_ok_new d d2 this] obtain k where
    k: "from_entries (userref_entries m) = Inr k" "userref_ok k"
      "\<forall>t r. map_of (um_by_tag k) t = Some r \<longleftrightarrow> (t, r) \<in> set (um_by_tag m)"
    by (auto simp: from_entries_def userref_entries_def userref_new_def)
  from k(2) have kb: "btm_ok (um_by_tag k)" "btm_ok (um_by_ref k)"
    and kinv: "\<And>t r. map_of (um_by_tag k) t = Some r \<longleftrightarrow> map_of (um_by_ref k) r = Some t" by (auto simp: userref_ok_iff)
  have "um_by_tag k = um_by_tag m"
    using k(3) kb(1) by (intro btm_unique [OF _ bt]) (auto simp: btm_map_of)
  moreover have "um_by_ref k = um_by_ref m"
    using k(3) kb kinv inv by (intro btm_unique [OF _ br]) (auto simp: btm_map_of [symmetric] bt br)
  ultimately show ?thesis using k(1) by simp
qed

theorem userref_round_trip_witness:
  "from_entries [\<lparr>ue_tag = ''a'', ue_userref = 9\<rparr>, \<lparr>ue_tag = ''b'', ue_userref = 8\<rparr>]
     = Inr (insert_pair ''b'' 8 (insert_pair ''a'' 9 userref_new))"
proof -
  have ok: "userref_ok (insert_pair ''b'' 8 (insert_pair ''a'' 9 userref_new))" by code_simp
  have e: "userref_entries (insert_pair ''b'' 8 (insert_pair ''a'' 9 userref_new))
      = [\<lparr>ue_tag = ''a'', ue_userref = 9\<rparr>, \<lparr>ue_tag = ''b'', ue_userref = 8\<rparr>]" by code_simp
  from userref_round_trip [OF ok] show ?thesis unfolding e .
qed

end
