(* ===== verification/Key_Use.thy ===== *)
theory Key_Use
  imports Broker_Types "HOL-Library.Word"
begin

text \<open>
  \<open>broker-adapters/src/nonce.rs\<close> and \<open>key_permissions.rs\<close>: what an exchange key is used for. A nonce is a
  \<open>64 word\<close>; the clock is the list of its readings. The file of a nonce store is its text and that of
  the temporary file beside it; which file operations fail, and what a failed write leaves behind, is
  a list of faults in the state. The text is ASCII: bytes that are no UTF-8 would fail the read with
  \<open>Io\<close>, where the model has text that is no number and \<open>Corrupt\<close>, both errors. A read fault is an
  error other than the absence of the file. The locale says what a nonce store promises, and both
  stores of the source are instances of it.
\<close>

section \<open>Nonces\<close>

datatype nonce_error = NeIo string | NeCorrupt | NeExhausted

type_synonym nonce = "64 word"

definition next_after :: "nonce \<Rightarrow> nonce option \<Rightarrow> nonce_error + nonce" where
  "next_after candidate last1 =
     try_bind (case last1 of Some l \<Rightarrow> if l = - 1 then Inl NeExhausted else Inr (l + 1) | None \<Rightarrow> Inr 1)
       (\<lambda>floor1. Inr (max candidate floor1))"

text \<open>\<open>InMemoryNonceStore\<close>: the state is its last nonce.\<close>

definition memory_advance :: "nonce \<Rightarrow> nonce option \<Rightarrow> (nonce_error + nonce) \<times> nonce option" where
  "memory_advance candidate last1 =
     (case next_after candidate last1 of Inl e \<Rightarrow> (Inl e, last1) | Inr n \<Rightarrow> (Inr n, Some n))"

text \<open>\<open>str::parse::<u64>\<close>: an optional plus sign, at least one digit, within range.\<close>

definition parse_u64 :: "string \<Rightarrow> nonce option" where
  "parse_u64 s =
     (let ds = (if starts_with ''+'' s then tl s else s); v = digits_val 0 ds
      in if ds = [] \<or> \<not> list_all is_digit ds \<or> v \<ge> 2 ^ 64 then None else Some (of_int v))"

datatype fault = NoFault | Fault string "string option"

record nonce_file =
  nf_text :: "string option"
  nf_tmp :: "string option"
  nf_faults :: "fault list"

definition next_fault :: "nonce_file \<Rightarrow> fault \<times> nonce_file" where
  "next_fault w = (case nf_faults w of [] \<Rightarrow> (NoFault, w) | f # fs \<Rightarrow> (f, w\<lparr>nf_faults := fs\<rparr>))"

definition nonce_read :: "nonce_file \<Rightarrow> (nonce_error + nonce option) \<times> nonce_file" where
  "nonce_read w =
     (case next_fault w of
        (Fault e _, w') \<Rightarrow> (Inl (NeIo e), w')
      | (NoFault, w') \<Rightarrow>
          (case nf_text w' of
             None \<Rightarrow> (Inr None, w')
           | Some s \<Rightarrow> (case parse_u64 (trim s) of Some n \<Rightarrow> (Inr (Some n), w') | None \<Rightarrow> (Inl NeCorrupt, w'))))"

text \<open>The temporary file is written and synced, then renamed over the target.\<close>

definition nonce_write :: "nonce \<Rightarrow> nonce_file \<Rightarrow> (nonce_error + unit) \<times> nonce_file" where
  "nonce_write n w =
     (case next_fault w of
        (Fault e left, w') \<Rightarrow> (Inl (NeIo e), w'\<lparr>nf_tmp := left\<rparr>)
      | (NoFault, w') \<Rightarrow>
          (let w1 = w'\<lparr>nf_tmp := Some (show_nat (unat n) @ [CHR 0x0A])\<rparr>
           in case next_fault w1 of
                (Fault e _, w2) \<Rightarrow> (Inl (NeIo e), w2)
              | (NoFault, w2) \<Rightarrow> (Inr (), w2\<lparr>nf_text := nf_tmp w2, nf_tmp := None\<rparr>)))"

definition file_advance :: "nonce \<Rightarrow> nonce_file \<Rightarrow> (nonce_error + nonce) \<times> nonce_file" where
  "file_advance candidate w =
     (case nonce_read w of
        (Inl e, w1) \<Rightarrow> (Inl e, w1)
      | (Inr last1, w1) \<Rightarrow>
          (case next_after candidate last1 of
             Inl e \<Rightarrow> (Inl e, w1)
           | Inr n \<Rightarrow> (case nonce_write n w1 of (Inl e, w2) \<Rightarrow> (Inl e, w2) | (Inr _, w2) \<Rightarrow> (Inr n, w2))))"

text \<open>\<open>NonceGenerator::next\<close> called once per clock reading; the nonces it handed out.\<close>

fun nonces :: "(nonce \<Rightarrow> 's \<Rightarrow> (nonce_error + nonce) \<times> 's) \<Rightarrow> nonce list \<Rightarrow> 's \<Rightarrow> nonce list" where
  "nonces adv [] s = []"
| "nonces adv (c # cs) s =
     (case adv c s of (Inr n, s') \<Rightarrow> n # nonces adv cs s' | (Inl e, s') \<Rightarrow> nonces adv cs s')"

section \<open>What a nonce store promises\<close>

locale nonce_store =
  fixes advance :: "nonce \<Rightarrow> 's \<Rightarrow> (nonce_error + nonce) \<times> 's"
    and highest :: "'s \<Rightarrow> nonce option"
  assumes advance_ok: "advance c s = (Inr n, s') \<Longrightarrow> highest s' = Some n \<and> c \<le> n \<and> 1 \<le> n \<and> (\<forall>l. highest s = Some l \<longrightarrow> l < n)"
    and advance_err: "advance c s = (Inl e, s') \<Longrightarrow> highest s' = highest s"
begin

lemma nonces_above: "n \<in> set (nonces advance cs s) \<Longrightarrow> 1 \<le> n \<and> (\<forall>l. highest s = Some l \<longrightarrow> l < n)"
proof (induction cs arbitrary: s)
  case (Cons c cs)
  show ?case
  proof (cases "advance c s")
    case (Pair r s')
    show ?thesis
    proof (cases r)
      case (Inl e)
      then show ?thesis using Cons Pair advance_err [of c s e s'] by simp
    next
      case (Inr m)
      then show ?thesis using Cons Pair advance_ok [of c s m s'] by (force dest: less_trans)
    qed
  qed
qed simp

lemma nonces_increase: "sorted_wrt (<) (nonces advance cs s)"
proof (induction cs arbitrary: s)
  case (Cons c cs)
  then show ?case using nonces_above [of _ cs] advance_ok [of c s]
    by (force split: prod.splits sum.splits)
qed simp

end

lemma next_after_ok: "next_after c l = Inr n \<Longrightarrow> c \<le> n \<and> 1 \<le> n \<and> (\<forall>m. l = Some m \<longrightarrow> m < n)"
proof -
  assume "next_after c l = Inr n"
  moreover have "m < m + 1 \<and> 1 \<le> m + 1" if "m \<noteq> - 1" for m :: nonce
  proof -
    have "1 + m \<noteq> 0" using that by (simp add: add_eq_0_iff)
    then have "unat (m + 1) = Suc (unat m)" by (simp add: unatSuc add.commute)
    then show ?thesis by (simp add: word_less_nat_alt word_le_nat_alt)
  qed
  ultimately show ?thesis
    by (auto simp: next_after_def max_def res_inv not_le split: option.splits if_splits
        intro: order_trans [OF _ less_imp_le] less_trans)
qed

interpretation nmem: nonce_store memory_advance "\<lambda>l. l"
  by unfold_locales (auto simp: memory_advance_def dest: next_after_ok split: sum.splits)

definition file_highest :: "nonce_file \<Rightarrow> nonce option" where
  "file_highest w = Option.bind (nf_text w) (\<lambda>s. parse_u64 (trim s))"

lemma trim_line: "list_all is_digit s \<Longrightarrow> trim (s @ [CHR 0x0A]) = s"
proof -
  assume d: "list_all is_digit s"
  have "dropWhile is_space s = s" if "list_all is_digit s" for s
    using that is_digit_not by (cases s) auto
  moreover have "dropWhile is_space (s @ [CHR 0x0A]) = s @ [CHR 0x0A] \<or> s = []"
    using d is_digit_not by (cases s) auto
  moreover have "is_space (CHR 0x0A)" by (simp add: is_space_def code_def)
  ultimately show ?thesis using d by (auto simp: trim_def list_all_iff)
qed

lemma parse_show_u64: "parse_u64 (trim (show_nat (unat n) @ [CHR 0x0A])) = Some n"
proof -
  have p: "\<not> starts_with ''+'' (show_nat (unat n))"
    using show_nat_digits [of "unat n"] is_digit_not by (cases "show_nat (unat n)") (auto simp: starts_with_def)
  have "int (unat n) < 2 ^ 64" using unsigned_less [of n, where 'a = int] by simp
  with p show ?thesis unfolding trim_line [OF show_nat_digits]
    by (simp add: parse_u64_def Let_def show_nat_digits)
qed

lemma next_fault_text: "next_fault w = (f, w') \<Longrightarrow> nf_text w' = nf_text w \<and> nf_tmp w' = nf_tmp w"
  by (auto simp: next_fault_def split: list.splits)

lemma nonce_read_text: "nonce_read w = (r, w') \<Longrightarrow> nf_text w' = nf_text w \<and> (\<forall>l. r = Inr l \<longrightarrow> l = file_highest w)"
  by (auto simp: nonce_read_def file_highest_def dest!: next_fault_text split: prod.splits fault.splits option.splits)

lemma nonce_write_text:
  "nonce_write n w = (Inl e, w') \<Longrightarrow> nf_text w' = nf_text w"
  "nonce_write n w = (Inr (), w') \<Longrightarrow> nf_text w' = Some (show_nat (unat n) @ [CHR 0x0A])"
  by (auto simp: nonce_write_def Let_def dest!: next_fault_text split: prod.splits fault.splits)

lemma file_highest_cong: "nf_text w = nf_text w' \<Longrightarrow> file_highest w = file_highest w'"
  by (simp add: file_highest_def)

interpretation nfile: nonce_store file_advance file_highest
proof unfold_locales
  fix c w n w' assume a: "file_advance c w = (Inr n, w')"
  then obtain l w1 where r: "nonce_read w = (Inr l, w1)" "next_after c l = Inr n" "nonce_write n w1 = (Inr (), w')"
    by (auto simp: file_advance_def split: prod.splits sum.splits)
  show "file_highest w' = Some n \<and> c \<le> n \<and> 1 \<le> n \<and> (\<forall>l. file_highest w = Some l \<longrightarrow> l < n)"
    using next_after_ok [OF r(2)] nonce_write_text(2) [OF r(3)] nonce_read_text [OF r(1)]
    by (simp add: file_highest_def parse_show_u64)
next
  fix c w e w' assume "file_advance c w = (Inl e, w')"
  then have "nf_text w' = nf_text w"
    by (auto simp: file_advance_def dest!: nonce_read_text nonce_write_text split: prod.splits sum.splits)
  then show "file_highest w' = file_highest w" by (rule file_highest_cong)
qed

text \<open>
  C38: the nonces a key's file hands out are strictly increasing and above every nonce it holds already,
  whatever the clock reads and whichever reads, writes and renames fail; the file is the whole
  state, so this is across restarts too.
\<close>

theorem file_nonces_increase:
  "sorted_wrt (<) (nonces file_advance cs w) \<and> (\<forall>n l. n \<in> set (nonces file_advance cs w) \<longrightarrow> file_highest w = Some l \<longrightarrow> l < n)"
  using nfile.nonces_increase nfile.nonces_above by blast

theorem file_nonces_increase_witness:
  "nonces file_advance [9, 3, 3, 3] \<lparr>nf_text = Some (''7'' @ [CHR 0x0A]), nf_tmp = None,
     nf_faults = [NoFault, NoFault, NoFault, NoFault, Fault ''disk full'' None]\<rparr> = [9, 10, 11]
   \<and> (7 :: nonce) < 9"
proof -
  let ?w = "\<lparr>nf_text = Some (''7'' @ [CHR 0x0A]), nf_tmp = None,
     nf_faults = [NoFault, NoFault, NoFault, NoFault, Fault ''disk full'' None]\<rparr>"
  have v: "nonces file_advance [9, 3, 3, 3] ?w = [9, 10, 11]" and h: "file_highest ?w = Some 7" by code_simp+
  from file_nonces_increase [of "[9, 3, 3, 3]" ?w] v h show ?thesis by simp
qed

section \<open>Testing a key before it is stored\<close>

record key_permissions =
  kp_trading_enabled :: "bool option"
  kp_withdrawal_enabled :: "bool option"

datatype key_refusal = WithdrawalEnabled | WithdrawalNotReported | TradingDisabled | TradingNotReported

definition check_key_permissions :: "key_permissions \<Rightarrow> key_refusal + unit" where
  "check_key_permissions p =
     (case kp_withdrawal_enabled p of
        Some True \<Rightarrow> Inl WithdrawalEnabled
      | None \<Rightarrow> Inl WithdrawalNotReported
      | Some False \<Rightarrow>
          (case kp_trading_enabled p of
             Some True \<Rightarrow> Inr ()
           | Some False \<Rightarrow> Inl TradingDisabled
           | None \<Rightarrow> Inl TradingNotReported))"

datatype key_gate_error = KgRefused string key_refusal | KgProbeFailed string string | KgStoreFailed string

definition test_before_store ::
  "string \<Rightarrow> ('w \<Rightarrow> (string + key_permissions) \<times> 'w) \<Rightarrow> ('w \<Rightarrow> (string + 'a) \<times> 'w) \<Rightarrow> 'w \<Rightarrow> (key_gate_error + 'a) \<times> 'w" where
  "test_before_store venue read_permissions store w =
     (case read_permissions w of
        (Inl e, w1) \<Rightarrow> (Inl (KgProbeFailed venue e), w1)
      | (Inr p, w1) \<Rightarrow>
          (case check_key_permissions p of
             Inl r \<Rightarrow> (Inl (KgRefused venue r), w1)
           | Inr _ \<Rightarrow> (case store w1 of (Inl e, w2) \<Rightarrow> (Inl (KgStoreFailed e), w2) | (Inr x, w2) \<Rightarrow> (Inr x, w2))))"

lemma check_key_permissions_ok:
  "check_key_permissions p = Inr () \<longleftrightarrow> kp_trading_enabled p = Some True \<and> kp_withdrawal_enabled p = Some False"
  by (auto simp: check_key_permissions_def split: option.splits bool.splits)

text \<open>The store step runs only on a key the venue itself reports as able to trade and unable to withdraw.\<close>

lemma test_before_store_gate:
  "(\<exists>p w1. read_permissions w = (Inr p, w1) \<and> kp_trading_enabled p = Some True \<and> kp_withdrawal_enabled p = Some False
      \<and> snd (test_before_store v read_permissions store w) = snd (store w1))
   \<or> snd (test_before_store v read_permissions store w) = snd (read_permissions w)
      \<and> (\<exists>e. fst (test_before_store v read_permissions store w) = Inl e)"
proof (cases "read_permissions w")
  case (Pair r w1)
  show ?thesis
  proof (cases "\<exists>p. r = Inr p \<and> check_key_permissions p = Inr ()")
    case True
    then show ?thesis using Pair check_key_permissions_ok by (auto simp: test_before_store_def split: prod.splits sum.splits)
  next
    case False
    then show ?thesis using Pair by (cases r) (auto simp: test_before_store_def split: sum.splits)
  qed
qed

end
