(* ===== verification/Alerts.thy ===== *)
theory Alerts
  imports Run_Record
begin

text \<open>
  \<open>rebalancer-alerts/src/severity.rs\<close>, \<open>ledger.rs\<close>, \<open>template.rs\<close>, \<open>sender.rs\<close> and \<open>worker.rs\<close>: the
  delivery of alerts by e-mail. The ledger and the sender are traits: a record of functions over a
  state of any type; the in-memory ledger of the source is one such record. An instant is its number
  of nanoseconds, its text a parameter. The HTTP sender is left out, its error texts are not.
\<close>

section \<open>Severities and channels\<close>

datatype severity_level = SvInfo | SvWarning | SvCritical

definition severity_rank :: "severity_level \<Rightarrow> nat" where
  "severity_rank s = (case s of SvInfo \<Rightarrow> 0 | SvWarning \<Rightarrow> 1 | SvCritical \<Rightarrow> 2)"

instantiation severity_level :: linorder
begin

definition less_eq_severity_level :: "severity_level \<Rightarrow> severity_level \<Rightarrow> bool" where
  "less_eq_severity_level a b \<longleftrightarrow> severity_rank a \<le> severity_rank b"

definition less_severity_level :: "severity_level \<Rightarrow> severity_level \<Rightarrow> bool" where
  "less_severity_level a b \<longleftrightarrow> severity_rank a < severity_rank b"

instance
  by standard (auto simp: less_eq_severity_level_def less_severity_level_def severity_rank_def split: severity_level.splits)

end

definition severity_as_str :: "severity_level \<Rightarrow> string" where
  "severity_as_str s = (case s of SvInfo \<Rightarrow> ''info'' | SvWarning \<Rightarrow> ''warning'' | SvCritical \<Rightarrow> ''critical'')"

definition severity_parse :: "string \<Rightarrow> severity_level option" where
  "severity_parse s =
     (let t = to_lower (trim s)
      in if t = ''info'' then Some SvInfo else if t = ''warning'' then Some SvWarning
         else if t = ''critical'' then Some SvCritical else None)"

definition fallback_for_code :: "string \<Rightarrow> severity_level" where
  "fallback_for_code c =
     (if trim c \<in> {''ALERT_HALT'', ''ALERT_FLATTEN_INCOMPLETE'', ''ALERT_RUN_FAILED'', ''ACCOUNT_EXCLUDED_WITH_POSITIONS''}
      then SvCritical else SvWarning)"

definition severity_of_alert :: "alert_severity \<Rightarrow> severity_level" where
  "severity_of_alert s = (case s of AvInfo \<Rightarrow> SvInfo | AvWarning \<Rightarrow> SvWarning | AvCritical \<Rightarrow> SvCritical)"

definition delivery_severity :: "string \<Rightarrow> string \<Rightarrow> severity_level" where
  "delivery_severity c stored = (case severity_parse stored of Some s \<Rightarrow> s | None \<Rightarrow> fallback_for_code c)"

datatype channel_scope = ScTenant | ScPlatform

definition scope_as_str :: "channel_scope \<Rightarrow> string" where
  "scope_as_str s = (case s of ScTenant \<Rightarrow> ''tenant'' | ScPlatform \<Rightarrow> ''platform'')"

definition scope_parse :: "string \<Rightarrow> channel_scope option" where
  "scope_parse s =
     (let t = to_lower (trim s)
      in if t = ''tenant'' then Some ScTenant else if t = ''platform'' then Some ScPlatform else None)"

definition channel_applies :: "channel_scope \<Rightarrow> severity_level \<Rightarrow> bool" where
  "channel_applies sc sv = (case sc of ScTenant \<Rightarrow> True | ScPlatform \<Rightarrow> SvWarning \<le> sv)"

section \<open>The ledger\<close>

record pending_alert =
  pa_id :: string
  pa_tenant_id :: "string option"
  pa_account_id :: string
  pa_code :: string
  pa_severity :: string
  pa_message :: string
  pa_run_key :: string
  pa_dedupe_key :: string
  pa_at :: int
  pa_created_at :: int

record channel =
  ch_id :: string
  ch_scope :: channel_scope
  ch_tenant_id :: "string option"
  ch_kind :: string
  ch_address :: string

record new_delivery =
  nd_channel_id :: string
  nd_scope :: channel_scope
  nd_tenant_id :: "string option"
  nd_severity :: string
  nd_dedupe_key :: string
  nd_subject :: string
  nd_body :: string

record pending_delivery =
  pd_id :: string
  pd_channel_id :: string
  pd_kind :: string
  pd_address :: string
  pd_subject :: string
  pd_body :: string

type_synonym ledger_error = string

text \<open>\<open>trait DeliveryLedger\<close>.\<close>

record 'l ledger =
  lg_alerts_since :: "int \<Rightarrow> nat \<Rightarrow> 'l \<Rightarrow> (ledger_error + pending_alert list) \<times> 'l"
  lg_channels :: "'l \<Rightarrow> (ledger_error + channel list) \<times> 'l"
  lg_insert_if_absent :: "new_delivery \<Rightarrow> int \<Rightarrow> 'l \<Rightarrow> (ledger_error + bool) \<times> 'l"
  lg_undelivered :: "nat \<Rightarrow> 'l \<Rightarrow> (ledger_error + pending_delivery list) \<times> 'l"
  lg_mark_sent :: "string \<Rightarrow> string \<Rightarrow> int \<Rightarrow> 'l \<Rightarrow> (ledger_error + unit) \<times> 'l"
  lg_mark_error :: "string \<Rightarrow> string \<Rightarrow> 'l \<Rightarrow> (ledger_error + unit) \<times> 'l"

record stored_delivery =
  sd_id :: string
  sd_delivery :: new_delivery
  sd_created_at :: int
  sd_sent_at :: "int option"
  sd_provider_message_id :: "string option"
  sd_error :: "string option"

record ledger_inner =
  li_alerts :: "pending_alert list"
  li_channels :: "channel list"
  li_deliveries :: "stored_delivery list"
  li_by_key :: "(string \<times> string, nat) btree_map"
  li_next_id :: nat
  li_fail_next :: nat
  li_skip_before_fail :: nat

definition ledger_new :: ledger_inner where
  "ledger_new = \<lparr>li_alerts = [], li_channels = [], li_deliveries = [], li_by_key = [], li_next_id = 0, li_fail_next = 0,
     li_skip_before_fail = 0\<rparr>"

definition ledger_check :: "ledger_inner \<Rightarrow> (ledger_error + unit) \<times> ledger_inner" where
  "ledger_check g =
     (if 0 < li_skip_before_fail g then (Inr (), g\<lparr>li_skip_before_fail := li_skip_before_fail g - 1\<rparr>)
      else if 0 < li_fail_next g then (Inl ''injected failure'', g\<lparr>li_fail_next := li_fail_next g - 1\<rparr>)
      else (Inr (), g))"

definition checked :: "(ledger_inner \<Rightarrow> 'a \<times> ledger_inner) \<Rightarrow> ledger_inner \<Rightarrow> (ledger_error + 'a) \<times> ledger_inner" where
  "checked f g =
     (case ledger_check g of
        (Inl e, g1) \<Rightarrow> (Inl e, g1)
      | (Inr _, g1) \<Rightarrow> (case f g1 of (x, g2) \<Rightarrow> (Inr x, g2)))"

definition ledger_fail_next :: "nat \<Rightarrow> ledger_inner \<Rightarrow> ledger_inner" where
  "ledger_fail_next n g = g\<lparr>li_fail_next := n\<rparr>"

definition fail_after :: "nat \<Rightarrow> nat \<Rightarrow> ledger_inner \<Rightarrow> ledger_inner" where
  "fail_after k n g = g\<lparr>li_skip_before_fail := k, li_fail_next := n\<rparr>"

definition add_alert :: "pending_alert \<Rightarrow> ledger_inner \<Rightarrow> ledger_inner" where
  "add_alert a g = g\<lparr>li_alerts := li_alerts g @ [a]\<rparr>"

definition add_channel :: "channel \<Rightarrow> ledger_inner \<Rightarrow> ledger_inner" where
  "add_channel c g = g\<lparr>li_channels := li_channels g @ [c]\<rparr>"

definition mem_alerts_since :: "int \<Rightarrow> nat \<Rightarrow> ledger_inner \<Rightarrow> (ledger_error + pending_alert list) \<times> ledger_inner" where
  "mem_alerts_since since limit =
     checked (\<lambda>g. (take limit (sort_key (\<lambda>a. (pa_created_at a, pa_id a)) (filter (\<lambda>a. since < pa_created_at a) (li_alerts g))), g))"

definition mem_channels :: "ledger_inner \<Rightarrow> (ledger_error + channel list) \<times> ledger_inner" where
  "mem_channels = checked (\<lambda>g. (li_channels g, g))"

definition delivery_key :: "new_delivery \<Rightarrow> string \<times> string" where
  "delivery_key d = (nd_channel_id d, nd_dedupe_key d)"

definition insert_row :: "new_delivery \<Rightarrow> int \<Rightarrow> ledger_inner \<Rightarrow> bool \<times> ledger_inner" where
  "insert_row d now g =
     (if map_of (li_by_key g) (delivery_key d) \<noteq> None then (False, g)
      else
        (let n = li_next_id g + 1;
             row = \<lparr>sd_id = ''d'' @ show_nat n, sd_delivery = d, sd_created_at = now, sd_sent_at = None,
                    sd_provider_message_id = None, sd_error = None\<rparr>
         in (True, g\<lparr>li_next_id := n, li_deliveries := li_deliveries g @ [row],
                     li_by_key := btm_insert (delivery_key d) (length (li_deliveries g)) (li_by_key g)\<rparr>)))"

definition mem_insert_if_absent :: "new_delivery \<Rightarrow> int \<Rightarrow> ledger_inner \<Rightarrow> (ledger_error + bool) \<times> ledger_inner" where
  "mem_insert_if_absent d now = checked (insert_row d now)"

definition row_pending :: "stored_delivery \<Rightarrow> bool" where
  "row_pending d \<longleftrightarrow> sd_sent_at d = None \<and> sd_error d = None"

definition pending_of :: "channel list \<Rightarrow> stored_delivery \<Rightarrow> pending_delivery option" where
  "pending_of chans d =
     map_option (\<lambda>c. \<lparr>pd_id = sd_id d, pd_channel_id = ch_id c, pd_kind = ch_kind c, pd_address = ch_address c,
         pd_subject = nd_subject (sd_delivery d), pd_body = nd_body (sd_delivery d)\<rparr>)
       (find (\<lambda>c. ch_id c = nd_channel_id (sd_delivery d)) chans)"

definition mem_undelivered :: "nat \<Rightarrow> ledger_inner \<Rightarrow> (ledger_error + pending_delivery list) \<times> ledger_inner" where
  "mem_undelivered limit =
     checked (\<lambda>g. (take limit (List.map_filter (pending_of (li_channels g)) (filter row_pending (li_deliveries g))), g))"

text \<open>\<open>iter_mut().find(..)\<close>: the first row that matches is changed.\<close>

fun mark_first :: "('a \<Rightarrow> bool) \<Rightarrow> ('a \<Rightarrow> 'a) \<Rightarrow> 'a list \<Rightarrow> 'a list" where
  "mark_first p f [] = []"
| "mark_first p f (x # xs) = (if p x then f x # xs else x # mark_first p f xs)"

definition mark_row :: "(stored_delivery \<Rightarrow> stored_delivery) \<Rightarrow> string \<Rightarrow> ledger_inner \<Rightarrow> unit \<times> ledger_inner" where
  "mark_row f i g = ((), g\<lparr>li_deliveries := mark_first (\<lambda>d. sd_id d = i \<and> row_pending d) f (li_deliveries g)\<rparr>)"

definition mem_mark_sent :: "string \<Rightarrow> string \<Rightarrow> int \<Rightarrow> ledger_inner \<Rightarrow> (ledger_error + unit) \<times> ledger_inner" where
  "mem_mark_sent i provider t =
     checked (mark_row (\<lambda>d. d\<lparr>sd_sent_at := Some t, sd_provider_message_id := Some provider\<rparr>) i)"

definition mem_mark_error :: "string \<Rightarrow> string \<Rightarrow> ledger_inner \<Rightarrow> (ledger_error + unit) \<times> ledger_inner" where
  "mem_mark_error i e = checked (mark_row (\<lambda>d. d\<lparr>sd_error := Some e\<rparr>) i)"

definition mem_ledger :: "ledger_inner ledger" where
  "mem_ledger = \<lparr>lg_alerts_since = mem_alerts_since, lg_channels = mem_channels, lg_insert_if_absent = mem_insert_if_absent,
     lg_undelivered = mem_undelivered, lg_mark_sent = mem_mark_sent, lg_mark_error = mem_mark_error\<rparr>"

section \<open>The text of an alert\<close>

record rendered =
  rn_subject :: string
  rn_body :: string

definition what_to_do :: "string \<Rightarrow> string option" where
  "what_to_do c =
     (let t = trim c in
      if t = ''ALERT_HALT'' then Some (
          ''What to do: the account is halted and will not trade again until a person resumes it. Check the '' @
          ''broker account and the run record, then resume through the human endpoint only once the cause is '' @
          ''understood.'')
      else if t = ''ALERT_STILL_HALTED'' then Some (
          ''What to do: the account is still halted; nothing runs until a person resumes it. If the halt was '' @
          ''already investigated, resume it; otherwise investigate before resuming.'')
      else if t = ''ALERT_FLATTEN_INCOMPLETE'' then Some (
          ''What to do: the flatten did not verify flat. Open the broker account NOW, close any remaining '' @
          ''positions by hand, and do not resume until the account verifies flat.'')
      else if t = ''ALERT_RUN_FAILED'' then Some (
          ''What to do: the run failed closed and traded nothing. Read the run record's outcome code; if it '' @
          ''persists past the retry window, the decision is being missed and needs a person.'')
      else if t = ''ALERT_DECISION_NOT_ACTED'' then Some (
          ''What to do: a planned order was not carried out, so the decision stays pending and is planned again '' @
          ''next run. Check the placed orders in the run record for a venue refusal or guard denial.'')
      else if t = ''ALERT_HEARTBEAT_FAILED'' then Some (
          ''What to do: the service could not reach its external monitor; the monitor will page as if the service '' @
          ''were down. Check network egress from the service and the monitor URL.'')
      else if t = ''ACCOUNT_EXCLUDED_WITH_POSITIONS'' then Some (
          ''What to do: this account is no longer being managed, but its positions are being HELD, not sold: '' @
          ''nothing has been liquidated and nothing will be. New orders are blocked and the old limits no longer '' @
          ''run. Approve a new proposal for the account or sign off on the holdings; until then this alert '' @
          ''repeats at 1, 7 and 30 days.'')
      else None)"

definition alert_subject :: "severity_level \<Rightarrow> string \<Rightarrow> string \<Rightarrow> string" where
  "alert_subject s c account = ''[Mendl Labs] '' @ severity_as_str s @ '' '' @ trim c @ '' '' @ trim account"

abbreviation nl :: string where "nl \<equiv> [CHR 0x0A]"

definition render :: "(int \<Rightarrow> string) \<Rightarrow> pending_alert \<Rightarrow> severity_level \<Rightarrow> rendered" where
  "render rfc3339 a s =
     \<lparr>rn_subject = alert_subject s (pa_code a) (pa_account_id a),
      rn_body = ''Severity: '' @ severity_as_str s @ nl @ ''Code:     '' @ trim (pa_code a) @ nl
        @ ''Account:  '' @ trim (pa_account_id a) @ nl @ ''Run:      '' @ trim (pa_run_key a) @ nl
        @ ''At:       '' @ rfc3339 (pa_at a) @ nl @ nl @ trim (pa_message a) @ nl
        @ (case what_to_do (pa_code a) of Some action \<Rightarrow> nl @ action @ nl | None \<Rightarrow> [])
        @ nl @ ''-- '' @ nl @ ''Mendl Labs rebalancer. This alert is also recorded in the run record; de-duplication key: ''
        @ trim (pa_dedupe_key a) @ nl\<rparr>"

section \<open>The sender\<close>

record outbound_email =
  oe_to :: string
  oe_subject :: string
  oe_body :: string

datatype send_error = SeDisabled | SeRejected nat string | SeTransport string | SeMalformed string

definition is_control :: "char \<Rightarrow> bool" where
  "is_control c \<longleftrightarrow> code c < 32 \<or> code c = 127"

definition bounded :: "string \<Rightarrow> string" where
  "bounded s = (let t = filter (\<lambda>c. \<not> is_control c) s in if 240 < length t then take 240 t @ ''...'' else t)"

definition ledger_text :: "send_error \<Rightarrow> string" where
  "ledger_text e =
     bounded (case e of
        SeDisabled \<Rightarrow> ''sender_disabled''
      | SeRejected status detail \<Rightarrow> ''provider_rejected:'' @ show_nat status @ '':'' @ detail
      | SeTransport d \<Rightarrow> ''transport:'' @ d
      | SeMalformed d \<Rightarrow> ''malformed_response:'' @ d)"

type_synonym 's sender = "outbound_email \<Rightarrow> 's \<Rightarrow> (send_error + string) \<times> 's"

definition disabled_sender :: "'s sender" where
  "disabled_sender m s = (Inl SeDisabled, s)"

section \<open>The worker\<close>

definition ALERTS_PER_TICK :: nat where "ALERTS_PER_TICK = 200"
definition SENDS_PER_TICK :: nat where "SENDS_PER_TICK = 100"

definition alerts_enabled :: "(string \<Rightarrow> string option) \<Rightarrow> bool" where
  "alerts_enabled lookup = (case lookup ''ALERTS_ENABLED'' of Some v \<Rightarrow> trim v = ''true'' | None \<Rightarrow> False)"

record tick_report =
  tk_alerts_seen :: nat
  tk_deliveries_inserted :: nat
  tk_deliveries_deduped :: nat
  tk_alerts_without_channel :: nat
  tk_sent :: nat
  tk_send_errors :: nat
  tk_failures :: "string list"

definition tick_report_default :: tick_report where
  "tick_report_default = \<lparr>tk_alerts_seen = 0, tk_deliveries_inserted = 0, tk_deliveries_deduped = 0,
     tk_alerts_without_channel = 0, tk_sent = 0, tk_send_errors = 0, tk_failures = []\<rparr>"

record ('l, 's) worker =
  wk_ledger :: 'l
  wk_sender :: 's
  wk_watermark :: int

definition worker_new :: "'l \<Rightarrow> 's \<Rightarrow> int \<Rightarrow> int \<Rightarrow> ('l, 's) worker" where
  "worker_new l s now backlog = \<lparr>wk_ledger = l, wk_sender = s, wk_watermark = now - backlog\<rparr>"

definition same_tenant :: "channel \<Rightarrow> pending_alert \<Rightarrow> bool" where
  "same_tenant c a =
     (case ch_scope c of
        ScPlatform \<Rightarrow> True
      | ScTenant \<Rightarrow>
          (case (ch_tenant_id c, pa_tenant_id a) of
             (Some ct, Some tn) \<Rightarrow> eq_ignore_case (trim ct) (trim tn)
           | _ \<Rightarrow> False))"

definition channels_for :: "pending_alert \<Rightarrow> channel list \<Rightarrow> channel list" where
  "channels_for a chans =
     (let sv = delivery_severity (pa_code a) (pa_severity a)
      in filter (\<lambda>c. same_tenant c a) (filter (\<lambda>c. channel_applies (ch_scope c) sv) chans))"

definition delivery_for :: "(int \<Rightarrow> string) \<Rightarrow> pending_alert \<Rightarrow> channel \<Rightarrow> new_delivery" where
  "delivery_for rfc3339 a c =
     (let sv = delivery_severity (pa_code a) (pa_severity a); r = render rfc3339 a sv
      in \<lparr>nd_channel_id = ch_id c, nd_scope = ch_scope c, nd_tenant_id = ch_tenant_id c, nd_severity = severity_as_str sv,
          nd_dedupe_key = pa_dedupe_key a, nd_subject = rn_subject r, nd_body = rn_body r\<rparr>)"

fun insert_all :: "'l ledger \<Rightarrow> int \<Rightarrow> new_delivery list \<Rightarrow> tick_report \<Rightarrow> 'l \<Rightarrow> (ledger_error + unit) \<times> tick_report \<times> 'l" where
  "insert_all lg now [] rep l = (Inr (), rep, l)"
| "insert_all lg now (d # ds) rep l =
     (case lg_insert_if_absent lg d now l of
        (Inl e, l1) \<Rightarrow> (Inl e, rep, l1)
      | (Inr True, l1) \<Rightarrow> insert_all lg now ds (rep\<lparr>tk_deliveries_inserted := tk_deliveries_inserted rep + 1\<rparr>) l1
      | (Inr False, l1) \<Rightarrow> insert_all lg now ds (rep\<lparr>tk_deliveries_deduped := tk_deliveries_deduped rep + 1\<rparr>) l1)"

definition count_alert :: "bool \<Rightarrow> tick_report \<Rightarrow> tick_report" where
  "count_alert none rep =
     (let rep1 = rep\<lparr>tk_alerts_seen := tk_alerts_seen rep + 1\<rparr>
      in if none then rep1\<lparr>tk_alerts_without_channel := tk_alerts_without_channel rep1 + 1\<rparr> else rep1)"

fun ingest_alerts ::
  "(int \<Rightarrow> string) \<Rightarrow> 'l ledger \<Rightarrow> int \<Rightarrow> channel list \<Rightarrow> pending_alert list \<Rightarrow> int \<Rightarrow> tick_report \<Rightarrow> 'l \<Rightarrow> (ledger_error + int) \<times> tick_report \<times> 'l" where
  "ingest_alerts rfc lg now chans [] newest rep l = (Inr newest, rep, l)"
| "ingest_alerts rfc lg now chans (a # as) newest rep l =
     (let targets = channels_for a chans
      in case insert_all lg now (map (delivery_for rfc a) targets) (count_alert (targets = []) rep) l of
           (Inl e, rep1, l1) \<Rightarrow> (Inl e, rep1, l1)
         | (Inr _, rep1, l1) \<Rightarrow>
             ingest_alerts rfc lg now chans as (if newest < pa_created_at a then pa_created_at a else newest) rep1 l1)"

definition ingest ::
  "(int \<Rightarrow> string) \<Rightarrow> 'l ledger \<Rightarrow> int \<Rightarrow> tick_report \<Rightarrow> ('l, 's) worker \<Rightarrow> (ledger_error + unit) \<times> tick_report \<times> ('l, 's) worker" where
  "ingest rfc lg now rep w =
     (case lg_alerts_since lg (wk_watermark w) ALERTS_PER_TICK (wk_ledger w) of
        (Inl e, l1) \<Rightarrow> (Inl e, rep, w\<lparr>wk_ledger := l1\<rparr>)
      | (Inr alerts, l1) \<Rightarrow>
          if alerts = [] then (Inr (), rep, w\<lparr>wk_ledger := l1\<rparr>)
          else
            (case lg_channels lg l1 of
               (Inl e, l2) \<Rightarrow> (Inl e, rep, w\<lparr>wk_ledger := l2\<rparr>)
             | (Inr chans, l2) \<Rightarrow>
                 (case ingest_alerts rfc lg now chans alerts (wk_watermark w) rep l2 of
                    (Inl e, rep1, l3) \<Rightarrow> (Inl e, rep1, w\<lparr>wk_ledger := l3\<rparr>)
                  | (Inr newest, rep1, l3) \<Rightarrow> (Inr (), rep1, w\<lparr>wk_ledger := l3, wk_watermark := newest\<rparr>))))"

definition email_of :: "pending_delivery \<Rightarrow> outbound_email" where
  "email_of d = \<lparr>oe_to = pd_address d, oe_subject = pd_subject d, oe_body = pd_body d\<rparr>"

fun send_all ::
  "'l ledger \<Rightarrow> 's sender \<Rightarrow> int \<Rightarrow> pending_delivery list \<Rightarrow> tick_report \<Rightarrow> 'l \<Rightarrow> 's \<Rightarrow> (ledger_error + unit) \<times> tick_report \<times> 'l \<times> 's" where
  "send_all lg send now [] rep l s = (Inr (), rep, l, s)"
| "send_all lg send now (d # ds) rep l s =
     (if trim (pd_kind d) \<noteq> ''email'' then
        (case lg_mark_error lg (pd_id d) (''unsupported_channel_kind:'' @ trim (pd_kind d)) l of
           (Inl e, l1) \<Rightarrow> (Inl e, rep, l1, s)
         | (Inr _, l1) \<Rightarrow> send_all lg send now ds (rep\<lparr>tk_send_errors := tk_send_errors rep + 1\<rparr>) l1 s)
      else
        (case send (email_of d) s of
           (Inr mid, s1) \<Rightarrow>
             (case lg_mark_sent lg (pd_id d) mid now l of
                (Inl e, l1) \<Rightarrow> (Inl e, rep, l1, s1)
              | (Inr _, l1) \<Rightarrow> send_all lg send now ds (rep\<lparr>tk_sent := tk_sent rep + 1\<rparr>) l1 s1)
         | (Inl err, s1) \<Rightarrow>
             (case lg_mark_error lg (pd_id d) (case err of SeDisabled \<Rightarrow> ''sender_disabled'' | _ \<Rightarrow> ledger_text err) l of
                (Inl e, l1) \<Rightarrow> (Inl e, rep, l1, s1)
              | (Inr _, l1) \<Rightarrow> send_all lg send now ds (rep\<lparr>tk_send_errors := tk_send_errors rep + 1\<rparr>) l1 s1)))"

definition send_pending ::
  "'l ledger \<Rightarrow> 's sender \<Rightarrow> int \<Rightarrow> tick_report \<Rightarrow> ('l, 's) worker \<Rightarrow> (ledger_error + unit) \<times> tick_report \<times> ('l, 's) worker" where
  "send_pending lg send now rep w =
     (case lg_undelivered lg SENDS_PER_TICK (wk_ledger w) of
        (Inl e, l1) \<Rightarrow> (Inl e, rep, w\<lparr>wk_ledger := l1\<rparr>)
      | (Inr ds, l1) \<Rightarrow>
          (case send_all lg send now ds rep l1 (wk_sender w) of
             (r, rep1, l2, s2) \<Rightarrow> (r, rep1, w\<lparr>wk_ledger := l2, wk_sender := s2\<rparr>)))"

definition note_failure :: "string \<Rightarrow> ledger_error + unit \<Rightarrow> tick_report \<Rightarrow> tick_report" where
  "note_failure what r rep =
     (case r of
        Inl e \<Rightarrow> rep\<lparr>tk_failures := tk_failures rep @ [what @ '': ALERT_STORE_UNAVAILABLE: '' @ e]\<rparr>
      | Inr _ \<Rightarrow> rep)"

definition worker_run ::
  "(int \<Rightarrow> string) \<Rightarrow> 'l ledger \<Rightarrow> 's sender \<Rightarrow> int \<Rightarrow> ('l, 's) worker \<Rightarrow> tick_report \<times> ('l, 's) worker" where
  "worker_run rfc lg send now w =
     (case ingest rfc lg now tick_report_default w of
        (r1, rep1, w1) \<Rightarrow>
          (case send_pending lg send now (note_failure ''ingest'' r1 rep1) w1 of
             (r2, rep2, w2) \<Rightarrow> (note_failure ''send'' r2 rep2, w2)))"

end
