(* ===== verification/Alerts_Props.thy ===== *)
theory Alerts_Props
  imports Alerts Decision "HOL-Library.Sublist"
begin

text \<open>
  What the delivery of alerts guarantees. The locale \<open>delivery_ledger\<close> is the contract of the ledger
  trait over an abstract view of the tables; the worker is proved against it, and the in-memory ledger
  is an instance, injected failures included.
\<close>

section \<open>The contract of a ledger\<close>

record ledger_view =
  lv_alerts :: "pending_alert list"
  lv_channels :: "channel list"
  lv_rows :: "stored_delivery list"

definition delivery_keys :: "ledger_view \<Rightarrow> (string \<times> string) set" where
  "delivery_keys v = (\<lambda>d. delivery_key (sd_delivery d)) ` set (lv_rows v)"

text \<open>Once written, a row keeps its content, and a row marked sent or failed never changes again.\<close>

definition row_step :: "stored_delivery \<Rightarrow> stored_delivery \<Rightarrow> bool" where
  "row_step d d' \<longleftrightarrow> sd_id d' = sd_id d \<and> sd_delivery d' = sd_delivery d \<and> sd_created_at d' = sd_created_at d
     \<and> (\<not> row_pending d \<longrightarrow> d' = d)"

definition rows_grow :: "stored_delivery list \<Rightarrow> stored_delivery list \<Rightarrow> bool" where
  "rows_grow ds ds' \<longleftrightarrow> (\<exists>old new. ds' = old @ new \<and> list_all2 row_step ds old)"

definition view_grows :: "ledger_view \<Rightarrow> ledger_view \<Rightarrow> bool" where
  "view_grows v v' \<longleftrightarrow> lv_alerts v' = lv_alerts v \<and> lv_channels v' = lv_channels v \<and> rows_grow (lv_rows v) (lv_rows v')"

text \<open>A batch holds alerts after \<open>since\<close>; what it leaves out is not older than anything in it, and it is full then.\<close>

definition batch_of :: "int \<Rightarrow> nat \<Rightarrow> pending_alert list \<Rightarrow> pending_alert list \<Rightarrow> bool" where
  "batch_of since n all batch \<longleftrightarrow>
     list_all (\<lambda>a. a \<in> set all \<and> since < pa_created_at a) batch
     \<and> list_all (\<lambda>a. since < pa_created_at a \<longrightarrow> a \<in> set batch
         \<or> n \<le> length batch \<and> list_all (\<lambda>b. pa_created_at b \<le> pa_created_at a) batch) all"

locale delivery_ledger =
  fixes lg :: "'l ledger" and ok :: "'l \<Rightarrow> bool" and view :: "'l \<Rightarrow> ledger_view"
  assumes unique: "ok l \<Longrightarrow> distinct (map sd_id (lv_rows (view l))) \<and> distinct (map (\<lambda>d. delivery_key (sd_delivery d)) (lv_rows (view l)))"
    and alerts_since_law: "ok l \<Longrightarrow> lg_alerts_since lg since n l = (ra, l') \<Longrightarrow> ok l' \<and> view l' = view l
        \<and> (\<forall>as. ra = Inr as \<longrightarrow> batch_of since n (lv_alerts (view l)) as)"
    and channels_law: "ok l \<Longrightarrow> lg_channels lg l = (rc, l') \<Longrightarrow> ok l' \<and> view l' = view l \<and> (\<forall>cs. rc = Inr cs \<longrightarrow> cs = lv_channels (view l))"
    and insert_law: "ok l \<Longrightarrow> lg_insert_if_absent lg d now l = (ri, l') \<Longrightarrow> ok l' \<and>
        (if ri = Inr True then delivery_key d \<notin> delivery_keys (view l)
           \<and> (\<exists>row. sd_delivery row = d \<and> row_pending row \<and> view l' = (view l)\<lparr>lv_rows := lv_rows (view l) @ [row]\<rparr>)
         else view l' = view l \<and> (ri = Inr False \<longrightarrow> delivery_key d \<in> delivery_keys (view l)))"
    and undelivered_law: "ok l \<Longrightarrow> lg_undelivered lg n l = (ru, l') \<Longrightarrow> ok l' \<and> view l' = view l
        \<and> (\<forall>ds. ru = Inr ds \<longrightarrow> distinct (map pd_id ds)
            \<and> list_all (\<lambda>d. \<exists>row \<in> set (lv_rows (view l)). row_pending row \<and> pending_of (lv_channels (view l)) row = Some d) ds)"
    and mark_sent_law: "ok l \<Longrightarrow> lg_mark_sent lg i m t l = (rm, l') \<Longrightarrow> ok l' \<and>
        (if rm = Inr () then view l' = (view l)\<lparr>lv_rows := map (\<lambda>d. if sd_id d = i \<and> row_pending d
             then d\<lparr>sd_sent_at := Some t, sd_provider_message_id := Some m\<rparr> else d) (lv_rows (view l))\<rparr>
         else view l' = view l)"
    and mark_error_law: "ok l \<Longrightarrow> lg_mark_error lg i err l = (rm, l') \<Longrightarrow> ok l' \<and>
        (if rm = Inr () then view l' = (view l)\<lparr>lv_rows := map (\<lambda>d. if sd_id d = i \<and> row_pending d
             then d\<lparr>sd_error := Some err\<rparr> else d) (lv_rows (view l))\<rparr>
         else view l' = view l)"

section \<open>Growing tables\<close>

lemma row_step_refl [simp]: "row_step d d"
  by (simp add: row_step_def)

lemma row_step_trans: "row_step a b \<Longrightarrow> row_step b c \<Longrightarrow> row_step a c"
  unfolding row_step_def by metis

lemma rows_growI: "ds' = old @ new \<Longrightarrow> list_all2 row_step ds old \<Longrightarrow> rows_grow ds ds'"
  by (auto simp: rows_grow_def)

lemma rows_grow_append [simp]: "rows_grow ds (ds @ new)"
  by (rule rows_growI [OF refl]) (simp add: list_all2_same)

lemma rows_grow_refl [simp]: "rows_grow ds ds"
  using rows_grow_append [of ds "[]"] by simp

lemma rows_grow_trans:
  assumes "rows_grow a b" and "rows_grow b c"
  shows "rows_grow a c"
proof -
  from assms obtain o1 n1 o2 n2 where b: "b = o1 @ n1" "list_all2 row_step a o1" and c: "c = o2 @ n2" "list_all2 row_step b o2"
    by (auto simp: rows_grow_def)
  let ?k = "length o1"
  have "list_all2 row_step (take ?k b) (take ?k o2)" using c(2) by (rule list_all2_takeI)
  with b have "list_all2 row_step a (take ?k o2)" by (auto intro: list_all2_trans [OF row_step_trans])
  then show ?thesis unfolding rows_grow_def c(1) by (intro exI [of _ "take ?k o2"] exI [of _ "drop ?k o2 @ n2"]) simp
qed

lemma rows_grow_map: "(\<And>d. row_step d (f d)) \<Longrightarrow> rows_grow ds (map f ds)"
  by (rule rows_growI [of "map f ds" "map f ds" "[]"]) (simp_all add: list_all2_conv_all_nth)

lemma rows_grow_marked: "rows_grow ds ds' \<Longrightarrow> d \<in> set ds \<Longrightarrow> \<exists>d' \<in> set ds'. row_step d d'"
proof -
  assume g: "rows_grow ds ds'" and d: "d \<in> set ds"
  from g obtain old new where o: "ds' = old @ new" "list_all2 row_step ds old" by (auto simp: rows_grow_def)
  obtain i where "i < length ds" "d = ds ! i" using d by (auto simp: in_set_conv_nth)
  then show ?thesis using o by (intro bexI [of _ "old ! i"]) (auto simp: list_all2_conv_all_nth)
qed

lemma view_grows_refl [simp]: "view_grows v v"
  by (simp add: view_grows_def)

lemma view_grows_trans: "view_grows a b \<Longrightarrow> view_grows b c \<Longrightarrow> view_grows a c"
  unfolding view_grows_def by (metis rows_grow_trans)

lemma view_grows_keys: "view_grows v v' \<Longrightarrow> delivery_keys v \<subseteq> delivery_keys v'"
proof
  fix k assume g: "view_grows v v'" and "k \<in> delivery_keys v"
  then obtain d where d: "d \<in> set (lv_rows v)" "k = delivery_key (sd_delivery d)" by (auto simp: delivery_keys_def)
  from rows_grow_marked [OF _ d(1)] g obtain d' where "d' \<in> set (lv_rows v')" "row_step d d'" by (auto simp: view_grows_def)
  then have "k = delivery_key (sd_delivery d')" "d' \<in> set (lv_rows v')" using d(2) by (simp_all add: row_step_def)
  then show "k \<in> delivery_keys v'" unfolding delivery_keys_def by (rule image_eqI)
qed

lemma view_grows_marked:
  "view_grows v v' \<Longrightarrow> d \<in> set (lv_rows v) \<Longrightarrow> \<not> row_pending d \<Longrightarrow> d \<in> set (lv_rows v')"
  unfolding view_grows_def using rows_grow_marked by (metis row_step_def)

definition covered :: "ledger_view \<Rightarrow> pending_alert \<Rightarrow> bool" where
  "covered v a \<longleftrightarrow> list_all (\<lambda>c. (ch_id c, pa_dedupe_key a) \<in> delivery_keys v) (channels_for a (lv_channels v))"

lemma covered_grows: "view_grows v v' \<Longrightarrow> covered v a \<Longrightarrow> covered v' a"
  using view_grows_keys [of v v'] by (auto simp: covered_def list_all_iff view_grows_def)

text \<open>Every alert after \<open>lo\<close> and up to \<open>hi\<close> has its row for every channel it goes to.\<close>

definition caught :: "int \<Rightarrow> ledger_view \<Rightarrow> int \<Rightarrow> bool" where
  "caught lo v hi \<longleftrightarrow> list_all (\<lambda>a. lo < pa_created_at a \<and> pa_created_at a \<le> hi \<longrightarrow> covered v a) (lv_alerts v)"

lemma caught_grows: "view_grows v v' \<Longrightarrow> caught lo v hi \<Longrightarrow> caught lo v' hi"
  unfolding caught_def list_all_iff using covered_grows view_grows_def by metis

section \<open>The worker against the contract\<close>

definition recording_sender :: "'s sender \<Rightarrow> ('s \<times> outbound_email list) sender" where
  "recording_sender send m = (\<lambda>(s, mail). case send m s of (r, s') \<Rightarrow> (r, s', m # mail))"

lemma recording_send: "recording_sender send m (s, mail) = (case send m s of (r, s') \<Rightarrow> (r, s', m # mail))"
  by (simp add: recording_sender_def)

definition is_email :: "pending_delivery \<Rightarrow> bool" where
  "is_email d \<longleftrightarrow> trim (pd_kind d) = ''email''"

definition marked :: "ledger_view \<Rightarrow> string \<Rightarrow> bool" where
  "marked v i \<longleftrightarrow> list_ex (\<lambda>d. sd_id d = i \<and> \<not> row_pending d) (lv_rows v)"

lemma marked_grows: "view_grows v v' \<Longrightarrow> marked v i \<Longrightarrow> marked v' i"
  using view_grows_marked by (fastforce simp: marked_def list_ex_iff)

lemma key_delivery_for [simp]: "delivery_key (delivery_for rfc a c) = (ch_id c, pa_dedupe_key a)"
  by (simp add: delivery_key_def delivery_for_def Let_def)

definition mark_step :: "string \<Rightarrow> bool \<Rightarrow> ledger_view \<Rightarrow> ledger_view \<Rightarrow> bool" where
  "mark_step i done v v' \<longleftrightarrow> view_grows v v' \<and> map sd_id (lv_rows v') = map sd_id (lv_rows v)
     \<and> (done \<longrightarrow> i \<in> sd_id ` set (lv_rows v) \<longrightarrow> marked v' i)"

lemma mark_step_refl [simp]: "mark_step i False v v"
  by (simp add: mark_step_def)

lemma marked_not_pending [simp]:
  "\<not> row_pending (d\<lparr>sd_sent_at := Some t, sd_provider_message_id := m\<rparr>)" "\<not> row_pending (d\<lparr>sd_error := Some e\<rparr>)"
  by (simp_all add: row_pending_def)

lemma mark_step_map:
  assumes "\<And>d. sd_id (f d) = sd_id d \<and> sd_delivery (f d) = sd_delivery d \<and> sd_created_at (f d) = sd_created_at d \<and> \<not> row_pending (f d)"
  shows "mark_step i done v (v\<lparr>lv_rows := map (\<lambda>d. if sd_id d = i \<and> row_pending d then f d else d) (lv_rows v)\<rparr>)"
proof -
  let ?g = "\<lambda>d. if sd_id d = i \<and> row_pending d then f d else d"
  have g: "row_step d (?g d)" for d using assms by (simp add: row_step_def)
  have m: "marked (v\<lparr>lv_rows := map ?g (lv_rows v)\<rparr>) i" if "i \<in> sd_id ` set (lv_rows v)"
  proof -
    from that obtain x where x: "x \<in> set (lv_rows v)" "sd_id x = i" by blast
    then have "?g x \<in> set (map ?g (lv_rows v))" "sd_id (?g x) = i" "\<not> row_pending (?g x)" using assms by auto
    then show ?thesis unfolding marked_def list_ex_iff by fastforce
  qed
  have "map sd_id (map ?g (lv_rows v)) = map sd_id (lv_rows v)" using assms by simp
  then show ?thesis using rows_grow_map [of ?g "lv_rows v", OF g] m by (simp add: mark_step_def view_grows_def)
qed

context delivery_ledger
begin

lemma insert_step:
  assumes "ok l" and "lg_insert_if_absent lg d now l = (r, l')"
  shows "ok l' \<and> view_grows (view l) (view l') \<and> (\<forall>b. r = Inr b \<longrightarrow> delivery_key d \<in> delivery_keys (view l'))"
  using insert_law [OF assms] by (auto simp: view_grows_def delivery_keys_def split: if_splits)

lemma insert_all_grows:
  assumes "ok l" and "insert_all lg now ds rep l = (r, rep', l')"
  shows "ok l' \<and> view_grows (view l) (view l') \<and> (r = Inr () \<longrightarrow> (\<forall>d \<in> set ds. delivery_key d \<in> delivery_keys (view l')))"
  using assms
proof (induction ds arbitrary: rep l)
  case (Cons d ds)
  obtain x l1 where i: "lg_insert_if_absent lg d now l = (x, l1)" by force
  note s = insert_step [OF Cons.prems(1) i]
  show ?case
  proof (cases x)
    case (Inl e)
    then show ?thesis using Cons.prems(2) i s by auto
  next
    case (Inr b)
    then obtain rep1 where "insert_all lg now ds rep1 l1 = (r, rep', l')" using Cons.prems(2) i by (cases b) auto
    from Cons.IH [OF _ this] s Inr show ?thesis using view_grows_trans view_grows_keys by (metis set_ConsD subsetD)
  qed
qed simp

lemma ingest_alerts_grows:
  assumes "ok l" and "ingest_alerts rfc lg now (lv_channels (view l)) as newest rep l = (r, rep', l')"
  shows "ok l' \<and> view_grows (view l) (view l') \<and> (\<forall>n. r = Inr n \<longrightarrow> newest \<le> n \<and> (n = newest \<or> (\<exists>a \<in> set as. n = pa_created_at a))
    \<and> (\<forall>a \<in> set as. covered (view l') a))"
  using assms
proof (induction as arbitrary: newest rep l)
  case (Cons a as)
  let ?ds = "map (delivery_for rfc a) (channels_for a (lv_channels (view l)))"
  obtain x rep1 l1 where i: "insert_all lg now ?ds (count_alert (channels_for a (lv_channels (view l)) = []) rep) l = (x, rep1, l1)"
    by (metis prod_cases3)
  note s = insert_all_grows [OF Cons.prems(1) i]
  show ?case
  proof (cases x)
    case (Inl e)
    then show ?thesis using Cons.prems(2) i s by auto
  next
    case (Inr u)
    let ?n = "if newest < pa_created_at a then pa_created_at a else newest"
    have c: "lv_channels (view l1) = lv_channels (view l)" using s by (simp add: view_grows_def)
    have k: "covered (view l1) a" using s Inr c by (simp add: covered_def list_all_iff)
    have "ingest_alerts rfc lg now (lv_channels (view l1)) as ?n rep1 l1 = (r, rep', l')"
      using Cons.prems(2) i Inr c by (simp add: Let_def)
    from Cons.IH [OF conjunct1 [OF s] this]
    have t: "ok l'" "view_grows (view l1) (view l')"
      "\<And>n. r = Inr n \<Longrightarrow> ?n \<le> n \<and> (n = ?n \<or> (\<exists>a \<in> set as. n = pa_created_at a)) \<and> (\<forall>a \<in> set as. covered (view l') a)"
      by blast+
    have "covered (view l') a" using covered_grows [OF t(2) k] .
    moreover have "view_grows (view l) (view l')" using s t(2) view_grows_trans by blast
    ultimately show ?thesis using t by (auto split: if_splits)
  qed
qed auto

lemma ingest_catches:
  assumes ok: "ok (wk_ledger w)" and run: "ingest rfc lg now rep w = (r, rep', w')"
    and apart: "distinct (map pa_created_at (lv_alerts (view (wk_ledger w))))"
    and before: "caught lo (view (wk_ledger w)) (wk_watermark w)"
  shows "caught lo (view (wk_ledger w')) (wk_watermark w')"
proof -
  let ?l = "wk_ledger w" and ?m = "wk_watermark w"
  obtain x l1 where a: "lg_alerts_since lg ?m ALERTS_PER_TICK ?l = (x, l1)" by force
  note sa = alerts_since_law [OF ok a]
  show ?thesis
  proof (cases "\<exists>as. x = Inr as \<and> as \<noteq> []")
    case False
    then have "w' = w\<lparr>wk_ledger := l1\<rparr>" using run a by (auto simp: ingest_def split: sum.splits)
    then show ?thesis using sa before by simp
  next
    case True
    then obtain as where as: "x = Inr as" "as \<noteq> []" by blast
    obtain y l2 where c: "lg_channels lg l1 = (y, l2)" by force
    note sc = channels_law [OF conjunct1 [OF sa] c]
    have v2: "view l2 = view ?l" "ok l2" using sa sc by auto
    show ?thesis
    proof (cases y)
      case (Inl e)
      then have "w' = w\<lparr>wk_ledger := l2\<rparr>" using run a as c by (auto simp: ingest_def)
      then show ?thesis using v2 before by simp
    next
      case (Inr cs)
      then have cs: "cs = lv_channels (view l2)" using sc v2 by auto
      obtain z rep1 l3 where i: "ingest_alerts rfc lg now (lv_channels (view l2)) as ?m rep l2 = (z, rep1, l3)"
        by (metis prod_cases3)
      note si = ingest_alerts_grows [OF v2(2) i]
      have g: "caught lo (view l3) ?m" using caught_grows si before v2(1) by metis
      show ?thesis
      proof (cases z)
        case (Inl e)
        then have "w' = w\<lparr>wk_ledger := l3\<rparr>" using run a as c Inr cs i by (auto simp: ingest_def)
        then show ?thesis using g by simp
      next
        case (Inr n)
        then have w': "w' = w\<lparr>wk_ledger := l3, wk_watermark := n\<rparr>" using run a as c \<open>y = Inr cs\<close> cs i by (auto simp: ingest_def)
        have b: "batch_of ?m ALERTS_PER_TICK (lv_alerts (view ?l)) as" using sa as by blast
        have v3: "lv_alerts (view l3) = lv_alerts (view ?l)" using si v2 by (simp add: view_grows_def)
        have "covered (view l3) e" if e: "e \<in> set (lv_alerts (view ?l))" "?m < pa_created_at e" "pa_created_at e \<le> n" for e
        proof (cases "e \<in> set as")
          case True
          then show ?thesis using si Inr by blast
        next
          case False
          then have le: "list_all (\<lambda>b. pa_created_at b \<le> pa_created_at e) as"
            using b e by (auto simp: batch_of_def list_all_iff)
          obtain b' where b': "b' \<in> set as" "n = pa_created_at b'"
            using si Inr e(2,3) by auto
          then have "b' \<in> set (lv_alerts (view ?l))" using b by (auto simp: batch_of_def list_all_iff)
          moreover have "pa_created_at b' = pa_created_at e" using le b' e(3) by (auto simp: list_all_iff)
          ultimately have "b' = e" using apart e(1) by (auto simp: distinct_map dest: inj_onD)
          then show ?thesis using b' False by blast
        qed
        then show ?thesis using g w' v3 unfolding caught_def list_all_iff by (auto simp: not_less [symmetric])
      qed
    qed
  qed
qed

lemma ingest_grows:
  assumes ok: "ok (wk_ledger w)" and run: "ingest rfc lg now rep w = (r, rep', w')"
  shows "ok (wk_ledger w') \<and> view_grows (view (wk_ledger w)) (view (wk_ledger w')) \<and> wk_sender w' = wk_sender w \<and> wk_watermark w \<le> wk_watermark w'"
proof -
  obtain x l1 where a: "lg_alerts_since lg (wk_watermark w) ALERTS_PER_TICK (wk_ledger w) = (x, l1)" by force
  note sa = alerts_since_law [OF ok a]
  obtain y l2 where c: "lg_channels lg l1 = (y, l2)" by force
  note sc = channels_law [OF conjunct1 [OF sa] c]
  have v2: "view l2 = view (wk_ledger w)" "ok l2" using sa sc by auto
  have i: "ok l3 \<and> view_grows (view (wk_ledger w)) (view l3) \<and> (\<forall>n. z = Inr n \<longrightarrow> wk_watermark w \<le> n)"
    if "ingest_alerts rfc lg now (lv_channels (view l2)) as (wk_watermark w) rep l2 = (z, rep1, l3)" for as z rep1 l3
    using ingest_alerts_grows [OF v2(2) that] v2 by auto
  show ?thesis
    using run a c sa sc i v2 by (auto simp: ingest_def split: sum.splits if_splits prod.splits)
qed

lemma mark_grows:
  assumes "ok l" and "lg_mark_sent lg i m t l = (r, l') \<or> lg_mark_error lg i e l = (r, l')"
  shows "ok l' \<and> mark_step i (r = Inr ()) (view l) (view l')"
  using assms(2)
proof
  assume a: "lg_mark_sent lg i m t l = (r, l')"
  show ?thesis using mark_sent_law [OF assms(1) a] by (cases "r = Inr ()") (auto intro!: mark_step_map)
next
  assume a: "lg_mark_error lg i e l = (r, l')"
  show ?thesis using mark_error_law [OF assms(1) a] by (cases "r = Inr ()") (auto intro!: mark_step_map)
qed

lemma send_all_spec:
  assumes "ok l" and "distinct (map pd_id ds)" and "\<forall>d \<in> set ds. pd_id d \<in> sd_id ` set (lv_rows (view l))"
    and "send_all lg (recording_sender send) now ds rep l (s, mail) = (r, rep', l', s', mail')"
  shows "ok l' \<and> view_grows (view l) (view l')
    \<and> (\<exists>ms. mail' = rev (map email_of ms) @ mail \<and> prefix ms (filter is_email ds)
          \<and> (\<forall>d \<in> set (if r = Inr () then ms else butlast ms). marked (view l') (pd_id d))
          \<and> (r = Inr () \<longrightarrow> ms = filter is_email ds))"
  using assms
proof (induction ds arbitrary: rep l s mail)
  case (Cons d ds)
  have sent: ?case
    if mk: "lg_mark_sent lg (pd_id d) m t l = (x, la) \<or> lg_mark_error lg (pd_id d) e l = (x, la)"
      and go: "(case x of Inl e \<Rightarrow> (Inl e, rep, la, sa, maila)
          | Inr _ \<Rightarrow> send_all lg (recording_sender send) now ds repa la (sa, maila)) = (r, rep', l', s', mail')"
      and lg1: "maila = (if is_email d then email_of d # mail else mail)"
    for m t e x la sa maila repa
  proof -
    note k = mark_grows [OF Cons.prems(1) mk]
    show ?thesis
    proof (cases x)
      case (Inl f)
      then have "r = Inl f" "l' = la" "mail' = maila" using go by auto
      then show ?thesis using k lg1
        by (cases "is_email d") (auto simp: mark_step_def intro: exI [of _ "[d]"] exI [of _ "[]"])
    next
      case (Inr u)
      have ids: "sd_id ` set (lv_rows (view la)) = sd_id ` set (lv_rows (view l))"
        using k by (metis image_set mark_step_def)
      have run: "send_all lg (recording_sender send) now ds repa la (sa, maila) = (r, rep', l', s', mail')" using go Inr by simp
      from Cons.IH [OF conjunct1 [OF k] _ _ run] Cons.prems(2,3) ids
      obtain ms where ms: "ok l'" "view_grows (view la) (view l')" "mail' = rev (map email_of ms) @ maila"
        "prefix ms (filter is_email ds)" "\<forall>d \<in> set (if r = Inr () then ms else butlast ms). marked (view l') (pd_id d)"
        "r = Inr () \<longrightarrow> ms = filter is_email ds" by auto
      have md: "marked (view l') (pd_id d)"
        using marked_grows [OF ms(2)] k Inr Cons.prems(3) by (auto simp: mark_step_def)
      have g: "view_grows (view l) (view l')" using k ms(2) view_grows_trans by (auto simp: mark_step_def)
      show ?thesis
      proof (cases "is_email d")
        case True
        then show ?thesis using ms md g lg1 by (intro conjI exI [of _ "d # ms"]) auto
      next
        case False
        then show ?thesis using ms g lg1 by (intro conjI exI [of _ ms]) auto
      qed
    qed
  qed
  show ?case
  proof (cases "is_email d")
    case False
    obtain x la where "lg_mark_error lg (pd_id d) (''unsupported_channel_kind:'' @ trim (pd_kind d)) l = (x, la)" by force
    then show ?thesis using False Cons.prems(4) by (intro sent [where x = x and la = la]) (auto simp: is_email_def split: sum.splits)
  next
    case True
    obtain y sa where sd: "send (email_of d) s = (y, sa)" by force
    show ?thesis
    proof (cases y)
      case (Inl err)
      let ?t = "case err of SeDisabled \<Rightarrow> ''sender_disabled'' | _ \<Rightarrow> ledger_text err"
      obtain x la where "lg_mark_error lg (pd_id d) ?t l = (x, la)" by force
      then show ?thesis using True sd Inl Cons.prems(4)
        by (intro sent [where x = x and la = la and e = ?t]) (auto simp: is_email_def recording_send split: sum.splits)
    next
      case (Inr mid)
      obtain x la where "lg_mark_sent lg (pd_id d) mid now l = (x, la)" by force
      then show ?thesis using True sd Inr Cons.prems(4)
        by (intro sent [where x = x and la = la and m = mid and t = now]) (auto simp: is_email_def recording_send split: sum.splits)
    qed
  qed
qed (auto intro: exI [of _ "[]"])

text \<open>One tick: what it sends are distinct rows that were not marked before it.\<close>

lemma run_sends:
  assumes ok: "ok (wk_ledger w)" and s: "wk_sender w = (s, mail)"
    and run: "worker_run rfc lg (recording_sender send) now w = (rep, w')"
  shows "ok (wk_ledger w') \<and> view_grows (view (wk_ledger w)) (view (wk_ledger w')) \<and> (\<exists>ms.
      snd (wk_sender w') = rev (map email_of ms) @ mail \<and> distinct (map pd_id ms)
      \<and> list_all (\<lambda>d. \<not> marked (view (wk_ledger w)) (pd_id d)) ms
      \<and> list_all (\<lambda>d. marked (view (wk_ledger w')) (pd_id d)) (if tk_failures rep = [] then ms else butlast ms))"
proof -
  obtain r1 rep1 w1 where i: "ingest rfc lg now tick_report_default w = (r1, rep1, w1)" by (metis prod_cases3)
  note si = ingest_grows [OF ok i]
  let ?rep = "note_failure ''ingest'' r1 rep1" and ?v1 = "view (wk_ledger w1)"
  obtain r2 rep2 w2 where p: "send_pending lg (recording_sender send) now ?rep w1 = (r2, rep2, w2)" by (metis prod_cases3)
  have w': "rep = note_failure ''send'' r2 rep2" "w' = w2" using run i p by (auto simp: worker_run_def)
  obtain x l1 where u: "lg_undelivered lg SENDS_PER_TICK (wk_ledger w1) = (x, l1)" by force
  note su = undelivered_law [OF conjunct1 [OF si] u]
  show ?thesis
  proof (cases x)
    case (Inl e)
    then have "w' = w1\<lparr>wk_ledger := l1\<rparr>" using p u w' by (auto simp: send_pending_def)
    then show ?thesis using si su s by (auto intro: exI [of _ "[]"])
  next
    case (Inr ds)
    obtain r rep' l2 s2 mail2 where a: "send_all lg (recording_sender send) now ds ?rep l1 (s, mail) = (r, rep', l2, s2, mail2)"
      by (metis prod_cases5)
    have w2: "w' = w1\<lparr>wk_ledger := l2, wk_sender := (s2, mail2)\<rparr>" "r2 = r"
      using p u Inr a w' si s by (auto simp: send_pending_def)
    have f: "tk_failures rep = [] \<Longrightarrow> r = Inr ()" using w' w2(2) by (cases r) (auto simp: note_failure_def)
    have d: "distinct (map pd_id ds)"
      and pend: "\<forall>d \<in> set ds. \<exists>row \<in> set (lv_rows ?v1). row_pending row \<and> sd_id row = pd_id d"
      using su Inr by (fastforce simp: list_all_iff pending_of_def)+
    then have ids: "\<forall>d \<in> set ds. pd_id d \<in> sd_id ` set (lv_rows (view l1))" using su by force
    from send_all_spec [OF conjunct1 [OF su] d ids a] su obtain ms where
      ms: "ok l2" "view_grows ?v1 (view l2)" "mail2 = rev (map email_of ms) @ mail" "prefix ms (filter is_email ds)"
        "\<forall>d \<in> set (if r = Inr () then ms else butlast ms). marked (view l2) (pd_id d)" by auto
    have sub: "set ms \<subseteq> set ds" using set_mono_prefix [OF ms(4)] by auto
    obtain zs where "filter is_email ds = ms @ zs" using ms(4) by (auto simp: prefix_def)
    then have "distinct (map pd_id ms)" using distinct_map_filter [OF d, of is_email] by simp
    moreover have "\<not> marked (view (wk_ledger w)) (pd_id d)" if "d \<in> set ms" for d
    proof
      assume "marked (view (wk_ledger w)) (pd_id d)"
      then have m: "marked ?v1 (pd_id d)" using si marked_grows by blast
      obtain row where "row \<in> set (lv_rows ?v1)" "row_pending row" "sd_id row = pd_id d" using pend sub \<open>d \<in> set ms\<close> by blast
      then show False using m unique [OF conjunct1 [OF si]]
        unfolding marked_def list_ex_iff distinct_map by (metis inj_onD)
    qed
    moreover have "set (butlast ms) \<subseteq> set ms" by (auto dest: in_set_butlastD)
    ultimately show ?thesis using ms w2 si f view_grows_trans
      by (intro conjI exI [of _ ms]) (auto simp: list_all_iff split: if_splits)
  qed
qed

text \<open>What is caught up to the watermark stays caught.\<close>

lemma run_catches:
  assumes ok: "ok (wk_ledger w)" and run: "worker_run rfc lg (recording_sender send) now w = (rep, w')"
    and apart: "distinct (map pa_created_at (lv_alerts (view (wk_ledger w))))"
    and before: "caught lo (view (wk_ledger w)) (wk_watermark w)"
  shows "caught lo (view (wk_ledger w')) (wk_watermark w')"
proof -
  obtain r1 rep1 w1 where i: "ingest rfc lg now tick_report_default w = (r1, rep1, w1)" by (metis prod_cases3)
  note si = ingest_grows [OF ok i] and c = ingest_catches [OF ok i apart before]
  obtain s mail where s: "wk_sender w = (s, mail)" by force
  obtain x l1 where u: "lg_undelivered lg SENDS_PER_TICK (wk_ledger w1) = (x, l1)" by force
  note su = undelivered_law [OF conjunct1 [OF si] u]
  have g: "view_grows (view (wk_ledger w1)) (view l2)"
    if "x = Inr ds" "send_all lg (recording_sender send) now ds rep1 l1 (s, mail) = (r, rep', l2, s2, mail2)" for ds r rep1 rep' l2 s2 mail2
  proof -
    have "distinct (map pd_id ds)" "\<forall>d \<in> set ds. pd_id d \<in> sd_id ` set (lv_rows (view l1))"
      using su that(1) by (fastforce simp: list_all_iff pending_of_def)+
    from send_all_spec [OF conjunct1 [OF su] this that(2)] su show ?thesis by simp
  qed
  have "wk_watermark w' = wk_watermark w1 \<and> view_grows (view (wk_ledger w1)) (view (wk_ledger w'))"
    using run i u su si s g by (auto simp: worker_run_def send_pending_def split: sum.splits prod.splits)
  then show ?thesis using c caught_grows by metis
qed

end

section \<open>The in-memory ledger meets the contract\<close>

definition mem_view :: "ledger_inner \<Rightarrow> ledger_view" where
  "mem_view g = \<lparr>lv_alerts = li_alerts g, lv_channels = li_channels g, lv_rows = li_deliveries g\<rparr>"

definition deliveries_ok :: "ledger_inner \<Rightarrow> bool" where
  "deliveries_ok g \<longleftrightarrow> li_next_id g = length (li_deliveries g)
     \<and> map sd_id (li_deliveries g) = map (\<lambda>n. ''d'' @ show_nat (n + 1)) [0..<length (li_deliveries g)]
     \<and> fst ` set (li_by_key g) = (\<lambda>d. delivery_key (sd_delivery d)) ` set (li_deliveries g)
     \<and> distinct (map (\<lambda>d. delivery_key (sd_delivery d)) (li_deliveries g))"

lemma deliveries_ok_new: "deliveries_ok ledger_new"
  by (simp add: deliveries_ok_def ledger_new_def)

lemma deliveries_ok_ids: "deliveries_ok g \<Longrightarrow> distinct (map sd_id (li_deliveries g))"
  by (auto simp: deliveries_ok_def distinct_map inj_on_def dest: show_nat_inj)

lemma ledger_check_view: "ledger_check g = (r, g') \<Longrightarrow> mem_view g' = mem_view g \<and> deliveries_ok g' = deliveries_ok g"
proof -
  assume c: "ledger_check g = (r, g')"
  have "\<exists>k n. g' = g\<lparr>li_skip_before_fail := k, li_fail_next := n\<rparr>"
  proof -
    have "g = g\<lparr>li_skip_before_fail := li_skip_before_fail g, li_fail_next := li_fail_next g\<rparr>"
      "g\<lparr>li_skip_before_fail := k\<rparr> = g\<lparr>li_skip_before_fail := k, li_fail_next := li_fail_next g\<rparr>"
      "g\<lparr>li_fail_next := k\<rparr> = g\<lparr>li_skip_before_fail := li_skip_before_fail g, li_fail_next := k\<rparr>" for k by simp_all
    then show ?thesis using c unfolding ledger_check_def by (metis prod.inject)
  qed
  then obtain k n where "g' = g\<lparr>li_skip_before_fail := k, li_fail_next := n\<rparr>" by blast
  then show ?thesis by (simp add: mem_view_def deliveries_ok_def)
qed

lemma checkedE:
  assumes "checked f g = (r, g')"
  obtains e where "r = Inl e" "mem_view g' = mem_view g" "deliveries_ok g' = deliveries_ok g"
  | x g1 where "r = Inr x" "f g1 = (x, g')" "mem_view g1 = mem_view g" "deliveries_ok g1 = deliveries_ok g"
proof -
  obtain c g1 where c: "ledger_check g = (c, g1)" by force
  note v = ledger_check_view [OF c]
  show thesis
  proof (cases c)
    case (Inl e)
    then show thesis using assms c v by (intro that(1)) (auto simp: checked_def)
  next
    case (Inr u)
    obtain x g2 where "f g1 = (x, g2)" by force
    then show thesis using assms c v Inr that(2) [of x g1] by (auto simp: checked_def)
  qed
qed

lemma mark_first_map:
  "distinct (map sd_id ds) \<Longrightarrow> mark_first (\<lambda>d. sd_id d = i \<and> row_pending d) f ds
     = map (\<lambda>d. if sd_id d = i \<and> row_pending d then f d else d) ds"
proof (induction ds)
  case (Cons d ds)
  moreover have "map (\<lambda>d. if sd_id d = i \<and> row_pending d then f d else d) ds = ds" if "sd_id d = i"
    using Cons.prems that by (intro map_idI) (auto simp: image_iff)
  ultimately show ?case by auto
qed simp

lemma insert_row_law:
  assumes ok: "deliveries_ok g" and ins: "insert_row d now g = (b, g')"
  shows "deliveries_ok g' \<and> (if b then delivery_key d \<notin> delivery_keys (mem_view g)
      \<and> (\<exists>row. sd_delivery row = d \<and> row_pending row \<and> mem_view g' = (mem_view g)\<lparr>lv_rows := lv_rows (mem_view g) @ [row]\<rparr>)
    else mem_view g' = mem_view g \<and> delivery_key d \<in> delivery_keys (mem_view g))"
proof (cases "map_of (li_by_key g) (delivery_key d)")
  case None
  then have k: "delivery_key d \<notin> fst ` set (li_by_key g)" by (simp add: map_of_eq_None_iff)
  let ?row = "\<lparr>sd_id = ''d'' @ show_nat (li_next_id g + 1), sd_delivery = d, sd_created_at = now, sd_sent_at = None,
      sd_provider_message_id = None, sd_error = None\<rparr>"
  have g': "b" "g' = g\<lparr>li_next_id := li_next_id g + 1, li_deliveries := li_deliveries g @ [?row],
      li_by_key := btm_insert (delivery_key d) (length (li_deliveries g)) (li_by_key g)\<rparr>"
    using ins None by (auto simp: insert_row_def Let_def)
  have "deliveries_ok g'" using ok k unfolding g'(2) by (auto simp: deliveries_ok_def)
  then show ?thesis using g' k ok
    by (auto simp: deliveries_ok_def delivery_keys_def mem_view_def row_pending_def intro!: exI [of _ ?row])
next
  case (Some n)
  then have "delivery_key d \<in> fst ` set (li_by_key g)" by (force dest: map_of_SomeD)
  then show ?thesis using Some ok ins by (auto simp: insert_row_def deliveries_ok_def delivery_keys_def mem_view_def)
qed

lemma mark_row_law:
  assumes ok: "deliveries_ok g" and f: "\<And>d. sd_id (f d) = sd_id d \<and> sd_delivery (f d) = sd_delivery d" and run: "mark_row f i g = (u, g')"
  shows "deliveries_ok g' \<and> mem_view g' = (mem_view g)\<lparr>lv_rows := map (\<lambda>d. if sd_id d = i \<and> row_pending d then f d else d) (lv_rows (mem_view g))\<rparr>"
proof -
  let ?h = "\<lambda>d. if sd_id d = i \<and> row_pending d then f d else d"
  have g': "g' = g\<lparr>li_deliveries := map ?h (li_deliveries g)\<rparr>"
    using run by (simp add: mark_row_def mark_first_map [OF deliveries_ok_ids [OF ok]])
  have h: "sd_id (?h d) = sd_id d" "delivery_key (sd_delivery (?h d)) = delivery_key (sd_delivery d)" for d using f by auto
  have "map sd_id (map ?h ds) = map sd_id ds" "map (\<lambda>d. delivery_key (sd_delivery d)) (map ?h ds) = map (\<lambda>d. delivery_key (sd_delivery d)) ds"
    "(\<lambda>d. delivery_key (sd_delivery d)) ` set (map ?h ds) = (\<lambda>d. delivery_key (sd_delivery d)) ` set ds" for ds
    using h by (simp_all only: map_map o_def set_map image_image)
  then show ?thesis using ok unfolding g' deliveries_ok_def mem_view_def by (simp del: map_map set_map map_eq_conv)
qed

lemma take_sorted_rest:
  assumes "sorted (map k xs)" and "a \<in> set xs" and "a \<notin> set (take n xs)" and "b \<in> set (take n xs)"
  shows "k b \<le> k a \<and> n \<le> length xs"
proof -
  have "a \<in> set (drop n xs)" using assms(2,3) by (metis Un_iff append_take_drop_id set_append)
  moreover from this have "n \<le> length xs" by (metis drop_all empty_iff list.set(1) nle_le)
  moreover have "sorted (map k (take n xs) @ map k (drop n xs))" using assms(1) by (metis append_take_drop_id map_append)
  ultimately show ?thesis using assms(4) by (auto simp: sorted_append)
qed

lemma mem_batch:
  assumes "as = take n (sort_key (\<lambda>a. (pa_created_at a, pa_id a)) (filter (\<lambda>a. since < pa_created_at a) xs))"
  shows "batch_of since n xs as"
proof -
  let ?ys = "sort_key (\<lambda>a. (pa_created_at a, pa_id a)) (filter (\<lambda>a. since < pa_created_at a) xs)"
  have s: "sorted (map (\<lambda>a. (pa_created_at a, pa_id a)) ?ys)" by simp
  have "set as \<subseteq> set ?ys" unfolding assms by (rule set_take_subset)
  moreover have "n \<le> length as \<and> list_all (\<lambda>b. pa_created_at b \<le> pa_created_at a) as"
    if a: "a \<in> set xs" "since < pa_created_at a" "a \<notin> set as" for a
  proof -
    have m: "a \<in> set ?ys" using a by simp
    have "n \<le> length ?ys" using m a(3) unfolding assms by (metis nle_le take_all)
    moreover have "pa_created_at b \<le> pa_created_at a" if "b \<in> set as" for b
      using take_sorted_rest [OF s m, of n b] a(3) that unfolding assms by (auto simp: less_eq_prod_def)
    ultimately show ?thesis by (simp add: assms list_all_iff)
  qed
  ultimately show ?thesis by (auto simp: batch_of_def list_all_iff)
qed

lemma undelivered_rows:
  assumes "distinct (map sd_id rows)" and "ds = take n (List.map_filter (pending_of cs) (filter row_pending rows))"
  shows "distinct (map pd_id ds) \<and> list_all (\<lambda>d. \<exists>row \<in> set rows. row_pending row \<and> pending_of cs row = Some d) ds"
proof -
  have i: "pending_of cs r = Some d \<Longrightarrow> pd_id d = sd_id r" for r d by (auto simp: pending_of_def)
  have "distinct (map pd_id (List.map_filter (pending_of cs) xs)) \<and> pd_id ` set (List.map_filter (pending_of cs) xs) \<subseteq> sd_id ` set xs"
    if "distinct (map sd_id xs)" for xs
    using that by (induction xs) (auto simp: List.map_filter_def i dest!: subsetD split: option.splits)
  from this [OF distinct_map_filter [OF assms(1)]]
  have "distinct (map pd_id ds)" unfolding assms(2) by (metis distinct_take take_map)
  moreover have "set ds \<subseteq> set (List.map_filter (pending_of cs) (filter row_pending rows))" unfolding assms(2) by (rule set_take_subset)
  ultimately show ?thesis by (fastforce simp: list_all_iff List.map_filter_def)
qed

interpretation mem: delivery_ledger mem_ledger deliveries_ok mem_view
proof unfold_locales
  fix l assume "deliveries_ok l"
  then show "distinct (map sd_id (lv_rows (mem_view l))) \<and> distinct (map (\<lambda>d. delivery_key (sd_delivery d)) (lv_rows (mem_view l)))"
    using deliveries_ok_ids by (simp add: mem_view_def deliveries_ok_def)
next
  fix l since n r l' assume "deliveries_ok l" "lg_alerts_since mem_ledger since n l = (r, l')"
  then show "deliveries_ok l' \<and> mem_view l' = mem_view l \<and> (\<forall>as. r = Inr as \<longrightarrow> batch_of since n (lv_alerts (mem_view l)) as)"
    by (auto simp: mem_ledger_def mem_alerts_since_def elim!: checkedE intro!: mem_batch) (simp add: mem_view_def)+
next
  fix l r l' assume "deliveries_ok l" "lg_channels mem_ledger l = (r, l')"
  then show "deliveries_ok l' \<and> mem_view l' = mem_view l \<and> (\<forall>cs. r = Inr cs \<longrightarrow> cs = lv_channels (mem_view l))"
    by (auto simp: mem_ledger_def mem_channels_def elim!: checkedE) (simp add: mem_view_def)
next
  fix l d now r l' assume a: "deliveries_ok l" "lg_insert_if_absent mem_ledger d now l = (r, l')"
  from a(2) have "checked (insert_row d now) l = (r, l')" by (simp add: mem_ledger_def mem_insert_if_absent_def)
  then show "deliveries_ok l' \<and> (if r = Inr True then delivery_key d \<notin> delivery_keys (mem_view l)
      \<and> (\<exists>row. sd_delivery row = d \<and> row_pending row \<and> mem_view l' = (mem_view l)\<lparr>lv_rows := lv_rows (mem_view l) @ [row]\<rparr>)
    else mem_view l' = mem_view l \<and> (r = Inr False \<longrightarrow> delivery_key d \<in> delivery_keys (mem_view l)))"
  proof (cases rule: checkedE)
    case (2 x g1)
    from insert_row_law [OF _ 2(2)] 2 a(1) show ?thesis by (cases x) auto
  qed (use a in auto)
next
  fix l n r l' assume "deliveries_ok l" "lg_undelivered mem_ledger n l = (r, l')"
  then show "deliveries_ok l' \<and> mem_view l' = mem_view l \<and> (\<forall>ds. r = Inr ds \<longrightarrow> distinct (map pd_id ds)
      \<and> list_all (\<lambda>d. \<exists>row \<in> set (lv_rows (mem_view l)). row_pending row \<and> pending_of (lv_channels (mem_view l)) row = Some d) ds)"
    by (auto simp: mem_ledger_def mem_undelivered_def elim!: checkedE)
      (use undelivered_rows deliveries_ok_ids in \<open>fastforce simp: mem_view_def\<close>)+
next
  fix l i m t r l' assume a: "deliveries_ok l" "lg_mark_sent mem_ledger i m t l = (r, l')"
  let ?f = "\<lambda>d. d\<lparr>sd_sent_at := Some t, sd_provider_message_id := Some m\<rparr>"
  from a(2) have "checked (mark_row ?f i) l = (r, l')" by (simp add: mem_ledger_def mem_mark_sent_def)
  then show "deliveries_ok l' \<and> (if r = Inr () then mem_view l' = (mem_view l)\<lparr>lv_rows := map (\<lambda>d. if sd_id d = i \<and> row_pending d
      then ?f d else d) (lv_rows (mem_view l))\<rparr> else mem_view l' = mem_view l)"
  proof (cases rule: checkedE)
    case (2 x g1)
    from mark_row_law [OF _ _ 2(2)] 2 a(1) show ?thesis by auto
  qed (use a in auto)
next
  fix l i e r l' assume a: "deliveries_ok l" "lg_mark_error mem_ledger i e l = (r, l')"
  from a(2) have "checked (mark_row (\<lambda>d. d\<lparr>sd_error := Some e\<rparr>) i) l = (r, l')" by (simp add: mem_ledger_def mem_mark_error_def)
  then show "deliveries_ok l' \<and> (if r = Inr () then mem_view l' = (mem_view l)\<lparr>lv_rows := map (\<lambda>d. if sd_id d = i \<and> row_pending d
      then d\<lparr>sd_error := Some e\<rparr> else d) (lv_rows (mem_view l))\<rparr> else mem_view l' = mem_view l)"
  proof (cases rule: checkedE)
    case (2 x g1)
    from mark_row_law [OF _ _ 2(2)] 2 a(1) show ?thesis by auto
  qed (use a in auto)
qed

section \<open>Histories\<close>

text \<open>
  What can happen to a worker over the in-memory ledger: a tick, an alert created after the watermark
  and after all that were created before it, a change of the injected failures. \<open>add_alert\<close> itself
  accepts any instant of creation; a history adds alerts as the clock gives them.
\<close>

inductive delivery_step :: "(int \<Rightarrow> string) \<Rightarrow> 's sender \<Rightarrow> (ledger_inner, 's \<times> outbound_email list) worker
    \<Rightarrow> (ledger_inner, 's \<times> outbound_email list) worker \<Rightarrow> bool" for rfc send where
  tick: "worker_run rfc mem_ledger (recording_sender send) now w = (rep, w') \<Longrightarrow> delivery_step rfc send w w'"
| alert: "wk_watermark w < pa_created_at a \<Longrightarrow> list_all (\<lambda>b. pa_created_at b < pa_created_at a) (li_alerts (wk_ledger w))
    \<Longrightarrow> delivery_step rfc send w (w\<lparr>wk_ledger := add_alert a (wk_ledger w)\<rparr>)"
| faults: "delivery_step rfc send w (w\<lparr>wk_ledger := fail_after k n (wk_ledger w)\<rparr>)"

definition delivery_inv :: "int \<Rightarrow> (ledger_inner, 's \<times> outbound_email list) worker \<Rightarrow> bool" where
  "delivery_inv lo w \<longleftrightarrow> deliveries_ok (wk_ledger w) \<and> distinct (map pa_created_at (li_alerts (wk_ledger w)))
     \<and> caught lo (mem_view (wk_ledger w)) (wk_watermark w)"

lemma caught_new_alert:
  "caught lo (mem_view g) hi \<Longrightarrow> hi < pa_created_at a \<Longrightarrow> caught lo (mem_view (add_alert a g)) hi"
  by (auto simp: caught_def mem_view_def add_alert_def covered_def delivery_keys_def list_all_iff)

lemma delivery_step_inv: "delivery_step rfc send w w' \<Longrightarrow> delivery_inv lo w \<Longrightarrow> delivery_inv lo w'"
proof (induction rule: delivery_step.induct)
  case (tick now w rep w')
  then have ok: "deliveries_ok (wk_ledger w)" and d: "distinct (map pa_created_at (lv_alerts (mem_view (wk_ledger w))))"
    and c: "caught lo (mem_view (wk_ledger w)) (wk_watermark w)" by (simp_all add: delivery_inv_def mem_view_def)
  obtain s mail where "wk_sender w = (s, mail)" by force
  from mem.run_sends [OF ok this tick.hyps] have "deliveries_ok (wk_ledger w')" "view_grows (mem_view (wk_ledger w)) (mem_view (wk_ledger w'))"
    by blast+
  then show ?case using mem.run_catches [OF ok tick.hyps d c] tick.prems
    by (simp add: delivery_inv_def view_grows_def mem_view_def)
next
  case (alert w a)
  then show ?case using caught_new_alert [of lo "wk_ledger w" "wk_watermark w" a]
    by (auto simp: delivery_inv_def add_alert_def deliveries_ok_def list_all_iff)
next
  case (faults w k n)
  then show ?case by (simp add: delivery_inv_def fail_after_def deliveries_ok_def mem_view_def)
qed

lemma delivery_steps_inv: "(delivery_step rfc send)\<^sup>*\<^sup>* w w' \<Longrightarrow> delivery_inv lo w \<Longrightarrow> delivery_inv lo w'"
  by (induction rule: rtranclp_induct) (auto dest: delivery_step_inv)

lemma delivery_inv_new:
  "deliveries_ok l \<Longrightarrow> distinct (map pa_created_at (li_alerts l)) \<Longrightarrow> delivery_inv (now - backlog) (worker_new l (s, mail) now backlog)"
  by (auto simp: delivery_inv_def worker_new_def caught_def list_all_iff)

text \<open>
  C19: no alert is passed over. In every history of ticks, new alerts and ledger failures in which no two
  alerts are created at the same instant, each alert created after the start of the backlog and
  up to the watermark has a delivery row on every channel it goes to.
\<close>

theorem alerts_never_skipped:
  assumes "(delivery_step rfc send)\<^sup>*\<^sup>* (worker_new l (s, []) now backlog) w"
    and "deliveries_ok l" and "distinct (map pa_created_at (li_alerts l))"
    and "a \<in> set (li_alerts (wk_ledger w))" and "now - backlog < pa_created_at a" and "pa_created_at a \<le> wk_watermark w"
    and "c \<in> set (channels_for a (li_channels (wk_ledger w)))"
  shows "\<exists>d \<in> set (li_deliveries (wk_ledger w)). nd_channel_id (sd_delivery d) = ch_id c \<and> nd_dedupe_key (sd_delivery d) = pa_dedupe_key a"
  using delivery_steps_inv [OF assms(1) delivery_inv_new [OF assms(2,3)]] assms(4-7)
  by (fastforce simp: delivery_inv_def caught_def covered_def delivery_keys_def list_all_iff mem_view_def delivery_key_def)

text \<open>
  C20: a tick hands to the sender only rows that were not yet marked, each once, and marks every one of
  them; only when a ledger failure stops the tick can the last one sent be left unmarked. Rows already
  in the table keep their content, and a marked row never changes.
\<close>

theorem tick_sends_once:
  assumes "deliveries_ok (wk_ledger w)" and "wk_sender w = (s, mail)"
    and "worker_run rfc mem_ledger (recording_sender send) now w = (rep, w')"
  shows "deliveries_ok (wk_ledger w') \<and> rows_grow (li_deliveries (wk_ledger w)) (li_deliveries (wk_ledger w')) \<and> (\<exists>ms.
      snd (wk_sender w') = rev (map email_of ms) @ mail \<and> distinct (map pd_id ms)
      \<and> list_all (\<lambda>d. \<not> marked (mem_view (wk_ledger w)) (pd_id d)) ms
      \<and> list_all (\<lambda>d. marked (mem_view (wk_ledger w')) (pd_id d)) (if tk_failures rep = [] then ms else butlast ms))"
proof -
  note r = mem.run_sends [OF assms]
  have "rows_grow (li_deliveries (wk_ledger w)) (li_deliveries (wk_ledger w'))" using r by (simp add: view_grows_def mem_view_def)
  then show ?thesis using r by blast
qed

text \<open>
  Without the hypothesis on creation times alerts are lost: of more than \<open>ALERTS_PER_TICK\<close> alerts created
  at one instant, one is outside the batch, and no later read after that instant returns it.
\<close>

lemma tied_alerts_skipped:
  assumes "distinct (li_alerts g)" and "ALERTS_PER_TICK < length (li_alerts g)" and "\<forall>a \<in> set (li_alerts g). pa_created_at a = t"
  shows "\<exists>a \<in> set (li_alerts g). (\<forall>as since g'. mem_alerts_since since ALERTS_PER_TICK g = (Inr as, g') \<longrightarrow> since < t \<longrightarrow> a \<notin> set as)
    \<and> (\<forall>as n g' g1. mem_alerts_since t n g1 = (Inr as, g') \<longrightarrow> a \<notin> set as)"
proof -
  let ?xs = "take ALERTS_PER_TICK (sort_key (\<lambda>a. (pa_created_at a, pa_id a)) (li_alerts g))"
  have "card (set ?xs) < card (set (li_alerts g))"
    using card_length [of ?xs] assms(2) distinct_card [OF assms(1)] by simp
  then have "\<not> set (li_alerts g) \<subseteq> set ?xs" by (meson List.finite_set card_mono not_less)
  then obtain a where a: "a \<in> set (li_alerts g)" "a \<notin> set ?xs" by blast
  have "a \<notin> set as" if "mem_alerts_since since ALERTS_PER_TICK g = (Inr as, g')" "since < t" for as since g'
  proof -
    have "filter (\<lambda>a. since < pa_created_at a) (li_alerts g) = li_alerts g" using assms(3) that(2) by (simp add: filter_id_conv)
    then show ?thesis using that(1) a(2) by (auto simp: mem_alerts_since_def mem_view_def elim!: checkedE)
  qed
  moreover have "a \<notin> set as" if "mem_alerts_since t n g1 = (Inr as, g')" for as n g' g1
    using that a(1) assms(3) by (auto simp: mem_alerts_since_def elim!: checkedE dest!: in_set_takeD)
  ultimately show ?thesis using a(1) by blast
qed

text \<open>
  The run and the monitor raise every halt of an account under one dedupe key, whatever the halt. Once a channel
  has a row for that key, a later alert with it adds no row, so that a second halt after a resume
  is not mailed.
\<close>

lemma repeated_key_no_row:
  "delivery_key d \<in> fst ` set (li_by_key g) \<Longrightarrow> insert_row d now g = (False, g)"
  by (cases "map_of (li_by_key g) (delivery_key d)") (auto simp: insert_row_def map_of_eq_None_iff)

section \<open>An example\<close>

definition sample_channel :: channel where
  "sample_channel = \<lparr>ch_id = ''c'', ch_scope = ScPlatform, ch_tenant_id = None, ch_kind = ''email'', ch_address = ''ops''\<rparr>"

definition sample_alert :: pending_alert where
  "sample_alert = \<lparr>pa_id = ''1'', pa_tenant_id = None, pa_account_id = ''acc'', pa_code = ''ALERT_HALT'', pa_severity = ''?'',
     pa_message = ''m'', pa_run_key = ''k'', pa_dedupe_key = ''acc:halt'', pa_at = 5, pa_created_at = 5\<rparr>"

definition sample_ledger :: ledger_inner where
  "sample_ledger = add_channel sample_channel ledger_new"

definition sample_send :: "unit sender" where
  "sample_send m s = (Inr ''id'', s)"

definition sample_worker :: "(ledger_inner, unit \<times> outbound_email list) worker" where
  "sample_worker = (worker_new sample_ledger ((), []) 10 10)\<lparr>wk_ledger := add_alert sample_alert sample_ledger\<rparr>"

definition sample_done :: "tick_report \<times> (ledger_inner, unit \<times> outbound_email list) worker" where
  "sample_done = worker_run (\<lambda>_. ''t'') mem_ledger (recording_sender sample_send) 11 sample_worker"

lemma sample_values:
  "tk_failures (fst sample_done) = [] \<and> length (snd (wk_sender (snd sample_done))) = 1 \<and> wk_watermark (snd sample_done) = 5
   \<and> li_alerts (wk_ledger (snd sample_done)) = [sample_alert]
   \<and> channels_for sample_alert (li_channels (wk_ledger (snd sample_done))) = [sample_channel]"
  by code_simp

lemma sample_ok: "deliveries_ok sample_ledger" "deliveries_ok (wk_ledger sample_worker)"
  by (simp_all add: sample_worker_def sample_ledger_def add_channel_def add_alert_def deliveries_ok_def ledger_new_def)

theorem alerts_never_skipped_witness:
  "\<exists>d \<in> set (li_deliveries (wk_ledger (snd sample_done))). nd_channel_id (sd_delivery d) = ''c'' \<and> nd_dedupe_key (sd_delivery d) = ''acc:halt''"
proof -
  let ?w = "worker_new sample_ledger ((), []) 10 10"
  have "delivery_step (\<lambda>_. ''t'') sample_send ?w sample_worker"
    unfolding sample_worker_def using delivery_step.alert [of ?w sample_alert]
    by (simp add: worker_new_def sample_ledger_def sample_alert_def add_channel_def ledger_new_def)
  moreover have "delivery_step (\<lambda>_. ''t'') sample_send sample_worker (snd sample_done)"
    by (rule delivery_step.tick [of _ _ _ _ "fst sample_done"]) (simp add: sample_done_def)
  ultimately have "(delivery_step (\<lambda>_. ''t'') sample_send)\<^sup>*\<^sup>* ?w (snd sample_done)" by (meson converse_rtranclp_into_rtranclp rtranclp.rtrancl_refl)
  from alerts_never_skipped [OF this sample_ok(1), of sample_alert sample_channel] sample_values
  show ?thesis by (simp add: sample_ledger_def add_channel_def ledger_new_def sample_alert_def sample_channel_def)
qed

theorem tick_sends_once_witness:
  "\<exists>ms. snd (wk_sender (snd sample_done)) = rev (map email_of ms) \<and> length ms = 1
     \<and> list_all (\<lambda>d. marked (mem_view (wk_ledger (snd sample_done))) (pd_id d)) ms"
proof -
  have s: "wk_sender sample_worker = ((), [])" by (simp add: sample_worker_def worker_new_def)
  have r: "worker_run (\<lambda>_. ''t'') mem_ledger (recording_sender sample_send) 11 sample_worker = (fst sample_done, snd sample_done)"
    by (simp add: sample_done_def)
  from tick_sends_once [OF sample_ok(2) s r] sample_values show ?thesis by auto
qed

end
