(* ===== verification/Driver.thy ===== *)
theory Driver
  imports Pipeline_Props
begin

text \<open>
  \<open>rebalancer-run/src/driver.rs\<close>: which accounts are due, and one run per due account under its lock.
  The lock, the stores, the clock and the runtimes of the accounts are parameters in the record
  \<open>services\<close>; \<open>catch_unwind\<close> is one of them: it gives the message of a panic, or what the run returned.
  The run context of an account is built as in the source, field by field.
\<close>

section \<open>Slots\<close>

definition DAILY_RUN_UTC :: "nat \<times> nat" where "DAILY_RUN_UTC = (0, 10)"
definition MARKET_HOURS_RUN_UTC :: "nat \<times> nat" where "MARKET_HOURS_RUN_UTC = (15, 0)"

definition run_slot_utc :: "sleeve_kind \<Rightarrow> nat \<times> nat" where
  "run_slot_utc k = (case k of CryptoTrend \<Rightarrow> DAILY_RUN_UTC | EtfTrend \<Rightarrow> MARKET_HOURS_RUN_UTC | EtfMomentum \<Rightarrow> MARKET_HOURS_RUN_UTC)"

definition account_run_slot_utc :: "sleeve_spec list \<Rightarrow> (nat \<times> nat) option" where
  "account_run_slot_utc sleeves =
     (case map (\<lambda>s. run_slot_utc (ss_kind s)) sleeves of [] \<Rightarrow> None | x # xs \<Rightarrow> Some (foldl max x xs))"

definition slot_ns :: "nat \<times> nat \<Rightarrow> int" where
  "slot_ns = (\<lambda>(h, m). (int h * 3600 + int m * 60) * 10 ^ 9)"

definition run_slot_on :: "sleeve_spec list \<Rightarrow> int \<Rightarrow> int option" where
  "run_slot_on sleeves date = map_option (\<lambda>hm. date * ns_per_day + slot_ns hm) (account_run_slot_utc sleeves)"

definition sleeve_due_on :: "sleeve_kind \<Rightarrow> int \<Rightarrow> bool" where
  "sleeve_due_on k date = (case k of CryptoTrend \<Rightarrow> True | EtfTrend \<Rightarrow> True | EtfMomentum \<Rightarrow> True)"

definition slot_for :: "sleeve_spec list \<Rightarrow> int \<Rightarrow> int option" where
  "slot_for sleeves now1 =
     (let today = date_naive now1
      in case run_slot_on sleeves today of
           None \<Rightarrow> None
         | Some slot \<Rightarrow>
             if now1 < slot then None
             else if \<not> list_ex (\<lambda>s. sleeve_due_on (ss_kind s) today) sleeves then None
             else Some slot)"

section \<open>Due runs\<close>

record active_account =
  aa_account_id :: string
  aa_tenant_id :: string
  aa_mandate :: mandate_body
  aa_envelope :: mandate_envelope
  aa_plan_approved :: bool
  aa_sleeves :: "sleeve_spec list"
  aa_mode :: execution_mode

record run_spec =
  sp_account_id :: string
  sp_tenant_id :: string
  sp_scheduled_for :: int
  sp_trading_day :: int
  sp_mode :: execution_mode
  sp_sleeves :: "sleeve_spec list"
  sp_mandate :: mandate_body
  sp_envelope :: mandate_envelope

definition eligible :: "active_account \<Rightarrow> bool" where
  "eligible a \<longleftrightarrow> env_status (aa_envelope a) = MsActive \<and> aa_plan_approved a"

definition due_run :: "int \<Rightarrow> active_account \<Rightarrow> run_spec option" where
  "due_run now1 a =
     (if \<not> eligible a then None
      else map_option (\<lambda>slot. \<lparr>sp_account_id = aa_account_id a, sp_tenant_id = aa_tenant_id a, sp_scheduled_for = slot,
             sp_trading_day = date_naive slot, sp_mode = aa_mode a, sp_sleeves = aa_sleeves a, sp_mandate = aa_mandate a,
             sp_envelope = aa_envelope a\<rparr>) (slot_for (aa_sleeves a) now1))"

definition find_due_runs :: "('w \<Rightarrow> (string + active_account list) \<times> 'w) \<Rightarrow> int \<Rightarrow> 'w \<Rightarrow> (string + run_spec list) \<times> 'w" where
  "find_due_runs source now1 w =
     (case source w of
        (Inl e, w1) \<Rightarrow> (Inl e, w1)
      | (Inr accounts, w1) \<Rightarrow> (Inr (List.map_filter (due_run now1) accounts), w1))"

section \<open>Running them\<close>

record ('p, 'w) runtime =
  rt_broker :: "'w broker"
  rt_environment :: venue_environment
  rt_source :: "('p, 'w) source"
  rt_prices :: "string list \<Rightarrow> int \<Rightarrow> 'w \<Rightarrow> (data_error + (string, price_point) btree_map) \<times> 'w"
  rt_venue_rules :: venue_rule_book

record ('p, 'w) services =
  sv_runtimes :: "string \<Rightarrow> ('p, 'w) runtime option"
  sv_try_lock :: "string \<Rightarrow> 'w \<Rightarrow> (string + bool) \<times> 'w"
  sv_release :: "string \<Rightarrow> 'w \<Rightarrow> 'w"
  sv_unwind :: "('p eval_cache option \<times> 'w \<Rightarrow> run_record \<times> 'p eval_cache option \<times> 'w) \<Rightarrow> 'p eval_cache option \<times> 'w
     \<Rightarrow> (string + run_record) \<times> 'p eval_cache option \<times> 'w"
  sv_now :: "'w \<Rightarrow> int \<times> 'w"
  sv_sleep_secs :: "nat \<Rightarrow> 'w \<Rightarrow> unit \<times> 'w"
  sv_load :: "string \<Rightarrow> 'w \<Rightarrow> (store_error + account_state option) \<times> 'w"
  sv_save :: "64 word \<Rightarrow> account_state \<Rightarrow> 'w \<Rightarrow> (store_error + account_state) \<times> 'w"
  sv_begin :: "run_key \<Rightarrow> int \<Rightarrow> int \<Rightarrow> int \<Rightarrow> 'w \<Rightarrow> (run_store_error + begin_outcome) \<times> 'w"
  sv_journal_order :: "run_key \<Rightarrow> journal_entry \<Rightarrow> 'w \<Rightarrow> (run_store_error + unit) \<times> 'w"
  sv_in_flight :: "string \<Rightarrow> 'w \<Rightarrow> (run_store_error + journal_entry list) \<times> 'w"
  sv_finish :: "run_record \<Rightarrow> 'w \<Rightarrow> (run_store_error + unit) \<times> 'w"
  sv_last_snapshot :: "string \<Rightarrow> 'w \<Rightarrow> (run_store_error + snapshot_summary option) \<times> 'w"
  sv_known_order_ids :: "string \<Rightarrow> 'w \<Rightarrow> (run_store_error + string btree_set) \<times> 'w"
  sv_day_counters :: "string \<Rightarrow> int \<Rightarrow> 'w \<Rightarrow> (run_store_error + day_counters) \<times> 'w"
  sv_last_acted_decision :: "string \<Rightarrow> string \<Rightarrow> 'w \<Rightarrow> (run_store_error + int option) \<times> 'w"
  sv_notify :: "alert \<Rightarrow> 'w \<Rightarrow> (string + unit) \<times> 'w"
  sv_kill_flag :: "'w \<Rightarrow> (string + bool) \<times> 'w"
  sv_config :: run_config
  sv_text :: run_text
  sv_rules :: "'p rules"

definition runtime_broker :: "('p, 'w, 'z) services_scheme \<Rightarrow> ('p, 'w) runtime \<Rightarrow> 'w broker" where
  "runtime_broker sv rt = (rt_broker rt)\<lparr>bk_now := sv_now sv, bk_sleep_secs := sv_sleep_secs sv\<rparr>"

definition context_of :: "('p, 'w) services \<Rightarrow> ('p, 'w) runtime \<Rightarrow> run_spec \<Rightarrow> ('p, 'w) run_context" where
  "context_of sv rt sp =
     \<lparr>cx_account_id = sp_account_id sp, cx_scheduled_for = sp_scheduled_for sp, cx_trading_day = sp_trading_day sp,
      cx_mode = sp_mode sp, cx_sleeves = sp_sleeves sp, cx_mandate = Some (sp_mandate sp), cx_envelope = Some (sp_envelope sp),
      cx_venue_rules = rt_venue_rules rt, cx_config = sv_config sv, cx_text = sv_text sv, cx_rules = sv_rules sv,
      cx_broker = runtime_broker sv rt, cx_environment = rt_environment rt, cx_source = rt_source rt, cx_prices = rt_prices rt,
      cx_load = sv_load sv, cx_save = sv_save sv, cx_begin = sv_begin sv, cx_journal_order = sv_journal_order sv,
      cx_in_flight = sv_in_flight sv, cx_finish = sv_finish sv, cx_last_snapshot = sv_last_snapshot sv,
      cx_known_order_ids = sv_known_order_ids sv, cx_day_counters = sv_day_counters sv,
      cx_last_acted_decision = sv_last_acted_decision sv, cx_notify = sv_notify sv, cx_kill_flag = sv_kill_flag sv\<rparr>"

datatype due_run_error = LockBusy | LockUnavailable string | NoRuntime | Panicked string

record due_outcome =
  du_spec :: run_spec
  du_result :: "due_run_error + run_record"

definition run_cached :: "('p, 'w) run_context \<Rightarrow> 'p eval_cache option \<times> 'w \<Rightarrow> run_record \<times> 'p eval_cache option \<times> 'w" where
  "run_cached cx = (\<lambda>(c, w). let (r, s) = run_once cx c w in (r, rn_cache s, rn_world s))"

definition run_due :: "('p, 'w) services \<Rightarrow> run_spec \<Rightarrow> 'p eval_cache option \<times> 'w \<Rightarrow> (due_run_error + run_record) \<times> 'p eval_cache option \<times> 'w" where
  "run_due sv sp = (\<lambda>(c, w).
     case sv_try_lock sv (sp_account_id sp) w of
       (Inr False, w1) \<Rightarrow> (Inl LockBusy, c, w1)
     | (Inl e, w1) \<Rightarrow> (Inl (LockUnavailable e), c, w1)
     | (Inr True, w1) \<Rightarrow>
         (case sv_runtimes sv (sp_account_id sp) of
            None \<Rightarrow> (Inl NoRuntime, c, sv_release sv (sp_account_id sp) w1)
          | Some rt \<Rightarrow>
              (case sv_unwind sv (run_cached (context_of sv rt sp)) (c, w1) of
                 (r, c2, w2) \<Rightarrow> (map_err Panicked r, c2, sv_release sv (sp_account_id sp) w2))))"

fun run_each :: "('p, 'w) services \<Rightarrow> run_spec list \<Rightarrow> 'p eval_cache option \<times> 'w \<Rightarrow> due_outcome list \<times> 'p eval_cache option \<times> 'w" where
  "run_each sv [] s = ([], s)"
| "run_each sv (sp # sps) s =
     (let (r, s1) = run_due sv sp s; (os, s2) = run_each sv sps s1
      in (\<lparr>du_spec = sp, du_result = r\<rparr> # os, s2))"

definition run_all_due :: "('p, 'w) services \<Rightarrow> run_spec list \<Rightarrow> 'w \<Rightarrow> due_outcome list \<times> 'w" where
  "run_all_due sv due w = (let (os, _, w1) = run_each sv due (Some eval_cache_new, w) in (os, w1))"

definition summarize_due :: "due_outcome list \<Rightarrow> nat \<times> nat" where
  "summarize_due os = (let ran = length (filter (\<lambda>o1. \<not> isl (du_result o1)) os) in (ran, length os - ran))"

section \<open>Properties\<close>

text \<open>The slot of an account as an offset into the UTC day: 15:00 when a sleeve needs market hours, else 00:10.\<close>

definition day_slot :: "sleeve_spec list \<Rightarrow> int" where
  "day_slot sl = (if \<exists>s \<in> set sl. ss_kind s \<noteq> CryptoTrend then 15 * 3600 else 10 * 60) * 10 ^ 9"

lemma foldl_max_Max: "foldl max (x :: nat \<times> nat) xs = Max (set (x # xs))"
proof -
  have "(\<lambda>x s. max s x) = (max :: nat \<times> nat \<Rightarrow> _)" by (intro ext) (rule max.commute)
  then show ?thesis unfolding Max.set_eq_fold foldl_conv_fold by (rule arg_cong)
qed

lemma account_slot:
  assumes "account_run_slot_utc sl = Some hm"
  shows "sl \<noteq> [] \<and> slot_ns hm = day_slot sl"
proof -
  let ?f = "\<lambda>s. run_slot_utc (ss_kind s)"
  from assms obtain x xs where x: "map ?f sl = x # xs" "hm = foldl max x xs"
    by (auto simp: account_run_slot_utc_def split: list.splits)
  have "hm = Max (?f ` set sl)" unfolding x(2) foldl_max_Max x(1) [symmetric] by simp
  moreover have "?f ` set sl \<noteq> {}" using x(1) by auto
  ultimately have "hm \<in> ?f ` set sl" and le: "\<forall>z \<in> set sl. ?f z \<le> hm" by (simp_all add: Max_in)
  then obtain s where s: "s \<in> set sl" "hm = ?f s" by blast
  show ?thesis
  proof (cases "\<exists>z \<in> set sl. ss_kind z \<noteq> CryptoTrend")
    case True
    then obtain z where "z \<in> set sl" "?f z = (15, 0)" by (auto simp: run_slot_utc_def MARKET_HOURS_RUN_UTC_def split: sleeve_kind.splits)
    with le have "(15, 0) \<le> hm" by metis
    with s(2) have "hm = (15, 0)"
      by (auto simp: run_slot_utc_def MARKET_HOURS_RUN_UTC_def DAILY_RUN_UTC_def split: sleeve_kind.splits)
    with True s(1) show ?thesis by (auto simp: day_slot_def slot_ns_def)
  next
    case False
    with s have "hm = (0, 10)" by (auto simp: run_slot_utc_def DAILY_RUN_UTC_def split: sleeve_kind.splits)
    with False s(1) show ?thesis by (auto simp: day_slot_def slot_ns_def)
  qed
qed

lemma slot_within_day: "0 \<le> day_slot sl \<and> day_slot sl < ns_per_day"
  by (simp add: day_slot_def ns_per_day_def ns_per_sec_def)

lemma slot_for_Some:
  "slot_for sl now1 = Some t \<longleftrightarrow> sl \<noteq> [] \<and> t = date_naive now1 * ns_per_day + day_slot sl \<and> t \<le> now1"
proof (cases "account_run_slot_utc sl")
  case None
  then have "sl = []" by (auto simp: account_run_slot_utc_def split: list.splits)
  with None show ?thesis by (simp add: slot_for_def run_slot_on_def)
next
  case (Some hm)
  note account_slot [OF Some]
  moreover from this have "list_ex (\<lambda>s. sleeve_due_on (ss_kind s) d) sl" for d
    by (cases sl) (auto simp: sleeve_due_on_def split: sleeve_kind.splits)
  ultimately show ?thesis using Some by (auto simp: slot_for_def Let_def run_slot_on_def)
qed

lemma slot_date: "slot_for sl now1 = Some t \<Longrightarrow> date_naive t = date_naive now1"
  using slot_within_day [of sl] by (auto simp: slot_for_Some date_naive_def ns_per_day_def div_add1_eq)

definition spec_key :: "run_spec \<Rightarrow> run_key" where
  "spec_key sp = run_key_new (sp_account_id sp) (sp_scheduled_for sp) (map ss_id (sp_sleeves sp))"

lemma due_run_Some:
  "due_run t a = Some sp \<longleftrightarrow> eligible a \<and> aa_sleeves a \<noteq> [] \<and> date_naive t * ns_per_day + day_slot (aa_sleeves a) \<le> t \<and>
     sp = \<lparr>sp_account_id = aa_account_id a, sp_tenant_id = aa_tenant_id a,
       sp_scheduled_for = date_naive t * ns_per_day + day_slot (aa_sleeves a), sp_trading_day = date_naive t, sp_mode = aa_mode a,
       sp_sleeves = aa_sleeves a, sp_mandate = aa_mandate a, sp_envelope = aa_envelope a\<rparr>"
  by (auto simp: due_run_def slot_for_Some dest: slot_date intro!: slot_date)

lemma due_same_key: "due_run t1 a = Some s1 \<Longrightarrow> due_run t2 a = Some s2 \<Longrightarrow> spec_key s1 = spec_key s2 \<longleftrightarrow> date_naive t1 = date_naive t2"
  by (auto simp: due_run_Some spec_key_def run_key_new_def Let_def ns_per_day_def ns_per_sec_def)

text \<open>
  C16: what is due. An account that has a due run has an active mandate, an approved plan and a
  sleeve, and the run is for its slot of that UTC day, which has come: 15:00 when one of its sleeves
  needs market hours, and 00:10 otherwise. Such an account is due at an instant exactly when
  the slot of that day has come. Two due runs of the same account found at different instants have the
  same run key exactly when the instants are on the same UTC day: there is one run per account and day.
\<close>

theorem due_once_a_day:
  assumes "due_run t1 a = Some s1" and "due_run t2 a = Some s2"
  shows "eligible a \<and> aa_sleeves a \<noteq> [] \<and> sp_scheduled_for s1 \<le> t1 \<and> sp_trading_day s1 = date_naive t1
    \<and> sp_scheduled_for s1 = date_naive t1 * ns_per_day + day_slot (aa_sleeves a)
    \<and> (\<forall>t. due_run t a \<noteq> None \<longleftrightarrow> date_naive t * ns_per_day + day_slot (aa_sleeves a) \<le> t)
    \<and> (spec_key s1 = spec_key s2 \<longleftrightarrow> date_naive t1 = date_naive t2)"
  using assms due_same_key [OF assms] by (simp add: due_run_Some)

text \<open>One outcome per due run, in order, whatever the others did.\<close>

lemma run_each_specs: "map du_spec (fst (run_each sv sps s)) = sps"
  by (induction sps arbitrary: s) (auto simp: Let_def split_beta)

lemma summarize_due_total: "fst (summarize_due os) + snd (summarize_due os) = length os"
  by (simp add: summarize_due_def Let_def)

end
