(* ===== verification/Monitor.thy ===== *)
theory Monitor
  imports Driver
begin

text \<open>
  \<open>rebalancer-run/src/monitor.rs\<close>: the continuous equity monitor. One reading of one account is a
  computation in the state monad over \<open>monitor\<close>, early returns are branches. The prose of messages is
  left out; the run key of an alert is the record with the text \<open>monitor\<close> for the sleeve set.
  \<open>catch_unwind\<close> is a parameter of the loop over accounts: it gives the message of a panic, or what the
  reading returned.
\<close>

section \<open>Codes and reports\<close>

datatype monitor_code =
    McObserved | McHalted | McFlattenResumed | McAccountHalted | McKillFlagSet | McKillFlagUnreadable | McVenueNotPaper
  | McMandateInvalid | McBrokerUnreachable | McStateStoreError | McRunStoreUnavailable | McLockBusy | McLockUnavailable
  | McNoRuntime | McPanicked

definition monitor_codes :: "monitor_code list" where
  "monitor_codes = [McObserved, McHalted, McFlattenResumed, McAccountHalted, McKillFlagSet, McKillFlagUnreadable,
     McVenueNotPaper, McMandateInvalid, McBrokerUnreachable, McStateStoreError, McRunStoreUnavailable, McLockBusy,
     McLockUnavailable, McNoRuntime, McPanicked]"

definition monitor_code_as_str :: "monitor_code \<Rightarrow> string" where
  "monitor_code_as_str c =
     (case c of
        McObserved \<Rightarrow> ''MONITOR_OBSERVED'' | McHalted \<Rightarrow> ''MONITOR_HALTED'' | McFlattenResumed \<Rightarrow> ''MONITOR_FLATTEN_RESUMED''
      | McAccountHalted \<Rightarrow> ''MONITOR_ACCOUNT_HALTED'' | McKillFlagSet \<Rightarrow> ''MONITOR_KILL_FLAG_SET''
      | McKillFlagUnreadable \<Rightarrow> ''MONITOR_KILL_FLAG_UNREADABLE'' | McVenueNotPaper \<Rightarrow> ''MONITOR_VENUE_NOT_PAPER''
      | McMandateInvalid \<Rightarrow> ''MONITOR_MANDATE_INVALID'' | McBrokerUnreachable \<Rightarrow> ''MONITOR_BROKER_UNREACHABLE''
      | McStateStoreError \<Rightarrow> ''MONITOR_STATE_STORE_ERROR'' | McRunStoreUnavailable \<Rightarrow> ''MONITOR_RUN_STORE_UNAVAILABLE''
      | McLockBusy \<Rightarrow> ''MONITOR_LOCK_BUSY'' | McLockUnavailable \<Rightarrow> ''MONITOR_LOCK_UNAVAILABLE''
      | McNoRuntime \<Rightarrow> ''MONITOR_NO_RUNTIME'' | McPanicked \<Rightarrow> ''MONITOR_PANICKED'')"

definition code_is_failure :: "monitor_code \<Rightarrow> bool" where
  "code_is_failure c =
     (case c of
        McKillFlagUnreadable \<Rightarrow> True | McVenueNotPaper \<Rightarrow> True | McMandateInvalid \<Rightarrow> True | McBrokerUnreachable \<Rightarrow> True
      | McStateStoreError \<Rightarrow> True | McRunStoreUnavailable \<Rightarrow> True | McLockUnavailable \<Rightarrow> True | McNoRuntime \<Rightarrow> True
      | McPanicked \<Rightarrow> True | _ \<Rightarrow> False)"

record monitor_report =
  mo_account_id :: string
  mo_at :: int
  mo_code :: monitor_code
  mo_equity :: "dec option"
  mo_log_error :: "string option"
  mo_decision :: "risk_decision option"
  mo_status_before :: "account_status option"
  mo_status_after :: "account_status option"
  mo_transitions :: "transition list"
  mo_flatten :: "flatten_report option"
  mo_alerts :: "alert list"
  mo_alert_delivery_failures :: "string list"
  mo_reads :: nat
  mo_day_start_missing :: bool

definition monitor_report_new :: "string \<Rightarrow> int \<Rightarrow> monitor_report" where
  "monitor_report_new a t =
     \<lparr>mo_account_id = a, mo_at = t, mo_code = McObserved, mo_equity = None, mo_log_error = None, mo_decision = None,
      mo_status_before = None, mo_status_after = None, mo_transitions = [], mo_flatten = None, mo_alerts = [],
      mo_alert_delivery_failures = [], mo_reads = 0, mo_day_start_missing = False\<rparr>"

definition not_attempted :: "string \<Rightarrow> int \<Rightarrow> monitor_code \<Rightarrow> monitor_report" where
  "not_attempted a t c = (monitor_report_new a t)\<lparr>mo_code := c\<rparr>"

record 'w monitor_context =
  mx_account_id :: string
  mx_mode :: execution_mode
  mx_mandate :: mandate_body
  mx_broker :: "'w broker"
  mx_environment :: venue_environment
  mx_load :: "string \<Rightarrow> 'w \<Rightarrow> (store_error + account_state option) \<times> 'w"
  mx_save :: "64 word \<Rightarrow> account_state \<Rightarrow> 'w \<Rightarrow> (store_error + account_state) \<times> 'w"
  mx_known_order_ids :: "string \<Rightarrow> 'w \<Rightarrow> (run_store_error + string btree_set) \<times> 'w"
  mx_notify :: "alert \<Rightarrow> 'w \<Rightarrow> (string + unit) \<times> 'w"
  mx_kill_flag :: "'w \<Rightarrow> (string + bool) \<times> 'w"
  mx_log :: "equity_reading \<Rightarrow> 'w \<Rightarrow> (string + unit) \<times> 'w"
  mx_venue_rules :: venue_rule_book
  mx_config :: run_config
  mx_text :: run_text

record 'w monitor =
  mn_world :: 'w
  mn_report :: monitor_report
  mn_state :: account_state

type_synonym ('w, 'a) mon = "('w monitor, 'a) state"

section \<open>One reading\<close>

definition mcall :: "('w \<Rightarrow> 'a \<times> 'w) \<Rightarrow> ('w, 'a) mon" where
  "mcall f = State (\<lambda>s. let (x, w) = f (mn_world s) in (x, s\<lparr>mn_world := w\<rparr>))"

definition mget :: "('w monitor \<Rightarrow> 'a) \<Rightarrow> ('w, 'a) mon" where
  "mget f = State (\<lambda>s. (f s, s))"

definition mreport :: "(monitor_report \<Rightarrow> monitor_report) \<Rightarrow> ('w, unit) mon" where
  "mreport f = change (\<lambda>s. s\<lparr>mn_report := f (mn_report s)\<rparr>)"

definition mnow :: "'w monitor_context \<Rightarrow> ('w, int) mon" where
  "mnow cx = mcall (bk_now (mx_broker cx))"

definition mfinish :: "monitor_code \<Rightarrow> ('w, unit) mon" where
  "mfinish c = mreport (\<lambda>r. r\<lparr>mo_code := c\<rparr>)"

definition monitor_key :: "string \<Rightarrow> int \<Rightarrow> run_key" where
  "monitor_key a t = \<lparr>rk_account_id = a, rk_scheduled_for = t, rk_sleeve_set = ''monitor''\<rparr>"

definition deliver :: "'w monitor_context \<Rightarrow> alert \<Rightarrow> ('w, unit) mon" where
  "deliver cx a =
     do { d \<leftarrow> mcall (mx_notify cx a);
          mreport (\<lambda>r. (case d of
             Inl e \<Rightarrow> r\<lparr>mo_alert_delivery_failures := mo_alert_delivery_failures r @ [alert_code_as_str (al_code a) @ '': '' @ e]\<rparr>
           | Inr _ \<Rightarrow> r)\<lparr>mo_alerts := mo_alerts r @ [a]\<rparr>) }"

definition malert :: "'w monitor_context \<Rightarrow> alert_code \<Rightarrow> alert_severity \<Rightarrow> string \<Rightarrow> ('w, unit) mon" where
  "malert cx c sev dedupe =
     do { t \<leftarrow> mnow cx;
          reading \<leftarrow> mget (\<lambda>s. mo_at (mn_report s));
          deliver cx \<lparr>al_code = c, al_severity = sev, al_account_id = mx_account_id cx,
            al_run_key = monitor_key (mx_account_id cx) reading, al_dedupe_key = mx_account_id cx @ '':'' @ dedupe, al_at = t\<rparr> }"

definition msave :: "'w monitor_context \<Rightarrow> account_state \<Rightarrow> ('w, store_error + unit) mon" where
  "msave cx nxt =
     do { st \<leftarrow> mget mn_state;
          if nxt = st then State_Monad.return (Inr ())
          else do { r \<leftarrow> mcall (mx_save cx (ac_version st) nxt);
                    case r of
                      Inl e \<Rightarrow> State_Monad.return (Inl e)
                    | Inr saved \<Rightarrow> do { _ \<leftarrow> change (\<lambda>s. s\<lparr>mn_state := saved\<rparr>); State_Monad.return (Inr ()) } } }"

definition mtransition :: "transition option \<Rightarrow> ('w, unit) mon" where
  "mtransition tr = mreport (\<lambda>r. r\<lparr>mo_transitions := mo_transitions r @ opt_list tr\<rparr>)"

definition log_reading :: "'w monitor_context \<Rightarrow> broker_snapshot \<Rightarrow> ('w, unit) mon" where
  "log_reading cx snap =
     do { r \<leftarrow> mcall (mx_log cx \<lparr>er_account_id = mx_account_id cx, er_taken_at = bs_taken_at snap, er_equity = bs_equity snap,
             er_cash = bs_cash snap, er_derived_equity = bs_derived_equity snap, er_source = MONITOR_SNAPSHOT_SOURCE\<rparr>);
          case r of
            Inl e \<Rightarrow> mreport (\<lambda>r. r\<lparr>mo_log_error := Some e\<rparr>)
          | Inr _ \<Rightarrow> State_Monad.return () }"

definition monitor_universe :: "'w monitor_context \<Rightarrow> string btree_set" where
  "monitor_universe cx =
     (case policy_limits (compile_policy (tx_from_str (mx_text cx)) (tx_hash (mx_text cx)) (mx_mandate cx)) of
        Some l \<Rightarrow> l_instrument_allow l | None \<Rightarrow> [])"

definition monitor_flatten_spec :: "'w monitor_context \<Rightarrow> halt_record \<Rightarrow> string btree_set \<Rightarrow> flatten_spec" where
  "monitor_flatten_spec cx h ids =
     (let cfg = mx_config cx
      in (flatten_spec_new (mx_account_id cx) (tx_attempt_key (mx_text cx) (hr_at h)) (monitor_universe cx) (mx_venue_rules cx) ids)
           \<lparr>fs_max_rounds := cf_flatten_max_rounds cfg, fs_max_polls := cf_max_polls cfg, fs_poll_secs := cf_poll_secs cfg\<rparr>)"

definition flatten_done :: "'w monitor_context \<Rightarrow> flatten_report \<Rightarrow> ('w, bool) mon" where
  "flatten_done cx rep =
     (let verified = (fr_verdict rep \<noteq> FvHaltAndAlert)
      in do { _ \<leftarrow> mreport (\<lambda>r. r\<lparr>mo_flatten := Some rep\<rparr>);
              (nxt, tr) \<leftarrow> mget (\<lambda>s. complete_flatten (mn_state s) verified);
              _ \<leftarrow> mtransition tr;
              sv \<leftarrow> msave cx nxt;
              _ \<leftarrow> (if isl sv \<or> \<not> verified then malert cx AlFlattenIncomplete AvCritical ''flatten'' else State_Monad.return ());
              State_Monad.return True })"

definition monitor_flatten :: "'w monitor_context \<Rightarrow> ('w, bool) mon" where
  "monitor_flatten cx =
     do { h \<leftarrow> mget (\<lambda>s. ac_halt (mn_state s));
          case h of
            None \<Rightarrow> State_Monad.return True
          | Some hr \<Rightarrow>
              do { k \<leftarrow> mcall (mx_known_order_ids cx (mx_account_id cx));
                   case k of
                     Inl e \<Rightarrow> do { _ \<leftarrow> malert cx AlFlattenIncomplete AvCritical ''flatten''; State_Monad.return False }
                   | Inr ids \<Rightarrow>
                       do { rep \<leftarrow> mcall (flatten (tx_flat (mx_text cx)) (mx_broker cx) (monitor_flatten_spec cx hr ids));
                            flatten_done cx rep } } }"

text \<open>A reading that did not halt: the day without a start value is reported, and alerted once.\<close>

definition observed :: "'w monitor_context \<Rightarrow> broker_snapshot \<Rightarrow> int option \<Rightarrow> ('w, unit) mon" where
  "observed cx snap prior_day =
     do { _ \<leftarrow> (case cf_day_start (mx_config cx) of
                FirstObservation \<Rightarrow> State_Monad.return ()
              | UtcMidnight max_lag_secs \<Rightarrow>
                  let day = date_naive (bs_taken_at snap)
                  in do { missing \<leftarrow> mget (\<lambda>s. day_start_missing (mn_state s) day);
                          if \<not> missing then State_Monad.return ()
                          else do { _ \<leftarrow> mreport (\<lambda>r. r\<lparr>mo_day_start_missing := True\<rparr>);
                                    if prior_day \<noteq> Some day
                                    then malert cx AlRunFailed AvWarning (''day_start_missing:'' @ tx_date (mx_text cx) day)
                                    else State_Monad.return () } });
          mfinish McObserved }"

definition halted :: "'w monitor_context \<Rightarrow> ('w, unit) mon" where
  "halted cx =
     do { _ \<leftarrow> malert cx AlHalt AvCritical ''halt'';
          if mx_mode cx = Live
          then do { started \<leftarrow> monitor_flatten cx;
                    mfinish (if started then McHalted else McRunStoreUnavailable) }
          else do { (nxt, tr) \<leftarrow> mget (\<lambda>s. complete_flatten (mn_state s) True);
                    _ \<leftarrow> mtransition tr;
                    sv \<leftarrow> msave cx nxt;
                    case sv of
                      Inl e \<Rightarrow> mfinish McStateStoreError
                    | Inr _ \<Rightarrow> do { _ \<leftarrow> malert cx AlFlattenIncomplete AvCritical ''flatten''; mfinish McHalted } } }"

definition monitor_risk :: "'w monitor_context \<Rightarrow> risk_policy \<Rightarrow> int \<Rightarrow> broker_snapshot \<Rightarrow> ('w, unit) mon" where
  "monitor_risk cx rp t snap =
     do { prior_day \<leftarrow> mget (\<lambda>s. ac_trading_day (mn_state s));
          (nxt, decision, tr) \<leftarrow> mget (\<lambda>s. step_with (mn_state s) (snap_equity snap) (date_naive t) rp (cf_day_start (mx_config cx)));
          _ \<leftarrow> mreport (\<lambda>r. r\<lparr>mo_decision := Some decision\<rparr>);
          _ \<leftarrow> mtransition tr;
          sv \<leftarrow> msave cx nxt;
          case sv of
            Inl e \<Rightarrow>
              do { _ \<leftarrow> (if rd_action decision = ActHaltFlatten then malert cx AlRunFailed AvCritical ''monitor:halt_not_saved''
                        else State_Monad.return ());
                   mfinish McStateStoreError }
          | Inr _ \<Rightarrow> if rd_action decision \<noteq> ActHaltFlatten then observed cx snap prior_day else halted cx }"

definition monitor_status :: "'w monitor_context \<Rightarrow> risk_policy \<Rightarrow> int \<Rightarrow> broker_snapshot \<Rightarrow> ('w, unit) mon" where
  "monitor_status cx rp t snap =
     do { status \<leftarrow> mget (\<lambda>s. ac_status (mn_state s));
          case status of
            AsHalted \<Rightarrow> mfinish McAccountHalted
          | AsFlattening \<Rightarrow>
              if mx_mode cx \<noteq> Live then mfinish McAccountHalted
              else do { started \<leftarrow> monitor_flatten cx;
                        mfinish (if started then McFlattenResumed else McRunStoreUnavailable) }
          | _ \<Rightarrow> monitor_risk cx rp t snap }"

definition monitor_read :: "'w monitor_context \<Rightarrow> risk_policy \<Rightarrow> ('w, unit) mon" where
  "monitor_read cx rp =
     do { l \<leftarrow> mcall (mx_load cx (mx_account_id cx));
          case l of
            Inl e \<Rightarrow> mfinish McStateStoreError
          | Inr st \<Rightarrow>
              do { _ \<leftarrow> change (\<lambda>s. s\<lparr>mn_state := (case st of Some x \<Rightarrow> x | None \<Rightarrow> account_new (mx_account_id cx))\<rparr>);
                   status \<leftarrow> mget (\<lambda>s. ac_status (mn_state s));
                   _ \<leftarrow> mreport (\<lambda>r. r\<lparr>mo_status_before := Some status\<rparr>);
                   t \<leftarrow> mnow cx;
                   _ \<leftarrow> mreport (\<lambda>r. r\<lparr>mo_reads := mo_reads r + 1\<rparr>);
                   v \<leftarrow> mcall (bk_snapshot (mx_broker cx) t);
                   case v of
                     Inl e \<Rightarrow> mfinish McBrokerUnreachable
                   | Inr snap \<Rightarrow>
                       do { _ \<leftarrow> mreport (\<lambda>r. r\<lparr>mo_equity := Some (bs_equity snap)\<rparr>);
                            _ \<leftarrow> log_reading cx snap;
                            monitor_status cx rp t snap } } }"

definition monitor_execute :: "'w monitor_context \<Rightarrow> ('w, unit) mon" where
  "monitor_execute cx =
     (if cf_venue_policy (mx_config cx) = PaperOnly \<and> mx_environment cx \<noteq> VePaper then mfinish McVenueNotPaper
      else do { k \<leftarrow> mcall (mx_kill_flag cx);
                case k of
                  Inr True \<Rightarrow> mfinish McKillFlagSet
                | Inl e \<Rightarrow> mfinish McKillFlagUnreadable
                | Inr False \<Rightarrow>
                    (case from_mandate_with_recovery (tx_from_str (mx_text cx)) (mx_mandate cx) (cf_recovery_fraction (mx_config cx)) of
                       Inl e \<Rightarrow> mfinish McMandateInvalid
                     | Inr rp \<Rightarrow> monitor_read cx rp) })"

definition monitor_once :: "'w monitor_context \<Rightarrow> 'w \<Rightarrow> monitor_report \<times> 'w" where
  "monitor_once cx w0 =
     (let (t, w) = bk_now (mx_broker cx) w0;
          s = snd (run_state (monitor_execute cx) \<lparr>mn_world = w, mn_report = monitor_report_new (mx_account_id cx) t,
                mn_state = account_new (mx_account_id cx)\<rparr>)
      in ((mn_report s)\<lparr>mo_status_after := Some (ac_status (mn_state s))\<rparr>, mn_world s))"

section \<open>Many accounts\<close>

definition monitored_accounts :: "active_account list \<Rightarrow> active_account list" where
  "monitored_accounts as = filter eligible as"

type_synonym failure_streaks = "(string, monitor_code) btree_map"

definition btm_remove :: "'k \<Rightarrow> ('k, 'v) btree_map \<Rightarrow> ('k, 'v) btree_map" where
  "btm_remove k m = filter (\<lambda>(a, _). a \<noteq> k) m"

definition streaks_observe :: "monitor_report \<Rightarrow> failure_streaks \<Rightarrow> bool \<times> failure_streaks" where
  "streaks_observe r st =
     (if code_is_failure (mo_code r)
      then (map_of st (mo_account_id r) \<noteq> Some (mo_code r), btm_insert (mo_account_id r) (mo_code r) st)
      else (False, if mo_code r \<noteq> McLockBusy then btm_remove (mo_account_id r) st else st))"

definition is_failing :: "string \<Rightarrow> failure_streaks \<Rightarrow> bool" where
  "is_failing a st \<longleftrightarrow> map_of st a \<noteq> None"

record ('p, 'w) monitor_services = "('p, 'w) services" +
  sv_log :: "equity_reading \<Rightarrow> 'w \<Rightarrow> (string + unit) \<times> 'w"
  sv_unwind_reading :: "('w \<Rightarrow> monitor_report \<times> 'w) \<Rightarrow> 'w \<Rightarrow> (string + monitor_report) \<times> 'w"

definition monitor_context_of :: "('p, 'w) monitor_services \<Rightarrow> ('p, 'w) runtime \<Rightarrow> active_account \<Rightarrow> 'w monitor_context" where
  "monitor_context_of sv rt a =
     \<lparr>mx_account_id = aa_account_id a, mx_mode = aa_mode a, mx_mandate = aa_mandate a, mx_broker = runtime_broker sv rt,
      mx_environment = rt_environment rt, mx_load = sv_load sv, mx_save = sv_save sv, mx_known_order_ids = sv_known_order_ids sv,
      mx_notify = sv_notify sv, mx_kill_flag = sv_kill_flag sv, mx_log = sv_log sv, mx_venue_rules = rt_venue_rules rt,
      mx_config = sv_config sv, mx_text = sv_text sv\<rparr>"

definition skipped_report :: "('p, 'w) monitor_services \<Rightarrow> string \<Rightarrow> monitor_code \<Rightarrow> 'w \<Rightarrow> monitor_report \<times> 'w" where
  "skipped_report sv a c w = (let (t, w1) = sv_now sv w in (not_attempted a t c, w1))"

definition monitor_account :: "('p, 'w) monitor_services \<Rightarrow> active_account \<Rightarrow> 'w \<Rightarrow> monitor_report \<times> 'w" where
  "monitor_account sv a w =
     (let i = aa_account_id a
      in case sv_runtimes sv i of
           None \<Rightarrow> skipped_report sv i McNoRuntime w
         | Some rt \<Rightarrow>
             (case sv_try_lock sv i w of
                (Inr False, w1) \<Rightarrow> skipped_report sv i McLockBusy w1
              | (Inl e, w1) \<Rightarrow> skipped_report sv i McLockUnavailable w1
              | (Inr True, w1) \<Rightarrow>
                  (let (r, w2) = sv_unwind_reading sv (monitor_once (monitor_context_of sv rt a)) w1; w3 = sv_release sv i w2
                   in case r of Inr rep \<Rightarrow> (rep, w3) | Inl _ \<Rightarrow> skipped_report sv i McPanicked w3)))"

definition streak_alert :: "('p, 'w) monitor_services \<Rightarrow> monitor_report \<Rightarrow> string \<Rightarrow> 'w \<Rightarrow> monitor_report \<times> 'w" where
  "streak_alert sv r i w =
     (let (t, w1) = sv_now sv w;
          a = \<lparr>al_code = AlRunFailed, al_severity = AvWarning, al_account_id = i, al_run_key = monitor_key i (mo_at r),
               al_dedupe_key = i @ '':monitor:'' @ monitor_code_as_str (mo_code r), al_at = t\<rparr>;
          (d, w2) = sv_notify sv a w1;
          r1 = (case d of
             Inl e \<Rightarrow> r\<lparr>mo_alert_delivery_failures := mo_alert_delivery_failures r @ [alert_code_as_str AlRunFailed @ '': '' @ e]\<rparr>
           | Inr _ \<Rightarrow> r)
      in (r1\<lparr>mo_alerts := mo_alerts r1 @ [a]\<rparr>, w2))"

fun monitor_each :: "('p, 'w) monitor_services \<Rightarrow> active_account list \<Rightarrow> failure_streaks \<Rightarrow> 'w \<Rightarrow> monitor_report list \<times> failure_streaks \<times> 'w" where
  "monitor_each sv [] st w = ([], st, w)"
| "monitor_each sv (a # as) st w =
     (let (r, w1) = monitor_account sv a w;
          (new_streak, st1) = streaks_observe r st;
          (r1, w2) = (if new_streak then streak_alert sv r (aa_account_id a) w1 else (r, w1));
          (rs, st2, w3) = monitor_each sv as st1 w2
      in (r1 # rs, st2, w3))"

definition monitor_all :: "('p, 'w) monitor_services \<Rightarrow> active_account list \<Rightarrow> failure_streaks \<Rightarrow> 'w \<Rightarrow> monitor_report list \<times> failure_streaks \<times> 'w" where
  "monitor_all sv as st w = monitor_each sv (monitored_accounts as) st w"

end
