(* ===== verification/Monitor_Props.thy ===== *)
theory Monitor_Props
  imports Monitor
begin

text \<open>
  What the monitor can and cannot do, for every broker and every store: the context is put behind the
  recorder of \<open>Flatten_Props\<close>, and the theorems are about its log and the report. \<open>yields\<close> is the
  logic of \<open>State_Logic\<close> with the result in the postcondition.
\<close>

section \<open>Results in the postcondition\<close>

definition yields :: "('s \<Rightarrow> bool) \<Rightarrow> ('s, 'a) state \<Rightarrow> ('a \<Rightarrow> 's \<Rightarrow> bool) \<Rightarrow> bool" where
  "yields P m Q \<longleftrightarrow> (\<forall>s. P s \<longrightarrow> (case run_state m s of (x, s') \<Rightarrow> Q x s'))"

lemma yields_bind: "yields P m R \<Longrightarrow> (\<And>x. yields (R x) (f x) Q) \<Longrightarrow> yields P (State_Monad.bind m f) Q"
  by (fastforce simp: yields_def split: prod.splits)

lemma yields_return: "(\<And>s. P s \<Longrightarrow> Q x s) \<Longrightarrow> yields P (State_Monad.return x) Q"
  by (simp add: yields_def)

lemma yields_mask: "(\<And>s. P s \<Longrightarrow> Q (f s) s) \<Longrightarrow> yields P (mget f) Q"
  by (simp add: yields_def mget_def)

lemma yields_change: "(\<And>s. P s \<Longrightarrow> Q () (f s)) \<Longrightarrow> yields P (change f) Q"
  by (simp add: yields_def change_def)

lemma yields_report: "(\<And>s. P s \<Longrightarrow> Q () (s\<lparr>mn_report := f (mn_report s)\<rparr>)) \<Longrightarrow> yields P (mreport f) Q"
  unfolding mreport_def by (rule yields_change)

lemma yields_call:
  "(\<And>s x w. P s \<Longrightarrow> f (mn_world s) = (x, w) \<Longrightarrow> Q x (s\<lparr>mn_world := w\<rparr>)) \<Longrightarrow> yields P (mcall f) Q"
  by (auto simp: yields_def mcall_def split: prod.splits)

lemma yields_run: "yields P m Q \<Longrightarrow> P s \<Longrightarrow> run_state m s = (x, s') \<Longrightarrow> Q x s'"
  by (fastforce simp: yields_def)

lemma yields_mono: "yields P m Q \<Longrightarrow> (\<And>s. P' s \<Longrightarrow> P s) \<Longrightarrow> (\<And>x s. Q x s \<Longrightarrow> Q' x s) \<Longrightarrow> yields P' m Q'"
  by (fastforce simp: yields_def split: prod.splits)

section \<open>The recorded monitor\<close>

definition recorded_monitor :: "'w monitor_context \<Rightarrow> ('w \<times> log_event list) monitor_context" where
  "recorded_monitor cx =
     \<lparr>mx_account_id = mx_account_id cx, mx_mode = mx_mode cx, mx_mandate = mx_mandate cx, mx_broker = recording (mx_broker cx),
      mx_environment = mx_environment cx, mx_load = (\<lambda>a. lift_io (mx_load cx a)), mx_save = (\<lambda>v s. lift_io (mx_save cx v s)),
      mx_known_order_ids = (\<lambda>a. lift_io (mx_known_order_ids cx a)), mx_notify = (\<lambda>a. lift_io (mx_notify cx a)),
      mx_kill_flag = lift_io (mx_kill_flag cx), mx_log = (\<lambda>r. lift_io (mx_log cx r)), mx_venue_rules = mx_venue_rules cx,
      mx_config = mx_config cx, mx_text = mx_text cx\<rparr>"

abbreviation mon_log :: "('w \<times> log_event list) monitor \<Rightarrow> log_event list" where
  "mon_log s \<equiv> snd (mn_world s)"

text \<open>What the orders of a reading depend on: the log, and the parts of the report that justify an order.\<close>

definition core :: "('w \<times> log_event list) monitor \<Rightarrow> log_event list \<times> risk_decision option \<times> account_status option \<times> flatten_report option" where
  "core s = (mon_log s, mo_decision (mn_report s), mo_status_before (mn_report s), mo_flatten (mn_report s))"

abbreviation still :: "(log_event list \<times> risk_decision option \<times> account_status option \<times> flatten_report option \<Rightarrow> bool)
    \<Rightarrow> ('w \<times> log_event list, 'a) mon \<Rightarrow> bool" where
  "still J m \<equiv> yields (\<lambda>s. J (core s)) m (\<lambda>_ s. J (core s))"

named_theorems stills \<open>operations that leave the core alone\<close>

lemma still_bind: "still J m \<Longrightarrow> (\<And>x. still J (f x)) \<Longrightarrow> still J (State_Monad.bind m f)"
  by (rule yields_bind)

lemma still_return [stills]: "still J (State_Monad.return x)"
  by (rule yields_return)

lemma still_mask [stills]: "still J (mget f)"
  by (rule yields_mask)

lemma still_lift: "still J (mcall (lift_io f))"
  by (rule yields_call) (auto simp: core_def dest: lift_io_log)

lemma still_report [stills]:
  "(\<And>r. mo_decision (f r) = mo_decision r \<and> mo_status_before (f r) = mo_status_before r \<and> mo_flatten (f r) = mo_flatten r)
    \<Longrightarrow> still J (mreport f)"
  by (rule yields_report) (simp add: core_def)

lemma still_state [stills]: "still J (change (\<lambda>s. s\<lparr>mn_state := st\<rparr>))"
  by (rule yields_change) (simp add: core_def)

lemma still_calls [stills]:
  "still J (mcall (mx_load (recorded_monitor cx) a))" "still J (mcall (mx_save (recorded_monitor cx) v st))"
  "still J (mcall (mx_known_order_ids (recorded_monitor cx) a))" "still J (mcall (mx_notify (recorded_monitor cx) al))"
  "still J (mcall (mx_kill_flag (recorded_monitor cx)))" "still J (mcall (mx_log (recorded_monitor cx) er))"
  "still J (mnow (recorded_monitor cx))"
  by (simp_all add: recorded_monitor_def recording_def mnow_def still_lift)

lemma still_finish [stills]: "still J (mfinish c)"
  unfolding mfinish_def by (rule stills) simp

lemma still_alert [stills]: "still J (malert (recorded_monitor cx) c sev d)"
  unfolding malert_def deliver_def by (intro still_bind stills) (simp split: sum.split)

lemma still_transition [stills]: "still J (mtransition tr)"
  unfolding mtransition_def by (rule stills) simp

lemma still_if: "still J m \<Longrightarrow> still J n \<Longrightarrow> still J (if b then m else n)"
  by simp

lemma still_save [stills]: "still J (msave (recorded_monitor cx) st)"
  unfolding msave_def by (intro still_bind still_if stills) (auto intro!: still_bind stills split: sum.split)

lemma still_log_reading [stills]: "still J (log_reading (recorded_monitor cx) snap)"
  unfolding log_reading_def by (intro still_bind stills) (auto intro!: stills split: sum.split)

lemma still_observed: "still J (observed (recorded_monitor cx) snap d)"
  unfolding observed_def Let_def by (intro still_bind stills) (auto intro!: still_bind stills split: day_start_rule.split)

section \<open>Orders\<close>

text \<open>Every order of the log closes a position of a snapshot in it, in an instrument the mandate allows.\<close>

definition all_closing :: "'w monitor_context \<Rightarrow> log_event list \<Rightarrow> bool" where
  "all_closing cx l \<longleftrightarrow> (\<forall>r. Placed r \<in> set l \<longrightarrow>
     (\<exists>snap h ids. SawSnapshot snap \<in> set l \<and> closes_position (monitor_flatten_spec cx h ids) snap r))"

lemma sent_Nil_iff: "sent l = [] \<longleftrightarrow> (\<forall>r. Placed r \<notin> set l)"
  by (induction l) (auto split: log_event.splits, (metis log_event.exhaust sent_simps(2,3) list.distinct(1))+)

lemma recorded_monitor_sel [simp]:
  "mx_mode (recorded_monitor cx) = mx_mode cx" "mx_text (recorded_monitor cx) = mx_text cx" "mx_config (recorded_monitor cx) = mx_config cx"
  "mx_account_id (recorded_monitor cx) = mx_account_id cx" "mx_broker (recorded_monitor cx) = recording (mx_broker cx)"
  "mx_venue_rules (recorded_monitor cx) = mx_venue_rules cx" "mx_mandate (recorded_monitor cx) = mx_mandate cx"
  "mx_environment (recorded_monitor cx) = mx_environment cx" "monitor_flatten_spec (recorded_monitor cx) h ids = monitor_flatten_spec cx h ids"
  by (simp_all add: recorded_monitor_def monitor_flatten_spec_def monitor_universe_def Let_def)

abbreviation silent :: "(risk_decision option \<Rightarrow> account_status option \<Rightarrow> bool)
    \<Rightarrow> log_event list \<times> risk_decision option \<times> account_status option \<times> flatten_report option \<Rightarrow> bool" where
  "silent K \<equiv> \<lambda>(l, d, st, f). sent l = [] \<and> K d st"

abbreviation flattened :: "'w monitor_context \<Rightarrow> (risk_decision option \<Rightarrow> account_status option \<Rightarrow> bool)
    \<Rightarrow> log_event list \<times> risk_decision option \<times> account_status option \<times> flatten_report option \<Rightarrow> bool" where
  "flattened cx K \<equiv> \<lambda>(l, d, st, f). K d st \<and> (sent l = [] \<or> f \<noteq> None \<and> all_closing cx l)"

lemma flatten_closing:
  assumes "snapshots_ok (mx_broker cx)" and "book_ok (mx_venue_rules cx)" and "sent (snd w) = []"
    and run: "flatten tx (recording (mx_broker cx)) (monitor_flatten_spec cx h ids) w = (rep, w')"
  shows "all_closing cx (snd w')"
proof -
  obtain v l0 where w: "w = (v, l0)" by force
  obtain v' l where w': "w' = (v', l)" by force
  have "book_ok (fs_venue_rules (monitor_flatten_spec cx h ids))"
    using assms(2) by (simp add: monitor_flatten_spec_def flatten_spec_new_def Let_def)
  from log_from_placed [OF flatten_log [OF assms(1) this run [unfolded w w']]] assms(3) w w' show ?thesis
    unfolding all_closing_def sent_Nil_iff by fastforce
qed

definition sound_monitor :: "'w monitor_context \<Rightarrow> bool" where
  "sound_monitor cx \<longleftrightarrow> snapshots_ok (mx_broker cx) \<and> book_ok (mx_venue_rules cx)"

lemma silent_flattened: "silent K c \<Longrightarrow> flattened cx K c"
  by (auto split: prod.splits)

lemma flatten_step:
  assumes "sound_monitor cx"
  shows "yields (\<lambda>s. silent K (core s)) (mcall (flatten tx (recording (mx_broker cx)) (monitor_flatten_spec cx h ids)))
     (\<lambda>_ s. (\<lambda>(l, d, st, f). K d st \<and> all_closing cx l) (core s))"
  using assms by (intro yields_call) (auto simp: core_def sound_monitor_def intro: flatten_closing)

lemma yields_prod: "(\<And>a b. x = (a, b) \<Longrightarrow> yields P (f a b) Q) \<Longrightarrow> yields P (case x of (a, b) \<Rightarrow> f a b) Q"
  by (cases x) simp

lemma yields_sum: "(\<And>e. x = Inl e \<Longrightarrow> yields P (f e) Q) \<Longrightarrow> (\<And>y. x = Inr y \<Longrightarrow> yields P (g y) Q)
    \<Longrightarrow> yields P (case x of Inl e \<Rightarrow> f e | Inr y \<Rightarrow> g y) Q"
  by (cases x) simp_all

lemma yields_option: "yields P f Q \<Longrightarrow> (\<And>y. x = Some y \<Longrightarrow> yields P (g y) Q) \<Longrightarrow> yields P (case x of None \<Rightarrow> f | Some y \<Rightarrow> g y) Q"
  by (cases x) simp_all

lemma flatten_done_yields:
  "yields (\<lambda>s. (\<lambda>(l, d, st, f). K d st \<and> all_closing cx l) (core s)) (flatten_done (recorded_monitor cx) rep)
     (\<lambda>b s. b \<and> flattened cx K (core s))"
proof -
  have set: "yields (\<lambda>s. (\<lambda>(l, d, st, f). K d st \<and> all_closing cx l) (core s)) (mreport (\<lambda>r. r\<lparr>mo_flatten := Some rep\<rparr>))
      (\<lambda>_ s. flattened cx K (core s))"
    by (rule yields_report) (simp add: core_def)
  show ?thesis unfolding flatten_done_def Let_def
    by (intro yields_bind [OF set] yields_bind [OF still_mask] yields_prod yields_bind [OF still_transition] yields_bind [OF still_save]
        yields_bind [OF still_if [OF still_alert still_return]] yields_return) simp
qed

lemma flatten_yields:
  assumes "sound_monitor cx"
  shows "yields (\<lambda>s. silent K (core s)) (monitor_flatten (recorded_monitor cx))
     (\<lambda>b s. if b then flattened cx K (core s) else silent K (core s))"
  unfolding monitor_flatten_def recorded_monitor_sel
proof (intro yields_bind [OF still_mask] yields_option yields_bind [OF still_calls(3)] yields_sum)
  show "yields (\<lambda>s. silent K (core s)) (State_Monad.return True) (\<lambda>b s. if b then flattened cx K (core s) else silent K (core s))"
    by (rule yields_return) (use silent_flattened in auto)
  show "yields (\<lambda>s. silent K (core s)) (do { _ \<leftarrow> malert (recorded_monitor cx) AlFlattenIncomplete AvCritical ''flatten''; State_Monad.return False })
      (\<lambda>b s. if b then flattened cx K (core s) else silent K (core s))"
    by (intro yields_bind [OF still_alert] yields_return) simp
  show "yields (\<lambda>s. silent K (core s)) (do { rep \<leftarrow> mcall (flatten (tx_flat (mx_text cx)) (recording (mx_broker cx)) (monitor_flatten_spec cx hr ids));
        flatten_done (recorded_monitor cx) rep }) (\<lambda>b s. if b then flattened cx K (core s) else silent K (core s))" for hr ids
    by (intro yields_bind [OF flatten_step [OF assms]] yields_mono [OF flatten_done_yields]) auto
qed

text \<open>When a reading has asked for an order.\<close>

definition halting :: "risk_decision option \<Rightarrow> bool" where
  "halting d \<longleftrightarrow> (case d of Some x \<Rightarrow> rd_action x = ActHaltFlatten | None \<Rightarrow> False)"

definition justified :: "'w monitor_context \<Rightarrow> ('w \<times> log_event list) monitor \<Rightarrow> bool" where
  "justified cx s \<longleftrightarrow> sent (mon_log s) = [] \<or>
     (mx_mode cx = Live \<and> mo_flatten (mn_report s) \<noteq> None \<and> all_closing cx (mon_log s) \<and>
      (mo_code (mn_report s) = McHalted \<and> halting (mo_decision (mn_report s))
       \<or> mo_code (mn_report s) = McFlattenResumed \<and> mo_status_before (mn_report s) = Some AsFlattening))"

lemma finish_silent: "yields (\<lambda>s. silent K (core s)) (mfinish c) (\<lambda>_. justified cx)"
  unfolding mfinish_def by (rule yields_report) (auto simp: core_def justified_def)

lemma finish_flattened:
  assumes "mx_mode cx = Live" and "\<And>d st. K d st \<Longrightarrow> c = McHalted \<and> halting d \<or> c = McFlattenResumed \<and> st = Some AsFlattening"
  shows "yields (\<lambda>s. flattened cx K (core s)) (mfinish c) (\<lambda>_. justified cx)"
  unfolding mfinish_def by (rule yields_report) (use assms in \<open>auto simp: core_def justified_def\<close>)

lemma flatten_finish:
  assumes "sound_monitor cx" and "mx_mode cx = Live"
    and "\<And>d st. K d st \<Longrightarrow> c = McHalted \<and> halting d \<or> c = McFlattenResumed \<and> st = Some AsFlattening"
  shows "yields (\<lambda>s. silent K (core s)) (do { started \<leftarrow> monitor_flatten (recorded_monitor cx); mfinish (if started then c else c') })
    (\<lambda>_. justified cx)"
proof (rule yields_bind [OF flatten_yields [OF assms(1)]])
  fix b show "yields (\<lambda>s. if b then flattened cx K (core s) else silent K (core s)) (mfinish (if b then c else c')) (\<lambda>_. justified cx)"
    using finish_flattened [OF assms(2,3)] finish_silent by (cases b) simp_all
qed

lemma halted_justified:
  assumes "sound_monitor cx"
  shows "yields (\<lambda>s. silent (\<lambda>d st. halting d) (core s)) (halted (recorded_monitor cx)) (\<lambda>_. justified cx)"
proof (cases "mx_mode cx = Live")
  case True
  show ?thesis unfolding halted_def recorded_monitor_sel if_P [OF True]
    by (intro yields_bind [OF still_alert] flatten_finish [OF assms True]) simp
next
  case False
  show ?thesis unfolding halted_def recorded_monitor_sel if_not_P [OF False]
    by (intro yields_bind [OF still_alert] yields_bind [OF still_mask] yields_prod yields_bind [OF still_transition]
        yields_bind [OF still_save] yields_sum finish_silent)
qed

lemma observed_justified: "yields (\<lambda>s. silent K (core s)) (observed (recorded_monitor cx) snap d) (\<lambda>_. justified cx)"
proof -
  have "still J (case cf_day_start (mx_config (recorded_monitor cx)) of
                FirstObservation \<Rightarrow> State_Monad.return ()
              | UtcMidnight max_lag_secs \<Rightarrow>
                  let day = date_naive (bs_taken_at snap)
                  in do { missing \<leftarrow> mget (\<lambda>s. day_start_missing (mn_state s) day);
                          if \<not> missing then State_Monad.return ()
                          else do { _ \<leftarrow> mreport (\<lambda>r. r\<lparr>mo_day_start_missing := True\<rparr>);
                                    if d \<noteq> Some day
                                    then malert (recorded_monitor cx) AlRunFailed AvWarning (''day_start_missing:'' @ tx_date (mx_text (recorded_monitor cx)) day)
                                    else State_Monad.return () } })" for J
    unfolding Let_def by (auto intro!: still_bind stills split: day_start_rule.split)
  then show ?thesis unfolding observed_def by (rule yields_bind) (rule finish_silent)
qed

lemma risk_justified:
  assumes "sound_monitor cx"
  shows "yields (\<lambda>s. silent (\<lambda>_ _. True) (core s)) (monitor_risk (recorded_monitor cx) rp t snap) (\<lambda>_. justified cx)"
proof -
  have set: "yields (\<lambda>s. silent (\<lambda>_ _. True) (core s)) (mreport (\<lambda>r. r\<lparr>mo_decision := Some x\<rparr>)) (\<lambda>_ s. silent (\<lambda>d st. d = Some x) (core s))" for x
    by (rule yields_report) (simp add: core_def)
  have act: "yields (\<lambda>s. silent (\<lambda>d st. d = Some x) (core s))
      (if rd_action x \<noteq> ActHaltFlatten then observed (recorded_monitor cx) snap p else halted (recorded_monitor cx)) (\<lambda>_. justified cx)" for x p
  proof (cases "rd_action x = ActHaltFlatten")
    case True
    have "yields (\<lambda>s. silent (\<lambda>d st. d = Some x) (core s)) (halted (recorded_monitor cx)) (\<lambda>_. justified cx)"
      using True by (intro yields_mono [OF halted_justified [OF assms]]) (auto simp: halting_def)
    with True show ?thesis by simp
  next
    case False
    show ?thesis unfolding if_P [OF False] by (rule observed_justified)
  qed
  show ?thesis unfolding monitor_risk_def
    by (intro yields_bind [OF still_mask] yields_prod yields_bind [OF set] yields_bind [OF still_transition] yields_bind [OF still_save]
        yields_sum act yields_bind [OF still_if [OF still_alert still_return]] finish_silent)
qed

text \<open>Until the risk step the status in the report is that of the state.\<close>

definition loaded :: "('w \<times> log_event list) monitor \<Rightarrow> bool" where
  "loaded s \<longleftrightarrow> sent (mon_log s) = [] \<and> mo_status_before (mn_report s) = Some (ac_status (mn_state s))"

lemma loaded_lift: "yields loaded (mcall (lift_io f)) (\<lambda>_. loaded)"
  by (rule yields_call) (auto simp: loaded_def dest: lift_io_log)

lemma loaded_report: "(\<And>r. mo_status_before (f r) = mo_status_before r) \<Longrightarrow> yields loaded (mreport f) (\<lambda>_. loaded)"
  by (rule yields_report) (simp add: loaded_def)

lemma loaded_snapshot: "yields loaded (mcall (bk_snapshot (recording b) t)) (\<lambda>_. loaded)"
  by (rule yields_call) (auto simp: loaded_def recording_def split: prod.splits sum.splits)

lemma loaded_log: "yields loaded (log_reading (recorded_monitor cx) snap) (\<lambda>_. loaded)"
  unfolding log_reading_def recorded_monitor_def monitor_context.simps
  by (intro yields_bind [OF loaded_lift] yields_sum loaded_report yields_return) simp_all

lemma loaded_silent: "loaded s \<Longrightarrow> silent (\<lambda>_ _. True) (core s)"
  by (simp add: loaded_def core_def)

lemma status_justified:
  assumes "sound_monitor cx"
  shows "yields loaded (monitor_status (recorded_monitor cx) rp t snap) (\<lambda>_. justified cx)"
  unfolding monitor_status_def recorded_monitor_sel
proof (rule yields_bind [where R = "\<lambda>x s. loaded s \<and> ac_status (mn_state s) = x"])
  show "yields loaded (mget (\<lambda>s. ac_status (mn_state s))) (\<lambda>x s. loaded s \<and> ac_status (mn_state s) = x)" by (rule yields_mask) simp
next
  fix x
  let ?P = "\<lambda>s. loaded s \<and> ac_status (mn_state s) = x"
  have risk: "yields ?P (monitor_risk (recorded_monitor cx) rp t snap) (\<lambda>_. justified cx)"
    by (rule yields_mono [OF risk_justified [OF assms]]) (auto simp: loaded_def core_def)
  have fin: "yields ?P (mfinish c) (\<lambda>_. justified cx)" for c
    by (rule yields_mono [OF finish_silent [where K = "\<lambda>_ _. True"]]) (auto simp: loaded_def core_def)
  have flat: "yields ?P (do { started \<leftarrow> monitor_flatten (recorded_monitor cx);
      mfinish (if started then McFlattenResumed else McRunStoreUnavailable) }) (\<lambda>_. justified cx)" if "x = AsFlattening" "mx_mode cx = Live"
    by (rule yields_mono [OF flatten_finish [OF assms that(2), where K = "\<lambda>d st. st = Some AsFlattening"]])
      (use that(1) in \<open>auto simp: loaded_def core_def\<close>)
  show "yields ?P (case x of AsHalted \<Rightarrow> mfinish McAccountHalted
      | AsFlattening \<Rightarrow> if mx_mode cx \<noteq> Live then mfinish McAccountHalted
          else do { started \<leftarrow> monitor_flatten (recorded_monitor cx); mfinish (if started then McFlattenResumed else McRunStoreUnavailable) }
      | _ \<Rightarrow> monitor_risk (recorded_monitor cx) rp t snap) (\<lambda>_. justified cx)"
    using risk fin flat by (cases x) auto
qed

lemma read_justified:
  assumes "sound_monitor cx"
  shows "yields (\<lambda>s. silent (\<lambda>_ _. True) (core s)) (monitor_read (recorded_monitor cx) rp) (\<lambda>_. justified cx)"
proof -
  have fin: "yields loaded (mfinish c) (\<lambda>_. justified cx)" for c
    by (rule yields_mono [OF finish_silent [where K = "\<lambda>_ _. True"]]) (auto simp: loaded_def core_def)
  have start: "yields (\<lambda>s. silent (\<lambda>_ _. True) (core s)) (mget (\<lambda>s. ac_status (mn_state s)))
      (\<lambda>x s. silent (\<lambda>_ _. True) (core s) \<and> ac_status (mn_state s) = x)" by (rule yields_mask) simp
  have set: "yields (\<lambda>s. silent (\<lambda>_ _. True) (core s) \<and> ac_status (mn_state s) = x) (mreport (\<lambda>r. r\<lparr>mo_status_before := Some x\<rparr>)) (\<lambda>_. loaded)" for x
    by (rule yields_report) (auto simp: core_def loaded_def)
  have nw: "yields loaded (mnow (recorded_monitor cx)) (\<lambda>_. loaded)"
    by (simp add: mnow_def recorded_monitor_def recording_def loaded_lift)
  have upd: "yields loaded (mreport (\<lambda>r. r\<lparr>mo_reads := mo_reads r + 1\<rparr>)) (\<lambda>_. loaded)"
    "yields loaded (mreport (\<lambda>r. r\<lparr>mo_equity := e\<rparr>)) (\<lambda>_. loaded)" for e by (intro loaded_report; simp)+
  show ?thesis unfolding monitor_read_def recorded_monitor_sel
    by (intro yields_bind [OF still_calls(1)] yields_sum finish_silent yields_bind [OF still_state] yields_bind [OF start]
        yields_bind [OF set] yields_bind [OF nw] yields_bind [OF upd(1)] yields_bind [OF loaded_snapshot] fin
        yields_bind [OF upd(2)] yields_bind [OF loaded_log] status_justified [OF assms])
qed

lemma execute_justified:
  assumes "sound_monitor cx"
  shows "yields (\<lambda>s. silent (\<lambda>_ _. True) (core s)) (monitor_execute (recorded_monitor cx)) (\<lambda>_. justified cx)"
proof -
  note fin = finish_silent [where K = "\<lambda>_ _. True" and cx = cx]
  have "yields (\<lambda>s. silent (\<lambda>_ _. True) (core s)) (case k of Inr True \<Rightarrow> mfinish McKillFlagSet | Inl e \<Rightarrow> mfinish McKillFlagUnreadable
      | Inr False \<Rightarrow> (case m of Inl e \<Rightarrow> mfinish McMandateInvalid | Inr rp \<Rightarrow> monitor_read (recorded_monitor cx) rp)) (\<lambda>_. justified cx)"
    for k :: "string + bool" and m :: "'x + risk_policy"
    using fin read_justified [OF assms] by (auto split: sum.split bool.split)
  then show ?thesis unfolding monitor_execute_def recorded_monitor_sel using fin
    by (cases "cf_venue_policy (mx_config cx) = PaperOnly \<and> mx_environment cx \<noteq> VePaper") (auto intro!: yields_bind [OF still_calls(5)])
qed

text \<open>
  C11: the monitor sends no order of its own. Whatever the broker and the stores answer, a reading that asked
  the broker for an order is one of a live account that halted it by a halt rung or the daily limit,
  or found it flattening, and reports a flatten; each order closes no more than a position a
  snapshot showed, in an instrument the mandate allows. Every other reading sends nothing.
\<close>

theorem monitor_only_flattens:
  assumes "sound_monitor cx" and "monitor_once (recorded_monitor cx) (w, []) = (rep, w', events)" and "sent events \<noteq> []"
  shows "mx_mode cx = Live \<and> mo_flatten rep \<noteq> None \<and> \<not> code_is_failure (mo_code rep)
    \<and> (mo_code rep = McHalted \<and> halting (mo_decision rep) \<or> mo_code rep = McFlattenResumed \<and> mo_status_before rep = Some AsFlattening)
    \<and> (\<forall>r \<in> set (sent events). \<exists>snap h ids. SawSnapshot snap \<in> set events \<and> closes_position (monitor_flatten_spec cx h ids) snap r)"
proof -
  obtain t v l where n: "bk_now (recording (mx_broker cx)) (w, []) = (t, v, l)" by (metis prod_cases3)
  have l: "l = []" using n by (auto simp: recording_def dest: lift_io_log)
  let ?s0 = "\<lparr>mn_world = (v, l), mn_report = monitor_report_new (mx_account_id cx) t, mn_state = account_new (mx_account_id cx)\<rparr>"
  obtain u s where r: "run_state (monitor_execute (recorded_monitor cx)) ?s0 = (u, s)" by (rule prod.exhaust)
  have "silent (\<lambda>_ _. True) (core ?s0)" using l by (simp add: core_def)
  from yields_run [OF execute_justified [OF assms(1)] this r] have j: "justified cx s" .
  have o: "rep = (mn_report s)\<lparr>mo_status_after := Some (ac_status (mn_state s))\<rparr>" "(w', events) = mn_world s"
    using assms(2) n r by (auto simp: monitor_once_def Let_def)
  have e: "events = mon_log s" using o(2) by (metis snd_conv)
  have "\<forall>r \<in> set (sent events). Placed r \<in> set events"
    by (auto simp: sent_def List.map_filter_def split: log_event.splits)
  then show ?thesis using j assms(3) unfolding e o(1) justified_def all_closing_def by (auto simp: code_is_failure_def)
qed

section \<open>Failure streaks\<close>

text \<open>The last report of an account that says anything about its health.\<close>

definition last_code :: "monitor_report list \<Rightarrow> string \<Rightarrow> monitor_code option" where
  "last_code rs i =
     (case rev (filter (\<lambda>r. mo_account_id r = i \<and> mo_code r \<noteq> McLockBusy) rs) of [] \<Rightarrow> None | r # _ \<Rightarrow> Some (mo_code r))"

fun observe_all :: "monitor_report list \<Rightarrow> failure_streaks \<Rightarrow> bool list \<times> failure_streaks" where
  "observe_all [] st = ([], st)"
| "observe_all (r # rs) st = (let (b, st1) = streaks_observe r st; (bs, st2) = observe_all rs st1 in (b # bs, st2))"

lemma map_of_btm_remove: "map_of (btm_remove k m) = (map_of m)(k := None)"
  by (induction m) (auto simp: btm_remove_def fun_eq_iff)

lemma last_code_snoc:
  "last_code (rs @ [r]) i = (if mo_account_id r = i \<and> mo_code r \<noteq> McLockBusy then Some (mo_code r) else last_code rs i)"
  by (simp add: last_code_def)

definition streaks_match :: "monitor_report list \<Rightarrow> failure_streaks \<Rightarrow> bool" where
  "streaks_match rs st \<longleftrightarrow> (\<forall>i. map_of st i = (case last_code rs i of Some c \<Rightarrow> if code_is_failure c then Some c else None | None \<Rightarrow> None))"

lemma observe_match:
  assumes "streaks_match rs st" and "streaks_observe r st = (b, st')"
  shows "streaks_match (rs @ [r]) st' \<and> (b \<longleftrightarrow> code_is_failure (mo_code r) \<and> last_code rs (mo_account_id r) \<noteq> Some (mo_code r))"
proof (cases "code_is_failure (mo_code r)")
  case True
  then have nb: "mo_code r \<noteq> McLockBusy" by (auto simp: code_is_failure_def)
  have s: "b \<longleftrightarrow> map_of st (mo_account_id r) \<noteq> Some (mo_code r)" "st' = btm_insert (mo_account_id r) (mo_code r) st"
    using assms(2) True by (auto simp: streaks_observe_def)
  have "map_of st (mo_account_id r) = Some (mo_code r) \<longleftrightarrow> last_code rs (mo_account_id r) = Some (mo_code r)"
    using spec [OF assms(1) [unfolded streaks_match_def], of "mo_account_id r"] True
    by (cases "last_code rs (mo_account_id r)") (auto split: if_splits)
  then show ?thesis using assms(1) True nb s unfolding streaks_match_def by (simp add: last_code_snoc map_of_btm_insert)
next
  case False
  then have s: "\<not> b" "st' = (if mo_code r \<noteq> McLockBusy then btm_remove (mo_account_id r) st else st)"
    using assms(2) by (auto simp: streaks_observe_def)
  then show ?thesis using assms(1) False unfolding streaks_match_def by (simp add: last_code_snoc map_of_btm_remove)
qed

lemma observe_all_match:
  assumes "streaks_match pre st" and "observe_all rs st = (bs, st')" and "n < length rs"
  shows "bs ! n \<longleftrightarrow> code_is_failure (mo_code (rs ! n)) \<and> last_code (pre @ take n rs) (mo_account_id (rs ! n)) \<noteq> Some (mo_code (rs ! n))"
  using assms
proof (induction rs arbitrary: pre st bs n)
  case (Cons r rs)
  obtain b st1 bs1 where o: "streaks_observe r st = (b, st1)" "observe_all rs st1 = (bs1, st')" "bs = b # bs1"
    using Cons.prems(2) by (auto simp: Let_def split: prod.splits)
  note m = observe_match [OF Cons.prems(1) o(1)]
  show ?case
  proof (cases n)
    case 0
    then show ?thesis using m o(3) by simp
  next
    case (Suc k)
    then show ?thesis using Cons.IH [OF conjunct1 [OF m] o(2), of k] Cons.prems(3) o(3) by simp
  qed
qed simp

text \<open>
  One alert per failure streak. Over any sequence of reports of any accounts, a report starts a new
  streak, and is alerted, exactly when its code is a failure and the account's last report other
  than a busy lock did not have that code.
\<close>

theorem streaks_alert_once:
  assumes "observe_all rs [] = (bs, st)" and "n < length rs"
  shows "bs ! n \<longleftrightarrow> code_is_failure (mo_code (rs ! n)) \<and> last_code (take n rs) (mo_account_id (rs ! n)) \<noteq> Some (mo_code (rs ! n))"
proof -
  have "streaks_match [] []" by (simp add: streaks_match_def last_code_def)
  from observe_all_match [OF this assms] show ?thesis by simp
qed

end
