(* ===== verification/Monitor_Demo.thy ===== *)
theory Monitor_Demo
  imports Monitor_Props Mandate Planner_Props
begin

text \<open>
  Concrete schedules and readings, for the witnesses of the driver's and the monitor's properties: a crypto
  account over two days, reports of two accounts, and a reading that finds its live account flattening
  and closes the position that is left, on the broker of \<open>Flatten_Props\<close>.
\<close>

section \<open>Due runs\<close>

definition patrol_sleeve :: sleeve_spec where
  "patrol_sleeve = \<lparr>ss_id = ''crypto'', ss_kind = CryptoTrend, ss_share = Dec 1 0, ss_venue = ''kraken'', ss_asset_class = ''crypto_spot'',
     ss_quote = ''USD'', ss_instruments = [], ss_tranche_sessions = 0, ss_lookback = None\<rparr>"

definition patrol_account :: active_account where
  "patrol_account = \<lparr>aa_account_id = ''acc'', aa_tenant_id = ''ten'', aa_mandate = baseline_mandate,
     aa_envelope = \<lparr>env_version = 3, env_status = MsActive, env_effective_from = 0, env_review_by = 10 ^ 18\<rparr>,
     aa_plan_approved = True, aa_sleeves = [patrol_sleeve], aa_mode = Live\<rparr>"

text \<open>One o'clock and two o'clock of the first day, and one o'clock of the second.\<close>

definition hour_ns :: "int \<Rightarrow> int" where "hour_ns h = h * 3600 * 10 ^ 9"

lemma patrol_due:
  assumes "h = 1 \<or> h = 2 \<or> h = 25"
  shows "\<exists>sp. due_run (hour_ns h) patrol_account = Some sp"
  using assms by (auto simp: due_run_Some eligible_def patrol_account_def patrol_sleeve_def day_slot_def hour_ns_def date_naive_def
      ns_per_day_def ns_per_sec_def)

theorem due_once_a_day_witness:
  "\<exists>s1 s2 s3. due_run (hour_ns 1) patrol_account = Some s1 \<and> due_run (hour_ns 2) patrol_account = Some s2 \<and>
     due_run (hour_ns 25) patrol_account = Some s3 \<and> spec_key s1 = spec_key s2 \<and> spec_key s1 \<noteq> spec_key s3"
proof -
  obtain s1 s2 s3 where s: "due_run (hour_ns 1) patrol_account = Some s1" "due_run (hour_ns 2) patrol_account = Some s2"
    "due_run (hour_ns 25) patrol_account = Some s3" using patrol_due [of 1] patrol_due [of 2] patrol_due [of 25] by auto
  have "date_naive (hour_ns 1) = 0" "date_naive (hour_ns 2) = 0" "date_naive (hour_ns 25) = 1"
    by (simp_all add: hour_ns_def date_naive_def ns_per_day_def ns_per_sec_def)
  with due_once_a_day [OF s(1,2)] due_once_a_day [OF s(1,3)] have "spec_key s1 = spec_key s2" "spec_key s1 \<noteq> spec_key s3" by simp_all
  with s show ?thesis by (intro exI conjI)
qed

section \<open>Failure streaks\<close>

definition patrol_reports :: "monitor_report list" where
  "patrol_reports = [not_attempted ''a'' 0 McBrokerUnreachable, not_attempted ''b'' 0 McObserved, not_attempted ''a'' 1 McLockBusy,
     not_attempted ''a'' 2 McBrokerUnreachable, not_attempted ''a'' 3 McObserved, not_attempted ''a'' 4 McBrokerUnreachable]"

theorem streaks_alert_once_witness:
  "\<exists>bs st. observe_all patrol_reports [] = (bs, st) \<and> bs = [True, False, False, False, False, True] \<and>
     (bs ! 5 \<longleftrightarrow> code_is_failure (mo_code (patrol_reports ! 5)) \<and> last_code (take 5 patrol_reports) ''a'' \<noteq> Some McBrokerUnreachable)"
proof -
  obtain bs st where r: "observe_all patrol_reports [] = (bs, st)" by (rule prod.exhaust)
  then have "bs = [True, False, False, False, False, True]"
    by (auto simp: patrol_reports_def not_attempted_def monitor_report_new_def streaks_observe_def code_is_failure_def btm_remove_def)
  moreover have "5 < length patrol_reports" by (simp add: patrol_reports_def)
  note streaks_alert_once [OF r this]
  moreover have "mo_account_id (patrol_reports ! 5) = ''a''" "mo_code (patrol_reports ! 5) = McBrokerUnreachable"
    by (simp_all add: patrol_reports_def not_attempted_def monitor_report_new_def)
  ultimately show ?thesis using r by (intro exI [of _ bs] exI [of _ st] conjI) simp_all
qed

section \<open>A reading that resumes a flatten\<close>

definition patrol_config :: run_config where
  "patrol_config = \<lparr>cf_min_trade_abs = Dec 1 0, cf_min_trade_pct = Dec 5 3, cf_fee_rate = Dec 2 3,
     cf_tolerances = recon_default_tolerances, cf_recovery_fraction = Dec 5 1, cf_max_price_age_secs = DEFAULT_MAX_PRICE_AGE_SECS,
     cf_lease_secs = 900, cf_max_polls = 3, cf_poll_secs = 1, cf_flatten_max_rounds = 4, cf_deployment = None,
     cf_venue_policy = Unrestricted, cf_day_start = FirstObservation\<rparr>"

definition patrol_halt :: halt_record where
  "patrol_halt = \<lparr>hr_reason = HrManual, hr_at = 0, hr_detail = [], hr_equity_at_halt = None, hr_hwm_at_halt = None, hr_failed_flatten_attempts = 1\<rparr>"

definition patrol_state :: account_state where
  "patrol_state = (account_new ''acc'')\<lparr>ac_status := AsFlattening, ac_halt := Some patrol_halt\<rparr>"

definition patrol :: "int monitor_context" where
  "patrol =
     \<lparr>mx_account_id = ''acc'', mx_mode = Live, mx_mandate = baseline_mandate, mx_broker = demo_broker, mx_environment = VeUnspecified,
      mx_load = (\<lambda>a w. (Inr (Some patrol_state), w)), mx_save = (\<lambda>v s w. (Inr s, w)), mx_known_order_ids = (\<lambda>a w. (Inr [], w)),
      mx_notify = (\<lambda>a w. (Inr (), w)), mx_kill_flag = (\<lambda>w. (Inr False, w)), mx_log = (\<lambda>r w. (Inr (), w)), mx_venue_rules = demo_book,
      mx_config = patrol_config,
      mx_text = \<lparr>tx_flat = demo_text, tx_plan = example_env, tx_from_str = baseline_from_str, tx_hash = (\<lambda>_. ''h''), tx_attempt_key = (\<lambda>_. ''k1''),
        tx_date = (\<lambda>_. []), tx_halt_summary = (\<lambda>_. []), tx_store_error = (\<lambda>_. [])\<rparr>\<rparr>"

definition patrol_spec :: flatten_spec where
  "patrol_spec = flatten_spec_new ''acc'' ''k1'' (l_instrument_allow baseline_limits) demo_book []"

lemma patrol_spec_is: "monitor_flatten_spec patrol patrol_halt [] = patrol_spec"
proof -
  have "mandate_validate baseline_from_str baseline_mandate = []"
    using baseline_from_mandate by (auto simp: from_mandate_with_recovery_def Let_def split: if_splits)
  moreover have "convert (mb_capital baseline_mandate) (mb_universe baseline_mandate) (mb_exposure baseline_mandate) = Inr baseline_limits"
    using convert_baseline by (simp add: baseline_mandate_def)
  ultimately have "monitor_universe patrol = l_instrument_allow baseline_limits"
    by (simp add: monitor_universe_def patrol_def compile_policy_def policy_limits_def)
  then show ?thesis by (simp add: monitor_flatten_spec_def patrol_spec_def patrol_def patrol_config_def flatten_spec_new_def)
qed

lemma patrol_plans:
  "plan_sells demo_text patrol_spec ''kraken'' (demo_snapshot 50) =
     \<lparr>sp_covers = [], sp_sells = [(''BTC/USD'', Dec 50000000 8, Dec 100 0)], sp_dust = [], sp_unmanaged = [], sp_blockers = []\<rparr>
   \<and> plan_sells demo_text patrol_spec ''kraken'' (demo_snapshot 0) =
     \<lparr>sp_covers = [], sp_sells = [], sp_dust = [], sp_unmanaged = [], sp_blockers = []\<rparr>"
  by code_simp

lemma patrol_limits:
  "fs_max_rounds patrol_spec = Suc (Suc (Suc (Suc 0)))" "fs_max_polls patrol_spec = Suc (Suc (Suc 0))"
  "fs_max_tag_index patrol_spec = Suc 24" "fs_known_order_ids patrol_spec = []"
  by (simp_all add: patrol_spec_def flatten_spec_new_def)

lemma patrol_tag:
  assumes "fl_world s = (h, l)"
  shows "run_state (free_tag demo_text (recording demo_broker) patrol_spec y sd) s = (Some (tag_for demo_text patrol_spec y sd 1), s)"
proof -
  have "run_state (free_tag_from demo_text (recording demo_broker) patrol_spec y sd 1 (Suc n)) s
      = (Some (tag_for demo_text patrol_spec y sd 1), s)" for n
    using assms by (simp del: One_nat_def add: io_def demo_calls Let_def run_state_bind)
  then show ?thesis by (simp only: free_tag_def patrol_limits)
qed

lemma patrol_flatten:
  "flatten demo_text (recording demo_broker) patrol_spec (50, l0) = (rep, h, l) \<Longrightarrow> fr_verdict rep = FvFlat \<and> sent l \<noteq> []"
  by (auto simp: demo_steps patrol_limits patrol_plans [THEN conjunct1] patrol_plans [THEN conjunct2] patrol_tag simp del: append.simps)

lemma patrol_calls:
  "run_state (mcall (mx_kill_flag (recorded_monitor patrol))) s = (Inr False, s)"
  "run_state (mcall (mx_load (recorded_monitor patrol) a)) s = (Inr (Some patrol_state), s)"
  "run_state (mcall (mx_save (recorded_monitor patrol) v st)) s = (Inr st, s)"
  "run_state (mcall (mx_known_order_ids (recorded_monitor patrol) a)) s = (Inr [], s)"
  "run_state (mcall (mx_log (recorded_monitor patrol) r)) s = (Inr (), s)"
  by (simp_all add: mcall_def recorded_monitor_def patrol_def lift_io_def split: prod.splits)

lemma patrol_broker_calls:
  assumes "mn_world s = (h, l)"
  shows "run_state (mnow (recorded_monitor patrol)) s = (0, s)"
    "run_state (mcall (bk_snapshot (recording demo_broker) t)) s = (Inr (demo_snapshot h), s\<lparr>mn_world := (h, SawSnapshot (demo_snapshot h) # l)\<rparr>)"
  using assms by (simp_all add: mnow_def mcall_def patrol_def demo_calls)

lemma patrol_sel [simp]:
  "mx_mode patrol = Live" "mx_account_id patrol = ''acc''" "mx_broker patrol = demo_broker" "mx_mandate patrol = baseline_mandate"
  "mx_config patrol = patrol_config" "tx_flat (mx_text patrol) = demo_text" "tx_from_str (mx_text patrol) = baseline_from_str"
  "cf_venue_policy patrol_config = Unrestricted"
  "ac_status patrol_state = AsFlattening" "ac_halt patrol_state = Some patrol_halt"
  by (simp_all add: patrol_def patrol_config_def patrol_state_def)

lemma patrol_once:
  "\<exists>rep h l. monitor_once (recorded_monitor patrol) (50, []) = (rep, h, l) \<and> sent l \<noteq> []"
proof -
  obtain fr h l where f: "flatten demo_text (recording demo_broker) patrol_spec (50, [SawSnapshot (demo_snapshot 50)]) = (fr, h, l)"
    by (metis prod_cases3)
  note p = patrol_flatten [OF f]
  have "cf_recovery_fraction patrol_config = Dec 5 1" by (simp add: patrol_config_def)
  then obtain rp where rp: "from_mandate_with_recovery baseline_from_str baseline_mandate (cf_recovery_fraction patrol_config) = Inr rp"
    using baseline_from_mandate by metis
  have "\<exists>s. run_state (monitor_execute (recorded_monitor patrol))
     \<lparr>mn_world = (50, []), mn_report = monitor_report_new ''acc'' 0, mn_state = account_new ''acc''\<rparr> = ((), s) \<and> mn_world s = (h, l)"
    using f p by (simp add: monitor_execute_def patrol_calls rp monitor_read_def mget_def change_def mreport_def patrol_broker_calls
        log_reading_def monitor_status_def monitor_flatten_def patrol_spec_is mcall_def [of "flatten _ _ _"] flatten_done_def Let_def
        complete_flatten_def mtransition_def msave_def mfinish_def)
  then show ?thesis using p by (auto simp: monitor_once_def demo_calls Let_def)
qed

theorem monitor_only_flattens_witness:
  "\<exists>rep h l. monitor_once (recorded_monitor patrol) (50, []) = (rep, h, l) \<and> sent l \<noteq> [] \<and> mo_flatten rep \<noteq> None \<and>
     (\<forall>r \<in> set (sent l). \<exists>snap hr ids. SawSnapshot snap \<in> set l \<and> closes_position (monitor_flatten_spec patrol hr ids) snap r)"
proof -
  obtain rep h l where r: "monitor_once (recorded_monitor patrol) (50, []) = (rep, h, l)" "sent l \<noteq> []" using patrol_once by blast
  have "sound_monitor patrol" using demo_snapshots builtin_kraken_book_ok by (simp add: sound_monitor_def patrol_def demo_book_def)
  from monitor_only_flattens [OF this r] r show ?thesis by blast
qed

end
