(* ===== verification/Spec2Isabelle.thy ===== *)
theory Spec2Isabelle
  imports Pipeline_Demo Risk_Store Userref Key_Use Alerts_Props Monitor_Demo
begin

text \<open>
  A verification library for the rebalancer of SignalEngine: the service that keeps an account at the
  weights its mandate and its sleeves ask for, under limits it may never break, and that stops and
  flattens the account when it loses too much. The sources are under \<open>src/crates\<close>; a path below is
  relative to that directory.

  \<^bold>\<open>The program.\<close> A mandate (\<open>mandate-core\<close>) is what the owner signed: universe, capital, exposure and
  loss limits. \<open>rebalancer-core\<close> compiles it to exact limits (\<open>policy.rs\<close>), judges one order against them
  (\<open>guard.rs\<close>) and turns sleeve targets into a list of judged orders (\<open>planner.rs\<close>), sized by the rules of the
  venue (\<open>venue.rs\<close>). \<open>rebalancer-risk\<close> keeps the risk state of an account (\<open>state.rs\<close>), decides from the
  broker's equity when to shrink, halt and flatten (\<open>overlay.rs\<close>) and stores the state with compare and
  swap (\<open>store.rs\<close>). \<open>rebalancer-run\<close> puts a run together (\<open>pipeline.rs\<close>): kill flag, mandate, decisions
  (\<open>decision.rs\<close>), account snapshot (\<open>view.rs\<close>), reconciliation (\<open>recon.rs\<close>), risk step, plan, execution with a
  journal (\<open>stores.rs\<close>, \<open>record.rs\<close>), reconciliation again, and the kill path (\<open>flatten.rs\<close>). \<open>driver.rs\<close> finds the
  accounts that are due and runs each under its lock, \<open>monitor.rs\<close> reads every account between runs and
  takes the same kill path. Alerts raised by both are delivered by \<open>rebalancer-alerts\<close>. The venues are
  reached through \<open>broker-adapters\<close>, which prepares every order in exact decimals (\<open>decimal.rs\<close>).

  \<^bold>\<open>Where it is modelled.\<close>
    \<^item> \<open>Prelude\<close>, \<open>Ascii\<close>, \<open>State_Logic\<close>: results with the \<open>?\<close> operator, \<open>i128\<close> arithmetic with its wrap-around,
      \<open>BTreeMap\<close> and \<open>BTreeSet\<close> as lists sorted by key, Rust's ASCII string functions, the state monad with
      its before-and-after logic, and the lemma collections.
    \<^item> \<open>Decimal\<close>, \<open>Dec_Text\<close>: \<open>broker-adapters/src/decimal.rs\<close>; \<open>Dec_Math\<close>: \<open>rebalancer-core/src/dec_math.rs\<close>.
    \<^item> \<open>Broker_Types\<close>: \<open>broker-adapters/src/types.rs\<close> and \<open>error.rs\<close>; \<open>Kraken_Order\<close>, \<open>Alpaca_Order\<close>, \<open>Oanda_Order\<close>: the
      tables and \<open>prepare_order\<close> of the three venues; \<open>Userref\<close>: \<open>kraken/userref.rs\<close>; \<open>Key_Use\<close>: \<open>nonce.rs\<close> and
      \<open>key_permissions.rs\<close>.
    \<^item> \<open>Venue\<close>, \<open>Policy\<close>, \<open>Guard\<close> and \<open>Guard_Props\<close>, \<open>Planner\<close> and \<open>Plan_Legs\<close>, \<open>Plan_Run\<close>, \<open>Plan_Scale\<close>,
      \<open>Planner_Props\<close>: \<open>rebalancer-core/src\<close>; \<open>Mandate\<close>: \<open>mandate-core/src/mandate.rs\<close> and both compilers.
    \<^item> \<open>Risk_State\<close>, \<open>Risk_Machine\<close>, \<open>Risk_Overlay\<close>, \<open>Risk_Props\<close>, \<open>Risk_Store\<close>: \<open>rebalancer-risk/src\<close>.
    \<^item> \<open>Run_View\<close>, \<open>Recon\<close>, \<open>Flatten\<close> and \<open>Flatten_Props\<close>, \<open>Run_Record\<close>, \<open>Run_Store\<close>, \<open>Decision\<close>, \<open>Pipeline\<close> and
      \<open>Pipeline_Inv\<close>, \<open>Pipeline_Props\<close>, \<open>Pipeline_Demo\<close>, \<open>Driver\<close>, \<open>Monitor\<close> and \<open>Monitor_Props\<close>, \<open>Monitor_Demo\<close>:
      \<open>rebalancer-run/src\<close>.
    \<^item> \<open>Alerts\<close>, \<open>Alerts_Props\<close>: \<open>rebalancer-alerts/src\<close>.

  A struct is a record with its fields, prefixed; an enum is a datatype; a function keeps its name where
  HOL has none of that name. Stateful code is explicit state passing or the state monad over a record
  of the state; an early return is a branch. An instant is its number of nanoseconds and a date its
  number of days since 1970. Messages for people are left out; codes, and every text the code itself
  reads again, are kept.

  \<^bold>\<open>Parameters.\<close> What the sources only call is an argument. The broker is the record \<open>broker\<close> of its
  methods over a world \<open>'w\<close> that every call may change, and so are data source, prices, stores, notifier,
  kill flag, clock and lock (\<open>run_context\<close>, \<open>services\<close>, \<open>monitor_context\<close>): the theorems on runs hold for every
  one of them. \<open>plan_env\<close>, \<open>flat_text\<close> and \<open>run_text\<close> have SHA-256, the canonical hash, the formatting of instants
  and the \<open>Display\<close> and \<open>Debug\<close> texts; \<open>rules\<close> has the published trading rules, a crate that is not in the
  repository, and the float arithmetic of the weights. An \<open>f64\<close> of a mandate is what the code observes of
  it: its rational value or its being NaN or infinite, and its texts. \<open>catch_unwind\<close> is a parameter of the
  driver and of the monitor; JSON arrives as a value tree.

  \<^bold>\<open>What is proved.\<close>
    \<^item> Numbers: decimals denote rationals, and comparison, arithmetic, rounding and printing are the exact
      operations on them up to the documented rounding; an overflow is an error, never a wrong value.
    \<^item> Orders at a venue: what \<open>prepare_order\<close> accepts is never larger or worse priced than asked and within
      the venue's minimums; the rounding the planner relies on is the locale \<open>venue_rounding\<close>.
    \<^item> Guard and planner: an allowed order keeps every limit of the mandate, also on a halted account and
      without a usable mandate; a plan is a run of allowed orders (\<open>guarded_run\<close>), opens no short where none
      is permitted and never passes its targets.
    \<^item> Risk: every reachable account state is well formed, a halt is left only by a person, the decision
      refines a rational specification, and stored histories only grow.
    \<^item> Kill path: for every broker, a flatten only reduces positions of the mandate's universe, its covers of an
      instrument stay within the first short it saw, and its flat verdict is backed by the last snapshot.
    \<^item> Runs: a run respects its mode, sends only orders of a plan made under the compiled mandate or of
      the kill path, sends nothing when it refuses, asks for an order once and after journaling it, and
      marks a decision as acted only when every order of its plan was taken up and executed, at least in part. Run records are immutable and leases exclusive.
    \<^item> Ticks: an account is run for one slot a day, and once the record of the slot is stored no later tick of the day
      trades. The monitor sends no order but those of a flatten of a live account.
    \<^item> Alerts: no alert up to the watermark is without its delivery row, and a row is mailed once.
    \<^item> Mandates: the validator accepts exactly the mandates that satisfy the written rules, and what the
      compilers return is well formed.

  \<^bold>\<open>Interfaces.\<close> A contract that one component relies on is a locale, interpreted on the model's own
  definitions: \<open>ordered_map\<close> (\<open>btm\<close>), \<open>venue_rounding\<close> (Kraken, Alpaca and OANDA), \<open>state_store\<close> (\<open>ms\<close>), \<open>run_store\<close>
  (\<open>rms\<close>), \<open>nonce_store\<close> (\<open>nmem\<close>, \<open>nfile\<close>) and \<open>delivery_ledger\<close> (\<open>mem\<close>). What the steps of a run preserve is proved
  once in \<open>run_invariant\<close> and its extensions \<open>refusing_invariant\<close>, \<open>trading_invariant\<close>, \<open>whole_invariant\<close>,
  \<open>complete_invariant\<close> and \<open>blind_invariant\<close>; each property of a run is an interpretation of one of them. The recorder of
  \<open>Flatten_Props\<close> puts a broker behind a log of the snapshots it returned and the orders it was asked for.

  \<^bold>\<open>Loops.\<close> The polls of an order, the rounds of a flatten, the tag indices and the batches of a tick are counted
  in the source, and the recursions here are on those counters, so that every function is total and no
  fuel is added. The probing loop of \<open>Userref\<close> has no counter: it is a partial function, and \<open>assign_returns\<close>
  proves that it returns.

  \<^bold>\<open>Not modelled.\<close> Network, files and processes: the HTTP clients, signatures and JSON response parsers of the
  adapters, the e-mail request and the heartbeat ping, the market-data sources, the service binary and the
  SQL of \<open>rebalancer-store\<close>, whose traits are modelled by their contracts and in-memory implementations.
  Tables: the strategy library. Test support: \<open>fake-broker\<close>, \<open>portfolio-parity\<close>, the test kits. The
  streaming engine (order books, signal generation and routing, execution handler, strategy host,
  portfolio) is a separate program of asynchronous tasks over floats and a message broker, which the
  rebalancer does not call. Concurrency between processes enters only through the lock, the lease and
  the compare-and-swap version, whose effects are modelled.
\<close>

section \<open>One run a day\<close>

text \<open>A run store beside the rest of the world.\<close>

definition on_store :: "(run_mem \<Rightarrow> 'a \<times> run_mem) \<Rightarrow> 'w \<times> run_mem \<Rightarrow> 'a \<times> 'w \<times> run_mem" where
  "on_store f = (\<lambda>(w, st). case f st of (x, st') \<Rightarrow> (x, w, st'))"

lemma context_of_key:
  "run_key_new (cx_account_id (context_of sv rt sp)) (cx_scheduled_for (context_of sv rt sp)) (map ss_id (cx_sleeves (context_of sv rt sp)))
    = spec_key sp"
  by (simp add: context_of_def spec_key_def)

text \<open>
  A day is traded once. When the run an account was due at some instant of a day has been finished in
  the run store, then after any further calls on the store a run of the account that comes due at
  another instant of that day sends nothing, whatever the broker, the other stores and the data answer; it
  returns the stored record unless the store fails.
\<close>

theorem day_is_traded_once:
  fixes sv :: "('p, 'w \<times> run_mem) services"
  assumes due: "due_run t1 a = Some s1" "due_run t2 a = Some s2" "date_naive t1 = date_naive t2"
    and fin: "rm_finish r st0 = (Inr (), st1)" "rr_key r = spec_key s1" "st = run_store_calls rm_call cs st1"
    and sv: "\<And>k d t l. sv_begin sv k d t l = on_store (rm_begin k d t l)" "\<And>x. snd (snd (sv_now sv x)) = snd x"
    and run: "run_once (recorded (context_of sv rt s2)) cache ((w, st), []) = (rec, s)"
  shows "sent (snd (rn_world s)) = [] \<and> (rm_fail_next st = 0 \<longrightarrow> rec = r)"
proof -
  let ?cx = "context_of sv rt s2"
  have "rm_call (FinishCall r) st0 = (RUnit, st1)" using fin(1) by (simp add: reply_def)
  from rms.finishes [OF this] have "rm_entries st (rr_key r) = Some (Done r)" using fin(3) by (simp add: rms.done_stays)
  then have entry: "rm_entries st (spec_key s2) = Some (Done r)" using fin(2) due_same_key [OF due(1,2)] due(3) by simp
  obtain t w1 where now: "sv_now sv (w, st) = (t, w1, st)" using sv(2) [of "(w, st)"] by (metis prod.collapse snd_conv)
  then have n: "bk_now (cx_broker ?cx) (w, st) = (t, w1, st)" by (simp add: context_of_def runtime_broker_def)
  have b: "cx_begin ?cx k d t l (w1, st) = (case rm_begin k d t l st of (x, st') \<Rightarrow> (x, w1, st'))" for k d l
    using sv(1) by (simp add: context_of_def on_store_def)
  show ?thesis
  proof (cases "rm_fail_next st = 0")
    case True
    then have "rm_begin (spec_key s2) d t l st = (Inr (AlreadyDone r), st)" for d l
      using entry by (simp add: rm_begin_def rm_check_def)
    from replay_is_noop [OF b [of "spec_key s2", unfolded this, simplified, folded context_of_key [of sv rt]] n, of cache] run
    show ?thesis by simp
  next
    case False
    then have "rm_begin k d t l st = (Inl RsUnavailable, st\<lparr>rm_fail_next := rm_fail_next st - 1\<rparr>)" for k d l
      by (simp add: rm_begin_def rm_check_def)
    from store_down_sends_nothing [OF run n b [unfolded this, simplified]] False show ?thesis by simp
  qed
qed

end
